(* ===== verification/SaxoPrelude.thy ===== *)
theory SaxoPrelude
  imports Main "HOL-Library.Sublist"
begin

text \<open>
  Shared vocabulary of the development: results that may raise (a sum type with the
  exception on the left), sequencing of raising steps, list comprehensions whose body
  may raise, transactions over a state, keyed tables held as lists, and the interface
  of a keyed store that the database components rely on.
\<close>

named_theorems raise_simps "equations for sequencing steps that may raise"
named_theorems table_simps "laws of keyed tables"

section \<open>Computations that may raise\<close>

definition ebind :: "'e + 'a \<Rightarrow> ('a \<Rightarrow> 'e + 'b) \<Rightarrow> 'e + 'b" where
  "ebind r k = (case r of Inl e \<Rightarrow> Inl e | Inr v \<Rightarrow> k v)"

lemma ebind_Inl [simp, raise_simps]: "ebind (Inl e) k = Inl e"
  by (simp add: ebind_def)

lemma ebind_Inr [simp, raise_simps]: "ebind (Inr v) k = k v"
  by (simp add: ebind_def)

lemma ebind_eq_Inr [raise_simps]:
  "ebind r k = Inr w \<longleftrightarrow> (\<exists>v. r = Inr v \<and> k v = Inr w)"
  by (cases r) auto

lemma ebind_eq_Inl:
  "ebind r k = Inl e \<longleftrightarrow> r = Inl e \<or> (\<exists>v. r = Inr v \<and> k v = Inl e)"
  by (cases r) auto

text \<open>A guard of the source: an early \<open>raise\<close> when the condition holds.\<close>

definition raise_when :: "bool \<Rightarrow> 'e \<Rightarrow> 'e + unit" where
  "raise_when b e = (if b then Inl e else Inr ())"

lemma raise_when_simps [simp, raise_simps]:
  "raise_when True e = Inl e" "raise_when False e = Inr ()"
  by (simp_all add: raise_when_def)

lemma raise_when_Inr [simp]: "raise_when b e = Inr u \<longleftrightarrow> \<not> b"
  by (simp add: raise_when_def)

lemma raise_when_Inl [simp]: "raise_when b e = Inl e' \<longleftrightarrow> b \<and> e' = e"
  by (auto simp: raise_when_def)

text \<open>A list comprehension \<open>[f(x) for x in xs]\<close>: the first element that raises stops it.\<close>

fun emap :: "('a \<Rightarrow> 'e + 'b) \<Rightarrow> 'a list \<Rightarrow> 'e + 'b list" where
  "emap f [] = Inr []"
| "emap f (x # xs) = ebind (f x) (\<lambda>y. ebind (emap f xs) (\<lambda>ys. Inr (y # ys)))"

lemma emap_Inr_iff: "emap f xs = Inr ys \<longleftrightarrow> list_all2 (\<lambda>x y. f x = Inr y) xs ys"
proof (induction xs arbitrary: ys)
  case Nil
  show ?case by auto
next
  case (Cons x xs)
  then show ?case
    by (cases ys) (auto simp: ebind_eq_Inr)
qed

lemma emap_length: "emap f xs = Inr ys \<Longrightarrow> length ys = length xs"
  by (auto simp: emap_Inr_iff list_all2_lengthD)

lemma emap_set:
  assumes "emap f xs = Inr ys" and "y \<in> set ys"
  shows "\<exists>x \<in> set xs. f x = Inr y"
proof -
  from assms(1) have all: "list_all2 (\<lambda>x y. f x = Inr y) xs ys" by (simp add: emap_Inr_iff)
  from assms(2) obtain i where "i < length ys" "y = ys ! i" by (auto simp: in_set_conv_nth)
  with all have "i < length xs" "f (xs ! i) = Inr y"
    by (auto simp: list_all2_conv_all_nth)
  then show ?thesis by (auto intro: bexI [where x = "xs ! i"])
qed

lemma emap_Inl: "emap f xs = Inl e \<Longrightarrow> \<exists>x \<in> set xs. f x = Inl e"
  by (induction xs) (auto simp: ebind_eq_Inl)

lemma emap_total: "(\<forall>x \<in> set xs. \<exists>y. f x = Inr y) \<Longrightarrow> \<exists>ys. emap f xs = Inr ys"
  by (induction xs) auto

section \<open>Transactions\<close>

text \<open>
  A block \<open>with conn.transaction()\<close>: the body runs on the state; when it raises, the
  state is rolled back to what it was.
\<close>

definition transaction :: "('s \<Rightarrow> 'e + 'a \<times> 's) \<Rightarrow> 's \<Rightarrow> ('e + 'a) \<times> 's" where
  "transaction body s = (case body s of Inl e \<Rightarrow> (Inl e, s) | Inr (a, s') \<Rightarrow> (Inr a, s'))"

lemma transaction_rollback: "fst (transaction body s) = Inl e \<Longrightarrow> snd (transaction body s) = s"
  by (auto simp: transaction_def split: sum.splits prod.splits)

lemma transaction_commit:
  "transaction body s = (Inr a, s') \<longleftrightarrow> body s = Inr (a, s')"
  by (auto simp: transaction_def split: sum.splits prod.splits)

section \<open>Lists\<close>

lemma sorted_wrt_filter_map:
  "sorted_wrt R xs \<Longrightarrow> sorted_wrt R (filter P xs)"
  by (induction xs) auto

lemma filter_partition_length:
  "length (filter P xs) + length (filter (\<lambda>x. \<not> P x) xs) = length xs"
  by (induction xs) auto

lemma takeWhile_rev_all: "x \<in> set (takeWhile P xs) \<Longrightarrow> P x"
  by (rule set_takeWhileD [THEN conjunct2])

lemma length_takeWhile_strict:
  "\<exists>x \<in> set xs. \<not> P x \<Longrightarrow> length (takeWhile P xs) < length xs"
  by (induction xs) auto

text \<open>The last element that satisfies a test, as a loop over \<open>reversed(xs)\<close> finds it.\<close>

definition find_last :: "('a \<Rightarrow> bool) \<Rightarrow> 'a list \<Rightarrow> 'a option" where
  "find_last P xs = find P (rev xs)"

lemma find_last_Some: "find_last P xs = Some x \<Longrightarrow> P x \<and> x \<in> set xs"
  by (auto simp: find_last_def find_Some_iff in_set_conv_nth rev_nth)
    (metis diff_Suc_less diff_diff_cancel length_rev less_imp_diff_less nth_mem rev_nth set_rev in_set_conv_nth)

section \<open>Keyed tables\<close>

text \<open>
  A table with a unique key is a list of rows. \<open>tbl_upsert\<close> is
  \<open>INSERT ... ON CONFLICT (key) DO UPDATE\<close>: the row with the key is replaced in place,
  a new key is appended. \<open>tbl_insert_new\<close> is \<open>ON CONFLICT (key) DO NOTHING\<close>.
\<close>

definition tbl_lookup :: "('r \<Rightarrow> 'k) \<Rightarrow> 'k \<Rightarrow> 'r list \<Rightarrow> 'r option" where
  "tbl_lookup key k t = find (\<lambda>r. key r = k) t"

fun tbl_upsert :: "('r \<Rightarrow> 'k) \<Rightarrow> 'r \<Rightarrow> 'r list \<Rightarrow> 'r list" where
  "tbl_upsert key r [] = [r]"
| "tbl_upsert key r (x # xs) = (if key x = key r then r # xs else x # tbl_upsert key r xs)"

definition tbl_insert_new :: "('r \<Rightarrow> 'k) \<Rightarrow> 'r \<Rightarrow> 'r list \<Rightarrow> 'r list" where
  "tbl_insert_new key r t = (if tbl_lookup key (key r) t = None then t @ [r] else t)"

definition tbl_wf :: "('r \<Rightarrow> 'k) \<Rightarrow> 'r list \<Rightarrow> bool" where
  "tbl_wf key t \<longleftrightarrow> distinct (map key t)"

lemma tbl_lookup_Nil [simp]: "tbl_lookup key k [] = None"
  by (simp add: tbl_lookup_def)

lemma tbl_lookup_Cons [simp]:
  "tbl_lookup key k (x # xs) = (if key x = k then Some x else tbl_lookup key k xs)"
  by (simp add: tbl_lookup_def)

lemma tbl_lookup_Some: "tbl_lookup key k t = Some r \<Longrightarrow> r \<in> set t \<and> key r = k"
  by (induction t) (auto split: if_splits)

lemma tbl_lookup_None: "tbl_lookup key k t = None \<longleftrightarrow> k \<notin> key ` set t"
  by (induction t) auto

lemma tbl_lookup_iff:
  "tbl_wf key t \<Longrightarrow> tbl_lookup key k t = Some r \<longleftrightarrow> r \<in> set t \<and> key r = k"
  by (induction t) (auto simp: tbl_wf_def)

lemma tbl_lookup_upsert [table_simps]:
  "tbl_lookup key k (tbl_upsert key r t) = (if k = key r then Some r else tbl_lookup key k t)"
  by (induction t) auto

lemma tbl_upsert_keys: "key ` set (tbl_upsert key r t) = insert (key r) (key ` set t)"
  by (induction t) auto

lemma tbl_wf_upsert [table_simps]: "tbl_wf key t \<Longrightarrow> tbl_wf key (tbl_upsert key r t)"
proof (induction t)
  case Nil
  then show ?case by (simp add: tbl_wf_def)
next
  case (Cons x xs)
  then have "tbl_wf key (tbl_upsert key r xs)" by (simp add: tbl_wf_def)
  moreover have "key x \<noteq> key r \<Longrightarrow> key x \<notin> key ` set (tbl_upsert key r xs)"
    using Cons.prems by (simp add: tbl_upsert_keys tbl_wf_def)
  ultimately show ?case using Cons.prems by (auto simp: tbl_wf_def)
qed

lemma tbl_lookup_filter:
  "tbl_wf key t \<Longrightarrow> tbl_lookup key k (filter P t) =
     (case tbl_lookup key k t of None \<Rightarrow> None | Some r \<Rightarrow> if P r then Some r else None)"
proof (induction t)
  case Nil
  then show ?case by simp
next
  case (Cons x xs)
  then have "key x = k \<Longrightarrow> tbl_lookup key k xs = None"
    by (auto simp: tbl_lookup_None tbl_wf_def)
  with Cons show ?case by (auto simp: tbl_wf_def)
qed

lemma tbl_wf_filter [table_simps]: "tbl_wf key t \<Longrightarrow> tbl_wf key (filter P t)"
  by (induction t) (auto simp: tbl_wf_def)

lemma tbl_lookup_insert_new [table_simps]:
  "tbl_lookup key k (tbl_insert_new key r t) =
     (if k = key r \<and> tbl_lookup key k t = None then Some r else tbl_lookup key k t)"
proof -
  have "tbl_lookup key k (t @ [r]) =
      (case tbl_lookup key k t of None \<Rightarrow> (if key r = k then Some r else None) | Some x \<Rightarrow> Some x)"
    by (induction t) auto
  then show ?thesis by (auto simp: tbl_insert_new_def split: option.splits)
qed

lemma tbl_wf_insert_new [table_simps]: "tbl_wf key t \<Longrightarrow> tbl_wf key (tbl_insert_new key r t)"
  by (auto simp: tbl_insert_new_def tbl_wf_def tbl_lookup_None)

section \<open>The interface of a keyed store\<close>

text \<open>
  What the ingest components rely on when they write a batch to a table: a lookup, an
  upsert and a deletion by predicate on keys, with the map laws, and a well-formedness
  that the operations keep.
\<close>

locale keyed_store =
  fixes key :: "'r \<Rightarrow> 'k"
    and lookup :: "'k \<Rightarrow> 't \<Rightarrow> 'r option"
    and upsert :: "'r \<Rightarrow> 't \<Rightarrow> 't"
    and delete_keys :: "('k \<Rightarrow> bool) \<Rightarrow> 't \<Rightarrow> 't"
    and wf :: "'t \<Rightarrow> bool"
  assumes lookup_upsert: "lookup k (upsert r t) = (if k = key r then Some r else lookup k t)"
    and wf_upsert: "wf t \<Longrightarrow> wf (upsert r t)"
    and lookup_delete: "wf t \<Longrightarrow> lookup k (delete_keys P t) = (if P k then None else lookup k t)"
    and wf_delete: "wf t \<Longrightarrow> wf (delete_keys P t)"
begin

lemma lookup_upserts:
  "lookup k (fold upsert rs t) =
     (case find_last (\<lambda>r. key r = k) rs of None \<Rightarrow> lookup k t | Some r \<Rightarrow> Some r)"
proof (induction rs rule: rev_induct)
  case Nil
  then show ?case by (simp add: find_last_def)
next
  case (snoc r rs)
  then show ?case by (auto simp: find_last_def lookup_upsert)
qed

lemma wf_upserts: "wf t \<Longrightarrow> wf (fold upsert rs t)"
  by (induction rs arbitrary: t) (auto simp: wf_upsert)

lemma lookup_upserts_other:
  assumes "k \<notin> key ` set rs"
  shows "lookup k (fold upsert rs t) = lookup k t"
  using assms by (induction rs arbitrary: t) (auto simp: lookup_upsert)

lemma lookup_upserts_distinct:
  assumes "distinct (map key rs)" and "r \<in> set rs"
  shows "lookup (key r) (fold upsert rs t) = Some r"
  using assms
proof (induction rs arbitrary: t)
  case Nil
  then show ?case by simp
next
  case (Cons x xs)
  show ?case
  proof (cases "r = x")
    case True
    with Cons.prems have "key r \<notin> key ` set xs" by auto
    then show ?thesis using True by (simp add: lookup_upserts_other lookup_upsert)
  next
    case False
    with Cons show ?thesis by simp
  qed
qed

text \<open>Replacing a key range by a batch: what a guarded full refetch does.\<close>

lemma lookup_replace:
  assumes "wf t" and "distinct (map key rs)"
  shows "lookup k (fold upsert rs (delete_keys P t)) =
     (if k \<in> key ` set rs then find (\<lambda>r. key r = k) rs
      else if P k then None else lookup k t)"
proof (cases "k \<in> key ` set rs")
  case True
  then obtain r where r: "r \<in> set rs" "key r = k" by auto
  have "find (\<lambda>r. key r = k) rs = Some r"
    using r assms(2) by (induction rs) auto
  moreover have "lookup k (fold upsert rs (delete_keys P t)) = Some r"
    using lookup_upserts_distinct [OF assms(2) r(1)] r(2) by simp
  ultimately show ?thesis using True by simp
next
  case False
  then show ?thesis using assms(1) by (simp add: lookup_upserts_other lookup_delete)
qed

end

definition tbl_delete_keys :: "('r \<Rightarrow> 'k) \<Rightarrow> ('k \<Rightarrow> bool) \<Rightarrow> 'r list \<Rightarrow> 'r list" where
  "tbl_delete_keys key P t = filter (\<lambda>r. \<not> P (key r)) t"

lemma tbl_lookup_delete_keys [table_simps]:
  "tbl_wf key t \<Longrightarrow>
     tbl_lookup key k (tbl_delete_keys key P t) = (if P k then None else tbl_lookup key k t)"
  by (auto simp: tbl_delete_keys_def tbl_lookup_filter split: option.splits dest: tbl_lookup_Some)

lemma tbl_wf_delete_keys [table_simps]: "tbl_wf key t \<Longrightarrow> tbl_wf key (tbl_delete_keys key P t)"
  by (simp add: tbl_delete_keys_def tbl_wf_filter)

end
