(* ===== verification/PyValues.thy ===== *)
theory PyValues
  imports SaxoPrelude Complex_Main
begin

text \<open>
  The Python values the program computes with: instants, JSON payloads, decimals under the
  default decimal context (28 significant digits, ties to even), calendar dates as
  proleptic ordinals, the texts the program parses and prints, and the exceptions it raises.

  An aware \<open>datetime\<close> is its instant in microseconds since 1970-01-01T00:00Z (Python
  compares aware datetimes by instant); a naive one keeps its wall-clock microseconds, so
  that the \<open>tzinfo is None\<close> guards of the source are branches of the model. Python
  refuses to compare a naive with an aware value; the model orders every naive value
  before every aware one, and the sorted collections only ever hold one of the two kinds.
\<close>

section \<open>Exceptions\<close>

record CrossedQuoteViolation =
  v_field :: string
  v_bid :: rat
  v_ask :: rat

datatype exn =
    BarQualityError string
  | FXBidAboveAskError "CrossedQuoteViolation list"
  | InstrumentDriftError string
  | SaxoAPIError string "int option"
  | SaxoAuthError string
  | TotalReturnContractError string
  | ValueError string
  | RuntimeError string
  | TypeError
  | KeyError
  | AttributeError
  | AssertionError
  | OverflowError
  | IndexError
  | DatabaseError string
  | OSError

section \<open>Instants\<close>

type_synonym utc = int

datatype datetime = Naive int | Aware utc

definition second :: int where "second = 1000000"
definition minute :: int where "minute = 60000000"
definition hour :: int where "hour = 3600000000"
definition day :: int where "day = 86400000000"

lemmas time_units = second_def minute_def hour_def day_def

fun tz_naive :: "datetime \<Rightarrow> bool" where
  "tz_naive (Naive _) = True"
| "tz_naive (Aware _) = False"

text \<open>\<open>value.astimezone(timezone.utc)\<close>; a naive value is read in the system zone, taken as UTC.\<close>

fun instant :: "datetime \<Rightarrow> utc" where
  "instant (Naive t) = t"
| "instant (Aware t) = t"

instantiation datetime :: linorder
begin

fun less_eq_datetime :: "datetime \<Rightarrow> datetime \<Rightarrow> bool" where
  "less_eq_datetime (Naive a) (Naive b) = (a \<le> b)"
| "less_eq_datetime (Naive a) (Aware b) = True"
| "less_eq_datetime (Aware a) (Naive b) = False"
| "less_eq_datetime (Aware a) (Aware b) = (a \<le> b)"

definition less_datetime :: "datetime \<Rightarrow> datetime \<Rightarrow> bool" where
  "less_datetime a b = (a \<le> b \<and> \<not> b \<le> a)"

instance
proof
  fix x y z :: datetime
  show "x < y \<longleftrightarrow> x \<le> y \<and> \<not> y \<le> x" by (simp add: less_datetime_def)
  show "x \<le> x" by (cases x) auto
  show "x \<le> y \<Longrightarrow> y \<le> z \<Longrightarrow> x \<le> z" by (cases x; cases y; cases z) auto
  show "x \<le> y \<Longrightarrow> y \<le> x \<Longrightarrow> x = y" by (cases x; cases y) auto
  show "x \<le> y \<or> y \<le> x" by (cases x; cases y) auto
qed

end

lemma Aware_less [simp]: "Aware a < Aware b \<longleftrightarrow> a < b"
  by (auto simp: less_datetime_def)

lemma Naive_less [simp]: "Naive a < Naive b \<longleftrightarrow> a < b"
  by (auto simp: less_datetime_def)

lemma Naive_less_Aware [simp]: "Naive a < Aware b" "\<not> Aware b < Naive a"
  by (auto simp: less_datetime_def)

section \<open>Decimals\<close>

text \<open>
  A decimal is its value (Python's \<open>==\<close> on decimals compares values) or one of the special
  values. Arithmetic rounds to the context's 28 significant digits, half to even.
\<close>

datatype decimal = Fin rat | NaN | Infinite bool

definition pow10 :: "int \<Rightarrow> rat" where
  "pow10 e = (if 0 \<le> e then 10 ^ nat e else 1 / 10 ^ nat (- e))"

lemma pow10_pos [simp]: "0 < pow10 e"
  by (simp add: pow10_def)

lemma pow10_nonzero [simp]: "pow10 e \<noteq> 0" "\<bar>pow10 e\<bar> = pow10 e"
  by (simp_all add: pow10_def)

lemma pow10_powi: "pow10 e = 10 powi e"
  by (simp add: pow10_def power_int_def field_simps)

lemma pow10_add: "pow10 (a + b) = pow10 a * pow10 b"
  by (simp add: pow10_powi power_int_add)

lemma pow10_mono: "a \<le> b \<Longrightarrow> pow10 a \<le> pow10 b"
  by (simp add: pow10_powi power_int_increasing)

fun ndigits :: "nat \<Rightarrow> nat" where
  "ndigits n = (if n < 10 then 1 else Suc (ndigits (n div 10)))"

declare ndigits.simps [simp del]

lemma ndigits_upper: "n < 10 ^ ndigits n"
proof (induction n rule: ndigits.induct)
  case (1 n)
  show ?case
  proof (cases "n < 10")
    case True
    then show ?thesis by (simp add: ndigits.simps [of n])
  next
    case False
    with 1 have "n div 10 < 10 ^ ndigits (n div 10)" by simp
    then have "n < 10 * 10 ^ ndigits (n div 10)"
      using div_less_iff_less_mult [of 10 n "10 ^ ndigits (n div 10)"] by (simp add: mult.commute)
    with False show ?thesis by (simp add: ndigits.simps [of n])
  qed
qed

lemma ndigits_lower: "0 < n \<Longrightarrow> 10 ^ (ndigits n - 1) \<le> n"
proof (induction n rule: ndigits.induct)
  case (1 n)
  show ?case
  proof (cases "n < 10")
    case True
    with 1 show ?thesis by (simp add: ndigits.simps [of n])
  next
    case False
    then have "0 < n div 10" by simp
    with 1 False have "10 ^ (ndigits (n div 10) - 1) \<le> n div 10" by simp
    then have "10 * 10 ^ (ndigits (n div 10) - 1) \<le> n"
      using less_eq_div_iff_mult_less_eq [of 10] by (simp add: mult.commute)
    moreover have "0 < ndigits (n div 10)" by (simp add: ndigits.simps [of "n div 10"])
    ultimately show ?thesis using False
      by (simp add: ndigits.simps [of n] power_eq_if [of 10 "ndigits (n div 10)"])
  qed
qed

text \<open>The exponent of the last of the 28 digits kept: \<open>10^(s+27) <= |x| < 10^(s+28)\<close>.\<close>

definition sig_exp :: "rat \<Rightarrow> int" where
  "sig_exp x =
     (let (a, b) = quotient_of \<bar>x\<bar>;
          k = int (ndigits (nat a)) - int (ndigits (nat b))
      in if \<bar>x\<bar> < pow10 k then k - 28 else k - 27)"

definition round_half_even :: "rat \<Rightarrow> int" where
  "round_half_even x =
     (let f = \<lfloor>x\<rfloor>; d = x - of_int f
      in if d < 1 / 2 then f else if 1 / 2 < d then f + 1 else if even f then f else f + 1)"

definition ctx_round :: "rat \<Rightarrow> rat" where
  "ctx_round x =
     (if x = 0 then 0
      else let s = pow10 (sig_exp x) in of_int (round_half_even (x / s)) * s)"

definition dec_add :: "rat \<Rightarrow> rat \<Rightarrow> rat" where "dec_add a b = ctx_round (a + b)"
definition dec_div :: "rat \<Rightarrow> rat \<Rightarrow> rat" where "dec_div a b = ctx_round (a / b)"

lemma round_half_even_of_int [simp]: "round_half_even (of_int n) = n"
  by (simp add: round_half_even_def)

lemma pow10_nat: "pow10 (int n) = 10 ^ n"
  by (simp add: pow10_def)

lemma sig_exp_lower:
  assumes "x \<noteq> 0"
  shows "pow10 (sig_exp x + 27) \<le> \<bar>x\<bar>"
proof -
  obtain a b where q: "quotient_of \<bar>x\<bar> = (a, b)" by (cases "quotient_of \<bar>x\<bar>")
  then have b: "0 < b" and ab: "\<bar>x\<bar> = of_int a / of_int b"
    by (auto simp: quotient_of_denom_pos quotient_of_div)
  from ab b assms have a: "0 < a"
    by (metis abs_ge_zero abs_zero divide_eq_0_iff of_int_0_less_iff zero_less_abs_iff
        zero_less_divide_iff of_int_pos less_asym)
  let ?da = "ndigits (nat a)" and ?db = "ndigits (nat b)"
  have da: "0 < ?da" by (simp add: ndigits.simps [of "nat a"])
  have "10 ^ (?da - 1) \<le> nat a" using a by (intro ndigits_lower) simp
  then have "of_nat (10 ^ (?da - 1)) \<le> (of_nat (nat a) :: rat)" by (simp only: of_nat_le_iff)
  then have la: "pow10 (int ?da - 1) \<le> of_int a"
    using a da by (simp add: pow10_def nat_diff_distrib)
  have "nat b < 10 ^ ?db" by (rule ndigits_upper)
  then have "of_nat (nat b) < (of_nat (10 ^ ?db) :: rat)" by (simp only: of_nat_less_iff)
  then have ub: "of_int b < pow10 (int ?db)" using b by (simp add: pow10_nat)
  have "pow10 (int ?da - 1 - int ?db) * of_int b \<le> pow10 (int ?da - 1 - int ?db) * pow10 (int ?db)"
    using ub by (simp add: mult_left_mono less_imp_le)
  also have "\<dots> = pow10 (int ?da - 1)" by (simp flip: pow10_add)
  finally have "pow10 (int ?da - 1 - int ?db) * of_int b \<le> of_int a" using la by simp
  then have low: "pow10 (int ?da - 1 - int ?db) \<le> \<bar>x\<bar>"
    using b by (simp add: ab pos_le_divide_eq)
  show ?thesis
    using low q by (auto simp: sig_exp_def Let_def algebra_simps)
qed

text \<open>A value with at most 28 significant digits is not changed by the context.\<close>

lemma ctx_round_exact:
  assumes "x = of_int c * pow10 e" and "\<bar>c\<bar> < 10 ^ 28"
  shows "ctx_round x = x"
proof (cases "x = 0")
  case True
  then show ?thesis by (simp add: ctx_round_def)
next
  case False
  have "\<bar>x\<bar> < pow10 (28 + e)"
  proof -
    have "\<bar>of_int c :: rat\<bar> < 10 ^ 28" using assms(2)
      by (metis of_int_abs of_int_less_iff of_int_numeral of_int_power)
    then have "\<bar>of_int c\<bar> * pow10 e < 10 ^ 28 * pow10 e" by simp
    also have "10 ^ 28 * pow10 e = pow10 (28 + e)"
      using pow10_nat [of 28] by (simp add: pow10_add)
    finally show ?thesis using assms(1) by (simp add: abs_mult)
  qed
  with sig_exp_lower [OF False] have "pow10 (sig_exp x + 27) < pow10 (28 + e)" by simp
  then have "sig_exp x + 27 < 28 + e"
    using pow10_mono by (metis leD leI)
  then have "sig_exp x \<le> e" by simp
  then have "pow10 (e - sig_exp x) = of_int (10 ^ nat (e - sig_exp x))"
    by (simp add: pow10_def)
  moreover have "x / pow10 (sig_exp x) = of_int c * pow10 (e - sig_exp x)"
    using assms(1) pow10_add [of "e - sig_exp x" "sig_exp x"] by (simp add: field_simps)
  ultimately have "x / pow10 (sig_exp x) = of_int (c * 10 ^ nat (e - sig_exp x))"
    by simp
  then have "of_int (round_half_even (x / pow10 (sig_exp x))) = x / pow10 (sig_exp x)"
    by (simp only: round_half_even_of_int)
  then show ?thesis using False by (simp add: ctx_round_def)
qed

end
