(* ===== verification/PyText.thy ===== *)
theory PyText
  imports PyValues
begin

text \<open>
  Texts and JSON payloads as the program reads them: \<open>Decimal(str(value))\<close>,
  \<open>int(value)\<close>, \<open>datetime.fromisoformat\<close> (the calendar format with separators,
  \<open>YYYY-MM-DD\<close> optionally followed by a time and an offset; the compact and week formats,
  which neither the provider nor this program writes, count as malformed), calendar dates
  as proleptic ordinals with Python's weekday numbering, and the fixed-width texts the
  scheduler prints.
\<close>

section \<open>JSON payloads\<close>

datatype json =
    JNull
  | JBool bool
  | JInt int
  | JDec decimal
  | JStr string
  | JArr "json list"
  | JObj "(string \<times> json) list"

text \<open>\<open>payload.get(key)\<close> on a dictionary: \<open>None\<close> and an absent key are both \<open>JNull\<close>.\<close>

definition jget :: "(string \<times> json) list \<Rightarrow> string \<Rightarrow> json" where
  "jget kvs k = (case map_of kvs k of None \<Rightarrow> JNull | Some v \<Rightarrow> v)"

text \<open>Python truthiness of a payload value.\<close>

fun truthy :: "json \<Rightarrow> bool" where
  "truthy JNull = False"
| "truthy (JBool b) = b"
| "truthy (JInt i) = (i \<noteq> 0)"
| "truthy (JDec (Fin q)) = (q \<noteq> 0)"
| "truthy (JDec _) = True"
| "truthy (JStr s) = (s \<noteq> [])"
| "truthy (JArr xs) = (xs \<noteq> [])"
| "truthy (JObj kvs) = (kvs \<noteq> [])"

section \<open>Characters and digits\<close>

definition ccode :: "char \<Rightarrow> nat" where "ccode c = of_char c"

definition is_digit :: "char \<Rightarrow> bool" where
  "is_digit c \<longleftrightarrow> 48 \<le> ccode c \<and> ccode c \<le> 57"

definition is_space :: "char \<Rightarrow> bool" where
  "is_space c \<longleftrightarrow> ccode c \<in> {9, 10, 11, 12, 13, 28, 29, 30, 31, 32}"

definition strip :: "string \<Rightarrow> string" where
  "strip s = rev (dropWhile is_space (rev (dropWhile is_space s)))"

definition lower_char :: "char \<Rightarrow> char" where
  "lower_char c = (if 65 \<le> ccode c \<and> ccode c \<le> 90 then char_of (ccode c + 32) else c)"

definition upper_char :: "char \<Rightarrow> char" where
  "upper_char c = (if 97 \<le> ccode c \<and> ccode c \<le> 122 then char_of (ccode c - 32) else c)"

definition lower :: "string \<Rightarrow> string" where "lower s = map lower_char s"
definition upper :: "string \<Rightarrow> string" where "upper s = map upper_char s"

definition digits_value :: "string \<Rightarrow> nat" where
  "digits_value s = foldl (\<lambda>n c. 10 * n + (ccode c - 48)) 0 s"

definition starts_with :: "string \<Rightarrow> string \<Rightarrow> bool" where
  "starts_with p s \<longleftrightarrow> take (length p) s = p"

fun split_sign :: "string \<Rightarrow> bool \<times> string" where
  "split_sign (c # s) = (if c = CHR ''-'' then (True, s) else if c = CHR ''+'' then (False, s)
     else (False, c # s))"
| "split_sign [] = (False, [])"

text \<open>\<open>int(text)\<close>: surrounding blanks, a sign, digits with single underscores between them.\<close>

fun int_digits :: "bool \<Rightarrow> string \<Rightarrow> string option" where
  "int_digits prev [] = (if prev then Some [] else None)"
| "int_digits prev (c # s) =
     (if is_digit c then map_option ((#) c) (int_digits True s)
      else if c = CHR ''_'' \<and> prev then int_digits False s else None)"

definition int_of_text :: "string \<Rightarrow> exn + int" where
  "int_of_text s =
     (let (neg, u) = split_sign (strip s)
      in case int_digits False u of
           None \<Rightarrow> Inl (ValueError ''invalid literal for int()'')
         | Some ds \<Rightarrow> Inr (if neg then - int (digits_value ds) else int (digits_value ds)))"

text \<open>\<open>int(value)\<close> of a payload value.\<close>

definition trunc_rat :: "rat \<Rightarrow> int" where
  "trunc_rat q = (if 0 \<le> q then \<lfloor>q\<rfloor> else \<lceil>q\<rceil>)"

fun py_int :: "json \<Rightarrow> exn + int" where
  "py_int (JInt i) = Inr i"
| "py_int (JBool b) = Inr (if b then 1 else 0)"
| "py_int (JDec (Fin q)) = Inr (trunc_rat q)"
| "py_int (JDec NaN) = Inl (ValueError ''cannot convert NaN to integer'')"
| "py_int (JDec (Infinite _)) = Inl OverflowError"
| "py_int (JStr s) = int_of_text s"
| "py_int _ = Inl TypeError"

section \<open>Decimal texts\<close>

definition dec_special :: "bool \<Rightarrow> string \<Rightarrow> decimal option" where
  "dec_special neg u =
     (if u = ''inf'' \<or> u = ''infinity'' then Some (Infinite neg)
      else if starts_with ''nan'' u \<and> list_all is_digit (drop 3 u) then Some NaN
      else if starts_with ''snan'' u \<and> list_all is_digit (drop 4 u) then Some NaN
      else None)"

definition dec_exponent :: "string \<Rightarrow> int option" where
  "dec_exponent u =
     (case u of
        [] \<Rightarrow> Some 0
      | c # r \<Rightarrow>
          (if c = CHR ''e'' then
             (let (neg, ds) = split_sign r
              in if ds \<noteq> [] \<and> list_all is_digit ds
                 then Some (if neg then - int (digits_value ds) else int (digits_value ds))
                 else None)
           else None))"

definition dec_finite :: "bool \<Rightarrow> string \<Rightarrow> decimal option" where
  "dec_finite neg u =
     (let i = takeWhile is_digit u; r = dropWhile is_digit u;
          (f, r') = (case r of
              [] \<Rightarrow> ([], [])
            | c # r1 \<Rightarrow> if c = CHR ''.'' then (takeWhile is_digit r1, dropWhile is_digit r1)
                        else ([], r))
      in if i = [] \<and> f = [] then None
         else case dec_exponent r' of
                None \<Rightarrow> None
              | Some e \<Rightarrow>
                  (let v = of_nat (digits_value (i @ f)) * pow10 (e - int (length f))
                   in Some (Fin (if neg then - v else v))))"

definition dec_of_text :: "string \<Rightarrow> decimal option" where
  "dec_of_text s =
     (let (neg, t) = split_sign (filter (\<lambda>c. c \<noteq> CHR ''_'') (strip s)); u = lower t
      in case dec_special neg u of Some d \<Rightarrow> Some d | None \<Rightarrow> dec_finite neg u)"

text \<open>
  \<open>Decimal(str(value))\<close>: numbers print as the text of the same decimal; \<open>None\<close>,
  booleans, lists and dictionaries print as texts that no decimal has.
\<close>

fun dec_of_json :: "json \<Rightarrow> decimal option" where
  "dec_of_json (JInt i) = Some (Fin (of_int i))"
| "dec_of_json (JDec d) = Some d"
| "dec_of_json (JStr s) = dec_of_text s"
| "dec_of_json _ = None"

section \<open>Calendar dates\<close>

text \<open>
  A \<open>date\<close> is its proleptic Gregorian ordinal (1 is 0001-01-01), computed as CPython's
  \<open>_ymd2ord\<close> and \<open>_ord2ymd\<close> do. \<open>weekday\<close> is 0 on Monday.
\<close>

type_synonym date = int

definition leap :: "int \<Rightarrow> bool" where
  "leap y \<longleftrightarrow> 4 dvd y \<and> (\<not> 100 dvd y \<or> 400 dvd y)"

definition days_before_year :: "int \<Rightarrow> int" where
  "days_before_year y = (let p = y - 1 in p * 365 + p div 4 - p div 100 + p div 400)"

definition month_starts :: "int list" where
  "month_starts = [0, 31, 59, 90, 120, 151, 181, 212, 243, 273, 304, 334]"

definition days_before_month :: "int \<Rightarrow> int \<Rightarrow> int" where
  "days_before_month y m =
     month_starts ! nat (m - 1) + (if 2 < m \<and> leap y then 1 else 0)"

definition days_in_month :: "int \<Rightarrow> int \<Rightarrow> int" where
  "days_in_month y m =
     (if m = 2 then (if leap y then 29 else 28) else if m \<in> {4, 6, 9, 11} then 30 else 31)"

definition date_of :: "int \<Rightarrow> int \<Rightarrow> int \<Rightarrow> date" where
  "date_of y m d = days_before_year y + days_before_month y m + d"

definition valid_ymd :: "int \<Rightarrow> int \<Rightarrow> int \<Rightarrow> bool" where
  "valid_ymd y m d \<longleftrightarrow> 1 \<le> y \<and> y \<le> 9999 \<and> 1 \<le> m \<and> m \<le> 12 \<and> 1 \<le> d \<and> d \<le> days_in_month y m"

definition weekday :: "date \<Rightarrow> int" where
  "weekday x = (x + 6) mod 7"

text \<open>\<open>_ord2ymd\<close> finds the month by an estimate that is at most one too large.\<close>

definition month_split :: "bool \<Rightarrow> int \<Rightarrow> int \<times> int" where
  "month_split isleap r1 =
     (let month = (r1 + 50) div 32;
          preceding = month_starts ! nat (month - 1) + (if 2 < month \<and> isleap then 1 else 0)
      in if preceding \<le> r1 then (month, r1 - preceding + 1)
         else (let month' = month - 1;
                   preceding' = month_starts ! nat (month' - 1) + (if 2 < month' \<and> isleap then 1 else 0)
               in (month', r1 - preceding' + 1)))"

definition ymd_of :: "date \<Rightarrow> int \<times> int \<times> int" where
  "ymd_of x =
     (let n = x - 1;
          n400 = n div 146097; r400 = n mod 146097;
          n100 = r400 div 36524; r100 = r400 mod 36524;
          n4 = r100 div 1461; r4 = r100 mod 1461;
          n1 = r4 div 365; r1 = r4 mod 365;
          year = n400 * 400 + 1 + n100 * 100 + n4 * 4 + n1
      in if n1 = 4 \<or> n100 = 4 then (year - 1, 12, 31)
         else (year, month_split (n1 = 3 \<and> (n4 \<noteq> 24 \<or> n100 = 3)) r1))"

definition year_of :: "date \<Rightarrow> int" where "year_of x = fst (ymd_of x)"

definition epoch_ordinal :: date where "epoch_ordinal = 719163"

definition date_of_utc :: "utc \<Rightarrow> date" where "date_of_utc t = t div day + epoch_ordinal"

definition utc_of_date :: "date \<Rightarrow> utc" where "utc_of_date d = (d - epoch_ordinal) * day"

lemma epoch_ordinal_is_1970: "date_of 1970 1 1 = epoch_ordinal"
  by (simp add: date_of_def days_before_year_def days_before_month_def month_starts_def
      epoch_ordinal_def leap_def)

lemma weekday_range: "0 \<le> weekday x" "weekday x < 7"
  by (simp_all add: weekday_def)

section \<open>ISO date and time texts\<close>

definition digits_field :: "nat \<Rightarrow> string \<Rightarrow> (int \<times> string) option" where
  "digits_field n s =
     (if n \<le> length s \<and> list_all is_digit (take n s)
      then Some (int (digits_value (take n s)), drop n s) else None)"

definition skip_char :: "char \<Rightarrow> string \<Rightarrow> string option" where
  "skip_char c s = (case s of x # r \<Rightarrow> if x = c then Some r else None | [] \<Rightarrow> None)"

text \<open>\<open>YYYY-MM-DD\<close>: the date and the rest of the text.\<close>

definition parse_date_prefix :: "string \<Rightarrow> (date \<times> string) option" where
  "parse_date_prefix s =
     Option.bind (digits_field 4 s) (\<lambda>(y, s1).
     Option.bind (skip_char (CHR ''-'') s1) (\<lambda>s2.
     Option.bind (digits_field 2 s2) (\<lambda>(m, s3).
     Option.bind (skip_char (CHR ''-'') s3) (\<lambda>s4.
     Option.bind (digits_field 2 s4) (\<lambda>(d, s5).
       if valid_ymd y m d then Some (date_of y m d, s5) else None)))))"

definition date_fromisoformat :: "string \<Rightarrow> exn + date" where
  "date_fromisoformat s =
     (case parse_date_prefix s of
        Some (d, []) \<Rightarrow> Inr d
      | _ \<Rightarrow> Inl (ValueError ''Invalid isoformat string''))"

text \<open>\<open>HH[:MM[:SS[.ffffff]]]\<close> in microseconds; digits past the sixth are dropped.\<close>

definition micros_of_fraction :: "string \<Rightarrow> int" where
  "micros_of_fraction ds = int (digits_value (take 6 (ds @ ''000000'')))"

definition parse_seconds :: "string \<Rightarrow> (int \<times> string) option" where
  "parse_seconds s =
     Option.bind (digits_field 2 s) (\<lambda>(ss, s1).
       if ss \<le> 59 then
         (case s1 of
            c # r \<Rightarrow>
              (if c = CHR ''.'' \<or> c = CHR '','' then
                 (let ds = takeWhile is_digit r
                  in if ds = [] then None
                     else Some (ss * second + micros_of_fraction ds, dropWhile is_digit r))
               else Some (ss * second, s1))
          | [] \<Rightarrow> Some (ss * second, []))
       else None)"

definition parse_clock :: "string \<Rightarrow> (int \<times> string) option" where
  "parse_clock s =
     Option.bind (digits_field 2 s) (\<lambda>(hh, s1).
       if hh \<le> 23 then
         (case skip_char (CHR '':'') s1 of
            None \<Rightarrow> Some (hh * hour, s1)
          | Some s2 \<Rightarrow>
              Option.bind (digits_field 2 s2) (\<lambda>(mm, s3).
                if mm \<le> 59 then
                  (case skip_char (CHR '':'') s3 of
                     None \<Rightarrow> Some (hh * hour + mm * minute, s3)
                   | Some s4 \<Rightarrow>
                       map_option (\<lambda>(us, r). (hh * hour + mm * minute + us, r)) (parse_seconds s4))
                else None))
       else None)"

fun parse_offset :: "string \<Rightarrow> int option option" where
  "parse_offset [] = Some None"
| "parse_offset (c # s) =
     (if c = CHR ''Z'' \<and> s = [] then Some (Some 0)
      else if c = CHR ''+'' \<or> c = CHR ''-'' then
        (case parse_clock s of
           Some (o', []) \<Rightarrow> Some (Some (if c = CHR ''-'' then - o' else o'))
         | _ \<Rightarrow> None)
      else None)"

definition fromisoformat :: "string \<Rightarrow> datetime option" where
  "fromisoformat s =
     Option.bind (parse_date_prefix s) (\<lambda>(d, r).
       case r of
         [] \<Rightarrow> Some (Naive (utc_of_date d))
       | sep # r1 \<Rightarrow>
           Option.bind (parse_clock r1) (\<lambda>(us, r2).
             case parse_offset r2 of
               None \<Rightarrow> None
             | Some None \<Rightarrow> Some (Naive (utc_of_date d + us))
             | Some (Some off) \<Rightarrow> Some (Aware (utc_of_date d + us - off))))"

text \<open>\<open>value.replace("Z", "+00:00")\<close>\<close>

definition replace_z :: "string \<Rightarrow> string" where
  "replace_z s = concat (map (\<lambda>c. if c = CHR ''Z'' then ''+00:00'' else [c]) s)"

section \<open>Fixed-width texts\<close>

definition digit_char :: "nat \<Rightarrow> char" where "digit_char n = char_of (48 + n mod 10)"

fun pad_digits :: "nat \<Rightarrow> nat \<Rightarrow> string" where
  "pad_digits 0 n = []"
| "pad_digits (Suc w) n = pad_digits w (n div 10) @ [digit_char n]"

fun show_nat :: "nat \<Rightarrow> string" where
  "show_nat n = (if n < 10 then [digit_char n] else show_nat (n div 10) @ [digit_char n])"

declare show_nat.simps [simp del]

definition show_int :: "int \<Rightarrow> string" where
  "show_int i = (if i < 0 then ''-'' @ show_nat (nat (- i)) else show_nat (nat i))"

definition date_iso :: "date \<Rightarrow> string" where
  "date_iso x = (let (y, m, d) = ymd_of x
     in pad_digits 4 (nat y) @ ''-'' @ pad_digits 2 (nat m) @ ''-'' @ pad_digits 2 (nat d))"

lemma length_pad_digits [simp]: "length (pad_digits w n) = w"
  by (induction w arbitrary: n) auto

lemma ccode_digit_char: "ccode (digit_char n) = 48 + n mod 10"
  by (simp add: ccode_def digit_char_def)

lemma is_digit_digit_char [simp]: "is_digit (digit_char n)"
  by (simp add: is_digit_def ccode_digit_char)

lemma show_nat_digits: "list_all is_digit (show_nat n)"
proof (induction n rule: show_nat.induct)
  case (1 n)
  then show ?case by (subst show_nat.simps) auto
qed

lemma digit_char_inj: "digit_char m = digit_char n \<longleftrightarrow> m mod 10 = n mod 10"
  using ccode_digit_char by (metis add_left_cancel digit_char_def)

lemma pad_digits_inj:
  "pad_digits w m = pad_digits w n \<Longrightarrow> m < 10 ^ w \<Longrightarrow> n < 10 ^ w \<Longrightarrow> m = n"
proof (induction w arbitrary: m n)
  case 0
  then show ?case by simp
next
  case (Suc w)
  then have "m div 10 = n div 10" "m mod 10 = n mod 10"
    by (auto simp: digit_char_inj less_mult_imp_div_less mult.commute)
  then show ?case by (metis mult_div_mod_eq)
qed

lemma digits_value_snoc:
  "digits_value (s @ [digit_char n]) = 10 * digits_value s + n mod 10"
  by (simp add: digits_value_def ccode_digit_char)

text \<open>Reading back what was printed.\<close>

lemma digits_value_pad: "n < 10 ^ w \<Longrightarrow> digits_value (pad_digits w n) = n"
proof (induction w arbitrary: n)
  case 0
  then show ?case by (simp add: digits_value_def)
next
  case (Suc w)
  then have "digits_value (pad_digits w (n div 10)) = n div 10"
    by (simp add: less_mult_imp_div_less mult.commute)
  then show ?case by (simp add: digits_value_snoc)
qed

lemma pad_digits_digits: "list_all is_digit (pad_digits w n)"
  by (induction w arbitrary: n) auto

section \<open>The calendar is a bijection\<close>

lemma month_split_ok:
  assumes "0 \<le> r" and "r \<le> (if l then 365 else 364)" and "month_split l r = (m, d)"
  shows "1 \<le> m \<and> m \<le> 12 \<and> 1 \<le> d
    \<and> d \<le> (if m = 2 then (if l then 29 else 28) else if m \<in> {4, 6, 9, 11} then 30 else 31)
    \<and> month_starts ! nat (m - 1) + (if 2 < m \<and> l then 1 else 0) + d = r + 1"
proof -
  define k where "k = (r + 50) div 32"
  have k: "32 * k \<le> r + 50" "r + 50 < 32 * k + 32" by (simp_all add: k_def)
  have "k \<in> set [1..12]" using k assms(1,2) by (auto split: if_splits)
  moreover have "[1..12] = [1, 2, 3, 4, 5, 6, 7, 8, 9, 10, 11, 12 :: int]" by code_simp
  ultimately consider "k = 1" | "k = 2" | "k = 3" | "k = 4" | "k = 5" | "k = 6"
    | "k = 7" | "k = 8" | "k = 9" | "k = 10" | "k = 11" | "k = 12" by auto
  then show ?thesis
    using k assms unfolding month_split_def k_def [symmetric]
    by cases (auto simp: month_starts_def Let_def split: if_splits)
qed

lemma dvd_split:
  assumes "0 \<le> e" "e < N"
  shows "N dvd N * k + (e + 1) \<longleftrightarrow> e = N - (1::int)"
proof -
  have "N dvd N * k + (e + 1) \<longleftrightarrow> N dvd e + 1"
    by (subst mult.commute) (rule dvd_add_times_triv_left_iff)
  also have "\<dots> \<longleftrightarrow> e + 1 = N" using assms zdvd_imp_le [of N "e + 1"] by auto
  finally show ?thesis by auto
qed

lemma div_split:
  assumes "0 \<le> e" "e < N"
  shows "(N * k + e) div N = (k::int)"
  using assms by simp

lemma leap_cycle:
  assumes "0 \<le> b" "b < 4" "0 \<le> c" "c < 25" "0 \<le> d" "d < 4"
  shows "leap (a * 400 + 1 + b * 100 + c * 4 + d) = (d = 3 \<and> (c \<noteq> 24 \<or> b = 3))"
proof -
  let ?y = "a * 400 + 1 + b * 100 + c * 4 + d"
  have y: "?y = 4 * (100 * a + 25 * b + c) + (d + 1)"
    "?y = 100 * (4 * a + b) + (c * 4 + d + 1)"
    "?y = 400 * a + (b * 100 + c * 4 + d + 1)" by simp_all
  have "4 dvd ?y \<longleftrightarrow> d = 3" unfolding y(1) using assms by (subst dvd_split) auto
  moreover have "100 dvd ?y \<longleftrightarrow> c * 4 + d = 99"
    unfolding y(2) using assms by (subst dvd_split) auto
  moreover have "400 dvd ?y \<longleftrightarrow> b * 100 + c * 4 + d = 399"
    unfolding y(3) using assms by (subst dvd_split) auto
  ultimately have "leap ?y \<longleftrightarrow> d = 3 \<and> (c * 4 + d \<noteq> 99 \<or> b * 100 + c * 4 + d = 399)"
    by (simp add: leap_def)
  also have "\<dots> \<longleftrightarrow> d = 3 \<and> (c \<noteq> 24 \<or> b = 3)" using assms by auto
  finally show ?thesis .
qed

lemma days_before_year_split:
  assumes "0 \<le> b" "b < 4" "0 \<le> c" "c < 25" "0 \<le> d" "d < 4"
  shows "days_before_year (a * 400 + 1 + b * 100 + c * 4 + d)
    = a * 146097 + b * 36524 + c * 1461 + d * 365"
proof -
  let ?p = "a * 400 + b * 100 + c * 4 + d"
  have p: "?p = 4 * (a * 100 + b * 25 + c) + d" "?p = 100 * (a * 4 + b) + (c * 4 + d)"
    "?p = 400 * a + (b * 100 + c * 4 + d)" by simp_all
  have "?p div 4 = a * 100 + b * 25 + c" unfolding p(1) using assms by (intro div_split) auto
  moreover have "?p div 100 = a * 4 + b" unfolding p(2) using assms by (intro div_split) auto
  moreover have "?p div 400 = a" unfolding p(3) using assms by (intro div_split) auto
  moreover have "a * 400 + 1 + b * 100 + c * 4 + d - 1 = ?p" by simp
  ultimately show ?thesis by (simp only: days_before_year_def Let_def) (simp add: algebra_simps)
qed

lemma date_of_ymd_of:
  assumes "ymd_of x = (y, m, d)"
  shows "date_of y m d = x \<and> 1 \<le> m \<and> m \<le> 12 \<and> 1 \<le> d \<and> d \<le> days_in_month y m"
proof -
  define n where "n = x - 1"
  define a where "a = n div 146097"
  define b where "b = n mod 146097 div 36524"
  define c where "c = n mod 146097 mod 36524 div 1461"
  define e where "e = n mod 146097 mod 36524 mod 1461 div 365"
  define r where "r = n mod 146097 mod 36524 mod 1461 mod 365"
  have sum: "n = a * 146097 + b * 36524 + c * 1461 + e * 365 + r"
    unfolding a_def b_def c_def e_def r_def by (simp add: mult_div_mod_eq algebra_simps)
  have bounds: "b * 36524 + c * 1461 + e * 365 + r < 146097" "c * 1461 + e * 365 + r < 36524"
    "e * 365 + r < 1461"
    unfolding b_def c_def e_def r_def
    by (simp_all add: mult.commute [of _ 36524] mult.commute [of _ 1461] mult.commute [of _ 365]
        mult_div_mod_eq add.assoc)
  have nonneg: "0 \<le> b" "0 \<le> c" "0 \<le> e" "0 \<le> r" "r \<le> 364"
    unfolding b_def c_def e_def r_def by (simp_all add: pos_imp_zdiv_nonneg_iff)
  have q: "ymd_of x = (if e = 4 \<or> b = 4 then (a * 400 + 1 + b * 100 + c * 4 + e - 1, 12, 31)
      else (a * 400 + 1 + b * 100 + c * 4 + e, month_split (e = 3 \<and> (c \<noteq> 24 \<or> b = 3)) r))"
    by (simp add: ymd_of_def Let_def a_def b_def c_def e_def r_def n_def)
  have x: "x = n + 1" by (simp add: n_def)
  consider (b4) "b = 4" | (e4) "b < 4" "e = 4" | (other) "b < 4" "e < 4"
    using bounds nonneg by linarith
  then show ?thesis
  proof cases
    case b4
    then have z: "c = 0" "e = 0" "r = 0" using bounds nonneg by linarith+
    have y: "y = a * 400 + 1 + 3 * 100 + 24 * 4 + 3" "m = 12" "d = 31"
      using q assms b4 z by auto
    have "leap y" unfolding y by (subst leap_cycle) auto
    then show ?thesis
      using sum x z b4 days_before_year_split [of 3 24 3 a]
      by (simp add: y date_of_def days_before_month_def month_starts_def days_in_month_def)
  next
    case e4
    then have z: "r = 0" "c < 24" using bounds nonneg by linarith+
    have y: "y = a * 400 + 1 + b * 100 + c * 4 + 3" "m = 12" "d = 31" using q assms e4 by auto
    have "leap y" unfolding y using e4 z nonneg by (subst leap_cycle) auto
    then show ?thesis
      using sum x z e4 days_before_year_split [of b c 3 a] nonneg
      by (simp add: y date_of_def days_before_month_def month_starts_def days_in_month_def)
  next
    case other
    then have c: "c < 25" using bounds nonneg by linarith
    let ?l = "e = 3 \<and> (c \<noteq> 24 \<or> b = 3)"
    have y: "y = a * 400 + 1 + b * 100 + c * 4 + e" and ms: "month_split ?l r = (m, d)"
      using q assms other by auto
    have l: "leap y = ?l" unfolding y using other c nonneg by (intro leap_cycle) auto
    have "r \<le> (if ?l then 365 else 364)" using nonneg by simp
    note ok = month_split_ok [OF nonneg(4) this ms]
    have dim: "d \<le> days_in_month y m" using ok by (simp only: days_in_month_def l)
    have "days_before_month y m + d = r + 1"
      using ok by (simp only: days_before_month_def l conj_ac)
    moreover have "days_before_year y = a * 146097 + b * 36524 + c * 1461 + e * 365"
      unfolding y using nonneg other c by (intro days_before_year_split) auto
    ultimately have "date_of y m d = x" using sum x by (simp add: date_of_def)
    then show ?thesis using ok dim by blast
  qed
qed

section \<open>Printing and reading instants\<close>

definition clock_text :: "int \<Rightarrow> string" where
  "clock_text us =
     pad_digits 2 (nat (us div hour)) @ '':'' @ pad_digits 2 (nat (us mod hour div minute))
     @ '':'' @ pad_digits 2 (nat (us mod minute div second))
     @ (if us mod second = 0 then [] else ''.'' @ pad_digits 6 (nat (us mod second)))"

text \<open>\<open>value.astimezone(timezone.utc).isoformat().replace("+00:00", "Z")\<close>\<close>

definition iso_utc :: "utc \<Rightarrow> string" where
  "iso_utc t = date_iso (date_of_utc t) @ ''T'' @ clock_text (t mod day) @ ''Z''"

lemma digits_field_pad:
  "n < 10 ^ w \<Longrightarrow> digits_field w (pad_digits w n @ r) = Some (int n, r)"
  by (simp add: digits_field_def digits_value_pad pad_digits_digits)

lemma replace_z_append: "replace_z (s @ t) = replace_z s @ replace_z t"
  by (simp add: replace_z_def)

lemma replace_z_digits: "list_all is_digit s \<Longrightarrow> replace_z s = s"
proof (induction s)
  case Nil
  then show ?case by (simp add: replace_z_def)
next
  case (Cons c s)
  have "\<not> is_digit (CHR ''Z'')" by (simp add: is_digit_def ccode_def)
  with Cons show ?case by (auto simp: replace_z_def)
qed

lemma replace_z_pad [simp]: "replace_z (pad_digits w n) = pad_digits w n"
  by (simp add: replace_z_digits pad_digits_digits)

definition year_ok :: "date \<Rightarrow> bool" where
  "year_ok x \<longleftrightarrow> 1 \<le> year_of x \<and> year_of x \<le> 9999"

lemma parse_date_iso:
  assumes "year_ok x"
  shows "parse_date_prefix (date_iso x @ r) = Some (x, r)"
proof -
  obtain y m d where q: "ymd_of x = (y, m, d)" by (cases "ymd_of x") auto
  note ok = date_of_ymd_of [OF q]
  have y: "1 \<le> y" "y \<le> 9999" using assms q by (simp_all add: year_ok_def year_of_def)
  have "days_in_month y m \<le> 31" by (simp add: days_in_month_def)
  with ok have d: "d \<le> 31" by linarith
  have f: "digits_field 4 (pad_digits 4 (nat y) @ s) = Some (y, s)"
    "digits_field 2 (pad_digits 2 (nat m) @ s) = Some (m, s)"
    "digits_field 2 (pad_digits 2 (nat d) @ s) = Some (d, s)" for s
    using y ok d by (auto simp: digits_field_pad)
  show ?thesis
    using ok y
    by (simp add: parse_date_prefix_def date_iso_def q f skip_char_def valid_ymd_def)
qed

theorem date_iso_roundtrip:
  "year_ok x \<Longrightarrow> date_fromisoformat (date_iso x) = Inr x"
  using parse_date_iso [of x "[]"] by (simp add: date_fromisoformat_def)

lemma replace_z_Cons: "replace_z (c # s) = (if c = CHR ''Z'' then ''+00:00'' else [c]) @ replace_z s"
  by (simp add: replace_z_def)

lemma replace_z_Nil: "replace_z [] = []"
  by (simp add: replace_z_def)

lemmas replace_z_simps = replace_z_append replace_z_Cons replace_z_Nil

lemma int_div_bound:
  assumes "0 < k" and "x < n * k"
  shows "x div k < (n::int)"
proof (rule ccontr)
  assume "\<not> x div k < n"
  then have "n * k \<le> x div k * k" using assms(1) by (intro mult_right_mono) auto
  moreover have "x div k * k \<le> x"
    using assms(1) pos_mod_sign [of k x] div_mult_mod_eq [of x k] by linarith
  ultimately show False using assms(2) by linarith
qed

lemma clock_fields:
  assumes "0 \<le> us" "us < day"
  shows "0 \<le> us div hour" "us div hour \<le> 23" "0 \<le> us mod hour div minute"
    "us mod hour div minute \<le> 59" "0 \<le> us mod minute div second" "us mod minute div second \<le> 59"
    "0 \<le> us mod second" "us mod second < 1000000"
    "us = us div hour * hour + us mod hour div minute * minute
       + us mod minute div second * second + us mod second"
proof -
  have pos: "0 < hour" "0 < minute" "0 < second" by (simp_all add: time_units)
  have m: "0 \<le> us mod hour" "us mod hour < 60 * minute" "0 \<le> us mod minute"
    "us mod minute < 60 * second"
    by (simp_all add: time_units)
  have "us div hour < 24" using assms pos by (intro int_div_bound) (simp_all add: time_units)
  moreover have "us mod hour div minute < 60" "us mod minute div second < 60"
    using m pos by (auto intro!: int_div_bound)
  ultimately show "us div hour \<le> 23" "us mod hour div minute \<le> 59" "us mod minute div second \<le> 59"
    by simp_all
  show "0 \<le> us div hour" "0 \<le> us mod hour div minute" "0 \<le> us mod minute div second"
    using assms m pos by (simp_all add: pos_imp_zdiv_nonneg_iff)
  show "0 \<le> us mod second" "us mod second < 1000000" by (simp_all add: second_def)
  have "us mod hour mod minute = us mod minute" "us mod minute mod second = us mod second"
    by (simp_all add: time_units mod_mod_cancel)
  then show "us = us div hour * hour + us mod hour div minute * minute
       + us mod minute div second * second + us mod second"
    by (metis add.assoc div_mult_mod_eq)
qed

lemma takeWhile_pad:
  "takeWhile is_digit (pad_digits w n @ r) = pad_digits w n @ takeWhile is_digit r"
  "dropWhile is_digit (pad_digits w n @ r) = dropWhile is_digit r"
  using pad_digits_digits [of w n] by (auto simp: list_all_iff takeWhile_append dropWhile_append)

lemma plus_not_digit: "\<not> is_digit (CHR ''+'')"
  by (simp add: is_digit_def ccode_def)

lemma micros_of_pad:
  "n < 1000000 \<Longrightarrow> micros_of_fraction (pad_digits 6 n) = int n"
  by (simp add: micros_of_fraction_def digits_value_pad)

lemma parse_seconds_text:
  assumes "0 \<le> s" "s \<le> 59" "0 \<le> f" "f < 1000000"
  shows "parse_seconds (pad_digits 2 (nat s)
      @ (if f = 0 then [] else ''.'' @ pad_digits 6 (nat f)) @ CHR ''+'' # r)
    = Some (s * second + f, CHR ''+'' # r)"
proof -
  have "digits_field 2 (pad_digits 2 (nat s) @ t) = Some (s, t)" for t
    using assms by (simp add: digits_field_pad)
  moreover have "pad_digits 6 (nat f) \<noteq> []"
    using length_pad_digits [of 6 "nat f"] by (metis list.size(3) zero_neq_numeral)
  ultimately show ?thesis
    using assms by (auto simp: parse_seconds_def takeWhile_pad plus_not_digit micros_of_pad)
qed

lemma parse_clock_text:
  assumes "0 \<le> us" "us < day"
  shows "parse_clock (clock_text us @ CHR ''+'' # r) = Some (us, CHR ''+'' # r)"
proof -
  note b = clock_fields [OF assms]
  have f: "digits_field 2 (pad_digits 2 (nat (us div hour)) @ t) = Some (us div hour, t)"
    "digits_field 2 (pad_digits 2 (nat (us mod hour div minute)) @ t)
       = Some (us mod hour div minute, t)" for t
    using b by (auto simp: digits_field_pad)
  note ps = parse_seconds_text [OF b(5,6,7,8), of r]
  show ?thesis
    using b ps by (simp add: parse_clock_def clock_text_def f skip_char_def)
qed

text \<open>Reading a printed instant gives the instant back.\<close>

theorem iso_utc_roundtrip:
  assumes "year_ok (date_of_utc t)"
  shows "fromisoformat (replace_z (iso_utc t)) = Some (Aware t)"
proof -
  have rz: "replace_z (iso_utc t)
      = date_iso (date_of_utc t) @ ''T'' @ clock_text (t mod day) @ ''+00:00''"
    by (simp add: iso_utc_def replace_z_simps date_iso_def clock_text_def case_prod_unfold Let_def)
  have day: "0 \<le> t mod day" "t mod day < day" by (simp_all add: day_def)
  have off: "parse_clock ''00:00'' = Some (0, [])" by code_simp
  have "utc_of_date (date_of_utc t) + t mod day = t"
    by (simp add: utc_of_date_def date_of_utc_def div_mult_mod_eq)
  then show ?thesis
    using parse_clock_text [OF day, of "''00:00''"] assms
    by (simp add: fromisoformat_def rz parse_date_iso off)
qed

end
