(* ===== verification/InstrumentRegistry.thy ===== *)
theory InstrumentRegistry
  imports PyText
begin

text \<open>
  \<open>market_db/instrument_registry.py\<close>: the reviewed instruments, the loaders of the two
  registry files (their parsed content is the argument) and the identity check of a
  provider detail against a registered instrument.
\<close>

record CanonicalInstrument =
  i_category :: string
  i_key :: string
  i_symbol :: string
  i_uic :: int
  i_asset_type :: string
  i_currency :: string

definition price_basis_of :: "CanonicalInstrument \<Rightarrow> string" where
  "price_basis_of i = (if i_asset_type i = ''FxSpot'' then ''bid_ask_mid'' else ''native_ohlc'')"

definition overlap_bars :: "CanonicalInstrument \<Rightarrow> nat" where
  "overlap_bars i = (if i_asset_type i = ''FxSpot'' then 72 else 20)"

definition identity_of :: "CanonicalInstrument \<Rightarrow> int \<times> string" where
  "identity_of i = (i_uic i, i_asset_type i)"

text \<open>
  The registry files are written by the project: each row holds the six identity fields.
  The loaders check the set as a whole.
\<close>

definition load_canonical_instruments :: "CanonicalInstrument list \<Rightarrow> exn + CanonicalInstrument list" where
  "load_canonical_instruments rows =
     (if length rows \<noteq> 13
      then Inl (RuntimeError ''canonical instrument registry must contain exactly 13 instruments'')
      else if card (set (map identity_of rows)) \<noteq> length rows
      then Inl (RuntimeError ''canonical instrument registry has duplicate UIC/AssetType'')
      else Inr rows)"

definition load_research_candidate_instruments ::
  "CanonicalInstrument list \<Rightarrow> exn + CanonicalInstrument list" where
  "load_research_candidate_instruments rows =
     (if map i_key rows \<noteq> [''audusd'', ''usdcad'', ''usdchf'']
      then Inl (RuntimeError ''research candidate registry must contain the reviewed three-pair order'')
      else if card (set (map identity_of rows)) \<noteq> length rows
      then Inl (RuntimeError ''research candidate registry has duplicate UIC/AssetType'')
      else if list_ex (\<lambda>i. i_asset_type i \<noteq> ''FxSpot'') rows
      then Inl (RuntimeError ''research candidate registry is restricted to FxSpot'')
      else Inr rows)"

section \<open>Identity drift\<close>

text \<open>\<open>detail.get(key, default)\<close>: the default only when the key is absent.\<close>

definition jget_default :: "(string \<times> json) list \<Rightarrow> string \<Rightarrow> json \<Rightarrow> json" where
  "jget_default kvs k d = (case map_of kvs k of None \<Rightarrow> d | Some v \<Rightarrow> v)"

text \<open>
  \<open>str(value or "")\<close>. Decimals, lists and dictionaries, which no identity field of the
  provider holds, print as a text outside every registry.
\<close>

fun str_or_empty :: "json \<Rightarrow> string" where
  "str_or_empty (JStr s) = s"
| "str_or_empty (JInt i) = (if i = 0 then [] else show_int i)"
| "str_or_empty (JBool b) = (if b then ''True'' else [])"
| "str_or_empty JNull = []"
| "str_or_empty v = (if truthy v then ''<value>'' else [])"

record ObservedIdentity =
  o_uic :: json
  o_asset_type :: json
  o_symbol :: json
  o_currency :: json
  o_exchange_id :: json

definition observed_identity :: "(string \<times> json) list \<Rightarrow> ObservedIdentity" where
  "observed_identity detail =
     \<lparr> o_uic = jget_default detail ''Identifier'' (jget detail ''Uic''),
       o_asset_type = jget detail ''AssetType'',
       o_symbol = jget detail ''Symbol'',
       o_currency = jget_default detail ''CurrencyCode'' (jget detail ''Currency''),
       o_exchange_id = jget detail ''ExchangeId'' \<rparr>"

definition uic_mismatch :: "CanonicalInstrument \<Rightarrow> json \<Rightarrow> exn + bool" where
  "uic_mismatch i v =
     (if v = JNull then Inr False else ebind (py_int v) (\<lambda>u. Inr (u \<noteq> i_uic i)))"

fun join_comma :: "string list \<Rightarrow> string" where
  "join_comma [] = []"
| "join_comma [s] = s"
| "join_comma (s # t # ts) = s @ '','' @ join_comma (t # ts)"

definition validate_detail ::
  "CanonicalInstrument \<Rightarrow> (string \<times> json) list \<Rightarrow> exn + ObservedIdentity" where
  "validate_detail i detail =
     (let ob = observed_identity detail
      in ebind (uic_mismatch i (o_uic ob)) (\<lambda>bad_uic.
         let mismatches =
               (if bad_uic then [''UIC''] else [])
               @ (if o_asset_type ob \<noteq> JStr (i_asset_type i) then [''AssetType''] else [])
               @ (if lower (str_or_empty (o_symbol ob)) \<noteq> lower (i_symbol i) then [''Symbol''] else [])
               @ (if upper (str_or_empty (o_currency ob)) \<noteq> i_currency i then [''Currency''] else [])
         in if mismatches \<noteq> []
            then Inl (InstrumentDriftError (''BLOCKED_INSTRUMENT_DRIFT:'' @ join_comma mismatches))
            else Inr ob))"

text \<open>An accepted detail names the registered instrument in every field the check reads.\<close>

lemma validate_detail_ok:
  "validate_detail i detail = Inr ob \<longleftrightarrow>
     ob = observed_identity detail \<and> uic_mismatch i (o_uic ob) = Inr False
     \<and> o_asset_type ob = JStr (i_asset_type i)
     \<and> lower (str_or_empty (o_symbol ob)) = lower (i_symbol i)
     \<and> upper (str_or_empty (o_currency ob)) = i_currency i"
  by (auto simp: validate_detail_def Let_def ebind_eq_Inr split: if_splits)

lemma canonical_identities:
  assumes "load_canonical_instruments rows = Inr rs"
  shows "rs = rows \<and> length rs = 13 \<and> distinct (map identity_of rs)"
  using assms card_distinct [of "map identity_of rows"]
  by (auto simp: load_canonical_instruments_def split: if_splits)

lemma candidate_identities:
  assumes "load_research_candidate_instruments rows = Inr rs"
  shows "rs = rows \<and> map i_key rs = [''audusd'', ''usdcad'', ''usdchf'']
    \<and> distinct (map identity_of rs) \<and> (\<forall>i \<in> set rs. i_asset_type i = ''FxSpot'')"
  using assms card_distinct [of "map identity_of rows"]
  by (auto simp: load_research_candidate_instruments_def list_ex_iff split: if_splits)

end
