(* ===== verification/NormalizeBars.thy ===== *)
theory NormalizeBars
  imports InstrumentRegistry
begin

text \<open>
  \<open>market_db/normalize_bars.py\<close>: from chart payloads to bars. A sample is parsed, checked
  and turned into a bar (\<open>normalize_sample\<close>), a page is normalised as a whole or with
  the crossed FX extrema set aside, pages are merged by bar time with the first observation
  kept, and the last bar of an exchange session is completed on calendar and delay evidence.
\<close>

section \<open>Bars\<close>

record NormalizedBar =
  time_utc :: datetime
  px_open :: rat
  px_high :: rat
  px_low :: rat
  px_close :: rat
  open_bid :: "rat option"
  high_bid :: "rat option"
  low_bid :: "rat option"
  close_bid :: "rat option"
  open_ask :: "rat option"
  high_ask :: "rat option"
  low_ask :: "rat option"
  close_ask :: "rat option"
  volume :: "rat option"
  market_trading_state :: json
  price_basis :: string
  is_complete :: bool
  data_version :: "int option"
  delayed_by_minutes :: "int option"
  retrieved_at_utc :: datetime
  payload_sha256 :: string
  artifact_relative_path :: string

record RejectedBar =
  r_time_utc :: datetime
  r_error_code :: string
  r_violations :: "CrossedQuoteViolation list"
  r_data_version :: "int option"
  r_payload_sha256 :: string
  r_artifact_relative_path :: string

section \<open>Parsing and checking one sample\<close>

definition parse_utc :: "string \<Rightarrow> exn + datetime" where
  "parse_utc s =
     (case fromisoformat (replace_z s) of
        None \<Rightarrow> Inl (ValueError ''Invalid isoformat string'')
      | Some (Naive _) \<Rightarrow> Inl (BarQualityError ''TIME_NOT_UTC'')
      | Some (Aware t) \<Rightarrow> Inr (Aware t))"

definition decimal_value :: "json \<Rightarrow> string \<Rightarrow> bool \<Rightarrow> exn + rat option" where
  "decimal_value v field nullable =
     (if v = JNull \<and> nullable then Inr None
      else case dec_of_json v of
             Some (Fin q) \<Rightarrow> Inr (Some q)
           | _ \<Rightarrow> Inl (BarQualityError (''INVALID_'' @ upper field)))"

definition validate_ohlc :: "rat \<Rightarrow> rat \<Rightarrow> rat \<Rightarrow> rat \<Rightarrow> exn + unit" where
  "validate_ohlc o' h l c =
     (if min (min o' h) (min l c) \<le> 0 then Inl (BarQualityError ''NONPOSITIVE_OHLC'')
      else if h < max o' (max l c) \<or> l > min o' (min h c)
      then Inl (BarQualityError ''OHLC_VIOLATION'')
      else Inr ())"

text \<open>\<open>sample.get(name)\<close>: a sample that is no dictionary has no \<open>get\<close>.\<close>

fun sample_get :: "json \<Rightarrow> string \<Rightarrow> exn + json" where
  "sample_get (JObj kvs) k = Inr (jget kvs k)"
| "sample_get _ k = Inl AttributeError"

text \<open>\<open>str(sample.get("Time", ""))\<close>; a value that is no text prints as no ISO time does.\<close>

fun sample_time_text :: "json \<Rightarrow> exn + string" where
  "sample_time_text (JObj kvs) =
     Inr (case map_of kvs ''Time'' of Some (JStr s) \<Rightarrow> s | Some (JInt i) \<Rightarrow> show_int i | _ \<Rightarrow> [])"
| "sample_time_text _ = Inl AttributeError"

text \<open>A required decimal: \<open>decimal_value\<close> without \<open>nullable\<close> never returns \<open>None\<close>.\<close>

definition required_decimal :: "json \<Rightarrow> string \<Rightarrow> exn + rat" where
  "required_decimal sample field =
     ebind (sample_get sample field) (\<lambda>v.
     ebind (decimal_value v field False) (\<lambda>d.
       case d of None \<Rightarrow> Inl AssertionError | Some q \<Rightarrow> Inr q))"

definition fx_pair :: "json \<Rightarrow> string \<Rightarrow> exn + rat \<times> rat" where
  "fx_pair sample name =
     ebind (required_decimal sample (name @ ''Bid'')) (\<lambda>bid.
     ebind (required_decimal sample (name @ ''Ask'')) (\<lambda>ask. Inr (bid, ask)))"

definition crossed_of :: "(string \<times> rat \<times> rat) list \<Rightarrow> CrossedQuoteViolation list" where
  "crossed_of ps = map (\<lambda>(n, b, a). \<lparr> v_field = n, v_bid = b, v_ask = a \<rparr>)
     (filter (\<lambda>(n, b, a). a < b) ps)"

definition mid :: "rat \<times> rat \<Rightarrow> rat" where
  "mid p = dec_div (dec_add (fst p) (snd p)) 2"

record SampleContext =
  c_retrieved_at :: utc
  c_sha256 :: string
  c_path :: string
  c_data_version :: "int option"
  c_delayed :: "int option"

definition build_bar ::
  "CanonicalInstrument \<Rightarrow> SampleContext \<Rightarrow> datetime \<Rightarrow> rat \<times> rat \<times> rat \<times> rat \<Rightarrow>
   (rat \<times> rat) option list \<Rightarrow> rat option \<Rightarrow> json \<Rightarrow> NormalizedBar" where
  "build_bar i c t px pairs vol state =
     (let bid = (\<lambda>n. map_option fst (pairs ! n)); ask = (\<lambda>n. map_option snd (pairs ! n));
          (o', h, l, cl) = px
      in \<lparr> time_utc = t, px_open = o', px_high = h, px_low = l, px_close = cl,
           open_bid = bid 0, high_bid = bid 1, low_bid = bid 2, close_bid = bid 3,
           open_ask = ask 0, high_ask = ask 1, low_ask = ask 2, close_ask = ask 3,
           volume = vol, market_trading_state = state, price_basis = price_basis_of i,
           is_complete = True, data_version = c_data_version c,
           delayed_by_minutes = c_delayed c, retrieved_at_utc = Aware (c_retrieved_at c),
           payload_sha256 = c_sha256 c, artifact_relative_path = c_path c \<rparr>)"

definition normalize_fx :: "CanonicalInstrument \<Rightarrow> json \<Rightarrow> SampleContext \<Rightarrow> exn + NormalizedBar" where
  "normalize_fx i sample c =
     ebind (sample_time_text sample) (\<lambda>text.
     ebind (parse_utc text) (\<lambda>t.
     ebind (fx_pair sample ''Open'') (\<lambda>po.
     ebind (fx_pair sample ''High'') (\<lambda>ph.
     ebind (fx_pair sample ''Low'') (\<lambda>pl.
     ebind (fx_pair sample ''Close'') (\<lambda>pc.
     let crossed = crossed_of [(''Open'', po), (''High'', ph), (''Low'', pl), (''Close'', pc)]
     in ebind (validate_ohlc (fst po) (fst ph) (fst pl) (fst pc)) (\<lambda>_.
        ebind (validate_ohlc (snd po) (snd ph) (snd pl) (snd pc)) (\<lambda>_.
        ebind (validate_ohlc (mid po) (mid ph) (mid pl) (mid pc)) (\<lambda>_.
        ebind (sample_get sample ''Volume'') (\<lambda>v.
        ebind (decimal_value v ''Volume'' True) (\<lambda>vol.
        ebind (sample_get sample ''MarketTradingState'') (\<lambda>state.
          if crossed \<noteq> [] then Inl (FXBidAboveAskError crossed)
          else Inr (build_bar i c t (mid po, mid ph, mid pl, mid pc)
                 [Some po, Some ph, Some pl, Some pc] vol state)))))))))))))"

definition normalize_native :: "CanonicalInstrument \<Rightarrow> json \<Rightarrow> SampleContext \<Rightarrow> exn + NormalizedBar" where
  "normalize_native i sample c =
     ebind (sample_time_text sample) (\<lambda>text.
     ebind (parse_utc text) (\<lambda>t.
     ebind (required_decimal sample ''Open'') (\<lambda>o'.
     ebind (required_decimal sample ''High'') (\<lambda>h.
     ebind (required_decimal sample ''Low'') (\<lambda>l.
     ebind (required_decimal sample ''Close'') (\<lambda>cl.
     ebind (validate_ohlc o' h l cl) (\<lambda>_.
     ebind (sample_get sample ''Volume'') (\<lambda>v.
     ebind (decimal_value v ''Volume'' True) (\<lambda>vol.
     ebind (sample_get sample ''MarketTradingState'') (\<lambda>state.
       Inr (build_bar i c t (o', h, l, cl) [None, None, None, None] vol state)))))))))))"

definition normalize_sample :: "CanonicalInstrument \<Rightarrow> json \<Rightarrow> SampleContext \<Rightarrow> exn + NormalizedBar" where
  "normalize_sample i sample c =
     (if i_asset_type i = ''FxSpot'' then normalize_fx i sample c else normalize_native i sample c)"

section \<open>Pages\<close>

text \<open>\<open>payload.get("ChartInfo") or {}\<close> and the checks the two page functions share.\<close>

definition chart_info :: "(string \<times> json) list \<Rightarrow> exn + (string \<times> json) list" where
  "chart_info payload =
     (case jget payload ''ChartInfo'' of
        JObj kvs \<Rightarrow> Inr kvs
      | v \<Rightarrow> if truthy v then Inl AttributeError else Inr [])"

definition page_samples :: "(string \<times> json) list \<Rightarrow> exn + (string \<times> json) list \<times> json list" where
  "page_samples payload =
     ebind (chart_info payload) (\<lambda>info.
     ebind (py_int (jget_default info ''Horizon'' (JInt (- 1)))) (\<lambda>horizon.
       if horizon \<noteq> 60 then Inl (BarQualityError ''WRONG_CHART_HORIZON'')
       else case jget payload ''Data'' of
              JArr samples \<Rightarrow> Inr (info, samples)
            | _ \<Rightarrow> Inl (BarQualityError ''MISSING_CHART_DATA'')))"

definition opt_int :: "json \<Rightarrow> exn + int option" where
  "opt_int v = (if v = JNull then Inr None else ebind (py_int v) (\<lambda>n. Inr (Some n)))"

record PageContext =
  p_retrieved_at :: utc
  p_sha256 :: string
  p_path :: string

definition sample_context :: "PageContext \<Rightarrow> int option \<Rightarrow> int option \<Rightarrow> SampleContext" where
  "sample_context p dv dl =
     \<lparr> c_retrieved_at = p_retrieved_at p, c_sha256 = p_sha256 p, c_path = p_path p,
       c_data_version = dv, c_delayed = dl \<rparr>"

definition normalize_chart_page ::
  "CanonicalInstrument \<Rightarrow> (string \<times> json) list \<Rightarrow> PageContext \<Rightarrow> exn + NormalizedBar list" where
  "normalize_chart_page i payload p =
     ebind (page_samples payload) (\<lambda>(info, samples).
       emap (\<lambda>sample.
         ebind (opt_int (jget payload ''DataVersion'')) (\<lambda>dv.
         ebind (opt_int (jget info ''DelayedByMinutes'')) (\<lambda>dl.
           normalize_sample i sample (sample_context p dv dl)))) samples)"

definition extrema_only :: "CrossedQuoteViolation list \<Rightarrow> bool" where
  "extrema_only vs = list_all (\<lambda>v. v_field v \<in> {''High'', ''Low''}) vs"

definition reject_bar :: "datetime \<Rightarrow> CrossedQuoteViolation list \<Rightarrow> SampleContext \<Rightarrow> RejectedBar" where
  "reject_bar t vs c =
     \<lparr> r_time_utc = t, r_error_code = ''FX_BID_ABOVE_ASK'', r_violations = vs,
       r_data_version = c_data_version c, r_payload_sha256 = c_sha256 c,
       r_artifact_relative_path = c_path c \<rparr>"

fun quarantine_samples ::
  "CanonicalInstrument \<Rightarrow> SampleContext \<Rightarrow> json list \<Rightarrow> exn + NormalizedBar list \<times> RejectedBar list" where
  "quarantine_samples i c [] = Inr ([], [])"
| "quarantine_samples i c (s # ss) =
     (case normalize_sample i s c of
        Inr bar \<Rightarrow> ebind (quarantine_samples i c ss) (\<lambda>(acc, rej). Inr (bar # acc, rej))
      | Inl (FXBidAboveAskError vs) \<Rightarrow>
          (if \<not> extrema_only vs then Inl (FXBidAboveAskError vs)
           else ebind (sample_time_text s) (\<lambda>text. ebind (parse_utc text) (\<lambda>t.
                ebind (quarantine_samples i c ss) (\<lambda>(acc, rej). Inr (acc, reject_bar t vs c # rej)))))
      | Inl e \<Rightarrow> Inl e)"

definition normalize_chart_page_quarantining_fx_extrema ::
  "CanonicalInstrument \<Rightarrow> (string \<times> json) list \<Rightarrow> PageContext \<Rightarrow>
   exn + NormalizedBar list \<times> RejectedBar list" where
  "normalize_chart_page_quarantining_fx_extrema i payload p =
     (if i_asset_type i \<noteq> ''FxSpot''
      then Inl (ValueError ''FX extrema quarantine is restricted to FxSpot'')
      else ebind (page_samples payload) (\<lambda>(info, samples).
           ebind (opt_int (jget payload ''DataVersion'')) (\<lambda>dv.
           ebind (opt_int (jget info ''DelayedByMinutes'')) (\<lambda>dl.
             quarantine_samples i (sample_context p dv dl) samples))))"

section \<open>Merging pages\<close>

definition first_by_time :: "NormalizedBar list \<Rightarrow> NormalizedBar list" where
  "first_by_time bars = fold (tbl_insert_new time_utc) bars []"

definition mark_completion :: "NormalizedBar list \<Rightarrow> NormalizedBar list" where
  "mark_completion ordered =
     map (\<lambda>(n, b). b\<lparr>is_complete := n < length ordered - 1\<rparr>) (enumerate 0 ordered)"

definition merge_pages :: "NormalizedBar list list \<Rightarrow> NormalizedBar list" where
  "merge_pages pages = mark_completion (sort_key time_utc (first_by_time (concat pages)))"

section \<open>The terminal bar of a session\<close>

definition latest_index :: "NormalizedBar list \<Rightarrow> nat" where
  "latest_index bars =
     (let m = Max (set (map time_utc bars)) in length (takeWhile (\<lambda>b. time_utc b \<noteq> m) bars))"

text \<open>\<open>int((duration_seconds - 1) // 3600)\<close> on the session's length in microseconds.\<close>

definition terminal_slot_index :: "int \<Rightarrow> int" where
  "terminal_slot_index duration = (duration - second) div hour"

definition mark_terminal_session_bar_complete ::
  "NormalizedBar list \<Rightarrow> datetime \<Rightarrow> datetime \<Rightarrow> NormalizedBar list" where
  "mark_terminal_session_bar_complete bars opens closes =
     (if bars = [] then bars
      else if tz_naive opens \<or> tz_naive closes then bars
      else
        let session_open = instant opens; session_close = instant closes;
            duration = session_close - session_open
        in if duration \<le> 0 then bars
           else
             let idx = latest_index bars; latest = bars ! idx
             in if tz_naive (time_utc latest) \<or> tz_naive (retrieved_at_utc latest) then bars
                else if is_complete latest \<or> delayed_by_minutes latest = None then bars
                else if the (delayed_by_minutes latest) < 0 then bars
                else if time_utc latest \<noteq> Aware (session_open + terminal_slot_index duration * hour)
                then bars
                else if instant (retrieved_at_utc latest)
                          < session_close + the (delayed_by_minutes latest) * minute
                then bars
                else bars[idx := latest\<lparr>is_complete := True\<rparr>])"

section \<open>Well-formed bars\<close>

definition ohlc_ok :: "rat \<Rightarrow> rat \<Rightarrow> rat \<Rightarrow> rat \<Rightarrow> bool" where
  "ohlc_ok o' h l c \<longleftrightarrow> 0 < l \<and> l \<le> o' \<and> l \<le> c \<and> o' \<le> h \<and> c \<le> h \<and> l \<le> h"

lemma validate_ohlc_Inr [simp]: "validate_ohlc o' h l c = Inr u \<longleftrightarrow> ohlc_ok o' h l c"
  by (auto simp: validate_ohlc_def ohlc_ok_def min_def max_def)

text \<open>One side of the book: present and a valid OHLC of its own.\<close>

definition side_ok :: "rat option \<Rightarrow> rat option \<Rightarrow> rat option \<Rightarrow> rat option \<Rightarrow> bool" where
  "side_ok o' h l c \<longleftrightarrow>
     o' \<noteq> None \<and> h \<noteq> None \<and> l \<noteq> None \<and> c \<noteq> None \<and> ohlc_ok (the o') (the h) (the l) (the c)"

definition quotes_ok :: "NormalizedBar \<Rightarrow> bool" where
  "quotes_ok b \<longleftrightarrow>
     side_ok (open_bid b) (high_bid b) (low_bid b) (close_bid b)
     \<and> side_ok (open_ask b) (high_ask b) (low_ask b) (close_ask b)
     \<and> the (open_bid b) \<le> the (open_ask b) \<and> the (high_bid b) \<le> the (high_ask b)
     \<and> the (low_bid b) \<le> the (low_ask b) \<and> the (close_bid b) \<le> the (close_ask b)
     \<and> px_open b = mid (the (open_bid b), the (open_ask b))
     \<and> px_high b = mid (the (high_bid b), the (high_ask b))
     \<and> px_low b = mid (the (low_bid b), the (low_ask b))
     \<and> px_close b = mid (the (close_bid b), the (close_ask b))"

definition no_quotes :: "NormalizedBar \<Rightarrow> bool" where
  "no_quotes b \<longleftrightarrow>
     open_bid b = None \<and> high_bid b = None \<and> low_bid b = None \<and> close_bid b = None
     \<and> open_ask b = None \<and> high_ask b = None \<and> low_ask b = None \<and> close_ask b = None"

definition bar_ok :: "CanonicalInstrument \<Rightarrow> NormalizedBar \<Rightarrow> bool" where
  "bar_ok i b \<longleftrightarrow>
     ohlc_ok (px_open b) (px_high b) (px_low b) (px_close b)
     \<and> price_basis b = price_basis_of i \<and> \<not> tz_naive (time_utc b)
     \<and> (if i_asset_type i = ''FxSpot'' then quotes_ok b else no_quotes b)"

definition from_context :: "SampleContext \<Rightarrow> NormalizedBar \<Rightarrow> bool" where
  "from_context c b \<longleftrightarrow>
     is_complete b \<and> data_version b = c_data_version c \<and> delayed_by_minutes b = c_delayed c
     \<and> retrieved_at_utc b = Aware (c_retrieved_at c) \<and> payload_sha256 b = c_sha256 c
     \<and> artifact_relative_path b = c_path c"

lemma parse_utc_aware: "parse_utc s = Inr t \<Longrightarrow> \<not> tz_naive t"
  by (auto simp: parse_utc_def split: option.splits datetime.splits)

lemma crossed_of_Nil:
  "crossed_of [(''Open'', po), (''High'', ph), (''Low'', pl), (''Close'', pc)] = [] \<longleftrightarrow>
     fst po \<le> snd po \<and> fst ph \<le> snd ph \<and> fst pl \<le> snd pl \<and> fst pc \<le> snd pc"
  by (auto simp: crossed_of_def case_prod_unfold)

lemma crossed_of_crossed: "v \<in> set (crossed_of ps) \<Longrightarrow> v_ask v < v_bid v"
  by (auto simp: crossed_of_def)

lemma normalize_fx_ok:
  assumes "normalize_fx i s c = Inr b" and fx: "i_asset_type i = ''FxSpot''"
  shows "bar_ok i b \<and> from_context c b"
proof -
  obtain tx t po ph pl pc vol state where
    t: "parse_utc tx = Inr t"
    and bid: "ohlc_ok (fst po) (fst ph) (fst pl) (fst pc)"
    and ask: "ohlc_ok (snd po) (snd ph) (snd pl) (snd pc)"
    and mids: "ohlc_ok (mid po) (mid ph) (mid pl) (mid pc)"
    and nc: "crossed_of [(''Open'', po), (''High'', ph), (''Low'', pl), (''Close'', pc)] = []"
    and b: "b = build_bar i c t (mid po, mid ph, mid pl, mid pc)
                  [Some po, Some ph, Some pl, Some pc] vol state"
    using assms(1)
    by (auto simp: normalize_fx_def ebind_eq_Inr Let_def split: if_splits)
  have "bar_ok i b"
    using b bid ask mids nc fx parse_utc_aware [OF t]
    by (simp add: build_bar_def bar_ok_def quotes_ok_def side_ok_def crossed_of_Nil)
  moreover have "from_context c b" using b by (simp add: build_bar_def from_context_def)
  ultimately show ?thesis by simp
qed

lemma normalize_native_ok:
  assumes "normalize_native i s c = Inr b" and "i_asset_type i \<noteq> ''FxSpot''"
  shows "bar_ok i b \<and> from_context c b"
  using assms
  by (auto simp: normalize_native_def ebind_eq_Inr build_bar_def bar_ok_def no_quotes_def
      from_context_def dest: parse_utc_aware)

lemma normalize_sample_ok:
  "normalize_sample i s c = Inr b \<Longrightarrow> bar_ok i b \<and> from_context c b"
  by (auto simp: normalize_sample_def normalize_fx_ok normalize_native_ok split: if_splits)

text \<open>Where the crossed-quote error comes from, and that the sample's time was readable.\<close>

lemma required_decimal_not_crossed: "required_decimal s f \<noteq> Inl (FXBidAboveAskError vs)"
  by (cases s) (auto simp: required_decimal_def decimal_value_def ebind_eq_Inl
      split: if_splits option.splits decimal.splits)

lemma sample_time_text_not_crossed: "sample_time_text s \<noteq> Inl (FXBidAboveAskError vs)"
  by (cases s) auto

lemma sample_get_not_crossed: "sample_get s k \<noteq> Inl (FXBidAboveAskError vs)"
  by (cases s) auto

lemma parse_utc_not_crossed: "parse_utc s \<noteq> Inl (FXBidAboveAskError vs)"
  by (auto simp: parse_utc_def split: option.splits datetime.splits)

lemma decimal_value_not_crossed: "decimal_value v f n \<noteq> Inl (FXBidAboveAskError vs)"
  by (auto simp: decimal_value_def split: if_splits option.splits decimal.splits)

lemma validate_ohlc_not_crossed: "validate_ohlc o' h l c \<noteq> Inl (FXBidAboveAskError vs)"
  by (auto simp: validate_ohlc_def)

lemma fx_pair_not_crossed: "fx_pair s f \<noteq> Inl (FXBidAboveAskError vs)"
  by (auto simp: fx_pair_def ebind_eq_Inl required_decimal_not_crossed)

lemmas not_crossed = required_decimal_not_crossed sample_time_text_not_crossed
  sample_get_not_crossed parse_utc_not_crossed decimal_value_not_crossed
  validate_ohlc_not_crossed fx_pair_not_crossed

lemma normalize_sample_crossed:
  assumes "normalize_sample i s c = Inl (FXBidAboveAskError vs)"
  shows "i_asset_type i = ''FxSpot'' \<and> vs \<noteq> [] \<and> (\<forall>v \<in> set vs. v_ask v < v_bid v)
    \<and> (\<exists>text t. sample_time_text s = Inr text \<and> parse_utc text = Inr t)"
proof (cases "i_asset_type i = ''FxSpot''")
  case True
  with assms have fx: "normalize_fx i s c = Inl (FXBidAboveAskError vs)"
    by (simp add: normalize_sample_def)
  then show ?thesis
    using True crossed_of_crossed
    by (auto simp: normalize_fx_def ebind_eq_Inl Let_def not_crossed split: if_splits)
next
  case False
  with assms show ?thesis
    by (auto simp: normalize_sample_def normalize_native_def ebind_eq_Inl not_crossed)
qed

section \<open>What a page yields\<close>

text \<open>a normalised page has one bar per sample, in order; every bar has positive, consistent
  OHLC values, an aware time and the instrument's price basis; an FX bar carries both sides of
  the book, uncrossed, with the mid of each pair as its price, and the page's provenance.\<close>

theorem normalize_chart_page_bars:
  assumes "normalize_chart_page i payload p = Inr bars"
  shows "\<exists>info samples dv dl. page_samples payload = Inr (info, samples)
    \<and> length bars = length samples
    \<and> (\<forall>b \<in> set bars. bar_ok i b \<and> from_context (sample_context p dv dl) b)"
proof -
  obtain info samples where ps: "page_samples payload = Inr (info, samples)"
    and em: "emap (\<lambda>sample.
         ebind (opt_int (jget payload ''DataVersion'')) (\<lambda>dv.
         ebind (opt_int (jget info ''DelayedByMinutes'')) (\<lambda>dl.
           normalize_sample i sample (sample_context p dv dl)))) samples = Inr bars"
    using assms by (auto simp: normalize_chart_page_def ebind_eq_Inr)
  have len: "length bars = length samples" using em by (rule emap_length)
  show ?thesis
  proof (cases "bars = []")
    case True
    then show ?thesis using ps len by auto
  next
    case False
    then obtain b where "b \<in> set bars" by (meson last_in_set)
    from emap_set [OF em this] obtain dv dl where
      v: "opt_int (jget payload ''DataVersion'') = Inr dv"
         "opt_int (jget info ''DelayedByMinutes'') = Inr dl"
      by (auto simp: ebind_eq_Inr)
    have "bar_ok i b \<and> from_context (sample_context p dv dl) b" if "b \<in> set bars" for b
      using emap_set [OF em that] v by (auto dest!: normalize_sample_ok)
    then show ?thesis using ps len by blast
  qed
qed

text \<open>The quarantining loop, sample by sample.\<close>

definition sample_bar :: "CanonicalInstrument \<Rightarrow> SampleContext \<Rightarrow> json \<Rightarrow> NormalizedBar option" where
  "sample_bar i c s = (case normalize_sample i s c of Inr b \<Rightarrow> Some b | Inl _ \<Rightarrow> None)"

definition sample_admissible :: "CanonicalInstrument \<Rightarrow> SampleContext \<Rightarrow> json \<Rightarrow> bool" where
  "sample_admissible i c s =
     (case normalize_sample i s c of
        Inr b \<Rightarrow> True
      | Inl (FXBidAboveAskError vs) \<Rightarrow> extrema_only vs
      | Inl e \<Rightarrow> False)"

definition rejected_ok :: "SampleContext \<Rightarrow> RejectedBar \<Rightarrow> bool" where
  "rejected_ok c r \<longleftrightarrow>
     r_violations r \<noteq> [] \<and> extrema_only (r_violations r)
     \<and> (\<forall>v \<in> set (r_violations r). v_ask v < v_bid v)
     \<and> r_data_version r = c_data_version c \<and> r_payload_sha256 r = c_sha256 c"

lemma quarantine_samples_ok:
  "quarantine_samples i c ss = Inr (acc, rej) \<Longrightarrow>
     list_all (sample_admissible i c) ss
     \<and> acc = List.map_filter (sample_bar i c) ss
     \<and> length acc + length rej = length ss
     \<and> list_all (rejected_ok c) rej"
proof (induction ss arbitrary: acc rej)
  case Nil
  then show ?case by (simp add: List.map_filter_def)
next
  case (Cons s ss)
  show ?case
  proof (cases "normalize_sample i s c")
    case (Inr b)
    then show ?thesis using Cons
      by (auto simp: ebind_eq_Inr sample_admissible_def sample_bar_def map_filter_simps)
  next
    case (Inl e)
    then obtain vs where e: "e = FXBidAboveAskError vs" and ex: "extrema_only vs"
      using Cons.prems by (auto split: exn.splits if_splits)
    then show ?thesis
      using Cons Inl normalize_sample_crossed [of i s c vs]
      by (auto simp: ebind_eq_Inr sample_admissible_def sample_bar_def map_filter_simps
          rejected_ok_def reject_bar_def)
  qed
qed

lemma quarantine_samples_total:
  "list_all (sample_admissible i c) ss \<Longrightarrow> \<exists>acc rej. quarantine_samples i c ss = Inr (acc, rej)"
proof (induction ss)
  case Nil
  then show ?case by simp
next
  case (Cons s ss)
  then obtain acc rej where IH: "quarantine_samples i c ss = Inr (acc, rej)" by auto
  show ?case
  proof (cases "normalize_sample i s c")
    case (Inr b)
    then show ?thesis using IH by simp
  next
    case (Inl e)
    then obtain vs where e: "e = FXBidAboveAskError vs" "extrema_only vs"
      using Cons.prems by (cases e) (auto simp: sample_admissible_def)
    then show ?thesis using IH Inl normalize_sample_crossed [of i s c vs] by auto
  qed
qed

text \<open>C4: the quarantining page accepts a page exactly when each sample either normalises or is
  an FX sample whose crossed quotes are all High or Low; then accepted and rejected rows
  partition the samples, the accepted rows are the samples' own bars in order with nothing
  repaired, and each rejected row keeps the crossed values it was rejected for.\<close>

theorem quarantine_partition:
  "(\<exists>acc rej. quarantine_samples i c ss = Inr (acc, rej)) = list_all (sample_admissible i c) ss
   \<and> (quarantine_samples i c ss = Inr (acc, rej) \<longrightarrow>
        acc = List.map_filter (sample_bar i c) ss
        \<and> length acc + length rej = length ss
        \<and> list_all (bar_ok i) acc \<and> list_all (rejected_ok c) rej)"
proof (intro conjI iffI impI)
  assume "\<exists>acc rej. quarantine_samples i c ss = Inr (acc, rej)"
  then show "list_all (sample_admissible i c) ss" using quarantine_samples_ok by blast
next
  assume "list_all (sample_admissible i c) ss"
  then show "\<exists>acc rej. quarantine_samples i c ss = Inr (acc, rej)"
    by (rule quarantine_samples_total)
next
  assume q: "quarantine_samples i c ss = Inr (acc, rej)"
  note ok = quarantine_samples_ok [OF q]
  show "acc = List.map_filter (sample_bar i c) ss" "length acc + length rej = length ss"
    "list_all (rejected_ok c) rej" using ok by auto
  show "list_all (bar_ok i) acc"
  proof -
    have "bar_ok i b" if "b \<in> set (List.map_filter (sample_bar i c) ss)" for b
      using that by (auto simp: List.map_filter_def sample_bar_def split: sum.splits
          dest!: normalize_sample_ok)
    then show ?thesis using ok by (auto simp: list_all_iff)
  qed
qed

lemma quarantine_none_rejected:
  "emap (\<lambda>s. normalize_sample i s c) ss = Inr bars \<longleftrightarrow> quarantine_samples i c ss = Inr (bars, [])"
proof (induction ss arbitrary: bars)
  case Nil
  then show ?case by auto
next
  case (Cons s ss)
  then show ?case
    by (cases "normalize_sample i s c")
      (auto simp: ebind_eq_Inr split: exn.splits)
qed

section \<open>Merging\<close>

lemma fold_insert_new_lookup:
  "tbl_lookup key k (fold (tbl_insert_new key) rs t) =
     (case tbl_lookup key k t of Some r \<Rightarrow> Some r | None \<Rightarrow> find (\<lambda>r. key r = k) rs)"
  by (induction rs arbitrary: t) (auto simp: table_simps split: option.splits)

lemma fold_insert_new_wf: "tbl_wf key t \<Longrightarrow> tbl_wf key (fold (tbl_insert_new key) rs t)"
  by (induction rs arbitrary: t) (auto simp: table_simps)

lemma first_by_time_lookup:
  "tbl_lookup time_utc k (first_by_time bars) = find (\<lambda>b. time_utc b = k) bars"
  by (simp add: first_by_time_def fold_insert_new_lookup)

lemma first_by_time_wf: "distinct (map time_utc (first_by_time bars))"
  using fold_insert_new_wf [of time_utc "[]" bars] by (simp add: first_by_time_def tbl_wf_def)

lemma first_by_time_iff:
  "b \<in> set (first_by_time bars) \<longleftrightarrow> find (\<lambda>x. time_utc x = time_utc b) bars = Some b"
  using tbl_lookup_iff [of time_utc "first_by_time bars" "time_utc b" b] first_by_time_wf [of bars]
  by (simp add: first_by_time_lookup tbl_wf_def)

lemma first_by_time_times: "time_utc ` set (first_by_time bars) = time_utc ` set bars"
proof (rule set_eqI)
  fix t
  have "t \<in> time_utc ` set (first_by_time bars) \<longleftrightarrow> tbl_lookup time_utc t (first_by_time bars) \<noteq> None"
    by (simp only: tbl_lookup_None not_not)
  also have "\<dots> \<longleftrightarrow> t \<in> time_utc ` set bars"
    by (auto simp: first_by_time_lookup find_None_iff)
  finally show "t \<in> time_utc ` set (first_by_time bars) \<longleftrightarrow> t \<in> time_utc ` set bars" .
qed

lemma mark_completion_length [simp]: "length (mark_completion xs) = length xs"
  by (simp add: mark_completion_def)

lemma mark_completion_nth:
  "n < length xs \<Longrightarrow> mark_completion xs ! n = (xs ! n)\<lparr>is_complete := n < length xs - 1\<rparr>"
  by (simp add: mark_completion_def nth_enumerate_eq)

lemma mark_completion_times [simp]: "map time_utc (mark_completion xs) = map time_utc xs"
  by (rule nth_equalityI) (auto simp: mark_completion_nth)

definition first_seen :: "NormalizedBar list \<Rightarrow> datetime \<Rightarrow> NormalizedBar" where
  "first_seen bars t = the (find (\<lambda>b. time_utc b = t) bars)"

lemma merge_order:
  "map time_utc (sort_key time_utc (first_by_time bars)) = sorted_list_of_set (time_utc ` set bars)"
proof (rule sorted_distinct_set_unique)
  show "set (map time_utc (sort_key time_utc (first_by_time bars)))
      = set (sorted_list_of_set (time_utc ` set bars))"
    using first_by_time_times [of bars] by simp
  show "distinct (map time_utc (sort_key time_utc (first_by_time bars)))"
    using first_by_time_wf [of bars] by (simp add: distinct_map)
qed simp_all

lemma merge_pages_eq:
  "merge_pages pages =
     mark_completion (map (first_seen (concat pages))
       (sorted_list_of_set (time_utc ` set (concat pages))))"
proof -
  let ?o = "sort_key time_utc (first_by_time (concat pages))"
  have "first_seen (concat pages) (time_utc b) = b" if "b \<in> set ?o" for b
    using that first_by_time_iff [of b "concat pages"] by (simp add: first_seen_def)
  then have "map (first_seen (concat pages)) (map time_utc ?o) = ?o"
    by (simp only: map_map) (rule map_idI, simp)
  then show ?thesis by (simp add: merge_pages_def merge_order)
qed


section \<open>Completing the terminal bar\<close>

lemma latest_index_Max:
  assumes "bars \<noteq> []"
  shows "latest_index bars < length bars
    \<and> time_utc (bars ! latest_index bars) = Max (time_utc ` set bars)"
proof -
  let ?m = "Max (set (map time_utc bars))"
  have "?m \<in> set (map time_utc bars)" using assms by (intro Max_in) auto
  then have ex: "\<exists>b \<in> set bars. \<not> time_utc b \<noteq> ?m" by auto
  from ex have len: "length (takeWhile (\<lambda>b. time_utc b \<noteq> ?m) bars) < length bars"
    by (rule length_takeWhile_strict)
  then have "time_utc (bars ! length (takeWhile (\<lambda>b. time_utc b \<noteq> ?m) bars)) = ?m"
    using nth_length_takeWhile by blast
  with len show ?thesis by (simp add: latest_index_def Let_def)
qed

text \<open>The evidence on which a terminal bar may be completed.\<close>

definition terminal_evidence :: "NormalizedBar \<Rightarrow> datetime \<Rightarrow> datetime \<Rightarrow> bool" where
  "terminal_evidence b opens closes \<longleftrightarrow>
     \<not> tz_naive opens \<and> \<not> tz_naive closes \<and> instant opens < instant closes
     \<and> time_utc b = Aware (instant opens + terminal_slot_index (instant closes - instant opens) * hour)
     \<and> (\<exists>m r. delayed_by_minutes b = Some m \<and> 0 \<le> m \<and> retrieved_at_utc b = Aware r
          \<and> instant closes + m * minute \<le> r)"

text \<open>Completing a terminal bar either returns the bars as they were or raises the flag of
  the newest bar alone, and only for an incomplete bar that starts the session's last hour slot
  and was retrieved no earlier than the close plus the provider's non-negative delay.\<close>

theorem mark_terminal_only_on_evidence:
  "mark_terminal_session_bar_complete bars opens closes
     = (let n = latest_index bars
        in if bars \<noteq> [] \<and> \<not> is_complete (bars ! n) \<and> terminal_evidence (bars ! n) opens closes
           then bars[n := (bars ! n)\<lparr>is_complete := True\<rparr>] else bars)"
proof (cases "bars = []")
  case True
  then show ?thesis by (simp add: mark_terminal_session_bar_complete_def)
next
  case False
  then show ?thesis
    by (cases "retrieved_at_utc (bars ! latest_index bars)";
        cases "delayed_by_minutes (bars ! latest_index bars)")
      (auto simp: mark_terminal_session_bar_complete_def terminal_evidence_def Let_def)
qed

text \<open>For a session of whole seconds the completed bar's hour is the one that contains the close.\<close>

lemma terminal_slot_covers_close:
  assumes "0 < d" and "second dvd d"
  shows "terminal_slot_index d * hour < d \<and> d \<le> (terminal_slot_index d + 1) * hour"
proof -
  from assms(2) obtain k where d: "d = second * k" by (auto simp: dvd_def)
  have "terminal_slot_index d = (k - 1) div 3600"
  proof -
    have "(d - second) div hour = (second * (k - 1)) div (second * 3600)"
      by (simp add: d time_units algebra_simps)
    then show ?thesis by (simp add: terminal_slot_index_def div_mult_mult1 second_def)
  qed
  then have t: "terminal_slot_index d * 3600 = (k - 1) - (k - 1) mod 3600"
    by (simp add: minus_mod_eq_mult_div mult.commute)
  have b: "0 \<le> (k - 1) mod 3600" "(k - 1) mod 3600 \<le> 3599"
    using pos_mod_bound [of 3600 "k - 1"] by (simp, linarith)
  show ?thesis unfolding hour_def using t b d [unfolded second_def] by (simp add: distrib_right)
qed

section \<open>Examples\<close>

definition example_etf :: CanonicalInstrument where
  "example_etf = \<lparr> i_category = ''equity'', i_key = ''tip'', i_symbol = ''TIP:arcx'', i_uic = 37,
     i_asset_type = ''Etf'', i_currency = ''USD'' \<rparr>"

definition example_fx :: CanonicalInstrument where
  "example_fx = \<lparr> i_category = ''fx'', i_key = ''usdjpy'', i_symbol = ''USDJPY'', i_uic = 42,
     i_asset_type = ''FxSpot'', i_currency = ''JPY'' \<rparr>"

definition example_sample :: json where
  "example_sample = JObj [(''Time'', JStr ''2024-01-02T15:00:00Z''), (''Open'', JInt 10),
     (''High'', JInt 12), (''Low'', JInt 9), (''Close'', JInt 11)]"

definition example_payload :: "(string \<times> json) list" where
  "example_payload = [(''ChartInfo'', JObj [(''Horizon'', JInt 60)]), (''Data'', JArr [example_sample])]"

definition example_page_context :: PageContext where
  "example_page_context = \<lparr> p_retrieved_at = 0, p_sha256 = ''s'', p_path = ''p'' \<rparr>"

definition example_sample_context :: SampleContext where
  "example_sample_context = sample_context example_page_context None None"

text \<open>Two FX samples; the second one's high is quoted with the bid above the ask.\<close>

definition example_fx_sample :: "string \<Rightarrow> int \<Rightarrow> json" where
  "example_fx_sample t high_bid_px = JObj [(''Time'', JStr t),
     (''OpenBid'', JInt 10), (''OpenAsk'', JInt 11), (''HighBid'', JInt high_bid_px), (''HighAsk'', JInt 13),
     (''LowBid'', JInt 8), (''LowAsk'', JInt 9), (''CloseBid'', JInt 10), (''CloseAsk'', JInt 11)]"

definition example_fx_samples :: "json list" where
  "example_fx_samples = [example_fx_sample ''2024-01-02T15:00:00Z'' 12,
                         example_fx_sample ''2024-01-02T16:00:00Z'' 14]"

theorem normalize_chart_page_bars_witness:
  "\<exists>b. normalize_chart_page example_etf example_payload example_page_context = Inr [b]
     \<and> bar_ok example_etf b"
proof -
  have "case normalize_chart_page example_etf example_payload example_page_context of
          Inr bs \<Rightarrow> length bs = 1 | Inl _ \<Rightarrow> False" by code_simp
  then obtain b where b: "normalize_chart_page example_etf example_payload example_page_context = Inr [b]"
    by (auto split: sum.splits simp: length_Suc_conv)
  show ?thesis using normalize_chart_page_bars [OF b] b by auto
qed

theorem quarantine_partition_witness:
  "\<exists>b r. quarantine_samples example_fx example_sample_context example_fx_samples = Inr ([b], [r])
     \<and> bar_ok example_fx b \<and> rejected_ok example_sample_context r"
proof -
  have "case quarantine_samples example_fx example_sample_context example_fx_samples of
          Inr (acc, rej) \<Rightarrow> length acc = 1 \<and> length rej = 1 | Inl _ \<Rightarrow> False" by code_simp
  then obtain b r where
    q: "quarantine_samples example_fx example_sample_context example_fx_samples = Inr ([b], [r])"
    by (auto split: sum.splits prod.splits simp: length_Suc_conv)
  show ?thesis
    using quarantine_partition [of example_fx example_sample_context example_fx_samples "[b]" "[r]"] q
    by (intro exI [of _ b] exI [of _ r]) simp
qed

end
