(* ===== verification/SaxoClient.thy ===== *)
theory SaxoClient
  imports InstrumentRegistry
begin

text \<open>
  \<open>market_db/saxo_client.py\<close>: the GET-only client of the Saxo SIM gateway. The network is
  a parameter: a function from the request and the number of requests sent before it to what
  comes back (a failure of the transport, or a status, headers and the decoded JSON body).
  The client's state is a record with the counters of the class, the waits it slept and a log
  of every request handed to the transport.
\<close>

section \<open>Endpoints\<close>

datatype endpoint_profile = LegacyRead | MarketDataOnly

definition chart_path :: string where "chart_path = ''/chart/v3/charts''"
definition smoke_path :: string where "smoke_path = ''/port/v1/users/me''"
definition accounts_me_path :: string where "accounts_me_path = ''/port/v1/accounts/me''"
definition balances_me_path :: string where "balances_me_path = ''/port/v1/balances/me''"
definition session_capabilities_path :: string where
  "session_capabilities_path = ''/root/v1/sessions/capabilities''"
definition historical_transactions_path :: string where
  "historical_transactions_path = ''/hist/v1/transactions''"
definition info_prices_list_path :: string where
  "info_prices_list_path = ''/trade/v1/infoprices/list''"
definition search_path :: string where "search_path = ''/ref/v1/instruments''"

lemmas path_defs = chart_path_def smoke_path_def accounts_me_path_def balances_me_path_def
  session_capabilities_path_def historical_transactions_path_def info_prices_list_path_def
  search_path_def

text \<open>The two regular expressions: a fixed prefix, digits, a slash and an asset type.\<close>

definition instrument_path :: "string \<Rightarrow> string \<Rightarrow> bool" where
  "instrument_path pre p =
     (starts_with pre p
      \<and> takeWhile is_digit (drop (length pre) p) \<noteq> []
      \<and> dropWhile is_digit (drop (length pre) p) \<in> {''/Etf'', ''/FxSpot''})"

definition detail_prefix :: string where "detail_prefix = ''/ref/v1/instruments/details/''"
definition schedule_prefix :: string where
  "schedule_prefix = ''/ref/v1/instruments/tradingschedule/''"

definition allowed_path :: "string \<Rightarrow> bool" where
  "allowed_path p =
     (p \<in> {chart_path, smoke_path, search_path, accounts_me_path, balances_me_path,
          session_capabilities_path, historical_transactions_path, info_prices_list_path}
      \<or> instrument_path detail_prefix p \<or> instrument_path schedule_prefix p)"

definition market_data_path :: "string \<Rightarrow> bool" where
  "market_data_path p =
     (p = chart_path \<or> instrument_path detail_prefix p \<or> instrument_path schedule_prefix p)"

definition profile_allows :: "endpoint_profile \<Rightarrow> string \<Rightarrow> bool" where
  "profile_allows prof p = (if prof = MarketDataOnly then market_data_path p else allowed_path p)"

definition endpoint_id :: "string \<Rightarrow> string" where
  "endpoint_id p =
     (if p = chart_path then ''chart''
      else if instrument_path detail_prefix p then ''instrument_detail''
      else if instrument_path schedule_prefix p then ''trading_schedule''
      else if p = smoke_path then ''users_me''
      else if p = accounts_me_path then ''accounts_me''
      else if p = balances_me_path then ''balances_me''
      else if p = session_capabilities_path then ''session_capabilities''
      else if p = historical_transactions_path then ''historical_transactions''
      else if p = info_prices_list_path then ''info_prices''
      else if p = search_path then ''instrument_search''
      else ''unknown'')"

section \<open>Sanitised errors and rate headers\<close>

definition sanitized_error_code :: "int \<Rightarrow> string" where
  "sanitized_error_code status =
     (if status = 400 then ''BLOCKED_INVALID_REQUEST''
      else if status = 401 then ''BLOCKED_TOKEN_EXPIRED''
      else if status = 403 then ''BLOCKED_PERMISSION_OR_NETWORK_REPUTATION''
      else if status = 404 then ''BLOCKED_INSTRUMENT_DRIFT''
      else if status = 429 then ''BLOCKED_RATE_LIMIT''
      else if status = 503 then ''FAILED_SERVICE_UNAVAILABLE''
      else ''FAILED_HTTP_'' @ show_int status)"

type_synonym headers = "(string \<times> string) list"

definition contains :: "string \<Rightarrow> string \<Rightarrow> bool" where
  "contains part s = list_ex (starts_with part) (suffixes s)"

definition ends_with :: "string \<Rightarrow> string \<Rightarrow> bool" where
  "ends_with suf s = starts_with (rev suf) (rev s)"

definition safe_rate_headers :: "headers \<Rightarrow> headers" where
  "safe_rate_headers hs =
     filter (\<lambda>(k, v). starts_with ''x-ratelimit-'' (lower k)
        \<and> (contains ''-limit'' (lower k) \<or> contains ''-remaining'' (lower k)
           \<or> contains ''-reset'' (lower k))) hs"

definition reset_seconds :: "headers \<Rightarrow> nat option" where
  "reset_seconds hs =
     map_option (\<lambda>(k, v). digits_value v)
       (find (\<lambda>(k, v). ends_with ''-reset'' (lower k) \<and> v \<noteq> [] \<and> list_all is_digit v) hs)"

section \<open>One GET with its bounded retries\<close>

datatype outcome =
    TransportFailure
  | Response int headers "json option"  \<comment> \<open>\<open>None\<close>: a body that is no UTF-8 or no JSON\<close>

record request =
  rq_method :: string
  rq_path :: string
  rq_params :: "(string \<times> json) list"

type_synonym network = "request \<Rightarrow> nat \<Rightarrow> outcome"

record client =
  endpoint_profile :: endpoint_profile
  request_count :: nat
  write_request_count :: nat
  endpoint_counts :: "(string \<times> nat) list"
  rate_limit_summary :: headers
  slept :: "nat list"
  sent :: "request list"

definition sim_base_url :: string where
  "sim_base_url = ''https://gateway.saxobank.com/sim/openapi''"

definition profile_of :: "string \<Rightarrow> endpoint_profile option" where
  "profile_of name =
     (if name = ''legacy_read'' then Some LegacyRead
      else if name = ''market_data_only'' then Some MarketDataOnly else None)"

definition new_client :: "string \<Rightarrow> string \<Rightarrow> string \<Rightarrow> exn + client" where
  "new_client access_token base_url prof =
     (if base_url \<noteq> sim_base_url
      then Inl (ValueError ''only the Saxo SIM base URL is allowed'')
      else if access_token = [] then Inl (ValueError ''SAXO_ACCESS_TOKEN is required'')
      else case profile_of prof of
             None \<Rightarrow> Inl (ValueError ''unknown Saxo endpoint profile'')
           | Some p \<Rightarrow>
               Inr \<lparr> endpoint_profile = p, request_count = 0, write_request_count = 0,
                     endpoint_counts = [], rate_limit_summary = [], slept = [], sent = [] \<rparr>)"

definition retry_waits :: "nat list" where "retry_waits = [1, 2, 4]"

fun dict_put :: "'k \<Rightarrow> 'v \<Rightarrow> ('k \<times> 'v) list \<Rightarrow> ('k \<times> 'v) list" where
  "dict_put k v [] = [(k, v)]"
| "dict_put k v ((a, b) # xs) = (if a = k then (a, v) # xs else (a, b) # dict_put k v xs)"

definition count_endpoint :: "string \<Rightarrow> (string \<times> nat) list \<Rightarrow> (string \<times> nat) list" where
  "count_endpoint e cs =
     dict_put e ((case map_of cs e of None \<Rightarrow> 0 | Some n \<Rightarrow> n) + 1) cs"

definition record_response :: "request \<Rightarrow> headers \<Rightarrow> client \<Rightarrow> client" where
  "record_response rq hs c =
     c\<lparr> request_count := request_count c + 1,
        endpoint_counts := count_endpoint (endpoint_id (rq_path rq)) (endpoint_counts c),
        rate_limit_summary := fold (\<lambda>(k, v). dict_put k v) (safe_rate_headers hs) (rate_limit_summary c) \<rparr>"

definition sleep_for :: "nat \<Rightarrow> client \<Rightarrow> client" where
  "sleep_for s c = c\<lparr> slept := slept c @ [s] \<rparr>"

definition log_request :: "request \<Rightarrow> client \<Rightarrow> client" where
  "log_request rq c = c\<lparr> sent := sent c @ [rq] \<rparr>"

definition finish_response ::
  "int \<Rightarrow> json option \<Rightarrow> exn + (string \<times> json) list" where
  "finish_response status body =
     (if status \<noteq> 200 then Inl (SaxoAPIError (sanitized_error_code status) (Some status))
      else case body of
             None \<Rightarrow> Inl (SaxoAPIError ''FAILED_INVALID_JSON'' (Some status))
           | Some (JObj kvs) \<Rightarrow> Inr kvs
           | Some _ \<Rightarrow> Inl (SaxoAPIError ''FAILED_JSON_NOT_OBJECT'' (Some status)))"

text \<open>The loop \<open>for attempt in range(4)\<close>, by the number of attempts left.\<close>

fun get_attempts ::
  "network \<Rightarrow> request \<Rightarrow> nat \<Rightarrow> client \<Rightarrow> (exn + (string \<times> json) list) \<times> client" where
  "get_attempts net rq 0 c = (Inl (SaxoAPIError ''BLOCKED_RATE_LIMIT'' (Some 429)), c)"
| "get_attempts net rq (Suc left) c =
     (let attempt = 3 - left; n = length (sent c); c1 = log_request rq c
      in case net rq n of
           TransportFailure \<Rightarrow>
             (if attempt < 3 then get_attempts net rq left (sleep_for (retry_waits ! attempt) c1)
              else (Inl (SaxoAPIError ''FAILED_NETWORK'' None), c1))
         | Response status hs body \<Rightarrow>
             (let c2 = record_response rq hs c1
              in if status = 429 \<and> attempt < 3 then
                   (let w = retry_waits ! attempt;
                        wait_seconds = (case reset_seconds hs of None \<Rightarrow> w | Some r \<Rightarrow> max w r)
                    in get_attempts net rq left (sleep_for wait_seconds c2))
                 else (finish_response status body, c2)))"

definition get_json ::
  "network \<Rightarrow> string \<Rightarrow> (string \<times> json) list \<Rightarrow> client \<Rightarrow>
   (exn + (string \<times> json) list) \<times> client" where
  "get_json net path params c =
     (if \<not> profile_allows (endpoint_profile c) path
      then (Inl (ValueError ''Saxo endpoint is not allow-listed''), c)
      else get_attempts net \<lparr> rq_method = ''GET'', rq_path = path, rq_params = params \<rparr> 4 c)"

section \<open>The read operations\<close>

definition validate_instrument :: "int \<Rightarrow> string \<Rightarrow> exn + unit" where
  "validate_instrument uic asset_type =
     (if uic \<le> 0 then Inl (ValueError ''UIC must be a positive integer'')
      else if asset_type \<notin> {''Etf'', ''FxSpot''}
      then Inl (ValueError ''AssetType must be Etf or FxSpot'') else Inr ())"

definition smoke_test :: "network \<Rightarrow> client \<Rightarrow> (exn + unit) \<times> client" where
  "smoke_test net c =
     (case get_json net smoke_path [] c of (Inl e, c') \<Rightarrow> (Inl e, c') | (Inr _, c') \<Rightarrow> (Inr (), c'))"

definition instrument_detail ::
  "network \<Rightarrow> int \<Rightarrow> string \<Rightarrow> client \<Rightarrow> (exn + (string \<times> json) list) \<times> client" where
  "instrument_detail net uic asset_type c =
     (case validate_instrument uic asset_type of
        Inl e \<Rightarrow> (Inl e, c)
      | Inr _ \<Rightarrow> get_json net (detail_prefix @ show_int uic @ ''/'' @ asset_type) [] c)"

definition trading_schedule ::
  "network \<Rightarrow> int \<Rightarrow> string \<Rightarrow> client \<Rightarrow> (exn + (string \<times> json) list) \<times> client" where
  "trading_schedule net uic asset_type c =
     (case validate_instrument uic asset_type of
        Inl e \<Rightarrow> (Inl e, c)
      | Inr _ \<Rightarrow> get_json net (schedule_prefix @ show_int uic @ ''/'' @ asset_type) [] c)"

definition accounts_me :: "network \<Rightarrow> client \<Rightarrow> (exn + (string \<times> json) list) \<times> client" where
  "accounts_me net c = get_json net accounts_me_path [] c"

definition balances_me :: "network \<Rightarrow> client \<Rightarrow> (exn + (string \<times> json) list) \<times> client" where
  "balances_me net c = get_json net balances_me_path [] c"

definition session_capabilities :: "network \<Rightarrow> client \<Rightarrow> (exn + (string \<times> json) list) \<times> client" where
  "session_capabilities net c = get_json net session_capabilities_path [] c"

definition uics_text :: "int list \<Rightarrow> json" where
  "uics_text uics = JStr (join_comma (map show_int uics))"

text \<open>ISO date texts compare as strings, character by character.\<close>

fun text_less :: "string \<Rightarrow> string \<Rightarrow> bool" where
  "text_less _ [] = False"
| "text_less [] (_ # _) = True"
| "text_less (a # s) (b # t) = (ccode a < ccode b \<or> (ccode a = ccode b \<and> text_less s t))"

definition historical_transactions ::
  "network \<Rightarrow> string \<Rightarrow> string \<Rightarrow> int list \<Rightarrow> string \<Rightarrow> int \<Rightarrow> int \<Rightarrow> client \<Rightarrow>
   (exn + (string \<times> json) list) \<times> client" where
  "historical_transactions net from_date to_date uics transaction_type skip_n top_n c =
     (if from_date = [] \<or> to_date = [] \<or> text_less to_date from_date
      then (Inl (ValueError ''valid historical transaction date range is required''), c)
      else if uics = [] \<or> list_ex (\<lambda>u. u \<le> 0) uics
      then (Inl (ValueError ''positive UICs are required''), c)
      else if transaction_type \<notin> {''All'', ''CorporateAction'', ''Trade'', ''CashAmount''}
      then (Inl (ValueError ''unsupported historical transaction type''), c)
      else if skip_n < 0 \<or> \<not> (1 \<le> top_n \<and> top_n \<le> 1000)
      then (Inl (ValueError ''invalid historical transaction pagination''), c)
      else get_json net historical_transactions_path
        [(''$skip'', JInt skip_n), (''$top'', JInt top_n), (''FromDate'', JStr from_date),
         (''ToDate'', JStr to_date), (''TransactionType'', JStr transaction_type),
         (''Uics'', uics_text uics)] c)"

definition info_prices ::
  "network \<Rightarrow> int list \<Rightarrow> string \<Rightarrow> int \<Rightarrow> client \<Rightarrow> (exn + (string \<times> json) list) \<times> client" where
  "info_prices net uics asset_type amount c =
     (if asset_type \<notin> {''Etf'', ''FxSpot''}
      then (Inl (ValueError ''AssetType must be Etf or FxSpot''), c)
      else if uics = [] \<or> list_ex (\<lambda>u. u \<le> 0) uics
      then (Inl (ValueError ''positive UICs are required''), c)
      else if amount \<le> 0 then (Inl (ValueError ''Amount must be positive''), c)
      else get_json net info_prices_list_path
        [(''Uics'', uics_text uics), (''AssetType'', JStr asset_type), (''Amount'', JInt amount),
         (''AmountType'', JStr ''Quantity''),
         (''FieldGroups'', JStr ''DisplayAndFormat,InstrumentPriceDetails,Quote'')] c)"

definition max_chart_count :: int where "max_chart_count = 1200"

definition chart ::
  "network \<Rightarrow> int \<Rightarrow> string \<Rightarrow> int \<Rightarrow> string option \<Rightarrow> string option \<Rightarrow> client \<Rightarrow>
   (exn + (string \<times> json) list) \<times> client" where
  "chart net uic asset_type count' mode time_text c =
     (case validate_instrument uic asset_type of
        Inl e \<Rightarrow> (Inl e, c)
      | Inr _ \<Rightarrow>
          if \<not> (1 \<le> count' \<and> count' \<le> max_chart_count)
          then (Inl (ValueError ''chart Count must be between 1 and 1200''), c)
          else if (mode = None) \<noteq> (time_text = None)
          then (Inl (ValueError ''chart Mode and Time must be supplied together''), c)
          else if mode \<noteq> None \<and> the mode \<notin> {''From'', ''UpTo''}
          then (Inl (ValueError ''chart Mode must be From or UpTo''), c)
          else get_json net chart_path
            ([(''Uic'', JInt uic), (''AssetType'', JStr asset_type), (''Horizon'', JInt 60),
              (''Count'', JInt count'), (''FieldGroups'', JStr ''Data,DisplayAndFormat,ChartInfo'')]
             @ (case (mode, time_text) of
                  (Some m, Some t) \<Rightarrow> [(''Mode'', JStr m), (''Time'', JStr t)]
                | _ \<Rightarrow> [])) c)"

section \<open>What one GET does\<close>

text \<open>
  The specification of the retry loop: an outcome is retried when the transport failed or the
  gateway answered 429; every other outcome is final and maps to one verdict.
\<close>

definition retryable :: "outcome \<Rightarrow> bool" where
  "retryable o1 = (case o1 of TransportFailure \<Rightarrow> True | Response status _ _ \<Rightarrow> status = 429)"

definition verdict :: "outcome \<Rightarrow> exn + (string \<times> json) list" where
  "verdict o1 = (case o1 of TransportFailure \<Rightarrow> Inl (SaxoAPIError ''FAILED_NETWORK'' None)
                 | Response status _ body \<Rightarrow> finish_response status body)"

lemma sent_simps [simp]:
  "sent (log_request rq c) = sent c @ [rq]"
  "sent (sleep_for w c) = sent c"
  "sent (record_response rq hs c) = sent c"
  "slept (log_request rq c) = slept c"
  "slept (sleep_for w c) = slept c @ [w]"
  "slept (record_response rq hs c) = slept c"
  "write_request_count (log_request rq c) = write_request_count c"
  "write_request_count (sleep_for w c) = write_request_count c"
  "write_request_count (record_response rq hs c) = write_request_count c"
  "endpoint_profile (log_request rq c) = endpoint_profile c"
  "endpoint_profile (sleep_for w c) = endpoint_profile c"
  "endpoint_profile (record_response rq hs c) = endpoint_profile c"
  "request_count (log_request rq c) = request_count c"
  "request_count (sleep_for w c) = request_count c"
  "request_count (record_response rq hs c) = request_count c + 1"
  by (simp_all add: log_request_def sleep_for_def record_response_def)

text \<open>One pass of the loop: it either stops with the verdict or waits and goes on.\<close>

lemma get_attempts_stop:
  assumes "\<not> retryable (net rq (length (sent c))) \<or> left = 0"
  shows "fst (get_attempts net rq (Suc left) c) = verdict (net rq (length (sent c)))"
    and "sent (snd (get_attempts net rq (Suc left) c)) = sent c @ [rq]"
    and "slept (snd (get_attempts net rq (Suc left) c)) = slept c"
  using assms
  by (auto simp: retryable_def verdict_def Let_def split: outcome.splits)

lemma get_attempts_retry:
  assumes "retryable (net rq (length (sent c)))" and "0 < left"
  shows "\<exists>w c1. get_attempts net rq (Suc left) c = get_attempts net rq left c1
           \<and> retry_waits ! (3 - left) \<le> w \<and> sent c1 = sent c @ [rq] \<and> slept c1 = slept c @ [w]"
proof (cases "net rq (length (sent c))")
  case TransportFailure
  then show ?thesis
    using assms
    by (intro exI [of _ "retry_waits ! (3 - left)"]
              exI [of _ "sleep_for (retry_waits ! (3 - left)) (log_request rq c)"])
       (auto simp: Let_def)
next
  case (Response status hs body)
  define w where "w = (case reset_seconds hs of None \<Rightarrow> retry_waits ! (3 - left)
                       | Some r \<Rightarrow> max (retry_waits ! (3 - left)) r)"
  have "get_attempts net rq (Suc left) c
      = get_attempts net rq left (sleep_for w (record_response rq hs (log_request rq c)))"
    using Response assms by (simp add: Let_def retryable_def w_def)
  moreover have "retry_waits ! (3 - left) \<le> w"
    by (auto simp: w_def split: option.splits)
  ultimately show ?thesis
    by (intro exI [of _ w] exI [of _ "sleep_for w (record_response rq hs (log_request rq c))"]) simp
qed

text \<open>The whole loop, as the index of the outcome that is final.\<close>

definition loop_spec ::
  "network \<Rightarrow> request \<Rightarrow> nat \<Rightarrow> client \<Rightarrow> nat \<Rightarrow> bool" where
  "loop_spec net rq left c k =
     ((\<forall>i<k. retryable (net rq (length (sent c) + i)))
      \<and> (\<not> retryable (net rq (length (sent c) + k)) \<or> k = left)
      \<and> fst (get_attempts net rq (Suc left) c) = verdict (net rq (length (sent c) + k))
      \<and> sent (snd (get_attempts net rq (Suc left) c)) = sent c @ replicate (Suc k) rq
      \<and> (\<exists>ws. slept (snd (get_attempts net rq (Suc left) c)) = slept c @ ws
            \<and> length ws = k \<and> (\<forall>i<k. retry_waits ! (3 - left + i) \<le> ws ! i)))"

lemma get_attempts_spec:
  "left \<le> 3 \<Longrightarrow> \<exists>k\<le>left. loop_spec net rq left c k"
proof (induction left arbitrary: c)
  case 0
  have "loop_spec net rq 0 c 0"
    using get_attempts_stop [of net rq c 0] by (simp add: loop_spec_def)
  then show ?case by blast
next
  case (Suc l)
  show ?case
  proof (cases "retryable (net rq (length (sent c)))")
    case False
    then have "loop_spec net rq (Suc l) c 0"
      using get_attempts_stop [of net rq c "Suc l"] by (simp add: loop_spec_def)
    then show ?thesis by blast
  next
    case True
    obtain w c1 where step: "get_attempts net rq (Suc (Suc l)) c = get_attempts net rq (Suc l) c1"
      "retry_waits ! (3 - Suc l) \<le> w" "sent c1 = sent c @ [rq]" "slept c1 = slept c @ [w]"
      using get_attempts_retry [of net rq c "Suc l"] True by blast
    from Suc.IH [of c1] Suc.prems obtain k where k: "k \<le> l" "loop_spec net rq l c1 k" by auto
    then obtain ws where ws: "slept (snd (get_attempts net rq (Suc l) c1)) = slept c1 @ ws"
      "length ws = k" "\<forall>i<k. retry_waits ! (3 - l + i) \<le> ws ! i"
      by (auto simp: loop_spec_def)
    have eq: "3 - Suc l + Suc i = 3 - l + i" for i using Suc.prems by arith
    have "\<forall>i<Suc k. retryable (net rq (length (sent c) + i))"
      using k(2) True step(3) by (auto simp: loop_spec_def less_Suc_eq_0_disj)
    moreover have "\<forall>i<Suc k. retry_waits ! (3 - Suc l + i) \<le> (w # ws) ! i"
    proof (intro allI impI)
      fix i assume "i < Suc k"
      then show "retry_waits ! (3 - Suc l + i) \<le> (w # ws) ! i"
      proof (cases i)
        case 0
        then show ?thesis using step(2) by simp
      next
        case (Suc j)
        then show ?thesis using ws(3) \<open>i < Suc k\<close> eq [of j] by (metis Suc_less_eq nth_Cons_Suc)
      qed
    qed
    ultimately have "loop_spec net rq (Suc l) c (Suc k)"
      using k(2) step ws
      by (auto simp: loop_spec_def simp del: get_attempts.simps intro!: exI [of _ "w # ws"])
    then show ?thesis using k(1) by auto
  qed
qed

lemma get_attempts_frame:
  "write_request_count (snd (get_attempts net rq n c)) = write_request_count c
   \<and> endpoint_profile (snd (get_attempts net rq n c)) = endpoint_profile c
   \<and> request_count c \<le> request_count (snd (get_attempts net rq n c))"
proof (induction n arbitrary: c)
  case (Suc n)
  show ?case
    using Suc.IH [of "sleep_for (retry_waits ! (3 - n)) (log_request rq c)"]
          Suc.IH [of "sleep_for _ (record_response rq _ (log_request rq c))"]
    by (auto simp: Let_def split: outcome.splits option.splits intro: Suc_leD)
qed simp

section \<open>Which requests a client can send\<close>

text \<open>Every operation of the class, as one step of the client's state.\<close>

inductive client_step :: "network \<Rightarrow> client \<Rightarrow> client \<Rightarrow> bool" for net :: network where
  Smoke: "client_step net c (snd (smoke_test net c))"
| Detail: "client_step net c (snd (instrument_detail net uic asset c))"
| Schedule: "client_step net c (snd (trading_schedule net uic asset c))"
| Accounts: "client_step net c (snd (accounts_me net c))"
| Balances: "client_step net c (snd (balances_me net c))"
| Capabilities: "client_step net c (snd (session_capabilities net c))"
| Transactions: "client_step net c (snd (historical_transactions net f t uics ty sk tp c))"
| Prices: "client_step net c (snd (info_prices net uics asset amount c))"
| Chart: "client_step net c (snd (chart net uic asset n m t c))"
| Raw: "client_step net c (snd (get_json net path params c))"

inductive client_reachable :: "network \<Rightarrow> client \<Rightarrow> client \<Rightarrow> bool" for net :: network where
  Start: "client_reachable net c c"
| Step: "client_reachable net c0 c \<Longrightarrow> client_step net c c' \<Longrightarrow> client_reachable net c0 c'"

text \<open>What one call may add: at most four copies of one allow-listed GET.\<close>

definition request_ok :: "endpoint_profile \<Rightarrow> request \<Rightarrow> bool" where
  "request_ok prof rq = (rq_method rq = ''GET'' \<and> profile_allows prof (rq_path rq))"

definition call_ok :: "client \<Rightarrow> client \<Rightarrow> bool" where
  "call_ok c c' =
     (endpoint_profile c' = endpoint_profile c
      \<and> write_request_count c' = write_request_count c
      \<and> (\<exists>k rq. k \<le> 4 \<and> sent c' = sent c @ replicate k rq
             \<and> (k = 0 \<or> request_ok (endpoint_profile c) rq)))"

lemma call_ok_refl [simp]: "call_ok c c"
  by (auto simp: call_ok_def)

lemma get_json_call_ok: "call_ok c (snd (get_json net path params c))"
proof (cases "profile_allows (endpoint_profile c) path")
  case False
  then show ?thesis by (simp add: get_json_def)
next
  case True
  define rq where "rq = \<lparr> rq_method = ''GET'', rq_path = path, rq_params = params \<rparr>"
  have eq: "get_json net path params c = get_attempts net rq (Suc 3) c"
    using True by (simp add: get_json_def rq_def eval_nat_numeral del: get_attempts.simps)
  obtain k where "k \<le> 3" "loop_spec net rq 3 c k" using get_attempts_spec [of 3 net rq c] by auto
  then have "sent (snd (get_json net path params c)) = sent c @ replicate (Suc k) rq" "Suc k \<le> 4"
    by (simp_all add: eq loop_spec_def del: get_attempts.simps)
  moreover have "request_ok (endpoint_profile c) rq" using True by (simp add: request_ok_def rq_def)
  ultimately have "\<exists>k rq. k \<le> 4 \<and> sent (snd (get_json net path params c)) = sent c @ replicate k rq
      \<and> (k = 0 \<or> request_ok (endpoint_profile c) rq)"
    by (intro exI [of _ "Suc k"] exI [of _ rq] conjI disjI2)
  moreover have "endpoint_profile (snd (get_json net path params c)) = endpoint_profile c"
    and "write_request_count (snd (get_json net path params c)) = write_request_count c"
    using get_attempts_frame [of net rq "Suc 3" c] unfolding eq by simp_all
  ultimately show ?thesis by (simp only: call_ok_def)
qed

lemma smoke_test_state: "snd (smoke_test net c) = snd (get_json net smoke_path [] c)"
  by (auto simp: smoke_test_def split: sum.splits prod.splits)

lemma client_step_call_ok: "client_step net c c' \<Longrightarrow> call_ok c c'"
  by (induction rule: client_step.induct)
     (simp_all add: smoke_test_state instrument_detail_def trading_schedule_def accounts_me_def
        balances_me_def session_capabilities_def historical_transactions_def info_prices_def
        chart_def get_json_call_ok split: sum.splits)

lemma reachable_requests:
  "client_reachable net c0 c \<Longrightarrow>
   endpoint_profile c = endpoint_profile c0 \<and> write_request_count c = write_request_count c0
   \<and> (\<forall>rq\<in>set (sent c). rq \<in> set (sent c0) \<or> request_ok (endpoint_profile c0) rq)"
proof (induction rule: client_reachable.induct)
  case (Step c0 c c')
  have "call_ok c c'" using client_step_call_ok [OF Step.hyps(2)] .
  then show ?case using Step.IH by (auto simp: call_ok_def split: if_splits)
qed simp

text \<open>The paths built from a validated instrument are allowed in both profiles.\<close>

lemma show_nat_Nil [simp]: "show_nat n \<noteq> []"
  by (subst show_nat.simps) simp

lemma instrument_path_built:
  assumes "validate_instrument uic asset = Inr u"
  shows "instrument_path pre (pre @ show_int uic @ ''/'' @ asset)"
proof -
  have *: "0 < uic" "asset = ''Etf'' \<or> asset = ''FxSpot''"
    using assms by (auto simp: validate_instrument_def split: if_splits)
  have d: "\<not> is_digit (CHR ''/'')" by (simp add: is_digit_def ccode_def)
  have "\<forall>c\<in>set (show_nat (nat uic)). is_digit c" using show_nat_digits by (simp add: list_all_iff)
  then have "takeWhile is_digit (show_nat (nat uic) @ ''/'' @ asset) = show_nat (nat uic)"
    and "dropWhile is_digit (show_nat (nat uic) @ ''/'' @ asset) = ''/'' @ asset"
    using d by (simp_all add: takeWhile_append2 dropWhile_append2)
  then show ?thesis
    using * show_nat_digits [of "nat uic"]
    by (auto simp: instrument_path_def show_int_def starts_with_def)
qed

text \<open>C6: Every request the client ever hands to its transport, whatever operations a caller
  runs in whatever order and whatever the network answers, is a GET to a path its endpoint
  profile allows, and the write counter stays 0; under the market-data profile this excludes
  every account, balance, session, transaction and price endpoint.\<close>

theorem client_only_reads:
  assumes "new_client token base_url prof = Inr c0" and "client_reachable net c0 c"
  shows "(\<forall>rq\<in>set (sent c). rq_method rq = ''GET'' \<and> allowed_path (rq_path rq))
       \<and> write_request_count c = 0
       \<and> (prof = ''market_data_only'' \<longrightarrow>
            (\<forall>rq\<in>set (sent c). endpoint_id (rq_path rq)
                \<in> {''chart'', ''instrument_detail'', ''trading_schedule''}))"
proof -
  have c0: "sent c0 = []" "write_request_count c0 = 0" "profile_of prof = Some (endpoint_profile c0)"
    using assms(1) by (auto simp: new_client_def split: if_splits option.splits)
  have "\<forall>rq\<in>set (sent c). request_ok (endpoint_profile c0) rq" "write_request_count c = 0"
    using reachable_requests [OF assms(2)] c0 by auto
  then show ?thesis
    using c0(3)
    by (auto simp: request_ok_def profile_allows_def market_data_path_def allowed_path_def
          endpoint_id_def profile_of_def split: if_splits)
qed

text \<open>A GET is sent at most four times: it is repeated exactly while the transport fails or
  the gateway answers 429 and attempts are left, waiting at least 1, 2 and 4 seconds (longer when
  a reset header asks for it) between attempts, and its result is the verdict of the last
  outcome: the decoded object of a 200, or the sanitised error of any other status.\<close>

theorem get_json_bounded_retry:
  assumes "profile_allows (endpoint_profile c) path"
  shows "\<exists>k\<le>3. (\<forall>i<k. retryable (net \<lparr> rq_method = ''GET'', rq_path = path, rq_params = params \<rparr>
                           (length (sent c) + i)))
     \<and> (k < 3 \<longrightarrow> \<not> retryable (net \<lparr> rq_method = ''GET'', rq_path = path, rq_params = params \<rparr>
                           (length (sent c) + k)))
     \<and> fst (get_json net path params c)
         = verdict (net \<lparr> rq_method = ''GET'', rq_path = path, rq_params = params \<rparr>
                        (length (sent c) + k))
     \<and> length (sent (snd (get_json net path params c))) = length (sent c) + k + 1
     \<and> (\<exists>ws. slept (snd (get_json net path params c)) = slept c @ ws \<and> length ws = k
           \<and> (\<forall>i<k. retry_waits ! i \<le> ws ! i))"
proof -
  define rq where "rq = \<lparr> rq_method = ''GET'', rq_path = path, rq_params = params \<rparr>"
  have eq: "get_json net path params c = get_attempts net rq (Suc 3) c"
    using assms by (simp add: get_json_def rq_def eval_nat_numeral del: get_attempts.simps)
  obtain k where "k \<le> 3" "loop_spec net rq 3 c k" using get_attempts_spec [of 3 net rq c] by auto
  then show ?thesis
    unfolding rq_def [symmetric] eq loop_spec_def
    by (intro exI [of _ k]) (auto simp del: get_attempts.simps)
qed

text \<open>A chart request with a positive UIC, a supported asset type, a count of 1 to 1200 and
  matching Mode and Time is never refused locally: under either profile the transport is asked
  at least once.\<close>

theorem chart_reaches_gateway:
  assumes "validate_instrument uic asset = Inr u" and "1 \<le> n" and "n \<le> 1200"
      and "(mode = None) = (time_text = None)" and "mode \<in> {None, Some ''From'', Some ''UpTo''}"
  shows "length (sent c) < length (sent (snd (chart net uic asset n mode time_text c)))
       \<and> length (sent c) < length (sent (snd (instrument_detail net uic asset c)))
       \<and> length (sent c) < length (sent (snd (trading_schedule net uic asset c)))"
proof -
  have sends: "length (sent c) < length (sent (snd (get_json net path params c)))"
    if "profile_allows (endpoint_profile c) path" for path params
  proof -
    define rq where "rq = \<lparr> rq_method = ''GET'', rq_path = path, rq_params = params \<rparr>"
    have eq: "get_json net path params c = get_attempts net rq (Suc 3) c"
      using that by (simp add: get_json_def rq_def eval_nat_numeral del: get_attempts.simps)
    obtain k where "loop_spec net rq 3 c k" using get_attempts_spec [of 3 net rq c] by auto
    then show ?thesis unfolding eq loop_spec_def by simp
  qed
  have chart_ok: "profile_allows (endpoint_profile c) chart_path"
    by (simp add: profile_allows_def market_data_path_def allowed_path_def)
  have path_ok: "profile_allows (endpoint_profile c) (pre @ show_int uic @ ''/'' @ asset)"
    if "pre \<in> {detail_prefix, schedule_prefix}" for pre
    using instrument_path_built [OF assms(1), of pre] that
    by (auto simp: profile_allows_def market_data_path_def allowed_path_def)
  have "length (sent c) < length (sent (snd (chart net uic asset n mode time_text c)))"
    using assms sends [OF chart_ok]
    by (auto simp: chart_def max_chart_count_def)
  moreover have "length (sent c) < length (sent (snd (instrument_detail net uic asset c)))"
    using assms(1) sends [OF path_ok [of detail_prefix]] by (simp add: instrument_detail_def)
  moreover have "length (sent c) < length (sent (snd (trading_schedule net uic asset c)))"
    using assms(1) sends [OF path_ok [of schedule_prefix]] by (simp add: trading_schedule_def)
  ultimately show ?thesis by simp
qed

section \<open>Examples\<close>

text \<open>A network that answers 429 twice and then an empty object.\<close>

definition example_network :: network where
  "example_network rq n = (if n < 2 then Response 429 [(''X-RateLimit-Session-Reset'', ''9'')] None
                           else Response 200 [] (Some (JObj [])))"

definition example_client :: client where
  "example_client = \<lparr> endpoint_profile = MarketDataOnly, request_count = 0, write_request_count = 0,
     endpoint_counts = [], rate_limit_summary = [], slept = [], sent = [] \<rparr>"

lemma example_client_new: "new_client ''t'' sim_base_url ''market_data_only'' = Inr example_client"
  by (simp add: new_client_def example_client_def profile_of_def)

theorem client_only_reads_witness:
  "sent (snd (chart example_network 37 ''Etf'' 10 None None example_client)) \<noteq> []
   \<and> list_all (\<lambda>rq. endpoint_id (rq_path rq) \<in> {''chart'', ''instrument_detail'', ''trading_schedule''})
        (sent (snd (chart example_network 37 ''Etf'' 10 None None example_client)))"
proof -
  have r: "client_reachable example_network example_client
             (snd (chart example_network 37 ''Etf'' 10 None None example_client))"
    by (rule client_reachable.Step [OF client_reachable.Start client_step.Chart])
  have "sent (snd (chart example_network 37 ''Etf'' 10 None None example_client)) \<noteq> []"
    by code_simp
  then show ?thesis using client_only_reads [OF example_client_new r] by (simp add: list_all_iff)
qed

theorem get_json_bounded_retry_witness:
  "slept (snd (get_json example_network chart_path [] example_client)) = [9, 9]
   \<and> (\<exists>k\<le>3. length (sent (snd (get_json example_network chart_path [] example_client))) = k + 1)"
proof -
  have p: "profile_allows (endpoint_profile example_client) chart_path" by code_simp
  have s: "slept (snd (get_json example_network chart_path [] example_client)) = [9, 9]"
    by code_simp
  have "sent example_client = []" by (simp add: example_client_def)
  then show ?thesis using get_json_bounded_retry [OF p, of example_network "[]"] s by auto
qed

theorem chart_reaches_gateway_witness:
  "sent (snd (chart example_network 37 ''Etf'' 10 (Some ''From'') (Some ''x'') example_client)) \<noteq> []"
proof -
  have v: "validate_instrument 37 ''Etf'' = Inr ()" by code_simp
  show ?thesis
    using chart_reaches_gateway [OF v, of 10 "Some ''From''" "Some ''x''" example_client example_network]
    by auto
qed

end
