(* ===== verification/ChartPages.thy ===== *)
theory ChartPages
  imports NormalizeBars SaxoClient "HOL-Library.Sublist"
begin

text \<open>
  \<open>market_db/acquire_pages.py\<close>: the pagination of the chart endpoint. The loop of
  \<open>fetch_chart_pages\<close> runs on the client's state and on the state of the caller's page
  observer, a parameter with its own failure; it stops at the first page that is not full, at a
  page whose times are not strictly increasing, at a cursor that does not move, or after
  \<open>max_pages\<close> pages.
\<close>

section \<open>Pages and their ts\<close>

definition max_pages_limit :: nat where "max_pages_limit = 10000"

record ChartPage =
  page_number :: nat
  request_mode :: string
  request_time_utc :: string
  page_payload :: "(string \<times> json) list"

definition sample_time :: "json \<Rightarrow> exn + datetime" where
  "sample_time sample = ebind (sample_time_text sample) parse_utc"

definition page_times :: "(string \<times> json) list \<Rightarrow> exn + datetime list" where
  "page_times payload =
     (case jget payload ''Data'' of
        JArr samples \<Rightarrow>
          ebind (emap sample_time samples) (\<lambda>ts.
            if ts \<noteq> sort ts \<or> \<not> distinct ts
            then Inl (BarQualityError ''NON_MONOTONIC_CHART_PAGE'') else Inr ts)
      | _ \<Rightarrow> Inl (BarQualityError ''MISSING_CHART_DATA''))"

section \<open>The paging loop\<close>

type_synonym 's observer = "ChartPage \<Rightarrow> 's \<Rightarrow> (exn + unit) \<times> 's"

definition next_cursor :: "string \<Rightarrow> datetime list \<Rightarrow> utc" where
  "next_cursor mode ts = instant (if mode = ''From'' then last ts else hd ts)"

definition advanced :: "string \<Rightarrow> utc \<Rightarrow> utc \<Rightarrow> bool" where
  "advanced mode cursor nxt = (if mode = ''From'' then cursor < nxt else nxt < cursor)"

text \<open>\<open>for number in range(1, max_pages + 1)\<close>, by the number of pages left.\<close>

fun fetch_loop ::
  "network \<Rightarrow> 's observer \<Rightarrow> CanonicalInstrument \<Rightarrow> string \<Rightarrow> int \<Rightarrow> nat \<Rightarrow> nat \<Rightarrow> utc \<Rightarrow>
   client \<Rightarrow> 's \<Rightarrow> (exn + ChartPage list) \<times> client \<times> 's" where
  "fetch_loop net on_page i mode n 0 number cursor c s =
     (Inl (BarQualityError ''CHART_PAGE_LIMIT_EXCEEDED''), c, s)"
| "fetch_loop net on_page i mode n (Suc left) number cursor c s =
     (case chart net (i_uic i) (i_asset_type i) n (Some mode) (Some (iso_utc cursor)) c of
        (Inl e, c1) \<Rightarrow> (Inl e, c1, s)
      | (Inr payload, c1) \<Rightarrow>
          let page = \<lparr> page_number = number, request_mode = mode,
                       request_time_utc = iso_utc cursor, page_payload = payload \<rparr>
          in case on_page page s of
               (Inl e, s1) \<Rightarrow> (Inl e, c1, s1)
             | (Inr _, s1) \<Rightarrow>
                 (case page_times payload of
                    Inl e \<Rightarrow> (Inl e, c1, s1)
                  | Inr ts \<Rightarrow>
                      if ts = [] \<or> int (length ts) < n then (Inr [page], c1, s1)
                      else if \<not> advanced mode cursor (next_cursor mode ts)
                      then (Inl (BarQualityError ''CHART_CURSOR_DID_NOT_ADVANCE''), c1, s1)
                      else (case fetch_loop net on_page i mode n left (number + 1)
                                   (next_cursor mode ts) c1 s1 of
                              (Inl e, cs) \<Rightarrow> (Inl e, cs)
                            | (Inr pages, cs) \<Rightarrow> (Inr (page # pages), cs))))"

definition fetch_chart_pages ::
  "network \<Rightarrow> 's observer \<Rightarrow> CanonicalInstrument \<Rightarrow> string \<Rightarrow> utc \<Rightarrow> int \<Rightarrow> int \<Rightarrow>
   client \<Rightarrow> 's \<Rightarrow> (exn + ChartPage list) \<times> client \<times> 's" where
  "fetch_chart_pages net on_page i mode start n max_pages c s =
     (if mode \<notin> {''From'', ''UpTo''}
      then (Inl (ValueError ''paging mode must be From or UpTo''), c, s)
      else if \<not> (1 \<le> max_pages \<and> max_pages \<le> int max_pages_limit)
      then (Inl (ValueError ''max_pages is outside the safe range''), c, s)
      else fetch_loop net on_page i mode n (nat max_pages) 1 start c s)"

section \<open>What a finished run looks like\<close>

text \<open>
  The chain of pages: each page but the last is full and its boundary time, strictly beyond the
  page's own cursor, is the next page's cursor; the last page is short.
\<close>

fun page_chain :: "string \<Rightarrow> int \<Rightarrow> nat \<Rightarrow> utc \<Rightarrow> ChartPage list \<Rightarrow> bool" where
  "page_chain mode n number cursor [] = False"
| "page_chain mode n number cursor (p # ps) =
     (page_number p = number \<and> request_mode p = mode \<and> request_time_utc p = iso_utc cursor
      \<and> (case page_times (page_payload p) of
           Inl _ \<Rightarrow> False
         | Inr ts \<Rightarrow>
             if ps = [] then ts = [] \<or> int (length ts) < n
             else n \<le> int (length ts) \<and> ts \<noteq> []
               \<and> advanced mode cursor (next_cursor mode ts)
               \<and> page_chain mode n (number + 1) (next_cursor mode ts) ps))"

lemma fetch_loop_chain:
  "fetch_loop net on_page i mode n left number cursor c s = (Inr pages, c', s') \<Longrightarrow>
   page_chain mode n number cursor pages \<and> length pages \<le> left"
proof (induction left arbitrary: number cursor c s pages c' s')
  case (Suc left)
  show ?case
    using Suc.prems
    by (auto simp: Let_def split: sum.splits prod.splits if_splits dest!: Suc.IH)
qed simp

text \<open>Requests: at most \<open>max_pages\<close> chart calls, so at most four times as many sends.\<close>

lemma chart_call_ok: "call_ok c (snd (chart net uic asset n mode t c))"
  by (rule client_step_call_ok [OF client_step.Chart])

lemma call_ok_sent: "call_ok c c' \<Longrightarrow> length (sent c') \<le> length (sent c) + 4"
  by (auto simp: call_ok_def)

text \<open>One turn of the loop, seen from the client: one chart call, then it stops or goes on.\<close>

lemma fetch_loop_turn:
  fixes net on_page i mode n left number cursor c s
  defines "r \<equiv> chart net (i_uic i) (i_asset_type i) n (Some mode) (Some (iso_utc cursor)) c"
  shows "fst (snd (fetch_loop net on_page i mode n (Suc left) number cursor c s)) = snd r
    \<or> (\<exists>nxt s1. fst (snd (fetch_loop net on_page i mode n (Suc left) number cursor c s))
                = fst (snd (fetch_loop net on_page i mode n left (number + 1) nxt (snd r) s1)))"
proof (cases "fst r")
  case (Inl e)
  then show ?thesis unfolding r_def by (auto split: prod.splits)
next
  case (Inr payload)
  define page where "page = \<lparr> page_number = number, request_mode = mode,
    request_time_utc = iso_utc cursor, page_payload = payload \<rparr>"
  have r: "chart net (i_uic i) (i_asset_type i) n (Some mode) (Some (iso_utc cursor)) c
           = (Inr payload, snd r)"
    using Inr by (simp add: r_def prod_eq_iff)
  show ?thesis
  proof (cases "page_times payload")
    case (Inl e)
    then show ?thesis by (cases "on_page page s"; cases "fst (on_page page s)") (auto simp: r page_def)
  next
    case (Inr ts)
    define rest where
      "rest = fetch_loop net on_page i mode n left (number + 1) (next_cursor mode ts) (snd r) (snd (on_page page s))"
    have "fst (snd (case rest of (Inl e, cs) \<Rightarrow> (Inl e, cs) | (Inr pages, cs) \<Rightarrow> (Inr (page # pages), cs)))
        = fst (snd rest)"
      by (simp split: sum.splits prod.splits)
    then show ?thesis
      using Inr by (cases "on_page page s"; cases "fst (on_page page s)")
                   (auto simp: r page_def [symmetric] rest_def)
  qed
qed

lemma fetch_loop_requests:
  "length (sent (fst (snd (fetch_loop net on_page i mode n left number cursor c s))))
     \<le> length (sent c) + 4 * left"
proof (induction left arbitrary: number cursor c s)
  case (Suc left)
  let ?c1 = "snd (chart net (i_uic i) (i_asset_type i) n (Some mode) (Some (iso_utc cursor)) c)"
  have c1: "length (sent ?c1) \<le> length (sent c) + 4" by (rule call_ok_sent [OF chart_call_ok])
  have ih: "length (sent (fst (snd (fetch_loop net on_page i mode n left (number + 1) nxt ?c1 s1))))
      \<le> length (sent c) + 4 * Suc left" for nxt s1
  proof -
    have "length (sent (fst (snd (fetch_loop net on_page i mode n left (number + 1) nxt ?c1 s1))))
        \<le> length (sent ?c1) + 4 * left" by (rule Suc.IH)
    also have "\<dots> \<le> length (sent c) + 4 + 4 * left" using c1 by (rule add_right_mono)
    also have "\<dots> = length (sent c) + 4 * Suc left" by simp
    finally show ?thesis .
  qed
  from fetch_loop_turn [of net on_page i mode n left number cursor c s] show ?case
  proof (elim disjE exE)
    assume "fst (snd (fetch_loop net on_page i mode n (Suc left) number cursor c s)) = ?c1"
    moreover have "length (sent c) + 4 \<le> length (sent c) + 4 * Suc left" by simp
    ultimately show ?thesis using order_trans [OF c1] by (simp only:)
  next
    fix nxt s1
    assume "fst (snd (fetch_loop net on_page i mode n (Suc left) number cursor c s))
        = fst (snd (fetch_loop net on_page i mode n left (number + 1) nxt ?c1 s1))"
    then show ?thesis using ih by (simp only:)
  qed
qed simp

text \<open>The boundary cursors of a chain, and what they bound.\<close>

lemma page_chain_numbers:
  "page_chain mode n number cursor ps \<Longrightarrow>
   map page_number ps = [number..<number + length ps] \<and> list_all (\<lambda>p. request_mode p = mode) ps"
proof (induction ps arbitrary: number cursor)
  case (Cons p ps)
  show ?case
  proof (cases "ps = []")
    case True
    then show ?thesis using Cons.prems by (auto split: sum.splits)
  next
    case False
    then obtain cur where "page_number p = number" "request_mode p = mode"
      "page_chain mode n (number + 1) cur ps"
      using Cons.prems by (auto split: sum.splits)
    moreover have "[number..<number + length (p # ps)] = number # [number + 1..<number + 1 + length ps]"
      by (subst upt_conv_Cons) simp_all
    ultimately show ?thesis using Cons.IH [of "number + 1" cur] by (simp del: upt_Suc)
  qed
qed simp

text \<open>A finished fetch returns at most \<open>max_pages\<close> pages numbered from 1 in request order:
  the first is requested at the start time, each later one at the boundary time of the page
  before it, which lies strictly beyond that page's own cursor; every page but the last is full
  and the last is short. On every outcome, errors included, it costs at most four transport
  calls per allowed page.\<close>

theorem fetch_chart_pages_chain:
  "length (sent (fst (snd (fetch_chart_pages net on_page i mode start n max_pages c s))))
     \<le> length (sent c) + 4 * nat max_pages
   \<and> (fetch_chart_pages net on_page i mode start n max_pages c s = (Inr pages, c', s') \<longrightarrow>
        page_chain mode n 1 start pages \<and> length pages \<le> nat max_pages
        \<and> map page_number pages = [1..<1 + length pages])"
proof (intro conjI impI)
  show "length (sent (fst (snd (fetch_chart_pages net on_page i mode start n max_pages c s))))
     \<le> length (sent c) + 4 * nat max_pages"
    using fetch_loop_requests [of net on_page i mode n "nat max_pages" 1 start c s]
    by (simp only: fetch_chart_pages_def split: if_split) auto
next
  assume "fetch_chart_pages net on_page i mode start n max_pages c s = (Inr pages, c', s')"
  then have "fetch_loop net on_page i mode n (nat max_pages) 1 start c s = (Inr pages, c', s')"
    by (auto simp: fetch_chart_pages_def split: if_splits)
  then have chain: "page_chain mode n 1 start pages \<and> length pages \<le> nat max_pages"
    by (rule fetch_loop_chain)
  then show "page_chain mode n 1 start pages" "length pages \<le> nat max_pages"
    and "map page_number pages = [1..<1 + length pages]"
    using page_chain_numbers [of mode n 1 start pages] by auto
qed

section \<open>Completeness against the documented endpoint\<close>

text \<open>
  What the repository's documents say of a forward chart request (\<open>docs/db3_implementation_plan.md\<close> section 2,
  \<open>docs/saxo_api_data_acquisition_handoff.md\<close> section 9, \<open>docs/database_operations_runbook.md\<close>): \<open>Mode\<close> and
  \<open>Time\<close> are given together and include the sample at the boundary, a page has at most \<open>Count\<close> samples, 1200 at
  most, and a page with fewer has reached the newest sample. Here \<open>H uic asset k\<close> is the history of one instrument
  when the request number \<open>k\<close> is answered: it only grows at its end, as new bars begin. Nothing is said of requests
  that are not answered with 200: they may fail as often as they like. The code relies on this; a correction of old
  bars comes with a new \<open>DataVersion\<close> and is refused later.
\<close>

type_synonym histories = "int \<Rightarrow> string \<Rightarrow> nat \<Rightarrow> utc list"

definition growing :: "histories \<Rightarrow> bool" where
  "growing H \<longleftrightarrow> (\<forall>uic asset k. sorted_wrt (<) (H uic asset k) \<and> prefix (H uic asset k) (H uic asset (Suc k))
     \<and> (\<forall>t \<in> set (H uic asset k). year_ok (date_of_utc t)))"

definition forward_request :: "request \<Rightarrow> int \<Rightarrow> string \<Rightarrow> int \<Rightarrow> utc \<Rightarrow> bool" where
  "forward_request rq uic asset n t \<longleftrightarrow> rq_path rq = chart_path
     \<and> map_of (rq_params rq) ''Uic'' = Some (JInt uic) \<and> map_of (rq_params rq) ''AssetType'' = Some (JStr asset)
     \<and> map_of (rq_params rq) ''Horizon'' = Some (JInt 60)
     \<and> map_of (rq_params rq) ''Count'' = Some (JInt n) \<and> 1 \<le> n \<and> n \<le> 1200
     \<and> map_of (rq_params rq) ''Mode'' = Some (JStr ''From'')
     \<and> map_of (rq_params rq) ''Time'' = Some (JStr (iso_utc t)) \<and> year_ok (date_of_utc t)"

definition serves_history :: "network \<Rightarrow> histories \<Rightarrow> bool" where
  "serves_history net H \<longleftrightarrow> growing H \<and>
     (\<forall>rq k hs body uic asset n t. forward_request rq uic asset n t \<and> net rq k = Response 200 hs (Some (JObj body)) \<longrightarrow>
        page_times body = Inr (map Aware (take (nat n) (filter (\<lambda>x. t \<le> x) (H uic asset k)))))"

definition answers_charts :: "network \<Rightarrow> bool" where
  "answers_charts net \<longleftrightarrow> (\<forall>rq k. rq_path rq = chart_path \<longrightarrow> (\<exists>hs body. net rq k = Response 200 hs (Some (JObj body))))"

definition times_of :: "ChartPage \<Rightarrow> datetime set" where
  "times_of p = (case page_times (page_payload p) of Inl _ \<Rightarrow> {} | Inr ts \<Rightarrow> set ts)"

text \<open>The observer that lets every page pass.\<close>

definition silent :: "unit observer" where "silent p s = (Inr (), s)"

lemma history_grows:
  assumes "growing H" and "k \<le> k'"
  shows "prefix (H uic asset k) (H uic asset k')"
  using assms(2)
proof (induction rule: dec_induct)
  case (step m)
  have "prefix (H uic asset m) (H uic asset (Suc m))" using assms(1) by (simp add: growing_def)
  with step.IH show ?case by (rule prefix_order.trans)
qed simp

text \<open>The times at or after a cursor, in a strictly increasing list.\<close>

lemma sorted_filter_tail:
  assumes "sorted_wrt (<) (ts::int list)" and "filter (\<lambda>x. t \<le> x) ts = us @ v # vs"
  shows "filter (\<lambda>x. v \<le> x) ts = v # vs" and "t \<le> v" and "us \<noteq> [] \<Longrightarrow> t < v"
proof -
  have s: "sorted_wrt (<) (us @ v # vs)" using sorted_wrt_filter [OF assms(1)] assms(2) by metis
  have ge: "t \<le> x" if "x \<in> set (us @ v # vs)" for x
    using that unfolding assms(2) [symmetric] by simp
  show "t \<le> v" using ge by simp
  show "t < v" if "us \<noteq> []"
    using that ge [of "hd us"] s by (cases us) (auto simp: sorted_wrt_append)
  have "filter (\<lambda>x. v \<le> x) ts = filter (\<lambda>x. v \<le> x) (filter (\<lambda>x. t \<le> x) ts)"
    using \<open>t \<le> v\<close> by (auto simp: filter_filter intro!: filter_cong)
  also have "\<dots> = v # vs"
  proof -
    have "filter ((\<le>) v) us = []" and "filter ((\<le>) v) vs = vs"
      using s by (force simp: sorted_wrt_append filter_empty_conv intro!: filter_True)+
    then show ?thesis unfolding assms(2) by simp
  qed
  finally show "filter (\<lambda>x. v \<le> x) ts = v # vs" .
qed

text \<open>One forward request: the answer read off it is that of the endpoint to the last attempt.\<close>

definition chart_request :: "CanonicalInstrument \<Rightarrow> int \<Rightarrow> utc \<Rightarrow> request" where
  "chart_request i n t = \<lparr> rq_method = ''GET'', rq_path = chart_path,
    rq_params = [(''Uic'', JInt (i_uic i)), (''AssetType'', JStr (i_asset_type i)), (''Horizon'', JInt 60),
              (''Count'', JInt n), (''FieldGroups'', JStr ''Data,DisplayAndFormat,ChartInfo''),
              (''Mode'', JStr ''From''), (''Time'', JStr (iso_utc t))] \<rparr>"

lemma forward_chart_request:
  "1 \<le> n \<Longrightarrow> n \<le> 1200 \<Longrightarrow> year_ok (date_of_utc t) \<Longrightarrow>
     forward_request (chart_request i n t) (i_uic i) (i_asset_type i) n t"
  by (simp add: forward_request_def chart_request_def)

lemma chart_attempts:
  assumes "validate_instrument (i_uic i) (i_asset_type i) = Inr u" and "1 \<le> n" and "n \<le> 1200"
  shows "chart net (i_uic i) (i_asset_type i) n (Some ''From'') (Some (iso_utc t)) c
      = get_attempts net (chart_request i n t) (Suc 3) c"
proof -
  have "profile_allows p chart_path" for p
    by (simp add: profile_allows_def market_data_path_def allowed_path_def)
  then show ?thesis using assms
    by (simp add: chart_def max_chart_count_def get_json_def chart_request_def eval_nat_numeral del: get_attempts.simps)
qed

lemma chart_answered:
  assumes "chart net (i_uic i) (i_asset_type i) n (Some ''From'') (Some (iso_utc t)) c = (Inr body, c1)"
  shows "1 \<le> n \<and> n \<le> 1200 \<and> (\<exists>hs k. net (chart_request i n t) k = Response 200 hs (Some (JObj body))
    \<and> length (sent c) \<le> k \<and> length (sent c1) = Suc k)"
proof -
  have ok: "\<exists>u. validate_instrument (i_uic i) (i_asset_type i) = Inr u" "1 \<le> n" "n \<le> 1200"
    using assms by (auto simp: chart_def max_chart_count_def split: sum.splits if_splits)
  then have c: "get_attempts net (chart_request i n t) (Suc 3) c = (Inr body, c1)"
    using assms chart_attempts by metis
  obtain k where k: "loop_spec net (chart_request i n t) 3 c k" using get_attempts_spec [of 3 net "chart_request i n t" c] by auto
  then have "verdict (net (chart_request i n t) (length (sent c) + k)) = Inr body"
    "length (sent c1) = Suc (length (sent c) + k)"
    using c by (simp_all add: loop_spec_def del: get_attempts.simps)
  then show ?thesis using ok(2,3)
    by (auto simp: verdict_def finish_response_def split: outcome.splits if_splits option.splits json.splits intro!: exI [of _ "length (sent c) + k"])
qed

lemma page_answered:
  fixes i :: CanonicalInstrument
  assumes "serves_history net H" and "year_ok (date_of_utc t)"
    and "chart net (i_uic i) (i_asset_type i) n (Some ''From'') (Some (iso_utc t)) c = (Inr body, c1)"
  shows "\<exists>k. length (sent c) \<le> k \<and> length (sent c1) = Suc k \<and> 1 \<le> n
    \<and> page_times body = Inr (map Aware (take (nat n) (filter (\<lambda>x. t \<le> x) (H (i_uic i) (i_asset_type i) k))))"
proof -
  obtain hs k where a: "1 \<le> n" "n \<le> 1200" "net (chart_request i n t) k = Response 200 hs (Some (JObj body))"
      "length (sent c) \<le> k" "length (sent c1) = Suc k"
    using chart_answered [OF assms(3)] by blast
  have "page_times body = Inr (map Aware (take (nat n) (filter (\<lambda>x. t \<le> x) (H (i_uic i) (i_asset_type i) k))))"
    using assms(1) forward_chart_request [OF a(1,2) assms(2), of i] a(3) unfolding serves_history_def by blast
  with a show ?thesis by blast
qed

text \<open>A full page: its last time is the next cursor, and the page and what lies behind it make up the history.\<close>

lemma full_page:
  assumes "sorted_wrt (<) ts" and "1 \<le> n" and "\<not> int (length (take (nat n) (filter (\<lambda>x. t \<le> x) ts))) < n"
  obtains us v where "take (nat n) (filter (\<lambda>x. t \<le> x) ts) = us @ [v]" "length us = nat n - 1" "v \<in> set ts" "t \<le> v"
    "2 \<le> n \<longrightarrow> t < v" "next_cursor ''From'' (map Aware (us @ [v])) = v"
    "\<forall>ts'. prefix ts ts' \<longrightarrow> sorted_wrt (<) ts' \<longrightarrow> {x \<in> set ts'. t \<le> x} = insert v (set us) \<union> {x \<in> set ts'. v \<le> x}"
    "length (filter (\<lambda>x. x < t) ts) + length us \<le> length (filter (\<lambda>x. x < v) ts)"
proof -
  let ?L = "filter (\<lambda>x. t \<le> x) ts"
  define us where "us = take (nat n - 1) ?L"
  define v where "v = ?L ! (nat n - 1)"
  define vs where "vs = drop (nat n) ?L"
  have len: "nat n \<le> length ?L" "Suc (nat n - 1) = nat n" using assms(2,3) by auto
  have tk: "take (nat n) ?L = us @ [v]"
    using len take_Suc_conv_app_nth [of "nat n - 1" ?L] by (simp add: us_def v_def)
  have L: "?L = us @ v # vs" using append_take_drop_id [of "nat n" ?L] unfolding tk vs_def by simp
  have lu: "length us = nat n - 1" using len by (simp add: us_def)
  have "v \<in> set ?L" unfolding L by simp
  then have v: "v \<in> set ts" "t \<le> v" by auto
  have strict: "t < v" if "2 \<le> n"
    using sorted_filter_tail(3) [OF assms(1) L] lu that by force
  have cut: "{x \<in> set ts'. t \<le> x} = insert v (set us) \<union> {x \<in> set ts'. v \<le> x}"
    if p: "prefix ts ts'" and sorted': "sorted_wrt (<) ts'" for ts'
  proof -
    obtain zs where zs: "ts' = ts @ zs" using p by (auto simp: prefix_def)
    have L': "filter (\<lambda>x. t \<le> x) ts' = us @ v # (vs @ filter (\<lambda>x. t \<le> x) zs)" by (simp add: zs L)
    have "{x \<in> set ts'. t \<le> x} = set (filter (\<lambda>x. t \<le> x) ts')" "{x \<in> set ts'. v \<le> x} = set (filter (\<lambda>x. v \<le> x) ts')"
      by auto
    then show ?thesis unfolding sorted_filter_tail(1) [OF sorted' L'] L' by auto
  qed
  have "length (filter (\<lambda>x. x < y) ts) + length (filter (\<lambda>x. y \<le> x) ts) = length ts" for y
    using sum_length_filter_compl [of "\<lambda>x. x < y" ts] by (simp add: not_less)
  from this [of t] this [of v] have "length (filter (\<lambda>x. x < t) ts) + length us \<le> length (filter (\<lambda>x. x < v) ts)"
    unfolding sorted_filter_tail(1) [OF assms(1) L] L by simp
  then have fewer: "length (filter (\<lambda>x. x < t) ts) + length us \<le> length (filter (\<lambda>x. x < v) ts)" by simp
  have "next_cursor ''From'' (map Aware (us @ [v])) = v" by (simp add: next_cursor_def)
  moreover have "2 \<le> n \<longrightarrow> t < v" using strict by blast
  moreover have "\<forall>ts'. prefix ts ts' \<longrightarrow> sorted_wrt (<) ts' \<longrightarrow> {x \<in> set ts'. t \<le> x} = insert v (set us) \<union> {x \<in> set ts'. v \<le> x}"
    using cut by blast
  ultimately show thesis using tk lu v fewer that by blast
qed

lemma silent_step: "silent p s = (Inr (), s)"
  by (simp add: silent_def)

text \<open>One turn of the loop on a short page and on a full one.\<close>

lemma loop_short:
  assumes "chart net (i_uic i) (i_asset_type i) n (Some mode) (Some (iso_utc t)) c = (Inr body, c1)"
    and "on_page \<lparr> page_number = number, request_mode = mode, request_time_utc = iso_utc t, page_payload = body \<rparr> s = (Inr (), s1)"
    and "page_times body = Inr ts" and "int (length ts) < n"
  shows "fetch_loop net on_page i mode n (Suc left) number t c s =
    (Inr [\<lparr> page_number = number, request_mode = mode, request_time_utc = iso_utc t, page_payload = body \<rparr>], c1, s1)"
  using assms by (simp add: Let_def)

lemma loop_full:
  assumes "chart net (i_uic i) (i_asset_type i) n (Some mode) (Some (iso_utc t)) c = (Inr body, c1)"
    and "on_page \<lparr> page_number = number, request_mode = mode, request_time_utc = iso_utc t, page_payload = body \<rparr> s = (Inr (), s1)"
    and "page_times body = Inr ts" and "\<not> int (length ts) < n" and "ts \<noteq> []"
  shows "fetch_loop net on_page i mode n (Suc left) number t c s =
    (if \<not> advanced mode t (next_cursor mode ts) then (Inl (BarQualityError ''CHART_CURSOR_DID_NOT_ADVANCE''), c1, s1)
     else case fetch_loop net on_page i mode n left (number + 1) (next_cursor mode ts) c1 s1 of
       (Inl e, cs) \<Rightarrow> (Inl e, cs)
     | (Inr pages, cs) \<Rightarrow>
         (Inr (\<lparr> page_number = number, request_mode = mode, request_time_utc = iso_utc t, page_payload = body \<rparr> # pages), cs))"
  using assms by (simp add: Let_def)

text \<open>A fetch that returns has missed nothing.\<close>

lemma fetch_loop_complete:
  assumes "serves_history net H"
  shows "fetch_loop net on_page i ''From'' n left number t c s = (Inr pages, c', s') \<Longrightarrow> year_ok (date_of_utc t) \<Longrightarrow>
    \<exists>k. length (sent c) \<le> k \<and> Suc k = length (sent c')
      \<and> \<Union> (times_of ` set pages) = Aware ` {x \<in> set (H (i_uic i) (i_asset_type i) k). t \<le> x}"
proof (induction left arbitrary: number t c s pages c' s')
  case (Suc left)
  let ?H = "H (i_uic i) (i_asset_type i)"
  let ?p = "\<lambda>body. \<lparr> page_number = number, request_mode = ''From'', request_time_utc = iso_utc t, page_payload = body \<rparr>"
  from Suc.prems(1) obtain body c1 where page: "chart net (i_uic i) (i_asset_type i) n (Some ''From'') (Some (iso_utc t)) c = (Inr body, c1)"
    by (cases "chart net (i_uic i) (i_asset_type i) n (Some ''From'') (Some (iso_utc t)) c" rule: prod.exhaust)
      (auto split: sum.splits)
  obtain k where k: "length (sent c) \<le> k" "length (sent c1) = Suc k" "1 \<le> n"
      "page_times body = Inr (map Aware (take (nat n) (filter (\<lambda>x. t \<le> x) (?H k))))"
    using page_answered [OF assms Suc.prems(2) page] by blast
  let ?ts = "take (nat n) (filter (\<lambda>x. t \<le> x) (?H k))"
  have tp: "times_of (?p body) = Aware ` set ?ts" by (simp add: times_of_def k(4))
  have g: "growing H" "sorted_wrt (<) (?H m)" "x \<in> set (?H m) \<Longrightarrow> year_ok (date_of_utc x)" for m x
    using assms by (auto simp: serves_history_def growing_def)
  obtain s1 where s1: "on_page (?p body) s = (Inr (), s1)"
    using Suc.prems(1) page by (cases "on_page (?p body) s") (auto simp: Let_def split: sum.splits)
  show ?case
  proof (cases "int (length ?ts) < n")
    case True
    then have "?ts = filter (\<lambda>x. t \<le> x) (?H k)" by simp
    then have "times_of (?p body) = Aware ` {x \<in> set (?H k). t \<le> x}" using tp by (simp only: set_filter)
    moreover have "int (length (map Aware ?ts)) < n" using True by simp
    from loop_short [where net = net and on_page = on_page and i = i and n = n and mode = "''From''" and t = t and c = c and body = body and s = s, OF page s1 k(4) this] Suc.prems(1) have "pages = [?p body]" "c' = c1" by simp_all
    ultimately show ?thesis using k(1,2) by (intro exI [of _ k]) simp
  next
    case False
    obtain us v where w: "?ts = us @ [v]" "length us = nat n - 1" "v \<in> set (?H k)" "t \<le> v"
        "2 \<le> n \<longrightarrow> t < v" "next_cursor ''From'' (map Aware (us @ [v])) = v"
        "\<forall>ts'. prefix (?H k) ts' \<longrightarrow> sorted_wrt (<) ts' \<longrightarrow> {x \<in> set ts'. t \<le> x} = insert v (set us) \<union> {x \<in> set ts'. v \<le> x}"
        "length (filter (\<lambda>x. x < t) (?H k)) + length us \<le> length (filter (\<lambda>x. x < v) (?H k))"
      by (rule full_page [OF g(2) k(3) False])
    note v = w(1,3,6) w(7) [rule_format]
    have long: "\<not> int (length (map Aware ?ts)) < n" "map Aware ?ts \<noteq> []" "next_cursor ''From'' (map Aware ?ts) = v"
      using False v(1,3) by auto
    obtain rest where rest: "fetch_loop net on_page i ''From'' n left (number + 1) v c1 s1 = (Inr rest, c', s')" "pages = ?p body # rest"
      using Suc.prems(1) unfolding loop_full [where net = net and on_page = on_page and i = i and n = n and mode = "''From''" and t = t and c = c and body = body and s = s, OF page s1 k(4) long(1,2)] long(3)
      by (auto split: if_splits prod.splits sum.splits)
    obtain k' where k': "length (sent c1) \<le> k'" "Suc k' = length (sent c')"
        "\<Union> (times_of ` set rest) = Aware ` {x \<in> set (?H k'). v \<le> x}"
      using Suc.IH [OF rest(1) g(3) [OF v(2)]] by blast
    have "prefix (?H k) (?H k')" by (rule history_grows [OF g(1)]) (use k(2) k'(1) in simp)
    then have "{x \<in> set (?H k'). t \<le> x} = insert v (set us) \<union> {x \<in> set (?H k'). v \<le> x}" by (rule v(4)) (rule g(2))
    moreover have "times_of (?p body) = Aware ` insert v (set us)" unfolding tp v(1) by (simp only: set_append list.set Un_insert_right Un_empty_right)
    ultimately have "\<Union> (times_of ` set pages) = Aware ` {x \<in> set (?H k'). t \<le> x}"
      unfolding rest(2) by (simp only: list.set(2) image_insert [of times_of] Union_insert k'(3) image_Un)
    then show ?thesis using k(1,2) k'(1,2) by (intro exI [of _ k']) simp
  qed
qed simp

text \<open>A gateway that answers every request lets the fetch return.\<close>

lemma fetch_loop_returns:
  assumes "serves_history net H" and "answers_charts net"
    and "validate_instrument (i_uic i) (i_asset_type i) = Inr u" and "2 \<le> n" and "n \<le> 1200"
    and "\<And>k. length (H (i_uic i) (i_asset_type i) k) \<le> B"
  shows "year_ok (date_of_utc t) \<Longrightarrow> B < left + length (filter (\<lambda>x. x < t) (H (i_uic i) (i_asset_type i) (length (sent c)))) \<Longrightarrow>
    \<exists>pages c'. fetch_loop net silent i ''From'' n left number t c () = (Inr pages, c', ())"
proof (induction left arbitrary: number t c)
  case 0
  have "length (filter (\<lambda>x. x < t) (H (i_uic i) (i_asset_type i) (length (sent c)))) \<le> B"
    using assms(6) length_filter_le by (rule order_trans [rotated])
  then show ?case using 0 by simp
next
  case (Suc left)
  let ?H = "H (i_uic i) (i_asset_type i)" and ?k = "length (sent c)"
  have n1: "1 \<le> n" using assms(4) by simp
  have g: "growing H" "sorted_wrt (<) (?H m)" "x \<in> set (?H m) \<Longrightarrow> year_ok (date_of_utc x)" for m x
    using assms(1) by (auto simp: serves_history_def growing_def)
  obtain hs body where a: "net (chart_request i n t) ?k = Response 200 hs (Some (JObj body))"
    using assms(2) unfolding answers_charts_def by (metis chart_request_def request.select_convs(2))
  have stop: "\<not> retryable (net (chart_request i n t) ?k) \<or> (3::nat) = 0" using a by (simp add: retryable_def)
  define c1 where "c1 = snd (get_attempts net (chart_request i n t) (Suc 3) c)"
  have page: "chart net (i_uic i) (i_asset_type i) n (Some ''From'') (Some (iso_utc t)) c = (Inr body, c1)"
    using get_attempts_stop(1) [where net = net and rq = "chart_request i n t" and c = c and left = 3, OF stop] chart_attempts [OF assms(3) n1 assms(5)]
    by (simp add: c1_def a verdict_def finish_response_def prod_eq_iff del: get_attempts.simps)
  have sent1: "length (sent c1) = Suc ?k" using get_attempts_stop(2) [where net = net and rq = "chart_request i n t" and c = c and left = 3, OF stop] by (simp add: c1_def del: get_attempts.simps)
  have ts: "page_times body = Inr (map Aware (take (nat n) (filter (\<lambda>x. t \<le> x) (?H ?k))))"
    using assms(1) a forward_chart_request [OF n1 assms(5) Suc.prems(1), of i] unfolding serves_history_def by blast
  let ?ts = "take (nat n) (filter (\<lambda>x. t \<le> x) (?H ?k))"
  show ?case
  proof (cases "int (length ?ts) < n")
    case True
    then have "int (length (map Aware ?ts)) < n" by simp
    from loop_short [where net = net and on_page = silent and i = i and n = n and mode = "''From''" and t = t and c = c and body = body and s = "()", OF page silent_step ts this] show ?thesis by blast
  next
    case False
    obtain us v where w: "?ts = us @ [v]" "length us = nat n - 1" "v \<in> set (?H ?k)" "t \<le> v"
        "2 \<le> n \<longrightarrow> t < v" "next_cursor ''From'' (map Aware (us @ [v])) = v"
        "\<forall>ts'. prefix (?H ?k) ts' \<longrightarrow> sorted_wrt (<) ts' \<longrightarrow> {x \<in> set ts'. t \<le> x} = insert v (set us) \<union> {x \<in> set ts'. v \<le> x}"
        "length (filter (\<lambda>x. x < t) (?H ?k)) + length us \<le> length (filter (\<lambda>x. x < v) (?H ?k))"
      by (rule full_page [OF g(2) n1 False])
    note v = w(1,3,6) w(5) [rule_format, OF assms(4)] w(2,8)
    have "prefix (?H ?k) (?H (Suc ?k))" using g(1) by (simp add: growing_def)
    then have "length (filter (\<lambda>x. x < v) (?H ?k)) \<le> length (filter (\<lambda>x. x < v) (?H (Suc ?k)))"
      by (auto simp: prefix_def)
    moreover have "1 \<le> length us" using v(5) assms(4) by linarith
    ultimately have "B < left + length (filter (\<lambda>x. x < v) (?H (length (sent c1))))"
      using Suc.prems(2) v(6) unfolding sent1 by linarith
    from Suc.IH [OF g(3) [OF v(2)] this] obtain pages c' where
      rest: "fetch_loop net silent i ''From'' n left (number + 1) v c1 () = (Inr pages, c', ())" by blast
    have long: "\<not> int (length (map Aware ?ts)) < n" "map Aware ?ts \<noteq> []" "next_cursor ''From'' (map Aware ?ts) = v"
      using False v(1,3) by auto
    from loop_full [where net = net and on_page = silent and i = i and n = n and mode = "''From''" and t = t and c = c and body = body and s = "()", OF page silent_step ts long(1,2), where left = left and number = number]
    show ?thesis unfolding long(3) using rest v(4) by (simp add: advanced_def del: fetch_loop.simps)
  qed
qed

text \<open>C18: Against a gateway that answers as the documents say, whenever it answers, a forward fetch that returns has
  missed nothing: its pages hold exactly the bars at or after the start time that the gateway had at the last answer,
  none lost at a page boundary, whatever failed and was retried in between and whatever the observer of the pages does.
  And it does return: with a page size of at least 2, when every request is answered and there are fewer bars than
  the allowed pages.\<close>

theorem forward_fetch_complete:
  assumes "serves_history net H" and "year_ok (date_of_utc start)"
  shows "(\<forall>pages c' s'. fetch_chart_pages net on_page i ''From'' start n max_pages c s = (Inr pages, c', s') \<longrightarrow>
      (\<exists>k. length (sent c) \<le> k \<and> Suc k = length (sent c')
         \<and> \<Union> (times_of ` set pages) = Aware ` {x \<in> set (H (i_uic i) (i_asset_type i) k). start \<le> x}))
    \<and> (validate_instrument (i_uic i) (i_asset_type i) = Inr () \<and> 2 \<le> n \<and> n \<le> 1200 \<and> max_pages \<le> 10000
         \<and> answers_charts net \<and> (\<forall>k. int (length (H (i_uic i) (i_asset_type i) k)) < max_pages) \<longrightarrow>
       (\<exists>pages c'. fetch_chart_pages net silent i ''From'' start n max_pages c () = (Inr pages, c', ())))"
proof (intro conjI allI impI)
  fix pages c' s'
  assume "fetch_chart_pages net on_page i ''From'' start n max_pages c s = (Inr pages, c', s')"
  then have "fetch_loop net on_page i ''From'' n (nat max_pages) 1 start c s = (Inr pages, c', s')"
    by (auto simp: fetch_chart_pages_def split: if_splits)
  from fetch_loop_complete [OF assms(1) this assms(2)]
  show "\<exists>k. length (sent c) \<le> k \<and> Suc k = length (sent c')
      \<and> \<Union> (times_of ` set pages) = Aware ` {x \<in> set (H (i_uic i) (i_asset_type i) k). start \<le> x}" .
next
  assume h: "validate_instrument (i_uic i) (i_asset_type i) = Inr () \<and> 2 \<le> n \<and> n \<le> 1200 \<and> max_pages \<le> 10000
    \<and> answers_charts net \<and> (\<forall>k. int (length (H (i_uic i) (i_asset_type i) k)) < max_pages)"
  then have size: "int (length (H (i_uic i) (i_asset_type i) k)) < max_pages" for k by blast
  have bound: "length (H (i_uic i) (i_asset_type i) k) \<le> nat max_pages - 1" for k using size [of k] by linarith
  have "nat max_pages - 1 < nat max_pages + length (filter (\<lambda>x. x < start) (H (i_uic i) (i_asset_type i) (length (sent c))))"
    using size [of 0] by linarith
  from fetch_loop_returns [OF assms(1) _ _ _ _ bound assms(2) this, of "()" n 1] h
  obtain pages c' where "fetch_loop net silent i ''From'' n (nat max_pages) 1 start c () = (Inr pages, c', ())" by blast
  moreover have "1 \<le> max_pages" using size [of 0] by linarith
  ultimately show "\<exists>pages c'. fetch_chart_pages net silent i ''From'' start n max_pages c () = (Inr pages, c', ())"
    using h by (simp add: fetch_chart_pages_def max_pages_limit_def)
qed

section \<open>Such a gateway exists\<close>

text \<open>
  A gateway that holds the histories \<open>H\<close> and reads the instrument, mode, count and time of a request. Each sample
  has its time alone.
\<close>

definition time_body :: "utc list \<Rightarrow> (string \<times> json) list" where
  "time_body ts = [(''Data'', JArr (map (\<lambda>t. JObj [(''Time'', JStr (iso_utc t))]) ts))]"

definition history_gateway :: "histories \<Rightarrow> network" where
  "history_gateway H rq k =
     (case (jget (rq_params rq) ''Uic'', jget (rq_params rq) ''AssetType'', jget (rq_params rq) ''Count'',
            jget (rq_params rq) ''Mode'', jget (rq_params rq) ''Time'') of
        (JInt uic, JStr asset, JInt n, JStr mode, JStr s) \<Rightarrow>
          (case parse_utc s of
             Inr (Aware t) \<Rightarrow> Response 200 [] (Some (JObj (time_body
               (if mode = ''From'' then take (nat n) (filter (\<lambda>x. t \<le> x) (H uic asset k))
                else rev (take (nat n) (rev (filter (\<lambda>x. x \<le> t) (H uic asset k))))))))
           | _ \<Rightarrow> Response 200 [] (Some (JObj [])))
      | _ \<Rightarrow> Response 200 [] (Some (JObj [])))"

lemma parse_utc_iso: "year_ok (date_of_utc t) \<Longrightarrow> parse_utc (iso_utc t) = Inr (Aware t)"
  by (simp add: parse_utc_def iso_utc_roundtrip)

lemma page_times_body:
  assumes "sorted_wrt (<) ts" and "\<forall>t\<in>set ts. year_ok (date_of_utc t)"
  shows "page_times (time_body ts) = Inr (map Aware ts)"
proof -
  have "emap sample_time (map (\<lambda>t. JObj [(''Time'', JStr (iso_utc t))]) ts) = Inr (map Aware ts)"
    using assms(2) by (induction ts) (auto simp: sample_time_def parse_utc_iso)
  moreover have "sorted_wrt (<) (map Aware ts)"
    using assms(1) by (simp add: sorted_wrt_map)
  then have "sort (map Aware ts) = map Aware ts" "distinct (map Aware ts)"
    by (auto simp: sorted_sort_id strict_sorted_iff)
  ultimately show ?thesis by (simp add: page_times_def time_body_def jget_def)
qed

lemma history_gateway_serves:
  assumes "growing H"
  shows "serves_history (history_gateway H) H"
proof -
  have "page_times (time_body (take (nat n) (filter ((\<le>) t) (H uic asset k))))
      = Inr (map Aware (take (nat n) (filter ((\<le>) t) (H uic asset k))))" for n t uic asset k
    using assms by (intro page_times_body)
      (auto simp: growing_def sorted_wrt_take sorted_wrt_filter dest!: in_set_takeD)
  then show ?thesis using assms
    by (auto simp: serves_history_def forward_request_def history_gateway_def jget_def parse_utc_iso split: if_splits)
qed

text \<open>Four bars of the one instrument; a fifth begins when the first page has been answered.\<close>

definition example_history :: histories where
  "example_history uic asset k =
     (if uic = i_uic example_etf then [0, hour, 2 * hour, 3 * hour] @ (if k = 0 then [] else [4 * hour]) else [])"

lemma example_growing: "growing example_history"
proof -
  have "\<forall>t\<in>set [0, hour, 2 * hour, 3 * hour, 4 * hour]. year_ok (date_of_utc t)"
    by (auto simp: hour_def) code_simp+
  then show ?thesis by (auto simp: growing_def example_history_def hour_def)
qed

lemma example_gateway: "serves_history (history_gateway example_history) example_history" "answers_charts (history_gateway example_history)"
  by (rule history_gateway_serves [OF example_growing])
    (auto simp: answers_charts_def history_gateway_def split: json.splits sum.splits datetime.splits)

lemma example_start: "year_ok (date_of_utc hour)"
  by (simp add: hour_def) code_simp

definition example_fetch :: "(exn + ChartPage list) \<times> client \<times> unit" where
  "example_fetch = fetch_chart_pages (history_gateway example_history) silent example_etf ''From'' hour 2 10 example_client ()"

lemma example_fetch_returns: "\<exists>pages c'. example_fetch = (Inr pages, c', ())"
proof -
  have few: "length (example_history (i_uic example_etf) (i_asset_type example_etf) k) \<le> 5" for k
    by (simp add: example_history_def)
  have one: "validate_instrument (i_uic example_etf) (i_asset_type example_etf) = Inr ()"
    by (simp add: example_etf_def validate_instrument_def)
  have "\<exists>pages c'. fetch_loop (history_gateway example_history) silent example_etf ''From'' 2 10 1 hour example_client () = (Inr pages, c', ())"
    by (rule fetch_loop_returns [OF example_gateway one _ _ few example_start]) simp_all
  then show ?thesis by (simp add: example_fetch_def fetch_chart_pages_def max_pages_limit_def del: fetch_loop.simps)
qed

theorem forward_fetch_complete_witness:
  "\<exists>pages c'. example_fetch = (Inr pages, c', ())
     \<and> {Aware hour, Aware (2 * hour), Aware (3 * hour)} \<subseteq> \<Union> (times_of ` set pages)
     \<and> \<Union> (times_of ` set pages) \<subseteq> {Aware hour, Aware (2 * hour), Aware (3 * hour), Aware (4 * hour)}"
proof -
  let ?size = "\<forall>k. int (length (example_history (i_uic example_etf) (i_asset_type example_etf) k)) < 10"
  note claim = forward_fetch_complete [OF example_gateway(1) example_start, where i = example_etf and n = 2 and max_pages = 10
      and c = example_client and s = "()" and on_page = silent]
  have "validate_instrument (i_uic example_etf) (i_asset_type example_etf) = Inr ()" ?size
    by (simp_all add: example_etf_def validate_instrument_def example_history_def)
  with claim [THEN conjunct2] example_gateway(2)
  obtain pages c' where r: "fetch_chart_pages (history_gateway example_history) silent example_etf ''From'' hour 2 10 example_client () = (Inr pages, c', ())"
    by auto
  from claim [THEN conjunct1, rule_format, OF r]
  obtain k where "\<Union> (times_of ` set pages) = Aware ` {x \<in> set (example_history (i_uic example_etf) (i_asset_type example_etf) k). hour \<le> x}"
    by blast
  moreover have "{x \<in> set (example_history (i_uic example_etf) (i_asset_type example_etf) k). hour \<le> x}
      = {hour, 2 * hour, 3 * hour} \<union> (if k = 0 then {} else {4 * hour})"
    by (auto simp: example_history_def hour_def)
  ultimately have "\<Union> (times_of ` set pages) = Aware ` ({hour, 2 * hour, 3 * hour} \<union> (if k = 0 then {} else {4 * hour}))" by simp
  then show ?thesis using r by (auto simp: example_fetch_def)
qed

theorem fetch_chart_pages_chain_witness:
  "\<exists>pages. fst example_fetch = Inr pages \<and> length pages \<le> 10 \<and> page_chain ''From'' 2 1 hour pages"
proof -
  obtain pages c' where r: "example_fetch = (Inr pages, c', ())" using example_fetch_returns by blast
  then show ?thesis
    using fetch_chart_pages_chain [of "history_gateway example_history" silent example_etf "''From''" hour 2 10 example_client "()" pages c' "()"]
    by (auto simp: example_fetch_def)
qed

end
