(* ===== verification/SessionCalendar.thy ===== *)
theory SessionCalendar
  imports PyText
begin

text \<open>
  \<open>market_db/session_calendar.py\<close>: the rule-based US equity calendar, the fixed FX calendar
  and their storage. A local wall-clock time in New York is the number of microseconds of its
  date and time read as if it were UTC; \<open>ny\<close>, the conversion of the zone database, is a
  parameter.
\<close>

section \<open>Dates\<close>

definition observed :: "date \<Rightarrow> date" where
  "observed fixed = (if weekday fixed = 5 then fixed - 1
                     else if weekday fixed = 6 then fixed + 1 else fixed)"

definition nth_weekday :: "int \<Rightarrow> int \<Rightarrow> int \<Rightarrow> int \<Rightarrow> date" where
  "nth_weekday year month wd occurrence =
     (let f = date_of year month 1 in f + (wd - weekday f) mod 7 + 7 * (occurrence - 1))"

definition last_weekday :: "int \<Rightarrow> int \<Rightarrow> int \<Rightarrow> date" where
  "last_weekday year month wd =
     (let selected = (if month = 12 then date_of (year + 1) 1 1 else date_of year (month + 1) 1) - 1
      in selected - (weekday selected - wd) mod 7)"

text \<open>The Meeus/Jones/Butcher algorithm: month and day of Gregorian Easter.\<close>

definition easter_month_day :: "int \<Rightarrow> int \<times> int" where
  "easter_month_day year =
     (let a = year mod 19;
          b = year div 100; c = year mod 100;
          d = b div 4; e = b mod 4;
          f = (b + 8) div 25;
          g = (b - f + 1) div 3;
          h = (19 * a + b - d - g + 15) mod 30;
          i = c div 4; k = c mod 4;
          l = (32 + 2 * e + 2 * i - h - k) mod 7;
          m = (a + 11 * h + 22 * l) div 451
      in ((h + l - 7 * m + 114) div 31, (h + l - 7 * m + 114) mod 31 + 1))"

definition easter_sunday :: "int \<Rightarrow> date" where
  "easter_sunday year = (case easter_month_day year of (m, d) \<Rightarrow> date_of year m d)"

section \<open>Holidays\<close>

definition exceptional_closures :: "date list" where
  "exceptional_closures =
     [date_of 2012 10 29, date_of 2012 10 30, date_of 2018 12 5, date_of 2025 1 9]"

definition equity_holidays :: "int \<Rightarrow> date list" where
  "equity_holidays year =
     [observed (date_of year 1 1),
      nth_weekday year 1 0 3,
      nth_weekday year 2 0 3,
      easter_sunday year - 2,
      last_weekday year 5 0,
      observed (date_of year 7 4),
      nth_weekday year 9 0 1,
      nth_weekday year 11 3 4,
      observed (date_of year 12 25)]
     @ (if 2022 \<le> year then [observed (date_of year 6 19)] else [])
     @ filter (\<lambda>v. year_of v = year) exceptional_closures"

definition is_equity_holiday :: "date \<Rightarrow> bool" where
  "is_equity_holiday v =
     list_ex (\<lambda>year. v \<in> set (equity_holidays year)) [year_of v - 1, year_of v, year_of v + 1]"

lemma weekday_pred: "5 \<le> weekday d \<Longrightarrow> weekday (d - 1) = weekday d - 1"
  by (simp add: weekday_def) presburger

function skip_weekend :: "date \<Rightarrow> date" where
  "skip_weekend d = (if 5 \<le> weekday d then skip_weekend (d - 1) else d)"
  by pat_completeness auto

termination
  by (relation "measure (\<lambda>d. nat (weekday d))") (auto simp: weekday_pred)

declare skip_weekend.simps [simp del]

definition previous_weekday :: "date \<Rightarrow> date" where
  "previous_weekday v = skip_weekend (v - 1)"

definition equity_short_sessions :: "int \<Rightarrow> date list" where
  "equity_short_sessions year =
     filter (\<lambda>v. weekday v < 5 \<and> \<not> is_equity_holiday v)
       [nth_weekday year 11 3 4 + 1,
        previous_weekday (observed (date_of year 12 25)),
        previous_weekday (observed (date_of year 7 4))]"

section \<open>Sessions\<close>

datatype session_status = OPEN | HOLIDAY | SHORT_SESSION

record SessionInterval =
  session_date :: date
  open_time_utc :: "utc option"
  close_time_utc :: "utc option"
  session_status :: session_status

type_synonym zone = "int \<Rightarrow> utc"

definition wall :: "date \<Rightarrow> int \<Rightarrow> int" where
  "wall d time_of_day = utc_of_date d + time_of_day"

definition equity_session :: "zone \<Rightarrow> date \<Rightarrow> SessionInterval" where
  "equity_session ny d =
     (if is_equity_holiday d
      then \<lparr> session_date = d, open_time_utc = None, close_time_utc = None, session_status = HOLIDAY \<rparr>
      else let short = d \<in> set (equity_short_sessions (year_of d))
           in \<lparr> session_date = d,
                open_time_utc = Some (ny (wall d (9 * hour + 30 * minute))),
                close_time_utc = Some (ny (wall d ((if short then 13 else 16) * hour))),
                session_status = (if short then SHORT_SESSION else OPEN) \<rparr>)"

text \<open>Both generators walk the days from \<open>start\<close> to the end and leave the weekends out.\<close>

definition generate_equity_sessions :: "zone \<Rightarrow> date \<Rightarrow> date \<Rightarrow> SessionInterval list" where
  "generate_equity_sessions ny start till =
     map (equity_session ny) (filter (\<lambda>d. \<not> 5 \<le> weekday d) [start..till])"

definition fx_boundary :: int where "fx_boundary = 17 * hour"

definition fx_session :: "zone \<Rightarrow> date \<Rightarrow> SessionInterval" where
  "fx_session ny d =
     \<lparr> session_date = d,
       open_time_utc = Some (ny (wall (d - 1) fx_boundary)),
       close_time_utc = Some (ny (wall d fx_boundary)),
       session_status = OPEN \<rparr>"

definition generate_fx_sessions :: "zone \<Rightarrow> date \<Rightarrow> date \<Rightarrow> SessionInterval list" where
  "generate_fx_sessions ny start till =
     map (fx_session ny) (filter (\<lambda>d. weekday d < 5) [start..till])"

section \<open>Storing the calendars\<close>

record CalendarRow =
  cal_id :: string
  exchange_id :: "string option"
  cal_asset_type :: string
  schedule_version :: string
  verification_status :: string
  effective_from :: date
  effective_to :: date
  source_sha256 :: string

record IntervalRow =
  iv_calendar :: string
  iv_date :: date
  iv_sequence :: int
  iv_session :: SessionInterval
  iv_sha256 :: string

record InstrumentRow =
  in_id :: int
  in_key :: string
  in_provider :: string
  in_environment :: string
  in_uic :: int
  in_asset_type :: string
  in_calendar :: "string option"
  in_active_to :: "utc option"

record calendar_db =
  calendars :: "CalendarRow list"
  intervals :: "IntervalRow list"
  instruments :: "InstrumentRow list"

definition interval_key :: "IntervalRow \<Rightarrow> string \<times> date \<times> int" where
  "interval_key r = (iv_calendar r, iv_date r, iv_sequence r)"

definition equity_calendar_id :: string where "equity_calendar_id = ''XNYS_US_EQUITY''"
definition fx_calendar_id :: string where "fx_calendar_id = ''SBFX_24X5''"

text \<open>A plain \<open>INSERT\<close>: the primary key rejects a second row.\<close>

fun insert_rows :: "('r \<Rightarrow> 'k) \<Rightarrow> 'r list \<Rightarrow> 'r list \<Rightarrow> exn + 'r list" where
  "insert_rows k [] t = Inr t"
| "insert_rows k (r # rs) t =
     (if tbl_lookup k (k r) t \<noteq> None then Inl (DatabaseError ''UNIQUE_VIOLATION'')
      else insert_rows k rs (t @ [r]))"

definition store_calendar ::
  "CalendarRow \<Rightarrow> SessionInterval list \<Rightarrow> calendar_db \<Rightarrow> exn + calendar_db" where
  "store_calendar row sessions db =
     (let kept = tbl_delete_keys interval_key (\<lambda>k. fst k = cal_id row) (intervals db);
          rows = map (\<lambda>x. \<lparr> iv_calendar = cal_id row, iv_date = session_date x, iv_sequence = 0,
                           iv_session = x, iv_sha256 = source_sha256 row \<rparr>) sessions
      in ebind (insert_rows interval_key rows kept) (\<lambda>t.
           Inr (db\<lparr> calendars := tbl_upsert cal_id row (calendars db), intervals := t \<rparr>)))"

definition calendar_for :: "string \<Rightarrow> string" where
  "calendar_for asset = (if asset = ''FxSpot'' then fx_calendar_id else equity_calendar_id)"

definition assigns :: "int \<times> string \<Rightarrow> InstrumentRow \<Rightarrow> bool" where
  "assigns ident r =
     (in_provider r = ''Saxo OpenAPI'' \<and> in_environment r = ''SIM''
      \<and> in_uic r = fst ident \<and> in_asset_type r = snd ident)"

fun assign_calendars :: "(int \<times> string) list \<Rightarrow> InstrumentRow list \<Rightarrow> nat \<times> InstrumentRow list" where
  "assign_calendars [] t = (0, t)"
| "assign_calendars (ident # rest) t =
     (let t' = map (\<lambda>r. if assigns ident r then r\<lparr>in_calendar := Some (calendar_for (snd ident))\<rparr> else r) t;
          (n, t'') = assign_calendars rest t'
      in (length (filter (assigns ident) t) + n, t''))"

record calendar_report =
  equity_intervals :: nat
  fx_intervals :: nat
  assignments :: nat
  calendar_status :: string

definition apply_calendars ::
  "zone \<Rightarrow> (string \<Rightarrow> SessionInterval list \<Rightarrow> string) \<Rightarrow> (int \<times> string) list \<Rightarrow> date \<Rightarrow> date \<Rightarrow>
   calendar_db \<Rightarrow> (exn + calendar_report) \<times> calendar_db" where
  "apply_calendars ny sha registry start selected_end db =
     (if selected_end < start then (Inl (ValueError ''calendar end must not precede start''), db)
      else
        let equity = generate_equity_sessions ny start selected_end;
            fx = generate_fx_sessions ny start selected_end;
            equity_row = \<lparr> cal_id = equity_calendar_id, exchange_id = Some ''XNYS'', cal_asset_type = ''Etf'',
              schedule_version = ''db3_nyse_rules_v1'', verification_status = ''VERIFIED'', effective_from = start,
              effective_to = selected_end, source_sha256 = sha equity_calendar_id equity \<rparr>;
            fx_row = \<lparr> cal_id = fx_calendar_id, exchange_id = None, cal_asset_type = ''FxSpot'',
              schedule_version = ''saxo_fx_spot_trading_conditions_20260725_v1'', verification_status = ''VERIFIED'', effective_from = start,
              effective_to = selected_end, source_sha256 = sha fx_calendar_id fx \<rparr>
        in transaction (\<lambda>d.
             ebind (store_calendar equity_row equity d) (\<lambda>d1.
             ebind (store_calendar fx_row fx d1) (\<lambda>d2.
               let (n, ins) = assign_calendars registry (instruments d2)
               in Inr (\<lparr> equity_intervals = length equity, fx_intervals = length fx, assignments = n,
                         calendar_status = (if n = length registry then ''PASS'' else ''FAIL'') \<rparr>,
                       d2\<lparr> instruments := ins \<rparr>)))) db)"

section \<open>The calendar rules\<close>

lemma observed_cases: "weekday (observed d) < 5 \<and> \<bar>observed d - d\<bar> \<le> 1"
proof -
  have "weekday (d - 1) = 4" if "weekday d = 5" using weekday_pred [of d] that by simp
  moreover have "weekday (d + 1) = 0" if "weekday d = 6"
    using that unfolding weekday_def by presburger
  ultimately show ?thesis
    using weekday_range [of d] by (auto simp: observed_def)
qed

lemma skip_weekend_props:
  "weekday (skip_weekend d) < 5 \<and> skip_weekend d \<le> d
   \<and> (\<forall>x. skip_weekend d < x \<and> x \<le> d \<longrightarrow> 5 \<le> weekday x)"
proof (induction d rule: skip_weekend.induct)
  case (1 d)
  show ?case
  proof (cases "5 \<le> weekday d")
    case True
    note ih = 1 [OF True]
    have "5 \<le> weekday x" if "skip_weekend d < x" "x \<le> d" for x
    proof (cases "x = d")
      case False
      then show ?thesis using ih that True skip_weekend.simps [of d] by auto
    qed (use True in simp)
    then show ?thesis using ih True by (simp add: skip_weekend.simps [of d])
  qed (simp add: skip_weekend.simps [of d])
qed

lemma weekday_shift: "weekday (x + (w - weekday x) mod 7) = w" if "0 \<le> w" "w < 7"
proof -
  have "(x + 6 + (w - (x + 6) mod 7) mod 7) mod 7 = (x + 6 + (w - (x + 6))) mod 7"
    by (metis mod_add_right_eq mod_diff_right_eq)
  then show ?thesis using that by (simp add: weekday_def algebra_simps)
qed

lemma weekday_week: "weekday (x + 7 * n) = weekday x"
  unfolding weekday_def by presburger

lemma weekday_back: "weekday (x - (weekday x - w) mod 7) = w" if "0 \<le> w" "w < 7"
proof -
  have "(x + 6 - ((x + 6) mod 7 - w) mod 7) mod 7 = (x + 6 - (x + 6 - w)) mod 7"
    by (metis mod_diff_right_eq mod_diff_left_eq)
  then show ?thesis using that by (simp add: weekday_def algebra_simps)
qed

text \<open>The rules of the calendar mean what they say: the n-th given weekday of a month has
  that weekday and is the n-th of it counted from the first; the last one lies in the month's
  final week; a moved holiday is the weekday nearest to its date; the day before a holiday is
  the last weekday before it; and no short session falls on a weekend or a holiday.\<close>

theorem calendar_rules:
  "(0 \<le> w \<and> w < 7 \<longrightarrow> weekday (nth_weekday y m w n) = w
      \<and> 7 * (n - 1) \<le> nth_weekday y m w n - date_of y m 1
      \<and> nth_weekday y m w n - date_of y m 1 < 7 * n)
   \<and> (0 \<le> w \<and> w < 7 \<longrightarrow> weekday (last_weekday y m w) = w
      \<and> (let following = (if m = 12 then date_of (y + 1) 1 1 else date_of y (m + 1) 1)
         in following - 7 \<le> last_weekday y m w \<and> last_weekday y m w < following))
   \<and> weekday (observed d) < 5 \<and> \<bar>observed d - d\<bar> \<le> 1
   \<and> weekday (previous_weekday d) < 5 \<and> previous_weekday d < d
   \<and> (\<forall>x. previous_weekday d < x \<and> x < d \<longrightarrow> 5 \<le> weekday x)
   \<and> (\<forall>x \<in> set (equity_short_sessions y). weekday x < 5 \<and> \<not> is_equity_holiday x)"
proof (intro conjI impI)
  assume w: "0 \<le> w \<and> w < 7"
  have r: "0 \<le> (w - weekday (date_of y m 1)) mod 7" "(w - weekday (date_of y m 1)) mod 7 < 7" by simp_all
  show "weekday (nth_weekday y m w n) = w"
    using w by (simp only: nth_weekday_def Let_def weekday_week weekday_shift)
  show "7 * (n - 1) \<le> nth_weekday y m w n - date_of y m 1"
    "nth_weekday y m w n - date_of y m 1 < 7 * n"
    using r by (simp_all add: nth_weekday_def Let_def)
next
  assume w: "0 \<le> w \<and> w < 7"
  show "weekday (last_weekday y m w) = w"
    using w by (simp only: last_weekday_def Let_def weekday_back)
  define following where "following = (if m = 12 then date_of (y + 1) 1 1 else date_of y (m + 1) 1)"
  have "0 \<le> (weekday (following - 1) - w) mod 7" "(weekday (following - 1) - w) mod 7 < 7" by simp_all
  then show "let following = (if m = 12 then date_of (y + 1) 1 1 else date_of y (m + 1) 1)
         in following - 7 \<le> last_weekday y m w \<and> last_weekday y m w < following"
    unfolding last_weekday_def Let_def following_def [symmetric] by linarith
next
  show "weekday (observed d) < 5" "\<bar>observed d - d\<bar> \<le> 1" using observed_cases by simp_all
  show "weekday (previous_weekday d) < 5" "previous_weekday d < d"
    using skip_weekend_props [of "d - 1"] by (simp_all add: previous_weekday_def)
  show "\<forall>x. previous_weekday d < x \<and> x < d \<longrightarrow> 5 \<le> weekday x"
    using skip_weekend_props [of "d - 1"] by (simp add: previous_weekday_def)
  show "\<forall>x \<in> set (equity_short_sessions y). weekday x < 5 \<and> \<not> is_equity_holiday x"
    by (simp add: equity_short_sessions_def)
qed

text \<open>In every year from 2002 to 2060 the computed Easter is a Sunday between 22 March and
  25 April, so Good Friday, two days before, is a Friday.\<close>

theorem easter_is_a_spring_sunday:
  "list_all (\<lambda>y. weekday (easter_sunday y) = 6 \<and> weekday (easter_sunday y - 2) = 4
       \<and> date_of y 3 22 \<le> easter_sunday y \<and> easter_sunday y \<le> date_of y 4 25) [2002..2060]"
  by code_simp

text \<open>New Year's Day of 2022 falls on a Saturday; the rules close the last day of 2021.\<close>

lemma new_year_eve_2021_closed: "is_equity_holiday (date_of 2021 12 31)"
  by code_simp

section \<open>The generated sessions\<close>

text \<open>A zone whose offset from UTC is four or five hours behind, as New York's is.\<close>

definition new_york_like :: "zone \<Rightarrow> bool" where
  "new_york_like ny \<longleftrightarrow> (\<forall>w. ny w = w + 4 * hour \<or> ny w = w + 5 * hour)"

lemma new_york_like_bounds:
  assumes "new_york_like ny"
  shows "w + 4 * hour \<le> ny w" and "ny w \<le> w + 5 * hour"
proof -
  have "ny w = w + 4 * hour \<or> ny w = w + 5 * hour" using assms by (simp add: new_york_like_def)
  then show "w + 4 * hour \<le> ny w" "ny w \<le> w + 5 * hour" by (auto simp: hour_def)
qed

lemma wall_step: "wall (d + k) t = wall d t + k * day"
  by (simp add: wall_def utc_of_date_def algebra_simps)

lemma wall_mono: "d < d' \<Longrightarrow> wall d t + day \<le> wall d' t"
proof -
  assume "d < d'"
  then have "1 * day \<le> (d' - d) * day" by (intro mult_right_mono) (auto simp: day_def)
  then show ?thesis by (simp add: wall_def utc_of_date_def algebra_simps)
qed

text \<open>A session before another: both have times and the first closes before the second opens.\<close>

definition before :: "SessionInterval \<Rightarrow> SessionInterval \<Rightarrow> bool" where
  "before a b \<longleftrightarrow>
     session_date a < session_date b
     \<and> (case (close_time_utc a, open_time_utc b) of (Some c, Some o') \<Rightarrow> c \<le> o' | _ \<Rightarrow> True)"

definition interval_ok :: "SessionInterval \<Rightarrow> bool" where
  "interval_ok a \<longleftrightarrow> (case (open_time_utc a, close_time_utc a) of
       (Some o', Some c) \<Rightarrow> o' < c \<and> session_status a \<noteq> HOLIDAY
     | (None, None) \<Rightarrow> session_status a = HOLIDAY | _ \<Rightarrow> False)"

lemma equity_before:
  assumes "new_york_like ny" and "d < d'"
  shows "before (equity_session ny d) (equity_session ny d')"
proof -
  have m: "wall d (9 * hour + 30 * minute) + day \<le> wall d' (9 * hour + 30 * minute)"
    using wall_mono [OF assms(2)] .
  have "ny (wall d (k * hour)) \<le> ny (wall d' (9 * hour + 30 * minute))" if "k \<le> 16" for k
    using m that new_york_like_bounds(2) [OF assms(1), of "wall d (k * hour)"]
      new_york_like_bounds(1) [OF assms(1), of "wall d' (9 * hour + 30 * minute)"]
    by (simp add: wall_def time_units)
  from this [of 13] this [of 16] show ?thesis
    using assms(2) by (auto simp: before_def equity_session_def Let_def)
qed

lemma fx_before:
  assumes "new_york_like ny" and "d < d'"
  shows "before (fx_session ny d) (fx_session ny d')"
proof (cases "d' = d + 1")
  case True
  then show ?thesis by (simp add: before_def fx_session_def)
next
  case False
  then have "wall d fx_boundary + day \<le> wall (d' - 1) fx_boundary" using assms(2) by (intro wall_mono) simp
  then have "ny (wall d fx_boundary) \<le> ny (wall (d' - 1) fx_boundary)"
    using new_york_like_bounds(2) [OF assms(1), of "wall d fx_boundary"]
      new_york_like_bounds(1) [OF assms(1), of "wall (d' - 1) fx_boundary"]
    by (simp add: time_units)
  then show ?thesis using assms(2) by (simp add: before_def fx_session_def)
qed

lemma equity_interval_ok: "new_york_like ny \<Longrightarrow> interval_ok (equity_session ny d)"
  using new_york_like_bounds(2) [of ny "wall d (9 * hour + 30 * minute)"]
    new_york_like_bounds(1) [of ny "wall d (13 * hour)"] new_york_like_bounds(1) [of ny "wall d (16 * hour)"]
  by (auto simp: interval_ok_def equity_session_def Let_def wall_def time_units)

lemma fx_interval_ok: "new_york_like ny \<Longrightarrow> interval_ok (fx_session ny d)"
  using wall_mono [of "d - 1" d fx_boundary] new_york_like_bounds(2) [of ny "wall (d - 1) fx_boundary"]
    new_york_like_bounds(1) [of ny "wall d fx_boundary"]
  by (simp add: interval_ok_def fx_session_def time_units)

lemma sorted_sessions:
  assumes "\<And>d d'. d < d' \<Longrightarrow> before (f d) (f d')"
  shows "sorted_wrt before (map f (filter P [s..(e::int)]))"
proof -
  have "sorted_wrt (<) (filter P [s..e])" by (rule sorted_wrt_filter) simp
  then show ?thesis
    unfolding sorted_wrt_map by (rule sorted_wrt_mono_rel [rotated]) (use assms in blast)
qed

text \<open>With a zone four or five hours behind UTC, both generators give one interval per
  weekday from start to end, in strictly increasing date order, each either a holiday without
  times (equity, exactly on the holidays of the rules) or an interval that opens before it
  closes and closes before the next one opens.\<close>

theorem generated_sessions:
  assumes "new_york_like ny"
  shows "map session_date (generate_equity_sessions ny s e) = filter (\<lambda>d. weekday d < 5) [s..e]
     \<and> map session_date (generate_fx_sessions ny s e) = filter (\<lambda>d. weekday d < 5) [s..e]
     \<and> sorted_wrt before (generate_equity_sessions ny s e)
     \<and> sorted_wrt before (generate_fx_sessions ny s e)
     \<and> list_all interval_ok (generate_equity_sessions ny s e)
     \<and> list_all interval_ok (generate_fx_sessions ny s e)
     \<and> map (\<lambda>x. session_status x = HOLIDAY) (generate_equity_sessions ny s e)
         = map is_equity_holiday (filter (\<lambda>d. weekday d < 5) [s..e])"
proof -
  have "session_date (equity_session ny d) = d" "session_date (fx_session ny d) = d"
    "(session_status (equity_session ny d) = HOLIDAY) = is_equity_holiday d" for d
    by (simp_all add: equity_session_def fx_session_def Let_def)
  then show ?thesis
    using assms unfolding generate_equity_sessions_def generate_fx_sessions_def not_le
    by (auto simp: list_all_iff comp_def
        intro!: sorted_sessions equity_before fx_before equity_interval_ok fx_interval_ok)
qed

theorem generated_sessions_witness:
  "list_all interval_ok (generate_equity_sessions (\<lambda>w. w + 5 * hour) (date_of 2024 1 2) (date_of 2024 1 2))
   \<and> generate_equity_sessions (\<lambda>w. w + 5 * hour) (date_of 2024 1 2) (date_of 2024 1 2) \<noteq> []"
proof -
  have z: "new_york_like (\<lambda>w. w + 5 * hour)" by (simp add: new_york_like_def)
  have "generate_equity_sessions (\<lambda>w. w + 5 * hour) (date_of 2024 1 2) (date_of 2024 1 2) \<noteq> []"
    by code_simp
  then show ?thesis
    using generated_sessions [OF z, of "date_of 2024 1 2" "date_of 2024 1 2"] by simp
qed

theorem calendar_rules_witness: "weekday (nth_weekday 2024 1 0 3) = 0"
  using calendar_rules [of 0 2024 1 3 0] by simp

section \<open>The stored calendars\<close>

text \<open>The interval table is a keyed store.\<close>

interpretation interval_store: keyed_store interval_key "tbl_lookup interval_key"
  "tbl_upsert interval_key" "tbl_delete_keys interval_key" "tbl_wf interval_key"
  by unfold_locales (auto simp: table_simps)

lemma tbl_upsert_new: "tbl_lookup k (k r) t = None \<Longrightarrow> tbl_upsert k r t = t @ [r]"
  by (induction t) (auto split: if_splits)

lemma insert_rows_fresh:
  assumes "distinct (map k rs)" and "k ` set rs \<inter> k ` set t = {}"
  shows "insert_rows k rs t = Inr (fold (tbl_upsert k) rs t)"
  using assms
proof (induction rs arbitrary: t)
  case (Cons r rs)
  have none: "tbl_lookup k (k r) t = None" using Cons.prems(2) by (simp only: tbl_lookup_None) auto
  have "insert_rows k rs (t @ [r]) = Inr (fold (tbl_upsert k) rs (t @ [r]))"
    using Cons.prems by (intro Cons.IH) auto
  then show ?case using none by (simp add: tbl_upsert_new)
qed simp

definition interval_row :: "string \<Rightarrow> string \<Rightarrow> SessionInterval \<Rightarrow> IntervalRow" where
  "interval_row c sha x = \<lparr> iv_calendar = c, iv_date = session_date x, iv_sequence = 0,
                           iv_session = x, iv_sha256 = sha \<rparr>"

lemma store_calendar_intervals:
  assumes "tbl_wf interval_key (intervals db)" and "distinct (map session_date sessions)"
  shows "\<exists>db'. store_calendar row sessions db = Inr db'
     \<and> tbl_wf interval_key (intervals db') \<and> instruments db' = instruments db
     \<and> calendars db' = tbl_upsert cal_id row (calendars db)
     \<and> (\<forall>c d q. tbl_lookup interval_key (c, d, q) (intervals db') =
          (if c = cal_id row
           then (if q = 0 then map_option (interval_row c (source_sha256 row))
                                  (find (\<lambda>x. session_date x = d) sessions) else None)
           else tbl_lookup interval_key (c, d, q) (intervals db)))"
proof -
  define P :: "string \<times> date \<times> int \<Rightarrow> bool" where "P = (\<lambda>k. fst k = cal_id row)"
  define rows where "rows = map (interval_row (cal_id row) (source_sha256 row)) sessions"
  define kept where "kept = tbl_delete_keys interval_key P (intervals db)"
  have keys: "map interval_key rows = map (\<lambda>d. (cal_id row, d, 0)) (map session_date sessions)"
    by (simp add: rows_def interval_row_def interval_key_def)
  have dist: "distinct (map interval_key rows)"
    using assms(2) unfolding keys by (simp add: distinct_map inj_on_def)
  have sub: "P k" if "k \<in> interval_key ` set rows" for k
    using that by (auto simp: P_def rows_def interval_row_def interval_key_def)
  have fresh: "interval_key ` set rows \<inter> interval_key ` set kept = {}"
  proof (rule equals0I)
    fix k assume k: "k \<in> interval_key ` set rows \<inter> interval_key ` set kept"
    then have "P k" using sub by blast
    moreover have "\<not> P k" using k by (auto simp: kept_def tbl_delete_keys_def)
    ultimately show False by simp
  qed
  define t where "t = fold (tbl_upsert interval_key) rows kept"
  have ins: "insert_rows interval_key rows kept = Inr t"
    unfolding t_def by (rule insert_rows_fresh [OF dist fresh])
  have look: "tbl_lookup interval_key k t =
      (if k \<in> interval_key ` set rows then find (\<lambda>r. interval_key r = k) rows
       else if P k then None else tbl_lookup interval_key k (intervals db))" for k
    unfolding t_def kept_def by (rule interval_store.lookup_replace [OF assms(1) dist])
  have find_rows: "find (\<lambda>r. interval_key r = (c, d, q)) rows =
      (if c = cal_id row \<and> q = 0 then map_option (interval_row c (source_sha256 row))
                                  (find (\<lambda>x. session_date x = d) sessions) else None)" for c d q
  proof -
    have "interval_key (interval_row c' h x) = (c', session_date x, 0)" for c' h x
      by (simp add: interval_row_def interval_key_def)
    then show ?thesis unfolding rows_def by (induction sessions) auto
  qed
  have "tbl_lookup interval_key (c, d, q) t =
          (if c = cal_id row
           then (if q = 0 then map_option (interval_row c (source_sha256 row))
                                  (find (\<lambda>x. session_date x = d) sessions) else None)
           else tbl_lookup interval_key (c, d, q) (intervals db))" for c d q
  proof (cases "(c, d, q) \<in> interval_key ` set rows")
    case True
    then have "P (c, d, q)" by (rule sub)
    then show ?thesis using True look [of "(c, d, q)"] find_rows [of c d q] by (simp add: P_def)
  next
    case False
    then have "find (\<lambda>r. interval_key r = (c, d, q)) rows = None"
      unfolding find_None_iff by (metis imageI)
    then show ?thesis
      using False look [of "(c, d, q)"] find_rows [of c d q] by (auto simp: P_def split: if_splits)
  qed
  moreover have "tbl_wf interval_key t"
    unfolding t_def kept_def by (intro interval_store.wf_upserts interval_store.wf_delete assms(1))
  moreover have "store_calendar row sessions db
      = Inr (db\<lparr> calendars := tbl_upsert cal_id row (calendars db), intervals := t \<rparr>)"
    using ins by (simp add: store_calendar_def Let_def ebind_def kept_def P_def rows_def
        interval_row_def [abs_def])
  ultimately show ?thesis by simp
qed

lemma find_session:
  assumes "\<And>d. session_date (f d) = d"
  shows "find (\<lambda>x. session_date x = d) (map f (filter P [s..e]))
       = (if s \<le> d \<and> d \<le> e \<and> P d then Some (f d) else None)"
proof -
  have *: "find (\<lambda>x. session_date x = d) (map f xs) = (if d \<in> set xs then Some (f d) else None)" for xs
    using assms by (induction xs) auto
  show ?thesis unfolding * by auto
qed

definition days_of :: "(date \<Rightarrow> SessionInterval) \<Rightarrow> date \<Rightarrow> date \<Rightarrow> date \<Rightarrow> SessionInterval option" where
  "days_of f s e d = (if s \<le> d \<and> d \<le> e \<and> weekday d < 5 then Some (f d) else None)"

lemma assign_calendars_effect:
  "length (snd (assign_calendars idents t)) = length t
   \<and> (\<forall>n<length t. snd (assign_calendars idents t) ! n =
        (if list_ex (\<lambda>i. assigns i (t ! n)) idents
         then (t ! n)\<lparr>in_calendar := Some (calendar_for (in_asset_type (t ! n)))\<rparr> else t ! n))"
proof (induction idents arbitrary: t)
  case (Cons ident rest)
  define t' where "t' = map (\<lambda>r. if assigns ident r
    then r\<lparr>in_calendar := Some (calendar_for (snd ident))\<rparr> else r) t"
  have a: "assigns i (r\<lparr>in_calendar := c\<rparr>) = assigns i r" for i r c by (simp add: assigns_def)
  have s: "snd ident = in_asset_type r" if "assigns ident r" for r using that by (simp add: assigns_def)
  have "snd (assign_calendars (ident # rest) t) = snd (assign_calendars rest t')"
    by (simp add: t'_def Let_def case_prod_unfold)
  moreover have "length t' = length t" by (simp add: t'_def)
  ultimately show ?case
    using Cons.IH [of t'] s by (auto simp: t'_def a)
qed simp

text \<open>Applying the calendars on a well-formed store always commits: afterwards the two
  calendars hold exactly the generated sessions, every other calendar's intervals are as before,
  every registered SIM instrument points at the calendar of its asset type, and every other
  instrument is untouched.\<close>

theorem apply_calendars_effect:
  assumes "start \<le> till" and "tbl_wf interval_key (intervals db)"
  shows "\<exists>rep db'. apply_calendars ny sha registry start till db = (Inr rep, db')
     \<and> (\<forall>c d q. tbl_lookup interval_key (c, d, q) (intervals db') =
          (if c = equity_calendar_id \<and> q = 0
           then map_option (interval_row c (sha c (generate_equity_sessions ny start till)))
                  (days_of (equity_session ny) start till d)
           else if c = fx_calendar_id \<and> q = 0
           then map_option (interval_row c (sha c (generate_fx_sessions ny start till)))
                  (days_of (fx_session ny) start till d)
           else if c \<in> {equity_calendar_id, fx_calendar_id} then None
           else tbl_lookup interval_key (c, d, q) (intervals db)))
     \<and> instruments db' = snd (assign_calendars registry (instruments db))
     \<and> tbl_wf interval_key (intervals db')"
proof -
  let ?eq = "generate_equity_sessions ny start till" and ?fx = "generate_fx_sessions ny start till"
  define er where "er = \<lparr> cal_id = equity_calendar_id, exchange_id = Some ''XNYS'', cal_asset_type = ''Etf'',
      schedule_version = ''db3_nyse_rules_v1'', verification_status = ''VERIFIED'', effective_from = start,
      effective_to = till, source_sha256 = sha equity_calendar_id ?eq \<rparr>"
  define fr where "fr = \<lparr> cal_id = fx_calendar_id, exchange_id = None, cal_asset_type = ''FxSpot'',
      schedule_version = ''saxo_fx_spot_trading_conditions_20260725_v1'', verification_status = ''VERIFIED'', effective_from = start,
      effective_to = till, source_sha256 = sha fx_calendar_id ?fx \<rparr>"
  have dates: "session_date (equity_session ny d) = d" "session_date (fx_session ny d) = d" for d
    by (simp_all add: equity_session_def fx_session_def Let_def)
  have dist: "distinct (map session_date ?eq)" "distinct (map session_date ?fx)"
    using dates by (simp_all add: generate_equity_sessions_def generate_fx_sessions_def comp_def)
  have ids: "equity_calendar_id \<noteq> fx_calendar_id" by (simp add: equity_calendar_id_def fx_calendar_id_def)
  have fe: "find (\<lambda>x. session_date x = d) ?eq = days_of (equity_session ny) start till d"
    "find (\<lambda>x. session_date x = d) ?fx = days_of (fx_session ny) start till d" for d
    unfolding generate_equity_sessions_def generate_fx_sessions_def days_of_def not_le
    by (rule find_session, simp add: dates)+
  obtain d1 where d1: "store_calendar er ?eq db = Inr d1" "tbl_wf interval_key (intervals d1)"
    "instruments d1 = instruments db"
    "\<And>c d q. tbl_lookup interval_key (c, d, q) (intervals d1) =
        (if c = cal_id er
         then (if q = 0 then map_option (interval_row c (source_sha256 er))
                                (find (\<lambda>x. session_date x = d) ?eq) else None)
         else tbl_lookup interval_key (c, d, q) (intervals db))"
    using store_calendar_intervals [OF assms(2) dist(1), of er] by auto
  obtain d2 where d2: "store_calendar fr ?fx d1 = Inr d2" "tbl_wf interval_key (intervals d2)"
    "instruments d2 = instruments d1"
    "\<And>c d q. tbl_lookup interval_key (c, d, q) (intervals d2) =
        (if c = cal_id fr
         then (if q = 0 then map_option (interval_row c (source_sha256 fr))
                                (find (\<lambda>x. session_date x = d) ?fx) else None)
         else tbl_lookup interval_key (c, d, q) (intervals d1))"
    using store_calendar_intervals [OF d1(2) dist(2), of fr] by auto
  define db' where "db' = d2\<lparr> instruments := snd (assign_calendars registry (instruments db)) \<rparr>"
  obtain rep where "apply_calendars ny sha registry start till db = (Inr rep, db')"
    using assms(1) d1 d2
    by (simp add: apply_calendars_def Let_def er_def fr_def ebind_def transaction_def db'_def
        case_prod_unfold)
  moreover have "tbl_lookup interval_key (c, d, q) (intervals db') =
          (if c = equity_calendar_id \<and> q = 0
           then map_option (interval_row c (sha c ?eq)) (days_of (equity_session ny) start till d)
           else if c = fx_calendar_id \<and> q = 0
           then map_option (interval_row c (sha c ?fx)) (days_of (fx_session ny) start till d)
           else if c \<in> {equity_calendar_id, fx_calendar_id} then None
           else tbl_lookup interval_key (c, d, q) (intervals db))" for c d q
    using d1(4) [of c d q] d2(4) [of c d q] ids by (auto simp: db'_def er_def fr_def fe)
  moreover have "instruments db' = snd (assign_calendars registry (instruments db))"
    "tbl_wf interval_key (intervals db')" using d2(2) by (simp_all add: db'_def)
  ultimately show ?thesis by blast
qed

theorem apply_calendars_effect_witness:
  "\<exists>rep db'. apply_calendars (\<lambda>w. w + 5 * hour) (\<lambda>c x. c) [(37, ''Etf'')] 730000 730003
      \<lparr> calendars = [], intervals = [], instruments = [] \<rparr> = (Inr rep, db')
    \<and> tbl_wf interval_key (intervals db')"
  using apply_calendars_effect [of 730000 730003 "\<lparr> calendars = [], intervals = [], instruments = [] \<rparr>"
      "\<lambda>w. w + 5 * hour" "\<lambda>c x. c" "[(37, ''Etf'')]"]
  by (auto simp: tbl_wf_def)

end
