(* ===== verification/ScheduleSlots.thy ===== *)
theory ScheduleSlots
  imports SessionCalendar "HOL-Library.Char_ord" "HOL-Library.List_Lexorder" "HOL-Library.Product_Lexorder"
begin

text \<open>
  The schedule of \<open>market_db/periodic_update.py\<close>: scopes, the hourly and daily slots built from
  the session calendars, and the reduction to one slot per instrument of the selected scope. A
  dictionary keyed by instrument is an association list in insertion order.
\<close>

section \<open>Scopes\<close>

definition equity_reit_keys :: "string list" where
  "equity_reit_keys = [''spy'', ''iwm'', ''efa'', ''eem'', ''vnq'']"
definition bond_credit_keys :: "string list" where
  "bond_credit_keys = [''shy'', ''ief'', ''tlt'', ''tip'', ''lqd'']"
definition gold_keys :: "string list" where "gold_keys = [''gld'']"
definition etf_keys :: "string list" where
  "etf_keys = equity_reit_keys @ bond_credit_keys @ gold_keys"
definition scheduled_fx_keys :: "string list" where "scheduled_fx_keys = [''eurusd'', ''usdjpy'']"
definition fx_research_candidate_keys :: "string list" where
  "fx_research_candidate_keys = [''audusd'', ''usdcad'', ''usdchf'']"

lemmas key_defs = equity_reit_keys_def bond_credit_keys_def gold_keys_def etf_keys_def
  scheduled_fx_keys_def fx_research_candidate_keys_def

definition full_scope_profile :: string where "full_scope_profile = ''all_managed_series_v1''"
definition usdjpy_quarantine_profile :: string where
  "usdjpy_quarantine_profile = ''all_except_usdjpy_provider_quarantine_20260727''"
definition candidate_ready_profile :: string where
  "candidate_ready_profile = ''all_except_usdjpy_with_fx_research_candidates_20260727''"

record SchedulerScope =
  profile_id :: string
  included_instrument_keys :: "string list"
  excluded_instrument_keys :: "string list"
  allowed_schedule_kinds :: "string list"

definition base_kinds :: "string list" where
  "base_kinds = [''equity_regular_1h'', ''bond_credit_regular_1h'', ''gold_regular_1h'',
                 ''etf_daily_close'', ''fx_hourly'']"

definition scheduler_scopes :: "(string \<times> SchedulerScope) list" where
  "scheduler_scopes =
     [(full_scope_profile,
       \<lparr> profile_id = full_scope_profile, included_instrument_keys = etf_keys @ scheduled_fx_keys,
         excluded_instrument_keys = [], allowed_schedule_kinds = base_kinds \<rparr>),
      (usdjpy_quarantine_profile,
       \<lparr> profile_id = usdjpy_quarantine_profile, included_instrument_keys = etf_keys @ [''eurusd''],
         excluded_instrument_keys = [''usdjpy''], allowed_schedule_kinds = base_kinds \<rparr>),
      (candidate_ready_profile,
       \<lparr> profile_id = candidate_ready_profile,
         included_instrument_keys = etf_keys @ [''eurusd''] @ fx_research_candidate_keys,
         excluded_instrument_keys = [''usdjpy''],
         allowed_schedule_kinds = base_kinds @ [''fx_research_candidates_hourly''] \<rparr>)]"

definition scheduler_scope :: "string \<Rightarrow> exn + SchedulerScope" where
  "scheduler_scope profile =
     (case map_of scheduler_scopes profile of
        None \<Rightarrow> Inl (ValueError ''UNKNOWN_SCHEDULER_SCOPE_PROFILE'') | Some s \<Rightarrow> Inr s)"

section \<open>Slots\<close>

record ScheduleSlot =
  slot_id :: string
  kind :: string
  due_at :: utc
  deadline :: utc
  instrument_keys :: "string list"
  expected_latest_complete :: "(string \<times> utc) list"
  trigger :: string
  expected_latest_session :: "(string \<times> date) list"

definition quarantine_trigger :: "string \<Rightarrow> string \<Rightarrow> string" where
  "quarantine_trigger profile trig =
     (if profile \<in> {usdjpy_quarantine_profile, candidate_ready_profile}
      then trig @ ''_usdjpy_quarantined'' else trig)"

definition scope_slot ::
  "string \<Rightarrow> SchedulerScope \<Rightarrow> ScheduleSlot \<Rightarrow> string \<Rightarrow> exn + ScheduleSlot" where
  "scope_slot profile scope slot k =
     (let expected = filter (\<lambda>(a, _). a \<in> set (included_instrument_keys scope)) (expected_latest_complete slot);
          sessions = filter (\<lambda>(a, _). a \<in> set (included_instrument_keys scope)) (expected_latest_session slot)
      in case map_of expected k of
           None \<Rightarrow> Inl KeyError
         | Some v \<Rightarrow>
             Inr \<lparr> slot_id = slot_id slot @ ''-'' @ k, kind = kind slot, due_at = due_at slot,
                   deadline = deadline slot, instrument_keys = [k],
                   expected_latest_complete = [(k, v)],
                   trigger = quarantine_trigger profile (trigger slot) @ ''_'' @ k,
                   expected_latest_session =
                     (case map_of sessions k of None \<Rightarrow> [] | Some d \<Rightarrow> [(k, d)]) \<rparr>)"

definition apply_scheduler_scope :: "ScheduleSlot list \<Rightarrow> string \<Rightarrow> exn + ScheduleSlot list" where
  "apply_scheduler_scope slots profile =
     ebind (scheduler_scope profile) (\<lambda>scope.
     ebind (emap (\<lambda>slot.
         if kind slot \<notin> set (allowed_schedule_kinds scope) then Inr []
         else emap (scope_slot profile scope slot)
                (filter (\<lambda>k. k \<in> set (included_instrument_keys scope)) (instrument_keys slot))) slots)
       (\<lambda>groups. Inr (concat groups)))"

section \<open>Complete hours\<close>

function hour_starts :: "utc \<Rightarrow> utc \<Rightarrow> utc list" where
  "hour_starts current closing =
     (if current + hour \<le> closing then current # hour_starts (current + hour) closing else [])"
  by pat_completeness auto

termination
  by (relation "measure (\<lambda>(current, closing). nat (closing - current))") (auto simp: hour_def)

declare hour_starts.simps [simp del]

definition fully_contained_hour_starts :: "utc \<Rightarrow> utc \<Rightarrow> bool \<Rightarrow> int \<Rightarrow> int \<Rightarrow> utc list" where
  "fully_contained_hour_starts open_t close_t align opening_delay closing_lead =
     (let opening = open_t + opening_delay; closing = close_t - closing_lead;
          current = (if align
                     then (let f = opening div hour * hour in if f < opening then f + hour else f)
                     else opening)
      in hour_starts current closing)"

section \<open>Building the schedule\<close>

definition minute_text :: "utc \<Rightarrow> string" where
  "minute_text t = pad_digits 2 (nat (t mod day div hour)) @ pad_digits 2 (nat (t mod hour div minute)) @ ''Z''"

definition stamp_text :: "utc \<Rightarrow> string" where
  "stamp_text t =
     (case ymd_of (date_of_utc t) of (y, m, d) \<Rightarrow>
        pad_digits 4 (nat y) @ pad_digits 2 (nat m) @ pad_digits 2 (nat d) @ ''T''
        @ pad_digits 2 (nat (t mod day div hour)) @ pad_digits 2 (nat (t mod hour div minute))
        @ pad_digits 2 (nat (t mod minute div second)) @ ''Z'')"

definition tradable :: "SessionInterval \<Rightarrow> bool" where
  "tradable s = (session_status s \<in> {OPEN, SHORT_SESSION})"

definition fx_bar_starts :: "SessionInterval list \<Rightarrow> utc list" where
  "fx_bar_starts sessions =
     sorted_list_of_set (\<Union>s\<in>set sessions.
       (case (open_time_utc s, close_time_utc s) of
          (Some o', Some c) \<Rightarrow>
            if tradable s then set (fully_contained_hour_starts o' c True (5 * minute) minute) else {}
        | _ \<Rightarrow> {}))"

definition fx_slots_at :: "utc \<Rightarrow> ScheduleSlot list" where
  "fx_slots_at bar =
     (let due = bar + hour + 3 * minute; candidate_due = bar + hour + 6 * minute
      in \<lparr> slot_id = ''fx-'' @ stamp_text due, kind = ''fx_hourly'', due_at = due,
           deadline = bar + hour + 10 * minute, instrument_keys = scheduled_fx_keys,
           expected_latest_complete = map (\<lambda>k. (k, bar)) scheduled_fx_keys,
           trigger = ''scheduled_fx_hourly'', expected_latest_session = [] \<rparr>
         # map (\<lambda>k. \<lparr> slot_id = ''fx-research-'' @ k @ ''-'' @ stamp_text candidate_due,
             kind = ''fx_research_candidates_hourly'', due_at = candidate_due,
             deadline = bar + hour + 15 * minute, instrument_keys = [k],
             expected_latest_complete = [(k, bar)],
             trigger = ''scheduled_fx_research_candidate_'' @ k, expected_latest_session = [] \<rparr>)
           fx_research_candidate_keys)"

definition fx_slots :: "utc \<Rightarrow> SessionInterval list \<Rightarrow> ScheduleSlot list" where
  "fx_slots now sessions =
     concat (map fx_slots_at (filter (\<lambda>bar.
       \<not> (bar + hour + 3 * minute < now - 7 * hour \<or> now + 4 * hour < bar + hour + 3 * minute))
       (fx_bar_starts sessions)))"

definition etf_hour_slot :: "string \<Rightarrow> string \<Rightarrow> string list \<Rightarrow> string \<Rightarrow> date \<Rightarrow> utc \<Rightarrow> ScheduleSlot" where
  "etf_hour_slot pre knd ks trig d bar =
     \<lparr> slot_id = pre @ date_iso d @ ''-'' @ minute_text bar, kind = knd,
       due_at = bar + hour + 15 * second, deadline = bar + hour + 3 * minute,
       instrument_keys = ks, expected_latest_complete = map (\<lambda>k. (k, bar)) ks,
       trigger = trig, expected_latest_session = [] \<rparr>"

definition etf_hour_slots :: "date \<Rightarrow> utc \<Rightarrow> ScheduleSlot list" where
  "etf_hour_slots d bar =
     [etf_hour_slot ''equity-'' ''equity_regular_1h'' equity_reit_keys
        ''scheduled_equity_reit_regular_1h'' d bar,
      etf_hour_slot ''bond-credit-'' ''bond_credit_regular_1h'' bond_credit_keys
        ''scheduled_bond_credit_regular_1h'' d bar,
      etf_hour_slot ''gold-'' ''gold_regular_1h'' gold_keys ''scheduled_gold_regular_1h'' d bar]"

text \<open>\<open>int(total_seconds())\<close> truncates towards zero.\<close>

definition whole_seconds :: "int \<Rightarrow> int" where
  "whole_seconds x = (if 0 \<le> x then x div second else - (- x div second))"

definition final_bar_start :: "utc \<Rightarrow> utc \<Rightarrow> utc" where
  "final_bar_start o' c = o' + (max 1 ((whole_seconds (c - o') + 3599) div 3600) - 1) * hour"

definition daily_close_slot :: "date \<Rightarrow> utc \<Rightarrow> utc \<Rightarrow> ScheduleSlot" where
  "daily_close_slot d o' c =
     \<lparr> slot_id = ''etf-daily-close-'' @ date_iso d, kind = ''etf_daily_close'',
       due_at = c + 45 * minute, deadline = c + 90 * minute, instrument_keys = etf_keys,
       expected_latest_complete = map (\<lambda>k. (k, final_bar_start o' c)) etf_keys,
       trigger = ''scheduled_etf_daily_close'', expected_latest_session = map (\<lambda>k. (k, d)) etf_keys \<rparr>"

definition equity_slots :: "SessionInterval \<Rightarrow> exn + ScheduleSlot list" where
  "equity_slots s =
     (if \<not> tradable s then Inr []
      else case (open_time_utc s, close_time_utc s) of
             (Some o', Some c) \<Rightarrow>
               Inr (concat (map (etf_hour_slots (session_date s))
                      (fully_contained_hour_starts o' c False 0 0))
                    @ [daily_close_slot (session_date s) o' c])
           | _ \<Rightarrow> Inl AttributeError)"

definition default_fx_sessions :: "zone \<Rightarrow> utc \<Rightarrow> SessionInterval list" where
  "default_fx_sessions ny now =
     generate_fx_sessions ny (date_of_utc (now - 3 * day)) (date_of_utc (now + 4 * day))"

definition build_schedule_slots ::
  "zone \<Rightarrow> datetime \<Rightarrow> SessionInterval list \<Rightarrow> SessionInterval list \<Rightarrow> string \<Rightarrow>
   exn + ScheduleSlot list" where
  "build_schedule_slots ny now_utc equity_sessions fx_sessions profile =
     (case now_utc of
        Naive _ \<Rightarrow> Inl (ValueError ''now_utc must be timezone-aware'')
      | Aware now \<Rightarrow>
          let fx = (if fx_sessions = [] then default_fx_sessions ny now else fx_sessions)
          in ebind (emap equity_slots equity_sessions) (\<lambda>equity.
               apply_scheduler_scope
                 (sort_key (\<lambda>s. (due_at s, kind s)) (fx_slots now fx @ concat equity)) profile))"

text \<open>\<open>schedule_around\<close>: the stored equity sessions of the days around now.\<close>

definition schedule_around ::
  "zone \<Rightarrow> (date \<Rightarrow> date \<Rightarrow> SessionInterval list) \<Rightarrow> utc \<Rightarrow> string \<Rightarrow> exn + ScheduleSlot list" where
  "schedule_around ny stored now profile =
     build_schedule_slots ny (Aware now)
       (stored (date_of_utc (now - 2 * day)) (date_of_utc (now + 3 * day))) [] profile"

definition immediate_slot :: "utc \<Rightarrow> string \<Rightarrow> exn + ScheduleSlot" where
  "immediate_slot now profile =
     ebind (scheduler_scope profile) (\<lambda>scope.
       Inr \<lparr> slot_id = ''manual-'' @ stamp_text now, kind = ''manual_scope_update'', due_at = now,
             deadline = now + 10 * minute, instrument_keys = included_instrument_keys scope,
             expected_latest_complete = [], trigger = ''manual_'' @ profile_id scope,
             expected_latest_session = [] \<rparr>)"

section \<open>Which hours are complete\<close>

lemma hour_starts_mem:
  "x \<in> set (hour_starts c cl) \<longleftrightarrow> (\<exists>n::nat. x = c + int n * hour) \<and> x + hour \<le> cl"
proof (induction c cl rule: hour_starts.induct)
  case (1 c cl)
  show ?case
  proof (cases "c + hour \<le> cl")
    case True
    have step: "(\<exists>n::nat. x = c + int n * hour) \<longleftrightarrow> x = c \<or> (\<exists>n::nat. x = c + hour + int n * hour)"
      (is "?l \<longleftrightarrow> ?r")
    proof
      assume ?l
      then obtain n :: nat where n: "x = c + int n * hour" by auto
      show ?r
      proof (cases n)
        case (Suc m)
        then have "x = c + hour + int m * hour" using n by (simp add: algebra_simps)
        then show ?thesis by blast
      qed (use n in simp)
    next
      assume ?r
      then show ?l
      proof (elim disjE exE)
        assume "x = c"
        then show ?thesis by (intro exI [of _ 0]) simp
      next
        fix n :: nat assume "x = c + hour + int n * hour"
        then show ?thesis by (intro exI [of _ "Suc n"]) (simp add: algebra_simps)
      qed
    qed
    show ?thesis
    proof -
      have "set (hour_starts c cl) = insert c (set (hour_starts (c + hour) cl))"
        using True by (subst hour_starts.simps) simp
      then show ?thesis using True by (simp only: insert_iff 1 [OF True] step) blast
    qed
  next
    case False
    have "\<not> ((\<exists>n::nat. x = c + int n * hour) \<and> x + hour \<le> cl)"
      using False by (auto simp: hour_def)
    then show ?thesis using False by (simp add: hour_starts.simps [of c cl])
  qed
qed

lemma hour_starts_sorted: "sorted_wrt (<) (hour_starts c cl)"
proof (induction c cl rule: hour_starts.induct)
  case (1 c cl)
  have "c < x" if "x \<in> set (hour_starts (c + hour) cl)" for x
    using that by (auto simp: hour_starts_mem hour_def)
  then show ?case using 1 by (subst hour_starts.simps) auto
qed

lemma multiple_of_hour:
  "(\<exists>n::nat. x = f + int n * hour) \<longleftrightarrow> f \<le> x \<and> (x - f) mod hour = 0"
proof
  assume "f \<le> x \<and> (x - f) mod hour = 0"
  then have "x = f + int (nat ((x - f) div hour)) * hour"
    using div_mult_mod_eq [of "x - f" hour] by (simp add: hour_def pos_imp_zdiv_nonneg_iff)
  then show "\<exists>n::nat. x = f + int n * hour" by blast
qed (auto simp: hour_def)

lemma next_hour:
  defines "up \<equiv> \<lambda>p. (let f = p div hour * hour in if f < p then f + hour else f)"
  shows "x mod hour = 0 \<Longrightarrow> up p \<le> x \<longleftrightarrow> p \<le> x" and "up p mod hour = 0"
proof -
  have h: "0 < hour" by (simp add: hour_def)
  show "up p mod hour = 0" by (simp add: up_def Let_def)
  assume x: "x mod hour = 0"
  define k where "k = x div hour"
  have k: "x = k * hour" using x div_mult_mod_eq [of x hour] by (simp add: k_def)
  define q where "q = p div hour"
  define r where "r = p mod hour"
  have p: "p = q * hour + r" by (simp add: q_def r_def)
  have r: "0 \<le> r" "r < hour" using h by (simp_all add: r_def)
  show "up p \<le> x \<longleftrightarrow> p \<le> x"
  proof (cases "r = 0")
    case True
    then show ?thesis using p by (simp add: up_def Let_def q_def)
  next
    case False
    then have up: "up p = (q + 1) * hour"
      using p r unfolding up_def Let_def q_def [symmetric] by (simp add: algebra_simps)
    have "(q + 1) * hour \<le> k * hour \<longleftrightarrow> q + 1 \<le> k" using h by (rule mult_le_cancel_right_pos)
    moreover have "q * hour < k * hour \<longleftrightarrow> q < k" using h by (rule mult_less_cancel_right_pos)
    moreover have "q * hour < p" "p < (q + 1) * hour" using p r False by (simp_all add: algebra_simps)
    ultimately show ?thesis unfolding up k by linarith
  qed
qed

text \<open>The hours of a session are exactly those that lie wholly inside it after the opening
  delay and before the closing lead: on the UTC hour grid when aligned, on the grid of the
  delayed opening otherwise; they are listed in strictly increasing order.\<close>

theorem contained_hours_exact:
  "set (fully_contained_hour_starts o' c True delay lead)
     = {x. x mod hour = 0 \<and> o' + delay \<le> x \<and> x + hour \<le> c - lead}
   \<and> set (fully_contained_hour_starts o' c False delay lead)
     = {x. (x - (o' + delay)) mod hour = 0 \<and> o' + delay \<le> x \<and> x + hour \<le> c - lead}
   \<and> sorted_wrt (<) (fully_contained_hour_starts o' c align delay lead)"
proof (intro conjI)
  let ?p = "o' + delay"
  define up where "up = (let f = ?p div hour * hour in if f < ?p then f + hour else f)"
  have up: "x mod hour = 0 \<Longrightarrow> up \<le> x \<longleftrightarrow> ?p \<le> x" "up mod hour = 0" for x
    using next_hour(1) [of x ?p] next_hour(2) [of ?p] by (simp_all add: up_def)
  have grid: "(x - up) mod hour = 0 \<longleftrightarrow> x mod hour = 0" for x
    using up(2) by (metis diff_zero mod_diff_right_eq)
  have eq: "fully_contained_hour_starts o' c True delay lead = hour_starts up (c - lead)"
    by (simp only: fully_contained_hour_starts_def Let_def up_def if_True)
  show "set (fully_contained_hour_starts o' c True delay lead)
     = {x. x mod hour = 0 \<and> ?p \<le> x \<and> x + hour \<le> c - lead}"
    unfolding eq by (intro set_eqI) (auto simp: hour_starts_mem multiple_of_hour grid up(1))
  have eq2: "fully_contained_hour_starts o' c False delay lead = hour_starts ?p (c - lead)"
    by (simp add: fully_contained_hour_starts_def Let_def)
  show "set (fully_contained_hour_starts o' c False delay lead)
     = {x. (x - ?p) mod hour = 0 \<and> ?p \<le> x \<and> x + hour \<le> c - lead}"
    unfolding eq2 by (intro set_eqI) (auto simp: hour_starts_mem multiple_of_hour)
  show "sorted_wrt (<) (fully_contained_hour_starts o' c align delay lead)"
    by (simp add: fully_contained_hour_starts_def Let_def hour_starts_sorted)
qed

section \<open>Well-formed slots\<close>

text \<open>Every instrument of a slot has an expected bar that has ended before the slot is due.\<close>

definition bar_before_due :: "ScheduleSlot \<Rightarrow> utc \<Rightarrow> bool" where
  "bar_before_due s v \<longleftrightarrow>
     v < due_at s \<and> (kind s \<noteq> ''etf_daily_close'' \<longrightarrow> v + hour \<le> due_at s)"

definition slot_ok :: "ScheduleSlot \<Rightarrow> bool" where
  "slot_ok s \<longleftrightarrow>
     map fst (expected_latest_complete s) = instrument_keys s \<and> due_at s \<le> deadline s
     \<and> list_all (\<lambda>(k, v). bar_before_due s v) (expected_latest_complete s)"

lemma fx_slots_ok: "s \<in> set (fx_slots now sessions) \<Longrightarrow> slot_ok s"
  by (auto simp: fx_slots_def fx_slots_at_def Let_def slot_ok_def bar_before_due_def key_defs
      hour_def minute_def)

lemma whole_seconds_bounds:
  assumes "0 < x"
  shows "(max 1 ((whole_seconds x + 3599) div 3600) - 1) * hour < x"
proof -
  define w where "w = x div second"
  have w: "w * second \<le> x" "0 \<le> w"
    using assms by (simp_all add: w_def second_def)
  have "(w + 3599) div 3600 * 3600 \<le> w + 3599"
    by (metis div_mult_mod_eq le_add_same_cancel1 pos_mod_sign zero_less_numeral)
  then have *: "((w + 3599) div 3600 - 1) * 3600 \<le> w - 1" by simp
  show ?thesis
  proof (cases "1 \<le> (w + 3599) div 3600")
    case True
    have "((w + 3599) div 3600 - 1) * hour \<le> (w - 1) * second"
      using mult_right_mono [OF *, of second] by (simp add: hour_def second_def)
    moreover have "(w - 1) * second < x" using w(1) by (simp add: second_def algebra_simps)
    moreover have "whole_seconds x = w" using assms by (simp add: whole_seconds_def w_def)
    ultimately show ?thesis using True by (simp only: max_absorb2)
  next
    case False
    then show ?thesis using assms by (simp add: whole_seconds_def w_def)
  qed
qed

lemma daily_close_slot_ok: "o' < c \<Longrightarrow> slot_ok (daily_close_slot d o' c)"
  using whole_seconds_bounds [of "c - o'"]
  by (simp add: slot_ok_def daily_close_slot_def bar_before_due_def final_bar_start_def key_defs
      minute_def)

lemma etf_hour_slot_ok: "slot_ok (etf_hour_slot pre knd ks trig d bar)"
  if "knd \<noteq> ''etf_daily_close''"
  using that by (simp add: slot_ok_def etf_hour_slot_def bar_before_due_def list_all_iff time_units comp_def)

lemma equity_slots_ok:
  assumes "interval_ok s"
  shows "\<exists>slots. equity_slots s = Inr slots \<and> list_all slot_ok slots"
proof (cases "tradable s")
  case True
  then obtain o' c where t: "open_time_utc s = Some o'" "close_time_utc s = Some c" "o' < c"
    using assms by (auto simp: interval_ok_def tradable_def split: option.splits)
  then show ?thesis
    using True by (auto simp: equity_slots_def list_all_iff etf_hour_slots_def
        intro: etf_hour_slot_ok daily_close_slot_ok)
qed (simp add: equity_slots_def)

lemma emap_ok:
  assumes "\<And>x. x \<in> set xs \<Longrightarrow> \<exists>ys. f x = Inr ys \<and> list_all P ys"
  shows "\<exists>yss. emap f xs = Inr yss \<and> list_all P (concat yss)"
  using assms
proof (induction xs)
  case (Cons x xs)
  obtain ys where "f x = Inr ys" "list_all P ys" using Cons.prems [of x] by auto
  moreover obtain yss where "emap f xs = Inr yss" "list_all P (concat yss)"
    using Cons.IH Cons.prems by auto
  ultimately show ?case by simp
qed simp

section \<open>Scoped slots\<close>

definition scoped_ok :: "string \<Rightarrow> SchedulerScope \<Rightarrow> ScheduleSlot \<Rightarrow> bool" where
  "scoped_ok profile scope s \<longleftrightarrow>
     slot_ok s \<and> kind s \<in> set (allowed_schedule_kinds scope)
     \<and> (\<exists>k v. instrument_keys s = [k] \<and> expected_latest_complete s = [(k, v)]
            \<and> k \<in> set (included_instrument_keys scope))"

lemma map_of_filter_key:
  "P k \<Longrightarrow> map_of (filter (\<lambda>(a, _). P a) xs) k = map_of xs k"
  by (induction xs) auto

lemma map_of_fst: "k \<in> fst ` set xs \<Longrightarrow> \<exists>v. map_of xs k = Some v \<and> (k, v) \<in> set xs"
  by (induction xs) auto

lemma scope_slot_ok:
  assumes "slot_ok s" and "k \<in> set (instrument_keys s)" and "k \<in> set (included_instrument_keys scope)"
    and "kind s \<in> set (allowed_schedule_kinds scope)"
  shows "\<exists>s'. scope_slot profile scope s k = Inr s' \<and> scoped_ok profile scope s'
     \<and> due_at s' = due_at s \<and> kind s' = kind s"
proof -
  have "k \<in> fst ` set (expected_latest_complete s)"
    using assms(1,2) unfolding slot_ok_def by (metis list.set_map)
  then obtain v where v: "map_of (expected_latest_complete s) k = Some v"
    "(k, v) \<in> set (expected_latest_complete s)" using map_of_fst by metis
  have f: "map_of (filter (\<lambda>(a, _). a \<in> set (included_instrument_keys scope))
      (expected_latest_complete s)) k = Some v"
    using map_of_filter_key [of "\<lambda>a. a \<in> set (included_instrument_keys scope)" k
        "expected_latest_complete s"] assms(3) v(1) by simp
  have "bar_before_due s v" using assms(1) v(2) by (auto simp: slot_ok_def list_all_iff)
  then show ?thesis
    using f assms by (simp add: scope_slot_def Let_def scoped_ok_def slot_ok_def bar_before_due_def)
qed

lemma apply_scheduler_scope_ok:
  assumes "scheduler_scope profile = Inr scope" and "list_all slot_ok slots"
  shows "\<exists>out. apply_scheduler_scope slots profile = Inr out
      \<and> list_all (scoped_ok profile scope) out
      \<and> (sorted_wrt (\<lambda>a b. due_at a \<le> due_at b) slots \<longrightarrow> sorted_wrt (\<lambda>a b. due_at a \<le> due_at b) out)
      \<and> due_at ` set out \<subseteq> due_at ` set slots"
proof -
  define f where "f = (\<lambda>slot. if kind slot \<notin> set (allowed_schedule_kinds scope) then Inr []
         else emap (scope_slot profile scope slot)
                (filter (\<lambda>k. k \<in> set (included_instrument_keys scope)) (instrument_keys slot)))"
  have one: "\<exists>ys. f s = Inr ys \<and> list_all (scoped_ok profile scope) ys
      \<and> list_all (\<lambda>y. due_at y = due_at s) ys" if "slot_ok s" for s
  proof (cases "kind s \<in> set (allowed_schedule_kinds scope)")
    case True
    have "\<exists>ys. emap (scope_slot profile scope s) ks = Inr ys \<and> list_all (scoped_ok profile scope) ys
      \<and> list_all (\<lambda>y. due_at y = due_at s) ys"
      if "set ks \<subseteq> set (instrument_keys s) \<inter> set (included_instrument_keys scope)" for ks
      using that
    proof (induction ks)
      case (Cons k ks)
      then show ?case using scope_slot_ok [OF \<open>slot_ok s\<close>, of k scope profile] True by auto
    qed simp
    from this [of "filter (\<lambda>k. k \<in> set (included_instrument_keys scope)) (instrument_keys s)"]
    show ?thesis using True by (auto simp: f_def)
  qed (simp add: f_def)
  have "\<exists>gs. emap f slots = Inr gs \<and> list_all (scoped_ok profile scope) (concat gs)
      \<and> (sorted_wrt (\<lambda>a b. due_at a \<le> due_at b) slots \<longrightarrow>
           sorted_wrt (\<lambda>a b. due_at a \<le> due_at b) (concat gs))
      \<and> due_at ` set (concat gs) \<subseteq> due_at ` set slots"
    using assms(2)
  proof (induction slots)
    case (Cons s slots)
    obtain ys where ys: "f s = Inr ys" "list_all (scoped_ok profile scope) ys"
      "list_all (\<lambda>y. due_at y = due_at s) ys" using one [of s] Cons.prems by auto
    obtain gs where gs: "emap f slots = Inr gs" "list_all (scoped_ok profile scope) (concat gs)"
      "sorted_wrt (\<lambda>a b. due_at a \<le> due_at b) slots \<longrightarrow>
           sorted_wrt (\<lambda>a b. due_at a \<le> due_at b) (concat gs)"
      "due_at ` set (concat gs) \<subseteq> due_at ` set slots" using Cons by auto
    have y: "sorted_wrt (\<lambda>a b. due_at a \<le> due_at b) ys"
      using ys(3) by (induction ys) (auto simp: list_all_iff)
    have "due_at a \<le> due_at b" if "a \<in> set ys" "b \<in> set (concat gs)"
      "sorted_wrt (\<lambda>a b. due_at a \<le> due_at b) (s # slots)" for a b
    proof -
      have "due_at b \<in> due_at ` set slots" using that(2) gs(4) by blast
      then show ?thesis using that(1,3) ys(3) by (auto simp: list_all_iff)
    qed
    moreover have "due_at ` set (concat (ys # gs)) \<subseteq> due_at ` set (s # slots)"
      using gs(4) ys(3) by (simp add: list_all_iff image_Un subset_insertI2) blast
    ultimately show ?case
      using ys gs y by (intro exI [of _ "ys # gs"]) (simp add: sorted_wrt_append)
  qed simp
  then show ?thesis using assms(1) by (auto simp: apply_scheduler_scope_def f_def)
qed

text \<open>The included instruments of the three scopes.\<close>

lemma scope_facts:
  "scheduler_scope profile = Inr scope \<Longrightarrow>
   profile_id scope = profile
   \<and> (profile \<noteq> full_scope_profile \<longrightarrow> ''usdjpy'' \<notin> set (included_instrument_keys scope))
   \<and> (\<forall>k\<in>set (excluded_instrument_keys scope). k \<notin> set (included_instrument_keys scope))"
  by (auto simp: scheduler_scope_def scheduler_scopes_def full_scope_profile_def
      usdjpy_quarantine_profile_def candidate_ready_profile_def key_defs split: if_splits)

text \<open>For a known scope and well-formed equity sessions the schedule always exists; its slots
  come in order of their due time, each is for one instrument of the scope and one of its lanes,
  expects a bar of that instrument that has ended (for the daily lane: started) before the slot
  is due, and is due no later than its deadline; outside the full scope none is for USDJPY.\<close>

theorem schedule_is_scoped:
  assumes "scheduler_scope profile = Inr scope" and "list_all interval_ok equity"
  shows "\<exists>slots. build_schedule_slots ny (Aware now) equity fx profile = Inr slots
     \<and> sorted_wrt (\<lambda>a b. due_at a \<le> due_at b) slots
     \<and> list_all (scoped_ok profile scope) slots
     \<and> (profile \<noteq> full_scope_profile \<longrightarrow> list_all (\<lambda>s. instrument_keys s \<noteq> [''usdjpy'']) slots)"
proof -
  define fx' where "fx' = (if fx = [] then default_fx_sessions ny now else fx)"
  have "\<exists>yss. emap equity_slots equity = Inr yss \<and> list_all slot_ok (concat yss)"
    using assms(2) by (intro emap_ok equity_slots_ok) (simp add: list_all_iff)
  then obtain yss where e: "emap equity_slots equity = Inr yss" "list_all slot_ok (concat yss)" by auto
  define ordered where "ordered = sort_key (\<lambda>s. (due_at s, kind s)) (fx_slots now fx' @ concat yss)"
  have ok: "list_all slot_ok ordered"
    using e(2) fx_slots_ok by (auto simp: ordered_def list_all_iff)
  have "sorted (map (\<lambda>s. (due_at s, kind s)) ordered)" unfolding ordered_def by simp
  then have sd: "sorted_wrt (\<lambda>a b. due_at a \<le> due_at b) ordered"
    unfolding sorted_map by (rule sorted_wrt_mono_rel [rotated]) (auto simp: less_eq_prod_def)
  obtain out where out: "apply_scheduler_scope ordered profile = Inr out"
    "list_all (scoped_ok profile scope) out" "sorted_wrt (\<lambda>a b. due_at a \<le> due_at b) out"
    using apply_scheduler_scope_ok [OF assms(1) ok] sd by auto
  have "build_schedule_slots ny (Aware now) equity fx profile = Inr out"
    using e(1) out(1) by (simp add: build_schedule_slots_def fx'_def ordered_def)
  moreover have "profile \<noteq> full_scope_profile \<Longrightarrow> list_all (\<lambda>s. instrument_keys s \<noteq> [''usdjpy'']) out"
    using out(2) scope_facts [OF assms(1)] by (auto simp: list_all_iff scoped_ok_def)
  ultimately show ?thesis using out by blast
qed

theorem schedule_is_scoped_witness:
  "\<exists>slots. build_schedule_slots (\<lambda>w. w + 5 * hour) (Aware 0)
      [equity_session (\<lambda>w. w + 5 * hour) (date_of 2024 1 2)] [] usdjpy_quarantine_profile = Inr slots
    \<and> list_all (\<lambda>s. instrument_keys s \<noteq> [''usdjpy'']) slots"
proof -
  obtain scope where s: "scheduler_scope usdjpy_quarantine_profile = Inr scope"
    by (auto simp: scheduler_scope_def scheduler_scopes_def full_scope_profile_def
        usdjpy_quarantine_profile_def candidate_ready_profile_def)
  have "list_all interval_ok [equity_session (\<lambda>w. w + 5 * hour) (date_of 2024 1 2)]"
    by (simp add: equity_interval_ok new_york_like_def)
  from schedule_is_scoped [OF s this, of "\<lambda>w. w + 5 * hour" 0 "[]"] show ?thesis
    by (auto simp: full_scope_profile_def usdjpy_quarantine_profile_def)
qed

end
