(* ===== verification/PeriodicDaemon.thy ===== *)
theory PeriodicDaemon
  imports ScheduleSlots SaxoClient "HOL-Library.Multiset"
begin

text \<open>
  The running part of \<open>market_db/periodic_update.py\<close>: what one slot's execution reports, how
  errors are classified, the terminal blockers, and the polling loop of the daemon. The
  update runner, the token source and the two loaders are parameters that act on a state
  \<open>'s\<close> of the world and may fail; SHA-256 of a blocker's canonical JSON is the
  parameter \<open>digest\<close>.
\<close>

section \<open>Gates\<close>

record 'v gate =
  g_status :: string
  g_lagging :: "(string \<times> 'v \<times> 'v option) list"
  g_observed :: "(string \<times> 'v) list"

definition lagging :: "(string \<times> 'v::linorder) list \<Rightarrow> (string \<times> 'v) list \<Rightarrow> (string \<times> 'v \<times> 'v option) list" where
  "lagging expected seen =
     map (\<lambda>(k, v). (k, v, map_of seen k))
       (filter (\<lambda>(k, v). case map_of seen k of None \<Rightarrow> True | Some w \<Rightarrow> w < v) expected)"

definition evaluate_expected_watermarks :: "(string \<times> utc) list \<Rightarrow> (string \<times> utc) list \<Rightarrow> utc gate" where
  "evaluate_expected_watermarks expected seen =
     \<lparr> g_status = (if lagging expected seen = [] then ''PASS'' else ''DATA_NOT_READY''),
       g_lagging = lagging expected seen, g_observed = seen \<rparr>"

definition evaluate_expected_sessions :: "(string \<times> date) list \<Rightarrow> (string \<times> date) list \<Rightarrow> date gate" where
  "evaluate_expected_sessions expected seen =
     \<lparr> g_status = (if lagging expected seen = [] then ''PASS'' else ''DATA_NOT_READY''),
       g_lagging = lagging expected seen, g_observed = seen \<rparr>"

section \<open>Error codes\<close>

definition retry_exhausted_prefix :: string where "retry_exhausted_prefix = ''RETRY_EXHAUSTED:''"

function error_domain_of :: "string \<Rightarrow> string" where
  "error_domain_of selected =
     (if selected = [] then ''none''
      else if starts_with retry_exhausted_prefix selected
      then error_domain_of (drop (length retry_exhausted_prefix) selected)
      else if starts_with ''AUTH_'' selected \<or> starts_with ''BLOCKED_TOKEN'' selected
              \<or> starts_with ''BLOCKED_PERMISSION'' selected then ''interface_auth''
      else if selected \<in> {''BLOCKED_RATE_LIMIT'', ''FAILED_NETWORK'', ''FAILED_SERVICE_UNAVAILABLE'',
                ''FAILED_INVALID_JSON'', ''FAILED_JSON_NOT_OBJECT'', ''FAILED_INSUFFICIENTPRIVILEGE''}
              \<or> starts_with ''FAILED_HTTP_'' selected then ''interface_operational''
      else if selected \<in> {''DATA_NOT_READY'', ''INSUFFICIENT_INCREMENTAL_CHART_DATA''} then ''data_not_ready''
      else if selected \<in> {''BLOCKED_CANONICAL_WATERMARK_SET'', ''BLOCKED_FULL_REFETCH_REQUIRED'',
                ''BLOCKED_BOUNDED_REVISION_REQUIRED'', ''BLOCKED_REPEATED_DATA_VERSION_CHANGE'',
                ''BLOCKED_REVISION_SCOPE_UNRESOLVED_FULL_REFETCH_REQUIRED''} then ''source_revision''
      else ''data_quality'')"
  by pat_completeness auto

termination
  by (relation "measure length") (auto simp: retry_exhausted_prefix_def)

declare error_domain_of.simps [simp del]

definition error_domain :: "string option \<Rightarrow> string" where
  "error_domain code = error_domain_of (case code of None \<Rightarrow> [] | Some s \<Rightarrow> s)"

definition transient_retry_codes :: "string set" where
  "transient_retry_codes = {''BLOCKED_RATE_LIMIT'', ''FAILED_NETWORK'', ''DATA_NOT_READY'',
     ''INSUFFICIENT_INCREMENTAL_CHART_DATA''}"

definition terminal_operator_codes :: "string set" where
  "terminal_operator_codes = {''BLOCKED_CANONICAL_WATERMARK_SET'', ''BLOCKED_FULL_REFETCH_REQUIRED'',
     ''BLOCKED_BOUNDED_REVISION_REQUIRED'', ''BLOCKED_REPEATED_DATA_VERSION_CHANGE'',
     ''BLOCKED_RECONCILIATION_LIMIT'', ''BLOCKED_REVISION_SCOPE_UNRESOLVED_FULL_REFETCH_REQUIRED'',
     ''BLOCKED_FULL_REFETCH_HISTORY_TRUNCATED'', ''BLOCKED_FULL_REFETCH_STATE_MISSING'',
     ''BLOCKED_FULL_REFETCH_NOT_REQUIRED''}"

datatype disposition = TRANSIENT_RETRY | OPERATOR_ACTION_REQUIRED

definition retry_disposition :: "string option \<Rightarrow> disposition" where
  "retry_disposition code =
     (let selected = (case code of None \<Rightarrow> [] | Some s \<Rightarrow> s)
      in if selected \<in> transient_retry_codes \<or> starts_with ''FAILED_HTTP_429'' selected
         then TRANSIENT_RETRY
         else if selected \<in> terminal_operator_codes \<or> starts_with ''BLOCKED_INSTRUMENT_DRIFT'' selected
         then OPERATOR_ACTION_REQUIRED
         else OPERATOR_ACTION_REQUIRED)"

section \<open>Job results\<close>

text \<open>What the update runner returns, and the record of one executed slot.\<close>

record RunResult =
  rr_status :: "string option"
  rr_error_code :: "string option"
  rr_warning_code :: "string option"
  rr_failed_keys :: "string list option"
  rr_failed_key :: "string option"
  rr_run_id :: "string option"
  rr_revision_event :: "string option"

record JobResult =
  j_status :: string
  j_error_code :: "string option"
  j_warning_code :: "string option"
  j_error_domain :: string
  j_slot :: ScheduleSlot
  j_failed_keys :: "string list option"
  j_watermark_gate :: "utc gate option"
  j_daily_gate :: "date gate option"
  j_steps :: "(string \<times> RunResult) list"

record 's exec_env =
  get_token :: "bool \<Rightarrow> 's \<Rightarrow> (exn + string) \<times> 's"
  run_incr :: "client \<Rightarrow> string list \<Rightarrow> string \<Rightarrow> 's \<Rightarrow> (exn + RunResult) \<times> 's"
  load_watermarks :: "string list \<Rightarrow> 's \<Rightarrow> (exn + (string \<times> utc) list) \<times> 's"
  load_sessions :: "string list \<Rightarrow> 's \<Rightarrow> (exn + (string \<times> date) list) \<times> 's"

definition or_else :: "string option \<Rightarrow> string \<Rightarrow> string" where
  "or_else v d = (case v of Some (c # cs) \<Rightarrow> c # cs | _ \<Rightarrow> d)"

definition make_client :: "'s exec_env \<Rightarrow> bool \<Rightarrow> 's \<Rightarrow> (exn + client) \<times> 's" where
  "make_client env force s =
     (case get_token env force s of
        (Inl e, s1) \<Rightarrow> (Inl e, s1)
      | (Inr token, s1) \<Rightarrow> (new_client token sim_base_url ''legacy_read'', s1))"

definition run_once :: "'s exec_env \<Rightarrow> ScheduleSlot \<Rightarrow> bool \<Rightarrow> 's \<Rightarrow> (exn + RunResult) \<times> 's" where
  "run_once env slot force s =
     (case make_client env force s of
        (Inl e, s1) \<Rightarrow> (Inl e, s1)
      | (Inr c, s1) \<Rightarrow> run_incr env c (instrument_keys slot) (trigger slot) s1)"

text \<open>\<open>type(exc).__name__.upper()\<close> for the exceptions of the program.\<close>

definition exn_name :: "exn \<Rightarrow> string" where
  "exn_name e = (case e of
       BarQualityError _ \<Rightarrow> ''BARQUALITYERROR'' | FXBidAboveAskError _ \<Rightarrow> ''FXBIDABOVEASKERROR''
     | InstrumentDriftError _ \<Rightarrow> ''INSTRUMENTDRIFTERROR'' | SaxoAPIError _ _ \<Rightarrow> ''SAXOAPIERROR''
     | SaxoAuthError _ \<Rightarrow> ''SAXOAUTHERROR''
     | TotalReturnContractError _ \<Rightarrow> ''TOTALRETURNCONTRACTERROR'' | ValueError _ \<Rightarrow> ''VALUEERROR''
     | RuntimeError _ \<Rightarrow> ''RUNTIMEERROR'' | TypeError \<Rightarrow> ''TYPEERROR'' | KeyError \<Rightarrow> ''KEYERROR''
     | AttributeError \<Rightarrow> ''ATTRIBUTEERROR'' | AssertionError \<Rightarrow> ''ASSERTIONERROR''
     | OverflowError \<Rightarrow> ''OVERFLOWERROR'' | IndexError \<Rightarrow> ''INDEXERROR'' | DatabaseError _ \<Rightarrow> ''DATABASEERROR'' | OSError \<Rightarrow> ''OSERROR'')"

definition job :: "ScheduleSlot \<Rightarrow> string \<Rightarrow> string option \<Rightarrow> string \<Rightarrow> (string \<times> RunResult) list \<Rightarrow> JobResult" where
  "job slot status code domain steps =
     \<lparr> j_status = status, j_error_code = code, j_warning_code = None, j_error_domain = domain,
       j_slot = slot, j_failed_keys = None, j_watermark_gate = None, j_daily_gate = None,
       j_steps = steps \<rparr>"

definition failed_job :: "ScheduleSlot \<Rightarrow> (string \<times> RunResult) list \<Rightarrow> exn \<Rightarrow> JobResult" where
  "failed_job slot steps e = (case e of
       SaxoAuthError code \<Rightarrow> job slot ''BLOCKED'' (Some code) (error_domain (Some code)) steps
     | _ \<Rightarrow> job slot ''FAILED'' (Some (''SCHEDULED_'' @ exn_name e)) ''interface_operational'' steps)"

text \<open>After the runs: the pending revision warning, the failure, or the two gates.\<close>

definition conclude ::
  "'s exec_env \<Rightarrow> ScheduleSlot \<Rightarrow> (string \<times> RunResult) list \<Rightarrow> RunResult \<Rightarrow> 's \<Rightarrow> JobResult \<times> 's" where
  "conclude env slot steps r s =
     (if rr_warning_code r = Some ''DATA_VERSION_REVISION_REVIEW_PENDING'' then
        (case load_watermarks env (instrument_keys slot) s of
           (Inl e, s1) \<Rightarrow> (failed_job slot steps e, s1)
         | (Inr seen, s1) \<Rightarrow>
             ((job slot ''PASS'' None ''none'' steps)
                \<lparr> j_warning_code := Some ''DATA_VERSION_REVISION_REVIEW_PENDING'',
                  j_watermark_gate := Some \<lparr> g_status = ''NOT_ADVANCED_REVISION_REVIEW_PENDING'',
                                             g_lagging = [], g_observed = seen \<rparr> \<rparr>, s1))
      else if rr_status r \<noteq> Some ''PASS'' then
        (let code = or_else (rr_error_code r) ''SCHEDULED_INCREMENTAL_FAILED''
         in (job slot (or_else (rr_status r) ''FAILED'') (Some code) (error_domain (Some code)) steps, s))
      else
        (case load_watermarks env (instrument_keys slot) s of
           (Inl e, s1) \<Rightarrow> (failed_job slot steps e, s1)
         | (Inr seen, s1) \<Rightarrow>
             (let wm = evaluate_expected_watermarks (expected_latest_complete slot) seen;
                  code = (if g_status wm = ''PASS'' then None else Some ''DATA_NOT_READY'')
              in if g_status wm = ''PASS'' \<and> expected_latest_session slot \<noteq> [] then
                   (case load_sessions env (instrument_keys slot) s1 of
                      (Inl e, s2) \<Rightarrow> (failed_job slot steps e, s2)
                    | (Inr sessions, s2) \<Rightarrow>
                        (let dg = evaluate_expected_sessions (expected_latest_session slot) sessions;
                             code' = (if g_status dg = ''PASS'' then None else Some ''DATA_NOT_READY'')
                         in ((job slot (g_status dg) code' (error_domain code') steps)
                               \<lparr> j_watermark_gate := Some wm, j_daily_gate := Some dg \<rparr>, s2)))
                 else ((job slot (g_status wm) code (error_domain code) steps)
                         \<lparr> j_watermark_gate := Some wm \<rparr>, s1))))"

definition execute :: "'s exec_env \<Rightarrow> ScheduleSlot \<Rightarrow> 's \<Rightarrow> JobResult \<times> 's" where
  "execute env slot s =
     (case run_once env slot False s of
        (Inl e, s1) \<Rightarrow> (failed_job slot [] e, s1)
      | (Inr r, s1) \<Rightarrow>
          if rr_error_code r = Some ''BLOCKED_TOKEN_EXPIRED'' then
            (case run_once env slot True s1 of
               (Inl e, s2) \<Rightarrow> (failed_job slot [(''incremental'', r)] e, s2)
             | (Inr r2, s2) \<Rightarrow>
                 conclude env slot [(''incremental'', r), (''incremental_after_token_refresh'', r2)] r2 s2)
          else conclude env slot [(''incremental'', r)] r s1)"

section \<open>Terminal blockers\<close>

record Blocker =
  b_status :: string
  b_signature :: string
  b_origin_slot :: string
  b_keys :: "string list"
  b_error_code :: string
  b_error_domain :: string
  b_revision :: string
  b_action :: string
  b_resume :: string
  b_first_at :: utc
  b_last_at :: utc
  b_count :: nat
  b_run_id :: "string option"

type_synonym digest = "string list \<Rightarrow> string \<Rightarrow> string \<Rightarrow> string"

definition sorted_keys :: "string list \<Rightarrow> string list" where
  "sorted_keys ks = sorted_list_of_set (set (map lower ks))"

definition terminal_blocker_signature :: "digest \<Rightarrow> string list \<Rightarrow> string \<Rightarrow> string \<Rightarrow> string" where
  "terminal_blocker_signature dig ks code revision = dig (sorted_keys ks) code revision"

definition operator_recovery :: "string \<Rightarrow> string \<times> string" where
  "operator_recovery code =
     (if code = ''BLOCKED_CANONICAL_WATERMARK_SET'' then
        (''run guarded reconcile while the scheduler is stopped'',
         ''watermark revision changes after reconcile/full-refetch'')
      else if code = ''BLOCKED_FULL_REFETCH_REQUIRED'' then
        (''run guarded single-instrument full-refetch via reconcile'',
         ''watermark DataVersion and revision change'')
      else if code = ''BLOCKED_BOUNDED_REVISION_REQUIRED'' then
        (''run bounded single-instrument DataVersion reconciliation'',
         ''bounded revision APPLIED or instrument-scoped full-refetch fallback completed'')
      else if code = ''BLOCKED_REVISION_SCOPE_UNRESOLVED_FULL_REFETCH_REQUIRED'' then
        (''run guarded single-instrument full-refetch; bounded comparison was inconclusive'',
         ''guarded full-refetch PASS for the affected instrument'')
      else if starts_with ''BLOCKED_INSTRUMENT_DRIFT'' code then
        (''review the frozen canonical instrument identity; do not substitute symbols'',
         ''canonical registry or reviewed provider identity changes'')
      else
        (''review the recorded blocker and complete the documented recovery'',
         ''watermark revision or operator-reviewed prerequisite changes''))"

fun failed_in_steps :: "(string \<times> RunResult) list \<Rightarrow> string list option" where
  "failed_in_steps [] = None"
| "failed_in_steps ((_, r) # rest) =
     (case rr_failed_keys r of
        Some (k # ks) \<Rightarrow> Some (sorted_keys (k # ks))
      | _ \<Rightarrow> (case rr_failed_key r of
                Some (c # cs) \<Rightarrow> Some [lower (c # cs)]
              | _ \<Rightarrow> failed_in_steps rest))"

definition failed_instrument_keys :: "ScheduleSlot \<Rightarrow> JobResult \<Rightarrow> string list" where
  "failed_instrument_keys slot result =
     (case j_failed_keys result of
        Some (k # ks) \<Rightarrow> sorted_keys (k # ks)
      | _ \<Rightarrow> (case failed_in_steps (rev (j_steps result)) of
                Some ks \<Rightarrow> ks | None \<Rightarrow> sorted_keys (instrument_keys slot)))"

definition last_run_id :: "(string \<times> RunResult) list \<Rightarrow> string option" where
  "last_run_id steps =
     (case find (\<lambda>(_, r). rr_run_id r \<noteq> None) (rev steps) of None \<Rightarrow> None | Some (_, r) \<Rightarrow> rr_run_id r)"

definition record_terminal_blocker ::
  "digest \<Rightarrow> Blocker option \<Rightarrow> ScheduleSlot \<Rightarrow> JobResult \<Rightarrow> string \<Rightarrow> utc \<Rightarrow> Blocker" where
  "record_terminal_blocker dig previous slot result revision now =
     (let code = or_else (j_error_code result) ''SCHEDULED_INCREMENTAL_FAILED'';
          affected = failed_instrument_keys slot result;
          sig = terminal_blocker_signature dig affected code revision;
          same = (case previous of None \<Rightarrow> False | Some p \<Rightarrow> b_signature p = sig);
          (action, resume) = operator_recovery code
      in \<lparr> b_status = ''INSTRUMENT_DEGRADED_OPERATOR_ACTION_REQUIRED'', b_signature = sig,
           b_origin_slot = slot_id slot, b_keys = affected, b_error_code = code,
           b_error_domain = (if j_error_domain result = [] then error_domain (Some code)
                             else j_error_domain result),
           b_revision = revision, b_action = action, b_resume = resume,
           b_first_at = (if same then b_first_at (the previous) else now), b_last_at = now,
           b_count = (if same then b_count (the previous) + 1 else 1),
           b_run_id = last_run_id (j_steps result) \<rparr>)"

definition shares_instrument :: "string list \<Rightarrow> string list \<Rightarrow> bool" where
  "shares_instrument a b = list_ex (\<lambda>k. k \<in> set b) a"

definition terminal_blocker_still_applies :: "Blocker \<Rightarrow> ScheduleSlot \<Rightarrow> string \<Rightarrow> bool" where
  "terminal_blocker_still_applies b slot revision =
     (if b_origin_slot b \<noteq> slot_id slot \<and> b_error_code b = ''RETRY_EXHAUSTED:DATA_NOT_READY'' then False
      else if b_origin_slot b \<noteq> slot_id slot
              \<and> b_error_domain b \<in> {''interface_auth'', ''interface_operational''} then False
      else b_status b \<in> {''BLOCKED_OPERATOR_ACTION_REQUIRED'', ''INSTRUMENT_DEGRADED_OPERATOR_ACTION_REQUIRED''}
           \<and> shares_instrument (b_keys b) (instrument_keys slot) \<and> b_revision b = revision)"

section \<open>Choosing the slot\<close>

definition max_catchup_age :: int where "max_catchup_age = 6 * hour"
definition completed_slot_history_limit :: nat where "completed_slot_history_limit = 1024"
definition max_transient_slot_attempts :: nat where "max_transient_slot_attempts = 4"
definition retry_wait :: int where "retry_wait = 30 * second"

definition lane :: "ScheduleSlot \<Rightarrow> string \<times> string list" where
  "lane s = (kind s, sort (instrument_keys s))"

definition eligible :: "utc \<Rightarrow> string set \<Rightarrow> ScheduleSlot \<Rightarrow> bool" where
  "eligible now completed s =
     (\<not> (slot_id s \<in> completed \<or> now < due_at s) \<and> \<not> max_catchup_age < now - due_at s)"

definition keep_latest ::
  "ScheduleSlot \<Rightarrow> ((string \<times> string list) \<times> ScheduleSlot) list \<Rightarrow>
   ((string \<times> string list) \<times> ScheduleSlot) list" where
  "keep_latest s cs =
     (case map_of cs (lane s) of
        None \<Rightarrow> dict_put (lane s) s cs
      | Some p \<Rightarrow> if due_at p < due_at s then dict_put (lane s) s cs else cs)"

definition latest_due_per_kind :: "ScheduleSlot list \<Rightarrow> utc \<Rightarrow> string set \<Rightarrow> ScheduleSlot list" where
  "latest_due_per_kind slots now completed =
     sort_key due_at (map snd (fold (\<lambda>s cs. if eligible now completed s then keep_latest s cs else cs) slots []))"

definition completed_through :: "ScheduleSlot list \<Rightarrow> ScheduleSlot \<Rightarrow> string set" where
  "completed_through slots selected =
     slot_id ` set (filter (\<lambda>s. kind s = kind selected
        \<and> sort (instrument_keys s) = sort (instrument_keys selected) \<and> due_at s \<le> due_at selected) slots)"

fun move_to_end :: "string list \<Rightarrow> string list \<Rightarrow> string list" where
  "move_to_end selected [] = selected"
| "move_to_end selected (v # vs) = move_to_end (remove1 v selected @ [v]) vs"

definition append_completed_slots :: "string list \<Rightarrow> string list \<Rightarrow> string list" where
  "append_completed_slots previous additions =
     (let selected = move_to_end [] (previous @ additions)
      in drop (length selected - completed_slot_history_limit) selected)"

definition slot_sla_status :: "ScheduleSlot \<Rightarrow> utc \<Rightarrow> string \<Rightarrow> string" where
  "slot_sla_status slot started status =
     (if status \<noteq> ''PASS'' then (if deadline slot < started then ''MISS'' else ''BLOCKED'')
      else if started \<le> deadline slot then ''PASS'' else ''MISS'')"

type_synonym blockers = "(string \<times> Blocker) list"

definition dict_pop :: "'k \<Rightarrow> ('k \<times> 'v) list \<Rightarrow> ('k \<times> 'v) list" where
  "dict_pop k xs = filter (\<lambda>(a, _). a \<noteq> k) xs"

text \<open>The scan of the stored blockers for one candidate: it stops at the first that applies and
  drops the others that concern the candidate's instruments.\<close>

fun scan_blockers ::
  "(string list \<Rightarrow> string) \<Rightarrow> utc \<Rightarrow> ScheduleSlot \<Rightarrow> blockers \<Rightarrow> blockers \<Rightarrow> bool \<times> blockers" where
  "scan_blockers rv now c [] bs = (False, bs)"
| "scan_blockers rv now c ((k, b) # rest) bs =
     (if \<not> shares_instrument (b_keys b) (instrument_keys c) then scan_blockers rv now c rest bs
      else if terminal_blocker_still_applies b c (rv (b_keys b))
      then (True, dict_put k (b\<lparr> b_last_at := now, b_count := b_count b + 1 \<rparr>) bs)
      else scan_blockers rv now c rest (dict_pop k bs))"

fun select_slot ::
  "(string list \<Rightarrow> string) \<Rightarrow> utc \<Rightarrow> (string \<times> utc) list \<Rightarrow> ScheduleSlot list \<Rightarrow> blockers \<Rightarrow>
   ScheduleSlot option \<times> blockers" where
  "select_slot rv now next_attempt [] bs = (None, bs)"
| "select_slot rv now next_attempt (c # cs) bs =
     (case scan_blockers rv now c bs bs of
        (True, bs1) \<Rightarrow> select_slot rv now next_attempt cs bs1
      | (False, bs1) \<Rightarrow>
          (case map_of next_attempt (slot_id c) of
             Some t \<Rightarrow> if t \<le> now then (Some c, bs1) else select_slot rv now next_attempt cs bs1
           | None \<Rightarrow> (Some c, bs1)))"

section \<open>The daemon\<close>

record retry_info =
  ri_disposition :: string
  ri_attempt :: nat
  ri_next :: "utc option"

record daemon =
  d_service_status :: string
  d_checked_at :: utc
  d_next_slots :: "ScheduleSlot list"
  d_auth :: string
  d_completed :: "string set"
  d_completed_order :: "string list"
  d_next_attempt :: "(string \<times> utc) list"
  d_blockers :: blockers
  d_transient :: "(string \<times> nat) list"
  d_last_job :: "(JobResult \<times> string \<times> retry_info option) option"
  d_degraded :: "string list"

record 's daemon_env =
  exec :: "'s exec_env"
  schedule :: "utc \<Rightarrow> 's \<Rightarrow> (exn + ScheduleSlot list) \<times> 's"
  revision :: "string list \<Rightarrow> 's \<Rightarrow> string"
  auth_status :: "'s \<Rightarrow> (exn + string) \<times> 's"
  signature_digest :: digest

text \<open>Starting from the stored state: the completed slots, the blockers with their error domain
  classified anew, and the attempt counters; no waiting time survives a restart.\<close>

definition initial_daemon :: "utc \<Rightarrow> daemon" where
  "initial_daemon now =
     \<lparr> d_service_status = ''RUNNING'', d_checked_at = now, d_next_slots = [], d_auth = [],
       d_completed = {}, d_completed_order = [], d_next_attempt = [], d_blockers = [],
       d_transient = [], d_last_job = None, d_degraded = [] \<rparr>"

definition restart_daemon :: "daemon \<Rightarrow> daemon" where
  "restart_daemon stored =
     stored\<lparr> d_service_status := ''RUNNING'',
             d_completed := set (d_completed_order stored),
             d_completed_order := append_completed_slots [] (d_completed_order stored),
             d_next_attempt := [],
             d_blockers := map (\<lambda>(k, b). (k, b\<lparr> b_error_domain := error_domain (Some (b_error_code b)) \<rparr>))
                             (d_blockers stored) \<rparr>"

definition refresh_auth :: "'s daemon_env \<Rightarrow> daemon \<Rightarrow> 's \<Rightarrow> (exn + daemon) \<times> 's" where
  "refresh_auth env d s =
     (case auth_status env s of
        (Inr status, s1) \<Rightarrow> (Inr (d\<lparr> d_auth := status \<rparr>), s1)
      | (Inl (SaxoAuthError code), s1) \<Rightarrow> (Inr (d\<lparr> d_auth := code \<rparr>), s1)
      | (Inl e, s1) \<Rightarrow> (Inl e, s1))"

definition drop_resolved :: "(string list \<Rightarrow> string) \<Rightarrow> blockers \<Rightarrow> blockers" where
  "drop_resolved rv bs =
     filter (\<lambda>(k, b). b_keys b \<noteq> [] \<and> b_revision b = rv (b_keys b)) bs"

definition on_pass :: "ScheduleSlot list \<Rightarrow> ScheduleSlot \<Rightarrow> daemon \<Rightarrow> daemon" where
  "on_pass slots selected d =
     (let newly = completed_through slots selected;
          order = map slot_id (filter (\<lambda>s. slot_id s \<in> newly) slots)
      in d\<lparr> d_completed := d_completed d \<union> newly,
            d_completed_order := append_completed_slots (d_completed_order d) order,
            d_next_attempt := dict_pop (slot_id selected) (d_next_attempt d),
            d_transient := dict_pop (slot_id selected) (d_transient d),
            d_blockers := filter (\<lambda>(k, b). \<not> shares_instrument (b_keys b) (instrument_keys selected))
                            (d_blockers d) \<rparr>)"

definition add_blocker :: "Blocker \<Rightarrow> daemon \<Rightarrow> daemon" where
  "add_blocker b d = d\<lparr> d_blockers := dict_put (b_signature b) b (d_blockers d) \<rparr>"

definition on_failure ::
  "digest \<Rightarrow> (string list \<Rightarrow> string) \<Rightarrow> ScheduleSlot \<Rightarrow> JobResult \<Rightarrow> utc \<Rightarrow> daemon \<Rightarrow>
   daemon \<times> retry_info option" where
  "on_failure dig rv selected result now d =
     (case retry_disposition (j_error_code result) of
        TRANSIENT_RETRY \<Rightarrow>
          (let attempts = (case map_of (d_transient d) (slot_id selected) of None \<Rightarrow> 0 | Some n \<Rightarrow> n) + 1;
               d1 = d\<lparr> d_transient := dict_put (slot_id selected) attempts (d_transient d) \<rparr>
           in if attempts < max_transient_slot_attempts then
                (d1\<lparr> d_next_attempt := dict_put (slot_id selected) (now + retry_wait) (d_next_attempt d1) \<rparr>,
                 Some \<lparr> ri_disposition = ''TRANSIENT_RETRY'', ri_attempt = attempts,
                        ri_next = Some (now + retry_wait) \<rparr>)
              else
                (let exhausted = result\<lparr> j_error_code :=
                       Some (retry_exhausted_prefix @ (case j_error_code result of None \<Rightarrow> ''None'' | Some c \<Rightarrow> c)) \<rparr>;
                     affected = failed_instrument_keys selected exhausted
                 in (add_blocker (record_terminal_blocker dig None selected exhausted (rv affected) now) d1,
                     Some \<lparr> ri_disposition = ''RETRY_EXHAUSTED_OPERATOR_ACTION_REQUIRED'',
                            ri_attempt = attempts, ri_next = None \<rparr>)))
      | OPERATOR_ACTION_REQUIRED \<Rightarrow>
          (let d1 = d\<lparr> d_next_attempt := dict_pop (slot_id selected) (d_next_attempt d),
                      d_transient := dict_pop (slot_id selected) (d_transient d) \<rparr>;
               affected = failed_instrument_keys selected result
           in (add_blocker (record_terminal_blocker dig None selected result (rv affected) now) d1, None)))"

definition publish :: "daemon \<Rightarrow> daemon" where
  "publish d =
     (if d_blockers d \<noteq> []
      then d\<lparr> d_service_status := ''RUNNING_DEGRADED'',
              d_degraded := sorted_list_of_set (\<Union>(k, b)\<in>set (d_blockers d). set (b_keys b)) \<rparr>
      else d\<lparr> d_service_status := ''RUNNING'', d_degraded := [] \<rparr>)"

definition run_selected ::
  "'s daemon_env \<Rightarrow> ScheduleSlot list \<Rightarrow> utc \<Rightarrow> ScheduleSlot \<Rightarrow> daemon \<Rightarrow> 's \<Rightarrow> daemon \<times> 's" where
  "run_selected env slots now selected d s =
     (case execute (exec env) selected s of
        (result, s1) \<Rightarrow>
          let sla = slot_sla_status selected now (j_status result)
          in if j_status result = ''PASS''
             then ((on_pass slots selected d)\<lparr> d_last_job := Some (result, sla, None) \<rparr>, s1)
             else (case on_failure (signature_digest env) (\<lambda>ks. revision env ks s1) selected result now d of
                     (d1, retry) \<Rightarrow> (d1\<lparr> d_last_job := Some (result, sla, retry) \<rparr>, s1)))"

definition poll_slots ::
  "'s daemon_env \<Rightarrow> ScheduleSlot list \<Rightarrow> utc \<Rightarrow> daemon \<Rightarrow> 's \<Rightarrow> daemon \<times> 's" where
  "poll_slots env slots now d s =
     (let rv = (\<lambda>ks. revision env ks s)
      in case select_slot rv now (d_next_attempt d) (latest_due_per_kind slots now (d_completed d))
                (drop_resolved rv (d_blockers d)) of
           (None, bs) \<Rightarrow> (d\<lparr> d_blockers := bs \<rparr>, s)
         | (Some c, bs) \<Rightarrow> run_selected env slots now c (d\<lparr> d_blockers := bs \<rparr>) s)"

text \<open>One turn of the polling loop; an exception of the schedule or of the token source leaves it.\<close>

definition daemon_poll :: "'s daemon_env \<Rightarrow> utc \<Rightarrow> daemon \<Rightarrow> 's \<Rightarrow> (exn + daemon) \<times> 's" where
  "daemon_poll env now d s =
     (case schedule env now s of
        (Inl e, s1) \<Rightarrow> (Inl e, s1)
      | (Inr slots, s1) \<Rightarrow>
          (case refresh_auth env (d\<lparr> d_checked_at := now,
                  d_next_slots := take 6 (filter (\<lambda>x. now < due_at x) slots) \<rparr>) s1 of
             (Inl e, s2) \<Rightarrow> (Inl e, s2)
           | (Inr d1, s2) \<Rightarrow>
               (case poll_slots env slots now d1 s2 of (d2, s3) \<Rightarrow> (Inr (publish d2), s3))))"

section \<open>What an execution reports\<close>

definition reached :: "(string \<times> 'v::linorder) list \<Rightarrow> (string \<times> 'v) list \<Rightarrow> bool" where
  "reached expected have_v \<longleftrightarrow>
     (\<forall>(k, v)\<in>set expected. \<exists>w. map_of have_v k = Some w \<and> v \<le> w)"

lemma lagging_Nil: "lagging expected have_v = [] \<longleftrightarrow> reached expected have_v"
  by (auto simp: lagging_def reached_def filter_empty_conv split: option.splits)

definition gates_passed :: "ScheduleSlot \<Rightarrow> JobResult \<Rightarrow> bool" where
  "gates_passed slot r \<longleftrightarrow>
     (\<exists>wm. j_watermark_gate r = Some wm \<and> reached (expected_latest_complete slot) (g_observed wm))
     \<and> (expected_latest_session slot \<noteq> [] \<longrightarrow>
          (\<exists>dg. j_daily_gate r = Some dg \<and> reached (expected_latest_session slot) (g_observed dg)))"

lemma failed_job_not_pass [simp]: "j_status (failed_job slot steps e) \<noteq> ''PASS''"
  by (simp add: failed_job_def job_def split: exn.splits)

lemma failed_job_steps [simp]: "j_steps (failed_job slot steps e) = steps"
  by (simp add: failed_job_def job_def split: exn.splits)

lemma or_else_pass: "v \<noteq> Some ''PASS'' \<Longrightarrow> or_else v ''FAILED'' \<noteq> ''PASS''"
  by (auto simp: or_else_def split: option.splits list.splits)

lemma conclude_steps: "j_steps (fst (conclude env slot steps r s)) = steps"
  by (auto simp: conclude_def Let_def job_def split: prod.splits sum.splits)

lemma conclude_pass:
  assumes "j_status (fst (conclude env slot steps r s)) = ''PASS''"
  shows "rr_warning_code r = Some ''DATA_VERSION_REVISION_REVIEW_PENDING''
         \<and> j_warning_code (fst (conclude env slot steps r s)) = Some ''DATA_VERSION_REVISION_REVIEW_PENDING''
       \<or> rr_status r = Some ''PASS'' \<and> gates_passed slot (fst (conclude env slot steps r s))"
  using assms or_else_pass [of "rr_status r"]
  by (auto simp: conclude_def Let_def job_def gates_passed_def evaluate_expected_watermarks_def
      evaluate_expected_sessions_def lagging_Nil split: prod.splits sum.splits if_splits)

text \<open>C32: An executed slot reports PASS only when the last update run passed and every expected
  bar (and, for the daily lane, every expected session) is reached by the stored watermarks, or
  when that run left a revision for review; it runs the update at most twice, the second time
  only after an expired token.\<close>

theorem execute_passes_only_on_evidence:
  "(j_status (fst (execute env slot s)) = ''PASS'' \<longrightarrow>
      (\<exists>steps opn r. j_steps (fst (execute env slot s)) = steps @ [(opn, r)]
        \<and> (rr_warning_code r = Some ''DATA_VERSION_REVISION_REVIEW_PENDING''
             \<and> j_warning_code (fst (execute env slot s)) = Some ''DATA_VERSION_REVISION_REVIEW_PENDING''
           \<or> rr_status r = Some ''PASS'' \<and> gates_passed slot (fst (execute env slot s)))))
   \<and> length (j_steps (fst (execute env slot s))) \<le> 2
   \<and> (\<forall>a b. j_steps (fst (execute env slot s)) = [a, b] \<longrightarrow>
        rr_error_code (snd a) = Some ''BLOCKED_TOKEN_EXPIRED'')"
proof (cases "run_once env slot False s")
  case (Pair res s1)
  show ?thesis
  proof (cases res)
    case (Inl e)
    then show ?thesis using Pair by (simp add: execute_def)
  next
    case (Inr r)
    show ?thesis
    proof (cases "rr_error_code r = Some ''BLOCKED_TOKEN_EXPIRED''")
      case False
      then have "execute env slot s = conclude env slot [(''incremental'', r)] r s1"
        using Pair Inr by (simp add: execute_def)
      then show ?thesis
        using conclude_pass [of env slot "[(''incremental'', r)]" r s1] by (auto simp: conclude_steps)
    next
      case True
      show ?thesis
      proof (cases "run_once env slot True s1")
        case (Pair res2 s2)
        show ?thesis
        proof (cases res2)
          case (Inl e)
          then show ?thesis
            using Pair \<open>run_once env slot False s = (res, s1)\<close> Inr True by (simp add: execute_def)
        next
          case (Inr r2)
          define st where "st = [(''incremental'', r), (''incremental_after_token_refresh'', r2)]"
          have eq: "execute env slot s = conclude env slot st r2 s2"
            using Pair \<open>run_once env slot False s = (res, s1)\<close> \<open>res = Inr r\<close> Inr True
            by (simp add: execute_def st_def)
          show ?thesis
            using conclude_pass [of env slot st r2 s2] True unfolding eq
            by (auto simp: conclude_steps st_def)
        qed
      qed
    qed
  qed
qed

section \<open>The latest due slot of each lane\<close>

definition lanes_ok :: "(ScheduleSlot \<Rightarrow> bool) \<Rightarrow> ScheduleSlot list \<Rightarrow>
   ((string \<times> string list) \<times> ScheduleSlot) list \<Rightarrow> bool" where
  "lanes_ok P seen cs \<longleftrightarrow>
     distinct (map fst cs)
     \<and> (\<forall>(l, x)\<in>set cs. l = lane x \<and> x \<in> set seen \<and> P x)
     \<and> (\<forall>y\<in>set seen. P y \<longrightarrow> (\<exists>x. map_of cs (lane y) = Some x \<and> due_at y \<le> due_at x))"

lemma dict_put_keys: "fst ` set (dict_put k v xs) = insert k (fst ` set xs)"
proof (induction xs)
  case (Cons x xs)
  then show ?case by (cases x; cases "fst x = k") auto
qed simp

lemma dict_put_distinct: "distinct (map fst xs) \<Longrightarrow> distinct (map fst (dict_put k v xs))"
proof (induction xs)
  case (Cons x xs)
  then show ?case using dict_put_keys [of k v xs] by (cases x; cases "fst x = k") auto
qed simp

lemma dict_put_map_of [simp]: "map_of (dict_put k v xs) = (map_of xs)(k \<mapsto> v)"
proof (induction xs)
  case (Cons x xs)
  then show ?case by (cases x; cases "fst x = k") (auto simp: fun_eq_iff)
qed simp

lemma dict_put_mem:
  assumes "distinct (map fst xs)"
  shows "(a, b) \<in> set (dict_put k v xs) \<longleftrightarrow> (a = k \<and> b = v) \<or> (a \<noteq> k \<and> (a, b) \<in> set xs)"
proof -
  have "(a, b) \<in> set (dict_put k v xs) \<longleftrightarrow> map_of (dict_put k v xs) a = Some b"
    using dict_put_distinct [OF assms, of k v] by (simp del: dict_put_map_of)
  moreover have "(a, b) \<in> set xs \<longleftrightarrow> map_of xs a = Some b" using assms by simp
  ultimately show ?thesis by auto
qed

lemma keep_latest_ok:
  assumes "lanes_ok P seen cs" and "P s"
  shows "lanes_ok P (seen @ [s]) (keep_latest s cs)"
proof -
  have d: "distinct (map fst cs)" using assms(1) by (simp add: lanes_ok_def)
  have put: "lanes_ok P (seen @ [s]) (dict_put (lane s) s cs)"
    if "\<And>p. map_of cs (lane s) = Some p \<Longrightarrow> due_at p < due_at s"
    unfolding lanes_ok_def
  proof (intro conjI)
    show "distinct (map fst (dict_put (lane s) s cs))" using d by (rule dict_put_distinct)
    show "\<forall>(l, x)\<in>set (dict_put (lane s) s cs). l = lane x \<and> x \<in> set (seen @ [s]) \<and> P x"
      using assms by (auto simp: dict_put_mem [OF d] lanes_ok_def)
    show "\<forall>y\<in>set (seen @ [s]). P y \<longrightarrow>
        (\<exists>x. map_of (dict_put (lane s) s cs) (lane y) = Some x \<and> due_at y \<le> due_at x)"
    proof (intro ballI impI)
      fix y assume y: "y \<in> set (seen @ [s])" "P y"
      show "\<exists>x. map_of (dict_put (lane s) s cs) (lane y) = Some x \<and> due_at y \<le> due_at x"
      proof (cases "y = s")
        case False
        then obtain x where "map_of cs (lane y) = Some x" "due_at y \<le> due_at x"
          using y assms(1) by (auto simp: lanes_ok_def)
        then show ?thesis using that [of x] by (cases "lane y = lane s") auto
      qed simp
    qed
  qed
  show ?thesis
  proof (cases "map_of cs (lane s)")
    case None
    then show ?thesis using put by (simp add: keep_latest_def)
  next
    case (Some p)
    show ?thesis
    proof (cases "due_at p < due_at s")
      case True
      then show ?thesis using put Some by (simp add: keep_latest_def)
    next
      case False
      have "\<exists>x. map_of cs (lane y) = Some x \<and> due_at y \<le> due_at x"
        if "y \<in> set (seen @ [s])" "P y" for y
        using that False Some assms(1) unfolding lanes_ok_def by (cases "y = s") auto
      then have "lanes_ok P (seen @ [s]) cs" using assms(1) unfolding lanes_ok_def by auto
      then show ?thesis using False Some by (simp add: keep_latest_def)
    qed
  qed
qed

lemma latest_fold_ok:
  "lanes_ok P slots (fold (\<lambda>s cs. if P s then keep_latest s cs else cs) slots [])"
proof (induction slots rule: rev_induct)
  case Nil
  then show ?case by (simp add: lanes_ok_def)
next
  case (snoc s slots)
  let ?cs = "fold (\<lambda>s cs. if P s then keep_latest s cs else cs) slots []"
  show ?case
  proof (cases "P s")
    case True
    then show ?thesis using keep_latest_ok [OF snoc] by simp
  next
    case False
    then show ?thesis using snoc by (auto simp: lanes_ok_def)
  qed
qed

text \<open>The candidates of a poll are, in order of due time, one slot per lane: a slot of the
  schedule that is due, not completed and at most six hours late, and no other such slot of its
  lane is due later; every lane with such a slot is represented.\<close>

theorem latest_due_spec:
  "sorted (map due_at (latest_due_per_kind slots now completed))
   \<and> distinct (map lane (latest_due_per_kind slots now completed))
   \<and> (\<forall>x\<in>set (latest_due_per_kind slots now completed).
        x \<in> set slots \<and> eligible now completed x
        \<and> (\<forall>y\<in>set slots. eligible now completed y \<and> lane y = lane x \<longrightarrow> due_at y \<le> due_at x))
   \<and> (\<forall>y\<in>set slots. eligible now completed y \<longrightarrow>
        (\<exists>x\<in>set (latest_due_per_kind slots now completed). lane x = lane y))"
proof -
  define cs where "cs = fold (\<lambda>s cs. if eligible now completed s then keep_latest s cs else cs) slots []"
  have ok: "lanes_ok (eligible now completed) slots cs" unfolding cs_def by (rule latest_fold_ok)
  have keys: "distinct (map fst cs)" using ok by (simp add: lanes_ok_def)
  have rows: "l = lane x \<and> x \<in> set slots \<and> eligible now completed x" if "(l, x) \<in> set cs" for l x
    using ok that by (auto simp: lanes_ok_def)
  have cover: "\<exists>x. map_of cs (lane y) = Some x \<and> due_at y \<le> due_at x"
    if "y \<in> set slots" "eligible now completed y" for y
    using ok that unfolding lanes_ok_def by blast
  have lanes: "map lane (map snd cs) = map fst cs" using rows by auto
  have dist: "distinct (map lane (map snd cs))" unfolding lanes by (rule keys)
  have perm: "mset (latest_due_per_kind slots now completed) = mset (map snd cs)"
    by (simp add: latest_due_per_kind_def cs_def)
  have st: "set (latest_due_per_kind slots now completed) = snd ` set cs"
    using mset_eq_setD [OF perm] by (simp only: list.set_map)
  have "mset (map lane (latest_due_per_kind slots now completed)) = mset (map lane (map snd cs))"
    by (simp only: mset_map perm)
  then have "distinct (map lane (latest_due_per_kind slots now completed))"
    using dist mset_eq_imp_distinct_iff by blast
  moreover have "x \<in> set slots \<and> eligible now completed x
        \<and> (\<forall>y\<in>set slots. eligible now completed y \<and> lane y = lane x \<longrightarrow> due_at y \<le> due_at x)"
    if mem: "x \<in> snd ` set cs" for x
  proof -
    obtain l where l: "(l, x) \<in> set cs" using mem by auto
    then have x: "(lane x, x) \<in> set cs" "x \<in> set slots" "eligible now completed x"
      using rows [OF l] by simp_all
    have "map_of cs (lane x) = Some x" using x(1) keys by simp
    then have "due_at y \<le> due_at x"
      if "y \<in> set slots" "eligible now completed y" "lane y = lane x" for y
      using cover [OF that(1,2)] that(3) by simp
    then show ?thesis using x by blast
  qed
  moreover have "\<exists>x\<in>snd ` set cs. lane x = lane y"
    if mem: "y \<in> set slots" "eligible now completed y" for y
  proof -
    obtain x where "map_of cs (lane y) = Some x" using cover [OF mem] by blast
    then have "(lane y, x) \<in> set cs" by (rule map_of_SomeD)
    moreover have "lane x = lane y" using rows [OF calculation] by simp
    ultimately show ?thesis by (metis imageI snd_conv)
  qed
  moreover have "sorted (map due_at (latest_due_per_kind slots now completed))"
    by (simp add: latest_due_per_kind_def)
  ultimately show ?thesis unfolding st by (intro conjI ballI impI) blast+
qed

section \<open>The completion history\<close>

lemma move_to_end_snoc: "move_to_end sel (vs @ [v]) = remove1 v (move_to_end sel vs) @ [v]"
  by (induction vs arbitrary: sel) auto

lemma move_to_end_set:
  "distinct sel \<Longrightarrow> distinct (move_to_end sel vs) \<and> set (move_to_end sel vs) = set sel \<union> set vs"
proof (induction vs rule: rev_induct)
  case (snoc v vs)
  then show ?case by (auto simp: move_to_end_snoc)
qed simp

lemma move_to_end_append:
  assumes "distinct sel" and "distinct a"
  shows "move_to_end sel (p @ a) = filter (\<lambda>x. x \<notin> set a) (move_to_end sel p) @ a"
  using assms(2)
proof (induction a rule: rev_induct)
  case (snoc v vs)
  have d: "distinct (move_to_end sel p)" using move_to_end_set [OF assms(1)] by blast
  have "move_to_end sel (p @ vs @ [v]) = remove1 v (move_to_end sel (p @ vs)) @ [v]"
    using move_to_end_snoc [of sel "p @ vs" v] by simp
  also have "\<dots> = remove1 v (filter (\<lambda>x. x \<notin> set vs) (move_to_end sel p) @ vs) @ [v]"
    using snoc by simp
  also have "\<dots> = filter (\<lambda>x. x \<notin> set (vs @ [v])) (move_to_end sel p) @ vs @ [v]"
  proof -
    have "remove1 v (filter (\<lambda>x. x \<notin> set vs) l @ vs) = filter (\<lambda>x. x \<notin> set (vs @ [v])) l @ vs"
      if "distinct l" for l
    proof (cases "v \<in> set l")
      case True
      then have "remove1 v (filter (\<lambda>x. x \<notin> set vs) l @ vs) = remove1 v (filter (\<lambda>x. x \<notin> set vs) l) @ vs"
        using snoc.prems by (simp add: remove1_append)
      also have "remove1 v (filter (\<lambda>x. x \<notin> set vs) l) = filter (\<lambda>x. x \<notin> set (vs @ [v])) l"
        using that by (auto simp: distinct_remove1_removeAll removeAll_filter_not_eq filter_filter intro!: filter_cong)
      finally show ?thesis .
    next
      case False
      then have "filter (\<lambda>x. x \<notin> set (vs @ [v])) l = filter (\<lambda>x. x \<notin> set vs) l"
        by (auto intro!: filter_cong)
      then show ?thesis using False snoc.prems by (simp add: remove1_append remove1_idem)
    qed
    from this [OF d] show ?thesis by simp
  qed
  finally show ?case .
qed simp

lemma drop_keeps_tail:
  assumes "length a \<le> n"
  shows "\<exists>kept. drop (length (f @ a) - n) (f @ a) = kept @ a"
proof -
  have "length (f @ a) - n - length f = 0" using assms by simp
  then have "drop (length (f @ a) - n) (f @ a) = drop (length (f @ a) - n) f @ a"
    by (simp only: drop_append drop0)
  then show ?thesis by blast
qed

text \<open>The stored completion history has no duplicates and at most 1024 entries; it holds only
  old and new slots, all of them while they fit, and the newly completed slots, if they fit, are
  its tail in schedule order, so the oldest completions are the ones forgotten.\<close>

theorem completion_history:
  "distinct (append_completed_slots old new) \<and> length (append_completed_slots old new) \<le> 1024
   \<and> set (append_completed_slots old new) \<subseteq> set old \<union> set new
   \<and> (card (set old \<union> set new) \<le> 1024 \<longrightarrow> set (append_completed_slots old new) = set old \<union> set new)
   \<and> (distinct new \<and> length new \<le> 1024 \<longrightarrow> (\<exists>kept. append_completed_slots old new = kept @ new))"
proof -
  define m where "m = move_to_end [] (old @ new)"
  have m: "distinct m" "set m = set old \<union> set new" using move_to_end_set [of "[]"] by (simp_all add: m_def)
  have a: "append_completed_slots old new = drop (length m - 1024) m"
    by (simp add: append_completed_slots_def m_def completed_slot_history_limit_def Let_def)
  have "set (drop (length m - 1024) m) = set old \<union> set new" if "card (set old \<union> set new) \<le> 1024"
    using that m distinct_card [OF m(1)] by simp
  moreover have "\<exists>kept. drop (length m - 1024) m = kept @ new" if "distinct new" "length new \<le> 1024"
  proof -
    have "m = filter (\<lambda>x. x \<notin> set new) (move_to_end [] old) @ new"
      unfolding m_def by (rule move_to_end_append) (simp_all add: that)
    then show ?thesis using drop_keeps_tail [OF that(2)] by metis
  qed
  ultimately show ?thesis
    using m set_drop_subset [of "length m - 1024" m] unfolding a by auto
qed

section \<open>Blockers and selection\<close>

lemma scan_blockers_clear:
  "scan_blockers rv now c todo bs = (False, bs') \<Longrightarrow>
     set bs' = {(k, b) \<in> set bs. \<forall>(k', b')\<in>set todo. k' = k \<longrightarrow> \<not> shares_instrument (b_keys b') (instrument_keys c)}
     \<and> (\<forall>(k, b)\<in>set todo. \<not> terminal_blocker_still_applies b c (rv (b_keys b)))"
proof (induction rv now c todo bs rule: scan_blockers.induct)
  case (2 rv now c k b rest bs)
  show ?case
  proof (cases "shares_instrument (b_keys b) (instrument_keys c)")
    case True
    then have n: "\<not> terminal_blocker_still_applies b c (rv (b_keys b))"
      using "2.prems" by (auto split: if_splits)
    then have "scan_blockers rv now c rest (dict_pop k bs) = (False, bs')"
      using "2.prems" True by simp
    then show ?thesis using "2.IH"(2) [OF _ n] True n by (auto simp: dict_pop_def)
  next
    case False
    then have n: "\<not> terminal_blocker_still_applies b c (rv (b_keys b))"
      by (simp add: terminal_blocker_still_applies_def)
    show ?thesis using "2.IH"(1) "2.prems" False n by auto
  qed
qed auto

text \<open>A blocker up to its observation count and time.\<close>

definition blocker_identity :: "Blocker \<Rightarrow> string \<times> string \<times> string \<times> string list \<times> string \<times> string \<times> string" where
  "blocker_identity b = (b_status b, b_signature b, b_origin_slot b, b_keys b, b_error_code b,
     b_error_domain b, b_revision b)"

definition same_blocker :: "Blocker \<Rightarrow> Blocker \<Rightarrow> bool" where
  "same_blocker a b \<longleftrightarrow> blocker_identity a = blocker_identity b"

lemma same_blocker_refl [simp]: "same_blocker b b" "same_blocker (b\<lparr> b_last_at := t, b_count := n \<rparr>) b"
  by (simp_all add: same_blocker_def blocker_identity_def)

lemma same_blocker_trans: "same_blocker a b \<Longrightarrow> same_blocker b c \<Longrightarrow> same_blocker a c"
  by (simp add: same_blocker_def)

lemma same_blocker_fields:
  assumes "same_blocker a b"
  shows "b_keys a = b_keys b" and "b_revision a = b_revision b" and "b_signature a = b_signature b"
    and "terminal_blocker_still_applies a c r = terminal_blocker_still_applies b c r"
  using assms by (auto simp: same_blocker_def blocker_identity_def terminal_blocker_still_applies_def)

lemma scan_blockers_hit:
  "scan_blockers rv now c todo bs = (True, bs') \<Longrightarrow> distinct (map fst bs) \<Longrightarrow> set todo \<subseteq> set bs \<Longrightarrow>
   distinct (map fst todo) \<Longrightarrow>
   distinct (map fst bs')
   \<and> (\<forall>(k, b')\<in>set bs'. \<exists>b. (k, b) \<in> set bs \<and> same_blocker b' b)
   \<and> (\<forall>(k, b)\<in>set bs. (\<not> shares_instrument (b_keys b) (instrument_keys c)
        \<or> terminal_blocker_still_applies b c (rv (b_keys b)))
       \<longrightarrow> (\<exists>b'. (k, b') \<in> set bs' \<and> same_blocker b' b))"
proof (induction rv now c todo bs rule: scan_blockers.induct)
  case (2 rv now c k b rest bs)
  have mem: "(k, b) \<in> set bs" and sub: "set rest \<subseteq> set bs" and dr: "distinct (map fst rest)"
    using "2.prems" by auto
  show ?case
  proof (cases "shares_instrument (b_keys b) (instrument_keys c)")
    case False
    then show ?thesis using "2.IH"(1) "2.prems" sub dr by simp
  next
    case sh: True
    show ?thesis
    proof (cases "terminal_blocker_still_applies b c (rv (b_keys b))")
      case True
      define b2 where "b2 = b\<lparr> b_last_at := now, b_count := b_count b + 1 \<rparr>"
      have bs': "bs' = dict_put k b2 bs" using "2.prems"(1) sh True by (simp add: b2_def)
      have sb: "same_blocker b2 b" by (simp add: b2_def)
      have uniq: "y = b" if "(k, y) \<in> set bs" for y
        using that mem "2.prems"(2) by (metis map_of_is_SomeI option.inject)
      show ?thesis
        unfolding bs'
      proof (intro conjI)
        show "distinct (map fst (dict_put k b2 bs))" using "2.prems"(2) by (rule dict_put_distinct)
        show "\<forall>(k', b')\<in>set (dict_put k b2 bs). \<exists>b. (k', b) \<in> set bs \<and> same_blocker b' b"
        proof (clarify)
          fix k' b' assume "(k', b') \<in> set (dict_put k b2 bs)"
          then consider "k' = k" "b' = b2" | "(k', b') \<in> set bs"
            by (auto simp: dict_put_mem [OF "2.prems"(2)])
          then show "\<exists>b. (k', b) \<in> set bs \<and> same_blocker b' b"
            using sb mem by cases (blast intro: same_blocker_refl(1))+
        qed
        show "\<forall>(k', y)\<in>set bs. (\<not> shares_instrument (b_keys y) (instrument_keys c)
            \<or> terminal_blocker_still_applies y c (rv (b_keys y)))
           \<longrightarrow> (\<exists>b'. (k', b') \<in> set (dict_put k b2 bs) \<and> same_blocker b' y)"
        proof (clarify)
          fix k' y assume y: "(k', y) \<in> set bs"
          show "\<exists>b'. (k', b') \<in> set (dict_put k b2 bs) \<and> same_blocker b' y"
          proof (cases "k' = k")
            case True
            then show ?thesis using y uniq sb dict_put_mem [OF "2.prems"(2)] by blast
          next
            case False
            then show ?thesis using y dict_put_mem [OF "2.prems"(2)] same_blocker_refl(1) by blast
          qed
        qed
      qed
    next
      case False
      have pop: "distinct (map fst (dict_pop k bs))"
        using "2.prems"(2) by (simp add: dict_pop_def distinct_map_filter)
      have sub': "set rest \<subseteq> set (dict_pop k bs)"
        using sub "2.prems"(4) by (auto simp: dict_pop_def rev_image_eqI)
      have eq: "scan_blockers rv now c rest (dict_pop k bs) = (True, bs')"
        using "2.prems"(1) sh False by simp
      have uniq: "y = b" if "(k, y) \<in> set bs" for y
        using that mem "2.prems"(2) by (metis map_of_is_SomeI option.inject)
      have ih: "distinct (map fst bs')"
        "\<forall>(k, b')\<in>set bs'. \<exists>b. (k, b) \<in> set (dict_pop k bs) \<and> same_blocker b' b \<or> (k, b) \<in> set bs \<and> same_blocker b' b"
        "\<forall>(k', y)\<in>set (dict_pop k bs). (\<not> shares_instrument (b_keys y) (instrument_keys c)
            \<or> terminal_blocker_still_applies y c (rv (b_keys y)))
           \<longrightarrow> (\<exists>b'. (k', b') \<in> set bs' \<and> same_blocker b' y)"
        using "2.IH"(2) [OF _ False eq pop sub' dr] sh by (auto simp: dict_pop_def split_beta) 
      show ?thesis
        using ih sh False uniq by (auto simp: dict_pop_def) blast+
    qed
  qed
qed auto

lemma scan_blockers_keys:
  "distinct (map fst bs) \<Longrightarrow> distinct (map fst (snd (scan_blockers rv now c todo bs)))"
proof (induction rv now c todo bs rule: scan_blockers.induct)
  case (2 rv now c k b rest bs)
  have "distinct (map fst (dict_pop k bs))"
    using "2.prems" by (simp add: dict_pop_def distinct_map_filter)
  then show ?case using 2 by (auto intro: dict_put_distinct)
qed simp

lemma select_slot_found:
  "select_slot rv now na cs bs = (Some c, bs') \<Longrightarrow>
     c \<in> set cs \<and> (\<forall>t. map_of na (slot_id c) = Some t \<longrightarrow> t \<le> now)
     \<and> (\<forall>(k, b)\<in>set bs'. \<not> shares_instrument (b_keys b) (instrument_keys c))"
proof (induction rv now na cs bs rule: select_slot.induct)
  case (2 rv now na d cs bs)
  obtain hit bs1 where sc: "scan_blockers rv now d bs bs = (hit, bs1)" by (cases "scan_blockers rv now d bs bs")
  show ?case
  proof (cases "\<not> hit \<and> (\<forall>t. map_of na (slot_id d) = Some t \<longrightarrow> t \<le> now)")
    case True
    then have "c = d" "bs' = bs1" using "2.prems" sc by (auto split: option.splits)
    moreover have "\<not> shares_instrument (b_keys b) (instrument_keys d)" if "(k, b) \<in> set bs1" for k b
      using scan_blockers_clear [of rv now d bs bs bs1] sc True that by fastforce
    ultimately show ?thesis using True by auto
  next
    case False
    have next_sel: "select_slot rv now na cs bs1 = (Some c, bs')"
      using "2.prems" sc False by (cases hit; cases "map_of na (slot_id d)") (auto split: if_splits)
    have "c \<in> set cs \<and> (\<forall>t. map_of na (slot_id c) = Some t \<longrightarrow> t \<le> now)
     \<and> (\<forall>(k, b)\<in>set bs'. \<not> shares_instrument (b_keys b) (instrument_keys c))"
    proof (cases hit)
      case True
      then show ?thesis using "2.IH"(1) sc next_sel True by simp
    next
      case hit: False
      then obtain t where "map_of na (slot_id d) = Some t" "\<not> t \<le> now" using False by auto
      then show ?thesis using "2.IH"(2) sc hit next_sel by simp
    qed
    then show ?thesis by simp
  qed
qed simp

lemma select_slot_blocked:
  "(k, b) \<in> set bs \<Longrightarrow> distinct (map fst bs) \<Longrightarrow>
   (\<And>c. c \<in> set cs \<Longrightarrow> shares_instrument (b_keys b) (instrument_keys c) \<Longrightarrow>
        terminal_blocker_still_applies b c (rv (b_keys b))) \<Longrightarrow>
   (\<forall>c. fst (select_slot rv now na cs bs) = Some c \<longrightarrow> \<not> shares_instrument (b_keys b) (instrument_keys c))
   \<and> (\<exists>b'. (k, b') \<in> set (snd (select_slot rv now na cs bs)) \<and> same_blocker b' b)"
proof (induction cs arbitrary: b bs)
  case Nil
  then show ?case using same_blocker_refl(1) by fastforce
next
  case (Cons d cs)
  obtain hit bs1 where sc: "scan_blockers rv now d bs bs = (hit, bs1)" by (cases "scan_blockers rv now d bs bs")
  have d1: "distinct (map fst bs1)" using scan_blockers_keys [OF Cons.prems(2), of rv now d bs] sc by simp
  show ?case
  proof (cases hit)
    case True
    have "\<exists>b'. (k, b') \<in> set bs1 \<and> same_blocker b' b"
      using scan_blockers_hit [of rv now d bs bs bs1] sc True Cons.prems(1-2) Cons.prems(3) [of d] by auto
    then obtain b' where b': "(k, b') \<in> set bs1" "same_blocker b' b" by blast
    note f = same_blocker_fields [OF b'(2)]
    have "(\<forall>c. fst (select_slot rv now na cs bs1) = Some c \<longrightarrow> \<not> shares_instrument (b_keys b') (instrument_keys c))
      \<and> (\<exists>b2. (k, b2) \<in> set (snd (select_slot rv now na cs bs1)) \<and> same_blocker b2 b')"
      using Cons.prems(3) f by (intro Cons.IH [OF b'(1) d1]) auto
    then show ?thesis using sc True f b'(2) same_blocker_trans by auto
  next
    case False
    then have sc': "scan_blockers rv now d bs bs = (False, bs1)" using sc by simp
    note cl = scan_blockers_clear [OF sc']
    have "\<not> terminal_blocker_still_applies b d (rv (b_keys b))"
      using conjunct2 [OF cl] Cons.prems(1) by blast
    then have na: "\<not> shares_instrument (b_keys b) (instrument_keys d)"
      using Cons.prems(3) [of d] by auto
    have uniq: "y = b" if "(k, y) \<in> set bs" for y
      using that Cons.prems(1,2) by (metis map_of_is_SomeI option.inject)
    have "\<forall>(k', b')\<in>set bs. k' = k \<longrightarrow> \<not> shares_instrument (b_keys b') (instrument_keys d)"
      using uniq na by blast
    then have mem: "(k, b) \<in> set bs1" using conjunct1 [OF cl] Cons.prems(1) by simp
    have "(\<forall>c. fst (select_slot rv now na cs bs1) = Some c \<longrightarrow> \<not> shares_instrument (b_keys b) (instrument_keys c))
      \<and> (\<exists>b2. (k, b2) \<in> set (snd (select_slot rv now na cs bs1)) \<and> same_blocker b2 b)"
      using Cons.prems(3) by (intro Cons.IH [OF mem d1]) auto
    then show ?thesis using sc False na mem same_blocker_refl(1)
      by (auto split: option.splits)
  qed
qed

text \<open>C5: While a stored blocker applies to every candidate that shares an instrument with it, the
  poll runs no slot of its instruments, and the blocker stays stored with its identity; and a slot
  the poll does choose is a candidate whose retry time has come and shares no instrument with any
  blocker that is left.\<close>

theorem blocked_instruments_never_run:
  assumes "(k, b) \<in> set bs" and "distinct (map fst bs)"
    and "\<forall>c\<in>set cs. shares_instrument (b_keys b) (instrument_keys c) \<longrightarrow>
           terminal_blocker_still_applies b c (rv (b_keys b))"
  shows "(\<forall>c bs'. select_slot rv now na cs bs = (Some c, bs') \<longrightarrow>
            \<not> shares_instrument (b_keys b) (instrument_keys c) \<and> c \<in> set cs
            \<and> (\<forall>t. map_of na (slot_id c) = Some t \<longrightarrow> t \<le> now)
            \<and> (\<forall>(k, b)\<in>set bs'. \<not> shares_instrument (b_keys b) (instrument_keys c)))
       \<and> (\<exists>b'. (k, b') \<in> set (snd (select_slot rv now na cs bs)) \<and> same_blocker b' b)"
proof -
  have "(\<forall>c. fst (select_slot rv now na cs bs) = Some c \<longrightarrow> \<not> shares_instrument (b_keys b) (instrument_keys c))
   \<and> (\<exists>b'. (k, b') \<in> set (snd (select_slot rv now na cs bs)) \<and> same_blocker b' b)"
    using assms by (intro select_slot_blocked) auto
  then show ?thesis using select_slot_found [of rv now na cs bs] by fastforce
qed

text \<open>A blocker whose retries were exhausted on late data is dropped, not kept, as soon as
  another slot of one of its instruments is considered, and with it goes what suppresses the
  exhausted slot itself; the comment in the source calls it evidence that must remain.\<close>

theorem exhausted_blocker_dropped:
  assumes "b_error_code b = ''RETRY_EXHAUSTED:DATA_NOT_READY''" and "b_origin_slot b \<noteq> slot_id c"
    and "shares_instrument (b_keys b) (instrument_keys c)"
  shows "scan_blockers rv now c [(k, b)] [(k, b)] = (False, [])"
  using assms by (simp add: terminal_blocker_still_applies_def dict_pop_def)

section \<open>The daemon's invariant\<close>

definition daemon_inv :: "daemon \<Rightarrow> bool" where
  "daemon_inv d \<longleftrightarrow>
     distinct (map fst (d_blockers d)) \<and> list_all (\<lambda>(k, b). b_signature b = k) (d_blockers d)
     \<and> distinct (d_completed_order d) \<and> length (d_completed_order d) \<le> completed_slot_history_limit
     \<and> set (d_completed_order d) \<subseteq> d_completed d
     \<and> list_all (\<lambda>(k, n). 1 \<le> n) (d_transient d) \<and> distinct (map fst (d_transient d))"

definition reports_blockers :: "daemon \<Rightarrow> bool" where
  "reports_blockers d \<longleftrightarrow>
     (if d_blockers d = [] then d_service_status d = ''RUNNING'' \<and> d_degraded d = []
      else d_service_status d = ''RUNNING_DEGRADED''
        \<and> set (d_degraded d) = (\<Union>(k, b)\<in>set (d_blockers d). set (b_keys b)))"

lemma append_completed_props:
  "distinct (append_completed_slots old new)"
  "length (append_completed_slots old new) \<le> completed_slot_history_limit"
  "set (append_completed_slots old new) \<subseteq> set old \<union> set new"
  using move_to_end_set [of "[]" "old @ new"]
  by (auto simp: append_completed_slots_def Let_def dest!: in_set_dropD)

lemma dict_pop_distinct: "distinct (map fst xs) \<Longrightarrow> distinct (map fst (dict_pop k xs))"
  by (simp add: dict_pop_def distinct_map_filter)

lemma list_all_dict_put:
  "list_all P xs \<Longrightarrow> P (k, v) \<Longrightarrow> list_all P (dict_put k v xs)"
  by (induction xs) auto

lemma list_all_filter': "list_all P xs \<Longrightarrow> list_all P (filter Q xs)"
  by (auto simp: list_all_iff)

lemma drop_resolved_sub: "set (drop_resolved rv bs) \<subseteq> set bs"
  by (auto simp: drop_resolved_def)

lemma scan_blockers_sig:
  "list_all (\<lambda>(k, b). b_signature b = k) todo \<Longrightarrow> list_all (\<lambda>(k, b). b_signature b = k) bs \<Longrightarrow>
   list_all (\<lambda>(k, b). b_signature b = k) (snd (scan_blockers rv now c todo bs))"
proof (induction rv now c todo bs rule: scan_blockers.induct)
  case (2 rv now c k b rest bs)
  then show ?case by (auto simp: dict_pop_def intro!: list_all_dict_put list_all_filter')
qed simp

lemma select_slot_blockers:
  "distinct (map fst bs) \<Longrightarrow> list_all (\<lambda>(k, b). b_signature b = k) bs \<Longrightarrow>
   distinct (map fst (snd (select_slot rv now na cs bs)))
   \<and> list_all (\<lambda>(k, b). b_signature b = k) (snd (select_slot rv now na cs bs))"
proof (induction cs arbitrary: bs)
  case (Cons c cs)
  obtain hit bs1 where sc: "scan_blockers rv now c bs bs = (hit, bs1)" by (cases "scan_blockers rv now c bs bs")
  have "distinct (map fst bs1)" "list_all (\<lambda>(k, b). b_signature b = k) bs1"
    using scan_blockers_keys [OF Cons.prems(1), of rv now c bs]
      scan_blockers_sig [OF Cons.prems(2) Cons.prems(2), of rv now c] sc by simp_all
  then show ?case using Cons.IH [of bs1] sc by (auto split: bool.splits option.splits)
qed simp

lemma add_blocker_inv: "daemon_inv d \<Longrightarrow> daemon_inv (add_blocker b d)"
  by (simp add: add_blocker_def daemon_inv_def dict_put_distinct list_all_dict_put)

lemma on_pass_inv: "daemon_inv d \<Longrightarrow> daemon_inv (on_pass slots c d)"
  using append_completed_props(3) [of "d_completed_order d"
      "map slot_id (filter (\<lambda>s. slot_id s \<in> completed_through slots c) slots)"]
  by (auto simp: on_pass_def Let_def daemon_inv_def append_completed_props distinct_map_filter
      dict_pop_def intro!: list_all_filter')

lemma on_failure_inv: "daemon_inv d \<Longrightarrow> daemon_inv (fst (on_failure dig rv c r now d))"
  by (cases "retry_disposition (j_error_code r)")
     (auto simp: on_failure_def Let_def daemon_inv_def dict_pop_def
      intro!: add_blocker_inv [unfolded daemon_inv_def, THEN conjunct1]
        add_blocker_inv [unfolded daemon_inv_def] dict_put_distinct list_all_dict_put list_all_filter'
        simp: distinct_map_filter add_blocker_def)

lemma run_selected_inv: "daemon_inv d \<Longrightarrow> daemon_inv (fst (run_selected env slots now c d s))"
proof -
  assume d: "daemon_inv d"
  have keep: "daemon_inv (x\<lparr> d_last_job := l \<rparr>) = daemon_inv x" for x l by (simp add: daemon_inv_def)
  show ?thesis
    using on_pass_inv [OF d, of slots c] on_failure_inv [OF d]
    by (auto simp: run_selected_def Let_def keep split: prod.splits) (metis fst_conv)+
qed

lemma publish_inv: "daemon_inv d \<Longrightarrow> daemon_inv (publish d) \<and> reports_blockers (publish d)"
  by (auto simp: publish_def daemon_inv_def reports_blockers_def case_prod_unfold)

text \<open>One poll: the daemon leaves with an exception, or the slots are polled on the daemon whose
  check time, upcoming slots and token status alone have changed.\<close>

definition refreshed :: "daemon \<Rightarrow> daemon \<Rightarrow> bool" where
  "refreshed d d1 \<longleftrightarrow>
     (\<exists>now ns st. d1 = d\<lparr> d_checked_at := now, d_next_slots := ns, d_auth := st \<rparr>
        \<or> d1 = d\<lparr> d_checked_at := now, d_next_slots := ns \<rparr>)"

lemma daemon_poll_polls:
  assumes "daemon_poll env now d s = (Inr d', s')"
  shows "\<exists>slots d1 s1. refreshed d d1 \<and> d' = publish (fst (poll_slots env slots now d1 s1))"
proof -
  obtain slots s1 where a: "schedule env now s = (Inr slots, s1)"
    using assms by (auto simp: daemon_poll_def split: prod.splits sum.splits)
  let ?d = "d\<lparr> d_checked_at := now, d_next_slots := take 6 (filter (\<lambda>x. now < due_at x) slots) \<rparr>"
  obtain d1 s2 where b: "refresh_auth env ?d s1 = (Inr d1, s2)"
    using assms a by (auto simp: daemon_poll_def split: prod.splits sum.splits)
  have "refreshed d d1"
    using b by (auto simp: refresh_auth_def refreshed_def split: prod.splits sum.splits exn.splits)
  moreover have "d' = publish (fst (poll_slots env slots now d1 s2))"
    using assms a b by (auto simp: daemon_poll_def split: prod.splits)
  ultimately show ?thesis by blast
qed

lemma poll_slots_inv:
  assumes "daemon_inv d"
  shows "daemon_inv (fst (poll_slots env slots now d s))"
proof -
  let ?rv = "\<lambda>ks. revision env ks s"
  obtain sel bs where sl: "select_slot ?rv now (d_next_attempt d) (latest_due_per_kind slots now (d_completed d))
      (drop_resolved ?rv (d_blockers d)) = (sel, bs)" by fastforce
  have "distinct (map fst (drop_resolved ?rv (d_blockers d)))"
    "list_all (\<lambda>(k, b). b_signature b = k) (drop_resolved ?rv (d_blockers d))"
    using assms by (auto simp: drop_resolved_def daemon_inv_def distinct_map_filter intro: list_all_filter')
  then have "daemon_inv (d\<lparr> d_blockers := bs \<rparr>)"
    using select_slot_blockers [of "drop_resolved ?rv (d_blockers d)" ?rv now "d_next_attempt d"
        "latest_due_per_kind slots now (d_completed d)"] sl assms
    by (simp add: daemon_inv_def)
  then show ?thesis
    using sl run_selected_inv [of "d\<lparr> d_blockers := bs \<rparr>" env slots now _ s]
    by (cases sel) (simp_all add: poll_slots_def)
qed

inductive daemon_reaches :: "'s daemon_env \<Rightarrow> daemon \<Rightarrow> daemon \<Rightarrow> bool" for env where
  Start: "daemon_reaches env d d"
| Poll: "daemon_reaches env d0 d \<Longrightarrow> daemon_poll env now d s = (Inr d', s') \<Longrightarrow> daemon_reaches env d0 d'"

lemma refreshed_inv: "daemon_inv d \<Longrightarrow> refreshed d d1 \<Longrightarrow> daemon_inv d1"
  by (auto simp: refreshed_def daemon_inv_def)

lemma daemon_poll_inv:
  assumes "daemon_inv d" and "daemon_poll env now d s = (Inr d', s')"
  shows "daemon_inv d' \<and> reports_blockers d'"
proof -
  obtain slots d1 s1 where "refreshed d d1" "d' = publish (fst (poll_slots env slots now d1 s1))"
    using daemon_poll_polls [OF assms(2)] by blast
  note d1 = this
  show ?thesis
    unfolding d1(2) by (rule publish_inv [OF poll_slots_inv [OF refreshed_inv [OF assms(1) d1(1)]]])
qed

lemma reaches_inv: "daemon_reaches env d0 d \<Longrightarrow> daemon_inv d0 \<Longrightarrow> daemon_inv d"
  by (induction rule: daemon_reaches.induct) (auto dest: daemon_poll_inv)

lemma initial_inv: "daemon_inv (initial_daemon now)"
  by (simp add: daemon_inv_def initial_daemon_def)

lemma restart_inv: "daemon_inv d \<Longrightarrow> daemon_inv (restart_daemon d)"
  using append_completed_props [of "[]" "d_completed_order d"]
  by (auto simp: daemon_inv_def restart_daemon_def list_all_iff comp_def case_prod_unfold)

text \<open>C19: Whatever polls follow each other, at whatever times and in whatever states of the world,
  a daemon started afresh or from a stored state keeps its blockers under their own signatures
  without duplicates, a duplicate-free bounded history of slots it has completed, and positive
  attempt counters; and every poll publishes the degraded status exactly when a blocker is
  stored, with exactly the instruments of the blockers.\<close>

theorem daemon_keeps_invariant:
  assumes "daemon_inv stored" and "d0 = restart_daemon stored \<or> d0 = initial_daemon t"
    and "daemon_reaches env d0 d" and "daemon_poll env now d s = (Inr d', s')"
  shows "daemon_inv d' \<and> reports_blockers d'"
proof -
  have "daemon_inv d0" using assms(1,2) restart_inv initial_inv by blast
  then have "daemon_inv d" by (rule reaches_inv [OF assms(3)])
  then show ?thesis by (rule daemon_poll_inv [OF _ assms(4)])
qed

section \<open>What a poll does to the schedule\<close>

lemma on_failure_completed: "d_completed (fst (on_failure dig rv c r now d)) = d_completed d"
  by (cases "retry_disposition (j_error_code r)") (simp_all add: on_failure_def Let_def add_blocker_def)

lemma run_selected_completed:
  "d_completed (fst (run_selected env slots now c d s)) = d_completed d
   \<or> (\<exists>sla. d_last_job (fst (run_selected env slots now c d s))
              = Some (fst (execute (exec env) c s), sla, None)
        \<and> j_status (fst (execute (exec env) c s)) = ''PASS''
        \<and> d_completed (fst (run_selected env slots now c d s))
            = d_completed d \<union> completed_through slots c)"
proof (cases "j_status (fst (execute (exec env) c s)) = ''PASS''")
  case True
  then show ?thesis by (auto simp: run_selected_def Let_def on_pass_def split: prod.splits)
next
  case False
  have "d_completed (fst (run_selected env slots now c d s)) = d_completed d"
    using False by (simp add: run_selected_def Let_def case_prod_unfold on_failure_completed)
  then show ?thesis by blast
qed

text \<open>A poll marks slots as completed only when it executed a candidate and that execution
  reported PASS; it then completes exactly the slots of that candidate's lane that were due no
  later, so a catch-up run supersedes the older slots of its lane and no others.\<close>

theorem poll_completes_only_passes:
  "fst (poll_slots env slots now d s) = d' \<Longrightarrow> d_completed d' \<noteq> d_completed d \<Longrightarrow>
   \<exists>c r sla. c \<in> set slots \<and> eligible now (d_completed d) c \<and> d_last_job d' = Some (r, sla, None)
     \<and> r = fst (execute (exec env) c s) \<and> j_status r = ''PASS''
     \<and> d_completed d' = d_completed d \<union> slot_id ` {x \<in> set slots. lane x = lane c \<and> due_at x \<le> due_at c}"
proof -
  assume d': "fst (poll_slots env slots now d s) = d'" and ne: "d_completed d' \<noteq> d_completed d"
  let ?rv = "\<lambda>ks. revision env ks s"
  obtain sel bs where sl: "select_slot ?rv now (d_next_attempt d) (latest_due_per_kind slots now (d_completed d))
      (drop_resolved ?rv (d_blockers d)) = (sel, bs)" by fastforce
  show ?thesis
  proof (cases sel)
    case None
    then show ?thesis using sl d' ne by (auto simp: poll_slots_def)
  next
    case (Some c)
    have d'': "d' = fst (run_selected env slots now c (d\<lparr> d_blockers := bs \<rparr>) s)"
      using sl d' Some by (simp add: poll_slots_def)
    have mem: "c \<in> set (latest_due_per_kind slots now (d_completed d))"
      using select_slot_found [of ?rv now] sl Some by blast
    have through: "completed_through slots c = slot_id ` {x \<in> set slots. lane x = lane c \<and> due_at x \<le> due_at c}"
      by (auto simp: completed_through_def lane_def)
    have "c \<in> set slots \<and> eligible now (d_completed d) c"
    proof -
      define cs where "cs = fold (\<lambda>s cs. if eligible now (d_completed d) s then keep_latest s cs else cs) slots []"
      have "c \<in> snd ` set cs" using mem by (simp add: latest_due_per_kind_def cs_def)
      then show ?thesis
        using latest_fold_ok [of "eligible now (d_completed d)" slots] by (auto simp: lanes_ok_def cs_def)
    qed
    then show ?thesis
      using run_selected_completed [of env slots now c "d\<lparr> d_blockers := bs \<rparr>" s] ne
      unfolding d'' [symmetric] through by (cases "d_completed d' = d_completed d") auto
  qed
qed

definition attempts_of :: "daemon \<Rightarrow> string \<Rightarrow> nat" where
  "attempts_of d k = (case map_of (d_transient d) k of None \<Rightarrow> 0 | Some n \<Rightarrow> n)"

lemma dict_put_in: "(k, v) \<in> set (dict_put k v xs)"
proof (induction xs)
  case (Cons x xs)
  then show ?case by (cases x; cases "fst x = k") auto
qed simp

lemma failed_keys_code [simp]:
  "failed_instrument_keys slot (r\<lparr> j_error_code := c \<rparr>) = failed_instrument_keys slot r"
  by (simp add: failed_instrument_keys_def split: option.splits list.splits)

lemma record_blocker_fields:
  "b_origin_slot (record_terminal_blocker dig p slot r rv_now now) = slot_id slot"
  "b_keys (record_terminal_blocker dig p slot r rv_now now) = failed_instrument_keys slot r"
  "b_revision (record_terminal_blocker dig p slot r rv_now now) = rv_now"
  "b_status (record_terminal_blocker dig p slot r rv_now now) = ''INSTRUMENT_DEGRADED_OPERATOR_ACTION_REQUIRED''"
  by (simp_all add: record_terminal_blocker_def Let_def case_prod_unfold)

text \<open>C39: A failed execution is either retried in 30 seconds, which happens only for a transient
  error and at most three times, leaving the blockers as they are; or it stores a blocker that
  names the slot, the failed instruments and their current watermark revision, and that blocks
  this slot as long as the revision stays the same.\<close>

theorem failure_is_retried_or_blocked:
  "let d' = fst (on_failure dig rv slot r now d); n = attempts_of d (slot_id slot) in
     (retry_disposition (j_error_code r) = TRANSIENT_RETRY \<and> n + 1 < 4
      \<and> attempts_of d' (slot_id slot) = n + 1
      \<and> map_of (d_next_attempt d') (slot_id slot) = Some (now + 30 * second)
      \<and> d_blockers d' = d_blockers d)
   \<or> ((retry_disposition (j_error_code r) = OPERATOR_ACTION_REQUIRED \<or> 4 \<le> n + 1)
      \<and> (\<exists>b. (b_signature b, b) \<in> set (d_blockers d') \<and> b_origin_slot b = slot_id slot
           \<and> b_keys b = failed_instrument_keys slot r \<and> b_revision b = rv (b_keys b)
           \<and> terminal_blocker_still_applies b slot (rv (b_keys b))
               = shares_instrument (b_keys b) (instrument_keys slot)))"
proof -
  have applies: "terminal_blocker_still_applies b slot (rv (b_keys b)) = shares_instrument (b_keys b) (instrument_keys slot)"
    if "b = record_terminal_blocker dig None slot r' (rv (failed_instrument_keys slot r)) now"
      and "failed_instrument_keys slot r' = failed_instrument_keys slot r" for b r'
    unfolding that(1) by (simp add: terminal_blocker_still_applies_def record_blocker_fields that(2))
  show ?thesis
  proof (cases "retry_disposition (j_error_code r)")
    case OPERATOR_ACTION_REQUIRED
    define b where "b = record_terminal_blocker dig None slot r (rv (failed_instrument_keys slot r)) now"
    have "(b_signature b, b) \<in> set (d_blockers (fst (on_failure dig rv slot r now d)))"
      using OPERATOR_ACTION_REQUIRED by (simp add: on_failure_def Let_def add_blocker_def b_def dict_put_in)
    moreover have "b_origin_slot b = slot_id slot" "b_keys b = failed_instrument_keys slot r"
      "b_revision b = rv (b_keys b)" by (simp_all add: b_def record_blocker_fields)
    ultimately show ?thesis
      using OPERATOR_ACTION_REQUIRED applies [OF b_def] by (auto simp: Let_def)
  next
    case TRANSIENT_RETRY
    show ?thesis
    proof (cases "attempts_of d (slot_id slot) + 1 < 4")
      case True
      then show ?thesis
        using TRANSIENT_RETRY
        by (simp add: Let_def on_failure_def attempts_of_def max_transient_slot_attempts_def retry_wait_def)
    next
      case False
      define r' where "r' = r\<lparr> j_error_code :=
        Some (retry_exhausted_prefix @ (case j_error_code r of None \<Rightarrow> ''None'' | Some c \<Rightarrow> c)) \<rparr>"
      define b where "b = record_terminal_blocker dig None slot r' (rv (failed_instrument_keys slot r)) now"
      have r': "failed_instrument_keys slot r' = failed_instrument_keys slot r" by (simp add: r'_def)
      have "(b_signature b, b) \<in> set (d_blockers (fst (on_failure dig rv slot r now d)))"
        using TRANSIENT_RETRY False
        by (simp add: on_failure_def Let_def add_blocker_def b_def r'_def dict_put_in attempts_of_def
            max_transient_slot_attempts_def)
      moreover have "b_origin_slot b = slot_id slot" "b_keys b = failed_instrument_keys slot r"
        "b_revision b = rv (b_keys b)" by (simp_all add: b_def record_blocker_fields r')
      ultimately show ?thesis using False applies [OF b_def r'] by (auto simp: Let_def)
    qed
  qed
qed

section \<open>Examples\<close>

definition example_slot :: ScheduleSlot where
  "example_slot = \<lparr> slot_id = ''a-tip'', kind = ''bond_credit_regular_1h'', due_at = 3600, deadline = 7200,
     instrument_keys = [''tip''], expected_latest_complete = [(''tip'', 5)], trigger = ''t'',
     expected_latest_session = [] \<rparr>"

definition example_run :: RunResult where
  "example_run = \<lparr> rr_status = Some ''PASS'', rr_error_code = None, rr_warning_code = None,
     rr_failed_keys = None, rr_failed_key = None, rr_run_id = None, rr_revision_event = None \<rparr>"

definition example_exec :: "unit exec_env" where
  "example_exec = \<lparr> get_token = (\<lambda>_ s. (Inr ''t'', s)), run_incr = (\<lambda>_ _ _ s. (Inr example_run, s)),
     load_watermarks = (\<lambda>_ s. (Inr [(''tip'', 6)], s)), load_sessions = (\<lambda>_ s. (Inr [], s)) \<rparr>"

definition example_env :: "unit daemon_env" where
  "example_env = \<lparr> exec = example_exec, schedule = (\<lambda>_ s. (Inr [example_slot], s)),
     revision = (\<lambda>_ _. ''r''), auth_status = (\<lambda>s. (Inr ''AUTHENTICATED'', s)),
     signature_digest = (\<lambda>_ _ _. ''sig'') \<rparr>"

definition example_job :: JobResult where
  "example_job = job example_slot ''FAILED'' (Some ''FAILED_NETWORK'') ''interface_operational'' []"

definition example_blocker :: Blocker where
  "example_blocker = record_terminal_blocker (\<lambda>_ _ _. ''sig'') None example_slot example_job ''r'' 0"

lemma example_executes: "j_status (fst (execute example_exec example_slot ())) = ''PASS''"
  by code_simp

theorem execute_passes_only_on_evidence_witness:
  "gates_passed example_slot (fst (execute example_exec example_slot ()))"
proof -
  obtain steps opn r where r: "j_steps (fst (execute example_exec example_slot ())) = steps @ [(opn, r)]"
    "rr_warning_code r = Some ''DATA_VERSION_REVISION_REVIEW_PENDING''
       \<or> gates_passed example_slot (fst (execute example_exec example_slot ()))"
    using execute_passes_only_on_evidence [of example_exec example_slot "()"] example_executes by auto
  have "j_steps (fst (execute example_exec example_slot ())) = [(''incremental'', example_run)]"
    by code_simp
  then have "r = example_run" using r(1) by simp
  then show ?thesis using r(2) by (simp add: example_run_def)
qed

theorem latest_due_spec_witness:
  "\<exists>x. x \<in> set (latest_due_per_kind [example_slot] 3600 {}) \<and> lane x = lane example_slot"
proof -
  have "eligible 3600 {} example_slot" by code_simp
  then show ?thesis using latest_due_spec [of "[example_slot]" 3600 "{}"] by auto
qed

theorem completion_history_witness: "\<exists>kept. append_completed_slots [''a'', ''b''] [''a''] = kept @ [''a'']"
  using completion_history [of "[''a'', ''b'']" "[''a'']"] by simp

theorem blocked_instruments_never_run_witness:
  "fst (select_slot (\<lambda>_. ''r'') 3600 [] [example_slot] [(''sig'', example_blocker)]) \<noteq> Some example_slot"
proof -
  have sh: "terminal_blocker_still_applies example_blocker example_slot ''r''"
    "shares_instrument (b_keys example_blocker) (instrument_keys example_slot)" by code_simp+
  show ?thesis
    using blocked_instruments_never_run [of "''sig''" example_blocker "[(''sig'', example_blocker)]"
        "[example_slot]" "\<lambda>_. ''r''" 3600 "[]"] sh
    by (cases "select_slot (\<lambda>_. ''r'') 3600 [] [example_slot] [(''sig'', example_blocker)]") auto
qed

lemma example_poll: "\<exists>d'. daemon_poll example_env 3600 (initial_daemon 0) () = (Inr d', ())"
  by (auto simp: daemon_poll_def example_env_def refresh_auth_def split: prod.splits)

theorem daemon_keeps_invariant_witness:
  "\<exists>d'. daemon_poll example_env 3600 (initial_daemon 0) () = (Inr d', ()) \<and> reports_blockers d'"
proof -
  obtain d' where d': "daemon_poll example_env 3600 (initial_daemon 0) () = (Inr d', ())"
    using example_poll by blast
  have "daemon_inv d' \<and> reports_blockers d'"
    by (rule daemon_keeps_invariant [of _ _ 0, OF initial_inv [of 0] disjI2 [OF refl] daemon_reaches.Start d'])
  then show ?thesis using d' by blast
qed

theorem poll_completes_only_passes_witness:
  "''a-tip'' \<in> d_completed (fst (poll_slots example_env [example_slot] 3600 (initial_daemon 0) ()))
   \<and> (\<exists>r. j_status r = ''PASS'' \<and> d_last_job (fst (poll_slots example_env [example_slot] 3600 (initial_daemon 0) ()))
        = Some (r, ''PASS'', None))"
proof -
  let ?d = "fst (poll_slots example_env [example_slot] 3600 (initial_daemon 0) ())"
  have c: "''a-tip'' \<in> d_completed ?d" by code_simp
  have sla: "map_option (fst \<circ> snd) (d_last_job ?d) = Some ''PASS''" by code_simp
  have "d_completed ?d \<noteq> d_completed (initial_daemon 0)" using c by (auto simp: initial_daemon_def)
  from poll_completes_only_passes [OF refl this] show ?thesis using c sla by auto
qed

theorem exhausted_blocker_dropped_witness:
  "scan_blockers (\<lambda>_. ''r'') 0 (example_slot\<lparr> slot_id := ''b'' \<rparr>)
     [(''sig'', example_blocker\<lparr> b_error_code := ''RETRY_EXHAUSTED:DATA_NOT_READY'' \<rparr>)]
     [(''sig'', example_blocker\<lparr> b_error_code := ''RETRY_EXHAUSTED:DATA_NOT_READY'' \<rparr>)] = (False, [])"
proof (rule exhausted_blocker_dropped)
  show "shares_instrument (b_keys (example_blocker\<lparr> b_error_code := ''RETRY_EXHAUSTED:DATA_NOT_READY'' \<rparr>))
      (instrument_keys (example_slot\<lparr> slot_id := ''b'' \<rparr>))" by code_simp
qed (simp_all add: example_blocker_def example_slot_def record_blocker_fields)

end
