(* ===== verification/DeriveBars.thy ===== *)
theory DeriveBars
  imports NormalizeBars SessionCalendar
begin

text \<open>
  \<open>market_db/derive_bars.py\<close>: the rebuild of the 4-hour and daily bars from the accepted
  completed hourly bars and the session calendars. The two SQL statements are written as the
  join, the grouping and the aggregates they perform on lists of rows. Stored bars have the
  fixed horizon of 60 minutes.
\<close>

section \<open>The curated bars\<close>

record MarketRow =
  mr_instrument :: int
  mr_bar :: NormalizedBar
  mr_run :: int
  mr_quality :: string

type_synonym curated_key = "int \<times> datetime \<times> string"

definition curated_key :: "MarketRow \<Rightarrow> curated_key" where
  "curated_key r = (mr_instrument r, time_utc (mr_bar r), price_basis (mr_bar r))"

definition bar_instant :: "MarketRow \<Rightarrow> utc" where "bar_instant r = instant (time_utc (mr_bar r))"

section \<open>Eligible bars and their groups\<close>

record EligibleBar =
  el_row :: MarketRow
  el_open :: utc
  el_close :: utc
  el_date :: date
  el_verified :: string

definition rounded_seconds :: "int \<Rightarrow> int" where
  "rounded_seconds d = (d + second div 2) div second"

definition session_slots :: "utc \<Rightarrow> utc \<Rightarrow> int" where
  "session_slots o' c = - ((- (c - o')) div hour)"

text \<open>One curated bar joined with its instrument's calendar and an interval around it.\<close>

definition joins :: "CalendarRow list \<Rightarrow> IntervalRow list \<Rightarrow> string \<Rightarrow> MarketRow \<Rightarrow> EligibleBar list" where
  "joins cals ivs cid r =
     concat (map (\<lambda>c. List.map_filter (\<lambda>iv.
        if iv_calendar iv = cid \<and> session_status (iv_session iv) \<noteq> HOLIDAY then
          (case (open_time_utc (iv_session iv), close_time_utc (iv_session iv)) of
             (Some o', Some cl) \<Rightarrow>
               if o' \<le> bar_instant r \<and> bar_instant r < cl
                  \<and> rounded_seconds (bar_instant r - o') mod 3600 = 0
               then Some \<lparr> el_row = r, el_open = o', el_close = cl, el_date = iv_date iv,
                           el_verified = verification_status c \<rparr>
               else None
           | _ \<Rightarrow> None)
        else None) ivs) (filter (\<lambda>c. cal_id c = cid) cals))"

definition selected :: "int list option \<Rightarrow> int \<Rightarrow> bool" where
  "selected ids i = (case ids of None \<Rightarrow> True | Some xs \<Rightarrow> i \<in> set xs)"

definition accepted :: "int list option \<Rightarrow> MarketRow \<Rightarrow> bool" where
  "accepted ids r =
     (is_complete (mr_bar r) \<and> mr_quality r = ''PASS'' \<and> selected ids (mr_instrument r))"

definition eligible_bars :: "int list option \<Rightarrow> calendar_db \<Rightarrow> MarketRow list \<Rightarrow> EligibleBar list" where
  "eligible_bars ids db rows =
     concat (map (\<lambda>r. concat (map (\<lambda>i.
        (case in_calendar i of None \<Rightarrow> [] | Some cid \<Rightarrow> joins (calendars db) (intervals db) cid r))
        (filter (\<lambda>i. in_id i = mr_instrument r) (instruments db))))
       (filter (accepted ids) rows))"

definition bucket_4h :: "EligibleBar \<Rightarrow> int" where
  "bucket_4h e = (bar_instant (el_row e) - el_open e) div (4 * hour)"

text \<open>\<open>GROUP BY\<close>: the distinct keys in order of appearance and the rows of each.\<close>

definition group_rows :: "('a \<Rightarrow> 'k) \<Rightarrow> 'a list \<Rightarrow> ('k \<times> 'a list) list" where
  "group_rows k xs = map (\<lambda>v. (v, filter (\<lambda>x. k x = v) xs)) (remdups (map k xs))"

definition sum_volume :: "rat option list \<Rightarrow> rat option" where
  "sum_volume vs = (if filter (\<lambda>v. v \<noteq> None) vs = [] then None
                    else Some (sum_list (map the (filter (\<lambda>v. v \<noteq> None) vs))))"

record Aggregate =
  ag_open :: rat
  ag_high :: rat
  ag_low :: rat
  ag_close :: rat
  ag_volume :: "rat option"
  ag_slots :: nat
  ag_first_run :: int
  ag_last_run :: int

definition aggregate :: "EligibleBar list \<Rightarrow> Aggregate" where
  "aggregate es =
     (let ordered = sort_key (\<lambda>e. bar_instant (el_row e)) es; bar = (\<lambda>e. mr_bar (el_row e))
      in \<lparr> ag_open = px_open (bar (hd ordered)),
           ag_high = Max (set (map (\<lambda>e. px_high (bar e)) es)),
           ag_low = Min (set (map (\<lambda>e. px_low (bar e)) es)),
           ag_close = px_close (bar (last ordered)),
           ag_volume = sum_volume (map (\<lambda>e. volume (bar e)) es),
           ag_slots = length es,
           ag_first_run = Min (set (map (\<lambda>e. mr_run (el_row e)) es)),
           ag_last_run = Max (set (map (\<lambda>e. mr_run (el_row e)) es)) \<rparr>)"

section \<open>The derived tables\<close>

record DerivedRow =
  dr_version :: string
  dr_instrument :: int
  dr_time :: int
  dr_basis :: string
  dr_bar :: Aggregate
  dr_complete :: bool
  dr_quality :: string

definition quality_of :: "string \<Rightarrow> bool \<Rightarrow> string" where
  "quality_of verified full =
     (if verified \<noteq> ''VERIFIED'' then ''NOT_EVALUATED'' else if full then ''PASS'' else ''WARN'')"

text \<open>The key of a 4-hour group: instrument, basis, opening, bucket, slots, verification.\<close>

type_synonym key4 = "int \<times> string \<times> utc \<times> int \<times> int \<times> string"
type_synonym key1 = "int \<times> date \<times> string \<times> int \<times> string"

definition key_4h :: "EligibleBar \<Rightarrow> key4" where
  "key_4h e = (mr_instrument (el_row e), price_basis (mr_bar (el_row e)), el_open e, bucket_4h e,
     session_slots (el_open e) (el_close e), el_verified e)"

definition row_4h :: "string \<Rightarrow> key4 \<times> EligibleBar list \<Rightarrow> DerivedRow" where
  "row_4h version g = (case g of ((i, basis, o', b, slots, ver), es) \<Rightarrow>
     let a = aggregate es; full = (int (ag_slots a) = min 4 (slots - b * 4))
     in \<lparr> dr_version = version, dr_instrument = i, dr_time = o' + b * 4 * hour, dr_basis = basis,
          dr_bar = a, dr_complete = full, dr_quality = quality_of ver full \<rparr>)"

definition key_1d :: "EligibleBar \<Rightarrow> key1" where
  "key_1d e = (mr_instrument (el_row e), el_date e, price_basis (mr_bar (el_row e)),
     session_slots (el_open e) (el_close e), el_verified e)"

definition row_1d :: "string \<Rightarrow> key1 \<times> EligibleBar list \<Rightarrow> DerivedRow" where
  "row_1d version g = (case g of ((i, d, basis, slots, ver), es) \<Rightarrow>
     let a = aggregate es; full = (int (ag_slots a) = slots)
     in \<lparr> dr_version = version, dr_instrument = i, dr_time = d, dr_basis = basis,
          dr_bar = a, dr_complete = full, dr_quality = quality_of ver full \<rparr>)"

definition derived_key :: "DerivedRow \<Rightarrow> string \<times> int \<times> int \<times> string" where
  "derived_key r = (dr_version r, dr_instrument r, dr_time r, dr_basis r)"

record derived_db =
  bars_4h :: "DerivedRow list"
  bars_1d :: "DerivedRow list"

record rebuild_counts =
  deleted_4h :: nat
  deleted_1d :: nat
  inserted_4h :: nat
  inserted_1d :: nat

definition derivation_version :: string where "derivation_version = ''db3_accepted_1h_calendar_v1''"

definition rebuilt :: "string \<Rightarrow> int list option \<Rightarrow> DerivedRow \<Rightarrow> bool" where
  "rebuilt version ids r = (dr_version r = version \<and> selected ids (dr_instrument r))"

definition rebuild ::
  "string \<Rightarrow> int list option \<Rightarrow> calendar_db \<Rightarrow> MarketRow list \<Rightarrow> derived_db \<Rightarrow>
   exn + rebuild_counts \<times> derived_db" where
  "rebuild version ids cdb rows d =
     (if ids = Some []
      then Inr (\<lparr> deleted_4h = 0, deleted_1d = 0, inserted_4h = 0, inserted_1d = 0 \<rparr>, d)
      else
        let es = eligible_bars ids cdb rows;
            new4 = map (row_4h version) (group_rows key_4h es);
            new1 = map (row_1d version) (group_rows key_1d es);
            kept4 = filter (\<lambda>r. \<not> rebuilt version ids r) (bars_4h d);
            kept1 = filter (\<lambda>r. \<not> rebuilt version ids r) (bars_1d d)
        in ebind (insert_rows derived_key new4 kept4) (\<lambda>t4.
           ebind (insert_rows derived_key new1 kept1) (\<lambda>t1.
             Inr (\<lparr> deleted_4h = length (bars_4h d) - length kept4,
                    deleted_1d = length (bars_1d d) - length kept1,
                    inserted_4h = length new4, inserted_1d = length new1 \<rparr>,
                  \<lparr> bars_4h = t4, bars_1d = t1 \<rparr>))))"

section \<open>Groups\<close>

lemma group_rows_keys: "map fst (group_rows k xs) = remdups (map k xs)"
  by (simp add: group_rows_def comp_def)

lemma group_rows_mem:
  "(v, g) \<in> set (group_rows k xs) \<Longrightarrow> g = filter (\<lambda>x. k x = v) xs \<and> g \<noteq> []"
  by (auto simp: group_rows_def filter_empty_conv)

lemma group_rows_partition: "(\<Sum>g\<leftarrow>group_rows k xs. length (snd g)) = length xs"
proof -
  have "(\<Sum>v\<leftarrow>remdups (map k xs). length (filter (\<lambda>x. k x = v) xs)) = length xs"
  proof -
    have "(\<Sum>v\<leftarrow>vs. length (filter (\<lambda>x. k x = v) ys)) = length ys"
      if "distinct vs" "k ` set ys \<subseteq> set vs" for vs ys
      using that(2)
    proof (induction ys)
      case (Cons y ys)
      have "(\<Sum>v\<leftarrow>vs. length (filter (\<lambda>x. k x = v) (y # ys)))
          = (\<Sum>v\<leftarrow>vs. (if k y = v then 1 else 0) + length (filter (\<lambda>x. k x = v) ys))"
        by (intro arg_cong [where f = sum_list] map_cong) auto
      also have "\<dots> = (\<Sum>v\<leftarrow>vs. if k y = v then 1 else 0) + length ys"
        using Cons by (simp add: sum_list_addf)
      also have "(\<Sum>v\<leftarrow>vs. if k y = v then 1 else 0) = (1::nat)"
        using \<open>distinct vs\<close> Cons.prems by (simp add: sum_list_distinct_conv_sum_set sum.delta')
      finally show ?case by simp
    qed simp
    then show ?thesis by simp
  qed
  then show ?thesis by (simp add: group_rows_def comp_def)
qed

section \<open>Aggregates of well-formed bars\<close>

definition row_ok :: "MarketRow \<Rightarrow> bool" where
  "row_ok r = ohlc_ok (px_open (mr_bar r)) (px_high (mr_bar r)) (px_low (mr_bar r)) (px_close (mr_bar r))"

definition aggregate_ok :: "Aggregate \<Rightarrow> bool" where
  "aggregate_ok a = ohlc_ok (ag_open a) (ag_high a) (ag_low a) (ag_close a)"

lemma aggregate_is_ok:
  assumes "es \<noteq> []" and "list_all (\<lambda>e. row_ok (el_row e)) es"
  shows "aggregate_ok (aggregate es)"
proof -
  define os where "os = sort_key (\<lambda>e. bar_instant (el_row e)) es"
  have st: "set os = set es" and "length os = length es" by (simp_all add: os_def)
  then have "os \<noteq> []" using assms(1) by force
  then have os: "hd os \<in> set es" "last os \<in> set es"
    using st hd_in_set [of os] last_in_set [of os] by auto
  let ?H = "set (map (\<lambda>e. px_high (mr_bar (el_row e))) es)"
  let ?L = "set (map (\<lambda>e. px_low (mr_bar (el_row e))) es)"
  have ok: "ohlc_ok (px_open (mr_bar (el_row e))) (px_high (mr_bar (el_row e)))
      (px_low (mr_bar (el_row e))) (px_close (mr_bar (el_row e)))" if "e \<in> set es" for e
    using assms(2) that by (auto simp: list_all_iff row_ok_def)
  have H: "px_high (mr_bar (el_row e)) \<le> Max ?H" if "e \<in> set es" for e
    using that by (intro Max_ge) auto
  have L: "Min ?L \<le> px_low (mr_bar (el_row e))" if "e \<in> set es" for e
    using that by (intro Min_le) auto
  have "Min ?L \<in> ?L" using assms(1) by (intro Min_in) auto
  then have "0 < Min ?L" using ok by (auto simp: ohlc_ok_def)
  then show ?thesis
    using ok [OF os(1)] ok [OF os(2)] H [OF os(1)] H [OF os(2)] L [OF os(1)] L [OF os(2)]
    by (auto simp: aggregate_ok_def aggregate_def Let_def os_def [symmetric] ohlc_ok_def)
qed

section \<open>The rebuild\<close>

lemma insert_rows_app:
  "insert_rows k rs t = Inr t' \<Longrightarrow> t' = t @ rs"
proof (induction rs arbitrary: t)
  case (Cons r rs)
  then show ?case by (auto split: if_splits dest!: Cons.IH)
qed simp

lemma eligible_from:
  assumes "e \<in> set (eligible_bars ids cdb rows)"
  shows "el_row e \<in> set rows \<and> accepted ids (el_row e)
    \<and> el_open e \<le> bar_instant (el_row e) \<and> bar_instant (el_row e) < el_close e
    \<and> rounded_seconds (bar_instant (el_row e) - el_open e) mod 3600 = 0"
  using assms
  by (auto simp: eligible_bars_def joins_def List.map_filter_def split: option.splits if_splits)

lemma rebuild_parts:
  assumes "rebuild version ids cdb rows d = Inr (n, d')" and "ids \<noteq> Some []"
  shows "bars_4h d' = filter (\<lambda>r. \<not> rebuilt version ids r) (bars_4h d)
           @ map (row_4h version) (group_rows key_4h (eligible_bars ids cdb rows))"
    and "bars_1d d' = filter (\<lambda>r. \<not> rebuilt version ids r) (bars_1d d)
           @ map (row_1d version) (group_rows key_1d (eligible_bars ids cdb rows))"
  using assms
  by (auto simp: rebuild_def Let_def ebind_def split: sum.splits dest!: insert_rows_app)

lemma row_4h_from:
  assumes "g \<in> set (group_rows key_4h (eligible_bars ids cdb rows))"
  shows "dr_version (row_4h v g) = v \<and> selected ids (dr_instrument (row_4h v g))
    \<and> dr_bar (row_4h v g) = aggregate (snd g) \<and> snd g \<noteq> []
    \<and> set (snd g) \<subseteq> set (eligible_bars ids cdb rows)"
proof -
  obtain k es where g: "g = (k, es)" by (cases g)
  have mem: "es = filter (\<lambda>x. key_4h x = k) (eligible_bars ids cdb rows)" "es \<noteq> []"
    using group_rows_mem [of k es key_4h] assms unfolding g by auto
  have "hd es \<in> set es" using mem(2) by simp
  then have e: "hd es \<in> set (eligible_bars ids cdb rows)" "key_4h (hd es) = k"
    unfolding mem(1) by simp_all
  have "accepted ids (el_row (hd es))" using eligible_from [OF e(1)] by simp
  then show ?thesis
    using mem e(2) by (auto simp: g row_4h_def key_4h_def Let_def accepted_def split: prod.splits)
qed

lemma row_1d_from:
  assumes "g \<in> set (group_rows key_1d (eligible_bars ids cdb rows))"
  shows "dr_version (row_1d v g) = v \<and> selected ids (dr_instrument (row_1d v g))
    \<and> dr_bar (row_1d v g) = aggregate (snd g) \<and> snd g \<noteq> []
    \<and> set (snd g) \<subseteq> set (eligible_bars ids cdb rows)"
proof -
  obtain k es where g: "g = (k, es)" by (cases g)
  have mem: "es = filter (\<lambda>x. key_1d x = k) (eligible_bars ids cdb rows)" "es \<noteq> []"
    using group_rows_mem [of k es key_1d] assms unfolding g by auto
  have "hd es \<in> set es" using mem(2) by simp
  then have e: "hd es \<in> set (eligible_bars ids cdb rows)" "key_1d (hd es) = k"
    unfolding mem(1) by simp_all
  have "accepted ids (el_row (hd es))" using eligible_from [OF e(1)] by simp
  then show ?thesis
    using mem e(2) by (auto simp: g row_1d_def key_1d_def Let_def accepted_def split: prod.splits)
qed

text \<open>C35: A rebuild of some instruments leaves every derived row of another instrument or version
  untouched; every row it writes is of a selected instrument and, when the curated bars are
  well formed, has a well-formed positive OHLC; and running it again on its own result gives the
  same rows.\<close>

theorem rebuild_is_scoped_and_idempotent:
  assumes "rebuild version ids cdb rows d = Inr (n, d')" and "list_all row_ok rows"
  shows "filter (\<lambda>r. \<not> rebuilt version ids r) (bars_4h d') = filter (\<lambda>r. \<not> rebuilt version ids r) (bars_4h d)
     \<and> filter (\<lambda>r. \<not> rebuilt version ids r) (bars_1d d') = filter (\<lambda>r. \<not> rebuilt version ids r) (bars_1d d)
     \<and> (ids \<noteq> Some [] \<longrightarrow> list_all (\<lambda>r. rebuilt version ids r \<longrightarrow> aggregate_ok (dr_bar r)) (bars_4h d' @ bars_1d d'))
     \<and> (\<exists>n'. rebuild version ids cdb rows d' = Inr (n', d'))"
proof (cases "ids = Some []")
  case True
  then show ?thesis using assms by (auto simp: rebuild_def)
next
  case False
  let ?es = "eligible_bars ids cdb rows"
  note p = rebuild_parts [OF assms(1) False]
  have r4: "rebuilt version ids (row_4h version g)" if "g \<in> set (group_rows key_4h ?es)" for g
    using row_4h_from [OF that, of version] by (simp add: rebuilt_def)
  have r1: "rebuilt version ids (row_1d version g)" if "g \<in> set (group_rows key_1d ?es)" for g
    using row_1d_from [OF that, of version] by (simp add: rebuilt_def)
  have kept4: "filter (\<lambda>r. \<not> rebuilt version ids r) (bars_4h d') = filter (\<lambda>r. \<not> rebuilt version ids r) (bars_4h d)"
    using r4 unfolding p(1) by (simp add: filter_empty_conv)
  have kept1: "filter (\<lambda>r. \<not> rebuilt version ids r) (bars_1d d') = filter (\<lambda>r. \<not> rebuilt version ids r) (bars_1d d)"
    using r1 unfolding p(2) by (simp add: filter_empty_conv)
  have ok: "list_all (\<lambda>e. row_ok (el_row e)) es" if "set es \<subseteq> set ?es" for es
    using that assms(2) eligible_from by (fastforce simp: list_all_iff)
  have a4: "aggregate_ok (dr_bar (row_4h version g))" if "g \<in> set (group_rows key_4h ?es)" for g
    using row_4h_from [OF that, of version] aggregate_is_ok [of "snd g"] ok [of "snd g"] by simp
  have a1: "aggregate_ok (dr_bar (row_1d version g))" if "g \<in> set (group_rows key_1d ?es)" for g
    using row_1d_from [OF that, of version] aggregate_is_ok [of "snd g"] ok [of "snd g"] by simp
  have all_ok: "list_all (\<lambda>r. rebuilt version ids r \<longrightarrow> aggregate_ok (dr_bar r)) (bars_4h d' @ bars_1d d')"
    using a4 a1 unfolding p by (auto simp: list_all_iff)
  have "\<exists>n'. rebuild version ids cdb rows d' = Inr (n', d')"
  proof -
    have "insert_rows derived_key (map (row_4h version) (group_rows key_4h ?es))
        (filter (\<lambda>r. \<not> rebuilt version ids r) (bars_4h d)) = Inr (bars_4h d')"
      "insert_rows derived_key (map (row_1d version) (group_rows key_1d ?es))
        (filter (\<lambda>r. \<not> rebuilt version ids r) (bars_1d d)) = Inr (bars_1d d')"
      using assms(1) False by (auto simp: rebuild_def Let_def ebind_def split: sum.splits)
    then show ?thesis using False kept4 kept1 by (auto simp: rebuild_def Let_def ebind_def)
  qed
  then show ?thesis using kept4 kept1 all_ok by blast
qed

text \<open>The rebuild loses no source bar: the slot counts of the four-hour rows it writes add up to
  the number of joined bars, and so do those of the daily rows; and a written row that is PASS
  rests on a verified calendar and is complete.\<close>

theorem rebuild_accounts_for_every_bar:
  assumes "rebuild version ids cdb rows d = Inr (n, d')" and "ids \<noteq> Some []"
  shows "(\<Sum>r\<leftarrow>filter (rebuilt version ids) (bars_4h d'). ag_slots (dr_bar r)) = length (eligible_bars ids cdb rows)
     \<and> (\<Sum>r\<leftarrow>filter (rebuilt version ids) (bars_1d d'). ag_slots (dr_bar r)) = length (eligible_bars ids cdb rows)
     \<and> list_all (\<lambda>r. \<not> (rebuilt version ids r \<and> dr_quality r = ''PASS'') \<or> dr_complete r)
         (bars_4h d' @ bars_1d d')"
proof -
  let ?es = "eligible_bars ids cdb rows"
  note p = rebuild_parts [OF assms]
  have new4: "filter (rebuilt version ids) (bars_4h d') = map (row_4h version) (group_rows key_4h ?es)"
    using row_4h_from [of _ ids cdb rows version]
    unfolding p(1) by (simp add: rebuilt_def filter_empty_conv filter_id_conv)
  have new1: "filter (rebuilt version ids) (bars_1d d') = map (row_1d version) (group_rows key_1d ?es)"
    using row_1d_from [of _ ids cdb rows version]
    unfolding p(2) by (simp add: rebuilt_def filter_empty_conv filter_id_conv)
  have s4: "map (\<lambda>r. ag_slots (dr_bar r)) (map (row_4h version) (group_rows key_4h ?es))
      = map (\<lambda>g. length (snd g)) (group_rows key_4h ?es)"
    by (simp add: row_4h_def aggregate_def Let_def split: prod.splits)
  have s1: "map (\<lambda>r. ag_slots (dr_bar r)) (map (row_1d version) (group_rows key_1d ?es))
      = map (\<lambda>g. length (snd g)) (group_rows key_1d ?es)"
    by (simp add: row_1d_def aggregate_def Let_def split: prod.splits)
  have q4: "dr_quality (row_4h version g) \<noteq> ''PASS'' \<or> dr_complete (row_4h version g)" for g
    by (auto simp: row_4h_def quality_of_def Let_def split: prod.splits)
  have q1: "dr_quality (row_1d version g) \<noteq> ''PASS'' \<or> dr_complete (row_1d version g)" for g
    by (auto simp: row_1d_def quality_of_def Let_def split: prod.splits)
  have "list_all (\<lambda>r. \<not> (rebuilt version ids r \<and> dr_quality r = ''PASS'') \<or> dr_complete r)
      (bars_4h d' @ bars_1d d')"
    using q4 q1 unfolding p by (auto simp: list_all_iff)
  then show ?thesis
    unfolding new4 new1 s4 s1 group_rows_partition by simp
qed

section \<open>A concrete rebuild\<close>

text \<open>Two hourly bars of a session of six and a half hours, over a stale and an unrelated row.\<close>

definition example_bar :: "utc \<Rightarrow> rat \<Rightarrow> NormalizedBar" where
  "example_bar t c = \<lparr> time_utc = Aware t, px_open = 10, px_high = 12, px_low = 9, px_close = c,
     open_bid = None, high_bid = None, low_bid = None, close_bid = None,
     open_ask = None, high_ask = None, low_ask = None, close_ask = None,
     volume = Some 5, market_trading_state = JNull, price_basis = ''TRADE'', is_complete = True,
     data_version = Some 1, delayed_by_minutes = None, retrieved_at_utc = Aware t,
     payload_sha256 = ''s'', artifact_relative_path = ''p'' \<rparr>"

definition example_market :: "MarketRow list" where
  "example_market = [
     \<lparr> mr_instrument = 1, mr_bar = example_bar hour 11, mr_run = 7, mr_quality = ''PASS'' \<rparr>,
     \<lparr> mr_instrument = 1, mr_bar = example_bar 0 10, mr_run = 6, mr_quality = ''PASS'' \<rparr>]"

definition example_calendars :: calendar_db where
  "example_calendars = \<lparr>
     calendars = [\<lparr> cal_id = ''XNYS_US_EQUITY'', exchange_id = None, cal_asset_type = ''Etf'',
       schedule_version = ''v1'', verification_status = ''VERIFIED'', effective_from = 0,
       effective_to = 1, source_sha256 = ''s'' \<rparr>],
     intervals = [\<lparr> iv_calendar = ''XNYS_US_EQUITY'', iv_date = 0, iv_sequence = 0,
       iv_session = \<lparr> session_date = 0, open_time_utc = Some 0, close_time_utc = Some (13 * hour div 2),
         session_status = OPEN \<rparr>, iv_sha256 = ''s'' \<rparr>],
     instruments = [\<lparr> in_id = 1, in_key = ''tip'', in_provider = ''SAXO'', in_environment = ''sim'',
       in_uic = 37, in_asset_type = ''Etf'', in_calendar = Some ''XNYS_US_EQUITY'', in_active_to = None \<rparr>] \<rparr>"

definition example_derived_row :: "int \<Rightarrow> DerivedRow" where
  "example_derived_row i = \<lparr> dr_version = derivation_version, dr_instrument = i, dr_time = 0, dr_basis = ''TRADE'',
     dr_bar = \<lparr> ag_open = 1, ag_high = 1, ag_low = 1, ag_close = 1, ag_volume = None, ag_slots = 1,
       ag_first_run = 1, ag_last_run = 1 \<rparr>, dr_complete = False, dr_quality = ''WARN'' \<rparr>"

definition example_derived :: derived_db where
  "example_derived = \<lparr> bars_4h = [example_derived_row 1, example_derived_row 2], bars_1d = [] \<rparr>"

lemma example_rebuild:
  "case rebuild derivation_version (Some [1]) example_calendars example_market example_derived of
     Inl _ \<Rightarrow> False
   | Inr (n, d') \<Rightarrow> deleted_4h n = 1 \<and> map (\<lambda>r. (dr_instrument r, ag_close (dr_bar r), ag_slots (dr_bar r))) (bars_4h d')
       = [(2, 1, 1), (1, 11, 2)] \<and> map dr_quality (bars_1d d') = [''WARN'']"
  by code_simp

lemma example_rebuild_result:
  obtains n d' where "rebuild derivation_version (Some [1]) example_calendars example_market example_derived = Inr (n, d')"
  using example_rebuild by (auto split: sum.splits prod.splits)

lemma example_market_ok: "list_all row_ok example_market"
  by (simp add: example_market_def row_ok_def example_bar_def ohlc_ok_def)

theorem rebuild_is_scoped_and_idempotent_witness:
  "\<exists>n d'. rebuild derivation_version (Some [1]) example_calendars example_market example_derived = Inr (n, d')
     \<and> (\<exists>n'. rebuild derivation_version (Some [1]) example_calendars example_market d' = Inr (n', d'))"
proof -
  obtain n d' where r: "rebuild derivation_version (Some [1]) example_calendars example_market example_derived = Inr (n, d')"
    by (rule example_rebuild_result)
  then show ?thesis
    using rebuild_is_scoped_and_idempotent [OF r example_market_ok] by blast
qed

theorem rebuild_accounts_for_every_bar_witness:
  "\<exists>n d'. rebuild derivation_version (Some [1]) example_calendars example_market example_derived = Inr (n, d')
     \<and> (\<Sum>r\<leftarrow>filter (rebuilt derivation_version (Some [1])) (bars_1d d'). ag_slots (dr_bar r))
       = length (eligible_bars (Some [1]) example_calendars example_market)"
proof -
  obtain n d' where r: "rebuild derivation_version (Some [1]) example_calendars example_market example_derived = Inr (n, d')"
    by (rule example_rebuild_result)
  then show ?thesis
    using rebuild_accounts_for_every_bar [OF r] by simp
qed

end
