(* ===== verification/RawArtifacts.thy ===== *)
theory RawArtifacts
  imports PyText
begin

text \<open>
  \<open>market_db/raw_artifacts.py\<close>: the redaction of a payload before it is retained, and the
  registration of the files of a run. The canonical JSON bytes and their SHA-256 are
  parameters (\<open>json.dumps\<close> and \<open>hashlib\<close>); writing and renaming the file is left out.
\<close>

section \<open>Redaction\<close>

definition drop_keys :: "string list" where
  "drop_keys = [''accountkey'', ''clientkey'', ''authorization'', ''cookie'', ''tradableon'']"

definition key_name :: "string \<Rightarrow> string" where
  "key_name k = lower (filter (\<lambda>c. c \<noteq> CHR ''_'') k)"

definition dropped :: "string \<Rightarrow> bool" where
  "dropped k = (key_name k \<in> set drop_keys)"

fun sanitize_payload :: "json \<Rightarrow> json"
  and sanitize_items :: "(string \<times> json) list \<Rightarrow> (string \<times> json) list"
  and sanitize_list :: "json list \<Rightarrow> json list" where
  "sanitize_payload (JObj kvs) = JObj (sanitize_items kvs)"
| "sanitize_payload (JArr xs) = JArr (sanitize_list xs)"
| "sanitize_payload v = v"
| "sanitize_items [] = []"
| "sanitize_items ((k, v) # kvs) =
     (if dropped k then sanitize_items kvs else (k, sanitize_payload v) # sanitize_items kvs)"
| "sanitize_list [] = []"
| "sanitize_list (x # xs) = sanitize_payload x # sanitize_list xs"

section \<open>Artifacts of a run\<close>

record ArtifactRecord =
  ar_path :: string
  ar_sha256 :: string
  ar_size :: nat
  ar_rows :: nat

definition hex_digit :: "char \<Rightarrow> bool" where
  "hex_digit c = (c \<in> set ''0123456789abcdef'')"

definition utc_run_id :: "string \<Rightarrow> string \<Rightarrow> exn + string" where
  "utc_run_id stamp sfx =
     (if length sfx = 8 \<and> list_all hex_digit sfx then Inr (stamp @ ''-'' @ sfx)
      else Inl (ValueError ''run suffix must be eight lowercase hex characters''))"

definition run_id_ok :: "string \<Rightarrow> bool" where
  "run_id_ok s =
     (length s = 25 \<and> list_all is_digit (take 8 s) \<and> s ! 8 = CHR ''T''
      \<and> list_all is_digit (take 6 (drop 9 s)) \<and> take 2 (drop 15 s) = ''Z-''
      \<and> list_all hex_digit (drop 17 s))"

definition run_artifacts :: "string \<Rightarrow> exn + string" where
  "run_artifacts run_id =
     (if run_id_ok run_id then Inr (''data/acquisition/runs/'' @ run_id)
      else Inl (ValueError ''invalid acquisition run id''))"

text \<open>\<open>Path(name).parts\<close>: the components between slashes.\<close>

fun path_parts :: "string \<Rightarrow> string \<Rightarrow> string list" where
  "path_parts acc [] = [rev acc]"
| "path_parts acc (c # cs) =
     (if c = CHR ''/'' then rev acc # path_parts [] cs else path_parts (c # acc) cs)"

definition run_relative :: "string \<Rightarrow> bool" where
  "run_relative name = (\<not> starts_with ''/'' name \<and> ''..'' \<notin> set (path_parts [] name))"

text \<open>The canonical encoding of a payload, already redacted: its digest and its size.\<close>

type_synonym encoding = "json \<Rightarrow> string \<times> nat"

definition write_json :: "encoding \<Rightarrow> string \<Rightarrow> string \<Rightarrow> json \<Rightarrow> nat \<Rightarrow> exn + ArtifactRecord" where
  "write_json enc dir name payload rows =
     (if \<not> run_relative name then Inl (ValueError ''artifact path must be run-relative'')
      else let (sha, size) = enc (sanitize_payload payload)
           in Inr \<lparr> ar_path = dir @ ''/'' @ name, ar_sha256 = sha, ar_size = size, ar_rows = rows \<rparr>)"

definition with_key :: "string \<Rightarrow> json \<Rightarrow> (string \<times> json) list \<Rightarrow> (string \<times> json) list" where
  "with_key k v kvs =
     (if k \<in> fst ` set kvs then map (\<lambda>p. if fst p = k then (k, v) else p) kvs else kvs @ [(k, v)])"

definition write_manifest :: "encoding \<Rightarrow> string \<Rightarrow> (string \<times> json) list \<Rightarrow> exn + ArtifactRecord" where
  "write_manifest enc dir payload =
     write_json enc dir ''run_manifest.json''
       (JObj (with_key ''account_identifier_saved'' (JBool False)
         (with_key ''access_token_saved'' (JBool False)
           (with_key ''orders_or_prechecks_sent'' (JInt 0) payload)))) 0"

section \<open>What is retained\<close>

text \<open>The keys that occur anywhere in a payload.\<close>

fun payload_keys :: "json \<Rightarrow> string set"
  and item_keys :: "(string \<times> json) list \<Rightarrow> string set"
  and list_keys :: "json list \<Rightarrow> string set" where
  "payload_keys (JObj kvs) = item_keys kvs"
| "payload_keys (JArr xs) = list_keys xs"
| "payload_keys v = {}"
| "item_keys [] = {}"
| "item_keys ((k, v) # kvs) = insert k (payload_keys v \<union> item_keys kvs)"
| "list_keys [] = {}"
| "list_keys (x # xs) = payload_keys x \<union> list_keys xs"

lemma sanitized_keys:
  "payload_keys (sanitize_payload v) \<subseteq> {k \<in> payload_keys v. \<not> dropped k}"
  "item_keys (sanitize_items kvs) \<subseteq> {k \<in> item_keys kvs. \<not> dropped k}"
  "list_keys (sanitize_list xs) \<subseteq> {k \<in> list_keys xs. \<not> dropped k}"
  by (induction v and kvs and xs rule: sanitize_payload_sanitize_items_sanitize_list.induct) auto

lemma sanitize_clean:
  "(\<forall>k \<in> payload_keys v. \<not> dropped k) \<Longrightarrow> sanitize_payload v = v"
  "(\<forall>k \<in> item_keys kvs. \<not> dropped k) \<Longrightarrow> sanitize_items kvs = kvs"
  "(\<forall>k \<in> list_keys xs. \<not> dropped k) \<Longrightarrow> sanitize_list xs = xs"
  by (induction v and kvs and xs rule: sanitize_payload_sanitize_items_sanitize_list.induct) auto

text \<open>A retained payload holds no account, client, authorization, cookie or tradability key,
  at any depth and however the key is spelled in case and underscores; redacting again changes
  nothing; and a payload without such keys is retained as it is.\<close>

theorem redaction_is_complete:
  "(\<forall>k. k \<in> payload_keys (sanitize_payload v) \<longrightarrow> k \<in> payload_keys v \<and> key_name k \<notin> set drop_keys)
   \<and> sanitize_payload (sanitize_payload v) = sanitize_payload v
   \<and> ((\<forall>k. k \<in> payload_keys v \<longrightarrow> key_name k \<notin> set drop_keys) \<longrightarrow> sanitize_payload v = v)"
proof -
  have a: "k \<in> payload_keys v \<and> \<not> dropped k" if "k \<in> payload_keys (sanitize_payload v)" for k
    using sanitized_keys(1) [of v] that by auto
  have b: "sanitize_payload (sanitize_payload v) = sanitize_payload v"
    by (rule sanitize_clean(1)) (use a in blast)
  have c: "sanitize_payload v = v" if "\<forall>k. k \<in> payload_keys v \<longrightarrow> key_name k \<notin> set drop_keys"
    by (rule sanitize_clean(1)) (use that in \<open>simp add: dropped_def\<close>)
  show ?thesis using a b c unfolding dropped_def by blast
qed

theorem redaction_is_complete_witness:
  "key_name ''Account_Key'' \<in> set drop_keys
   \<and> ''Account_Key'' \<notin> payload_keys (sanitize_payload (JObj [(''Account_Key'', JStr ''a''), (''Uic'', JInt 37)]))
   \<and> sanitize_payload (JObj [(''Uic'', JInt 37)]) = JObj [(''Uic'', JInt 37)]"
proof -
  let ?dirty = "JObj [(''Account_Key'', JStr ''a''), (''Uic'', JInt 37)]"
  let ?clean = "JObj [(''Uic'', JInt 37)]"
  have a: "key_name ''Account_Key'' \<in> set drop_keys" by code_simp
  have u: "key_name ''Uic'' \<notin> set drop_keys" by code_simp
  have b: "''Account_Key'' \<notin> payload_keys (sanitize_payload ?dirty)"
    using redaction_is_complete [THEN conjunct1, THEN spec, of "''Account_Key''" ?dirty] a by iprover
  have c: "\<forall>k. k \<in> payload_keys ?clean \<longrightarrow> key_name k \<notin> set drop_keys"
    using u by (simp only: payload_keys.simps item_keys.simps Un_empty insert_iff empty_iff simp_thms
      Un_empty_left Un_empty_right)
  show ?thesis
    using a b redaction_is_complete [of ?clean, THEN conjunct2, THEN conjunct2, THEN mp, OF c]
    by iprover
qed

lemma write_json_path:
  assumes "write_json enc dir name payload rows = Inr a"
  shows "ar_path a = dir @ ''/'' @ name \<and> run_relative name \<and> ar_rows a = rows
    \<and> enc (sanitize_payload payload) = (ar_sha256 a, ar_size a)"
  using assms by (auto simp: write_json_def Let_def split: if_splits prod.splits)

end
