(* ===== verification/MarketTables.thy ===== *)
theory MarketTables
  imports DeriveBars RawArtifacts
begin

text \<open>
  The tables of the market database that the ingest writes (\<open>db/migrations/0002\<close>, \<open>0010\<close>,
  \<open>0027\<close>, \<open>0029\<close>, \<open>0036\<close>), as lists of rows with their keys and check constraints, and the row
  operations that the ingest modules share: registering source files, staging bars, the upsert of
  the curated latest rows. Every horizon is 60 minutes. An identity column gives an id above every
  stored one. Foreign keys are left out: the ids come from the tables they point to.
\<close>

section \<open>Numeric columns\<close>

text \<open>A \<open>NUMERIC(p, s)\<close> column rounds to \<open>s\<close> places, ties away from zero.\<close>

definition numeric :: "nat \<Rightarrow> rat \<Rightarrow> rat" where
  "numeric s q = (let v = of_int \<lfloor>\<bar>q\<bar> * 10 ^ s + 1 / 2\<rfloor> / 10 ^ s in if q < 0 then - v else v)"

definition numeric_fits :: "nat \<Rightarrow> nat \<Rightarrow> rat \<Rightarrow> bool" where
  "numeric_fits p s q = (\<bar>numeric s q\<bar> < 10 ^ (p - s))"

text \<open>What the staging, raw and curated tables keep of a bar: their columns, at column precision.\<close>

definition prices :: "NormalizedBar \<Rightarrow> rat list" where
  "prices b = [px_open b, px_high b, px_low b, px_close b]
     @ List.map_filter id [open_bid b, high_bid b, low_bid b, close_bid b,
                           open_ask b, high_ask b, low_ask b, close_ask b]"

definition staged_bar :: "NormalizedBar \<Rightarrow> NormalizedBar" where
  "staged_bar b = b\<lparr>
     px_open := numeric 12 (px_open b), px_high := numeric 12 (px_high b),
     px_low := numeric 12 (px_low b), px_close := numeric 12 (px_close b),
     open_bid := map_option (numeric 12) (open_bid b), high_bid := map_option (numeric 12) (high_bid b),
     low_bid := map_option (numeric 12) (low_bid b), close_bid := map_option (numeric 12) (close_bid b),
     open_ask := map_option (numeric 12) (open_ask b), high_ask := map_option (numeric 12) (high_ask b),
     low_ask := map_option (numeric 12) (low_ask b), close_ask := map_option (numeric 12) (close_ask b),
     volume := map_option (numeric 8) (volume b), artifact_relative_path := [] \<rparr>"

definition curated_bar :: "NormalizedBar \<Rightarrow> NormalizedBar" where
  "curated_bar b = b\<lparr>delayed_by_minutes := None, payload_sha256 := [], artifact_relative_path := []\<rparr>"

definition sha256_ok :: "string \<Rightarrow> bool" where
  "sha256_ok s = (length s = 64 \<and> list_all hex_digit s)"

text \<open>A text column takes a text or null.\<close>

definition state_text_ok :: "json \<Rightarrow> bool" where
  "state_text_ok v = (case v of JStr _ \<Rightarrow> True | JNull \<Rightarrow> True | _ \<Rightarrow> False)"

definition storable :: "NormalizedBar \<Rightarrow> bool" where
  "storable b = (list_all (numeric_fits 24 12) (prices b)
     \<and> (case volume b of None \<Rightarrow> True | Some v \<Rightarrow> numeric_fits 30 8 v)
     \<and> state_text_ok (market_trading_state b) \<and> sha256_ok (payload_sha256 b))"

section \<open>Rows\<close>

record DatasetRow =
  ds_id :: string
  ds_name :: string
  ds_eligibility :: string
  ds_manifest_path :: string
  ds_manifest_sha256 :: string
  ds_instrument_count :: nat
  ds_warning_policy :: "string option"

record RunRow =
  rn_id :: int
  rn_trigger :: string
  rn_status :: string
  rn_error :: "string option"
  rn_step :: string
  rn_manifest_path :: string
  rn_manifest_sha256 :: "string option"
  rn_finished :: "utc option"
  rn_successful :: nat
  rn_inserted :: nat
  rn_updated :: nat
  rn_revision :: nat
  rn_rejected :: nat
  rn_event :: "int option"

record ScopeRow =
  sc_run :: int
  sc_instrument :: int
  sc_key :: string
  sc_uic :: int
  sc_asset_type :: string
  sc_basis :: string

record SourceRow =
  so_id :: int
  so_run :: int
  so_path :: string
  so_sha256 :: string
  so_size :: nat
  so_rows :: nat
  so_dataset :: string

record StagedRow =
  sg_run :: int
  sg_source :: int
  sg_instrument :: int
  sg_bar :: NormalizedBar

record WatermarkRow =
  wm_instrument :: int
  wm_basis :: string
  wm_seen :: utc
  wm_complete :: "utc option"
  wm_version :: "int option"
  wm_run :: "int option"
  wm_status :: string
  wm_updated :: utc

text \<open>The evidence a quality event carries in \<open>observed_value\<close>.\<close>

datatype quality_evidence =
    RunGate string string "string list"
  | HistoricalRevision NormalizedBar NormalizedBar
  | RemovedObservations nat
  | QuarantinedRow string bool string string "CrossedQuoteViolation list" "int option" string string
  | BoundedRevision int int nat nat nat nat
  | TotalReturnAudit string

record QualityEvent =
  qe_run :: int
  qe_instrument :: int
  qe_time :: "utc option"
  qe_rule :: string
  qe_severity :: string
  qe_evidence :: quality_evidence
  qe_status :: string

record RevisionEvent =
  re_id :: int
  re_instrument :: int
  re_basis :: string
  re_detected_run :: int
  re_applied_run :: "int option"
  re_old_version :: int
  re_new_version :: int
  re_status :: string
  re_from :: "utc option"
  re_to :: "utc option"
  re_compared :: nat
  re_content :: nat
  re_version_only :: nat
  re_new_rows :: nat
  re_removed :: nat
  re_affected_from :: "utc option"
  re_affected_to :: "utc option"
  re_anchor :: nat
  re_reason :: string
  re_manifest_path :: string
  re_manifest_sha256 :: string
  re_policy :: string
  re_review :: string
  re_reviewer :: "string option"
  re_note :: "string option"

record RevisionStep =
  rs_event :: int
  rs_number :: nat
  rs_requested :: nat
  rs_mode :: string
  rs_time :: utc
  rs_from :: utc
  rs_to :: utc
  rs_provider :: nat
  rs_matched :: nat
  rs_content :: nat
  rs_version_only :: nat
  rs_new_rows :: nat
  rs_removed :: nat
  rs_anchor :: nat
  rs_decision :: string
  rs_reason :: string
  rs_path :: string
  rs_sha256 :: string

record ImputationRow =
  im_policy :: string
  im_instrument :: int
  im_calendar :: string
  im_date :: date
  im_time :: utc
  im_price :: rat
  im_reason :: string
  im_source_time :: utc
  im_gap_index :: nat
  im_gap_count :: nat
  im_version :: int
  im_source_version :: int
  im_source_run :: "int option"
  im_source_sha256 :: string
  im_source_path :: string
  im_quality :: string
  im_review :: string

record market_db =
  catalog :: calendar_db
  datasets :: "DatasetRow list"
  runs :: "RunRow list"
  scopes :: "ScopeRow list"
  sources :: "SourceRow list"
  staging :: "StagedRow list"
  raw_bars :: "StagedRow list"
  curated :: "MarketRow list"
  watermarks :: "WatermarkRow list"
  derived :: derived_db
  imputations :: "ImputationRow list"
  imputation_scope :: "ImputationRow list"
  quality :: "QualityEvent list"
  revisions :: "RevisionEvent list"
  revision_steps :: "RevisionStep list"

section \<open>Keys and identities\<close>

definition fresh_id :: "('r \<Rightarrow> int) \<Rightarrow> 'r list \<Rightarrow> int" where
  "fresh_id f rows = 1 + Max (set (0 # map f rows))"

definition source_key :: "SourceRow \<Rightarrow> string \<times> string" where
  "source_key r = (so_path r, so_sha256 r)"

definition staged_key :: "StagedRow \<Rightarrow> int \<times> int \<times> datetime \<times> string" where
  "staged_key r = (sg_run r, sg_instrument r, time_utc (sg_bar r), price_basis (sg_bar r))"

definition staged_target :: "StagedRow \<Rightarrow> curated_key" where
  "staged_target r = (sg_instrument r, time_utc (sg_bar r), price_basis (sg_bar r))"

definition watermark_key :: "WatermarkRow \<Rightarrow> int \<times> string" where
  "watermark_key r = (wm_instrument r, wm_basis r)"

definition step_key :: "RevisionStep \<Rightarrow> int \<times> nat" where
  "step_key r = (rs_event r, rs_number r)"

definition imputation_key :: "ImputationRow \<Rightarrow> string \<times> int \<times> utc \<times> int" where
  "imputation_key r = (im_policy r, im_instrument r, im_time r, im_version r)"

lemma fresh_id_new: "r \<in> set rows \<Longrightarrow> f r < fresh_id f rows"
proof -
  assume "r \<in> set rows"
  then have "f r \<le> Max (set (0 # map f rows))" by (intro Max_ge) auto
  then show ?thesis by (simp add: fresh_id_def)
qed

section \<open>Source files\<close>

text \<open>\<open>INSERT ... ON CONFLICT (relative_path, sha256) DO UPDATE ... RETURNING source_file_id\<close>.\<close>

definition register_source ::
  "int \<Rightarrow> string \<Rightarrow> ArtifactRecord \<Rightarrow> SourceRow list \<Rightarrow> exn + int \<times> SourceRow list" where
  "register_source run dataset a t =
     (if \<not> sha256_ok (ar_sha256 a) \<or> \<not> run_relative (ar_path a)
      then Inl (DatabaseError ''CHECK_VIOLATION'')
      else case tbl_lookup source_key (ar_path a, ar_sha256 a) t of
             Some r \<Rightarrow> Inr (so_id r, tbl_upsert source_key (r\<lparr>so_size := ar_size a, so_rows := ar_rows a\<rparr>) t)
           | None \<Rightarrow>
               let n = fresh_id so_id t
               in Inr (n, t @ [\<lparr> so_id = n, so_run = run, so_path = ar_path a, so_sha256 = ar_sha256 a,
                                so_size = ar_size a, so_rows = ar_rows a, so_dataset = dataset \<rparr>]))"

fun register_sources ::
  "int \<Rightarrow> string \<Rightarrow> ArtifactRecord list \<Rightarrow> SourceRow list \<Rightarrow>
   exn + (string \<times> int) list \<times> SourceRow list" where
  "register_sources run dataset [] t = Inr ([], t)"
| "register_sources run dataset (a # rest) t =
     ebind (register_source run dataset a t) (\<lambda>(n, t1).
     ebind (register_sources run dataset rest t1) (\<lambda>(ids, t2).
       Inr ((if ar_path a \<in> fst ` set ids then ids else (ar_path a, n) # ids), t2)))"

section \<open>Staging\<close>

record InstrumentState =
  st_instrument :: int
  st_latest_complete :: "utc option"
  st_version :: "int option"
  st_status :: string

record AcquiredInstrument =
  ac_registry :: CanonicalInstrument
  ac_state :: InstrumentState
  ac_bars :: "NormalizedBar list"

definition staged_row :: "int \<Rightarrow> (string \<times> int) list \<Rightarrow> int \<Rightarrow> NormalizedBar \<Rightarrow> exn + StagedRow" where
  "staged_row run ids instrument b =
     (case map_of ids (artifact_relative_path b) of
        None \<Rightarrow> Inl KeyError
      | Some src \<Rightarrow> Inr \<lparr> sg_run = run, sg_source = src, sg_instrument = instrument, sg_bar = b \<rparr>)"

definition store_staged :: "StagedRow \<Rightarrow> exn + StagedRow" where
  "store_staged r = (if storable (sg_bar r) then Inr (r\<lparr>sg_bar := staged_bar (sg_bar r)\<rparr>)
                     else Inl (DatabaseError ''INVALID_COLUMN_VALUE''))"

definition stage ::
  "int \<Rightarrow> AcquiredInstrument list \<Rightarrow> (string \<times> int) list \<Rightarrow> StagedRow list \<Rightarrow> exn + StagedRow list" where
  "stage run acquired ids t =
     ebind (emap (\<lambda>(i, b). staged_row run ids i b)
              (concat (map (\<lambda>item. map (\<lambda>b. (st_instrument (ac_state item), b)) (ac_bars item)) acquired)))
       (\<lambda>rows. ebind (emap store_staged rows) (\<lambda>stored. insert_rows staged_key stored t))"

definition clear_staging :: "int \<Rightarrow> StagedRow list \<Rightarrow> StagedRow list" where
  "clear_staging run t = filter (\<lambda>r. sg_run r \<noteq> run) t"

definition staged_of :: "int \<Rightarrow> StagedRow list \<Rightarrow> StagedRow list" where
  "staged_of run t = filter (\<lambda>r. sg_run r = run) t"

section \<open>Curated latest rows\<close>

definition curated_row :: "StagedRow \<Rightarrow> MarketRow" where
  "curated_row s = \<lparr> mr_instrument = sg_instrument s, mr_bar = curated_bar (sg_bar s), mr_run = sg_run s,
     mr_quality = (if is_complete (sg_bar s) then ''PASS'' else ''NOT_EVALUATED'') \<rparr>"

text \<open>The columns whose change counts as a revision of a stored row.\<close>

definition row_content :: "NormalizedBar \<Rightarrow> rat list \<times> rat option list \<times> json \<times> bool" where
  "row_content b = ([px_open b, px_high b, px_low b, px_close b],
     [open_bid b, high_bid b, low_bid b, close_bid b, open_ask b, high_ask b, low_ask b, close_ask b, volume b],
     market_trading_state b, is_complete b)"

definition stored_bar :: "curated_key \<Rightarrow> MarketRow list \<Rightarrow> NormalizedBar option" where
  "stored_bar k t = map_option mr_bar (tbl_lookup curated_key k t)"

fun upsert_curated :: "StagedRow list \<Rightarrow> MarketRow list \<Rightarrow> exn + MarketRow list" where
  "upsert_curated [] t = Inr t"
| "upsert_curated (s # ss) t =
     (if row_ok (curated_row s) then upsert_curated ss (tbl_upsert curated_key (curated_row s) t)
      else Inl (DatabaseError ''CHECK_VIOLATION''))"

definition delete_curated :: "(curated_key \<Rightarrow> bool) \<Rightarrow> MarketRow list \<Rightarrow> MarketRow list" where
  "delete_curated P t = tbl_delete_keys curated_key P t"

text \<open>The curated table is a keyed store: the ingest lemmas use the store's laws.\<close>

interpretation curated_store: keyed_store curated_key "tbl_lookup curated_key" "tbl_upsert curated_key"
  delete_curated "tbl_wf curated_key"
  by unfold_locales (simp_all add: delete_curated_def table_simps)

section \<open>Well-formed tables\<close>

definition watermark_ok :: "WatermarkRow \<Rightarrow> bool" where
  "watermark_ok w = (case wm_complete w of None \<Rightarrow> True | Some c \<Rightarrow> c \<le> wm_seen w)"

definition market_wf :: "market_db \<Rightarrow> bool" where
  "market_wf db = (tbl_wf curated_key (curated db) \<and> list_all row_ok (curated db)
     \<and> tbl_wf watermark_key (watermarks db) \<and> list_all watermark_ok (watermarks db)
     \<and> tbl_wf staged_key (staging db) \<and> tbl_wf staged_key (raw_bars db))"

section \<open>Laws of the row operations\<close>

lemma curated_key_row [simp]: "curated_key (curated_row s) = staged_target s"
  by (simp add: curated_key_def curated_row_def staged_target_def curated_bar_def)

lemma insert_rows_keys:
  "insert_rows k rs t = Inr t' \<Longrightarrow> tbl_wf k t \<Longrightarrow> tbl_wf k t' \<and> t' = t @ rs"
proof (induction rs arbitrary: t)
  case (Cons r rs)
  have "tbl_wf k (t @ [r])" using Cons.prems by (auto simp: tbl_wf_def tbl_lookup_None split: if_splits)
  then show ?case using Cons.prems Cons.IH [of "t @ [r]"] by (auto split: if_splits)
qed simp

lemma upsert_curated_fold:
  "upsert_curated ss t = Inr t' \<longleftrightarrow>
     list_all (\<lambda>s. row_ok (curated_row s)) ss \<and> t' = fold (tbl_upsert curated_key) (map curated_row ss) t"
  by (induction ss arbitrary: t) auto

lemma tbl_upsert_set: "x \<in> set (tbl_upsert key r t) \<Longrightarrow> x = r \<or> x \<in> set t"
  by (induction t) (auto split: if_splits)

lemma upserts_set: "x \<in> set (fold (tbl_upsert key) rs t) \<Longrightarrow> x \<in> set rs \<or> x \<in> set t"
  by (induction rs arbitrary: t) (auto dest: tbl_upsert_set)

lemma upsert_curated_ok:
  assumes "upsert_curated ss t = Inr t'" and "tbl_wf curated_key t" and "list_all row_ok t"
  shows "tbl_wf curated_key t' \<and> list_all row_ok t'"
  using assms curated_store.wf_upserts
  by (auto simp: upsert_curated_fold list_all_iff dest!: upserts_set)

text \<open>The stored row of a key after an upsert: the last staged row of the key, else the old one.\<close>

lemma upsert_curated_lookup:
  assumes "upsert_curated ss t = Inr t'" and "distinct (map staged_target ss)"
  shows "tbl_lookup curated_key k t' =
    (case find (\<lambda>s. staged_target s = k) ss of Some s \<Rightarrow> Some (curated_row s) | None \<Rightarrow> tbl_lookup curated_key k t)"
proof -
  have t': "t' = fold (tbl_upsert curated_key) (map curated_row ss) t"
    using assms(1) by (simp add: upsert_curated_fold)
  have d: "distinct (map curated_key (map curated_row ss))" using assms(2) by (simp add: comp_def)
  show ?thesis
  proof (cases "find (\<lambda>s. staged_target s = k) ss")
    case None
    then have "k \<notin> curated_key ` set (map curated_row ss)" by (auto simp: find_None_iff)
    then show ?thesis using None by (simp add: t' curated_store.lookup_upserts_other)
  next
    case (Some s)
    then have s: "s \<in> set ss" "staged_target s = k"
      by (auto simp: find_Some_iff in_set_conv_nth)
    then have "tbl_lookup curated_key (curated_key (curated_row s)) t' = Some (curated_row s)"
      unfolding t' by (intro curated_store.lookup_upserts_distinct [OF d]) simp
    then show ?thesis using Some s by simp
  qed
qed

lemma register_sources_paths:
  "register_sources run ds arts t = Inr (ids, t') \<Longrightarrow> fst ` set ids = ar_path ` set arts"
proof (induction arts arbitrary: t ids t')
  case (Cons a arts)
  obtain n t1 ids2 where "register_sources run ds arts t1 = Inr (ids2, t')"
      "ids = (if ar_path a \<in> fst ` set ids2 then ids2 else (ar_path a, n) # ids2)"
    using Cons.prems by (auto simp: ebind_eq_Inr)
  then show ?case using Cons.IH by auto
qed simp

lemma stage_rows:
  assumes "stage run acquired ids t = Inr t'" and "tbl_wf staged_key t"
  shows "tbl_wf staged_key t' \<and> (\<exists>rows. t' = t @ rows
    \<and> map (\<lambda>s. (sg_run s, sg_instrument s, sg_bar s)) rows
      = concat (map (\<lambda>item. map (\<lambda>b. (run, st_instrument (ac_state item), staged_bar b)) (ac_bars item)) acquired))"
proof -
  let ?in = "concat (map (\<lambda>item. map (\<lambda>b. (st_instrument (ac_state item), b)) (ac_bars item)) acquired)"
  obtain rows stored where r: "emap (\<lambda>(i, b). staged_row run ids i b) ?in = Inr rows"
      "emap store_staged rows = Inr stored" "insert_rows staged_key stored t = Inr t'"
    using assms(1) by (auto simp: stage_def ebind_eq_Inr)
  have one: "map (\<lambda>s. (sg_run s, sg_instrument s, sg_bar s)) rows = map (\<lambda>(i, b). (run, i, b)) ?in"
    using r(1) unfolding emap_Inr_iff
    by (induction rule: list_all2_induct) (auto simp: staged_row_def split: option.splits)
  have two: "map (\<lambda>s. (sg_run s, sg_instrument s, sg_bar s)) stored
      = map (\<lambda>s. (sg_run s, sg_instrument s, staged_bar (sg_bar s))) rows"
    using r(2) unfolding emap_Inr_iff
    by (induction rule: list_all2_induct) (auto simp: store_staged_def split: if_splits)
  have "map (\<lambda>s. (sg_run s, sg_instrument s, staged_bar (sg_bar s))) rows
      = map (\<lambda>(r, i, b). (r, i, staged_bar b)) (map (\<lambda>s. (sg_run s, sg_instrument s, sg_bar s)) rows)"
    by simp
  also have "\<dots> = map (\<lambda>(r, i, b). (r, i, staged_bar b)) (map (\<lambda>(i, b). (run, i, b)) ?in)"
    by (simp only: one)
  also have "\<dots> = concat (map (\<lambda>item. map (\<lambda>b. (run, st_instrument (ac_state item), staged_bar b)) (ac_bars item)) acquired)"
    by (simp add: map_concat comp_def)
  finally show ?thesis using insert_rows_keys [OF r(3) assms(2)] two by auto
qed

end
