(* ===== verification/C2Imputation.thy ===== *)
theory C2Imputation
  imports MarketTables "HOL-Library.Product_Lexorder"
begin

text \<open>
  \<open>market_db/c2_imputation.py\<close>: the planner of the bounded hourly overlay of an ETF session, the
  append of an approved plan, and the refresh of the recent sessions inside the ingest's
  transaction. The prices of stored bars are finite decimals, so \<open>is_finite\<close> holds of each.
\<close>

section \<open>Policy\<close>

definition c2_policy_id :: string where "c2_policy_id = ''c2_etf_bounded_previous_valid_v1''"
definition c2_source_kind :: string where "c2_source_kind = ''IMPUTED_PREVIOUS_VALID''"
definition c2_review_id :: string where "c2_review_id = ''c2_gld_tip_live_confirmed_gap_20260807''"
definition c2_etf_keys :: "string list" where
  "c2_etf_keys = [''spy'', ''iwm'', ''efa'', ''eem'', ''vnq'', ''shy'', ''ief'', ''tlt'', ''tip'', ''lqd'', ''gld'']"
definition max_consecutive_missing :: nat where "max_consecutive_missing = 2"
definition max_missing_per_session :: nat where "max_missing_per_session = 2"

record ConfirmedScope =
  cf_date :: date
  cf_missing :: "utc list"
  cf_source :: utc
  cf_version :: int

definition confirmed_date :: date where "confirmed_date = date_of 2026 7 29"

definition confirmed_scope_of :: "int \<Rightarrow> ConfirmedScope" where
  "confirmed_scope_of version =
     \<lparr> cf_date = confirmed_date,
       cf_missing = [utc_of_date confirmed_date + 13 * hour + 30 * minute,
                     utc_of_date confirmed_date + 14 * hour + 30 * minute],
       cf_source = utc_of_date (date_of 2026 7 28) + 19 * hour + 30 * minute,
       cf_version = version \<rparr>"

definition confirmed_scope :: "string \<Rightarrow> ConfirmedScope option" where
  "confirmed_scope k = (if k = ''tip'' then Some (confirmed_scope_of 29759068)
                        else if k = ''gld'' then Some (confirmed_scope_of 29749768) else None)"

section \<open>Plans\<close>

record ImputedBar =
  ib_key :: string
  ib_date :: date
  ib_time :: utc
  ib_open :: rat
  ib_high :: rat
  ib_low :: rat
  ib_close :: rat
  ib_reason :: string
  ib_source_time :: utc
  ib_gap_index :: nat
  ib_gap_count :: nat
  ib_version :: int
  ib_source_version :: int
  ib_source_sha256 :: string
  ib_source_path :: string

record ImputationPlan =
  pl_key :: string
  pl_date :: date
  pl_status :: string
  pl_warnings :: "string list"
  pl_blockers :: "string list"
  pl_expected :: nat
  pl_actual :: nat
  pl_rows :: "ImputedBar list"

definition source_provenance_valid :: "NormalizedBar \<Rightarrow> bool" where
  "source_provenance_valid b =
     (sha256_ok (payload_sha256 b) \<and> artifact_relative_path b \<noteq> []
      \<and> \<not> starts_with ''/'' (artifact_relative_path b)
      \<and> ''..'' \<notin> set (path_parts [] (artifact_relative_path b)))"

definition valid_actual :: "NormalizedBar \<Rightarrow> bool" where
  "valid_actual b =
     (is_complete b \<and> 0 < px_open b \<and> 0 < px_high b \<and> 0 < px_low b \<and> 0 < px_close b
      \<and> max (px_open b) (max (px_low b) (px_close b)) \<le> px_high b
      \<and> px_low b \<le> min (px_open b) (min (px_high b) (px_close b)))"

definition blocked :: "string \<Rightarrow> date \<Rightarrow> string \<Rightarrow> nat \<Rightarrow> nat \<Rightarrow> ImputationPlan" where
  "blocked k d code n act = \<lparr> pl_key = k, pl_date = d, pl_status = code, pl_warnings = [],
     pl_blockers = [code], pl_expected = n, pl_actual = act, pl_rows = [] \<rparr>"

text \<open>The rows of the session that are at an expected time; \<open>Inl\<close> carries the rows found so far.\<close>

fun index_actual ::
  "utc list \<Rightarrow> NormalizedBar list \<Rightarrow> (utc \<times> NormalizedBar) list \<Rightarrow>
   string \<times> nat + (utc \<times> NormalizedBar) list" where
  "index_actual expected [] acc = Inr acc"
| "index_actual expected (b # bs) acc =
     (if tz_naive (time_utc b) then Inl (''BLOCKED_ACTUAL_TIME_INVALID'', length acc)
      else let t = instant (time_utc b)
           in if t \<in> fst ` set acc then Inl (''BLOCKED_ACTUAL_DUPLICATE'', length acc)
              else index_actual expected bs (if t \<in> set expected then acc @ [(t, b)] else acc))"

definition add_index :: "nat \<Rightarrow> nat list list \<Rightarrow> nat list list" where
  "add_index i rs = (if rs = [] \<or> i \<noteq> last (last rs) + 1 then rs @ [[i]]
                     else butlast rs @ [last rs @ [i]])"

definition gap_runs :: "nat list \<Rightarrow> nat list list" where
  "gap_runs is = fold add_index is []"

definition missing_indexes :: "utc list \<Rightarrow> (utc \<times> NormalizedBar) list \<Rightarrow> nat list" where
  "missing_indexes expected actual = filter (\<lambda>i. map_of actual (expected ! i) = None) [0..<length expected]"

record PlanContext =
  pc_key :: string
  pc_date :: date
  pc_expected :: "utc list"
  pc_actual :: "(utc \<times> NormalizedBar) list"
  pc_version :: int
  pc_source :: utc
  pc_previous :: "NormalizedBar option"
  pc_previous_time :: "utc option"

definition left_anchor :: "PlanContext \<Rightarrow> nat list \<Rightarrow> string + NormalizedBar \<times> string" where
  "left_anchor p run =
     (if hd run = 0 then
        (case (pc_previous p, pc_previous_time p) of
           (Some b, Some t) \<Rightarrow>
             if valid_actual b \<and> instant (time_utc b) = t
             then Inr (b, ''PROVIDER_SESSION_OPEN_ROWS_MISSING'')
             else Inl ''BLOCKED_SESSION_START_WITHOUT_PREVIOUS_ACTUAL''
         | _ \<Rightarrow> Inl ''BLOCKED_SESSION_START_WITHOUT_PREVIOUS_ACTUAL'')
      else
        (case map_of (pc_actual p) (pc_expected p ! (hd run - 1)) of
           Some b \<Rightarrow> if valid_actual b then Inr (b, ''PROVIDER_INTERNAL_SESSION_ROWS_MISSING'')
                     else Inl ''BLOCKED_LEFT_ACTUAL_ANCHOR_MISSING''
         | None \<Rightarrow> Inl ''BLOCKED_LEFT_ACTUAL_ANCHOR_MISSING''))"

definition imputed_bar :: "PlanContext \<Rightarrow> nat list \<Rightarrow> NormalizedBar \<Rightarrow> string \<Rightarrow> nat \<Rightarrow> nat \<Rightarrow> ImputedBar" where
  "imputed_bar p run b reason gap i =
     \<lparr> ib_key = pc_key p, ib_date = pc_date p, ib_time = pc_expected p ! i,
       ib_open = px_close b, ib_high = px_close b, ib_low = px_close b, ib_close = px_close b,
       ib_reason = reason, ib_source_time = instant (time_utc b),
       ib_gap_index = gap, ib_gap_count = length run,
       ib_version = pc_version p, ib_source_version = pc_version p,
       ib_source_sha256 = payload_sha256 b, ib_source_path = artifact_relative_path b \<rparr>"

definition plan_run :: "PlanContext \<Rightarrow> nat list \<Rightarrow> string + ImputedBar list" where
  "plan_run p run =
     (let right = last run + 1
      in case (if right < length (pc_expected p) then map_of (pc_actual p) (pc_expected p ! right) else None) of
           None \<Rightarrow> Inl ''BLOCKED_RIGHT_ACTUAL_ANCHOR_MISSING''
         | Some anchor \<Rightarrow>
             if data_version anchor \<noteq> Some (pc_version p) then Inl ''BLOCKED_DATA_VERSION_IDENTITY''
             else ebind (left_anchor p run) (\<lambda>(b, reason).
               if data_version b \<noteq> Some (pc_version p) then Inl ''BLOCKED_DATA_VERSION_IDENTITY''
               else if instant (time_utc b) \<noteq> pc_source p then Inl ''BLOCKED_UNAPPROVED_IMPUTATION_SOURCE''
               else if \<not> source_provenance_valid b then Inl ''BLOCKED_SOURCE_LINEAGE_MISSING''
               else Inr (map (\<lambda>(gap, i). imputed_bar p run b reason gap i) (enumerate 1 run))))"

definition plan_c2_session_imputation ::
  "string \<Rightarrow> date \<Rightarrow> datetime list \<Rightarrow> NormalizedBar list \<Rightarrow> bool \<Rightarrow>
   NormalizedBar option \<Rightarrow> datetime option \<Rightarrow> ImputationPlan" where
  "plan_c2_session_imputation instrument d expected_times bars verified prev prev_time =
     (let k = lower (strip instrument); n = length expected_times; stop = (\<lambda>code act. blocked k d code n act)
      in if k \<notin> set c2_etf_keys then stop ''BLOCKED_IMPUTATION_SCOPE'' 0
         else if \<not> verified then stop ''BLOCKED_CALENDAR_NOT_VERIFIED'' 0
         else if expected_times = [] \<or> list_ex tz_naive expected_times
         then stop ''BLOCKED_EXPECTED_SESSION_INVALID'' 0
         else
           let expected = map instant (sort expected_times)
           in if \<not> distinct expected then stop ''BLOCKED_EXPECTED_SESSION_DUPLICATE'' 0
              else case index_actual expected bars [] of
                Inl (code, act) \<Rightarrow> stop code act
              | Inr actual \<Rightarrow>
                  let act = length actual; missing = missing_indexes expected actual;
                      rs = gap_runs missing; versions = map (\<lambda>p. data_version (snd p)) actual
                  in if list_ex (\<lambda>p. \<not> valid_actual (snd p)) actual then stop ''BLOCKED_ACTUAL_QUALITY'' act
                     else if map_of actual (last expected) = None
                     then stop ''BLOCKED_DAILY_CLOSE_SOURCE_MISSING'' act
                     else if missing = []
                     then \<lparr> pl_key = k, pl_date = d, pl_status = ''PASS_NO_IMPUTATION'', pl_warnings = [],
                            pl_blockers = [], pl_expected = n, pl_actual = act, pl_rows = [] \<rparr>
                     else if length missing > max_missing_per_session
                     then stop ''BLOCKED_MISSING_PER_SESSION_LIMIT'' act
                     else if list_ex (\<lambda>r. length r > max_consecutive_missing) rs
                     then stop ''BLOCKED_CONSECUTIVE_MISSING_LIMIT'' act
                     else case confirmed_scope k of
                       None \<Rightarrow> stop ''BLOCKED_UNAPPROVED_IMPUTATION_SCOPE'' act
                     | Some cf \<Rightarrow>
                         if d \<noteq> cf_date cf \<or> map (\<lambda>i. expected ! i) missing \<noteq> cf_missing cf
                         then stop ''BLOCKED_UNAPPROVED_IMPUTATION_SCOPE'' act
                         else if None \<in> set versions \<or> card (set versions) \<noteq> 1
                         then stop ''BLOCKED_DATA_VERSION_IDENTITY'' act
                         else if the (hd versions) \<noteq> cf_version cf
                         then stop ''BLOCKED_UNAPPROVED_IMPUTATION_DATA_VERSION'' act
                         else
                           let p = \<lparr> pc_key = k, pc_date = d, pc_expected = expected, pc_actual = actual,
                                     pc_version = the (hd versions), pc_source = cf_source cf,
                                     pc_previous = prev,
                                     pc_previous_time = (case prev_time of
                                       Some (Aware t) \<Rightarrow> Some t | _ \<Rightarrow> None) \<rparr>
                           in case emap (plan_run p) rs of
                                Inl code \<Rightarrow> stop code act
                              | Inr rows \<Rightarrow>
                                  \<lparr> pl_key = k, pl_date = d, pl_status = ''PASS_WITH_IMPUTATION_WARNING'',
                                    pl_warnings = [''C2_BOUNDED_IMPUTED_PREVIOUS_VALID''], pl_blockers = [],
                                    pl_expected = n, pl_actual = act, pl_rows = concat rows \<rparr>)"

section \<open>Appending an approved plan\<close>

definition imputation_row ::
  "int \<Rightarrow> string \<Rightarrow> string \<Rightarrow> int option \<Rightarrow> ImputedBar \<Rightarrow> ImputationRow" where
  "imputation_row instrument cal review run b =
     \<lparr> im_policy = c2_policy_id, im_instrument = instrument, im_calendar = cal, im_date = ib_date b,
       im_time = ib_time b, im_price = numeric 12 (ib_close b), im_reason = ib_reason b,
       im_source_time = ib_source_time b, im_gap_index = ib_gap_index b, im_gap_count = ib_gap_count b,
       im_version = ib_version b, im_source_version = ib_source_version b, im_source_run = run,
       im_source_sha256 = ib_source_sha256 b, im_source_path = ib_source_path b,
       im_quality = ''WARN'', im_review = review \<rparr>"

text \<open>The check constraints of the overlay table and its reference to the confirmed scope.\<close>

definition imputation_check :: "ImputationRow \<Rightarrow> bool" where
  "imputation_check r = (0 < im_price r \<and> im_source_time r < im_time r
     \<and> 1 \<le> im_gap_index r \<and> im_gap_index r \<le> im_gap_count r \<and> im_gap_count r \<le> 2
     \<and> im_source_version r = im_version r \<and> sha256_ok (im_source_sha256 r) \<and> im_source_run r \<noteq> None)"

definition scope_reference :: "ImputationRow \<Rightarrow>
    string \<times> int \<times> utc \<times> int \<times> utc \<times> int \<times> int option \<times> string \<times> string \<times> string" where
  "scope_reference r = (im_policy r, im_instrument r, im_time r, im_version r, im_source_time r,
     im_source_version r, im_source_run r, im_source_sha256 r, im_source_path r, im_review r)"

definition append_imputation ::
  "ImputationRow list \<Rightarrow> ImputationRow \<Rightarrow> ImputationRow list \<Rightarrow> exn + nat \<times> ImputationRow list" where
  "append_imputation scope r t =
     (if \<not> imputation_check r then Inl (DatabaseError ''CHECK_VIOLATION'')
      else if tbl_lookup imputation_key (imputation_key r) t \<noteq> None then Inr (0, t)
      else if scope_reference r \<notin> scope_reference ` set scope
      then Inl (DatabaseError ''FOREIGN_KEY_VIOLATION'')
      else Inr (1, t @ [r]))"

fun append_imputations ::
  "ImputationRow list \<Rightarrow> ImputationRow list \<Rightarrow> ImputationRow list \<Rightarrow> exn + nat \<times> ImputationRow list" where
  "append_imputations scope [] t = Inr (0, t)"
| "append_imputations scope (r # rs) t =
     ebind (append_imputation scope r t) (\<lambda>(n, t1).
     ebind (append_imputations scope rs t1) (\<lambda>(m, t2). Inr (n + m, t2)))"

definition persist_c2_imputation_plan ::
  "ImputationRow list \<Rightarrow> int \<Rightarrow> string \<Rightarrow> string \<Rightarrow> ImputationPlan \<Rightarrow> (utc \<times> int) list \<Rightarrow>
   ImputationRow list \<Rightarrow> exn + nat \<times> ImputationRow list" where
  "persist_c2_imputation_plan scope instrument cal review plan source_runs t =
     (if pl_status plan \<noteq> ''PASS_WITH_IMPUTATION_WARNING'' then Inr (0, t)
      else if review \<noteq> c2_review_id then Inl (ValueError ''BLOCKED_UNAPPROVED_IMPUTATION_REVIEW'')
      else case confirmed_scope (pl_key plan) of
             None \<Rightarrow> Inl (ValueError ''BLOCKED_UNAPPROVED_IMPUTATION_SCOPE'')
           | Some cf \<Rightarrow>
               if map ib_time (pl_rows plan) \<noteq> cf_missing cf
               then Inl (ValueError ''BLOCKED_UNAPPROVED_IMPUTATION_SCOPE'')
               else append_imputations scope
                      (map (\<lambda>b. imputation_row instrument cal review (map_of source_runs (ib_source_time b)) b)
                        (pl_rows plan)) t)"

section \<open>Refreshing the recent sessions\<close>

text \<open>A stored row with the provenance of its raw revision and source file, empty when absent.\<close>

definition with_provenance :: "market_db \<Rightarrow> MarketRow \<Rightarrow> NormalizedBar" where
  "with_provenance db r =
     (let raw = find (\<lambda>s. sg_run s = mr_run r \<and> staged_target s = curated_key r) (raw_bars db);
          src = (case raw of None \<Rightarrow> None | Some s \<Rightarrow> find (\<lambda>f. so_id f = sg_source s) (sources db))
      in (mr_bar r)\<lparr>
           open_bid := None, high_bid := None, low_bid := None, close_bid := None,
           open_ask := None, high_ask := None, low_ask := None, close_ask := None,
           price_basis := ''native_ohlc'', delayed_by_minutes := None,
           payload_sha256 := (case raw of None \<Rightarrow> [] | Some s \<Rightarrow> payload_sha256 (sg_bar s)),
           artifact_relative_path := (case src of None \<Rightarrow> [] | Some f \<Rightarrow> so_path f)\<rparr>)"

definition native_rows :: "market_db \<Rightarrow> int \<Rightarrow> MarketRow list" where
  "native_rows db instrument =
     sort_key bar_instant
       (filter (\<lambda>r. mr_instrument r = instrument \<and> price_basis (mr_bar r) = ''native_ohlc'') (curated db))"

definition open_intervals :: "calendar_db \<Rightarrow> string \<Rightarrow> (IntervalRow \<times> utc \<times> utc) list" where
  "open_intervals cdb cal = List.map_filter (\<lambda>iv.
     if iv_calendar iv = cal \<and> session_status (iv_session iv) \<noteq> HOLIDAY then
       (case (open_time_utc (iv_session iv), close_time_utc (iv_session iv)) of
          (Some o', Some cl) \<Rightarrow> Some (iv, o', cl) | _ \<Rightarrow> None)
     else None) (intervals cdb)"

definition recent_sessions :: "calendar_db \<Rightarrow> string \<Rightarrow> utc \<Rightarrow> nat \<Rightarrow> (IntervalRow \<times> utc \<times> utc) list" where
  "recent_sessions cdb cal now lookback =
     (let past = sort_key (\<lambda>(iv, o', cl). (iv_date iv, iv_sequence iv))
                   (filter (\<lambda>(iv, o', cl). cl \<le> now) (open_intervals cdb cal))
      in drop (length past - lookback) past)"

definition previous_session :: "calendar_db \<Rightarrow> string \<Rightarrow> utc \<Rightarrow> (utc \<times> utc) option" where
  "previous_session cdb cal session_open =
     (case sort_key (\<lambda>(iv, o', cl). - cl) (filter (\<lambda>(iv, o', cl). cl \<le> session_open) (open_intervals cdb cal)) of
        [] \<Rightarrow> None | (iv, o', cl) # _ \<Rightarrow> Some (o', cl))"

definition previous_terminal :: "calendar_db \<Rightarrow> string \<Rightarrow> utc \<Rightarrow> utc option" where
  "previous_terminal cdb cal session_open =
     map_option (\<lambda>(o', cl). o' + terminal_slot_index (cl - o') * hour) (previous_session cdb cal session_open)"

text \<open>\<open>while slot < session_close\<close>, by hours.\<close>

definition expected_slots :: "utc \<Rightarrow> utc \<Rightarrow> datetime list" where
  "expected_slots o' cl = map (\<lambda>n. Aware (o' + int n * hour)) [0..<nat (session_slots o' cl)]"

record PlanResult =
  pr_key :: string
  pr_date :: date
  pr_status :: string
  pr_rows :: nat
  pr_warnings :: "string list"
  pr_blockers :: "string list"

definition session_plan ::
  "market_db \<Rightarrow> int \<Rightarrow> string \<Rightarrow> string \<Rightarrow> string option \<Rightarrow> IntervalRow \<times> utc \<times> utc \<Rightarrow>
   ImputationPlan \<times> (utc \<times> int) list" where
  "session_plan db instrument k cal verification s =
     (case s of (iv, o', cl) \<Rightarrow>
        let rows = filter (\<lambda>r. o' \<le> bar_instant r \<and> bar_instant r < cl) (native_rows db instrument);
            prev_time = previous_terminal (catalog db) cal o';
            prev = (case prev_time of None \<Rightarrow> None
                    | Some t \<Rightarrow> find (\<lambda>r. bar_instant r = t \<and> is_complete (mr_bar r) \<and> mr_quality r = ''PASS'')
                                 (native_rows db instrument));
            plan = plan_c2_session_imputation k (iv_date iv) (expected_slots o' cl)
                     (map (with_provenance db) rows) (verification = Some ''VERIFIED'')
                     (map_option (with_provenance db) prev) (map_option Aware prev_time);
            run_of = (\<lambda>r. (bar_instant r, mr_run r))
        in (plan, (case prev of None \<Rightarrow> [] | Some r \<Rightarrow> [run_of r]) @ rev (map run_of rows)))"

definition plan_result :: "string \<Rightarrow> ImputationPlan \<Rightarrow> PlanResult" where
  "plan_result k p = \<lparr> pr_key = k, pr_date = pl_date p, pr_status = pl_status p,
     pr_rows = length (pl_rows p), pr_warnings = pl_warnings p, pr_blockers = pl_blockers p \<rparr>"

fun refresh_sessions ::
  "market_db \<Rightarrow> int \<Rightarrow> string \<Rightarrow> string \<Rightarrow> string option \<Rightarrow> (IntervalRow \<times> utc \<times> utc) list \<Rightarrow>
   exn + (nat \<times> PlanResult list) \<times> market_db" where
  "refresh_sessions db instrument k cal verification [] = Inr ((0, []), db)"
| "refresh_sessions db instrument k cal verification (s # ss) =
     (case session_plan db instrument k cal verification s of (plan, runs_of) \<Rightarrow>
        ebind (persist_c2_imputation_plan (imputation_scope db) instrument cal c2_review_id plan runs_of
                 (imputations db)) (\<lambda>(n, t).
        ebind (refresh_sessions (db\<lparr>imputations := t\<rparr>) instrument k cal verification ss) (\<lambda>((m, ps), db').
          Inr ((n + m, plan_result k plan # ps), db'))))"

definition instrument_of :: "calendar_db \<Rightarrow> int \<Rightarrow> InstrumentRow option" where
  "instrument_of cdb i = find (\<lambda>r. in_id r = i) (instruments cdb)"

definition verification_of :: "calendar_db \<Rightarrow> string option \<Rightarrow> string option" where
  "verification_of cdb cal =
     (case cal of None \<Rightarrow> None
      | Some c \<Rightarrow> map_option verification_status (find (\<lambda>r. cal_id r = c) (calendars cdb)))"

fun refresh_instruments ::
  "utc \<Rightarrow> nat \<Rightarrow> int list \<Rightarrow> market_db \<Rightarrow> exn + (nat \<times> PlanResult list) \<times> market_db" where
  "refresh_instruments now lookback [] db = Inr ((0, []), db)"
| "refresh_instruments now lookback (i # is) db =
     (case instrument_of (catalog db) i of
        None \<Rightarrow> refresh_instruments now lookback is db
      | Some r \<Rightarrow>
          if lower (in_key r) \<notin> set c2_etf_keys \<or> in_asset_type r \<noteq> ''Etf''
          then refresh_instruments now lookback is db
          else
            let cal = (case in_calendar r of None \<Rightarrow> [] | Some c \<Rightarrow> c);
                ss = (case in_calendar r of None \<Rightarrow> [] | Some c \<Rightarrow> recent_sessions (catalog db) c now lookback)
            in ebind (refresh_sessions db i (lower (in_key r)) cal (verification_of (catalog db) (in_calendar r)) ss)
                 (\<lambda>((n, ps), db1).
               ebind (refresh_instruments now lookback is db1) (\<lambda>((m, qs), db2).
                 Inr ((n + m, ps @ qs), db2))))"

record RefreshResult =
  rf_status :: string
  rf_inserted :: nat
  rf_plans :: "PlanResult list"

definition refresh_c2_imputation_overlay ::
  "bool \<Rightarrow> utc \<Rightarrow> nat \<Rightarrow> int list \<Rightarrow> market_db \<Rightarrow> exn + RefreshResult \<times> market_db" where
  "refresh_c2_imputation_overlay migrated now lookback ids db =
     (let chosen = sorted_list_of_set (set ids)
      in if chosen = [] then Inr (\<lparr> rf_status = ''PASS'', rf_inserted = 0, rf_plans = [] \<rparr>, db)
         else if \<not> migrated
         then Inr (\<lparr> rf_status = ''NOT_APPLIED_SCHEMA'', rf_inserted = 0, rf_plans = [] \<rparr>, db)
         else ebind (refresh_instruments now lookback chosen db) (\<lambda>((n, ps), db').
           Inr (\<lparr> rf_status = (if list_ex (\<lambda>p. pr_warnings p \<noteq> []) ps then ''PASS_WITH_WARNINGS'' else ''PASS''),
                  rf_inserted = n, rf_plans = ps \<rparr>, db')))"

section \<open>Runs of missing slots\<close>

definition runs_ok :: "nat list list \<Rightarrow> bool" where
  "runs_ok rs = list_all (\<lambda>r. r \<noteq> [] \<and> r = [hd r..<hd r + length r]) rs"

lemma upt_snoc: "r \<noteq> [] \<Longrightarrow> r = [hd r..<hd r + length r] \<Longrightarrow>
    r @ [last r + 1] = [hd r..<hd r + length (r @ [last r + 1])]"
proof -
  assume a: "r \<noteq> []" "r = [hd r..<hd r + length r]"
  obtain m n where r: "r = [m..<m + Suc n]"
    using a by (cases r) (auto simp del: upt_Suc)
  have "hd r = m" "last r = m + n" "length r = Suc n" unfolding r by (simp_all add: hd_append)
  then show ?thesis unfolding r by simp
qed

lemma add_index_ok: "runs_ok rs \<Longrightarrow> runs_ok (add_index i rs) \<and> concat (add_index i rs) = concat rs @ [i]"
proof (cases "rs = [] \<or> i \<noteq> last (last rs) + 1")
  case True
  assume "runs_ok rs"
  with True show ?thesis by (auto simp: add_index_def runs_ok_def)
next
  case False
  assume ok: "runs_ok rs"
  obtain bs r where rs: "rs = bs @ [r]" using False by (cases rs rule: rev_cases) auto
  have "r \<noteq> []" "r = [hd r..<hd r + length r]" using ok by (simp_all add: rs runs_ok_def)
  from upt_snoc [OF this] this show ?thesis
    using False ok by (simp add: rs add_index_def runs_ok_def)
qed

lemma gap_runs_ok: "runs_ok (gap_runs is) \<and> concat (gap_runs is) = is"
proof -
  have "runs_ok rs \<Longrightarrow> runs_ok (fold add_index is rs) \<and> concat (fold add_index is rs) = concat rs @ is" for rs
    by (induction "is" arbitrary: rs) (simp_all add: add_index_ok)
  from this [of "[]"] show ?thesis by (simp add: gap_runs_def runs_ok_def)
qed

section \<open>Sound plans\<close>

lemma index_actual_set:
  "index_actual expected bs acc = Inr actual \<Longrightarrow>
     set actual = set acc \<union> (\<lambda>b. (instant (time_utc b), b)) ` {b \<in> set bs. instant (time_utc b) \<in> set expected}"
  by (induction bs arbitrary: acc) (auto simp: Let_def split: if_splits)

lemma missing_unobserved:
  assumes "index_actual expected bs [] = Inr actual" and "i \<in> set (missing_indexes expected actual)"
  shows "i < length expected \<and> (\<forall>b \<in> set bs. instant (time_utc b) \<noteq> expected ! i)"
proof -
  have "i < length expected" "expected ! i \<notin> fst ` set actual"
    using assms(2) by (auto simp: missing_indexes_def map_of_eq_None_iff)
  moreover from this(1) have "expected ! i \<in> set expected" by simp
  moreover have "expected ! i \<in> fst ` set actual" if "b \<in> set bs" "instant (time_utc b) = expected ! i" for b
  proof -
    have "(instant (time_utc b), b) \<in> set actual"
      using that calculation unfolding index_actual_set [OF assms(1)] by (intro UnI2 image_eqI [where x = b]) auto
    then show ?thesis using that(2) by force
  qed
  ultimately show ?thesis by blast
qed

text \<open>Everything that held on the way to a plan with rows.\<close>

definition plan_evidence ::
  "string \<Rightarrow> date \<Rightarrow> datetime list \<Rightarrow> NormalizedBar list \<Rightarrow> bool \<Rightarrow> NormalizedBar option \<Rightarrow>
   datetime option \<Rightarrow> ImputationPlan \<Rightarrow> ConfirmedScope \<Rightarrow> PlanContext \<Rightarrow> ImputedBar list list \<Rightarrow> bool" where
  "plan_evidence instrument d slot_times bars verified prev prev_time plan cf p rows =
     (verified \<and> confirmed_scope (lower (strip instrument)) = Some cf \<and> d = cf_date cf
      \<and> slot_times \<noteq> [] \<and> \<not> list_ex tz_naive slot_times
      \<and> pc_expected p = map instant (sort slot_times) \<and> distinct (pc_expected p)
      \<and> index_actual (pc_expected p) bars [] = Inr (pc_actual p)
      \<and> list_all (\<lambda>q. valid_actual (snd q)) (pc_actual p)
      \<and> map_of (pc_actual p) (last (pc_expected p)) \<noteq> None
      \<and> length (missing_indexes (pc_expected p) (pc_actual p)) \<le> max_missing_per_session
      \<and> map (\<lambda>i. pc_expected p ! i) (missing_indexes (pc_expected p) (pc_actual p)) = cf_missing cf
      \<and> pc_version p = cf_version cf \<and> pc_source p = cf_source cf \<and> pc_previous p = prev
      \<and> pc_previous_time p = (case prev_time of Some (Aware t) \<Rightarrow> Some t | _ \<Rightarrow> None)
      \<and> list_all (\<lambda>q. data_version (snd q) = Some (cf_version cf)) (pc_actual p)
      \<and> pc_key p = lower (strip instrument) \<and> pc_date p = d
      \<and> emap (plan_run p) (gap_runs (missing_indexes (pc_expected p) (pc_actual p))) = Inr rows
      \<and> pl_status plan = ''PASS_WITH_IMPUTATION_WARNING'' \<and> pl_rows plan = concat rows
      \<and> pl_key plan = lower (strip instrument))"

lemma one_version:
  assumes "None \<notin> set (map f xs)" and "card (set (map f xs)) = 1" and "the (hd (map f xs)) = v"
  shows "list_all (\<lambda>x. f x = Some v) xs"
proof -
  obtain y where y: "set (map f xs) = {y}" using assms(2) card_1_singletonE by blast
  then have "hd (map f xs) = y" using hd_in_set [of "map f xs"] by (cases xs) auto
  moreover have "y \<noteq> None" using assms(1) y by auto
  moreover have "f x = y" if "x \<in> set xs" for x
    using y that by (metis image_eqI list.set_map singletonD)
  ultimately show ?thesis using assms(3) by (auto simp: list_all_iff)
qed

lemma plan_with_rows:
  assumes "pl_rows (plan_c2_session_imputation instrument d slot_times bars verified prev prev_time) \<noteq> []"
  shows "\<exists>cf p rows. plan_evidence instrument d slot_times bars verified prev prev_time
    (plan_c2_session_imputation instrument d slot_times bars verified prev prev_time) cf p rows"
proof -
  let ?k = "lower (strip instrument)" and ?exp = "map instant (sort slot_times)"
  have head: "?k \<in> set c2_etf_keys" "verified" "distinct ?exp"
      "\<not> (slot_times = [] \<or> list_ex tz_naive slot_times)"
    using assms
    by (auto simp: plan_c2_session_imputation_def Let_def blocked_def split: if_splits)
  obtain actual where act: "index_actual ?exp bars [] = Inr actual"
    using assms head
    by (cases "index_actual ?exp bars []") (auto simp: plan_c2_session_imputation_def Let_def blocked_def)
  let ?missing = "missing_indexes ?exp actual" and ?versions = "map (\<lambda>p. data_version (snd p)) actual"
  have mid: "\<not> list_ex (\<lambda>p. \<not> valid_actual (snd p)) actual" "map_of actual (last ?exp) \<noteq> None"
      "?missing \<noteq> []" "\<not> length ?missing > max_missing_per_session"
    using assms head act
    by (auto simp: plan_c2_session_imputation_def Let_def blocked_def split: if_splits)
  obtain cf where cf: "confirmed_scope ?k = Some cf"
    using assms head act mid
    by (cases "confirmed_scope ?k") (auto simp: plan_c2_session_imputation_def Let_def blocked_def split: if_splits)
  have tail: "d = cf_date cf" "map (\<lambda>i. ?exp ! i) ?missing = cf_missing cf"
      "the (hd ?versions) = cf_version cf"
    using assms head act mid cf
    by (auto simp: plan_c2_session_imputation_def Let_def blocked_def split: if_splits)
  have "None \<notin> set ?versions" "card (set ?versions) = 1"
    using assms head act mid cf tail
    by (auto simp: plan_c2_session_imputation_def Let_def blocked_def split: if_splits)
  then have vers: "list_all (\<lambda>q. data_version (snd q) = Some (cf_version cf)) actual"
    by (rule one_version [OF _ _ tail(3)])
  define p where "p = \<lparr> pc_key = ?k, pc_date = cf_date cf, pc_expected = ?exp, pc_actual = actual,
    pc_version = cf_version cf, pc_source = cf_source cf, pc_previous = prev,
    pc_previous_time = (case prev_time of Some (Aware t) \<Rightarrow> Some t | _ \<Rightarrow> None) \<rparr>"
  obtain rows where rows: "emap (plan_run p) (gap_runs ?missing) = Inr rows"
    using assms head act mid cf tail
    by (cases "emap (plan_run p) (gap_runs ?missing)")
      (auto simp: plan_c2_session_imputation_def Let_def blocked_def p_def [symmetric] split: if_splits)
  have "plan_evidence instrument d slot_times bars verified prev prev_time
      (plan_c2_session_imputation instrument d slot_times bars verified prev prev_time) cf p rows"
    using assms head act mid cf tail rows vers
    by (auto simp: plan_evidence_def plan_c2_session_imputation_def Let_def blocked_def p_def list_all_iff list_ex_iff split: if_splits)
  then show ?thesis by blast
qed

lemma sorted_instants:
  assumes "\<not> list_ex tz_naive slot_times"
  shows "sorted (map instant (sort slot_times))"
proof -
  have aware: "x \<in> set slot_times \<Longrightarrow> \<exists>t. x = Aware t" for x
    using assms by (cases x) (auto simp: list_ex_iff)
  have "sorted_wrt (\<lambda>x y. instant x \<le> instant y) (sort slot_times)"
  proof (rule sorted_wrt_mono_rel [OF _ sorted_sort [of slot_times]])
    fix x y assume "x \<in> set (sort slot_times)" "y \<in> set (sort slot_times)" "x \<le> y"
    then show "instant x \<le> instant y" using aware [of x] aware [of y] by auto
  qed
  then show ?thesis by (simp add: sorted_wrt_map)
qed

lemma left_anchor_actual:
  "left_anchor p run = Inr (b, reason) \<Longrightarrow>
     valid_actual b \<and> (pc_previous p = Some b \<and> pc_previous_time p = Some (instant (time_utc b)) \<or> b \<in> snd ` set (pc_actual p))"
  by (auto simp: left_anchor_def split: if_splits option.splits dest!: map_of_SomeD intro: rev_image_eqI)

lemma plan_run_rows:
  assumes "plan_run p run = Inr rows"
  shows "\<exists>b reason. left_anchor p run = Inr (b, reason) \<and> data_version b = Some (pc_version p)
    \<and> instant (time_utc b) = pc_source p \<and> source_provenance_valid b
    \<and> rows = map (\<lambda>(gap, i). imputed_bar p run b reason gap i) (enumerate 1 run)"
  using assms by (auto simp: plan_run_def Let_def ebind_eq_Inr split: if_splits option.splits)

lemma plan_run_times:
  assumes "plan_run p run = Inr rows"
  shows "map ib_time rows = map (\<lambda>i. pc_expected p ! i) run"
proof -
  obtain b reason where "rows = map (\<lambda>(gap, i). imputed_bar p run b reason gap i) (enumerate 1 run)"
    using plan_run_rows [OF assms] by blast
  then have "map ib_time rows = map (\<lambda>q. pc_expected p ! snd q) (enumerate 1 run)"
    by (simp add: imputed_bar_def case_prod_beta comp_def)
  also have "\<dots> = map (\<lambda>i. pc_expected p ! i) (map snd (enumerate 1 run))"
    by (simp only: map_map comp_def)
  finally show ?thesis by (simp only: map_snd_enumerate)
qed

lemma plan_runs_times:
  "emap (plan_run p) rs = Inr rows \<Longrightarrow> map ib_time (concat rows) = map (\<lambda>i. pc_expected p ! i) (concat rs)"
  by (induction rs arbitrary: rows) (auto simp: ebind_eq_Inr plan_run_times)

lemma confirmed_source_first:
  "confirmed_scope k = Some cf \<Longrightarrow> t \<in> set (cf_missing cf) \<Longrightarrow> cf_source cf < t"
proof -
  assume a: "confirmed_scope k = Some cf" "t \<in> set (cf_missing cf)"
  have "utc_of_date (date_of 2026 7 28) + 19 * hour + 30 * minute < utc_of_date confirmed_date + 13 * hour + 30 * minute"
    by code_simp
  moreover have "(0::int) < hour" by (simp add: hour_def)
  ultimately show ?thesis using a by (auto simp: confirmed_scope_def confirmed_scope_of_def split: if_splits)
qed

lemma sorted_last_max: "sorted xs \<Longrightarrow> x \<in> set xs \<Longrightarrow> x \<le> last xs"
proof (induction xs)
  case (Cons a xs)
  then show ?case using last_in_set [of xs] by (cases "xs = []") auto
qed simp

text \<open>C34: A planned imputation is confined to the confirmed scope and sourced: it exists only on a
  verified calendar for an instrument and a date that were confirmed, fills exactly the confirmed missing
  slots (at most two), never a slot that has a bar and never the session's last slot, which has a valid
  actual bar. The bars of the session's slots and the imputed rows all have the confirmed data version, and
  every row copies the close, digest and file of the valid, completed actual bar with audited provenance that
  lies at the confirmed source time, before the row.\<close>

theorem plan_is_confined_and_sourced:
  fixes instrument d slot_times bars verified prev prev_time
  defines "plan \<equiv> plan_c2_session_imputation instrument d slot_times bars verified prev prev_time"
  assumes r: "r \<in> set (pl_rows plan)"
  shows "verified \<and> length (pl_rows plan) \<le> 2
    \<and> ib_key r = lower (strip instrument) \<and> ib_date r = d
    \<and> (\<exists>cf. confirmed_scope (lower (strip instrument)) = Some cf \<and> d = cf_date cf
        \<and> map ib_time (pl_rows plan) = cf_missing cf
        \<and> ib_version r = cf_version cf \<and> ib_source_version r = cf_version cf \<and> ib_source_time r = cf_source cf
        \<and> (\<forall>b \<in> set bars. instant (time_utc b) \<in> instant ` set slot_times \<longrightarrow>
             valid_actual b \<and> data_version b = Some (cf_version cf)))
    \<and> ib_time r \<in> instant ` set slot_times \<and> (\<forall>b \<in> set bars. instant (time_utc b) \<noteq> ib_time r)
    \<and> (\<exists>b \<in> set bars. valid_actual b \<and> (\<forall>t \<in> set slot_times. instant t \<le> instant (time_utc b)))
    \<and> (\<exists>src. (src \<in> set bars \<or> prev = Some src \<and> (\<exists>t. prev_time = Some (Aware t) \<and> t = instant (time_utc src)))
        \<and> valid_actual src \<and> source_provenance_valid src
        \<and> data_version src = Some (ib_version r) \<and> ib_source_time r = instant (time_utc src)
        \<and> ib_source_sha256 r = payload_sha256 src \<and> ib_source_path r = artifact_relative_path src
        \<and> ib_source_time r < ib_time r
        \<and> [ib_open r, ib_high r, ib_low r, ib_close r] = replicate 4 (px_close src))"
proof -
  have "pl_rows plan \<noteq> []" using r by auto
  then obtain cf p rows where e: "plan_evidence instrument d slot_times bars verified prev prev_time plan cf p rows"
    using plan_with_rows unfolding plan_def by blast
  let ?exp = "pc_expected p" and ?missing = "missing_indexes (pc_expected p) (pc_actual p)"
  note ev = e [unfolded plan_evidence_def]
  have gaps: "concat (gap_runs ?missing) = ?missing" using gap_runs_ok [of ?missing] by simp
  have rw: "emap (plan_run p) (gap_runs ?missing) = Inr rows" and pr: "pl_rows plan = concat rows"
    and fill: "map (\<lambda>i. ?exp ! i) ?missing = cf_missing cf"
    and few: "length ?missing \<le> max_missing_per_session"
    and last_some: "map_of (pc_actual p) (last ?exp) \<noteq> None"
    and all_valid: "list_all (\<lambda>q. valid_actual (snd q)) (pc_actual p)"
    and cf: "confirmed_scope (lower (strip instrument)) = Some cf"
    and pv: "pc_previous p = prev" and psrc: "pc_source p = cf_source cf"
    using ev by blast+
  have timing: "map ib_time (pl_rows plan) = map (\<lambda>i. ?exp ! i) ?missing"
    using plan_runs_times [OF rw] by (simp only: pr gaps)
  have exp_def: "?exp = map instant (sort slot_times)" and aware: "\<not> list_ex tz_naive slot_times"
    using ev by blast+
  have set_exp: "set ?exp = instant ` set slot_times" by (simp add: exp_def)
  have idx: "index_actual ?exp bars [] = Inr (pc_actual p)" using ev by blast
  have actual: "set (pc_actual p) = (\<lambda>b. (instant (time_utc b), b)) ` {b \<in> set bars. instant (time_utc b) \<in> set ?exp}"
    using index_actual_set [OF idx] by simp
  have "ib_time r \<in> set (map ib_time (pl_rows plan))" using r by simp
  then obtain i where i: "i \<in> set ?missing" "ib_time r = ?exp ! i" unfolding timing by auto
  note mi = missing_unobserved [OF idx i(1)]
  have len: "length (pl_rows plan) \<le> 2"
    using arg_cong [OF timing, of length] few by (simp add: max_missing_per_session_def)
  have missing: "map ib_time (pl_rows plan) = cf_missing cf" using timing fill by simp
  obtain tb where tb: "map_of (pc_actual p) (last ?exp) = Some tb" using last_some by blast
  then have "(last ?exp, tb) \<in> set (pc_actual p)" by (rule map_of_SomeD)
  then have tb2: "tb \<in> set bars" "instant (time_utc tb) = last ?exp" "valid_actual tb"
    using actual all_valid by (auto simp: list_all_iff)
  have srt: "sorted ?exp" unfolding exp_def by (rule sorted_instants [OF aware])
  have "\<forall>t \<in> set ?exp. t \<le> last ?exp"
    using srt sorted_last_max by blast
  then have terminal: "\<forall>t \<in> set slot_times. instant t \<le> instant (time_utc tb)"
    using tb2(2) set_exp by simp
  obtain rrows where rr: "rrows \<in> set rows" "r \<in> set rrows" using r unfolding pr by auto
  obtain run where run: "run \<in> set (gap_runs ?missing)" "plan_run p run = Inr rrows" "r \<in> set rrows"
    using emap_set [OF rw rr(1)] rr(2) by blast
  obtain b reason where b: "left_anchor p run = Inr (b, reason)" "data_version b = Some (pc_version p)"
      "instant (time_utc b) = pc_source p" "source_provenance_valid b"
      "rrows = map (\<lambda>(gap, i). imputed_bar p run b reason gap i) (enumerate 1 run)"
    using plan_run_rows [OF run(2)] by blast
  obtain gap n where rb: "r = imputed_bar p run b reason gap n" using run(3) b(5) by auto
  have "pc_previous_time p = (case prev_time of Some (Aware t) \<Rightarrow> Some t | _ \<Rightarrow> None)" using ev by blast
  then have src: "valid_actual b"
      "b \<in> set bars \<or> prev = Some b \<and> (\<exists>t. prev_time = Some (Aware t) \<and> t = instant (time_utc b))"
    using left_anchor_actual [OF b(1)] actual pv by (auto split: option.splits datetime.splits)
  have exact: "list_all (\<lambda>q. data_version (snd q) = Some (cf_version cf)) (pc_actual p)" "pc_version p = cf_version cf"
      "pc_key p = lower (strip instrument)" "pc_date p = d" "d = cf_date cf" using ev by blast+
  have slots: "\<forall>b \<in> set bars. instant (time_utc b) \<in> instant ` set slot_times \<longrightarrow>
      valid_actual b \<and> data_version b = Some (cf_version cf)"
    using exact(1) all_valid unfolding list_all_iff actual set_exp by auto
  have before: "ib_source_time r < ib_time r"
  proof -
    have "ib_time r \<in> set (cf_missing cf)" using r missing [symmetric] by simp
    moreover have "ib_source_time r = cf_source cf" using rb b(3) psrc by (simp add: imputed_bar_def)
    ultimately show ?thesis using confirmed_source_first [OF cf] by simp
  qed
  have "\<exists>src. (src \<in> set bars \<or> prev = Some src \<and> (\<exists>t. prev_time = Some (Aware t) \<and> t = instant (time_utc src)))
      \<and> valid_actual src \<and> source_provenance_valid src
      \<and> data_version src = Some (ib_version r) \<and> ib_source_time r = instant (time_utc src)
      \<and> ib_source_sha256 r = payload_sha256 src \<and> ib_source_path r = artifact_relative_path src
      \<and> ib_source_time r < ib_time r
      \<and> [ib_open r, ib_high r, ib_low r, ib_close r] = replicate 4 (px_close src)"
    using src b(2,4) before by (intro exI [of _ b]) (simp add: rb imputed_bar_def numeral_eq_Suc)
  moreover have "ib_time r \<in> instant ` set slot_times"
    using mi i(2) set_exp [symmetric] by simp
  moreover have "\<forall>b \<in> set bars. instant (time_utc b) \<noteq> ib_time r" using mi i(2) by simp
  moreover have "\<exists>b \<in> set bars. valid_actual b \<and> (\<forall>t \<in> set slot_times. instant t \<le> instant (time_utc b))"
    using tb2 terminal by blast
  moreover have "ib_key r = lower (strip instrument)" "ib_date r = d"
    by (simp_all add: rb imputed_bar_def exact(3,4))
  moreover have "\<exists>cf. confirmed_scope (lower (strip instrument)) = Some cf \<and> d = cf_date cf
        \<and> map ib_time (pl_rows plan) = cf_missing cf
        \<and> ib_version r = cf_version cf \<and> ib_source_version r = cf_version cf \<and> ib_source_time r = cf_source cf
        \<and> (\<forall>b \<in> set bars. instant (time_utc b) \<in> instant ` set slot_times \<longrightarrow>
             valid_actual b \<and> data_version b = Some (cf_version cf))"
    using cf exact(5) missing slots by (intro exI [of _ cf]) (simp add: rb imputed_bar_def exact(2) b(3) psrc)
  moreover have "verified" using ev by blast
  ultimately show ?thesis using len by blast
qed

section \<open>The overlay is append-only\<close>

lemma append_imputations_app:
  "append_imputations scope rs t = Inr (n, t') \<Longrightarrow> \<exists>new. t' = t @ new \<and> length new = n"
proof (induction rs arbitrary: t n t')
  case (Cons r rs)
  obtain k t1 m where a: "append_imputation scope r t = Inr (k, t1)"
      "append_imputations scope rs t1 = Inr (m, t')" "n = k + m"
    using Cons.prems by (auto simp: ebind_eq_Inr)
  have "\<exists>u. t1 = t @ u \<and> length u = k"
    using a(1) by (auto simp: append_imputation_def split: if_splits)
  then show ?case using Cons.IH [OF a(2)] a(3) by auto
qed simp

lemma append_imputation_again:
  assumes "append_imputation scope r t = Inr (n, t1)" and "set t1 \<subseteq> set u"
  shows "append_imputation scope r u = Inr (0, u)"
proof -
  have "imputation_check r" using assms(1) by (auto simp: append_imputation_def split: if_splits)
  moreover have "imputation_key r \<in> imputation_key ` set t1"
    using assms(1) by (auto simp: append_imputation_def tbl_lookup_None split: if_splits)
  then have "tbl_lookup imputation_key (imputation_key r) u \<noteq> None"
    using assms(2) unfolding tbl_lookup_None by blast
  ultimately show ?thesis by (simp add: append_imputation_def)
qed

lemma append_imputations_again:
  "append_imputations scope rs t = Inr (n, t') \<Longrightarrow> set t' \<subseteq> set u \<Longrightarrow>
     append_imputations scope rs u = Inr (0, u)"
proof (induction rs arbitrary: t n)
  case (Cons r rs)
  obtain k t1 m where a: "append_imputation scope r t = Inr (k, t1)"
      "append_imputations scope rs t1 = Inr (m, t')"
    using Cons.prems(1) by (auto simp: ebind_eq_Inr)
  have "set t1 \<subseteq> set u" using append_imputations_app [OF a(2)] Cons.prems(2) by auto
  then show ?case
    using append_imputation_again [OF a(1)] Cons.IH [OF a(2) Cons.prems(2)] by simp
qed simp

lemma persist_app:
  "persist_c2_imputation_plan scope i cal review plan runs_of t = Inr (n, t') \<Longrightarrow>
     \<exists>new. t' = t @ new \<and> length new = n"
  by (auto simp: persist_c2_imputation_plan_def split: if_splits option.splits dest: append_imputations_app)

lemma persist_again:
  "persist_c2_imputation_plan scope i cal review plan runs_of t = Inr (n, t') \<Longrightarrow> set t' \<subseteq> set u \<Longrightarrow>
     persist_c2_imputation_plan scope i cal review plan runs_of u = Inr (0, u)"
  by (auto simp: persist_c2_imputation_plan_def split: if_splits option.splits dest: append_imputations_again)

lemma session_plan_frame [simp]:
  "session_plan (db\<lparr>imputations := t\<rparr>) i k cal v s = session_plan db i k cal v s"
proof -
  have "native_rows (db\<lparr>imputations := t\<rparr>) = native_rows db" by (rule ext) (simp add: native_rows_def)
  moreover have "with_provenance (db\<lparr>imputations := t\<rparr>) = with_provenance db"
    by (rule ext) (simp add: with_provenance_def cong: option.case_cong)
  ultimately show ?thesis by (simp add: session_plan_def cong: option.case_cong)
qed

text \<open>A refresh step only appends to the overlay, and repeated on a larger overlay it appends nothing.\<close>

definition appends ::
  "(market_db \<Rightarrow> exn + (nat \<times> PlanResult list) \<times> market_db) \<Rightarrow> market_db \<Rightarrow> nat \<Rightarrow> PlanResult list \<Rightarrow> market_db \<Rightarrow> bool" where
  "appends f db n ps db' = (\<exists>new. db' = db\<lparr>imputations := imputations db @ new\<rparr> \<and> length new = n
     \<and> (\<forall>u. set (imputations db') \<subseteq> set u \<longrightarrow>
          f (db\<lparr>imputations := u\<rparr>) = Inr ((0, ps), db\<lparr>imputations := u\<rparr>)))"

lemma refresh_sessions_appends:
  "refresh_sessions db i k cal v ss = Inr ((n, ps), db') \<Longrightarrow>
     appends (\<lambda>d. refresh_sessions d i k cal v ss) db n ps db'"
proof (induction ss arbitrary: db n ps)
  case (Cons s ss)
  obtain plan ro where sp: "session_plan db i k cal v s = (plan, ro)" by (cases "session_plan db i k cal v s")
  obtain a t b qs where r: "persist_c2_imputation_plan (imputation_scope db) i cal c2_review_id plan ro (imputations db) = Inr (a, t)"
      "refresh_sessions (db\<lparr>imputations := t\<rparr>) i k cal v ss = Inr ((b, qs), db')"
      "n = a + b" "ps = plan_result k plan # qs"
    using Cons.prems by (auto simp: sp ebind_eq_Inr)
  obtain new1 where n1: "t = imputations db @ new1" "length new1 = a" using persist_app [OF r(1)] by blast
  obtain new2 where n2: "db' = db\<lparr>imputations := t @ new2\<rparr>" "length new2 = b"
      "\<And>u. set (t @ new2) \<subseteq> set u \<Longrightarrow>
        refresh_sessions (db\<lparr>imputations := u\<rparr>) i k cal v ss = Inr ((0, qs), db\<lparr>imputations := u\<rparr>)"
    using Cons.IH [OF r(2)] by (auto simp: appends_def)
  have "refresh_sessions (db\<lparr>imputations := u\<rparr>) i k cal v (s # ss) = Inr ((0, ps), db\<lparr>imputations := u\<rparr>)"
    if u: "set (t @ new2) \<subseteq> set u" for u
    using persist_again [OF r(1), of u] u n2(3) [OF u] by (simp add: sp r(4))
  then show ?case unfolding appends_def
    using n1 n2 r(3) by (intro exI [of _ "new1 @ new2"]) simp
qed (simp add: appends_def)

lemma refresh_instruments_appends:
  "refresh_instruments now lookback js db = Inr ((n, ps), db') \<Longrightarrow>
     appends (refresh_instruments now lookback js) db n ps db'"
proof (induction js arbitrary: db n ps)
  case (Cons i js)
  show ?case
  proof (cases "instrument_of (catalog db) i")
    case None
    then show ?thesis using Cons by (simp add: appends_def)
  next
    case (Some r)
    show ?thesis
    proof (cases "lower (in_key r) \<notin> set c2_etf_keys \<or> in_asset_type r \<noteq> ''Etf''")
      case True
      then show ?thesis using Cons Some by (auto simp: appends_def)
    next
      case False
      define cal where "cal = (case in_calendar r of None \<Rightarrow> [] | Some c \<Rightarrow> c)"
      define ss where "ss = (case in_calendar r of None \<Rightarrow> [] | Some c \<Rightarrow> recent_sessions (catalog db) c now lookback)"
      define v where "v = verification_of (catalog db) (in_calendar r)"
      have step: "refresh_instruments now lookback (i # js) (db\<lparr>imputations := u\<rparr>) =
          ebind (refresh_sessions (db\<lparr>imputations := u\<rparr>) i (lower (in_key r)) cal v ss)
            (\<lambda>((n, ps), db1). ebind (refresh_instruments now lookback js db1) (\<lambda>((m, qs), db2).
               Inr ((n + m, ps @ qs), db2)))" for u
        using Some False by (simp add: cal_def ss_def v_def Let_def cong: option.case_cong)
      have same: "db\<lparr>imputations := imputations db\<rparr> = db" by simp
      have e: "ebind (refresh_sessions db i (lower (in_key r)) cal v ss)
            (\<lambda>((n, ps), db1). ebind (refresh_instruments now lookback js db1) (\<lambda>((m, qs), db2).
               Inr ((n + m, ps @ qs), db2))) = Inr ((n, ps), db')"
        using step [of "imputations db"] Cons.prems by (simp only: same)
      obtain a p1 db1 b p2 where r1: "refresh_sessions db i (lower (in_key r)) cal v ss = Inr ((a, p1), db1)"
          and r2: "refresh_instruments now lookback js db1 = Inr ((b, p2), db')"
          and nps: "n = a + b" "ps = p1 @ p2"
        using e by (auto simp: ebind_eq_Inr)
      obtain new1 where n1: "db1 = db\<lparr>imputations := imputations db @ new1\<rparr>" "length new1 = a"
          "\<And>u. set (imputations db @ new1) \<subseteq> set u \<Longrightarrow>
             refresh_sessions (db\<lparr>imputations := u\<rparr>) i (lower (in_key r)) cal v ss = Inr ((0, p1), db\<lparr>imputations := u\<rparr>)"
        using refresh_sessions_appends [OF r1] by (auto simp: appends_def)
      obtain new2 where n2: "db' = db\<lparr>imputations := imputations db @ new1 @ new2\<rparr>" "length new2 = b"
          "\<And>u. set (imputations db @ new1 @ new2) \<subseteq> set u \<Longrightarrow>
             refresh_instruments now lookback js (db\<lparr>imputations := u\<rparr>) = Inr ((0, p2), db\<lparr>imputations := u\<rparr>)"
        using Cons.IH [OF r2] by (auto simp: appends_def n1(1))
      have "refresh_instruments now lookback (i # js) (db\<lparr>imputations := u\<rparr>) = Inr ((0, ps), db\<lparr>imputations := u\<rparr>)"
        if u: "set (imputations db @ new1 @ new2) \<subseteq> set u" for u
        using n1(3) [of u] n2(3) [OF u] u by (simp only: step) (simp add: nps(2))
      then show ?thesis unfolding appends_def
        using n1(2) n2(1,2) nps(1) by (intro exI [of _ "new1 @ new2"]) simp
    qed
  qed
qed (simp add: appends_def)

lemma overlay_refresh_laws:
  assumes "refresh_c2_imputation_overlay migrated now lookback ids db = Inr (res, db')"
  shows "(\<exists>new. db' = db\<lparr>imputations := imputations db @ new\<rparr> \<and> length new = rf_inserted res)
     \<and> refresh_c2_imputation_overlay migrated now lookback ids db' = Inr (res\<lparr>rf_inserted := 0\<rparr>, db')"
proof (cases "sorted_list_of_set (set ids) = [] \<or> \<not> migrated")
  case True
  then have "db' = db" "rf_inserted res = 0"
      "refresh_c2_imputation_overlay migrated now lookback ids db = Inr (res\<lparr>rf_inserted := 0\<rparr>, db)"
    using assms by (auto simp: refresh_c2_imputation_overlay_def Let_def split: if_splits)
  then show ?thesis by (intro conjI exI [of _ "[]"]) simp_all
next
  case False
  let ?ids = "sorted_list_of_set (set ids)"
  obtain n ps where r: "refresh_instruments now lookback ?ids db = Inr ((n, ps), db')"
      "res = \<lparr> rf_status = (if list_ex (\<lambda>p. pr_warnings p \<noteq> []) ps then ''PASS_WITH_WARNINGS'' else ''PASS''),
               rf_inserted = n, rf_plans = ps \<rparr>"
    using assms False by (auto simp: refresh_c2_imputation_overlay_def Let_def ebind_eq_Inr)
  obtain new where new: "db' = db\<lparr>imputations := imputations db @ new\<rparr>" "length new = n"
      "\<And>u. set (imputations db') \<subseteq> set u \<Longrightarrow> refresh_instruments now lookback ?ids (db\<lparr>imputations := u\<rparr>)
         = Inr ((0, ps), db\<lparr>imputations := u\<rparr>)"
    using refresh_instruments_appends [OF r(1)] by (auto simp: appends_def)
  have "refresh_instruments now lookback ?ids db' = Inr ((0, ps), db')"
    using new(3) [of "imputations db @ new"] by (simp add: new(1))
  then show ?thesis
    using new(1,2) r(2) False by (auto simp: refresh_c2_imputation_overlay_def Let_def)
qed

lemma overlay_refresh_appends:
  assumes "refresh_c2_imputation_overlay migrated now lookback ids db = Inr (res, db')"
  shows "\<exists>new. db' = db\<lparr>imputations := imputations db @ new\<rparr> \<and> length new = rf_inserted res"
  using overlay_refresh_laws [OF assms] by blast

text \<open>A refresh of the overlay touches nothing but the overlay, keeps every stored overlay
  row, appends exactly the rows it reports, and run again on its own result it appends none.\<close>

theorem overlay_refresh_appends_once:
  assumes "refresh_c2_imputation_overlay migrated now lookback ids db = Inr (res, db')"
  shows "(\<exists>new. db' = db\<lparr>imputations := imputations db @ new\<rparr> \<and> length new = rf_inserted res)
     \<and> refresh_c2_imputation_overlay migrated now lookback ids db' = Inr (res\<lparr>rf_inserted := 0\<rparr>, db')"
  by (rule overlay_refresh_laws [OF assms])

section \<open>The confirmed gap of TIP\<close>

definition example_sha :: string where "example_sha = replicate 64 (CHR ''a'')"

definition tip_bar :: "utc \<Rightarrow> NormalizedBar" where
  "tip_bar t = (example_bar t 11)\<lparr>price_basis := ''native_ohlc'', data_version := Some 29759068,
     payload_sha256 := example_sha, artifact_relative_path := ''data/acquisition/runs/r/chart_0001.json''\<rparr>"

definition tip_open :: utc where "tip_open = utc_of_date confirmed_date + 13 * hour + 30 * minute"

definition tip_bars :: "NormalizedBar list" where
  "tip_bars = map (\<lambda>n. tip_bar (tip_open + n * hour)) [2, 3, 4, 5, 6]"

definition tip_previous :: utc where "tip_previous = tip_open - 18 * hour"

definition tip_plan :: ImputationPlan where
  "tip_plan = plan_c2_session_imputation ''TIP'' confirmed_date
     (map (\<lambda>n. Aware (tip_open + n * hour)) [0, 1, 2, 3, 4, 5, 6]) tip_bars True
     (Some (tip_bar tip_previous)) (Some (Aware tip_previous))"

lemma tip_plan_rows: "map ib_close (pl_rows tip_plan) = [11, 11] \<and> pl_actual tip_plan = 5"
  by code_simp

theorem plan_is_confined_and_sourced_witness:
  "\<exists>r. r \<in> set (pl_rows tip_plan) \<and> (\<forall>b. \<not> (b \<in> set tip_bars \<and> instant (time_utc b) = ib_time r))
     \<and> ib_source_time r < ib_time r"
proof -
  have "pl_rows tip_plan \<noteq> []" using tip_plan_rows by force
  then obtain r where r: "r \<in> set (pl_rows tip_plan)" using hd_in_set by blast
  show ?thesis
    using r plan_is_confined_and_sourced [OF r [unfolded tip_plan_def]] by (intro exI [of _ r]) blast
qed

definition tip_raw :: "int \<Rightarrow> utc \<Rightarrow> StagedRow" where
  "tip_raw run t = \<lparr> sg_run = run, sg_source = 1, sg_instrument = 9, sg_bar = tip_bar t \<rparr>"

definition tip_scope :: "int \<Rightarrow> utc \<Rightarrow> nat \<Rightarrow> ImputationRow" where
  "tip_scope run t n = \<lparr> im_policy = c2_policy_id, im_instrument = 9, im_calendar = ''XNYS_US_EQUITY'',
     im_date = confirmed_date, im_time = t, im_price = 11, im_reason = ''PROVIDER_SESSION_OPEN_ROWS_MISSING'',
     im_source_time = tip_previous, im_gap_index = n, im_gap_count = 2, im_version = 29759068,
     im_source_version = 29759068, im_source_run = Some run, im_source_sha256 = example_sha,
     im_source_path = ''data/acquisition/runs/r/chart_0001.json'', im_quality = ''WARN'', im_review = c2_review_id \<rparr>"

definition tip_interval :: "date \<Rightarrow> utc \<Rightarrow> IntervalRow" where
  "tip_interval d o' = \<lparr> iv_calendar = ''XNYS_US_EQUITY'', iv_date = d, iv_sequence = 0,
     iv_session = \<lparr> session_date = d, open_time_utc = Some o', close_time_utc = Some (o' + 13 * hour div 2),
       session_status = OPEN \<rparr>, iv_sha256 = example_sha \<rparr>"

definition tip_db :: market_db where
  "tip_db = \<lparr> catalog = \<lparr>
       calendars = calendars example_calendars,
       intervals = [tip_interval (confirmed_date - 1) (tip_open - day), tip_interval confirmed_date tip_open],
       instruments = [\<lparr> in_id = 9, in_key = ''TIP'', in_provider = ''Saxo OpenAPI'', in_environment = ''SIM'',
         in_uic = 37, in_asset_type = ''Etf'', in_calendar = Some ''XNYS_US_EQUITY'', in_active_to = None \<rparr>] \<rparr>,
     datasets = [], runs = [], scopes = [],
     sources = [\<lparr> so_id = 1, so_run = 5, so_path = ''data/acquisition/runs/r/chart_0001.json'',
       so_sha256 = example_sha, so_size = 1, so_rows = 6, so_dataset = ''d'' \<rparr>],
     staging = [], raw_bars = map (\<lambda>b. tip_raw 5 (instant (time_utc b))) (tip_bar tip_previous # tip_bars),
     curated = map (\<lambda>b. curated_row (tip_raw 5 (instant (time_utc b)))) (tip_bar tip_previous # tip_bars),
     watermarks = [], derived = \<lparr> bars_4h = [], bars_1d = [] \<rparr>, imputations = [],
     imputation_scope = [tip_scope 5 tip_open 1, tip_scope 5 (tip_open + hour) 2],
     quality = [], revisions = [], revision_steps = [] \<rparr>"

lemma tip_refresh:
  "case refresh_c2_imputation_overlay True (tip_open + day) 1 [9] tip_db of
     Inl _ \<Rightarrow> False | Inr (res, db') \<Rightarrow> rf_inserted res = 2 \<and> map im_price (imputations db') = [11, 11]"
  by code_simp

theorem overlay_refresh_appends_once_witness:
  "\<exists>res db'. refresh_c2_imputation_overlay True (tip_open + day) 1 [9] tip_db = Inr (res, db')
     \<and> rf_inserted res = 2
     \<and> refresh_c2_imputation_overlay True (tip_open + day) 1 [9] db' = Inr (res\<lparr>rf_inserted := 0\<rparr>, db')"
proof -
  obtain res db' where r: "refresh_c2_imputation_overlay True (tip_open + day) 1 [9] tip_db = Inr (res, db')"
      "rf_inserted res = 2"
    using tip_refresh by (auto split: sum.splits prod.splits)
  then show ?thesis using overlay_refresh_appends_once [OF r(1)] by blast
qed

end
