(* ===== verification/IncrementalStore.thy ===== *)
theory IncrementalStore
  imports C2Imputation "HOL-Library.List_Lexorder" "HOL-Library.Char_ord"
begin

text \<open>
  The database side of \<open>market_db/incremental_update.py\<close>: choosing the instruments, registering
  the dataset and the run, reading the state an acquisition starts from, comparing a revision
  sample, validating the quarantine, and the three ways a run ends: the atomic commit, the failure
  record and the revision warning.
\<close>

section \<open>Instruments and datasets\<close>

definition dataset_id :: string where "dataset_id = ''v13_saxo_sim_chart_60m_incremental_v1''"
definition spec_path :: string where
  "spec_path = ''specs/source_collection/v13_db3_incremental_collection.json''"
definition candidate_dataset_id :: string where
  "candidate_dataset_id = ''saxo_sim_fx_research_candidates_60m_v1''"
definition candidate_spec_path :: string where
  "candidate_spec_path = ''specs/source_collection/fx_research_candidates_v1.json''"
definition candidate_keys :: "string list" where "candidate_keys = [''audusd'', ''usdcad'', ''usdchf'']"
definition candidate_warning_policy :: string where
  "candidate_warning_policy = ''fx_research_candidate_user_approved_warnings_v1''"
definition quarantine_policy :: string where
  "quarantine_policy = ''db3_bounded_fx_extrema_quarantine_v1''"
definition revision_warning_policy :: string where
  "revision_warning_policy = ''data_version_revision_warning_v2''"
definition revision_warning_code :: string where
  "revision_warning_code = ''DATA_VERSION_REVISION_REVIEW_PENDING''"
definition max_quarantined_rows :: nat where "max_quarantined_rows = 10"
definition max_quarantined_rate :: rat where "max_quarantined_rate = 1 / 10000"

definition select_instruments ::
  "CanonicalInstrument list \<Rightarrow> CanonicalInstrument list \<Rightarrow> string list option \<Rightarrow>
   exn + CanonicalInstrument list" where
  "select_instruments canonical_rows candidate_rows keys =
     ebind (load_canonical_instruments canonical_rows) (\<lambda>canonical.
     case keys of None \<Rightarrow> Inr canonical
     | Some ks \<Rightarrow>
         let requested = map (\<lambda>k. lower (strip k)) ks
         in if requested = [] \<or> [] \<in> set requested \<or> \<not> distinct requested
            then Inl (ValueError ''instrument keys must be a non-empty unique canonical subset'')
            else ebind (load_research_candidate_instruments candidate_rows) (\<lambda>candidates.
              let by_key = map_of (rev (map (\<lambda>i. (i_key i, i)) (canonical @ candidates)))
              in if list_ex (\<lambda>k. by_key k = None) requested
                 then Inl (ValueError ''instrument keys contain an unreviewed key'')
                 else if list_ex (\<lambda>k. k \<in> set candidate_keys) requested
                       \<and> \<not> list_all (\<lambda>k. k \<in> set candidate_keys) requested
                 then Inl (ValueError ''canonical and research-candidate instruments must run separately'')
                 else Inr (map (\<lambda>k. the (by_key k)) requested)))"

record DatasetContract =
  dc_id :: string
  dc_path :: string
  dc_name :: string
  dc_eligibility :: string

definition canonical_contract :: DatasetContract where
  "canonical_contract = \<lparr> dc_id = dataset_id, dc_path = spec_path,
     dc_name = ''Saxo SIM canonical 13 incremental 60m chart'',
     dc_eligibility = ''operational_market_data_not_frozen_research_input'' \<rparr>"

definition candidate_contract :: DatasetContract where
  "candidate_contract = \<lparr> dc_id = candidate_dataset_id, dc_path = candidate_spec_path,
     dc_name = ''Saxo SIM FX research candidates 60m chart'', dc_eligibility = ''SIM_RESEARCH_CANDIDATE'' \<rparr>"

definition dataset_contract :: "CanonicalInstrument list \<Rightarrow> exn + DatasetContract" where
  "dataset_contract registry =
     (let ks = map i_key registry
      in if ks \<noteq> [] \<and> list_all (\<lambda>k. k \<in> set candidate_keys) ks then Inr candidate_contract
         else if list_ex (\<lambda>k. k \<in> set candidate_keys) ks
         then Inl (ValueError ''candidate dataset cannot be mixed with the canonical dataset'')
         else Inr canonical_contract)"

text \<open>The digest of the specification file is a parameter.\<close>

definition ensure_dataset ::
  "(string \<Rightarrow> string) \<Rightarrow> DatasetContract \<Rightarrow> nat \<Rightarrow> market_db \<Rightarrow> market_db" where
  "ensure_dataset file_sha c n db =
     (let cand = (dc_id c = candidate_dataset_id);
          row = \<lparr> ds_id = dc_id c, ds_name = dc_name c,
                  ds_eligibility = (case tbl_lookup ds_id (dc_id c) (datasets db) of
                    Some old \<Rightarrow> ds_eligibility old | None \<Rightarrow> dc_eligibility c),
                  ds_manifest_path = dc_path c, ds_manifest_sha256 = file_sha (dc_path c),
                  ds_instrument_count = (if cand then length candidate_keys else n),
                  ds_warning_policy = (if cand then Some candidate_warning_policy else None) \<rparr>
      in db\<lparr>datasets := tbl_upsert ds_id row (datasets db)\<rparr>)"

definition saxo_sim :: "InstrumentRow \<Rightarrow> bool" where
  "saxo_sim r = (in_provider r = ''Saxo OpenAPI'' \<and> in_environment r = ''SIM'')"

definition sim_instruments :: "market_db \<Rightarrow> int \<Rightarrow> string \<Rightarrow> InstrumentRow list" where
  "sim_instruments db uic asset =
     filter (\<lambda>r. saxo_sim r \<and> in_uic r = uic \<and> in_asset_type r = asset) (instruments (catalog db))"

section \<open>Watermarks\<close>

definition basis_rows :: "market_db \<Rightarrow> int \<Rightarrow> string \<Rightarrow> MarketRow list" where
  "basis_rows db i basis = filter (\<lambda>r. mr_instrument r = i \<and> price_basis (mr_bar r) = basis) (curated db)"

definition max_option :: "('a::linorder) list \<Rightarrow> 'a option" where
  "max_option xs = (if xs = [] then None else Some (Max (set xs)))"

definition initial_watermark :: "utc \<Rightarrow> int \<Rightarrow> string \<Rightarrow> MarketRow list \<Rightarrow> WatermarkRow" where
  "initial_watermark now i basis rows = \<lparr> wm_instrument = i, wm_basis = basis,
     wm_seen = Max (set (map bar_instant rows)),
     wm_complete = max_option (map bar_instant (filter (\<lambda>r. is_complete (mr_bar r)) rows)),
     wm_version = max_option (List.map_filter (\<lambda>r. data_version (mr_bar r)) rows),
     wm_run = Some (Max (set (map mr_run rows))), wm_status = ''ACTIVE'', wm_updated = now \<rparr>"

definition init_one :: "utc \<Rightarrow> CanonicalInstrument \<Rightarrow> nat \<times> market_db \<Rightarrow> nat \<times> market_db" where
  "init_one now ins = (\<lambda>(n, db).
     let news = List.map_filter (\<lambda>r. let rows = basis_rows db (in_id r) (price_basis_of ins)
                  in if rows = [] then None else Some (initial_watermark now (in_id r) (price_basis_of ins) rows))
                (sim_instruments db (i_uic ins) (i_asset_type ins));
         t' = fold (tbl_insert_new watermark_key) news (watermarks db)
     in (n + (length t' - length (watermarks db)), db\<lparr>watermarks := t'\<rparr>))"

definition initialize_watermarks ::
  "(string \<Rightarrow> string) \<Rightarrow> utc \<Rightarrow> CanonicalInstrument list \<Rightarrow> market_db \<Rightarrow>
   (exn + nat \<times> nat \<times> string) \<times> market_db" where
  "initialize_watermarks file_sha now canonical_rows db =
     (case load_canonical_instruments canonical_rows of
        Inl e \<Rightarrow> (Inl e, db)
      | Inr registry \<Rightarrow>
          (case fold (init_one now) registry (0, ensure_dataset file_sha canonical_contract 13 db) of
             (n, db') \<Rightarrow>
               let sim = map in_id (filter saxo_sim (instruments (catalog db')));
                   total = length (filter (\<lambda>w. wm_instrument w \<in> set sim) (watermarks db'))
               in (Inr (n, total, if 13 \<le> total then ''PASS'' else ''FAIL''), db')))"

section \<open>The state an acquisition starts from\<close>

definition state_of :: "int \<Rightarrow> WatermarkRow \<Rightarrow> InstrumentState" where
  "state_of i w = \<lparr> st_instrument = i, st_latest_complete = wm_complete w, st_version = wm_version w,
     st_status = wm_status w \<rparr>"

definition joined_watermarks :: "market_db \<Rightarrow> (InstrumentRow \<times> WatermarkRow) list" where
  "joined_watermarks db =
     concat (map (\<lambda>r. map (\<lambda>w. (r, w)) (filter (\<lambda>w. wm_instrument w = in_id r) (watermarks db)))
       (filter saxo_sim (instruments (catalog db))))"

definition load_states :: "market_db \<Rightarrow> ((int \<times> string) \<times> InstrumentState) list" where
  "load_states db =
     rev (map (\<lambda>(r, w). ((in_uic r, in_asset_type r), state_of (in_id r) w))
       (filter (\<lambda>(r, w). wm_status w = ''ACTIVE'') (joined_watermarks db)))"

definition load_full_refetch_state ::
  "CanonicalInstrument \<Rightarrow> market_db \<Rightarrow> exn + InstrumentState \<times> utc" where
  "load_full_refetch_state ins db =
     (case filter (\<lambda>(r, w). in_uic r = i_uic ins \<and> in_asset_type r = i_asset_type ins
                     \<and> basis_rows db (in_id r) (price_basis_of ins) \<noteq> []) (joined_watermarks db) of
        [] \<Rightarrow> Inl (BarQualityError ''BLOCKED_FULL_REFETCH_STATE_MISSING'')
      | (r, w) # _ \<Rightarrow>
          if wm_status w \<noteq> ''STALE_DATA_VERSION''
          then Inl (BarQualityError ''BLOCKED_FULL_REFETCH_NOT_REQUIRED'')
          else Inr (state_of (in_id r) w,
                    Min (set (map bar_instant (basis_rows db (in_id r) (price_basis_of ins))))))"

definition overlap_start :: "InstrumentState \<Rightarrow> CanonicalInstrument \<Rightarrow> market_db \<Rightarrow> exn + utc" where
  "overlap_start st ins db =
     (let ts = sort (map bar_instant (filter (\<lambda>r. is_complete (mr_bar r) \<and> mr_quality r = ''PASS'')
                 (basis_rows db (st_instrument st) (price_basis_of ins))))
      in if length ts < overlap_bars ins then Inl (BarQualityError ''BLOCKED_WATERMARK_WITHOUT_OVERLAP'')
         else Inr (ts ! (length ts - overlap_bars ins)))"

definition finalize_etf_terminal_bar ::
  "CanonicalInstrument \<Rightarrow> InstrumentState \<Rightarrow> market_db \<Rightarrow> NormalizedBar list \<Rightarrow> NormalizedBar list" where
  "finalize_etf_terminal_bar ins st db bars =
     (if i_asset_type ins \<noteq> ''Etf'' \<or> bars = [] then bars
      else
        let terminal = instant (Max (set (map time_utc bars)));
            covering = concat (map (\<lambda>r. case in_calendar r of None \<Rightarrow> []
                | Some cal \<Rightarrow>
                    if verification_of (catalog db) (Some cal) = Some ''VERIFIED''
                    then filter (\<lambda>(iv, o', cl). o' \<le> terminal \<and> terminal < cl) (open_intervals (catalog db) cal)
                    else []) (filter (\<lambda>r. in_id r = st_instrument st) (instruments (catalog db))))
        in case sort_key (\<lambda>(iv, o', cl). iv_sequence iv) covering of
             [] \<Rightarrow> bars
           | (iv, o', cl) # _ \<Rightarrow> mark_terminal_session_bar_complete bars (Aware o') (Aware cl))"

section \<open>Registering a run\<close>

definition first_basis :: "market_db \<Rightarrow> int \<Rightarrow> string option" where
  "first_basis db i =
     (case sort_key wm_basis (filter (\<lambda>w. wm_instrument w = i) (watermarks db)) of
        [] \<Rightarrow> None | w # _ \<Rightarrow> Some (wm_basis w))"

definition run_scope_row :: "market_db \<Rightarrow> int \<Rightarrow> CanonicalInstrument \<Rightarrow> exn + ScopeRow" where
  "run_scope_row db run ins =
     (case filter (\<lambda>r. in_active_to r = None) (sim_instruments db (i_uic ins) (i_asset_type ins)) of
        [] \<Rightarrow> Inl (RuntimeError ''BLOCKED_RUN_SCOPE_INSTRUMENT_MISMATCH'')
      | r # rs \<Rightarrow>
          let r = last (r # rs)
          in if lower (in_key r) \<noteq> i_key ins
             then Inl (RuntimeError ''BLOCKED_RUN_SCOPE_INSTRUMENT_MISMATCH'')
             else if first_basis db (in_id r) \<notin> {None, Some (price_basis_of ins)}
             then Inl (RuntimeError ''BLOCKED_RUN_SCOPE_PRICE_BASIS_MISMATCH'')
             else Inr \<lparr> sc_run = run, sc_instrument = in_id r, sc_key = lower (in_key r),
                        sc_uic = in_uic r, sc_asset_type = in_asset_type r, sc_basis = price_basis_of ins \<rparr>)"

definition new_run :: "int \<Rightarrow> string \<Rightarrow> string \<Rightarrow> RunRow" where
  "new_run n trigger run_id = \<lparr> rn_id = n, rn_trigger = trigger, rn_status = ''RUNNING'', rn_error = None,
     rn_step = ''run_registered'',
     rn_manifest_path = ''data/acquisition/runs/'' @ run_id @ ''/run_manifest.json'',
     rn_manifest_sha256 = None, rn_finished = None, rn_successful = 0, rn_inserted = 0, rn_updated = 0,
     rn_revision = 0, rn_rejected = 0, rn_event = None \<rparr>"

definition create_run_body ::
  "(string \<Rightarrow> string) \<Rightarrow> string \<Rightarrow> CanonicalInstrument list \<Rightarrow> string \<Rightarrow> market_db \<Rightarrow> exn + int \<times> market_db" where
  "create_run_body file_sha run_id registry trigger db =
     ebind (dataset_contract registry) (\<lambda>c.
       let db1 = ensure_dataset file_sha c (length registry) db; n = fresh_id rn_id (runs db1)
       in ebind (emap (run_scope_row db1 n) registry) (\<lambda>rows.
            Inr (n, db1\<lparr>runs := runs db1 @ [new_run n trigger run_id], scopes := scopes db1 @ rows\<rparr>)))"

definition create_run ::
  "(string \<Rightarrow> string) \<Rightarrow> string \<Rightarrow> CanonicalInstrument list \<Rightarrow> string \<Rightarrow> market_db \<Rightarrow>
   (exn + int) \<times> market_db" where
  "create_run file_sha run_id registry trigger db =
     transaction (create_run_body file_sha run_id registry trigger) db"

section \<open>Revision samples\<close>

record RevisionSample =
  sm_from :: utc
  sm_to :: utc
  sm_provider :: nat
  sm_matched :: nat
  sm_content :: nat
  sm_version_only :: nat
  sm_new :: nat
  sm_removed :: nat
  sm_latest_complete :: "utc option"

type_synonym stored_bars = "(utc \<times> NormalizedBar) list"

definition bar_time :: "NormalizedBar \<Rightarrow> utc" where "bar_time b = instant (time_utc b)"

definition same_content :: "NormalizedBar \<Rightarrow> NormalizedBar \<Rightarrow> bool" where
  "same_content b s = (row_content b = row_content s)"

definition sample_matches :: "stored_bars \<Rightarrow> (NormalizedBar \<Rightarrow> NormalizedBar \<Rightarrow> bool) \<Rightarrow> NormalizedBar \<Rightarrow> bool" where
  "sample_matches stored P b = (case map_of stored (bar_time b) of None \<Rightarrow> False | Some s \<Rightarrow> P b s)"

definition compare_revision_sample :: "NormalizedBar list \<Rightarrow> stored_bars \<Rightarrow> exn + RevisionSample" where
  "compare_revision_sample provider stored =
     (let ordered = sort_key bar_time provider; ts = map bar_time ordered
      in if ordered = [] then Inl (BarQualityError ''REVISION_EMPTY_PROVIDER_SAMPLE'')
         else if \<not> distinct ts then Inl (BarQualityError ''REVISION_NON_UNIQUE_PROVIDER_SAMPLE'')
         else Inr \<lparr>
           sm_from = hd ts, sm_to = last ts, sm_provider = length ordered,
           sm_matched = length (filter (sample_matches stored (\<lambda>b s. True)) ordered),
           sm_content = length (filter (sample_matches stored (\<lambda>b s. \<not> same_content b s)) ordered),
           sm_version_only = length (filter (sample_matches stored
              (\<lambda>b s. same_content b s \<and> data_version s \<noteq> data_version b)) ordered),
           sm_new = length (filter (\<lambda>b. map_of stored (bar_time b) = None) ordered),
           sm_removed = length (filter (\<lambda>t. hd ts \<le> t \<and> t \<le> last ts \<and> t \<notin> set ts) (map fst stored)),
           sm_latest_complete = max_option (map bar_time (filter is_complete ordered)) \<rparr>)"

definition stored_window :: "market_db \<Rightarrow> int \<Rightarrow> string \<Rightarrow> utc \<Rightarrow> utc \<Rightarrow> stored_bars" where
  "stored_window db i basis lo hi =
     map (\<lambda>r. (bar_instant r, mr_bar r))
       (sort_key bar_instant (filter (\<lambda>r. lo \<le> bar_instant r \<and> bar_instant r \<le> hi) (basis_rows db i basis)))"

definition load_revision_sample ::
  "InstrumentState \<Rightarrow> string \<Rightarrow> NormalizedBar list \<Rightarrow> market_db \<Rightarrow> exn + RevisionSample" where
  "load_revision_sample st basis bars db =
     (if bars = [] then Inl (ValueError ''min() arg is an empty sequence'')
      else let ts = set (map bar_time bars)
           in compare_revision_sample bars (stored_window db (st_instrument st) basis (Min ts) (Max ts)))"

section \<open>The quarantine of crossed extrema\<close>

record ApprovedException =
  ae_policy :: string
  ae_rows :: int
  ae_fields :: "string list"
  ae_from :: string
  ae_to :: string
  ae_sha256 :: string
  ae_modified :: bool
  ae_exact :: bool

text \<open>The digest of the canonical JSON of the quarantined rows is a parameter.\<close>

type_synonym evidence_digest = "(datetime \<times> CrossedQuoteViolation list) list \<Rightarrow> string"

fun index_rejected ::
  "datetime set \<Rightarrow> RejectedBar list \<Rightarrow> (datetime \<times> RejectedBar) list \<Rightarrow>
   exn + (datetime \<times> RejectedBar) list" where
  "index_rejected ok [] acc = Inr acc"
| "index_rejected ok (r # rs) acc =
     (if r_time_utc r \<in> ok
      then Inl (BarQualityError ''FX_EXTREMA_QUARANTINE_ACCEPTED_REJECTED_CONFLICT'')
      else case map_of acc (r_time_utc r) of
             Some prev \<Rightarrow>
               if (r_error_code prev, r_violations prev, r_data_version prev)
                    \<noteq> (r_error_code r, r_violations r, r_data_version r)
               then Inl (BarQualityError ''FX_EXTREMA_QUARANTINE_DUPLICATE_CONFLICT'')
               else index_rejected ok rs (map (\<lambda>(t, p). (t, if t = r_time_utc r then r else p)) acc)
           | None \<Rightarrow> index_rejected ok rs (acc @ [(r_time_utc r, r)]))"

definition exception_matches :: "evidence_digest \<Rightarrow> ApprovedException \<Rightarrow> RejectedBar list \<Rightarrow> bool" where
  "exception_matches digest e rs =
     (let fields = map v_field (concat (map r_violations rs))
      in ae_rows e = int (length rs) \<and> fields \<noteq> [] \<and> set fields \<subseteq> set (ae_fields e)
         \<and> ae_from e = iso_utc (instant (r_time_utc (hd rs)))
         \<and> ae_to e = iso_utc (instant (r_time_utc (last rs)))
         \<and> ae_sha256 e = digest (map (\<lambda>r. (r_time_utc r, r_violations r)) rs)
         \<and> \<not> ae_modified e \<and> ae_exact e)"

definition validate_full_refetch_quarantine ::
  "evidence_digest \<Rightarrow> datetime list \<Rightarrow> RejectedBar list \<Rightarrow> ApprovedException option \<Rightarrow>
   exn + RejectedBar list" where
  "validate_full_refetch_quarantine digest ok_times rejected approved =
     ebind (index_rejected (set ok_times) rejected []) (\<lambda>acc.
       let unique = sort_key r_time_utc (map snd acc);
           seen = set ok_times \<union> fst ` set acc;
           rate = dec_div (of_nat (length unique)) (of_nat (card seen))
       in if unique = []
          then (if approved \<noteq> None then Inl (BarQualityError ''FX_EXTREMA_APPROVED_EXCEPTION_MISMATCH'') else Inr [])
          else if list_ex (\<lambda>r. r_time_utc r = Max seen) unique
          then Inl (BarQualityError ''FX_EXTREMA_QUARANTINE_LATEST_SAMPLE_INELIGIBLE'')
          else case approved of
                 Some e \<Rightarrow> if exception_matches digest e unique then Inr unique
                           else Inl (BarQualityError ''FX_EXTREMA_APPROVED_EXCEPTION_MISMATCH'')
               | None \<Rightarrow>
                   if length unique > max_quarantined_rows
                   then Inl (BarQualityError ''FX_EXTREMA_QUARANTINE_ROW_LIMIT_EXCEEDED'')
                   else if rate > max_quarantined_rate
                   then Inl (BarQualityError ''FX_EXTREMA_QUARANTINE_RATE_LIMIT_EXCEEDED'')
                   else Inr unique)"

definition quarantined_row_evidence :: "string \<Rightarrow> bool \<Rightarrow> RejectedBar \<Rightarrow> quality_evidence" where
  "quarantined_row_evidence policy approved r =
     QuarantinedRow policy approved (iso_utc (instant (r_time_utc r))) (r_error_code r) (r_violations r)
       (r_data_version r) (r_artifact_relative_path r) (r_payload_sha256 r)"

end
