(* ===== verification/IncrementalCommit.thy ===== *)
theory IncrementalCommit
  imports IncrementalStore
begin

text \<open>
  How a run of \<open>market_db/incremental_update.py\<close> ends in the database: \<open>_commit_acquired\<close> (one
  transaction over staging, raw, curated, watermark, derived and overlay tables, with the guarded
  replacement of \<open>db/migrations/0012\<close>), \<open>_record_failure\<close> and \<open>_record_revision_warning\<close>.
\<close>

section \<open>The commit\<close>

record CommitRequest =
  cr_acquired :: "AcquiredInstrument list"
  cr_artifacts :: "ArtifactRecord list"
  cr_replace :: "int option"
  cr_quarantined :: "RejectedBar list"
  cr_dataset :: string
  cr_bootstrap :: bool
  cr_approved :: "ApprovedException option"

record CommitResult =
  cm_derived :: rebuild_counts
  cm_overlay :: RefreshResult
  cm_inserted :: nat
  cm_raw :: nat
  cm_rejected :: nat
  cm_quarantined :: "quality_evidence list"
  cm_removed :: nat
  cm_revision :: nat
  cm_updated :: nat

definition quarantine_instrument :: "CommitRequest \<Rightarrow> int option" where
  "quarantine_instrument c =
     (case cr_replace c of Some i \<Rightarrow> Some i
      | None \<Rightarrow>
          (case cr_acquired c of
             [a] \<Rightarrow> if cr_bootstrap c \<and> cr_dataset c = candidate_dataset_id
                       \<and> i_asset_type (ac_registry a) = ''FxSpot''
                    then Some (st_instrument (ac_state a)) else None
           | _ \<Rightarrow> None))"

definition quarantine_in_scope :: "CommitRequest \<Rightarrow> bool" where
  "quarantine_in_scope c =
     (case (quarantine_instrument c, cr_acquired c) of
        (Some i, [a]) \<Rightarrow> i_asset_type (ac_registry a) = ''FxSpot'' \<and> st_instrument (ac_state a) = i
      | _ \<Rightarrow> False)"

definition commit_policy :: "CommitRequest \<Rightarrow> string" where
  "commit_policy c = (case cr_approved c of None \<Rightarrow> quarantine_policy | Some e \<Rightarrow> ae_policy e)"

definition quality_event :: "int \<Rightarrow> int \<Rightarrow> utc option \<Rightarrow> string \<Rightarrow> string \<Rightarrow> quality_evidence \<Rightarrow> string \<Rightarrow> QualityEvent" where
  "quality_event run i t rule severity ev status = \<lparr> qe_run = run, qe_instrument = i, qe_time = t,
     qe_rule = rule, qe_severity = severity, qe_evidence = ev, qe_status = status \<rparr>"

definition quarantine_event :: "CommitRequest \<Rightarrow> int \<Rightarrow> int \<Rightarrow> RejectedBar \<Rightarrow> QualityEvent" where
  "quarantine_event c run i r =
     quality_event run i (Some (instant (r_time_utc r))) ''db3_fx_crossed_extrema_quarantine'' ''WARN''
       (quarantined_row_evidence (commit_policy c) (cr_approved c \<noteq> None) r) ''RESOLVED''"

definition record_quarantine ::
  "CommitRequest \<Rightarrow> int \<Rightarrow> (string \<times> int) list \<Rightarrow> RejectedBar list \<Rightarrow> exn + QualityEvent list" where
  "record_quarantine c run ids rs =
     (if list_ex (\<lambda>r. map_of ids (r_artifact_relative_path r) = None) rs
      then Inl (RuntimeError ''FAILED_QUARANTINE_SOURCE_REGISTRATION'')
      else Inr (map (quarantine_event c run (the (quarantine_instrument c))) rs))"

text \<open>The staged rows against the stored ones: absent, changed in content or version, unchanged.\<close>

definition content_or_version_differs :: "MarketRow list \<Rightarrow> StagedRow \<Rightarrow> bool" where
  "content_or_version_differs t s =
     (case stored_bar (staged_target s) t of
        None \<Rightarrow> False
      | Some old \<Rightarrow> row_content old \<noteq> row_content (sg_bar s) \<or> data_version old \<noteq> data_version (sg_bar s))"

definition revision_event_row :: "int \<Rightarrow> MarketRow list \<Rightarrow> StagedRow \<Rightarrow> QualityEvent" where
  "revision_event_row run t s =
     quality_event run (sg_instrument s) (Some (bar_time (sg_bar s))) ''db3_historical_revision'' ''INFO''
       (HistoricalRevision (the (stored_bar (staged_target s) t)) (sg_bar s)) ''RESOLVED''"

definition absent_rows :: "int \<Rightarrow> StagedRow list \<Rightarrow> MarketRow list \<Rightarrow> MarketRow list" where
  "absent_rows i ss t = filter (\<lambda>r. mr_instrument r = i \<and> curated_key r \<notin> staged_target ` set ss) t"

text \<open>\<open>curated.prepare_full_refetch\<close>: the guard and the deletion of one instrument's rows.\<close>

definition prepare_full_refetch :: "int \<Rightarrow> int \<Rightarrow> market_db \<Rightarrow> exn + market_db" where
  "prepare_full_refetch run i db =
     (case (find (\<lambda>r. rn_id r = run) (runs db), find (\<lambda>w. wm_instrument w = i) (watermarks db)) of
        (Some r, Some w) \<Rightarrow>
          if rn_trigger r = ''manual_db3_full_refetch'' \<and> rn_status r = ''RUNNING''
             \<and> wm_status w = ''STALE_DATA_VERSION''
          then Inr (db\<lparr>curated := delete_curated (\<lambda>k. fst k = i) (curated db)\<rparr>)
          else Inl (DatabaseError ''full refetch guard condition failed'')
      | _ \<Rightarrow> Inl (DatabaseError ''full refetch guard condition failed''))"

definition acquired_watermark :: "utc \<Rightarrow> int \<Rightarrow> AcquiredInstrument \<Rightarrow> exn + WatermarkRow" where
  "acquired_watermark now run a =
     (let ts = map bar_time (ac_bars a); cs = map bar_time (filter is_complete (ac_bars a))
      in if ts = [] \<or> cs = [] then Inl (ValueError ''max() arg is an empty sequence'')
         else Inr \<lparr> wm_instrument = st_instrument (ac_state a), wm_basis = price_basis_of (ac_registry a),
                    wm_seen = Max (set ts), wm_complete = Some (Max (set cs)),
                    wm_version = (case filter (\<lambda>v. v \<noteq> None) (map data_version (ac_bars a)) of
                      [] \<Rightarrow> None | v # _ \<Rightarrow> v),
                    wm_run = Some run, wm_status = ''ACTIVE'', wm_updated = now \<rparr>)"

definition write_watermark :: "bool \<Rightarrow> WatermarkRow \<Rightarrow> WatermarkRow list \<Rightarrow> exn + WatermarkRow list" where
  "write_watermark bootstrap w t =
     (if (tbl_lookup watermark_key (watermark_key w) t = None) = bootstrap
      then Inr (tbl_upsert watermark_key w t)
      else Inl (RuntimeError ''FAILED_WATERMARK_UPDATE''))"

fun advance_watermarks ::
  "utc \<Rightarrow> int \<Rightarrow> bool \<Rightarrow> AcquiredInstrument list \<Rightarrow> WatermarkRow list \<Rightarrow> exn + WatermarkRow list" where
  "advance_watermarks now run bootstrap [] t = Inr t"
| "advance_watermarks now run bootstrap (a # rest) t =
     ebind (acquired_watermark now run a) (\<lambda>w.
     ebind (write_watermark bootstrap w t) (\<lambda>t1. advance_watermarks now run bootstrap rest t1))"

text \<open>\<open>UPDATE ops.ingestion_run ... WHERE ingestion_run_id=%s AND status='RUNNING'\<close>.\<close>

definition running :: "int \<Rightarrow> RunRow \<Rightarrow> bool" where
  "running run r = (rn_id r = run \<and> rn_status r = ''RUNNING'')"

definition update_run :: "int \<Rightarrow> (RunRow \<Rightarrow> RunRow) \<Rightarrow> market_db \<Rightarrow> market_db" where
  "update_run run f db = db\<lparr>runs := map (\<lambda>r. if running run r then f r else r) (runs db)\<rparr>"

definition finish_run :: "int \<Rightarrow> string \<Rightarrow> (RunRow \<Rightarrow> RunRow) \<Rightarrow> market_db \<Rightarrow> exn + market_db" where
  "finish_run run err f db =
     (if list_ex (running run) (runs db) then Inr (update_run run f db) else Inl (RuntimeError err))"

definition passed_run :: "utc \<Rightarrow> string \<Rightarrow> nat \<Rightarrow> nat \<Rightarrow> nat \<Rightarrow> nat \<Rightarrow> nat \<Rightarrow> RunRow \<Rightarrow> RunRow" where
  "passed_run now step successful inserted updated revision rejected r =
     r\<lparr>rn_finished := Some now, rn_status := ''PASS'', rn_successful := successful, rn_inserted := inserted,
       rn_updated := updated, rn_revision := revision, rn_rejected := rejected, rn_step := step\<rparr>"

text \<open>The rows and events written before the curated table is touched.\<close>

definition stage_acquired ::
  "int \<Rightarrow> CommitRequest \<Rightarrow> RejectedBar list \<Rightarrow> market_db \<Rightarrow> exn + StagedRow list \<times> market_db" where
  "stage_acquired run c quarantined db =
     (let db0 = db\<lparr>staging := clear_staging run (staging db)\<rparr>
      in ebind (register_sources run (cr_dataset c) (cr_artifacts c) (sources db0)) (\<lambda>(ids, src).
         ebind (stage run (cr_acquired c) ids (staging db0)) (\<lambda>staged.
         ebind (record_quarantine c run ids quarantined) (\<lambda>evs.
           Inr (staged_of run staged,
                db0\<lparr>sources := src, staging := staged, quality := quality db0 @ evs\<rparr>)))))"

definition removed_count :: "CommitRequest \<Rightarrow> StagedRow list \<Rightarrow> MarketRow list \<Rightarrow> nat" where
  "removed_count c ss t = (case cr_replace c of None \<Rightarrow> 0 | Some i \<Rightarrow> length (absent_rows i ss t))"

definition revision_events :: "int \<Rightarrow> CommitRequest \<Rightarrow> StagedRow list \<Rightarrow> MarketRow list \<Rightarrow> QualityEvent list" where
  "revision_events run c ss t =
     map (revision_event_row run t) (filter (content_or_version_differs t) ss)
     @ (if removed_count c ss t = 0 then []
        else [quality_event run (the (cr_replace c)) None ''db3_full_refetch_removed_observations'' ''INFO''
                (RemovedObservations (removed_count c ss t)) ''RESOLVED''])"

definition write_market_rows :: "int \<Rightarrow> CommitRequest \<Rightarrow> StagedRow list \<Rightarrow> market_db \<Rightarrow> exn + market_db" where
  "write_market_rows run c ss db =
     ebind (insert_rows staged_key ss (raw_bars db)) (\<lambda>raw.
     ebind (case cr_replace c of None \<Rightarrow> Inr (db\<lparr>raw_bars := raw\<rparr>)
            | Some i \<Rightarrow> prepare_full_refetch run i (db\<lparr>raw_bars := raw\<rparr>)) (\<lambda>db1.
     ebind (upsert_curated ss (curated db1)) (\<lambda>t. Inr (db1\<lparr>curated := t\<rparr>))))"

definition commit_body ::
  "evidence_digest \<Rightarrow> bool \<Rightarrow> utc \<Rightarrow> int \<Rightarrow> CommitRequest \<Rightarrow> RejectedBar list \<Rightarrow> market_db \<Rightarrow>
   exn + CommitResult \<times> market_db" where
  "commit_body digest migrated now run c quarantined db =
     ebind (stage_acquired run c quarantined db) (\<lambda>(ss, db1).
     let inserted = length (filter (\<lambda>s. stored_bar (staged_target s) (curated db1) = None) ss);
         updated = length (filter (content_or_version_differs (curated db1)) ss);
         removed = removed_count c ss (curated db1);
         revision = updated + removed;
         db2 = db1\<lparr>quality := quality db1 @ revision_events run c ss (curated db1)\<rparr>
     in ebind (write_market_rows run c ss db2) (\<lambda>db3.
        ebind (advance_watermarks now run (cr_bootstrap c) (cr_acquired c) (watermarks db3)) (\<lambda>wms.
        let db4 = db3\<lparr>watermarks := wms\<rparr>; ids = map (\<lambda>a. st_instrument (ac_state a)) (cr_acquired c)
        in ebind (rebuild derivation_version (Some ids) (catalog db4) (curated db4) (derived db4)) (\<lambda>(counts, dv).
           ebind (refresh_c2_imputation_overlay migrated now 3 ids (db4\<lparr>derived := dv\<rparr>)) (\<lambda>(overlay, db5).
           ebind (finish_run run ''FAILED_RUN_STATUS_UPDATE''
                    (passed_run now ''watermark_and_derived_committed'' (length (cr_acquired c)) inserted updated
                       revision (length quarantined))
                    (db5\<lparr>staging := clear_staging run (staging db5)\<rparr>)) (\<lambda>db6.
             Inr (\<lparr> cm_derived = counts, cm_overlay = overlay, cm_inserted = inserted, cm_raw = length ss,
                    cm_rejected = length quarantined,
                    cm_quarantined = map (quarantined_row_evidence (commit_policy c) (cr_approved c \<noteq> None)) quarantined,
                    cm_removed = removed, cm_revision = revision, cm_updated = updated \<rparr>, db6)))))))"

definition commit_acquired ::
  "evidence_digest \<Rightarrow> bool \<Rightarrow> utc \<Rightarrow> int \<Rightarrow> CommitRequest \<Rightarrow> market_db \<Rightarrow> (exn + CommitResult) \<times> market_db" where
  "commit_acquired digest migrated now run c db =
     (if cr_quarantined c \<noteq> [] \<and> \<not> quarantine_in_scope c
      then (Inl (BarQualityError ''FX_EXTREMA_QUARANTINE_SCOPE_VIOLATION''), db)
      else case validate_full_refetch_quarantine digest
                  (map time_utc (concat (map ac_bars (cr_acquired c)))) (cr_quarantined c) (cr_approved c) of
             Inl e \<Rightarrow> (Inl e, db)
           | Inr quarantined \<Rightarrow> transaction (commit_body digest migrated now run c quarantined) db)"

section \<open>Recording a failure\<close>

fun take_until_colon :: "string \<Rightarrow> string" where
  "take_until_colon [] = []"
| "take_until_colon (c # cs) = (if c = CHR '':'' then [] else c # take_until_colon cs)"

text \<open>\<open>type(exc).__name__.upper()\<close> of the exceptions that carry no code of their own.\<close>

fun exception_name :: "exn \<Rightarrow> string" where
  "exception_name (ValueError _) = ''VALUEERROR''"
| "exception_name (RuntimeError _) = ''RUNTIMEERROR''"
| "exception_name (TotalReturnContractError _) = ''TOTALRETURNCONTRACTERROR''"
| "exception_name TypeError = ''TYPEERROR''"
| "exception_name KeyError = ''KEYERROR''"
| "exception_name AttributeError = ''ATTRIBUTEERROR''"
| "exception_name AssertionError = ''ASSERTIONERROR''"
| "exception_name OverflowError = ''OVERFLOWERROR''"
| "exception_name IndexError = ''INDEXERROR''"
| "exception_name OSError = ''OSERROR''"
| "exception_name _ = ''DATABASEERROR''"

fun error_code :: "exn \<Rightarrow> string" where
  "error_code (SaxoAuthError c) = c"
| "error_code (SaxoAPIError c _) = c"
| "error_code (InstrumentDriftError m) = take_until_colon m"
| "error_code (BarQualityError m) = m"
| "error_code (FXBidAboveAskError _) = ''FX_BID_ABOVE_ASK''"
| "error_code (ValueError m) = (if m = ''SAXO_ACCESS_TOKEN is required'' then ''BLOCKED_LIVE_SIM_TOKEN''
                                else ''FAILED_VALUEERROR'')"
| "error_code e = ''FAILED_'' @ exception_name e"

definition interface_codes :: "string list" where
  "interface_codes = [''BLOCKED_FULL_REFETCH_REQUIRED'', ''BLOCKED_BOUNDED_REVISION_REQUIRED'',
     ''BLOCKED_RATE_LIMIT'', ''FAILED_NETWORK'', ''FAILED_SERVICE_UNAVAILABLE'', ''FAILED_INVALID_JSON'',
     ''FAILED_JSON_NOT_OBJECT'', ''INSUFFICIENT_INCREMENTAL_CHART_DATA'']"

definition records_quality_event :: "string \<Rightarrow> bool" where
  "records_quality_event code =
     (\<not> list_ex (\<lambda>p. starts_with p code)
          [''AUTH_'', ''FAILED_HTTP_'', ''BLOCKED_TOKEN'', ''BLOCKED_PERMISSION'', ''BLOCKED_REVISION_'']
      \<and> code \<notin> set interface_codes)"

definition failure_status :: "string \<Rightarrow> string" where
  "failure_status code = (if starts_with ''BLOCKED'' code then ''BLOCKED'' else ''FAILED'')"

definition run_scope :: "int \<Rightarrow> market_db \<Rightarrow> ScopeRow list" where
  "run_scope run db = sort_key sc_key (filter (\<lambda>s. sc_run s = run) (scopes db))"

definition failed_scope :: "string list \<Rightarrow> ScopeRow list \<Rightarrow> ScopeRow list" where
  "failed_scope failed scope = filter (\<lambda>s. failed = [] \<or> sc_key s \<in> set (map lower failed)) scope"

definition mark_stale :: "utc \<Rightarrow> int \<Rightarrow> WatermarkRow list \<Rightarrow> WatermarkRow list" where
  "mark_stale now i t =
     map (\<lambda>w. if wm_instrument w = i then w\<lparr>wm_status := ''STALE_DATA_VERSION'', wm_updated := now\<rparr> else w) t"

record RevisionDetection =
  rd_key :: string
  rd_old :: int
  rd_new :: int
  rd_sample :: RevisionSample
  rd_time :: utc
  rd_path :: string
  rd_sha256 :: string

definition open_statuses :: "string list" where
  "open_statuses = [''DETECTED'', ''DISCOVERING'', ''REVIEW_PENDING'', ''READY_TO_APPLY'']"

definition same_series :: "int \<Rightarrow> string \<Rightarrow> int \<Rightarrow> RevisionEvent \<Rightarrow> bool" where
  "same_series i basis new_version e =
     (re_instrument e = i \<and> re_basis e = basis \<and> re_new_version e = new_version)"

text \<open>The check constraints of the event and step tables.\<close>

definition revision_event_check :: "RevisionEvent \<Rightarrow> bool" where
  "revision_event_check e =
     (re_old_version e \<noteq> re_new_version e
      \<and> (case (re_from e, re_to e) of (None, None) \<Rightarrow> True | (Some a, Some b) \<Rightarrow> a \<le> b | _ \<Rightarrow> False)
      \<and> (case (re_affected_from e, re_affected_to e) of (None, None) \<Rightarrow> True | (Some a, Some b) \<Rightarrow> a \<le> b | _ \<Rightarrow> False)
      \<and> (re_status e \<noteq> ''APPLIED'' \<or> re_applied_run e \<noteq> None)
      \<and> sha256_ok (re_manifest_sha256 e) \<and> run_relative (re_manifest_path e))"

definition revision_step_check :: "RevisionStep \<Rightarrow> bool" where
  "revision_step_check s =
     (0 < rs_number s \<and> 1 \<le> rs_requested s \<and> rs_requested s \<le> 1200 \<and> rs_from s \<le> rs_to s
      \<and> sha256_ok (rs_sha256 s) \<and> run_relative (rs_path s))"

definition detection_event :: "int \<Rightarrow> int \<Rightarrow> string \<Rightarrow> int \<Rightarrow> RevisionDetection \<Rightarrow> RevisionEvent" where
  "detection_event n i basis run d = \<lparr> re_id = n, re_instrument = i, re_basis = basis, re_detected_run = run,
     re_applied_run = None, re_old_version = rd_old d, re_new_version = rd_new d, re_status = ''REVIEW_PENDING'',
     re_from = Some (sm_from (rd_sample d)), re_to = Some (sm_to (rd_sample d)),
     re_compared = sm_provider (rd_sample d), re_content = sm_content (rd_sample d),
     re_version_only = sm_version_only (rd_sample d), re_new_rows = sm_new (rd_sample d),
     re_removed = sm_removed (rd_sample d), re_affected_from = None, re_affected_to = None, re_anchor = 0,
     re_reason = ''DATA_VERSION_CHANGED_REVIEW_PENDING'', re_manifest_path = rd_path d,
     re_manifest_sha256 = rd_sha256 d, re_policy = revision_warning_policy, re_review = ''PENDING_REVIEW'',
     re_reviewer = None, re_note = None \<rparr>"

text \<open>
  \<open>_record_failure\<close>. The branch that stores a \<open>DETECTED\<close> event needs the code
  \<open>BLOCKED_BOUNDED_REVISION_REQUIRED\<close> together with a detection; a run has a detection only
  after its warning was being recorded, and no exception of the program carries that code, so
  the branch is written for a detection that any caller passes.
\<close>

definition legacy_event :: "int \<Rightarrow> ScopeRow \<Rightarrow> int \<Rightarrow> RevisionDetection \<Rightarrow> RevisionEvent" where
  "legacy_event n s run d = (detection_event n (sc_instrument s) (sc_basis s) run d)\<lparr>
     re_status := ''DETECTED'', re_content := 0, re_version_only := 0, re_new_rows := 0, re_removed := 0,
     re_reason := ''DATA_VERSION_CHANGED_PENDING_BOUNDED_COMPARE'',
     re_policy := ''bounded_data_version_reconciliation_v1'', re_review := ''LEGACY_STATE''\<rparr>"

definition upsert_detected :: "ScopeRow \<Rightarrow> int \<Rightarrow> RevisionDetection \<Rightarrow> RevisionEvent list \<Rightarrow> exn + RevisionEvent list" where
  "upsert_detected s run d t =
     (let e = legacy_event (fresh_id re_id t) s run d;
          hit = (\<lambda>x. same_series (sc_instrument s) (sc_basis s) (rd_new d) x \<and> re_status x \<in> set open_statuses)
      in if \<not> revision_event_check e then Inl (DatabaseError ''CHECK_VIOLATION'')
         else if list_ex hit t
         then Inr (map (\<lambda>x. if hit x then x\<lparr>re_from := re_from e, re_to := re_to e, re_compared := re_compared e,
                    re_manifest_path := re_manifest_path e, re_manifest_sha256 := re_manifest_sha256 e\<rparr> else x) t)
         else Inr (t @ [e]))"

definition gate_event :: "int \<Rightarrow> string \<Rightarrow> ScopeRow list \<Rightarrow> ScopeRow \<Rightarrow> QualityEvent" where
  "gate_event run code scope s =
     quality_event run (sc_instrument s) None ''db3_atomic_run_gate''
       (if failure_status code = ''BLOCKED'' then ''CRITICAL'' else ''ERROR'')
       (RunGate code (sc_key s) (map sc_key scope)) ''OPEN''"

definition record_failure_body ::
  "(string \<Rightarrow> string) \<Rightarrow> utc \<Rightarrow> int \<Rightarrow> string \<Rightarrow> ArtifactRecord list \<Rightarrow> string list \<Rightarrow>
   RevisionDetection option \<Rightarrow> DatasetContract \<Rightarrow> market_db \<Rightarrow> exn + unit \<times> market_db" where
  "record_failure_body file_sha now run code arts failed detection c db =
     (let db1 = ensure_dataset file_sha c (max 1 (length failed)) db
      in ebind (register_sources run (dc_id c) arts (sources db1)) (\<lambda>(ids, src).
         let scope = run_scope run db1; bad = failed_scope failed scope;
             stale = code \<in> {''BLOCKED_FULL_REFETCH_REQUIRED'', ''BLOCKED_BOUNDED_REVISION_REQUIRED''}
                     \<and> length bad = 1;
             wms = (if stale then mark_stale now (sc_instrument (hd bad)) (watermarks db1) else watermarks db1)
         in ebind (case detection of
                     Some d \<Rightarrow> if code = ''BLOCKED_BOUNDED_REVISION_REQUIRED'' \<and> length bad = 1
                               then upsert_detected (hd bad) run d (revisions db1) else Inr (revisions db1)
                   | None \<Rightarrow> Inr (revisions db1)) (\<lambda>revs.
            let evs = (if records_quality_event code then map (gate_event run code scope) bad else [])
            in Inr ((), update_run run (\<lambda>r. r\<lparr>rn_finished := Some now, rn_status := failure_status code,
                          rn_error := Some code, rn_step := ''raw_artifacts_preserved_database_rollback'',
                          rn_rejected := 0\<rparr>)
                  (db1\<lparr>sources := src, watermarks := wms, revisions := revs, quality := quality db1 @ evs\<rparr>)))))"

definition record_failure ::
  "(string \<Rightarrow> string) \<Rightarrow> utc \<Rightarrow> int \<Rightarrow> string \<Rightarrow> ArtifactRecord list \<Rightarrow> string list \<Rightarrow>
   RevisionDetection option \<Rightarrow> DatasetContract \<Rightarrow> market_db \<Rightarrow> (exn + unit) \<times> market_db" where
  "record_failure file_sha now run code arts failed detection c db =
     transaction (record_failure_body file_sha now run code arts failed detection c) db"

section \<open>Recording a revision warning\<close>

definition next_step :: "int \<Rightarrow> RevisionStep list \<Rightarrow> nat" where
  "next_step event t = Max (set (0 # map rs_number (filter (\<lambda>s. rs_event s = event) t))) + 1"

definition pending_event :: "int \<Rightarrow> string \<Rightarrow> int \<Rightarrow> RevisionEvent \<Rightarrow> bool" where
  "pending_event i basis new_version e =
     (same_series i basis new_version e \<and> re_policy e = revision_warning_policy \<and> re_status e = ''REVIEW_PENDING'')"

definition insert_warning_event ::
  "int \<Rightarrow> string \<Rightarrow> int \<Rightarrow> RevisionDetection \<Rightarrow> RevisionEvent list \<Rightarrow> exn + int \<times> RevisionEvent list" where
  "insert_warning_event i basis run d t =
     (let e = detection_event (fresh_id re_id t) i basis run d
      in if \<not> revision_event_check e then Inl (DatabaseError ''CHECK_VIOLATION'')
         else if list_ex (\<lambda>x. same_series i basis (rd_new d) x \<and> re_status x \<in> set open_statuses) t
         then (case find (pending_event i basis (rd_new d)) t of
                 None \<Rightarrow> Inl (RuntimeError ''FAILED_REVISION_WARNING_EVENT_LOOKUP'')
               | Some x \<Rightarrow> Inr (re_id x, t))
         else Inr (re_id e, t @ [e]))"

definition warning_step :: "int \<Rightarrow> nat \<Rightarrow> RevisionDetection \<Rightarrow> RevisionStep" where
  "warning_step event n d = \<lparr> rs_event = event, rs_number = n,
     rs_requested = max 1 (min 1200 (sm_provider (rd_sample d))), rs_mode = ''From'', rs_time = rd_time d,
     rs_from = sm_from (rd_sample d), rs_to = sm_to (rd_sample d), rs_provider = sm_provider (rd_sample d),
     rs_matched = sm_matched (rd_sample d), rs_content = sm_content (rd_sample d),
     rs_version_only = sm_version_only (rd_sample d), rs_new_rows = sm_new (rd_sample d),
     rs_removed = sm_removed (rd_sample d), rs_anchor = 0, rs_decision = ''WARNING_RECORDED'',
     rs_reason = ''DATA_VERSION_CHANGED_REVIEW_PENDING'', rs_path = rd_path d, rs_sha256 = rd_sha256 d \<rparr>"

definition insert_step :: "RevisionStep \<Rightarrow> RevisionStep list \<Rightarrow> exn + RevisionStep list" where
  "insert_step s t = (if revision_step_check s then insert_rows step_key [s] t
                      else Inl (DatabaseError ''CHECK_VIOLATION''))"

record WarningResult =
  wr_event :: int
  wr_key :: string
  wr_old :: int
  wr_new :: int

definition record_warning_body ::
  "(string \<Rightarrow> string) \<Rightarrow> utc \<Rightarrow> int \<Rightarrow> ArtifactRecord list \<Rightarrow> RevisionDetection \<Rightarrow> DatasetContract \<Rightarrow>
   market_db \<Rightarrow> exn + WarningResult \<times> market_db" where
  "record_warning_body file_sha now run arts d c db =
     (let db1 = ensure_dataset file_sha c 1 db
      in ebind (register_sources run (dc_id c) arts (sources db1)) (\<lambda>(ids, src).
         case find (\<lambda>s. sc_run s = run \<and> sc_key s = rd_key d) (scopes db1) of
           None \<Rightarrow> Inl (RuntimeError ''FAILED_REVISION_WARNING_SCOPE_MISSING'')
         | Some s \<Rightarrow>
             ebind (insert_warning_event (sc_instrument s) (sc_basis s) run d (revisions db1)) (\<lambda>(event, revs).
             ebind (insert_step (warning_step event (next_step event (revision_steps db1)) d) (revision_steps db1)) (\<lambda>steps.
             ebind (finish_run run ''FAILED_REVISION_WARNING_RUN_UPDATE''
                      (\<lambda>r. (passed_run now ''revision_warning_recorded_no_curated_change'' 0 0 0 0 0 r)
                             \<lparr>rn_error := None, rn_event := Some event\<rparr>)
                      (db1\<lparr>sources := src, revisions := revs, revision_steps := steps\<rparr>)) (\<lambda>db2.
               Inr (\<lparr> wr_event = event, wr_key = rd_key d, wr_old = rd_old d, wr_new = rd_new d \<rparr>, db2))))))"

definition record_revision_warning ::
  "(string \<Rightarrow> string) \<Rightarrow> utc \<Rightarrow> int \<Rightarrow> ArtifactRecord list \<Rightarrow> RevisionDetection \<Rightarrow> DatasetContract \<Rightarrow>
   market_db \<Rightarrow> (exn + WarningResult) \<times> market_db" where
  "record_revision_warning file_sha now run arts d c db =
     transaction (record_warning_body file_sha now run arts d c) db"

section \<open>What a commit does\<close>

definition acquired_rows :: "int \<Rightarrow> CommitRequest \<Rightarrow> (int \<times> int \<times> NormalizedBar) list" where
  "acquired_rows run c = concat (map (\<lambda>a. map (\<lambda>b. (run, st_instrument (ac_state a), staged_bar b)) (ac_bars a)) (cr_acquired c))"

definition row_parts :: "StagedRow \<Rightarrow> int \<times> int \<times> NormalizedBar" where
  "row_parts s = (sg_run s, sg_instrument s, sg_bar s)"

lemma row_parts_fun: "row_parts = (\<lambda>s. (sg_run s, sg_instrument s, sg_bar s))"
  by (rule ext) (simp add: row_parts_def)

text \<open>The rows of the run after staging: the acquired bars at column precision, one per key.\<close>

lemma staged_window:
  assumes "stage run acquired ids (clear_staging run t) = Inr staged" and "tbl_wf staged_key t"
  defines "ss \<equiv> staged_of run staged"
  shows "map row_parts ss = concat (map (\<lambda>a. map (\<lambda>b. (run, st_instrument (ac_state a), staged_bar b)) (ac_bars a)) acquired)"
    and "distinct (map staged_target ss)" and "tbl_wf staged_key staged"
    and "staged = clear_staging run t @ ss"
proof -
  have wf: "tbl_wf staged_key (clear_staging run t)"
    using assms(2) by (simp add: clear_staging_def tbl_wf_filter)
  obtain rows where rows: "staged = clear_staging run t @ rows"
      "map row_parts rows = concat (map (\<lambda>a. map (\<lambda>b. (run, st_instrument (ac_state a), staged_bar b)) (ac_bars a)) acquired)"
      and wf2: "tbl_wf staged_key staged"
    using stage_rows [OF assms(1) wf] by (auto simp: row_parts_fun)
  have runs_eq: "\<forall>s \<in> set rows. sg_run s = run"
  proof
    fix s assume "s \<in> set rows"
    then have "row_parts s \<in> set (map row_parts rows)" by simp
    then show "sg_run s = run" unfolding rows(2) by (auto simp: row_parts_def)
  qed
  then have ss: "ss = rows" unfolding ss_def rows(1)
    by (simp add: staged_of_def clear_staging_def filter_id_conv)
  have "distinct (map staged_key rows)" using wf2 rows(1) by (simp add: tbl_wf_def)
  moreover have "map staged_key rows = map (\<lambda>k. (run, k)) (map staged_target rows)"
    using runs_eq by (simp add: staged_key_def staged_target_def)
  ultimately show "distinct (map staged_target ss)" unfolding ss by (metis distinct_map)
  show "map row_parts ss = concat (map (\<lambda>a. map (\<lambda>b. (run, st_instrument (ac_state a), staged_bar b)) (ac_bars a)) acquired)"
    "tbl_wf staged_key staged" "staged = clear_staging run t @ ss"
    using rows wf2 ss by simp_all
qed

lemma stage_acquired_parts:
  assumes "stage_acquired run c q db = Inr (ss, db1)" and "tbl_wf staged_key (staging db)"
  shows "map row_parts ss = acquired_rows run c \<and> distinct (map staged_target ss)
    \<and> tbl_wf staged_key (staging db1)
    \<and> (\<exists>src evs. db1 = db\<lparr>sources := src, staging := clear_staging run (staging db) @ ss, quality := quality db @ evs\<rparr>)"
proof -
  obtain ids src staged evs where r:
    "stage run (cr_acquired c) ids (clear_staging run (staging db)) = Inr staged"
    "ss = staged_of run staged"
    "db1 = db\<lparr>sources := src, staging := staged, quality := quality db @ evs\<rparr>"
    using assms(1) by (auto simp: stage_acquired_def Let_def ebind_eq_Inr)
  note w = staged_window [OF r(1) assms(2), folded r(2)]
  then show ?thesis using r(3) by (auto simp: acquired_rows_def)
qed

lemma row_parts_run: "map row_parts ss = concat (map (\<lambda>a. map (\<lambda>b. (run, f a, g b)) (h a)) xs) \<Longrightarrow> s \<in> set ss \<Longrightarrow> sg_run s = run"
proof -
  assume eq: "map row_parts ss = concat (map (\<lambda>a. map (\<lambda>b. (run, f a, g b)) (h a)) xs)" and s: "s \<in> set ss"
  from s have "row_parts s \<in> set (map row_parts ss)" by simp
  then show "sg_run s = run" unfolding eq by (auto simp: row_parts_def)
qed

lemma clear_staged_rows:
  assumes "\<And>s. s \<in> set ss \<Longrightarrow> sg_run s = run"
  shows "clear_staging run (clear_staging run t @ ss) = clear_staging run t"
  using assms by (simp add: clear_staging_def filter_empty_conv)

lemma prepare_full_refetch_parts:
  "prepare_full_refetch run i db = Inr db' \<Longrightarrow>
     db' = db\<lparr>curated := delete_curated (\<lambda>k. fst k = i) (curated db)\<rparr>
     \<and> (\<exists>r w. find (\<lambda>r. rn_id r = run) (runs db) = Some r \<and> rn_trigger r = ''manual_db3_full_refetch''
          \<and> rn_status r = ''RUNNING'' \<and> find (\<lambda>w. wm_instrument w = i) (watermarks db) = Some w \<and> wm_status w = ''STALE_DATA_VERSION'')"
  by (auto simp: prepare_full_refetch_def split: option.splits if_splits)

definition kept_row :: "CommitRequest \<Rightarrow> curated_key \<Rightarrow> market_db \<Rightarrow> MarketRow option" where
  "kept_row c k db = (if cr_replace c = Some (fst k) then None else tbl_lookup curated_key k (curated db))"

lemma write_market_rows_parts:
  assumes "write_market_rows run c ss db = Inr db'"
    and "tbl_wf curated_key (curated db)" and "list_all row_ok (curated db)"
    and "tbl_wf staged_key (raw_bars db)" and "distinct (map staged_target ss)"
  shows "raw_bars db' = raw_bars db @ ss \<and> tbl_wf staged_key (raw_bars db')
    \<and> tbl_wf curated_key (curated db') \<and> list_all row_ok (curated db')
    \<and> (\<forall>k. tbl_lookup curated_key k (curated db') =
          (case find (\<lambda>s. staged_target s = k) ss of Some s \<Rightarrow> Some (curated_row s) | None \<Rightarrow> kept_row c k db))
    \<and> db' = db\<lparr>raw_bars := raw_bars db', curated := curated db'\<rparr>"
proof -
  obtain raw where raw: "insert_rows staged_key ss (raw_bars db) = Inr raw"
    using assms(1) by (auto simp: write_market_rows_def ebind_eq_Inr)
  note rw = insert_rows_keys [OF raw assms(4)]
  let ?P = "\<lambda>k. cr_replace c = Some (fst k)"
  obtain t where t: "upsert_curated ss (delete_curated ?P (curated db)) = Inr t"
      "db' = db\<lparr>raw_bars := raw, curated := t\<rparr>"
  proof (cases "cr_replace c")
    case None
    then have "delete_curated ?P (curated db) = curated db"
      by (simp add: delete_curated_def tbl_delete_keys_def)
    then show ?thesis using assms(1) raw None that by (auto simp: write_market_rows_def ebind_eq_Inr)
  next
    case (Some i)
    then have P: "?P = (\<lambda>k. fst k = i)" by auto
    show ?thesis using assms(1) raw Some that unfolding P
      by (auto simp: write_market_rows_def ebind_eq_Inr dest!: prepare_full_refetch_parts)
  qed
  have wf: "tbl_wf curated_key (delete_curated ?P (curated db))"
    by (rule curated_store.wf_delete [OF assms(2)])
  have ok: "list_all row_ok (delete_curated ?P (curated db))"
    using assms(3) by (auto simp: delete_curated_def tbl_delete_keys_def list_all_iff)
  have look: "tbl_lookup curated_key k t =
      (case find (\<lambda>s. staged_target s = k) ss of Some s \<Rightarrow> Some (curated_row s) | None \<Rightarrow> kept_row c k db)" for k
    using upsert_curated_lookup [OF t(1) assms(5), of k] curated_store.lookup_delete [OF assms(2), of k ?P]
    by (simp add: kept_row_def split: option.splits)
  show ?thesis using rw look upsert_curated_ok [OF t(1) wf ok] unfolding t(2) by auto
qed

text \<open>What the watermark of a series has to say after a commit: it is that of the last instrument
  acquired for the series, and its fields are spelled out from the acquired bars.\<close>

definition series_of :: "AcquiredInstrument \<Rightarrow> int \<times> string" where
  "series_of a = (st_instrument (ac_state a), price_basis_of (ac_registry a))"

definition marks_acquisition :: "utc \<Rightarrow> int \<Rightarrow> NormalizedBar list \<Rightarrow> WatermarkRow \<Rightarrow> bool" where
  "marks_acquisition now run bars w =
     (wm_run w = Some run \<and> wm_status w = ''ACTIVE'' \<and> wm_updated w = now
      \<and> (\<exists>b \<in> set bars. bar_time b = wm_seen w) \<and> (\<forall>b \<in> set bars. bar_time b \<le> wm_seen w)
      \<and> (\<exists>b \<in> set bars. is_complete b \<and> wm_complete w = Some (bar_time b)
           \<and> (\<forall>b' \<in> set bars. is_complete b' \<longrightarrow> bar_time b' \<le> bar_time b))
      \<and> wm_version w = (case find (\<lambda>b. data_version b \<noteq> None) bars of None \<Rightarrow> None | Some b \<Rightarrow> data_version b))"

definition marks_written :: "utc \<Rightarrow> int \<Rightarrow> AcquiredInstrument list \<Rightarrow> WatermarkRow list \<Rightarrow> bool" where
  "marks_written now run acquired t =
     (\<forall>pre a post. acquired = pre @ a # post \<and> series_of a \<notin> series_of ` set post \<longrightarrow>
        (\<exists>w. tbl_lookup watermark_key (series_of a) t = Some w \<and> watermark_key w = series_of a
             \<and> marks_acquisition now run (ac_bars a) w))"

lemma first_recorded:
  "(case filter (\<lambda>v. v \<noteq> None) (map f xs) of [] \<Rightarrow> None | v # _ \<Rightarrow> v)
   = (case find (\<lambda>x. f x \<noteq> None) xs of None \<Rightarrow> None | Some x \<Rightarrow> f x)"
  by (induction xs) auto

lemma acquired_watermark_marks:
  assumes "acquired_watermark now run a = Inr w"
  shows "watermark_key w = series_of a \<and> marks_acquisition now run (ac_bars a) w \<and> watermark_ok w"
proof -
  let ?ts = "map bar_time (ac_bars a)" and ?cs = "map bar_time (filter is_complete (ac_bars a))"
  have w: "?ts \<noteq> []" "?cs \<noteq> []" "wm_seen w = Max (set ?ts)" "wm_complete w = Some (Max (set ?cs))"
      "wm_run w = Some run" "wm_status w = ''ACTIVE''" "wm_updated w = now" "watermark_key w = series_of a"
      "wm_version w = (case find (\<lambda>b. data_version b \<noteq> None) (ac_bars a) of None \<Rightarrow> None | Some b \<Rightarrow> data_version b)"
    using assms unfolding first_recorded [symmetric]
    by (auto simp: acquired_watermark_def Let_def watermark_key_def series_of_def split: if_splits)
  have "set ?ts \<noteq> {}" "set ?cs \<noteq> {}" using w(1,2) by (simp_all only: set_empty not_False_eq_True)
  then have m: "Max (set ?ts) \<in> set ?ts" "Max (set ?cs) \<in> set ?cs" by (blast intro: Max_in)+
  have "Max (set ?cs) \<le> Max (set ?ts)" using w(2) by (intro Max_mono) (auto simp: filter_empty_conv)
  moreover have "\<exists>b \<in> set (ac_bars a). bar_time b = wm_seen w"
    using m(1) unfolding w(3) [symmetric] by auto
  moreover have "\<forall>b \<in> set (ac_bars a). bar_time b \<le> wm_seen w" unfolding w(3) by simp
  moreover have "\<exists>b \<in> set (ac_bars a). is_complete b \<and> wm_complete w = Some (bar_time b)
      \<and> (\<forall>b' \<in> set (ac_bars a). is_complete b' \<longrightarrow> bar_time b' \<le> bar_time b)"
  proof -
    obtain b where b: "b \<in> set (ac_bars a)" "is_complete b" "Max (set ?cs) = bar_time b" using m(2) by auto
    have "bar_time b' \<le> Max (set ?cs)" if "b' \<in> set (ac_bars a)" "is_complete b'" for b'
      by (rule Max_ge) (use that in auto)
    then show ?thesis using b w(4) by (metis (no_types, lifting))
  qed
  ultimately show ?thesis using w by (simp add: marks_acquisition_def watermark_ok_def)
qed

lemma advance_watermarks_parts:
  assumes "advance_watermarks now run boot as t = Inr t'" and "tbl_wf watermark_key t" and "list_all watermark_ok t"
  shows "tbl_wf watermark_key t' \<and> list_all watermark_ok t'
    \<and> (\<forall>k. k \<notin> series_of ` set as \<longrightarrow> tbl_lookup watermark_key k t' = tbl_lookup watermark_key k t)
    \<and> marks_written now run as t'"
  using assms
proof (induction "as" arbitrary: t)
  case Nil
  then show ?case by (simp add: marks_written_def)
next
  case (Cons a as)
  obtain w t1 where w: "acquired_watermark now run a = Inr w" "write_watermark boot w t = Inr t1"
      "advance_watermarks now run boot as t1 = Inr t'"
    using Cons.prems(1) by (auto simp: ebind_eq_Inr)
  note k = acquired_watermark_marks [OF w(1)]
  have t1: "t1 = tbl_upsert watermark_key w t"
    using w(2) by (auto simp: write_watermark_def split: if_splits)
  have "tbl_wf watermark_key t1" "list_all watermark_ok t1"
    using Cons.prems(2,3) k by (auto simp: t1 table_simps list_all_iff dest!: tbl_upsert_set)
  note ih = Cons.IH [OF w(3) this]
  have look: "tbl_lookup watermark_key (series_of a) t1 = Some w" using k by (simp add: t1 table_simps)
  have "\<exists>v. tbl_lookup watermark_key (series_of b) t' = Some v \<and> watermark_key v = series_of b
      \<and> marks_acquisition now run (ac_bars b) v"
    if b: "a # as = pre @ b # post" "series_of b \<notin> series_of ` set post" for pre b post
  proof (cases pre)
    case Nil
    then have "b = a" "post = as" using b(1) by simp_all
    moreover have "tbl_lookup watermark_key (series_of a) t' = tbl_lookup watermark_key (series_of a) t1"
      using ih b(2) calculation by blast
    ultimately show ?thesis using look k by simp
  next
    case (Cons c pre')
    then have "as = pre' @ b # post" using b(1) by simp
    then show ?thesis using ih b(2) unfolding marks_written_def by blast
  qed
  then have "marks_written now run (a # as) t'" by (simp add: marks_written_def)
  then show ?case using ih k by (simp add: t1 table_simps)
qed

lemma finish_run_parts:
  "finish_run run err f db = Inr db' \<Longrightarrow>
     db' = db\<lparr>runs := map (\<lambda>r. if running run r then f r else r) (runs db)\<rparr> \<and> list_ex (running run) (runs db)"
  by (auto simp: finish_run_def update_run_def split: if_splits)

text \<open>The end of a successful commit, table by table.\<close>

definition commit_effect :: "utc \<Rightarrow> int \<Rightarrow> CommitRequest \<Rightarrow> StagedRow list \<Rightarrow> CommitResult \<Rightarrow> market_db \<Rightarrow> market_db \<Rightarrow> bool" where
  "commit_effect now run c ss m db db' =
     (map row_parts ss = acquired_rows run c
      \<and> raw_bars db' = raw_bars db @ ss
      \<and> (\<forall>k. tbl_lookup curated_key k (curated db') =
            (case find (\<lambda>s. staged_target s = k) ss of Some s \<Rightarrow> Some (curated_row s) | None \<Rightarrow> kept_row c k db))
      \<and> (\<forall>k. k \<notin> series_of ` set (cr_acquired c) \<longrightarrow>
            tbl_lookup watermark_key k (watermarks db') = tbl_lookup watermark_key k (watermarks db))
      \<and> marks_written now run (cr_acquired c) (watermarks db')
      \<and> rebuild derivation_version (Some (map (\<lambda>a. st_instrument (ac_state a)) (cr_acquired c)))
          (catalog db) (curated db') (derived db) = Inr (cm_derived m, derived db')
      \<and> (\<exists>new. imputations db' = imputations db @ new \<and> length new = rf_inserted (cm_overlay m))
      \<and> staging db' = clear_staging run (staging db)
      \<and> list_ex (running run) (runs db)
      \<and> runs db' = map (\<lambda>r. if running run r
           then passed_run now ''watermark_and_derived_committed'' (length (cr_acquired c)) (cm_inserted m) (cm_updated m)
                  (cm_revision m) (cm_rejected m) r
           else r) (runs db)
      \<and> (\<exists>evs. quality db' = quality db @ evs)
      \<and> catalog db' = catalog db \<and> datasets db' = datasets db \<and> scopes db' = scopes db
      \<and> revisions db' = revisions db \<and> revision_steps db' = revision_steps db
      \<and> imputation_scope db' = imputation_scope db)"

lemma commit_body_effect:
  assumes "commit_body digest migrated now run c q db = Inr (m, db')" and wf: "market_wf db"
  shows "market_wf db' \<and> (\<exists>ss. commit_effect now run c ss m db db')"
proof -
  let ?ids = "map (\<lambda>a. st_instrument (ac_state a)) (cr_acquired c)"
  let ?f = "passed_run now ''watermark_and_derived_committed'' (length (cr_acquired c)) (cm_inserted m) (cm_updated m)
    (cm_revision m) (cm_rejected m)"
  obtain ss db1 db3 wms dv counts overlay db5 where r:
    "stage_acquired run c q db = Inr (ss, db1)"
    "write_market_rows run c ss (db1\<lparr>quality := quality db1 @ revision_events run c ss (curated db1)\<rparr>) = Inr db3"
    "advance_watermarks now run (cr_bootstrap c) (cr_acquired c) (watermarks db3) = Inr wms"
    "rebuild derivation_version (Some ?ids) (catalog db3) (curated db3) (derived db3) = Inr (counts, dv)"
    "refresh_c2_imputation_overlay migrated now 3 ?ids (db3\<lparr>watermarks := wms, derived := dv\<rparr>) = Inr (overlay, db5)"
    "finish_run run ''FAILED_RUN_STATUS_UPDATE'' ?f (db5\<lparr>staging := clear_staging run (staging db5)\<rparr>) = Inr db'"
    "cm_derived m = counts" "cm_overlay m = overlay"
    using assms(1) by (auto simp: commit_body_def Let_def ebind_eq_Inr)
  have w: "tbl_wf staged_key (staging db)" "tbl_wf staged_key (raw_bars db)" "tbl_wf curated_key (curated db)"
      "list_all row_ok (curated db)" "tbl_wf watermark_key (watermarks db)" "list_all watermark_ok (watermarks db)"
    using wf by (simp_all add: market_wf_def)
  obtain src evs where s: "map row_parts ss = acquired_rows run c" "distinct (map staged_target ss)"
      "db1 = db\<lparr>sources := src, staging := clear_staging run (staging db) @ ss, quality := quality db @ evs\<rparr>"
    using stage_acquired_parts [OF r(1) w(1)] by auto
  define db2 where "db2 = db1\<lparr>quality := quality db1 @ revision_events run c ss (curated db1)\<rparr>"
  have b2: "curated db2 = curated db" "raw_bars db2 = raw_bars db" "kept_row c k db2 = kept_row c k db" for k
    by (simp_all add: db2_def s(3) kept_row_def)
  have p: "tbl_wf curated_key (curated db2)" "list_all row_ok (curated db2)" "tbl_wf staged_key (raw_bars db2)"
    using w by (simp_all add: b2)
  have m: "raw_bars db3 = raw_bars db @ ss" "tbl_wf staged_key (raw_bars db3)"
      "tbl_wf curated_key (curated db3)" "list_all row_ok (curated db3)"
      "\<And>k. tbl_lookup curated_key k (curated db3) =
          (case find (\<lambda>s. staged_target s = k) ss of Some s \<Rightarrow> Some (curated_row s) | None \<Rightarrow> kept_row c k db)"
      "db3 = db2\<lparr>raw_bars := raw_bars db3, curated := curated db3\<rparr>"
    using write_market_rows_parts [OF r(2) [folded db2_def] p s(2)] unfolding b2 by blast+
  have rest: "catalog db3 = catalog db" "datasets db3 = datasets db" "runs db3 = runs db" "scopes db3 = scopes db"
      "staging db3 = clear_staging run (staging db) @ ss" "watermarks db3 = watermarks db" "derived db3 = derived db"
      "imputations db3 = imputations db" "imputation_scope db3 = imputation_scope db"
      "\<exists>evs. quality db3 = quality db @ evs" "revisions db3 = revisions db" "revision_steps db3 = revision_steps db"
    by (subst m(6), simp add: db2_def s(3))+
  note a = advance_watermarks_parts [OF r(3)] 
  have wm: "tbl_wf watermark_key wms" "list_all watermark_ok wms"
      "\<forall>k. k \<notin> series_of ` set (cr_acquired c) \<longrightarrow>
          tbl_lookup watermark_key k wms = tbl_lookup watermark_key k (watermarks db)"
      "marks_written now run (cr_acquired c) wms"
    using a w(5,6) by (simp_all add: rest)
  obtain new where new: "db5 = db3\<lparr>watermarks := wms, derived := dv, imputations := imputations db3 @ new\<rparr>"
      "length new = rf_inserted overlay"
    using overlay_refresh_appends [OF r(5)] by auto
  have fin: "db' = db5\<lparr>staging := clear_staging run (staging db5),
        runs := map (\<lambda>r. if running run r then ?f r else r) (runs db5)\<rparr>" "list_ex (running run) (runs db5)"
    using finish_run_parts [OF r(6)] by simp_all
  have clear: "clear_staging run (clear_staging run (staging db) @ ss) = clear_staging run (staging db)"
    by (rule clear_staged_rows, rule row_parts_run [OF s(1) [unfolded acquired_rows_def]])
  have stag: "staging db' = clear_staging run (staging db)" by (simp add: fin(1) new(1) rest clear)
  have "market_wf db'"
    using wm m(2,3,4) w(1) by (simp add: market_wf_def stag clear_staging_def tbl_wf_filter)
      (simp add: fin(1) new(1))
  moreover have "commit_effect now run c ss m db db'"
    unfolding commit_effect_def
    using s(1) m(1,5) wm(3,4) r(4,7,8) new(2) fin(2) rest(10)
    by (intro conjI) (auto simp: fin(1) new(1) rest clear)
  ultimately show ?thesis by blast
qed

lemma commit_acquired_cases:
  assumes "market_wf db" and "commit_acquired digest migrated now run c db = (res, db')"
  shows "case res of Inl e \<Rightarrow> db' = db | Inr m \<Rightarrow> market_wf db' \<and> (\<exists>ss. commit_effect now run c ss m db db')"
proof (cases res)
  case (Inl e)
  then show ?thesis using assms(2)
    by (auto simp: commit_acquired_def transaction_def split: if_splits sum.splits prod.splits)
next
  case (Inr m)
  then obtain q where "commit_body digest migrated now run c q db = Inr (m, db')"
    using assms(2) by (auto simp: commit_acquired_def transaction_commit split: if_splits sum.splits)
  then show ?thesis using commit_body_effect [OF _ assms(1)] Inr by auto
qed

text \<open>C1: A commit is atomic and exact. When it raises, the database is what it was. When it
  succeeds, the raw table gained exactly the acquired bars; the curated table maps every key to the
  acquired bar if there is one and else to what it held (nothing, for the instrument of a full
  replacement); the watermark of every acquired series is the active one of this run, with the newest
  and the newest complete acquired time and the first provider version of the bars, and no watermark
  of another series moved; the derived tables are the rebuild over the new curated rows, the overlay
  only grew, the staging rows of the run are gone and only the running row of the run was closed as
  PASS, with the counts of the result; and the tables stay well formed.\<close>

theorem commit_is_atomic_and_exact:
  assumes "market_wf db" and "commit_acquired digest migrated now run c db = (res, db')"
  shows "case res of Inl e \<Rightarrow> db' = db | Inr m \<Rightarrow> market_wf db' \<and> (\<exists>ss. commit_effect now run c ss m db db')"
  using assms by (rule commit_acquired_cases)

section \<open>Runs that do not commit\<close>

lemma passed_run_status [simp]: "rn_status (passed_run now st a b c d e r) = ''PASS''"
  by (simp add: passed_run_def)

text \<open>The market data: everything but the bookkeeping of runs, sources, events and datasets.\<close>

definition same_market_data :: "market_db \<Rightarrow> market_db \<Rightarrow> bool" where
  "same_market_data a b =
     (catalog a = catalog b \<and> scopes a = scopes b \<and> staging a = staging b \<and> raw_bars a = raw_bars b
      \<and> curated a = curated b \<and> derived a = derived b \<and> imputations a = imputations b
      \<and> imputation_scope a = imputation_scope b)"

lemma same_market_data_refl [simp]: "same_market_data a a"
  by (simp add: same_market_data_def)

lemma ensure_dataset_frame [simp]:
  "catalog (ensure_dataset sha c n db) = catalog db" "runs (ensure_dataset sha c n db) = runs db"
  "scopes (ensure_dataset sha c n db) = scopes db" "sources (ensure_dataset sha c n db) = sources db"
  "staging (ensure_dataset sha c n db) = staging db" "raw_bars (ensure_dataset sha c n db) = raw_bars db"
  "curated (ensure_dataset sha c n db) = curated db" "watermarks (ensure_dataset sha c n db) = watermarks db"
  "derived (ensure_dataset sha c n db) = derived db" "imputations (ensure_dataset sha c n db) = imputations db"
  "imputation_scope (ensure_dataset sha c n db) = imputation_scope db"
  "quality (ensure_dataset sha c n db) = quality db" "revisions (ensure_dataset sha c n db) = revisions db"
  "revision_steps (ensure_dataset sha c n db) = revision_steps db"
  by (simp_all add: ensure_dataset_def Let_def)

lemma warning_body_parts:
  assumes "record_warning_body file_sha now run arts d c db = Inr (w, db')"
  shows "\<exists>src (s :: ScopeRow) revs steps f.
      insert_warning_event (sc_instrument s) (sc_basis s) run d (revisions db) = Inr (wr_event w, revs)
    \<and> insert_step (warning_step (wr_event w) (next_step (wr_event w) (revision_steps db)) d) (revision_steps db) = Inr steps
    \<and> finish_run run ''FAILED_REVISION_WARNING_RUN_UPDATE'' f
        ((ensure_dataset file_sha c 1 db)\<lparr>sources := src, revisions := revs, revision_steps := steps\<rparr>) = Inr db'
    \<and> (\<forall>r. rn_status (f r) = ''PASS'')"
proof -
  let ?f = "\<lambda>event r. (passed_run now ''revision_warning_recorded_no_curated_change'' 0 0 0 0 0 r)
    \<lparr>rn_error := None, rn_event := Some event\<rparr>"
  obtain ids src where src: "register_sources run (dc_id c) arts (sources db) = Inr (ids, src)"
    using assms by (auto simp: record_warning_body_def Let_def ebind_eq_Inr)
  obtain s where s: "find (\<lambda>s. sc_run s = run \<and> sc_key s = rd_key d) (scopes db) = Some s"
    using assms src by (auto simp: record_warning_body_def Let_def split: option.splits)
  obtain event revs steps where p:
    "insert_warning_event (sc_instrument s) (sc_basis s) run d (revisions db) = Inr (event, revs)"
    "insert_step (warning_step event (next_step event (revision_steps db)) d) (revision_steps db) = Inr steps"
    "finish_run run ''FAILED_REVISION_WARNING_RUN_UPDATE'' (?f event)
       ((ensure_dataset file_sha c 1 db)\<lparr>sources := src, revisions := revs, revision_steps := steps\<rparr>) = Inr db'"
    "wr_event w = event"
    using assms src s by (auto simp: record_warning_body_def Let_def ebind_eq_Inr)
  have t: "\<forall>r. rn_status (?f event r) = ''PASS''" by simp
  show ?thesis unfolding p(4)
    by (intro exI, intro conjI, rule p(1), rule p(2), rule p(3), rule t)
qed

text \<open>A watermark that at most lost its status.\<close>

definition only_status :: "WatermarkRow \<Rightarrow> WatermarkRow \<Rightarrow> bool" where
  "only_status a b = (b = a \<or> (wm_status b = ''STALE_DATA_VERSION''
     \<and> a\<lparr>wm_status := wm_status b, wm_updated := wm_updated b\<rparr> = b))"

lemma mark_stale_only_status: "list_all2 only_status t (mark_stale now i t)"
  by (simp add: list_all2_conv_all_nth mark_stale_def only_status_def)

lemma only_status_refl: "list_all2 only_status t t"
  by (simp add: list_all2_conv_all_nth only_status_def)

lemma failure_effect:
  assumes a: "record_failure file_sha now run code arts failed detection c db = (res, db')"
  shows "same_market_data db db'" "list_all2 only_status (watermarks db) (watermarks db')"
    "watermarks db' = watermarks db \<or> code \<in> {''BLOCKED_FULL_REFETCH_REQUIRED'', ''BLOCKED_BOUNDED_REVISION_REQUIRED''}"
proof -
  have s: "db' = db \<or> record_failure_body file_sha now run code arts failed detection c db = Inr ((), db')"
    using a by (auto simp: record_failure_def transaction_def split: sum.splits prod.splits)
  then show "same_market_data db db'"
    by (auto simp: record_failure_body_def Let_def ebind_eq_Inr same_market_data_def update_run_def)
  show "list_all2 only_status (watermarks db) (watermarks db')"
    using s by (auto simp: record_failure_body_def Let_def ebind_eq_Inr update_run_def
      mark_stale_only_status only_status_refl)
  show "watermarks db' = watermarks db \<or> code \<in> {''BLOCKED_FULL_REFETCH_REQUIRED'', ''BLOCKED_BOUNDED_REVISION_REQUIRED''}"
    using s by (auto simp: record_failure_body_def Let_def ebind_eq_Inr update_run_def split: if_splits)
qed

lemma warning_effect:
  assumes a: "record_revision_warning file_sha now run arts d c db = (res, db')"
  shows "same_market_data db db'" "watermarks db' = watermarks db" "quality db' = quality db"
    "case res of Inl e \<Rightarrow> db' = db
     | Inr w \<Rightarrow> list_ex (running run) (runs db) \<and> (\<exists>s. revision_steps db' = revision_steps db @ [s] \<and> rs_event s = wr_event w)
         \<and> list_all (\<lambda>r. \<not> running run r) (runs db')"
proof -
  have s: "(db' = db \<and> (\<exists>e. res = Inl e)) \<or> (\<exists>w. res = Inr w \<and> record_warning_body file_sha now run arts d c db = Inr (w, db'))"
    using a by (auto simp: record_revision_warning_def transaction_def split: sum.splits prod.splits)
  have body: "same_market_data db db' \<and> watermarks db' = watermarks db \<and> quality db' = quality db
      \<and> list_ex (running run) (runs db) \<and> (\<exists>s. revision_steps db' = revision_steps db @ [s] \<and> rs_event s = wr_event w)
      \<and> list_all (\<lambda>r. \<not> running run r) (runs db')"
    if b: "record_warning_body file_sha now run arts d c db = Inr (w, db')" for w
  proof -
    obtain src event revs steps s f where p:
      "insert_step (warning_step event (next_step event (revision_steps db)) d) (revision_steps db) = Inr steps"
      "finish_run run ''FAILED_REVISION_WARNING_RUN_UPDATE'' f
         ((ensure_dataset file_sha c 1 db)\<lparr>sources := src, revisions := revs, revision_steps := steps\<rparr>) = Inr db'"
      "wr_event w = event" "\<forall>r. rn_status (f r) = ''PASS''"
      using warning_body_parts [OF b] by blast
    have st: "steps = revision_steps db @ [warning_step event (next_step event (revision_steps db)) d]"
      using p(1) by (auto simp: insert_step_def split: if_splits)
    have fin: "db' = (ensure_dataset file_sha c 1 db)\<lparr>sources := src, revisions := revs, revision_steps := steps,
          runs := map (\<lambda>r. if running run r then f r else r) (runs db)\<rparr>" "list_ex (running run) (runs db)"
      using finish_run_parts [OF p(2)] by simp_all
    have "list_all (\<lambda>r. \<not> running run r) (runs db')"
      using p(4) by (auto simp: fin(1) list_all_iff running_def)
    then show ?thesis using fin(2) st p(3) by (simp add: fin(1) same_market_data_def warning_step_def)
  qed
  show "same_market_data db db'" "watermarks db' = watermarks db" "quality db' = quality db"
    using s body by auto
  show "case res of Inl e \<Rightarrow> db' = db
     | Inr w \<Rightarrow> list_ex (running run) (runs db) \<and> (\<exists>s. revision_steps db' = revision_steps db @ [s] \<and> rs_event s = wr_event w)
         \<and> list_all (\<lambda>r. \<not> running run r) (runs db')"
    using s body by auto
qed

text \<open>A run that fails or ends in a revision warning changes no market data: the raw, curated,
  derived, overlay, staging and catalog tables are the same rows afterwards. A failure moves no
  watermark time or version, it at most marks rows as stale, and a warning leaves the watermarks
  alone; a warning that raises changes nothing at all, and one that is recorded closes a running
  run as PASS with its event.\<close>

theorem unfinished_runs_keep_market_data:
  "(\<forall>res db'. record_failure file_sha now run code arts failed detection c db = (res, db') \<longrightarrow>
      same_market_data db db' \<and> list_all2 only_status (watermarks db) (watermarks db')
      \<and> (watermarks db' = watermarks db \<or> code \<in> {''BLOCKED_FULL_REFETCH_REQUIRED'', ''BLOCKED_BOUNDED_REVISION_REQUIRED''}))
   \<and> (\<forall>res db'. record_revision_warning file_sha now run arts d c db = (res, db') \<longrightarrow>
      same_market_data db db' \<and> watermarks db' = watermarks db \<and> quality db' = quality db
      \<and> (case res of Inl e \<Rightarrow> db' = db
         | Inr w \<Rightarrow> list_ex (running run) (runs db) \<and> (\<exists>s. revision_steps db' = revision_steps db @ [s] \<and> rs_event s = wr_event w)
             \<and> list_all (\<lambda>r. \<not> running run r) (runs db')))"
  by (intro conjI allI impI) (erule failure_effect warning_effect)+

section \<open>Revision events\<close>

definition open_series :: "RevisionEvent list \<Rightarrow> (int \<times> string \<times> int) list" where
  "open_series t = map (\<lambda>e. (re_instrument e, re_basis e, re_new_version e))
     (filter (\<lambda>e. re_status e \<in> set open_statuses) t)"

definition revisions_wf :: "market_db \<Rightarrow> bool" where
  "revisions_wf db = (tbl_wf re_id (revisions db) \<and> distinct (open_series (revisions db))
     \<and> tbl_wf step_key (revision_steps db) \<and> list_all revision_event_check (revisions db)
     \<and> list_all revision_step_check (revision_steps db))"

lemma insert_warning_event_wf:
  assumes "insert_warning_event i basis run d t = Inr (n, t')"
    and "tbl_wf re_id t" and "distinct (open_series t)" and "list_all revision_event_check t"
  shows "tbl_wf re_id t' \<and> distinct (open_series t') \<and> list_all revision_event_check t'
    \<and> (\<exists>x \<in> set t'. re_id x = n \<and> pending_event i basis (rd_new d) x)"
proof (cases "list_ex (\<lambda>x. same_series i basis (rd_new d) x \<and> re_status x \<in> set open_statuses) t")
  case True
  then obtain x where "t' = t" "find (pending_event i basis (rd_new d)) t = Some x" "n = re_id x"
    using assms(1) by (auto simp: insert_warning_event_def Let_def split: if_splits option.splits)
  then show ?thesis using assms(2-4) by (auto simp: find_Some_iff)
next
  case False
  let ?e = "detection_event (fresh_id re_id t) i basis run d"
  have t: "t' = t @ [?e]" "n = re_id ?e" "revision_event_check ?e"
    using assms(1) False by (auto simp: insert_warning_event_def Let_def split: if_splits)
  have "tbl_wf re_id t'"
    using assms(2) fresh_id_new [of _ t re_id] by (force simp: t(1) tbl_wf_def detection_event_def)
  moreover have "distinct (open_series t')"
    using assms(3) False
    by (auto simp: t(1) open_series_def list_ex_iff same_series_def detection_event_def)
  ultimately show ?thesis
    using assms(4) t by (auto simp: pending_event_def same_series_def detection_event_def)
qed

lemma next_step_new: "s \<in> set t \<Longrightarrow> rs_event s = event \<Longrightarrow> rs_number s < next_step event t"
proof -
  assume "s \<in> set t" "rs_event s = event"
  then have "rs_number s \<le> Max (set (0 # map rs_number (filter (\<lambda>s. rs_event s = event) t)))"
    by (intro Max_ge) auto
  then show ?thesis by (simp add: next_step_def)
qed

text \<open>Recording a warning keeps the revision tables well formed: event ids are unique, a series
  has at most one open event per provider version, step numbers are unique per event, and every
  stored row satisfies its check constraints; and the warning's event is pending review.\<close>

theorem warning_keeps_revisions_wf:
  assumes "revisions_wf db" and "record_revision_warning file_sha now run arts d c db = (Inr w, db')"
  shows "revisions_wf db' \<and> (\<exists>x \<in> set (revisions db'). re_id x = wr_event w \<and> re_status x = ''REVIEW_PENDING''
      \<and> re_policy x = revision_warning_policy \<and> re_new_version x = rd_new d)"
proof -
  have b: "record_warning_body file_sha now run arts d c db = Inr (w, db')"
    using assms(2) by (simp add: record_revision_warning_def transaction_commit)
  obtain src and s :: ScopeRow and event revs steps f where p:
      "insert_warning_event (sc_instrument s) (sc_basis s) run d (revisions db) = Inr (event, revs)"
      "insert_step (warning_step event (next_step event (revision_steps db)) d) (revision_steps db) = Inr steps"
      "finish_run run ''FAILED_REVISION_WARNING_RUN_UPDATE'' f
         ((ensure_dataset file_sha c 1 db)\<lparr>sources := src, revisions := revs, revision_steps := steps\<rparr>) = Inr db'"
      "wr_event w = event"
    using warning_body_parts [OF b] by blast
  have db': "revisions db' = revs" "revision_steps db' = steps"
    using finish_run_parts [OF p(3)] by simp_all
  let ?s = "warning_step event (next_step event (revision_steps db)) d"
  have st: "steps = revision_steps db @ [?s]" "revision_step_check ?s"
    using p(2) by (auto simp: insert_step_def split: if_splits)
  have "step_key ?s \<notin> step_key ` set (revision_steps db)"
    using next_step_new [of _ "revision_steps db" event] by (force simp: step_key_def warning_step_def)
  then have "tbl_wf step_key steps" using assms(1) by (simp add: st(1) tbl_wf_def revisions_wf_def)
  then show ?thesis
    using insert_warning_event_wf [OF p(1)] assms(1) st db' p(4)
    by (auto simp: revisions_wf_def pending_event_def same_series_def)
qed

section \<open>Comparing a sample\<close>

text \<open>The comparison of a provider sample with the stored rows accounts for every row: the
  matched and new rows make up the sample, content and version differences are disjoint parts of
  the matched rows, and there is no difference at all exactly when every provider row of the window
  is stored with the same content and version and no stored row of the window is missing from it.\<close>

theorem revision_sample_accounts_for_every_row:
  assumes "compare_revision_sample provider stored = Inr m"
  shows "sm_provider m = length provider \<and> sm_matched m + sm_new m = sm_provider m
    \<and> sm_content m + sm_version_only m \<le> sm_matched m
    \<and> (sm_content m = 0 \<and> sm_version_only m = 0 \<and> sm_new m = 0 \<and> sm_removed m = 0 \<longleftrightarrow>
        (\<forall>b \<in> set provider. case map_of stored (bar_time b) of None \<Rightarrow> False
           | Some s \<Rightarrow> row_content b = row_content s \<and> data_version b = data_version s)
        \<and> (\<forall>t \<in> fst ` set stored. sm_from m \<le> t \<and> t \<le> sm_to m \<longrightarrow> t \<in> bar_time ` set provider))"
proof -
  define ord where "ord = sort_key bar_time provider"
  have st: "set ord = set provider" "length ord = length provider" by (simp_all add: ord_def)
  have m: "sm_provider m = length ord"
    "sm_matched m = length (filter (sample_matches stored (\<lambda>b s. True)) ord)"
    "sm_content m = length (filter (sample_matches stored (\<lambda>b s. \<not> same_content b s)) ord)"
    "sm_version_only m = length (filter (sample_matches stored
        (\<lambda>b s. same_content b s \<and> data_version s \<noteq> data_version b)) ord)"
    "sm_new m = length (filter (\<lambda>b. map_of stored (bar_time b) = None) ord)"
    "sm_removed m = length (filter (\<lambda>t. hd (map bar_time ord) \<le> t \<and> t \<le> last (map bar_time ord)
        \<and> t \<notin> set (map bar_time ord)) (map fst stored))"
    "sm_from m = hd (map bar_time ord)" "sm_to m = last (map bar_time ord)"
    using assms by (auto simp: compare_revision_sample_def Let_def ord_def [symmetric] split: if_splits)
  have new: "filter (\<lambda>b. map_of stored (bar_time b) = None) xs
      = filter (\<lambda>b. \<not> sample_matches stored (\<lambda>b s. True) b) xs" for xs
    by (intro filter_cong) (auto simp: sample_matches_def split: option.splits)
  have parts: "length (filter (sample_matches stored (\<lambda>b s. \<not> same_content b s)) xs)
      + length (filter (sample_matches stored (\<lambda>b s. same_content b s \<and> data_version s \<noteq> data_version b)) xs)
      \<le> length (filter (sample_matches stored (\<lambda>b s. True)) xs)" for xs
    by (induction xs) (auto simp: sample_matches_def split: option.splits)
  have eq: "sm_content m = 0 \<and> sm_version_only m = 0 \<and> sm_new m = 0 \<longleftrightarrow>
      (\<forall>b \<in> set provider. case map_of stored (bar_time b) of None \<Rightarrow> False
         | Some s \<Rightarrow> row_content b = row_content s \<and> data_version b = data_version s)"
    unfolding m st(1) [symmetric]
    by (auto simp: filter_empty_conv sample_matches_def same_content_def split: option.splits)
  have rem: "sm_removed m = 0 \<longleftrightarrow>
      (\<forall>t \<in> fst ` set stored. sm_from m \<le> t \<and> t \<le> sm_to m \<longrightarrow> t \<in> bar_time ` set provider)"
    unfolding m(6-8) st(1) [symmetric] by (auto simp: filter_empty_conv)
  show ?thesis
    using m(1,2,5) st(2) new [of ord] filter_partition_length [of "sample_matches stored (\<lambda>b s. True)" ord]
      parts [of ord] m(3,4) eq rem by auto
qed

section \<open>The quarantine is bounded\<close>

definition rejected_index_ok :: "datetime set \<Rightarrow> RejectedBar set \<Rightarrow> (datetime \<times> RejectedBar) list \<Rightarrow> bool" where
  "rejected_index_ok ok pool acc = (distinct (map fst acc)
     \<and> (\<forall>(t, r) \<in> set acc. r_time_utc r = t \<and> t \<notin> ok \<and> r \<in> pool))"

lemma index_rejected_ok:
  assumes "index_rejected ok rs acc = Inr acc'" and "rejected_index_ok ok pool acc" and "set rs \<subseteq> pool"
  shows "rejected_index_ok ok pool acc' \<and> fst ` set acc' = fst ` set acc \<union> r_time_utc ` set rs"
  using assms
proof (induction rs arbitrary: acc)
  case (Cons r rs)
  have fresh: "r_time_utc r \<notin> ok" and pool: "r \<in> pool" "set rs \<subseteq> pool"
    using Cons.prems(1,3) by (auto split: if_splits)
  show ?case
  proof (cases "map_of acc (r_time_utc r)")
    case None
    then have new: "r_time_utc r \<notin> fst ` set acc" by (simp add: map_of_eq_None_iff)
    have "rejected_index_ok ok pool (acc @ [(r_time_utc r, r)])"
      using Cons.prems(2) fresh pool new by (auto simp: rejected_index_ok_def)
    with Cons.IH [of "acc @ [(r_time_utc r, r)]"] Cons.prems(1) None pool fresh show ?thesis by auto
  next
    case (Some prev)
    let ?acc = "map (\<lambda>(t, p). (t, if t = r_time_utc r then r else p)) acc"
    have keys: "map fst ?acc = map fst acc" by (induction acc) auto
    have "rejected_index_ok ok pool ?acc"
      using Cons.prems(2) fresh pool unfolding rejected_index_ok_def keys by auto
    moreover have "fst ` set ?acc = fst ` set acc" using keys by (metis list.set_map)
    moreover have "r_time_utc r \<in> fst ` set acc" using Some by (metis map_of_eq_None_iff option.distinct(1))
    ultimately show ?thesis
      using Cons.IH [of ?acc] Cons.prems(1) Some pool fresh by (auto split: if_splits)
  qed
qed (simp add: rejected_index_ok_def)

text \<open>A validated quarantine is exactly the rejected times, once each and in order, none of
  them an accepted time; it never reaches the newest observation; and without an approved
  exception it has at most ten rows and at most one in ten thousand of the observations.\<close>

theorem quarantine_is_bounded:
  assumes "validate_full_refetch_quarantine digest ok_times rejected approved = Inr rs"
  shows "set rs \<subseteq> set rejected \<and> r_time_utc ` set rs = r_time_utc ` set rejected
    \<and> sorted (map r_time_utc rs) \<and> distinct (map r_time_utc rs) \<and> set (map r_time_utc rs) \<inter> set ok_times = {}
    \<and> (rs \<noteq> [] \<longrightarrow> (\<exists>t \<in> set ok_times. \<forall>r \<in> set rs. r_time_utc r < t))
    \<and> (approved = None \<longrightarrow> length rs \<le> 10
        \<and> (rs = [] \<or> dec_div (of_nat (length rs)) (of_nat (card (set ok_times \<union> r_time_utc ` set rejected))) \<le> 1 / 10000))"
proof -
  obtain acc where acc: "index_rejected (set ok_times) rejected [] = Inr acc"
    using assms by (auto simp: validate_full_refetch_quarantine_def ebind_eq_Inr)
  have ix: "rejected_index_ok (set ok_times) (set rejected) acc" "fst ` set acc = r_time_utc ` set rejected"
    using index_rejected_ok [OF acc, of "set rejected"] by (simp_all add: rejected_index_ok_def)
  let ?u = "sort_key r_time_utc (map snd acc)"
  let ?seen = "set ok_times \<union> fst ` set acc"
  have rs: "rs = ?u" and newest: "?u \<noteq> [] \<Longrightarrow> \<not> list_ex (\<lambda>r. r_time_utc r = Max ?seen) ?u"
    and few: "approved = None \<Longrightarrow> ?u \<noteq> [] \<Longrightarrow> \<not> length ?u > max_quarantined_rows
        \<and> \<not> dec_div (of_nat (length ?u)) (of_nat (card ?seen)) > max_quarantined_rate"
    using assms acc
    by (auto simp: validate_full_refetch_quarantine_def Let_def simp del: sort_key_simps
      split: if_splits option.splits)
  have times_eq: "map r_time_utc (map snd acc) = map fst acc"
    using ix(1) by (auto simp: rejected_index_ok_def)
  have st: "set rs = snd ` set acc" by (simp add: rs)
  have same: "set (map r_time_utc rs) = set (map fst acc)" "length rs = length acc"
    unfolding times_eq [symmetric] rs by (simp_all add: image_image)
  have dist: "distinct (map r_time_utc rs)"
    using ix(1) distinct_card [of "map fst acc"] same
    by (intro card_distinct) (simp add: rejected_index_ok_def)
  have ts: "set (map r_time_utc rs) = r_time_utc ` set rejected"
    using same(1) ix(2) by simp
  have sub: "set rs \<subseteq> set rejected" "set (map r_time_utc rs) \<inter> set ok_times = {}"
    using ix(1) unfolding st by (auto simp: rejected_index_ok_def st)
  have latest: "\<exists>t \<in> set ok_times. \<forall>r \<in> set rs. r_time_utc r < t" if ne: "rs \<noteq> []"
  proof -
    have seen: "?seen = set ok_times \<union> r_time_utc ` set rs" using ts ix(2) by simp
    have "Max ?seen \<in> ?seen" using ne rs by (intro Max_in) auto
    moreover have not: "r_time_utc r \<noteq> Max ?seen" if "r \<in> set rs" for r
      using newest ne that unfolding rs [symmetric] by (auto simp: list_ex_iff)
    ultimately have "Max ?seen \<in> set ok_times" unfolding seen by fastforce
    moreover have "r_time_utc r < Max ?seen" if "r \<in> set rs" for r
      using not [OF that] Max_ge [of ?seen "r_time_utc r"] that seen by (simp add: order.strict_iff_order)
    ultimately show ?thesis by blast
  qed
  have srt: "sorted (map r_time_utc rs)" unfolding rs by (rule sorted_sort_key)
  have few2: "length rs \<le> 10 \<and> (rs = [] \<or> dec_div (of_nat (length rs)) (of_nat (card (set ok_times \<union> r_time_utc ` set rejected))) \<le> 1 / 10000)"
    if "approved = None"
    using few [OF that] unfolding rs [symmetric] ix(2)
    by (cases "rs = []") (auto simp: max_quarantined_rows_def max_quarantined_rate_def not_less)
  show ?thesis using sub ts srt dist latest few2 by auto
qed

text \<open>C9: A committed full replacement went through the guard: its run was a running full-refetch
  run and the instrument's watermark was marked stale, and afterwards the instrument has no curated
  row that was not acquired.\<close>

theorem full_replacement_is_guarded:
  assumes "market_wf db" and "commit_acquired digest migrated now run c db = (Inr m, db')"
    and "cr_replace c = Some i"
  shows "(\<exists>r \<in> set (runs db). rn_id r = run \<and> rn_trigger r = ''manual_db3_full_refetch'' \<and> rn_status r = ''RUNNING'')
    \<and> (\<exists>w \<in> set (watermarks db). wm_instrument w = i \<and> wm_status w = ''STALE_DATA_VERSION'')
    \<and> (\<forall>r \<in> set (curated db'). mr_instrument r = i \<longrightarrow> mr_run r = run)"
proof -
  obtain q where b: "commit_body digest migrated now run c q db = Inr (m, db')"
    using assms(2) by (auto simp: commit_acquired_def transaction_commit split: if_splits sum.splits)
  obtain ss where e: "commit_effect now run c ss m db db'" and wf': "market_wf db'"
    using commit_body_effect [OF b assms(1)] by blast
  obtain ss1 db1 db2 db3 raw where s: "stage_acquired run c q db = Inr (ss1, db1)"
      "prepare_full_refetch run i (db1\<lparr>quality := raw, raw_bars := db2\<rparr>) = Inr db3"
    using b assms(3) by (auto simp: commit_body_def write_market_rows_def Let_def ebind_eq_Inr)
  have w: "tbl_wf staged_key (staging db)" using assms(1) by (simp add: market_wf_def)
  have same: "runs db1 = runs db" "watermarks db1 = watermarks db"
    using stage_acquired_parts [OF s(1) w] by auto
  have guard: "(\<exists>r \<in> set (runs db). rn_id r = run \<and> rn_trigger r = ''manual_db3_full_refetch'' \<and> rn_status r = ''RUNNING'')
    \<and> (\<exists>w \<in> set (watermarks db). wm_instrument w = i \<and> wm_status w = ''STALE_DATA_VERSION'')"
    using prepare_full_refetch_parts [OF s(2)] same by (auto simp: find_Some_iff)
  have "mr_run r = run" if r: "r \<in> set (curated db')" "mr_instrument r = i" for r
  proof -
    have k: "tbl_lookup curated_key (curated_key r) (curated db') = Some r"
      using wf' r(1) by (simp add: market_wf_def tbl_lookup_iff)
    have "fst (curated_key r) = i" using r(2) by (simp add: curated_key_def)
    then have "kept_row c (curated_key r) db = None" using assms(3) by (simp add: kept_row_def)
    moreover have "tbl_lookup curated_key (curated_key r) (curated db') =
        (case find (\<lambda>s. staged_target s = curated_key r) ss of Some s \<Rightarrow> Some (curated_row s)
         | None \<Rightarrow> kept_row c (curated_key r) db)"
      using e unfolding commit_effect_def by blast
    ultimately obtain s' where s': "find (\<lambda>s. staged_target s = curated_key r) ss = Some s'" "r = curated_row s'"
      using k by (auto split: option.splits)
    then have "s' \<in> set ss" by (auto simp: find_Some_iff)
    then have "row_parts s' \<in> set (map row_parts ss)" by simp
    moreover have "map row_parts ss = acquired_rows run c" using e unfolding commit_effect_def by blast
    ultimately have "row_parts s' \<in> set (acquired_rows run c)" by simp
    then show ?thesis using s'(2) by (auto simp: acquired_rows_def row_parts_def curated_row_def)
  qed
  with guard show ?thesis by blast
qed

section \<open>Concrete runs\<close>

definition tip_instrument :: CanonicalInstrument where
  "tip_instrument = \<lparr> i_category = ''bond'', i_key = ''tip'', i_symbol = ''TIP:arcx'', i_uic = 37,
     i_asset_type = ''Etf'', i_currency = ''USD'' \<rparr>"

definition tip_watermark :: "string \<Rightarrow> WatermarkRow" where
  "tip_watermark status = \<lparr> wm_instrument = 9, wm_basis = ''native_ohlc'', wm_seen = tip_open + 6 * hour,
     wm_complete = Some (tip_open + 6 * hour), wm_version = Some 29759067, wm_run = Some 5,
     wm_status = status, wm_updated = 0 \<rparr>"

definition tip_market :: "string \<Rightarrow> string \<Rightarrow> market_db" where
  "tip_market trigger status = tip_db\<lparr>
     runs := [new_run 7 trigger ''r''],
     scopes := [\<lparr> sc_run = 7, sc_instrument = 9, sc_key = ''tip'', sc_uic = 37, sc_asset_type = ''Etf'',
       sc_basis = ''native_ohlc'' \<rparr>],
     watermarks := [tip_watermark status]\<rparr>"

definition tip_artifact :: ArtifactRecord where
  "tip_artifact = \<lparr> ar_path = ''data/acquisition/runs/r/chart_0001.json'', ar_sha256 = example_sha,
     ar_size = 1, ar_rows = 2 \<rparr>"

definition tip_state :: "string \<Rightarrow> InstrumentState" where
  "tip_state status = state_of 9 (tip_watermark status)"

definition tip_request :: "string \<Rightarrow> int option \<Rightarrow> CommitRequest" where
  "tip_request status replacing = \<lparr>
     cr_acquired = [\<lparr> ac_registry = tip_instrument, ac_state = tip_state status,
       ac_bars = [tip_bar (tip_open + 5 * hour), (tip_bar (tip_open + 6 * hour))\<lparr>px_close := 12\<rparr>] \<rparr>],
     cr_artifacts = [tip_artifact], cr_replace = replacing, cr_quarantined = [],
     cr_dataset = dataset_id, cr_bootstrap = False, cr_approved = None \<rparr>"

definition tip_refetch :: "(exn + CommitResult) \<times> market_db" where
  "tip_refetch = commit_acquired (\<lambda>_. []) True (tip_open + day) 7 (tip_request ''STALE_DATA_VERSION'' (Some 9))
     (tip_market ''manual_db3_full_refetch'' ''STALE_DATA_VERSION'')"

lemma tip_refetch_commits:
  "case tip_refetch of (Inl _, _) \<Rightarrow> False
   | (Inr m, db') \<Rightarrow> cm_raw m = 2 \<and> cm_removed m = 4 \<and> length (curated db') = 2"
  by code_simp

lemma tip_market_wf: "market_wf (tip_market trigger status)"
proof -
  have "market_wf (tip_market [] [])" by code_simp
  then show ?thesis by (simp add: market_wf_def tip_market_def tbl_wf_def watermark_ok_def tip_watermark_def)
qed

lemma tip_refetch_result:
  obtains m db' where "tip_refetch = (Inr m, db')" "length (curated db') = 2"
proof -
  obtain x d where x: "tip_refetch = (x, d)" by (cases tip_refetch)
  have "case x of Inl _ \<Rightarrow> False | Inr m \<Rightarrow> cm_raw m = 2 \<and> cm_removed m = 4 \<and> length (curated d) = 2"
    using tip_refetch_commits by (simp only: x prod.case)
  then obtain m where "x = Inr m" "length (curated d) = 2" by (cases x) simp_all
  with x that show ?thesis by blast
qed

theorem commit_is_atomic_and_exact_witness:
  "\<exists>m db' w. tip_refetch = (Inr m, db') \<and> market_wf db' \<and> length (curated db') = 2
     \<and> tbl_lookup watermark_key (9, ''native_ohlc'') (watermarks db') = Some w
     \<and> wm_run w = Some 7 \<and> wm_status w = ''ACTIVE'' \<and> wm_updated w = tip_open + day"
proof -
  obtain m db' where r: "tip_refetch = (Inr m, db')" "length (curated db') = 2" by (rule tip_refetch_result)
  let ?c = "tip_request ''STALE_DATA_VERSION'' (Some 9)"
  have "case (Inr m :: exn + CommitResult) of Inl e \<Rightarrow> db' = tip_market ''manual_db3_full_refetch'' ''STALE_DATA_VERSION''
      | Inr m \<Rightarrow> market_wf db' \<and> (\<exists>ss. commit_effect (tip_open + day) 7 ?c ss m
          (tip_market ''manual_db3_full_refetch'' ''STALE_DATA_VERSION'') db')"
    by (rule commit_is_atomic_and_exact [OF tip_market_wf r(1) [unfolded tip_refetch_def]])
  then have e: "market_wf db'" "marks_written (tip_open + day) 7 (cr_acquired ?c) (watermarks db')"
    by (auto simp: commit_effect_def)
  obtain a where a: "cr_acquired ?c = [] @ a # []" "series_of a = (9, ''native_ohlc'')"
    by (simp add: tip_request_def series_of_def tip_state_def state_of_def tip_instrument_def price_basis_of_def)
  have "series_of a \<notin> series_of ` set []" by simp
  with e(2) a obtain w where "tbl_lookup watermark_key (9, ''native_ohlc'') (watermarks db') = Some w"
      "marks_acquisition (tip_open + day) 7 (ac_bars a) w"
    unfolding marks_written_def by metis
  then show ?thesis using r e(1) by (auto simp: marks_acquisition_def)
qed

theorem full_replacement_is_guarded_witness:
  "\<exists>m db'. tip_refetch = (Inr m, db') \<and> \<not> (\<exists>r. r \<in> set (curated db') \<and> mr_instrument r = 9 \<and> mr_run r \<noteq> 7)"
proof -
  obtain m db' where r: "tip_refetch = (Inr m, db')" by (rule tip_refetch_result)
  have "cr_replace (tip_request ''STALE_DATA_VERSION'' (Some 9)) = Some 9" by (simp add: tip_request_def)
  from full_replacement_is_guarded [OF tip_market_wf r [unfolded tip_refetch_def] this] r
  show ?thesis by blast
qed

definition tip_detection :: RevisionDetection where
  "tip_detection = \<lparr> rd_key = ''tip'', rd_old = 29759067, rd_new = 29759068,
     rd_sample = \<lparr> sm_from = tip_open, sm_to = tip_open + hour, sm_provider = 2, sm_matched = 2, sm_content = 0,
       sm_version_only = 2, sm_new = 0, sm_removed = 0, sm_latest_complete = Some tip_open \<rparr>,
     rd_time = tip_open + day, rd_path = ''data/r.json'', rd_sha256 = example_sha \<rparr>"

definition tip_warning :: "(exn + WarningResult) \<times> market_db" where
  "tip_warning = record_revision_warning (\<lambda>_. []) (tip_open + day) 7 [tip_artifact] tip_detection
     canonical_contract (tip_market ''manual_db3'' ''ACTIVE'')"

lemma tip_warning_recorded: "case tip_warning of (Inl _, _) \<Rightarrow> False | (Inr w, db') \<Rightarrow> wr_event w = 1"
  by code_simp

theorem unfinished_runs_keep_market_data_witness:
  "\<exists>w db'. tip_warning = (Inr w, db') \<and> same_market_data (tip_market ''manual_db3'' ''ACTIVE'') db'
     \<and> watermarks db' = [tip_watermark ''ACTIVE'']"
proof -
  obtain w db' where r: "tip_warning = (Inr w, db')"
    using tip_warning_recorded by (auto split: sum.splits prod.splits)
  from unfinished_runs_keep_market_data [THEN conjunct2, rule_format, OF r [unfolded tip_warning_def]]
  have "same_market_data (tip_market ''manual_db3'' ''ACTIVE'') db'"
    "watermarks db' = watermarks (tip_market ''manual_db3'' ''ACTIVE'')" by blast+
  moreover have "watermarks (tip_market ''manual_db3'' ''ACTIVE'') = [tip_watermark ''ACTIVE'']"
    by (simp add: tip_market_def)
  ultimately show ?thesis using r by metis
qed

theorem warning_keeps_revisions_wf_witness:
  "\<exists>w db'. tip_warning = (Inr w, db') \<and> revisions_wf db'"
proof -
  obtain w db' where r: "tip_warning = (Inr w, db')"
    using tip_warning_recorded by (auto split: sum.splits prod.splits)
  have "revisions_wf (tip_market ''manual_db3'' ''ACTIVE'')"
    by (simp add: revisions_wf_def tip_market_def tip_db_def tbl_wf_def open_series_def)
  from warning_keeps_revisions_wf [OF this r [unfolded tip_warning_def]] show ?thesis using r by blast
qed

theorem revision_sample_accounts_for_every_row_witness:
  "\<exists>m. compare_revision_sample tip_bars (map (\<lambda>b. (bar_time b, b\<lparr>px_close := 12\<rparr>)) (take 4 tip_bars)) = Inr m
     \<and> sm_matched m + sm_new m = 5 \<and> sm_content m = 4"
proof -
  have "case compare_revision_sample tip_bars (map (\<lambda>b. (bar_time b, b\<lparr>px_close := 12\<rparr>)) (take 4 tip_bars)) of
      Inl _ \<Rightarrow> False | Inr m \<Rightarrow> sm_content m = 4" by code_simp
  then obtain m where r: "compare_revision_sample tip_bars (map (\<lambda>b. (bar_time b, b\<lparr>px_close := 12\<rparr>)) (take 4 tip_bars)) = Inr m"
      "sm_content m = 4" by (auto split: sum.splits)
  then show ?thesis
    using revision_sample_accounts_for_every_row [OF r(1)] by (simp add: tip_bars_def)
qed

definition example_rejected :: RejectedBar where
  "example_rejected = \<lparr> r_time_utc = Aware hour, r_error_code = ''FX_BID_ABOVE_ASK'',
     r_violations = [\<lparr> v_field = ''High'', v_bid = 2, v_ask = 1 \<rparr>], r_data_version = Some 1,
     r_payload_sha256 = example_sha, r_artifact_relative_path = ''p'' \<rparr>"

definition example_exception :: ApprovedException where
  "example_exception = \<lparr> ae_policy = ''p'', ae_rows = 1, ae_fields = [''High''], ae_from = iso_utc hour,
     ae_to = iso_utc hour, ae_sha256 = [], ae_modified = False, ae_exact = True \<rparr>"

theorem quarantine_is_bounded_witness:
  "validate_full_refetch_quarantine (\<lambda>_. []) [Aware 0, Aware (2 * hour)] [example_rejected, example_rejected]
     (Some example_exception) = Inr [example_rejected]
   \<and> Aware hour \<notin> set [Aware 0, Aware (2 * hour)]"
proof -
  have r: "validate_full_refetch_quarantine (\<lambda>_. []) [Aware 0, Aware (2 * hour)] [example_rejected, example_rejected]
     (Some example_exception) = Inr [example_rejected]" by code_simp
  have "set (map r_time_utc [example_rejected]) \<inter> set [Aware 0, Aware (2 * hour)] = {}"
    using quarantine_is_bounded [OF r] by blast
  then show ?thesis using r by (simp add: example_rejected_def)
qed

end
