(* ===== verification/RevisionWindow.thy ===== *)
theory RevisionWindow
  imports IncrementalCommit
begin

text \<open>
  The comparison of \<open>market_db/data_version_reconcile.py\<close>: one provider window against the stored
  rows of the same range, the decision whether the change is bounded by a stable anchor, and what a
  decision to apply guarantees about the rows outside the affected range.
\<close>

section \<open>The frozen limits\<close>

definition revision_policy :: string where
  "revision_policy = ''bounded_data_version_reconciliation_v1''"
definition window_counts :: "nat list" where "window_counts = [96, 384, 1200]"
definition stable_anchor_rows :: nat where "stable_anchor_rows = 16"
definition max_affected_rows :: nat where "max_affected_rows = 240"
definition max_removed_rows :: nat where "max_removed_rows = 64"

text \<open>
  \<open>CORPORATE_ACTION_RATIO\<close>, 0.80: the quotient of two row counts of a window, at most 1200, rounds
  to a double at least the double 0.80 exactly when the rational quotient is at least 4/5.
\<close>

definition corporate_action_ratio :: rat where "corporate_action_ratio = 4 / 5"

section \<open>One window\<close>

record RevisionComparison =
  rc_decision :: string
  rc_reason :: string
  rc_old :: int
  rc_new :: int
  rc_from :: utc
  rc_to :: utc
  rc_provider :: nat
  rc_matched :: nat
  rc_content :: nat
  rc_version_only :: nat
  rc_new_rows :: nat
  rc_removed :: nat
  rc_anchor :: nat
  rc_affected_from :: "utc option"
  rc_affected_to :: "utc option"
  rc_content_times :: "utc list"
  rc_new_times :: "utc list"
  rc_removed_times :: "utc list"

definition bar_versions :: "NormalizedBar list \<Rightarrow> int list" where
  "bar_versions bars = remdups (List.map_filter data_version bars)"

definition content_differs :: "stored_bars \<Rightarrow> NormalizedBar \<Rightarrow> bool" where
  "content_differs stored = sample_matches stored (\<lambda>b s. \<not> same_content b s)"

definition unstored :: "stored_bars \<Rightarrow> NormalizedBar \<Rightarrow> bool" where
  "unstored stored b = (map_of stored (bar_time b) = None)"

definition removed_times :: "stored_bars \<Rightarrow> utc list \<Rightarrow> utc list" where
  "removed_times stored ts = sort (filter (\<lambda>t. hd ts \<le> t \<and> t \<le> last ts \<and> t \<notin> set ts) (map fst stored))"

definition affected_times :: "stored_bars \<Rightarrow> NormalizedBar list \<Rightarrow> utc list" where
  "affected_times stored ordered =
     sort (remdups (map bar_time (filter (content_differs stored) ordered)
                    @ map bar_time (filter (unstored stored) ordered)
                    @ removed_times stored (map bar_time ordered)))"

definition stable_row :: "stored_bars \<Rightarrow> NormalizedBar \<Rightarrow> bool" where
  "stable_row stored b = (is_complete b \<and> sample_matches stored same_content b)"

text \<open>The rows before the affected range, walked backwards while they are stable.\<close>

definition preceding :: "utc list \<Rightarrow> NormalizedBar list \<Rightarrow> NormalizedBar list" where
  "preceding affected ordered =
     (if affected = [] then ordered else filter (\<lambda>b. bar_time b < hd affected) ordered)"

definition stable_anchor :: "stored_bars \<Rightarrow> NormalizedBar list \<Rightarrow> NormalizedBar list" where
  "stable_anchor stored rows = takeWhile (stable_row stored) (rev rows)"

definition affected_span :: "stored_bars \<Rightarrow> NormalizedBar list \<Rightarrow> nat" where
  "affected_span stored ordered =
     (let affected = affected_times stored ordered
      in length (filter (\<lambda>b. affected \<noteq> [] \<and> hd affected \<le> bar_time b \<and> bar_time b \<le> last affected) ordered)
         + length (removed_times stored (map bar_time ordered)))"

definition matched_complete :: "stored_bars \<Rightarrow> NormalizedBar list \<Rightarrow> nat" where
  "matched_complete stored ordered = length (filter (\<lambda>b. is_complete b \<and> \<not> unstored stored b) ordered)"

definition changed_complete :: "stored_bars \<Rightarrow> NormalizedBar list \<Rightarrow> nat" where
  "changed_complete stored ordered = length (filter (\<lambda>b. content_differs stored b \<and> is_complete b) ordered)"

definition change_ratio :: "stored_bars \<Rightarrow> NormalizedBar list \<Rightarrow> rat" where
  "change_ratio stored ordered =
     (if matched_complete stored ordered = 0 then 0
      else of_nat (changed_complete stored ordered) / of_nat (matched_complete stored ordered))"

definition window_decision :: "stored_bars \<Rightarrow> NormalizedBar list \<Rightarrow> nat \<Rightarrow> nat \<Rightarrow> nat \<Rightarrow> string \<times> string" where
  "window_decision stored ordered requested maximum required =
     (let ts = map bar_time ordered; affected = affected_times stored ordered;
          anchor = length (stable_anchor stored (preceding affected ordered));
          at_boundary = (affected \<noteq> [] \<and> hd affected = hd ts)
      in if length (removed_times stored ts) > max_removed_rows
         then (''BLOCKED_FULL_REFETCH'', ''REVISION_REMOVAL_LIMIT_EXCEEDED'')
         else if affected_span stored ordered > max_affected_rows
         then (''BLOCKED_FULL_REFETCH'', ''REVISION_AFFECTED_RANGE_LIMIT_EXCEEDED'')
         else if required \<le> matched_complete stored ordered \<and> corporate_action_ratio \<le> change_ratio stored ordered
         then (''BLOCKED_FULL_REFETCH'', ''REVISION_WHOLE_HISTORY_CHANGE_SUSPECTED'')
         else if anchor < required \<or> at_boundary
         then (if requested < maximum then (''EXPAND'', ''REVISION_STABLE_BOUNDARY_NOT_YET_PROVEN'')
               else (''BLOCKED_FULL_REFETCH'', ''REVISION_COMPARISON_LIMIT_EXCEEDED''))
         else (''READY_TO_APPLY'',
               if affected = [] then ''REVISION_NO_CONTENT_CHANGE_WITH_STABLE_ANCHOR''
               else ''REVISION_BOUNDED_RANGE_IDENTIFIED''))"

definition compare_revision_window ::
  "NormalizedBar list \<Rightarrow> stored_bars \<Rightarrow> int \<Rightarrow> nat \<Rightarrow> nat \<Rightarrow> nat \<Rightarrow> exn + RevisionComparison" where
  "compare_revision_window provider stored old_version requested maximum required =
     (let ordered = sort_key bar_time provider; ts = map bar_time ordered; vs = bar_versions ordered
      in if provider = [] then Inl (BarQualityError ''REVISION_EMPTY_PROVIDER_WINDOW'')
         else if \<not> distinct ts then Inl (BarQualityError ''REVISION_NON_UNIQUE_PROVIDER_WINDOW'')
         else if length vs \<noteq> 1 then Inl (BarQualityError ''REVISION_MULTIPLE_OR_MISSING_DATA_VERSIONS'')
         else if hd vs = old_version then Inl (BarQualityError ''REVISION_DATA_VERSION_NOT_CHANGED'')
         else
           let affected = affected_times stored ordered;
               decision = window_decision stored ordered requested maximum required;
               news = filter (unstored stored) ordered;
               diffs = filter (content_differs stored) ordered
           in Inr \<lparr>
             rc_decision = fst decision, rc_reason = snd decision, rc_old = old_version, rc_new = hd vs,
             rc_from = hd ts, rc_to = last ts, rc_provider = length ordered,
             rc_matched = length (filter (\<lambda>b. \<not> unstored stored b) ordered),
             rc_content = length diffs,
             rc_version_only = length (filter (sample_matches stored
                (\<lambda>b s. same_content b s \<and> data_version s \<noteq> Some (hd vs))) ordered),
             rc_new_rows = length news, rc_removed = length (removed_times stored ts),
             rc_anchor = length (stable_anchor stored (preceding affected ordered)),
             rc_affected_from = (if affected = [] then None else Some (hd affected)),
             rc_affected_to = (if affected = [] then None else Some (last affected)),
             rc_content_times = map bar_time diffs, rc_new_times = map bar_time news,
             rc_removed_times = removed_times stored ts \<rparr>)"

section \<open>What the comparison finds\<close>

lemma window_result:
  assumes "compare_revision_window provider stored old requested maximum required = Inr c"
  defines "ordered \<equiv> sort_key bar_time provider"
  shows "provider \<noteq> []" "distinct (map bar_time ordered)" "set ordered = set provider" "length ordered = length provider"
    "(rc_decision c, rc_reason c) = window_decision stored ordered requested maximum required"
    "rc_from c = hd (map bar_time ordered)" "rc_to c = last (map bar_time ordered)"
    "rc_affected_from c = (if affected_times stored ordered = [] then None else Some (hd (affected_times stored ordered)))"
    "rc_affected_to c = (if affected_times stored ordered = [] then None else Some (last (affected_times stored ordered)))"
    "rc_removed c = length (removed_times stored (map bar_time ordered))"
    "rc_content c = length (filter (content_differs stored) ordered)"
    "rc_new_rows c = length (filter (unstored stored) ordered)"
    "rc_anchor c = length (stable_anchor stored (preceding (affected_times stored ordered) ordered))"
    "rc_matched c = length (filter (\<lambda>b. \<not> unstored stored b) ordered)"
    "rc_version_only c = length (filter (sample_matches stored (\<lambda>b s. same_content b s \<and> data_version s \<noteq> Some (rc_new c))) ordered)"
    "rc_provider c = length ordered" "rc_old c = old" "rc_new c \<noteq> old" "bar_versions ordered = [rc_new c]"
    "rc_content_times c = map bar_time (filter (content_differs stored) ordered)"
    "rc_new_times c = map bar_time (filter (unstored stored) ordered)"
    "rc_removed_times c = removed_times stored (map bar_time ordered)"
  using assms(1) unfolding ordered_def compare_revision_window_def Let_def
  by (auto split: if_splits simp: length_Suc_conv)

lemma window_sorted: "sorted (map bar_time (sort_key bar_time provider))"
  by simp

lemma affected_sorted: "sorted (affected_times stored ordered)" "distinct (affected_times stored ordered)"
  by (simp_all add: affected_times_def)

lemma sorted_bounds:
  assumes "sorted (xs :: utc list)" and "t \<in> set xs"
  shows "hd xs \<le> t \<and> t \<le> last xs"
proof -
  obtain i where i: "i < length xs" "t = xs ! i" using assms(2) by (auto simp: in_set_conv_nth)
  have "hd xs = xs ! 0" "last xs = xs ! (length xs - 1)"
    using i(1) hd_conv_nth [of xs] last_conv_nth [of xs] by fastforce+
  then show ?thesis using assms(1) i sorted_nth_mono [of xs 0 i] sorted_nth_mono [of xs i "length xs - 1"] by auto
qed

lemma affected_set:
  "set (affected_times stored ordered) =
     bar_time ` {b \<in> set ordered. content_differs stored b \<or> unstored stored b}
     \<union> set (removed_times stored (map bar_time ordered))"
  by (auto simp: affected_times_def)

lemma removed_set:
  "set (removed_times stored ts) = {t \<in> fst ` set stored. hd ts \<le> t \<and> t \<le> last ts \<and> t \<notin> set ts}"
  by (auto simp: removed_times_def)

text \<open>The time lies outside the affected range of a comparison.\<close>

definition outside_affected :: "RevisionComparison \<Rightarrow> utc \<Rightarrow> bool" where
  "outside_affected c t =
     (case (rc_affected_from c, rc_affected_to c) of
        (Some a, Some b) \<Rightarrow> t < a \<or> b < t
      | _ \<Rightarrow> True)"

definition provider_at :: "NormalizedBar list \<Rightarrow> utc \<Rightarrow> NormalizedBar option" where
  "provider_at provider t = find (\<lambda>b. bar_time b = t) provider"

lemma outside_unaffected:
  assumes "compare_revision_window provider stored old requested maximum required = Inr c"
    and "outside_affected c t"
  shows "t \<notin> set (affected_times stored (sort_key bar_time provider))"
proof
  assume t: "t \<in> set (affected_times stored (sort_key bar_time provider))"
  then have "affected_times stored (sort_key bar_time provider) \<noteq> []" by auto
  then show False using assms(2) sorted_bounds [OF affected_sorted(1) t] window_result(8,9) [OF assms(1)]
    by (auto simp: outside_affected_def)
qed

lemma outside_agrees:
  assumes c: "compare_revision_window provider stored old requested maximum required = Inr c"
    and t: "rc_from c \<le> t" "t \<le> rc_to c" "outside_affected c t"
  shows "case (provider_at provider t, map_of stored t) of
      (None, None) \<Rightarrow> True | (Some b, Some s) \<Rightarrow> same_content b s | _ \<Rightarrow> False"
proof -
  let ?o = "sort_key bar_time provider"
  note w = window_result [OF c]
  have un: "t \<notin> set (affected_times stored ?o)" by (rule outside_unaffected [OF c t(3)])
  show ?thesis
  proof (cases "provider_at provider t")
    case (Some b)
    then have b: "b \<in> set ?o" "bar_time b = t"
      by (auto simp: provider_at_def find_Some_iff in_set_conv_nth w(3))
    with un have "\<not> content_differs stored b" "\<not> unstored stored b" by (auto simp: affected_set)
    then show ?thesis using Some b(2)
      by (auto simp: content_differs_def sample_matches_def unstored_def split: option.splits)
  next
    case None
    then have "t \<notin> bar_time ` set provider" by (auto simp: provider_at_def find_None_iff)
    then have "t \<notin> fst ` set stored"
      using un t(1,2) w(3,6,7) by (auto simp: affected_set removed_set)
    then have "map_of stored t = None" by (simp add: map_of_eq_None_iff)
    then show ?thesis using None by simp
  qed
qed

lemma length_filter_disjoint:
  "(\<And>x. \<not> (P x \<and> Q x)) \<Longrightarrow> length (filter (\<lambda>x. P x \<or> Q x) xs) = length (filter P xs) + length (filter Q xs)"
  by (induction xs) auto

lemma length_filter_mono: "(\<And>x. P x \<Longrightarrow> Q x) \<Longrightarrow> length (filter P xs) \<le> length (filter Q xs)"
  by (induction xs) (auto intro: le_SucI)

lemma affected_counts:
  assumes "compare_revision_window provider stored old requested maximum required = Inr c"
  shows "rc_content c + rc_new_rows c + rc_removed c \<le> affected_span stored (sort_key bar_time provider)"
proof -
  let ?o = "sort_key bar_time provider" and ?a = "affected_times stored (sort_key bar_time provider)"
  note w = window_result [OF assms]
  have split: "length (filter (\<lambda>b. content_differs stored b \<or> unstored stored b) ?o)
      = length (filter (content_differs stored) ?o) + length (filter (unstored stored) ?o)"
    by (rule length_filter_disjoint) (auto simp: content_differs_def sample_matches_def unstored_def split: option.splits)
  have eq: "filter (\<lambda>b. content_differs stored b \<or> unstored stored b)
      (filter (\<lambda>b. ?a \<noteq> [] \<and> hd ?a \<le> bar_time b \<and> bar_time b \<le> last ?a) ?o)
    = filter (\<lambda>b. content_differs stored b \<or> unstored stored b) ?o"
    unfolding filter_filter
  proof (rule filter_cong [OF refl])
    fix b assume b: "b \<in> set ?o"
    have "?a \<noteq> [] \<and> hd ?a \<le> bar_time b \<and> bar_time b \<le> last ?a" if "content_differs stored b \<or> unstored stored b"
    proof -
      have "bar_time b \<in> set ?a" using b that by (auto simp: affected_set)
      then show ?thesis using sorted_bounds [OF affected_sorted(1)] by (auto simp del: set_sort)
    qed
    then show "((?a \<noteq> [] \<and> hd ?a \<le> bar_time b \<and> bar_time b \<le> last ?a) \<and> (content_differs stored b \<or> unstored stored b))
        = (content_differs stored b \<or> unstored stored b)" by blast
  qed
  have "length (filter (\<lambda>b. content_differs stored b \<or> unstored stored b) ?o)
      \<le> length (filter (\<lambda>b. ?a \<noteq> [] \<and> hd ?a \<le> bar_time b \<and> bar_time b \<le> last ?a) ?o)"
    by (rule length_filter_le [of "\<lambda>b. content_differs stored b \<or> unstored stored b"
          "filter (\<lambda>b. ?a \<noteq> [] \<and> hd ?a \<le> bar_time b \<and> bar_time b \<le> last ?a) ?o", unfolded eq])
  then show ?thesis using split w(10,11,12) by (simp add: affected_span_def Let_def)
qed

lemma ready_decision:
  assumes "compare_revision_window provider stored old requested maximum required = Inr c"
    and "rc_decision c = ''READY_TO_APPLY''"
  shows "rc_removed c \<le> max_removed_rows" "affected_span stored (sort_key bar_time provider) \<le> max_affected_rows"
    "required \<le> rc_anchor c"
    "\<not> (required \<le> matched_complete stored (sort_key bar_time provider)
        \<and> corporate_action_ratio \<le> change_ratio stored (sort_key bar_time provider))"
    "rc_affected_from c \<noteq> Some (rc_from c)"
  using assms(2) window_result(5,6,8,10,13) [OF assms(1)]
  by (auto simp: window_decision_def Let_def split: if_splits)

lemma anchor_rows:
  assumes "n \<le> length (stable_anchor stored rows)"
  shows "n \<le> length rows \<and> list_all (stable_row stored) (drop (length rows - n) rows)"
proof -
  have le: "length (stable_anchor stored rows) \<le> length rows"
    using length_takeWhile_le [of "stable_row stored" "rev rows"] by (simp add: stable_anchor_def)
  have "take n (rev rows) = take n (stable_anchor stored rows)"
    using arg_cong [OF takeWhile_eq_take [of "stable_row stored" "rev rows"], of "take n"] assms
    by (simp add: stable_anchor_def)
  then have "list_all (stable_row stored) (take n (rev rows))"
    by (auto simp: list_all_iff stable_anchor_def dest: in_set_takeD set_takeWhileD)
  moreover have "drop (length rows - n) rows = rev (take n (rev rows))" by (simp add: rev_take)
  ultimately show ?thesis using le assms by (simp add: list_all_iff)
qed

text \<open>The complete rows of a window that are stored, and those of them whose stored content differs.\<close>

definition stored_complete :: "stored_bars \<Rightarrow> NormalizedBar list \<Rightarrow> NormalizedBar list" where
  "stored_complete stored bars = filter (\<lambda>b. is_complete b \<and> (\<exists>s. map_of stored (bar_time b) = Some s)) bars"

definition stored_changed :: "stored_bars \<Rightarrow> NormalizedBar list \<Rightarrow> NormalizedBar list" where
  "stored_changed stored bars =
     filter (\<lambda>b. \<exists>s. map_of stored (bar_time b) = Some s \<and> \<not> same_content b s) (stored_complete stored bars)"

lemma length_takeWhile_filter: "length (takeWhile P xs) \<le> length (filter P xs)"
  by (induction xs) auto

lemma length_filter_sort_key: "length (filter P (sort_key f xs)) = length (filter P xs)"
  by (simp add: filter_sort)

lemma anchor_is_stored:
  "length (stable_anchor stored (preceding affected (sort_key bar_time provider))) \<le> length (stored_complete stored provider)"
proof -
  let ?o = "sort_key bar_time provider"
  have "length (stable_anchor stored (preceding affected ?o)) \<le> length (filter (stable_row stored) (preceding affected ?o))"
    using length_takeWhile_filter [of "stable_row stored" "rev (preceding affected ?o)"] by (simp add: stable_anchor_def rev_filter [symmetric])
  also have "... \<le> length (filter (stable_row stored) ?o)"
    by (auto simp: preceding_def intro: length_filter_mono)
  also have "... \<le> length (filter (\<lambda>b. is_complete b \<and> (\<exists>s. map_of stored (bar_time b) = Some s)) ?o)"
    by (rule length_filter_mono) (auto simp: stable_row_def sample_matches_def split: option.splits)
  finally show ?thesis by (simp add: stored_complete_def length_filter_sort_key)
qed

lemma ratio_below:
  assumes "\<not> corporate_action_ratio \<le> change_ratio stored (sort_key bar_time provider)" and "stored_complete stored provider \<noteq> []"
  shows "5 * length (stored_changed stored provider) < 4 * length (stored_complete stored provider)"
proof -
  have m: "matched_complete stored (sort_key bar_time provider) = length (stored_complete stored provider)"
    by (simp add: matched_complete_def stored_complete_def unstored_def length_filter_sort_key)
  have c: "changed_complete stored (sort_key bar_time provider) = length (stored_changed stored provider)"
    unfolding changed_complete_def stored_changed_def stored_complete_def filter_filter length_filter_sort_key
    by (rule arg_cong [where f = length], rule filter_cong [OF refl])
      (auto simp: content_differs_def sample_matches_def split: option.splits)
  have "(of_nat (length (stored_changed stored provider)) :: rat) / of_nat (length (stored_complete stored provider)) < 4 / 5"
    using assms by (simp add: change_ratio_def m c corporate_action_ratio_def not_le)
  then have "(of_nat (5 * length (stored_changed stored provider)) :: rat) < of_nat (4 * length (stored_complete stored provider))"
    using assms(2) by (simp add: field_simps)
  then show ?thesis by (simp only: of_nat_less_iff)
qed

lemma affected_rows_counted:
  assumes "compare_revision_window provider stored old requested maximum required = Inr c"
  shows "length (filter (\<lambda>b. \<not> outside_affected c (bar_time b)) provider) + rc_removed c
    = affected_span stored (sort_key bar_time provider)"
proof -
  note w = window_result [OF assms]
  have "(\<lambda>b. \<not> outside_affected c (bar_time b))
    = (\<lambda>b. affected_times stored (sort_key bar_time provider) \<noteq> [] \<and> hd (affected_times stored (sort_key bar_time provider)) \<le> bar_time b
        \<and> bar_time b \<le> last (affected_times stored (sort_key bar_time provider)))"
    by (rule ext) (auto simp: outside_affected_def w(8,9))
  then show ?thesis by (simp only: affected_span_def Let_def w(10) length_filter_sort_key)
qed

text \<open>C22: A window is declared ready to apply only within the frozen limits: at most 64 removed rows,
  at most 240 rows in the affected range and among the removed ones, less than four fifths of its complete
  stored rows changed in content, and the required number of complete, unchanged rows stands right before
  the first affected one, which is not the first row of the window. Then, everywhere in the window outside the affected range, the provider
  and the stored rows agree: the same times, with the same content.\<close>

theorem ready_window_is_bounded:
  assumes "compare_revision_window provider stored old requested maximum required = Inr c"
    and "rc_decision c = ''READY_TO_APPLY''"
  shows "rc_removed c \<le> 64 \<and> rc_content c + rc_new_rows c + rc_removed c \<le> 240
    \<and> length (filter (\<lambda>b. \<not> outside_affected c (bar_time b)) provider) + rc_removed c \<le> 240
    \<and> required \<le> length (stored_complete stored provider) \<and> rc_affected_from c \<noteq> Some (rc_from c)
    \<and> (stored_complete stored provider = []
       \<or> 5 * length (stored_changed stored provider) < 4 * length (stored_complete stored provider))
    \<and> (\<exists>before. before = filter (\<lambda>b. case rc_affected_from c of None \<Rightarrow> True | Some f \<Rightarrow> bar_time b < f)
                            (sort_key bar_time provider)
         \<and> required \<le> length before \<and> list_all (stable_row stored) (drop (length before - required) before))
    \<and> (\<forall>t. rc_from c \<le> t \<and> t \<le> rc_to c \<and> outside_affected c t \<longrightarrow>
         (case (provider_at provider t, map_of stored t) of
            (None, None) \<Rightarrow> True | (Some b, Some s) \<Rightarrow> same_content b s | _ \<Rightarrow> False))"
proof -
  let ?o = "sort_key bar_time provider"
  note w = window_result [OF assms(1)] and r = ready_decision [OF assms]
  have start: "rc_affected_from c \<noteq> Some (rc_from c)" by (rule r(5))
  have before: "preceding (affected_times stored ?o) ?o
      = filter (\<lambda>b. case rc_affected_from c of None \<Rightarrow> True | Some f \<Rightarrow> bar_time b < f) ?o"
    by (simp add: preceding_def w(8))
  have span: "rc_content c + rc_new_rows c + rc_removed c \<le> 240"
    "length (filter (\<lambda>b. \<not> outside_affected c (bar_time b)) provider) + rc_removed c \<le> 240"
    using affected_counts [OF assms(1)] affected_rows_counted [OF assms(1)] r(2) by (simp_all add: max_affected_rows_def)
  have anchored: "required \<le> length (stored_complete stored provider)"
    using anchor_is_stored [of stored "affected_times stored ?o" provider] r(3) by (simp add: w(13))
  have "matched_complete stored ?o = length (stored_complete stored provider)"
    by (simp add: matched_complete_def stored_complete_def unstored_def length_filter_sort_key)
  then have ratio: "stored_complete stored provider = []
      \<or> 5 * length (stored_changed stored provider) < 4 * length (stored_complete stored provider)"
    using r(4) anchored ratio_below [of stored provider] by metis
  show ?thesis
    using anchor_rows [of required stored "preceding (affected_times stored ?o) ?o"] r(1,3) w(13)
      outside_agrees [OF assms(1)] span anchored ratio before start
    by (auto simp: max_removed_rows_def)
qed

text \<open>Every provider row of a window is counted once, as new, changed in content, changed in version
  only, or unchanged, and the reported versions differ.\<close>

lemma window_accounts_for_every_row:
  assumes "compare_revision_window provider stored old requested maximum required = Inr c"
  shows "rc_provider c = length provider \<and> rc_matched c + rc_new_rows c = length provider
    \<and> rc_content c + rc_version_only c \<le> rc_matched c \<and> rc_new c \<noteq> rc_old c
    \<and> length (rc_content_times c) = rc_content c \<and> length (rc_new_times c) = rc_new_rows c
    \<and> (\<forall>t. t \<in> set (rc_removed_times c) \<longleftrightarrow>
          (rc_from c \<le> t \<and> t \<le> rc_to c \<and> map_of stored t \<noteq> None \<and> provider_at provider t = None))"
proof -
  let ?o = "sort_key bar_time provider"
  note w = window_result [OF assms]
  have "length (filter (\<lambda>b. \<not> unstored stored b) ?o) + length (filter (unstored stored) ?o) = length ?o"
    using filter_partition_length [of "unstored stored" ?o] by simp
  moreover have "rc_content c + rc_version_only c \<le> rc_matched c"
  proof -
    let ?V = "sample_matches stored (\<lambda>b s. same_content b s \<and> data_version s \<noteq> Some (rc_new c))"
    have "length (filter (content_differs stored) ?o) + length (filter ?V ?o)
        = length (filter (\<lambda>b. content_differs stored b \<or> ?V b) ?o)"
      by (rule length_filter_disjoint [symmetric])
        (auto simp: content_differs_def sample_matches_def split: option.splits)
    also have "... \<le> length (filter (\<lambda>b. \<not> unstored stored b) ?o)"
      by (rule length_filter_mono)
        (auto simp: content_differs_def sample_matches_def unstored_def split: option.splits)
    finally show ?thesis by (simp add: w)
  qed
  moreover have "provider_at provider t = None \<longleftrightarrow> t \<notin> bar_time ` set provider" for t
    by (auto simp: provider_at_def find_None_iff)
  moreover have "t \<in> set (rc_removed_times c) \<longleftrightarrow>
      (rc_from c \<le> t \<and> t \<le> rc_to c \<and> map_of stored t \<noteq> None \<and> provider_at provider t = None)" for t
    unfolding w(22) removed_set w(6,7) calculation(3) using map_of_eq_None_iff [of stored t]
    by (auto simp: w(3))
  ultimately show ?thesis using w(4,12,14,16,17,18,20,21) w(11) by simp
qed

end
