(* ===== verification/RevisionReconcile.thy ===== *)
theory RevisionReconcile
  imports RevisionWindow
begin

text \<open>
  The database side of \<open>market_db/data_version_reconcile.py\<close> with the procedures of
  \<open>db/migrations/0029\<close>: the state an analysis or an approved apply starts from, the human review,
  the guarded replacement of the affected range in one transaction, and the record of a window that
  needs a full refetch. The two triggers are the commands' own: \<open>manual_db3_bounded_revision\<close> for
  the legacy path and \<open>manual_db3_approved_revision_apply\<close> for a reviewed event.
\<close>

section \<open>The state a reconciliation starts from\<close>

definition instrument_of_key :: "CanonicalInstrument list \<Rightarrow> string \<Rightarrow> exn + CanonicalInstrument" where
  "instrument_of_key canonical_rows k =
     ebind (load_canonical_instruments canonical_rows) (\<lambda>registry.
       case filter (\<lambda>i. i_key i = lower k) registry of
         [i] \<Rightarrow> Inr i
       | _ \<Rightarrow> Inl (ValueError ''instrument key must identify one canonical instrument''))"

definition series_watermarks :: "CanonicalInstrument \<Rightarrow> market_db \<Rightarrow> (InstrumentRow \<times> WatermarkRow) list" where
  "series_watermarks ins db =
     filter (\<lambda>(r, w). in_uic r = i_uic ins \<and> in_asset_type r = i_asset_type ins \<and> wm_basis w = price_basis_of ins)
       (joined_watermarks db)"

definition load_revision_state :: "CanonicalInstrument \<Rightarrow> market_db \<Rightarrow> exn + InstrumentState" where
  "load_revision_state ins db =
     (case series_watermarks ins db of
        [] \<Rightarrow> Inl (BarQualityError ''REVISION_WATERMARK_STATE_MISSING'')
      | (r, w) # _ \<Rightarrow>
          if wm_version w = None then Inl (BarQualityError ''REVISION_WATERMARK_STATE_MISSING'')
          else if wm_status w \<noteq> ''STALE_DATA_VERSION'' then Inl (BarQualityError ''REVISION_WATERMARK_NOT_STALE'')
          else Inr (state_of (in_id r) w))"

definition load_approved_revision_state ::
  "CanonicalInstrument \<Rightarrow> int \<Rightarrow> market_db \<Rightarrow> exn + InstrumentState" where
  "load_approved_revision_state ins event db =
     (case concat (map (\<lambda>(r, w). map (\<lambda>e. (r, w, e))
             (filter (\<lambda>e. re_instrument e = in_id r \<and> re_basis e = wm_basis w \<and> re_id e = event) (revisions db)))
             (series_watermarks ins db)) of
        [] \<Rightarrow> Inl (BarQualityError ''REVISION_APPROVED_EVENT_NOT_FOUND'')
      | (r, w, e) # _ \<Rightarrow>
          if wm_status w \<noteq> ''ACTIVE'' \<or> wm_version w \<noteq> Some (re_old_version e)
             \<or> re_status e \<noteq> ''REVIEW_PENDING'' \<or> re_policy e \<noteq> revision_warning_policy
             \<or> re_review e \<noteq> ''APPLY_APPROVED''
          then Inl (BarQualityError ''REVISION_APPLY_APPROVAL_GUARD_FAILED'')
          else Inr (state_of (in_id r) w))"

section \<open>The review of a warning\<close>

text \<open>SQL \<open>btrim\<close> strips spaces only.\<close>

definition btrim :: "string \<Rightarrow> string" where
  "btrim s = rev (dropWhile (\<lambda>c. c = CHR '' '') (rev (dropWhile (\<lambda>c. c = CHR '' '') s)))"

definition reviewable :: "int \<Rightarrow> RevisionEvent \<Rightarrow> bool" where
  "reviewable event e = (re_id e = event \<and> re_policy e = revision_warning_policy \<and> re_status e = ''REVIEW_PENDING''
     \<and> re_review e \<in> {''PENDING_REVIEW'', ''REVIEWED_KEEP_CURRENT''})"

definition review_procedure ::
  "int \<Rightarrow> string \<Rightarrow> string \<Rightarrow> string \<Rightarrow> RevisionEvent list \<Rightarrow> exn + RevisionEvent list" where
  "review_procedure event decision reviewer note t =
     (if decision \<notin> {''KEEP_CURRENT'', ''APPROVE_APPLY''}
         \<or> \<not> (1 \<le> length (btrim reviewer) \<and> length (btrim reviewer) \<le> 128)
         \<or> \<not> (1 \<le> length (btrim note) \<and> length (btrim note) \<le> 2000)
      then Inl (DatabaseError ''invalid revision review decision or audit metadata'')
      else if \<not> list_ex (reviewable event) t
      then Inl (DatabaseError ''revision review guard condition failed'')
      else Inr (map (\<lambda>e. if reviewable event e
             then e\<lparr>re_review := (if decision = ''KEEP_CURRENT'' then ''REVIEWED_KEEP_CURRENT'' else ''APPLY_APPROVED''),
                    re_reviewer := Some reviewer, re_note := Some note\<rparr> else e) t))"

text \<open>The view of the latest event of an instrument, and its availability.\<close>

definition latest_event :: "int \<Rightarrow> RevisionEvent list \<Rightarrow> RevisionEvent option" where
  "latest_event i t =
     (case sort_key re_id (filter (\<lambda>e. re_instrument e = i) t) of [] \<Rightarrow> None | e # es \<Rightarrow> Some (last (e # es)))"

definition availability :: "RevisionEvent \<Rightarrow> string" where
  "availability e =
     (if re_policy e = revision_warning_policy \<and> re_status e = ''REVIEW_PENDING'' then ''AVAILABLE_WITH_REVISION_WARNING''
      else if re_status e = ''APPLIED'' then ''AVAILABLE''
      else if re_status e \<in> {''DETECTED'', ''DISCOVERING'', ''READY_TO_APPLY''} then ''RECONCILING''
      else ''BLOCKED'')"

record ReviewResult =
  rw_event :: int
  rw_key :: string
  rw_status :: string
  rw_availability :: string
  rw_review :: string
  rw_policy :: string
  rw_old :: int
  rw_new :: int

definition review_readback :: "int \<Rightarrow> market_db \<Rightarrow> ReviewResult option" where
  "review_readback event db =
     (case List.map_filter (\<lambda>r. case latest_event (in_id r) (revisions db) of
               Some e \<Rightarrow> if re_id e = event then Some (r, e) else None | None \<Rightarrow> None)
             (instruments (catalog db)) of
        [] \<Rightarrow> None
      | (r, e) # _ \<Rightarrow> Some \<lparr> rw_event = event, rw_key = in_key r, rw_status = re_status e,
          rw_availability = availability e, rw_review = re_review e, rw_policy = re_policy e,
          rw_old = re_old_version e, rw_new = re_new_version e \<rparr>)"

definition record_revision_review ::
  "int \<Rightarrow> string \<Rightarrow> string \<Rightarrow> string \<Rightarrow> market_db \<Rightarrow> (exn + ReviewResult) \<times> market_db" where
  "record_revision_review event decision reviewer note db =
     (if upper decision \<notin> {''KEEP_CURRENT'', ''APPROVE_APPLY''}
      then (Inl (ValueError ''decision must be KEEP_CURRENT or APPROVE_APPLY''), db)
      else transaction (\<lambda>db.
        ebind (review_procedure event (upper decision) reviewer note (revisions db)) (\<lambda>t.
          let db' = db\<lparr>revisions := t\<rparr>
          in case review_readback event db' of
               None \<Rightarrow> Inl (RuntimeError ''FAILED_REVISION_REVIEW_READBACK'')
             | Some r \<Rightarrow> Inr (r, db'))) db)"

section \<open>The event of a comparison\<close>

definition compared_event :: "RevisionComparison \<Rightarrow> string \<Rightarrow> ArtifactRecord \<Rightarrow> RevisionEvent \<Rightarrow> RevisionEvent" where
  "compared_event c status evidence e = e\<lparr>
     re_status := status, re_from := Some (rc_from c), re_to := Some (rc_to c),
     re_compared := rc_provider c, re_content := rc_content c, re_version_only := rc_version_only c,
     re_new_rows := rc_new_rows c, re_removed := rc_removed c,
     re_affected_from := rc_affected_from c, re_affected_to := rc_affected_to c,
     re_anchor := rc_anchor c, re_reason := rc_reason c,
     re_manifest_path := ar_path evidence, re_manifest_sha256 := ar_sha256 evidence\<rparr>"

definition approved_target :: "InstrumentState \<Rightarrow> CanonicalInstrument \<Rightarrow> int \<Rightarrow> RevisionComparison \<Rightarrow> RevisionEvent \<Rightarrow> bool" where
  "approved_target st ins event c e =
     (re_id e = event \<and> re_instrument e = st_instrument st \<and> re_basis e = price_basis_of ins
      \<and> re_old_version e = rc_old c \<and> re_new_version e = rc_new c \<and> re_status e = ''REVIEW_PENDING''
      \<and> re_policy e = revision_warning_policy \<and> re_review e = ''APPLY_APPROVED'')"

definition legacy_target :: "InstrumentState \<Rightarrow> CanonicalInstrument \<Rightarrow> RevisionComparison \<Rightarrow> RevisionEvent \<Rightarrow> bool" where
  "legacy_target st ins c e =
     (same_series (st_instrument st) (price_basis_of ins) (rc_new c) e
      \<and> re_status e \<in> {''DETECTED'', ''DISCOVERING'', ''READY_TO_APPLY''})"

definition new_event :: "int \<Rightarrow> InstrumentState \<Rightarrow> CanonicalInstrument \<Rightarrow> int \<Rightarrow> RevisionComparison \<Rightarrow> string \<Rightarrow> ArtifactRecord \<Rightarrow> RevisionEvent" where
  "new_event n st ins run c status evidence = compared_event c status evidence \<lparr>
     re_id = n, re_instrument = st_instrument st, re_basis = price_basis_of ins, re_detected_run = run,
     re_applied_run = None, re_old_version = rc_old c, re_new_version = rc_new c, re_status = status,
     re_from = None, re_to = None, re_compared = 0, re_content = 0, re_version_only = 0, re_new_rows = 0,
     re_removed = 0, re_affected_from = None, re_affected_to = None, re_anchor = 0, re_reason = [],
     re_manifest_path = [], re_manifest_sha256 = [], re_policy = revision_policy, re_review = ''LEGACY_STATE'',
     re_reviewer = None, re_note = None \<rparr>"

text \<open>Writing an event row: the check constraints and the unique index over the open events.\<close>

definition put_event :: "RevisionEvent \<Rightarrow> RevisionEvent list \<Rightarrow> exn + RevisionEvent list" where
  "put_event e t =
     (if \<not> revision_event_check e then Inl (DatabaseError ''CHECK_VIOLATION'')
      else if re_status e \<in> set open_statuses
           \<and> list_ex (\<lambda>x. re_id x \<noteq> re_id e \<and> same_series (re_instrument e) (re_basis e) (re_new_version e) x
                         \<and> re_status x \<in> set open_statuses) t
      then Inl (DatabaseError ''UNIQUE_VIOLATION'')
      else Inr (tbl_upsert re_id e t))"

definition select_event ::
  "int \<Rightarrow> InstrumentState \<Rightarrow> CanonicalInstrument \<Rightarrow> RevisionComparison \<Rightarrow> ArtifactRecord \<Rightarrow> string \<Rightarrow> int option \<Rightarrow>
   RevisionEvent list \<Rightarrow> exn + RevisionEvent" where
  "select_event run st ins c evidence status approved t =
     (case approved of
        Some event \<Rightarrow>
          (case find (approved_target st ins event c) t of
             None \<Rightarrow> Inl (BarQualityError ''REVISION_APPLY_APPROVAL_GUARD_FAILED'')
           | Some e \<Rightarrow> Inr (compared_event c status evidence e))
      | None \<Rightarrow>
          (case find (legacy_target st ins c) t of
             Some e \<Rightarrow> Inr (compared_event c status evidence (e\<lparr>re_old_version := rc_old c\<rparr>))
           | None \<Rightarrow> Inr (new_event (fresh_id re_id t) st ins run c status evidence)))"

definition compared_step :: "int \<Rightarrow> nat \<Rightarrow> nat \<Rightarrow> RevisionComparison \<Rightarrow> ArtifactRecord \<Rightarrow> RevisionStep" where
  "compared_step event offset k c a = \<lparr> rs_event = event, rs_number = offset + k + 1,
     rs_requested = window_counts ! min k (length window_counts - 1), rs_mode = ''UpTo'', rs_time = rc_to c,
     rs_from = rc_from c, rs_to = rc_to c, rs_provider = rc_provider c, rs_matched = rc_matched c,
     rs_content = rc_content c, rs_version_only = rc_version_only c, rs_new_rows = rc_new_rows c,
     rs_removed = rc_removed c, rs_anchor = rc_anchor c, rs_decision = rc_decision c, rs_reason = rc_reason c,
     rs_path = ar_path a, rs_sha256 = ar_sha256 a \<rparr>"

fun insert_steps :: "RevisionStep list \<Rightarrow> RevisionStep list \<Rightarrow> exn + RevisionStep list" where
  "insert_steps [] t = Inr t"
| "insert_steps (s # ss) t = ebind (insert_step s t) (insert_steps ss)"

definition insert_revision_event ::
  "int \<Rightarrow> InstrumentState \<Rightarrow> CanonicalInstrument \<Rightarrow> RevisionComparison list \<Rightarrow> ArtifactRecord list \<Rightarrow> ArtifactRecord \<Rightarrow>
   string \<Rightarrow> int option \<Rightarrow> market_db \<Rightarrow> exn + int \<times> market_db" where
  "insert_revision_event run st ins comparisons step_artifacts evidence status approved db =
     (if comparisons = [] then Inl IndexError
      else if length step_artifacts \<noteq> length comparisons
      then Inl (RuntimeError ''REVISION_STEP_ARTIFACT_COUNT_MISMATCH'')
      else
        ebind (select_event run st ins (last comparisons) evidence status approved (revisions db)) (\<lambda>e.
        ebind (put_event e (revisions db)) (\<lambda>revs.
        let offset = next_step (re_id e) (revision_steps db) - 1;
            steps = map (\<lambda>(k, c, a). compared_step (re_id e) offset k c a)
                      (zip [0..<length comparisons] (zip comparisons step_artifacts))
        in ebind (insert_steps steps (revision_steps db)) (\<lambda>stored.
             Inr (re_id e, db\<lparr>revisions := revs, revision_steps := stored\<rparr>)))))"

section \<open>Applying a bounded revision\<close>

definition in_range :: "utc \<Rightarrow> utc \<Rightarrow> utc \<Rightarrow> bool" where "in_range lo hi t = (lo \<le> t \<and> t \<le> hi)"

text \<open>\<open>curated.prepare_bounded_revision\<close>: the guard and the deletion of the affected range.\<close>

definition bounded_guard :: "RunRow \<Rightarrow> RevisionEvent \<Rightarrow> WatermarkRow \<Rightarrow> int \<Rightarrow> utc \<Rightarrow> utc \<Rightarrow> bool" where
  "bounded_guard r e w i lo hi =
     (rn_trigger r \<in> {''manual_db3_bounded_revision'', ''manual_db3_approved_revision_apply''}
      \<and> rn_status r = ''RUNNING'' \<and> re_status e = ''READY_TO_APPLY'' \<and> re_instrument e = i
      \<and> re_affected_from e = Some lo \<and> re_affected_to e = Some hi
      \<and> (re_policy e = revision_policy \<and> wm_status w = ''STALE_DATA_VERSION''
         \<or> re_policy e = revision_warning_policy \<and> wm_status w = ''ACTIVE'' \<and> re_review e = ''APPLY_APPROVED''))"

definition prepare_bounded_revision :: "int \<Rightarrow> int \<Rightarrow> int \<Rightarrow> utc \<Rightarrow> utc \<Rightarrow> market_db \<Rightarrow> exn + market_db" where
  "prepare_bounded_revision run event i lo hi db =
     (case (find (\<lambda>r. rn_id r = run) (runs db), find (\<lambda>e. re_id e = event) (revisions db)) of
        (Some r, Some e) \<Rightarrow>
          (case find (\<lambda>w. wm_instrument w = i \<and> wm_basis w = re_basis e) (watermarks db) of
             Some w \<Rightarrow>
               if bounded_guard r e w i lo hi
               then Inr (db\<lparr>curated := delete_curated
                       (\<lambda>k. fst k = i \<and> in_range lo hi (instant (fst (snd k)))) (curated db)\<rparr>)
               else Inl (DatabaseError ''bounded revision guard condition failed'')
           | None \<Rightarrow> Inl (DatabaseError ''bounded revision guard condition failed''))
      | _ \<Rightarrow> Inl (DatabaseError ''bounded revision guard condition failed''))"

text \<open>The range to replace; a change of the version alone replaces the last row of the window.\<close>

definition apply_range :: "RevisionComparison \<Rightarrow> utc \<times> utc" where
  "apply_range c =
     (case rc_affected_from c of None \<Rightarrow> (rc_to c, rc_to c) | Some a \<Rightarrow> (a, the (rc_affected_to c)))"

definition insert_curated :: "StagedRow list \<Rightarrow> MarketRow list \<Rightarrow> exn + MarketRow list" where
  "insert_curated ss t =
     (if list_all (\<lambda>s. row_ok (curated_row s)) ss then insert_rows curated_key (map curated_row ss) t
      else Inl (DatabaseError ''CHECK_VIOLATION''))"

text \<open>SQL \<open>GREATEST\<close> skips nulls.\<close>

definition greatest :: "utc option \<Rightarrow> utc option \<Rightarrow> utc option" where
  "greatest a b = (case a of None \<Rightarrow> b | Some x \<Rightarrow> (case b of None \<Rightarrow> a | Some y \<Rightarrow> Some (max x y)))"

definition revised_watermark ::
  "utc \<Rightarrow> int \<Rightarrow> InstrumentState \<Rightarrow> RevisionComparison \<Rightarrow> NormalizedBar list \<Rightarrow> WatermarkRow \<Rightarrow> WatermarkRow" where
  "revised_watermark now run st c bars w =
     (let done = map bar_time (filter is_complete bars)
      in w\<lparr>wm_seen := max (wm_seen w) (Max (set (map bar_time bars))),
           wm_complete := greatest (wm_complete w) (if done = [] then st_latest_complete st else Some (Max (set done))),
           wm_version := Some (rc_new c), wm_run := Some run, wm_status := ''ACTIVE'', wm_updated := now\<rparr>)"

definition advance_revised_watermark ::
  "utc \<Rightarrow> int \<Rightarrow> InstrumentState \<Rightarrow> CanonicalInstrument \<Rightarrow> RevisionComparison \<Rightarrow> NormalizedBar list \<Rightarrow>
   WatermarkRow list \<Rightarrow> exn + WatermarkRow list" where
  "advance_revised_watermark now run st ins c bars t =
     (if bars = [] then Inl (ValueError ''max() arg is an empty sequence'')
      else case tbl_lookup watermark_key (st_instrument st, price_basis_of ins) t of
             None \<Rightarrow> Inl (RuntimeError ''FAILED_BOUNDED_REVISION_WATERMARK_UPDATE'')
           | Some w \<Rightarrow>
               let w' = revised_watermark now run st c bars w
               in if watermark_ok w' then Inr (tbl_upsert watermark_key w' t)
                  else Inl (DatabaseError ''CHECK_VIOLATION''))"

definition apply_event :: "int \<Rightarrow> int \<Rightarrow> RevisionEvent list \<Rightarrow> exn + RevisionEvent list" where
  "apply_event run event t =
     (if list_ex (\<lambda>e. re_id e = event \<and> re_status e = ''READY_TO_APPLY'') t
      then Inr (map (\<lambda>e. if re_id e = event \<and> re_status e = ''READY_TO_APPLY''
             then e\<lparr>re_status := ''APPLIED'', re_applied_run := Some run,
                    re_review := (if re_policy e = revision_warning_policy then ''APPLIED'' else re_review e)\<rparr>
             else e) t)
      else Inl (RuntimeError ''FAILED_BOUNDED_REVISION_EVENT_UPDATE''))"

record Replacement =
  rp_event :: int
  rp_inserted :: nat
  rp_updated :: nat
  rp_removed :: nat
  rp_raw :: nat
  rp_derived :: rebuild_counts
  rp_overlay :: RefreshResult
  rp_from :: utc
  rp_to :: utc

record BoundedRequest =
  br_instrument :: CanonicalInstrument
  br_state :: InstrumentState
  br_bars :: "NormalizedBar list"
  br_artifacts :: "ArtifactRecord list"
  br_evidence :: ArtifactRecord
  br_comparisons :: "RevisionComparison list"
  br_approved :: "int option"

text \<open>Staging the whole window and selecting the event, before the curated table is touched.\<close>

definition stage_revision ::
  "int \<Rightarrow> BoundedRequest \<Rightarrow> market_db \<Rightarrow> exn + int \<times> StagedRow list \<times> market_db" where
  "stage_revision run q db =
     (let db0 = db\<lparr>staging := clear_staging run (staging db)\<rparr>
      in ebind (register_sources run dataset_id (br_artifacts q) (sources db0)) (\<lambda>(ids, src).
         ebind (stage run [\<lparr> ac_registry = br_instrument q, ac_state = br_state q, ac_bars = br_bars q \<rparr>]
                  ids (staging db0)) (\<lambda>staged.
         ebind (insert_revision_event run (br_state q) (br_instrument q) (br_comparisons q) (br_artifacts q)
                  (br_evidence q) ''READY_TO_APPLY'' (br_approved q)
                  (db0\<lparr>sources := src, staging := staged\<rparr>)) (\<lambda>(event, db1).
           Inr (event, staged_of run staged, db1)))))"

definition staged_in :: "utc \<Rightarrow> utc \<Rightarrow> StagedRow list \<Rightarrow> StagedRow list" where
  "staged_in lo hi ss = filter (\<lambda>s. in_range lo hi (bar_time (sg_bar s))) ss"

definition content_changed :: "MarketRow list \<Rightarrow> StagedRow \<Rightarrow> bool" where
  "content_changed t s =
     (case stored_bar (staged_target s) t of None \<Rightarrow> False | Some old \<Rightarrow> \<not> same_content old (sg_bar s))"

definition replace_range ::
  "int \<Rightarrow> int \<Rightarrow> int \<Rightarrow> utc \<Rightarrow> utc \<Rightarrow> StagedRow list \<Rightarrow> market_db \<Rightarrow> exn + market_db" where
  "replace_range run event i lo hi ss db =
     ebind (insert_rows staged_key ss (raw_bars db)) (\<lambda>raw.
     ebind (prepare_bounded_revision run event i lo hi (db\<lparr>raw_bars := raw\<rparr>)) (\<lambda>db1.
     ebind (insert_curated (staged_in lo hi ss) (curated db1)) (\<lambda>t. Inr (db1\<lparr>curated := t\<rparr>))))"

definition bounded_body ::
  "bool \<Rightarrow> utc \<Rightarrow> int \<Rightarrow> BoundedRequest \<Rightarrow> RevisionComparison \<Rightarrow> market_db \<Rightarrow> exn + Replacement \<times> market_db" where
  "bounded_body migrated now run q c db =
     (let (lo, hi) = apply_range c; i = st_instrument (br_state q)
      in ebind (stage_revision run q db) (\<lambda>(event, ss, db1).
         let part = staged_in lo hi ss;
             inserted = length (filter (\<lambda>s. stored_bar (staged_target s) (curated db1) = None) part);
             updated = length (filter (content_changed (curated db1)) part)
         in ebind (replace_range run event i lo hi ss db1) (\<lambda>db2.
         ebind (advance_revised_watermark now run (br_state q) (br_instrument q) c (br_bars q) (watermarks db2)) (\<lambda>wms.
         let db3 = db2\<lparr>watermarks := wms\<rparr>
         in ebind (rebuild derivation_version (Some [i]) (catalog db3) (curated db3) (derived db3)) (\<lambda>(counts, dv).
         ebind (refresh_c2_imputation_overlay migrated now 3 [i] (db3\<lparr>derived := dv\<rparr>)) (\<lambda>(overlay, db4).
         ebind (apply_event run event (revisions db4)) (\<lambda>revs.
         ebind (finish_run run ''FAILED_BOUNDED_REVISION_RUN_UPDATE''
                  (passed_run now ''bounded_revision_committed'' 1 inserted updated (rc_content c + rc_removed c) 0)
                  (db4\<lparr>revisions := revs,
                     quality := quality db4 @ [quality_event run i None ''db3_bounded_data_version_revision'' ''INFO''
                       (BoundedRevision (rc_old c) (rc_new c) (rc_content c) inserted updated (rc_removed c)) ''RESOLVED''],
                     staging := clear_staging run (staging db4)\<rparr>)) (\<lambda>db5.
           Inr (\<lparr> rp_event = event, rp_inserted = inserted, rp_updated = updated, rp_removed = rc_removed c,
                  rp_raw = length ss, rp_derived = counts, rp_overlay = overlay, rp_from = lo, rp_to = hi \<rparr>, db5)))))))))"

definition commit_bounded_revision ::
  "bool \<Rightarrow> utc \<Rightarrow> int \<Rightarrow> BoundedRequest \<Rightarrow> market_db \<Rightarrow> (exn + Replacement) \<times> market_db" where
  "commit_bounded_revision migrated now run q db =
     (if br_comparisons q = [] then (Inl IndexError, db)
      else let c = last (br_comparisons q)
           in if rc_decision c \<noteq> ''READY_TO_APPLY''
              then (Inl (BarQualityError ''REVISION_NOT_READY_TO_APPLY''), db)
              else transaction (bounded_body migrated now run q c) db)"

section \<open>A window that needs a full refetch\<close>

definition unresolved_code :: string where
  "unresolved_code = ''BLOCKED_REVISION_SCOPE_UNRESOLVED_FULL_REFETCH_REQUIRED''"

definition record_unresolved_revision ::
  "utc \<Rightarrow> int \<Rightarrow> BoundedRequest \<Rightarrow> market_db \<Rightarrow> (exn + int \<times> string) \<times> market_db" where
  "record_unresolved_revision now run q db =
     transaction (\<lambda>db.
       ebind (register_sources run dataset_id (br_artifacts q) (sources db)) (\<lambda>(ids, src).
       ebind (insert_revision_event run (br_state q) (br_instrument q) (br_comparisons q) (br_artifacts q)
                (br_evidence q) ''BLOCKED_FULL_REFETCH'' None (db\<lparr>sources := src\<rparr>)) (\<lambda>(event, db1).
         Inr ((event, rc_reason (last (br_comparisons q))),
              update_run run (\<lambda>r. r\<lparr>rn_finished := Some now, rn_status := ''BLOCKED'',
                rn_error := Some unresolved_code,
                rn_step := ''revision_evidence_preserved_no_curated_change''\<rparr>) db1)))) db"

section \<open>The steps of an apply\<close>

lemma put_event_parts:
  "put_event e t = Inr t' \<longleftrightarrow> revision_event_check e \<and> t' = tbl_upsert re_id e t
     \<and> (re_status e \<in> set open_statuses \<longrightarrow>
         list_all (\<lambda>x. re_id x = re_id e \<or> \<not> same_series (re_instrument e) (re_basis e) (re_new_version e) x
                     \<or> re_status x \<notin> set open_statuses) t)"
  by (auto simp: put_event_def list_ex_iff list_all_iff)

lemma insert_revision_event_parts:
  assumes "insert_revision_event run st ins cs arts evidence status approved db = Inr (event, db')"
  obtains e steps where "select_event run st ins (last cs) evidence status approved (revisions db) = Inr e"
    "event = re_id e" "revision_event_check e" "cs \<noteq> []" "length arts = length cs"
    "db' = db\<lparr>revisions := tbl_upsert re_id e (revisions db), revision_steps := steps\<rparr>"
  using assms by (auto simp: insert_revision_event_def Let_def ebind_eq_Inr put_event_parts split: if_splits)

lemma find_hit: "find P xs = Some x \<Longrightarrow> x \<in> set xs \<and> P x"
  by (auto simp: find_Some_iff in_set_conv_nth)

lemma compared_event_simps [simp]:
  "re_id (compared_event c status evidence e) = re_id e"
  "re_instrument (compared_event c status evidence e) = re_instrument e"
  "re_basis (compared_event c status evidence e) = re_basis e"
  "re_status (compared_event c status evidence e) = status"
  "re_old_version (compared_event c status evidence e) = re_old_version e"
  "re_new_version (compared_event c status evidence e) = re_new_version e"
  "re_affected_from (compared_event c status evidence e) = rc_affected_from c"
  "re_affected_to (compared_event c status evidence e) = rc_affected_to c"
  "re_policy (compared_event c status evidence e) = re_policy e"
  "re_review (compared_event c status evidence e) = re_review e"
  by (simp_all add: compared_event_def)

lemma selected_event:
  assumes "select_event run st ins c evidence status approved t = Inr e"
  shows "re_status e = status" "re_instrument e = st_instrument st" "re_basis e = price_basis_of ins"
    "re_affected_from e = rc_affected_from c" "re_affected_to e = rc_affected_to c"
    "re_old_version e = rc_old c" "re_new_version e = rc_new c"
  using assms
  by (auto simp: select_event_def new_event_def legacy_target_def same_series_def approved_target_def
      dest!: find_hit split: option.splits)

lemma selected_approved:
  assumes "select_event run st ins c evidence status (Some ev) t = Inr e"
  obtains x where "x \<in> set t" "approved_target st ins ev c x" "e = compared_event c status evidence x"
  using assms by (auto simp: select_event_def dest!: find_hit split: option.splits)

lemma stage_revision_parts:
  assumes "stage_revision run q db = Inr (event, ss, db1)" and "tbl_wf staged_key (staging db)"
  obtains e src steps where
    "select_event run (br_state q) (br_instrument q) (last (br_comparisons q)) (br_evidence q) ''READY_TO_APPLY''
       (br_approved q) (revisions db) = Inr e" "event = re_id e"
    "map row_parts ss = map (\<lambda>b. (run, st_instrument (br_state q), staged_bar b)) (br_bars q)"
    "distinct (map staged_target ss)" "tbl_wf staged_key (staging db1)"
    "db1 = db\<lparr>sources := src, staging := clear_staging run (staging db) @ ss,
       revisions := tbl_upsert re_id e (revisions db), revision_steps := steps\<rparr>"
proof -
  let ?a = "[\<lparr> ac_registry = br_instrument q, ac_state = br_state q, ac_bars = br_bars q \<rparr>]"
  obtain ids src staged where r:
    "stage run ?a ids (clear_staging run (staging db)) = Inr staged"
    "insert_revision_event run (br_state q) (br_instrument q) (br_comparisons q) (br_artifacts q) (br_evidence q)
       ''READY_TO_APPLY'' (br_approved q) (db\<lparr>sources := src, staging := staged\<rparr>) = Inr (event, db1)"
    "ss = staged_of run staged"
    using assms(1) by (auto simp: stage_revision_def Let_def ebind_eq_Inr)
  let ?db = "db\<lparr>sources := src, staging := staged\<rparr>"
  obtain e steps where e: "select_event run (br_state q) (br_instrument q) (last (br_comparisons q)) (br_evidence q)
       ''READY_TO_APPLY'' (br_approved q) (revisions ?db) = Inr e" "event = re_id e"
    "db1 = ?db\<lparr>revisions := tbl_upsert re_id e (revisions ?db), revision_steps := steps\<rparr>"
    by (rule insert_revision_event_parts [OF r(2)])
  note w = staged_window [OF r(1) assms(2), folded r(3)]
  have "db1 = db\<lparr>sources := src, staging := clear_staging run (staging db) @ ss,
       revisions := tbl_upsert re_id e (revisions db), revision_steps := steps\<rparr>"
    using e(3) w(4) by simp
  moreover have "tbl_wf staged_key (staging db1)" using e(3) w(3) by simp
  ultimately show ?thesis using that [of e steps src] e(1,2) w(1,2) by simp
qed

lemma stage_revision_event:
  assumes "stage_revision run q db = Inr (event, ss, db1)"
  obtains e where
    "select_event run (br_state q) (br_instrument q) (last (br_comparisons q)) (br_evidence q) ''READY_TO_APPLY''
       (br_approved q) (revisions db) = Inr e" "event = re_id e" "revisions db1 = tbl_upsert re_id e (revisions db)"
proof -
  obtain src staged where r: "insert_revision_event run (br_state q) (br_instrument q) (br_comparisons q) (br_artifacts q)
      (br_evidence q) ''READY_TO_APPLY'' (br_approved q) (db\<lparr>sources := src, staging := staged\<rparr>) = Inr (event, db1)"
    using assms by (auto simp: stage_revision_def Let_def ebind_eq_Inr)
  let ?db = "db\<lparr>sources := src, staging := staged\<rparr>"
  obtain e steps where "select_event run (br_state q) (br_instrument q) (last (br_comparisons q)) (br_evidence q)
       ''READY_TO_APPLY'' (br_approved q) (revisions ?db) = Inr e" "event = re_id e"
    "db1 = ?db\<lparr>revisions := tbl_upsert re_id e (revisions ?db), revision_steps := steps\<rparr>"
    by (rule insert_revision_event_parts [OF r])
  then show ?thesis using that [of e] by simp
qed

lemma prepare_bounded_parts:
  assumes "prepare_bounded_revision run event i lo hi db = Inr db'"
  obtains r e w where "find (\<lambda>r. rn_id r = run) (runs db) = Some r" "find (\<lambda>e. re_id e = event) (revisions db) = Some e"
    "find (\<lambda>w. wm_instrument w = i \<and> wm_basis w = re_basis e) (watermarks db) = Some w" "bounded_guard r e w i lo hi"
    "db' = db\<lparr>curated := delete_curated (\<lambda>k. fst k = i \<and> in_range lo hi (instant (fst (snd k)))) (curated db)\<rparr>"
  using assms by (auto simp: prepare_bounded_revision_def split: option.splits if_splits)

lemma insert_curated_parts:
  assumes "insert_curated ss t = Inr t'" and "tbl_wf curated_key t" and "list_all row_ok t"
  shows "t' = t @ map curated_row ss" "tbl_wf curated_key t'" "list_all row_ok t'"
  using assms insert_rows_keys [of curated_key "map curated_row ss" t t']
  by (auto simp: insert_curated_def list_all_iff split: if_splits)

lemma lookup_append: "tbl_lookup key k (t @ u) = (case tbl_lookup key k t of None \<Rightarrow> tbl_lookup key k u | Some x \<Rightarrow> Some x)"
  by (induction t) auto

lemma lookup_map: "tbl_lookup key k (map f xs) = map_option f (find (\<lambda>x. key (f x) = k) xs)"
  by (induction xs) auto

lemma replace_range_parts:
  assumes "replace_range run event i lo hi ss db = Inr db'"
    and "tbl_wf curated_key (curated db)" and "list_all row_ok (curated db)" and "tbl_wf staged_key (raw_bars db)"
  shows "tbl_wf curated_key (curated db')" "list_all row_ok (curated db')" "tbl_wf staged_key (raw_bars db')"
    "raw_bars db' = raw_bars db @ ss" "db' = db\<lparr>raw_bars := raw_bars db', curated := curated db'\<rparr>"
    "tbl_lookup curated_key k (curated db') =
       (case (if fst k = i \<and> in_range lo hi (instant (fst (snd k))) then None else tbl_lookup curated_key k (curated db)) of
          None \<Rightarrow> map_option curated_row (find (\<lambda>s. staged_target s = k) (staged_in lo hi ss))
        | Some x \<Rightarrow> Some x)"
    "\<exists>r e w. find (\<lambda>e. re_id e = event) (revisions db) = Some e \<and> w \<in> set (watermarks db) \<and> wm_instrument w = i
       \<and> wm_basis w = re_basis e \<and> bounded_guard r e w i lo hi"
proof -
  let ?P = "\<lambda>k. fst k = i \<and> in_range lo hi (instant (fst (snd k)))"
  obtain raw db1 t where r: "insert_rows staged_key ss (raw_bars db) = Inr raw"
      "prepare_bounded_revision run event i lo hi (db\<lparr>raw_bars := raw\<rparr>) = Inr db1"
      "insert_curated (staged_in lo hi ss) (curated db1) = Inr t" "db' = db1\<lparr>curated := t\<rparr>"
    using assms(1) by (auto simp: replace_range_def ebind_eq_Inr)
  obtain r1 e w where g: "find (\<lambda>e. re_id e = event) (revisions db) = Some e"
      "find (\<lambda>w. wm_instrument w = i \<and> wm_basis w = re_basis e) (watermarks db) = Some w" "bounded_guard r1 e w i lo hi"
      "db1 = db\<lparr>raw_bars := raw, curated := delete_curated ?P (curated db)\<rparr>"
    by (rule prepare_bounded_parts [OF r(2)]) auto
  have wf: "tbl_wf curated_key (delete_curated ?P (curated db))"
    by (rule curated_store.wf_delete [OF assms(2)])
  have ok: "list_all row_ok (delete_curated ?P (curated db))"
    using assms(3) by (auto simp: delete_curated_def tbl_delete_keys_def list_all_iff)
  have c1: "curated db1 = delete_curated ?P (curated db)" using g(4) by simp
  note ins = insert_curated_parts [OF r(3) [unfolded c1] wf ok]
  show "tbl_wf curated_key (curated db')" "list_all row_ok (curated db')" using ins r(4) by simp_all
  show "tbl_wf staged_key (raw_bars db')" "raw_bars db' = raw_bars db @ ss"
    using insert_rows_keys [OF r(1) assms(4)] g(4) r(4) by auto
  show "db' = db\<lparr>raw_bars := raw_bars db', curated := curated db'\<rparr>" using g(4) r(4) by simp
  show "tbl_lookup curated_key k (curated db') =
       (case (if fst k = i \<and> in_range lo hi (instant (fst (snd k))) then None else tbl_lookup curated_key k (curated db)) of
          None \<Rightarrow> map_option curated_row (find (\<lambda>s. staged_target s = k) (staged_in lo hi ss))
        | Some x \<Rightarrow> Some x)"
    using curated_store.lookup_delete [OF assms(2), of k ?P] r(4) ins(1)
    by (simp add: lookup_append lookup_map split: option.split)
  show "\<exists>r e w. find (\<lambda>e. re_id e = event) (revisions db) = Some e \<and> w \<in> set (watermarks db) \<and> wm_instrument w = i
       \<and> wm_basis w = re_basis e \<and> bounded_guard r e w i lo hi"
    using g(1-3) by (auto simp: find_Some_iff in_set_conv_nth)
qed

section \<open>What an apply does\<close>

text \<open>The curated row of a bar that run \<open>run\<close> writes.\<close>

definition applied_row :: "int \<Rightarrow> int \<Rightarrow> NormalizedBar \<Rightarrow> MarketRow" where
  "applied_row run i b = \<lparr> mr_instrument = i, mr_bar = curated_bar (staged_bar b), mr_run = run,
     mr_quality = (if is_complete b then ''PASS'' else ''NOT_EVALUATED'') \<rparr>"

lemma staged_bar_simps [simp]:
  "time_utc (staged_bar b) = time_utc b" "price_basis (staged_bar b) = price_basis b"
  "is_complete (staged_bar b) = is_complete b" "data_version (staged_bar b) = data_version b"
  "bar_time (staged_bar b) = bar_time b" "market_trading_state (staged_bar b) = market_trading_state b"
  by (simp_all add: staged_bar_def bar_time_def)

lemma staged_row_of_parts:
  assumes "row_parts s = (run, i, staged_bar b)"
  shows "curated_row s = applied_row run i b" "staged_target s = (i, time_utc b, price_basis b)"
    "bar_time (sg_bar s) = bar_time b"
  using assms by (simp_all add: row_parts_def curated_row_def applied_row_def staged_target_def)

lemma find_staged:
  assumes "map row_parts ss = map (\<lambda>b. (run, i, staged_bar b)) bars"
  shows "map_option curated_row (find (\<lambda>s. staged_target s = k) (staged_in lo hi ss))
    = (if in_range lo hi (instant (fst (snd k)))
       then map_option (applied_row run i) (find (\<lambda>b. (i, time_utc b, price_basis b) = k) bars) else None)"
  using assms
proof (induction bars arbitrary: ss)
  case Nil
  then show ?case by (simp add: staged_in_def)
next
  case (Cons b bars)
  then obtain s rest where ss: "ss = s # rest" "row_parts s = (run, i, staged_bar b)"
      "map row_parts rest = map (\<lambda>b. (run, i, staged_bar b)) bars" by (cases ss) auto
  note p = staged_row_of_parts [OF ss(2)]
  have "staged_target s = k \<Longrightarrow> instant (fst (snd k)) = bar_time b"
    unfolding p(2) by (auto simp: bar_time_def)
  then show ?case using Cons.IH [OF ss(3)] p by (auto simp: ss(1) staged_in_def)
qed

lemma lookup_map_key: "(\<And>x. key (f x) = key x) \<Longrightarrow> tbl_lookup key k (map f t) = map_option f (tbl_lookup key k t)"
  by (induction t) auto

lemma apply_event_parts:
  assumes "apply_event run event t = Inr t'"
  shows "tbl_lookup re_id n t' = map_option (\<lambda>e. if n = event \<and> re_status e = ''READY_TO_APPLY''
      then e\<lparr>re_status := ''APPLIED'', re_applied_run := Some run,
             re_review := (if re_policy e = revision_warning_policy then ''APPLIED'' else re_review e)\<rparr> else e)
      (tbl_lookup re_id n t)"
proof -
  let ?f = "\<lambda>e. if re_id e = event \<and> re_status e = ''READY_TO_APPLY''
      then e\<lparr>re_status := ''APPLIED'', re_applied_run := Some run,
             re_review := (if re_policy e = revision_warning_policy then ''APPLIED'' else re_review e)\<rparr> else e"
  have "t' = map ?f t" using assms by (auto simp: apply_event_def split: if_splits)
  then have "tbl_lookup re_id n t' = map_option ?f (tbl_lookup re_id n t)" by (simp add: lookup_map_key)
  then show ?thesis by (cases "tbl_lookup re_id n t") (auto dest!: tbl_lookup_Some)
qed

lemma advance_revised_parts:
  assumes "advance_revised_watermark now run st ins c bars t = Inr t'" and "tbl_wf watermark_key t" and "list_all watermark_ok t"
  shows "tbl_wf watermark_key t'" "list_all watermark_ok t'"
    "k \<noteq> (st_instrument st, price_basis_of ins) \<Longrightarrow> tbl_lookup watermark_key k t' = tbl_lookup watermark_key k t"
    "\<exists>w. tbl_lookup watermark_key (st_instrument st, price_basis_of ins) t = Some w
       \<and> tbl_lookup watermark_key (st_instrument st, price_basis_of ins) t' = Some (revised_watermark now run st c bars w)"
proof -
  obtain w where w: "tbl_lookup watermark_key (st_instrument st, price_basis_of ins) t = Some w"
      "t' = tbl_upsert watermark_key (revised_watermark now run st c bars w) t"
      "watermark_ok (revised_watermark now run st c bars w)"
    using assms(1) by (auto simp: advance_revised_watermark_def Let_def split: option.splits if_splits)
  have k: "watermark_key (revised_watermark now run st c bars w) = (st_instrument st, price_basis_of ins)"
    using tbl_lookup_Some [OF w(1)] by (simp add: watermark_key_def revised_watermark_def Let_def)
  show "tbl_wf watermark_key t'" "list_all watermark_ok t'"
    using assms(2,3) w(2,3) by (auto simp: table_simps list_all_iff dest!: tbl_upsert_set)
  show "k \<noteq> (st_instrument st, price_basis_of ins) \<Longrightarrow> tbl_lookup watermark_key k t' = tbl_lookup watermark_key k t"
    by (simp add: w(2) table_simps k)
  show "\<exists>w. tbl_lookup watermark_key (st_instrument st, price_basis_of ins) t = Some w
       \<and> tbl_lookup watermark_key (st_instrument st, price_basis_of ins) t' = Some (revised_watermark now run st c bars w)"
    using w by (simp add: table_simps k)
qed

text \<open>Who may apply: a stale series, or an event that a reviewer approved on an active one.\<close>

definition authorised :: "BoundedRequest \<Rightarrow> int \<Rightarrow> market_db \<Rightarrow> bool" where
  "authorised q event db =
     (\<exists>w \<in> set (watermarks db). wm_instrument w = st_instrument (br_state q)
        \<and> (case br_approved q of
             None \<Rightarrow> wm_status w = ''STALE_DATA_VERSION'' \<or> wm_status w = ''ACTIVE''
               \<and> (\<exists>x \<in> set (revisions db). re_id x = event \<and> re_policy x = revision_warning_policy \<and> re_review x = ''APPLY_APPROVED'')
           | Some ev \<Rightarrow> ev = event \<and> wm_status w = ''ACTIVE''
               \<and> (\<exists>x \<in> set (revisions db). re_id x = event \<and> re_status x = ''REVIEW_PENDING''
                    \<and> re_policy x = revision_warning_policy \<and> re_review x = ''APPLY_APPROVED'')))"

lemma selected_origin:
  assumes "select_event run st ins c evidence status approved t = Inr e"
  shows "approved = None \<and> re_policy e = revision_policy
    \<or> (\<exists>x \<in> set t. re_id x = re_id e \<and> re_policy x = re_policy e \<and> re_review x = re_review e
        \<and> (\<forall>ev. approved = Some ev \<longrightarrow> approved_target st ins ev c x))"
proof (cases approved)
  case None
  then show ?thesis
    using assms by (auto simp: select_event_def new_event_def compared_event_def dest!: find_hit split: option.splits)
next
  case (Some ev)
  then obtain x where "x \<in> set t" "approved_target st ins ev c x" "e = compared_event c status evidence x"
    using selected_approved assms by blast
  then show ?thesis using Some by auto
qed

lemma policies_differ: "revision_policy \<noteq> revision_warning_policy"
  by (simp add: revision_policy_def revision_warning_policy_def)

lemma guard_authorises:
  assumes "bounded_guard r e w i lo hi" and "select_event run (br_state q) ins c evidence status (br_approved q) (revisions db) = Inr e"
    and "w \<in> set (watermarks db)" "wm_instrument w = st_instrument (br_state q)"
  shows "authorised q (re_id e) db"
proof (cases "br_approved q")
  case None
  have "wm_status w = ''STALE_DATA_VERSION'' \<or> wm_status w = ''ACTIVE''
      \<and> (\<exists>x \<in> set (revisions db). re_id x = re_id e \<and> re_policy x = revision_warning_policy \<and> re_review x = ''APPLY_APPROVED'')"
    using assms(1) selected_origin [OF assms(2)] policies_differ unfolding bounded_guard_def by auto
  then show ?thesis using None assms(3,4) unfolding authorised_def by auto
next
  case (Some ev)
  then obtain x where "x \<in> set (revisions db)" "approved_target (br_state q) ins ev c x"
      "re_id x = re_id e" "re_policy x = re_policy e"
    using selected_origin [OF assms(2)] by auto
  then show ?thesis using Some assms(1,3,4) policies_differ
    by (auto simp: authorised_def bounded_guard_def approved_target_def)
qed

text \<open>The state after an apply, table by table.\<close>

definition bounded_effect :: "int \<Rightarrow> BoundedRequest \<Rightarrow> Replacement \<Rightarrow> market_db \<Rightarrow> market_db \<Rightarrow> bool" where
  "bounded_effect run q m db db' =
     (let i = st_instrument (br_state q); series = (i, price_basis_of (br_instrument q)); c = last (br_comparisons q)
      in rc_affected_from c = Some (rp_from m) \<and> rc_affected_to c = Some (rp_to m)
       \<and> (\<forall>k. tbl_lookup curated_key k (curated db') =
            (if fst k = i \<and> in_range (rp_from m) (rp_to m) (instant (fst (snd k)))
             then map_option (applied_row run i) (find (\<lambda>b. (i, time_utc b, price_basis b) = k) (br_bars q))
             else tbl_lookup curated_key k (curated db)))
       \<and> (\<exists>ss. raw_bars db' = raw_bars db @ ss \<and> map row_parts ss = map (\<lambda>b. (run, i, staged_bar b)) (br_bars q))
       \<and> (\<forall>k. k \<noteq> series \<longrightarrow> tbl_lookup watermark_key k (watermarks db') = tbl_lookup watermark_key k (watermarks db))
       \<and> (\<exists>w. tbl_lookup watermark_key series (watermarks db') = Some w \<and> wm_version w = Some (rc_new c) \<and> wm_status w = ''ACTIVE'')
       \<and> (\<forall>n. n \<noteq> rp_event m \<longrightarrow> tbl_lookup re_id n (revisions db') = tbl_lookup re_id n (revisions db))
       \<and> (\<exists>e. tbl_lookup re_id (rp_event m) (revisions db') = Some e \<and> re_status e = ''APPLIED'' \<and> re_applied_run e = Some run
             \<and> re_new_version e = rc_new c)
       \<and> rebuild derivation_version (Some [i]) (catalog db) (curated db') (derived db) = Inr (rp_derived m, derived db')
       \<and> staging db' = clear_staging run (staging db)
       \<and> catalog db' = catalog db \<and> datasets db' = datasets db \<and> scopes db' = scopes db)"

lemma bounded_body_effect:
  assumes body: "bounded_body migrated now run q (last (br_comparisons q)) db = Inr (m, db')" and wf: "market_wf db"
  shows "market_wf db' \<and> bounded_effect run q m db db' \<and> authorised q (rp_event m) db"
proof -
  let ?c = "last (br_comparisons q)" and ?i = "st_instrument (br_state q)"
  obtain lo hi where range: "apply_range ?c = (lo, hi)" by (cases "apply_range ?c")
  obtain event ss db1 db2 wms counts dv overlay db4 revs f evs where r:
    "stage_revision run q db = Inr (event, ss, db1)" "replace_range run event ?i lo hi ss db1 = Inr db2"
    "advance_revised_watermark now run (br_state q) (br_instrument q) ?c (br_bars q) (watermarks db2) = Inr wms"
    "rebuild derivation_version (Some [?i]) (catalog db2) (curated db2) (derived db2) = Inr (counts, dv)"
    "refresh_c2_imputation_overlay migrated now 3 [?i] (db2\<lparr>watermarks := wms, derived := dv\<rparr>) = Inr (overlay, db4)"
    "apply_event run event (revisions db4) = Inr revs"
    "finish_run run ''FAILED_BOUNDED_REVISION_RUN_UPDATE'' f
       (db4\<lparr>revisions := revs, quality := quality db4 @ evs, staging := clear_staging run (staging db4)\<rparr>) = Inr db'"
    "rp_event m = event" "rp_from m = lo" "rp_to m = hi" "rp_derived m = counts"
    using body by (auto simp: bounded_body_def Let_def ebind_eq_Inr range)
  have w: "tbl_wf staged_key (staging db)" "tbl_wf staged_key (raw_bars db)" "tbl_wf curated_key (curated db)"
      "list_all row_ok (curated db)" "tbl_wf watermark_key (watermarks db)" "list_all watermark_ok (watermarks db)"
    using wf by (simp_all add: market_wf_def)
  obtain e src steps where s:
    "select_event run (br_state q) (br_instrument q) ?c (br_evidence q) ''READY_TO_APPLY'' (br_approved q) (revisions db) = Inr e"
    "event = re_id e" "map row_parts ss = map (\<lambda>b. (run, ?i, staged_bar b)) (br_bars q)"
    "db1 = db\<lparr>sources := src, staging := clear_staging run (staging db) @ ss,
       revisions := tbl_upsert re_id e (revisions db), revision_steps := steps\<rparr>"
    by (rule stage_revision_parts [OF r(1) w(1)])
  have db1: "curated db1 = curated db" "raw_bars db1 = raw_bars db" "watermarks db1 = watermarks db"
      "revisions db1 = tbl_upsert re_id e (revisions db)" by (simp_all add: s(4))
  note rr = replace_range_parts [OF r(2), unfolded db1, OF w(3,4,2)]
  obtain r1 e1 w1 where g: "find (\<lambda>e. re_id e = event) (tbl_upsert re_id e (revisions db)) = Some e1"
      "w1 \<in> set (watermarks db)" "wm_instrument w1 = ?i" "bounded_guard r1 e1 w1 ?i lo hi"
    using rr(7) by blast
  have "e1 = e" using g(1) tbl_lookup_upsert [of re_id event e "revisions db"]
    by (simp add: tbl_lookup_def s(2))
  note g = g [unfolded this]
  have aff: "rc_affected_from ?c = Some lo" "rc_affected_to ?c = Some hi"
    using g(4) selected_event(4,5) [OF s(1)] by (simp_all add: bounded_guard_def)
  have db2: "catalog db2 = catalog db" "datasets db2 = datasets db" "scopes db2 = scopes db" "watermarks db2 = watermarks db"
      "derived db2 = derived db" "revisions db2 = tbl_upsert re_id e (revisions db)"
      "staging db2 = clear_staging run (staging db) @ ss"
    by (subst rr(5), simp add: s(4))+
  note a = advance_revised_parts [OF r(3) [unfolded db2] w(5,6)]
  obtain new where new: "db4 = db2\<lparr>watermarks := wms, derived := dv, imputations := imputations db2 @ new\<rparr>"
    using overlay_refresh_appends [OF r(5)] by auto
  have fin: "db' = db4\<lparr>revisions := revs, quality := quality db4 @ evs, staging := clear_staging run (staging db4),
        runs := map (\<lambda>r. if running run r then f r else r) (runs db4)\<rparr>"
    using finish_run_parts [OF r(7)] by simp
  have clear: "clear_staging run (clear_staging run (staging db) @ ss) = clear_staging run (staging db)"
    by (rule clear_staged_rows, rule row_parts_run [of ss run "\<lambda>_. ?i" staged_bar "\<lambda>_. br_bars q" "[()]"])
      (simp_all add: s(3))
  have stag: "staging db' = clear_staging run (staging db)" by (simp add: fin new db2 clear)
  have "market_wf db'"
    using a(1,2) rr(1,2,3) w(1) by (simp add: market_wf_def stag clear_staging_def tbl_wf_filter) (simp add: fin new)
  moreover have "authorised q (rp_event m) db"
    using guard_authorises [OF g(4) s(1) g(2,3)] by (simp add: r(8) s(2))
  moreover have "bounded_effect run q m db db'"
  proof -
    have cur: "tbl_lookup curated_key k (curated db') =
        (if fst k = ?i \<and> in_range lo hi (instant (fst (snd k)))
         then map_option (applied_row run ?i) (find (\<lambda>b. (?i, time_utc b, price_basis b) = k) (br_bars q))
         else tbl_lookup curated_key k (curated db))" for k
    proof -
      have "curated db' = curated db2" by (simp add: fin new)
      moreover have "find (\<lambda>b. (?i, time_utc b, price_basis b) = k) (br_bars q) = None" if "fst k \<noteq> ?i"
        using that by (auto simp: find_None_iff)
      ultimately show ?thesis using rr(6) [of k] find_staged [OF s(3), of k lo hi] by (auto split: option.splits)
    qed
    have rev': "tbl_lookup re_id n (revisions db') = map_option (\<lambda>e. if n = event \<and> re_status e = ''READY_TO_APPLY''
      then e\<lparr>re_status := ''APPLIED'', re_applied_run := Some run,
             re_review := (if re_policy e = revision_warning_policy then ''APPLIED'' else re_review e)\<rparr> else e)
      (if n = event then Some e else tbl_lookup re_id n (revisions db))" for n
      using apply_event_parts [OF r(6), of n] by (simp add: fin new db2 table_simps s(2))
    have e_st: "re_status e = ''READY_TO_APPLY''" "re_new_version e = rc_new ?c" using selected_event(1,7) [OF s(1)] by simp_all
    have others: "tbl_lookup re_id n (revisions db') = tbl_lookup re_id n (revisions db)" if "n \<noteq> event" for n
      using that rev' [of n] by (cases "tbl_lookup re_id n (revisions db)") simp_all
    have wm: "\<exists>w. tbl_lookup watermark_key (?i, price_basis_of (br_instrument q)) (watermarks db') = Some w
        \<and> wm_version w = Some (rc_new ?c) \<and> wm_status w = ''ACTIVE''"
      using a(4) by (auto simp: fin new revised_watermark_def Let_def)
    have raws: "\<exists>ss. raw_bars db' = raw_bars db @ ss \<and> map row_parts ss = map (\<lambda>b. (run, ?i, staged_bar b)) (br_bars q)"
      using rr(4) s(3) by (auto simp: fin new)
    show ?thesis unfolding bounded_effect_def Let_def r(8-11)
      using aff cur raws a(3) wm others rev' [of event] e_st r(4) stag
      by (intro conjI) (simp_all add: fin new db2)
  qed
  ultimately show ?thesis by blast
qed

lemma commit_bounded_cases:
  assumes "market_wf db" and "commit_bounded_revision migrated now run q db = (res, db')"
  shows "case res of Inl e \<Rightarrow> db' = db
    | Inr m \<Rightarrow> market_wf db' \<and> authorised q (rp_event m) db \<and> bounded_effect run q m db db'"
proof (cases res)
  case (Inl e)
  then show ?thesis using assms(2)
    by (auto simp: commit_bounded_revision_def transaction_def Let_def split: if_splits sum.splits prod.splits)
next
  case (Inr m)
  then have "bounded_body migrated now run q (last (br_comparisons q)) db = Inr (m, db')"
    using assms(2) by (auto simp: commit_bounded_revision_def transaction_commit Let_def split: if_splits)
  then show ?thesis using bounded_body_effect [OF _ assms(1)] Inr by auto
qed

text \<open>C3: An apply is atomic, authorised and confined. When it raises, the database is what it was. When
  it succeeds, the series was stale, or active with an event a reviewer approved (always the given
  event, still pending, on the reviewed path); only curated rows of the instrument inside the affected
  range changed, to exactly the provider bars of that range; the raw table gained the whole window,
  no other watermark or event moved, the event is applied by this run, the derived tables are the
  rebuild over the new rows, and the tables stay well formed.\<close>

theorem bounded_apply_is_authorised_and_confined:
  assumes "market_wf db" and "commit_bounded_revision migrated now run q db = (res, db')"
  shows "case res of Inl e \<Rightarrow> db' = db
    | Inr m \<Rightarrow> market_wf db' \<and> authorised q (rp_event m) db \<and> bounded_effect run q m db db'"
  using assms by (rule commit_bounded_cases)

section \<open>The stored window\<close>

definition utc_rows :: "MarketRow list \<Rightarrow> bool" where
  "utc_rows t = list_all (\<lambda>r. \<not> tz_naive (time_utc (mr_bar r))) t"

lemma aware_instant: "\<not> tz_naive x \<Longrightarrow> x = Aware (instant x)"
  by (cases x) simp_all

lemma window_rows_keys:
  assumes "tbl_wf curated_key (curated db)" and "utc_rows (curated db)"
  shows "distinct (map fst (stored_window db i basis lo hi))"
proof -
  let ?rows = "sort_key bar_instant (filter (\<lambda>r. lo \<le> bar_instant r \<and> bar_instant r \<le> hi) (basis_rows db i basis))"
  have d: "distinct (map curated_key (curated db))" using assms(1) by (simp add: tbl_wf_def)
  have "inj_on bar_instant (set ?rows)"
  proof (rule inj_onI)
    fix r s assume rs: "r \<in> set ?rows" "s \<in> set ?rows" "bar_instant r = bar_instant s"
    then have m: "r \<in> set (curated db)" "s \<in> set (curated db)" by (auto simp: basis_rows_def)
    have "time_utc (mr_bar r) = time_utc (mr_bar s)"
      using aware_instant [of "time_utc (mr_bar r)"] aware_instant [of "time_utc (mr_bar s)"] m assms(2) rs(3)
      by (auto simp: utc_rows_def list_all_iff bar_instant_def)
    then have "curated_key r = curated_key s" using rs by (auto simp: curated_key_def basis_rows_def)
    then show "r = s" using d m by (auto simp: distinct_map dest: inj_onD)
  qed
  moreover have "distinct ?rows" using d by (simp add: basis_rows_def distinct_map)
  ultimately have "distinct (map bar_instant ?rows)" by (simp add: distinct_map)
  then show ?thesis by (simp add: stored_window_def comp_def)
qed

lemma stored_window_lookup:
  assumes "tbl_wf curated_key (curated db)" and "utc_rows (curated db)" and "lo \<le> t" "t \<le> hi"
  shows "map_of (stored_window db i basis lo hi) t = map_option mr_bar (tbl_lookup curated_key (i, Aware t, basis) (curated db))"
proof (cases "tbl_lookup curated_key (i, Aware t, basis) (curated db)")
  case (Some r)
  then have "r \<in> set (curated db)" "curated_key r = (i, Aware t, basis)" by (auto dest: tbl_lookup_Some)
  then have "(t, mr_bar r) \<in> set (stored_window db i basis lo hi)"
    using assms(3,4) by (force simp: stored_window_def basis_rows_def curated_key_def bar_instant_def)
  then show ?thesis using Some map_of_is_SomeI [OF window_rows_keys [OF assms(1,2)]] by simp
next
  case None
  have "t \<notin> fst ` set (stored_window db i basis lo hi)"
  proof
    assume "t \<in> fst ` set (stored_window db i basis lo hi)"
    then obtain r where r: "r \<in> set (curated db)" "mr_instrument r = i" "price_basis (mr_bar r) = basis" "bar_instant r = t"
      by (auto simp: stored_window_def basis_rows_def)
    then have "time_utc (mr_bar r) = Aware t"
      using aware_instant [of "time_utc (mr_bar r)"] assms(2) by (auto simp: utc_rows_def list_all_iff bar_instant_def)
    then have "curated_key r = (i, Aware t, basis)" using r by (simp add: curated_key_def)
    then show False using None r(1) imageI [of r "set (curated db)" curated_key] by (simp add: tbl_lookup_None)
  qed
  then show ?thesis using None by (simp add: map_of_eq_None_iff)
qed

text \<open>The stored bar shows the provider bar: the same content, at column precision if it was written.\<close>

definition shows_bar :: "NormalizedBar \<Rightarrow> MarketRow \<Rightarrow> bool" where
  "shows_bar b r = (same_content b (mr_bar r) \<or> same_content (staged_bar b) (mr_bar r))"

lemma applied_row_shows: "shows_bar b (applied_row run i b)"
  by (simp add: shows_bar_def applied_row_def same_content_def row_content_def curated_bar_def)

text \<open>C10: Replacing only the affected range is as good as replacing the whole window: after a successful
  apply of a comparison made on the stored window, at every time of the window the curated table has
  a row exactly when the provider sent one, and that row shows the provider's content.\<close>

theorem bounded_apply_equals_window_refresh:
  assumes wf: "market_wf db" "utc_rows (curated db)"
    and bars: "list_all (\<lambda>b. time_utc b = Aware (bar_time b) \<and> price_basis b = price_basis_of (br_instrument q)) (br_bars q)"
    and cmp: "compare_revision_window (br_bars q)
        (stored_window db (st_instrument (br_state q)) (price_basis_of (br_instrument q)) (rc_from c) (rc_to c))
        old requested maximum required = Inr c" "last (br_comparisons q) = c"
    and ok: "commit_bounded_revision migrated now run q db = (Inr m, db')"
    and t: "rc_from c \<le> t" "t \<le> rc_to c"
  shows "case (provider_at (br_bars q) t,
               tbl_lookup curated_key (st_instrument (br_state q), Aware t, price_basis_of (br_instrument q)) (curated db')) of
      (None, None) \<Rightarrow> True | (Some b, Some r) \<Rightarrow> shows_bar b r | _ \<Rightarrow> False"
proof -
  let ?i = "st_instrument (br_state q)" and ?b = "price_basis_of (br_instrument q)"
  have eff: "bounded_effect run q m db db'"
    using ok bounded_body_effect [OF _ wf(1)]
    by (auto simp: commit_bounded_revision_def transaction_commit Let_def split: if_splits)
  then have aff: "rc_affected_from c = Some (rp_from m)" "rc_affected_to c = Some (rp_to m)"
    and look: "tbl_lookup curated_key (?i, Aware t, ?b) (curated db') =
      (if in_range (rp_from m) (rp_to m) t
       then map_option (applied_row run ?i) (find (\<lambda>b. (?i, time_utc b, price_basis b) = (?i, Aware t, ?b)) (br_bars q))
       else tbl_lookup curated_key (?i, Aware t, ?b) (curated db))"
    using cmp(2) by (auto simp: bounded_effect_def Let_def)
  show ?thesis
  proof (cases "in_range (rp_from m) (rp_to m) t")
    case True
    have "find (\<lambda>b. (?i, time_utc b, price_basis b) = (?i, Aware t, ?b)) (br_bars q) = provider_at (br_bars q) t"
      unfolding provider_at_def using bars by (intro find_cong) (auto simp: list_all_iff bar_time_def)
    then show ?thesis using look True applied_row_shows by (simp split: option.splits)
  next
    case False
    then have "outside_affected c t" using aff by (auto simp: outside_affected_def in_range_def)
    then show ?thesis
      using outside_agrees [OF cmp(1) t] look False
        stored_window_lookup [OF _ wf(2) t, of ?i ?b] wf(1)
      by (auto simp: market_wf_def shows_bar_def split: option.splits)
  qed
qed

text \<open>A change of the version alone can never be applied: the comparison stores no affected range
  in the event, the procedure is called with the last time of the window, and its guard compares the
  two, so the transaction always rolls back.\<close>

theorem version_only_apply_always_fails:
  assumes "market_wf db" and "rc_affected_from (last (br_comparisons q)) = None"
  shows "\<exists>e. commit_bounded_revision migrated now run q db = (Inl e, db)"
proof -
  obtain res db' where r: "commit_bounded_revision migrated now run q db = (res, db')"
    by (cases "commit_bounded_revision migrated now run q db")
  show ?thesis
  proof (cases res)
    case (Inl e)
    then show ?thesis using r
      by (auto simp: commit_bounded_revision_def transaction_def Let_def split: if_splits sum.splits prod.splits)
  next
    case (Inr m)
    then have "bounded_body migrated now run q (last (br_comparisons q)) db = Inr (m, db')"
      using r by (auto simp: commit_bounded_revision_def transaction_commit Let_def split: if_splits)
    then have "bounded_effect run q m db db'" using bounded_body_effect [OF _ assms(1)] by blast
    then show ?thesis using assms(2) by (simp add: bounded_effect_def Let_def)
  qed
qed

section \<open>The life of a revision event\<close>

text \<open>The transitions of the revision tables: a warning, a failure, a review, an apply, a blocked window.\<close>

inductive revision_transition :: "market_db \<Rightarrow> market_db \<Rightarrow> bool" where
  Warned: "record_revision_warning file_sha now run arts d k db = (Inr w, db') \<Longrightarrow> revision_transition db db'"
| Failed: "record_failure file_sha now run code arts failed detection k db = (Inr u, db') \<Longrightarrow> revision_transition db db'"
| Reviewed: "record_revision_review event decision reviewer note db = (Inr r, db') \<Longrightarrow> revision_transition db db'"
| Applied: "commit_bounded_revision migrated now run q db = (Inr m, db') \<Longrightarrow> revision_transition db db'"
| Unresolved: "record_unresolved_revision now run q db = (Inr x, db') \<Longrightarrow> revision_transition db db'"

inductive_cases revision_transitionE: "revision_transition db db'"

inductive revision_history :: "market_db \<Rightarrow> market_db \<Rightarrow> bool" where
  Start: "revision_history db db"
| Step: "revision_history db db1 \<Longrightarrow> revision_transition db1 db2 \<Longrightarrow> revision_history db db2"

text \<open>An event of the warning policy leaves the pending state only with a named reviewer, and is applied
  only after its approval.\<close>

definition event_reviewed :: "RevisionEvent \<Rightarrow> bool" where
  "event_reviewed e =
     (re_policy e = revision_warning_policy \<longrightarrow>
        (re_review e = ''PENDING_REVIEW'' \<or> (\<exists>rv. re_reviewer e = Some rv \<and> btrim rv \<noteq> []))
        \<and> (re_status e = ''APPLIED'' \<longrightarrow> re_review e = ''APPLIED''))"

definition events_ok :: "RevisionEvent list \<Rightarrow> bool" where
  "events_ok t = (tbl_wf re_id t \<and> list_all event_reviewed t)"

lemma set_upsert_wf:
  assumes "tbl_wf key t" and "x \<in> set (tbl_upsert key r t)"
  shows "x = r \<or> x \<in> set t \<and> key x \<noteq> key r"
proof -
  have "tbl_lookup key (key x) (tbl_upsert key r t) = Some x"
    using assms tbl_wf_upsert [OF assms(1)] by (simp add: tbl_lookup_iff)
  then show ?thesis using assms(1) by (auto simp: tbl_lookup_upsert tbl_lookup_iff split: if_splits)
qed

lemma events_ok_upsert: "events_ok t \<Longrightarrow> event_reviewed e \<Longrightarrow> events_ok (tbl_upsert re_id e t)"
  by (auto simp: events_ok_def table_simps list_all_iff dest!: tbl_upsert_set)

lemma events_ok_map:
  "events_ok t \<Longrightarrow> (\<And>e. re_id (f e) = re_id e) \<Longrightarrow> (\<And>e. e \<in> set t \<Longrightarrow> event_reviewed e \<Longrightarrow> event_reviewed (f e)) \<Longrightarrow> events_ok (map f t)"
  by (auto simp: events_ok_def tbl_wf_def list_all_iff comp_def)

lemma events_ok_fresh: "events_ok t \<Longrightarrow> event_reviewed e \<Longrightarrow> re_id e = fresh_id re_id t \<Longrightarrow> events_ok (t @ [e])"
  using fresh_id_new [of _ t re_id] by (force simp: events_ok_def tbl_wf_def)

lemma warning_events_ok:
  assumes "insert_warning_event i basis run d t = Inr (n, t')" and "events_ok t"
  shows "events_ok t'"
proof -
  have "t' = t \<or> t' = t @ [detection_event (fresh_id re_id t) i basis run d]"
    using assms(1) by (auto simp: insert_warning_event_def Let_def split: if_splits option.splits)
  moreover have "event_reviewed (detection_event (fresh_id re_id t) i basis run d)"
    by (simp add: event_reviewed_def detection_event_def)
  ultimately show ?thesis using assms(2) events_ok_fresh [OF assms(2)] by (auto simp: detection_event_def)
qed

lemma detected_events_ok:
  assumes "upsert_detected s run d t = Inr t'" and "events_ok t"
  shows "events_ok t'"
proof -
  let ?e = "legacy_event (fresh_id re_id t) s run d"
  let ?hit = "\<lambda>x. same_series (sc_instrument s) (sc_basis s) (rd_new d) x \<and> re_status x \<in> set open_statuses"
  let ?f = "\<lambda>x. if ?hit x then x\<lparr>re_from := re_from ?e, re_to := re_to ?e, re_compared := re_compared ?e,
      re_manifest_path := re_manifest_path ?e, re_manifest_sha256 := re_manifest_sha256 ?e\<rparr> else x"
  have "t' = map ?f t \<or> t' = t @ [?e]"
    using assms(1) by (auto simp: upsert_detected_def Let_def split: if_splits)
  moreover have "event_reviewed ?e"
    using policies_differ by (simp add: event_reviewed_def legacy_event_def revision_policy_def)
  moreover have "events_ok (map ?f t)"
    by (rule events_ok_map [OF assms(2)]) (simp_all add: event_reviewed_def)
  ultimately show ?thesis using events_ok_fresh [OF assms(2)] by (auto simp: legacy_event_def detection_event_def)
qed

lemma reviewed_events_ok:
  assumes "review_procedure event decision reviewer note t = Inr t'" and "events_ok t"
  shows "events_ok t'"
proof -
  let ?f = "\<lambda>e. if reviewable event e
       then e\<lparr>re_review := (if decision = ''KEEP_CURRENT'' then ''REVIEWED_KEEP_CURRENT'' else ''APPLY_APPROVED''),
              re_reviewer := Some reviewer, re_note := Some note\<rparr> else e"
  have "t' = map ?f t" "1 \<le> length (btrim reviewer)"
    using assms(1) by (auto simp: review_procedure_def split: if_splits)
  moreover have "events_ok (map ?f t)"
    by (rule events_ok_map [OF assms(2)]) (use calculation(2) in \<open>auto simp: event_reviewed_def reviewable_def\<close>)
  ultimately show ?thesis by simp
qed

lemma selected_reviewed:
  assumes "select_event run st ins c evidence status approved t = Inr e" and "events_ok t" and "status \<noteq> ''APPLIED''"
  shows "event_reviewed e"
proof (cases "re_policy e = revision_warning_policy")
  case False
  then show ?thesis by (simp add: event_reviewed_def)
next
  case True
  then obtain x where "x \<in> set t" "re_policy x = re_policy e" "re_review x = re_review e" "re_reviewer x = re_reviewer e"
    using assms(1) policies_differ
    by (auto simp: select_event_def new_event_def compared_event_def dest!: find_hit split: option.splits)
  then show ?thesis using True assms(2,3) selected_event(1) [OF assms(1)]
    by (auto simp: events_ok_def list_all_iff event_reviewed_def)
qed

lemma unresolved_events_ok:
  assumes "record_unresolved_revision now run q db = (Inr x, db')" and "events_ok (revisions db)"
  shows "events_ok (revisions db')"
proof -
  obtain src event db1 where r: "insert_revision_event run (br_state q) (br_instrument q) (br_comparisons q) (br_artifacts q)
        (br_evidence q) ''BLOCKED_FULL_REFETCH'' None (db\<lparr>sources := src\<rparr>) = Inr (event, db1)"
      "revisions db' = revisions db1"
    using assms(1) by (auto simp: record_unresolved_revision_def transaction_commit ebind_eq_Inr update_run_def)
  obtain e steps where e: "select_event run (br_state q) (br_instrument q) (last (br_comparisons q)) (br_evidence q)
      ''BLOCKED_FULL_REFETCH'' None (revisions (db\<lparr>sources := src\<rparr>)) = Inr e"
      "db1 = (db\<lparr>sources := src\<rparr>)\<lparr>revisions := tbl_upsert re_id e (revisions (db\<lparr>sources := src\<rparr>)), revision_steps := steps\<rparr>"
    by (rule insert_revision_event_parts [OF r(1)])
  have "event_reviewed e" by (rule selected_reviewed [OF e(1)]) (simp_all add: assms(2))
  then show ?thesis using events_ok_upsert [OF assms(2)] by (simp add: r(2) e(2))
qed

lemma bounded_body_events_ok:
  assumes "bounded_body migrated now run q c db = Inr (m, db')" and "events_ok (revisions db)"
  shows "events_ok (revisions db')"
proof -
  let ?i = "st_instrument (br_state q)"
  obtain lo hi where range: "apply_range c = (lo, hi)" by (cases "apply_range c")
  obtain event ss db1 db2 wms counts dv overlay db4 revs f evs where r:
    "stage_revision run q db = Inr (event, ss, db1)" "replace_range run event ?i lo hi ss db1 = Inr db2"
    "refresh_c2_imputation_overlay migrated now 3 [?i] (db2\<lparr>watermarks := wms, derived := dv\<rparr>) = Inr (overlay, db4)"
    "apply_event run event (revisions db4) = Inr revs"
    "finish_run run ''FAILED_BOUNDED_REVISION_RUN_UPDATE'' f
       (db4\<lparr>revisions := revs, quality := quality db4 @ evs, staging := clear_staging run (staging db4)\<rparr>) = Inr db'"
    using assms(1) by (auto simp: bounded_body_def Let_def ebind_eq_Inr range)
  obtain e where s:
    "select_event run (br_state q) (br_instrument q) (last (br_comparisons q)) (br_evidence q) ''READY_TO_APPLY''
       (br_approved q) (revisions db) = Inr e" "event = re_id e" "revisions db1 = tbl_upsert re_id e (revisions db)"
    by (rule stage_revision_event [OF r(1)])
  have same: "revisions db4 = tbl_upsert re_id e (revisions db)"
  proof -
    have "revisions db2 = revisions db1" using r(2)
      by (auto simp: replace_range_def ebind_eq_Inr elim!: prepare_bounded_parts)
    then show ?thesis using overlay_refresh_appends [OF r(3)] s(3) by auto
  qed
  obtain r1 w where g: "bounded_guard r1 e w ?i lo hi"
  proof -
    obtain raw db' where "prepare_bounded_revision run event ?i lo hi (db1\<lparr>raw_bars := raw\<rparr>) = Inr db'"
      using r(2) by (auto simp: replace_range_def ebind_eq_Inr)
    then obtain r1 e1 w where "find (\<lambda>e. re_id e = event) (revisions db1) = Some e1" "bounded_guard r1 e1 w ?i lo hi"
      by (rule prepare_bounded_parts) simp
    moreover from this(1) have "e1 = e" using tbl_lookup_upsert [of re_id event e "revisions db"]
      by (simp add: tbl_lookup_def s(2,3))
    ultimately show ?thesis using that by blast
  qed
  have rev_e: "event_reviewed e" by (rule selected_reviewed [OF s(1) assms(2)]) simp
  have ok: "events_ok (tbl_upsert re_id e (revisions db))" by (rule events_ok_upsert [OF assms(2) rev_e])
  let ?f = "\<lambda>x. if re_id x = event \<and> re_status x = ''READY_TO_APPLY''
      then x\<lparr>re_status := ''APPLIED'', re_applied_run := Some run,
             re_review := (if re_policy x = revision_warning_policy then ''APPLIED'' else re_review x)\<rparr> else x"
  have "revs = map ?f (tbl_upsert re_id e (revisions db))"
    using r(4) by (auto simp: apply_event_def same split: if_splits)
  moreover have "events_ok (map ?f (tbl_upsert re_id e (revisions db)))"
  proof (rule events_ok_map [OF ok])
    fix x assume x: "x \<in> set (tbl_upsert re_id e (revisions db))" "event_reviewed x"
    show "event_reviewed (?f x)"
    proof (cases "re_id x = event")
      case True
      then have "x = e" using set_upsert_wf [OF _ x(1)] assms(2) s(2) by (auto simp: events_ok_def)
      then show ?thesis using rev_e g policies_differ
        by (auto simp: event_reviewed_def bounded_guard_def)
    qed (use x in simp)
  qed simp
  ultimately show ?thesis using finish_run_parts [OF r(5)] by simp
qed

lemma transition_keeps_events:
  assumes "revision_transition db db'" and "events_ok (revisions db)"
  shows "events_ok (revisions db')"
  using assms(1)
proof (cases rule: revision_transition.cases)
  case (Warned file_sha now run arts d k w)
  then have "record_warning_body file_sha now run arts d k db = Inr (w, db')"
    by (simp add: record_revision_warning_def transaction_commit)
  from warning_body_parts [OF this] obtain src and s :: ScopeRow and revs steps f where p:
      "insert_warning_event (sc_instrument s) (sc_basis s) run d (revisions db) = Inr (wr_event w, revs)"
      "finish_run run ''FAILED_REVISION_WARNING_RUN_UPDATE'' f
         ((ensure_dataset file_sha k 1 db)\<lparr>sources := src, revisions := revs, revision_steps := steps\<rparr>) = Inr db'"
    by blast
  then show ?thesis using warning_events_ok [OF p(1) assms(2)] finish_run_parts [OF p(2)] by simp
next
  case (Failed file_sha now run code arts failed detection k u)
  then have "record_failure_body file_sha now run code arts failed detection k db = Inr ((), db')"
    by (simp add: record_failure_def transaction_commit)
  then have "revisions db' = revisions db \<or> (\<exists>s d. upsert_detected s run d (revisions db) = Inr (revisions db'))"
    by (auto simp: record_failure_body_def Let_def ebind_eq_Inr update_run_def split: option.splits if_splits)
  then show ?thesis using assms(2) detected_events_ok by auto
next
  case (Reviewed event decision reviewer remark r)
  then have "review_procedure event (upper decision) reviewer remark (revisions db) = Inr (revisions db')"
    by (auto simp: record_revision_review_def transaction_commit Let_def ebind_eq_Inr split: if_splits option.splits)
  then show ?thesis by (rule reviewed_events_ok [OF _ assms(2)])
next
  case (Applied migrated now run q m)
  then have "bounded_body migrated now run q (last (br_comparisons q)) db = Inr (m, db')"
    by (auto simp: commit_bounded_revision_def transaction_commit Let_def split: if_splits)
  then show ?thesis by (rule bounded_body_events_ok [OF _ assms(2)])
next
  case (Unresolved now run q x)
  then show ?thesis by (rule unresolved_events_ok [OF _ assms(2)])
qed

text \<open>C33: Whatever sequence of warnings, failures, reviews, applies and blocked windows runs from a database
  without revision events, every event of the warning policy that was applied carries the name of a
  reviewer and was approved first, and event ids stay unique.\<close>

theorem applied_warnings_were_reviewed:
  assumes "revision_history db db'" and "revisions db = []"
  shows "tbl_wf re_id (revisions db')
    \<and> (\<forall>e. e \<in> set (revisions db') \<and> re_policy e = revision_warning_policy \<and> re_status e = ''APPLIED'' \<longrightarrow>
          re_review e = ''APPLIED'' \<and> (\<exists>rv. re_reviewer e = Some rv \<and> btrim rv \<noteq> []))"
proof -
  have "events_ok (revisions db')" using assms
  proof (induction rule: revision_history.induct)
    case Start
    then show ?case by (simp add: events_ok_def tbl_wf_def)
  next
    case (Step db1 db2)
    then show ?case using transition_keeps_events by blast
  qed
  then show ?thesis by (auto simp: events_ok_def list_all_iff event_reviewed_def)
qed

text \<open>A review changes nothing but the review fields of the one pending event of the warning policy, and
  needs a valid decision, a reviewer and a note; otherwise it raises and changes nothing.\<close>

lemma review_is_confined:
  assumes "record_revision_review event decision reviewer remark db = (res, db')"
  shows "case res of Inl e \<Rightarrow> db' = db
    | Inr r \<Rightarrow> db' = db\<lparr>revisions := revisions db'\<rparr> \<and> same_market_data db db' \<and> watermarks db' = watermarks db
        \<and> btrim reviewer \<noteq> [] \<and> btrim remark \<noteq> []
        \<and> (\<exists>x \<in> set (revisions db). reviewable event x)
        \<and> length (revisions db') = length (revisions db)
        \<and> (\<forall>n. n < length (revisions db) \<longrightarrow>
             (let old = revisions db ! n; new = revisions db' ! n
              in if reviewable event old
                 then new = old\<lparr>re_review := (if upper decision = ''KEEP_CURRENT'' then ''REVIEWED_KEEP_CURRENT'' else ''APPLY_APPROVED''),
                                re_reviewer := Some reviewer, re_note := Some remark\<rparr>
                 else new = old))"
proof (cases res)
  case (Inl e)
  then show ?thesis using assms
    by (auto simp: record_revision_review_def transaction_def split: if_splits sum.splits prod.splits)
next
  case (Inr r)
  then obtain t where t: "review_procedure event (upper decision) reviewer remark (revisions db) = Inr t"
      "db' = db\<lparr>revisions := t\<rparr>"
    using assms
    by (auto simp: record_revision_review_def transaction_commit Let_def ebind_eq_Inr split: if_splits option.splits)
  have p: "btrim reviewer \<noteq> []" "btrim remark \<noteq> []" "list_ex (reviewable event) (revisions db)"
    "t = map (\<lambda>e. if reviewable event e
             then e\<lparr>re_review := (if upper decision = ''KEEP_CURRENT'' then ''REVIEWED_KEEP_CURRENT'' else ''APPLY_APPROVED''),
                    re_reviewer := Some reviewer, re_note := Some remark\<rparr> else e) (revisions db)"
    using t(1) by (auto simp: review_procedure_def split: if_splits)
  show ?thesis unfolding Inr t(2) using p
    by (auto simp: same_market_data_def list_ex_iff Let_def)
qed

section \<open>A reviewed revision of TIP\<close>

text \<open>A warning is recorded by run 7, approved by a reviewer, and applied by run 8.\<close>

definition revision_db :: market_db where
  "revision_db = (tip_market ''manual_db3'' ''ACTIVE'')\<lparr>
     runs := [new_run 7 ''manual_db3'' ''r'', new_run 8 ''manual_db3_approved_revision_apply'' ''s'']\<rparr>"

definition warned_event :: RevisionEvent where
  "warned_event = detection_event 1 9 ''native_ohlc'' 7 tip_detection"

definition approved_event :: RevisionEvent where
  "approved_event = warned_event\<lparr>re_review := ''APPLY_APPROVED'', re_reviewer := Some ''ops'', re_note := Some ''checked''\<rparr>"

definition warned_db :: market_db where
  "warned_db = (ensure_dataset (\<lambda>_. []) canonical_contract 1 revision_db)\<lparr>
     runs := [(passed_run (tip_open + day) ''revision_warning_recorded_no_curated_change'' 0 0 0 0 0
                 (new_run 7 ''manual_db3'' ''r''))\<lparr>rn_error := None, rn_event := Some 1\<rparr>,
              new_run 8 ''manual_db3_approved_revision_apply'' ''s''],
     sources := [(hd (sources tip_db))\<lparr>so_rows := 2\<rparr>], revisions := [warned_event],
     revision_steps := [warning_step 1 1 tip_detection]\<rparr>"

definition approved_db :: market_db where
  "approved_db = warned_db\<lparr>revisions := [approved_event]\<rparr>"

text \<open>The provider window: the stored bars, or the same with one close revised.\<close>

definition provider_window :: "bool \<Rightarrow> NormalizedBar list" where
  "provider_window revised = map (\<lambda>b. if revised \<and> bar_time b = tip_open + 5 * hour then b\<lparr>px_close := 12\<rparr> else b) tip_bars"

definition tip_comparison :: "bool \<Rightarrow> RevisionComparison" where
  "tip_comparison revised = \<lparr> rc_decision = ''READY_TO_APPLY'',
     rc_reason = (if revised then ''REVISION_BOUNDED_RANGE_IDENTIFIED'' else ''REVISION_NO_CONTENT_CHANGE_WITH_STABLE_ANCHOR''),
     rc_old = 29759067, rc_new = 29759068, rc_from = tip_open + 2 * hour, rc_to = tip_open + 6 * hour,
     rc_provider = 5, rc_matched = 5, rc_content = (if revised then 1 else 0), rc_version_only = 0,
     rc_new_rows = 0, rc_removed = 0, rc_anchor = (if revised then 3 else 5),
     rc_affected_from = (if revised then Some (tip_open + 5 * hour) else None),
     rc_affected_to = (if revised then Some (tip_open + 5 * hour) else None),
     rc_content_times = (if revised then [tip_open + 5 * hour] else []), rc_new_times = [], rc_removed_times = [] \<rparr>"

definition revision_request :: "bool \<Rightarrow> BoundedRequest" where
  "revision_request revised = \<lparr> br_instrument = tip_instrument, br_state = tip_state ''ACTIVE'',
     br_bars = provider_window revised, br_artifacts = [tip_artifact], br_evidence = tip_artifact,
     br_comparisons = [tip_comparison revised], br_approved = Some 1 \<rparr>"

definition applied_revision :: "bool \<Rightarrow> (exn + Replacement) \<times> market_db" where
  "applied_revision revised = commit_bounded_revision True (tip_open + day) 8 (revision_request revised) approved_db"

lemma revision_compared:
  "compare_revision_window (provider_window revised)
     (stored_window approved_db 9 ''native_ohlc'' (tip_open + 2 * hour) (tip_open + 6 * hour)) 29759067 96 1200 2
   = Inr (tip_comparison revised)"
  by (cases revised; simp only:; code_simp)

lemma revision_warned:
  "case record_revision_warning (\<lambda>_. []) (tip_open + day) 7 [tip_artifact] tip_detection canonical_contract revision_db of
     (Inr w, db') \<Rightarrow> db' = warned_db | _ \<Rightarrow> False"
  by code_simp

lemma revision_reviewed:
  "case record_revision_review 1 ''approve_apply'' ''ops'' ''checked'' warned_db of
     (Inr r, db') \<Rightarrow> db' = approved_db | _ \<Rightarrow> False"
  by code_simp

lemma revision_applied:
  "case applied_revision True of (Inr m, db') \<Rightarrow> rp_updated m = 1 \<and> rp_event m = 1
       \<and> map re_status (revisions db') = [''APPLIED''] \<and> map re_policy (revisions db') = [revision_warning_policy] | _ \<Rightarrow> False"
  by code_simp

lemma version_only_refused:
  "fst (applied_revision False) = Inl (DatabaseError ''bounded revision guard condition failed'')"
  by code_simp

lemma approved_db_wf: "market_wf approved_db" "utc_rows (curated approved_db)"
proof -
  have c: "curated approved_db = curated (tip_market [] [])" "staging approved_db = staging (tip_market [] [])"
    "raw_bars approved_db = raw_bars (tip_market [] [])" "watermarks approved_db = [tip_watermark ''ACTIVE'']"
    by (simp_all add: approved_db_def warned_db_def revision_db_def tip_market_def)
  show "market_wf approved_db" using tip_market_wf [of "[]" "[]"]
    by (simp add: market_wf_def c tip_market_def tbl_wf_def watermark_ok_def tip_watermark_def)
  show "utc_rows (curated approved_db)" unfolding c
    by (simp add: utc_rows_def tip_market_def tip_db_def tip_bars_def curated_row_def tip_raw_def tip_bar_def example_bar_def curated_bar_def)
qed

lemma applied_revision_result:
  obtains m db' where "applied_revision True = (Inr m, db')" "rp_updated m = 1" "rp_event m = 1"
    "map re_status (revisions db') = [''APPLIED'']" "map re_policy (revisions db') = [revision_warning_policy]"
proof -
  obtain x d where x: "applied_revision True = (x, d)" by (cases "applied_revision True")
  have "case x of Inl _ \<Rightarrow> False | Inr m \<Rightarrow> rp_updated m = 1 \<and> rp_event m = 1
       \<and> map re_status (revisions d) = [''APPLIED''] \<and> map re_policy (revisions d) = [revision_warning_policy]"
    using revision_applied by (simp only: x prod.case)
  then show ?thesis using that x by (cases x) simp_all
qed

theorem ready_window_is_bounded_witness:
  "rc_decision (tip_comparison True) = ''READY_TO_APPLY'' \<and> rc_content (tip_comparison True) = 1
   \<and> rc_removed (tip_comparison True) \<le> 64
   \<and> (case (provider_at (provider_window True) (tip_open + 4 * hour),
            map_of (stored_window approved_db 9 ''native_ohlc'' (tip_open + 2 * hour) (tip_open + 6 * hour)) (tip_open + 4 * hour)) of
        (None, None) \<Rightarrow> True | (Some b, Some s) \<Rightarrow> same_content b s | _ \<Rightarrow> False)"
proof -
  have d: "rc_decision (tip_comparison True) = ''READY_TO_APPLY''" "rc_content (tip_comparison True) = 1"
    by (simp_all add: tip_comparison_def)
  have t: "rc_from (tip_comparison True) \<le> tip_open + 4 * hour" "tip_open + 4 * hour \<le> rc_to (tip_comparison True)"
      "outside_affected (tip_comparison True) (tip_open + 4 * hour)"
    by (simp_all add: tip_comparison_def outside_affected_def hour_def)
  show ?thesis using ready_window_is_bounded [OF revision_compared [of True] d(1)] d t by blast
qed

theorem bounded_apply_is_authorised_and_confined_witness:
  "\<exists>m db'. applied_revision True = (Inr m, db') \<and> market_wf db' \<and> authorised (revision_request True) 1 approved_db
     \<and> rp_updated m = 1"
proof -
  obtain m db' where r: "applied_revision True = (Inr m, db')" "rp_updated m = 1" "rp_event m = 1"
    by (rule applied_revision_result)
  show ?thesis
    using bounded_apply_is_authorised_and_confined [OF approved_db_wf(1) r(1) [unfolded applied_revision_def]] r by auto
qed

theorem bounded_apply_equals_window_refresh_witness:
  "\<exists>m db' b r. applied_revision True = (Inr m, db')
     \<and> provider_at (provider_window True) (tip_open + 5 * hour) = Some b \<and> px_close b = 12
     \<and> tbl_lookup curated_key (9, Aware (tip_open + 5 * hour), ''native_ohlc'') (curated db') = Some r \<and> shows_bar b r"
proof -
  let ?t = "tip_open + 5 * hour" and ?q = "revision_request True"
  obtain m db' where r: "applied_revision True = (Inr m, db')" by (rule applied_revision_result)
  have q: "st_instrument (br_state ?q) = 9" "price_basis_of (br_instrument ?q) = ''native_ohlc''"
      "br_bars ?q = provider_window True" "last (br_comparisons ?q) = tip_comparison True"
    by (simp_all add: revision_request_def tip_state_def state_of_def price_basis_of_def tip_instrument_def)
  have f: "rc_from (tip_comparison True) = tip_open + 2 * hour" "rc_to (tip_comparison True) = tip_open + 6 * hour"
    by (simp_all add: tip_comparison_def)
  have bars: "list_all (\<lambda>b. time_utc b = Aware (bar_time b) \<and> price_basis b = price_basis_of (br_instrument ?q)) (br_bars ?q)"
    by (simp add: q provider_window_def tip_bars_def tip_bar_def example_bar_def bar_time_def)
  have cmp: "compare_revision_window (br_bars ?q)
      (stored_window approved_db (st_instrument (br_state ?q)) (price_basis_of (br_instrument ?q))
        (rc_from (tip_comparison True)) (rc_to (tip_comparison True))) 29759067 96 1200 2 = Inr (tip_comparison True)"
    unfolding q f by (rule revision_compared)
  have t: "rc_from (tip_comparison True) \<le> ?t" "?t \<le> rc_to (tip_comparison True)" by (simp_all add: f hour_def)
  have b: "provider_at (provider_window True) ?t = Some ((tip_bar ?t)\<lparr>px_close := 12\<rparr>)"
    by (simp add: provider_at_def provider_window_def tip_bars_def tip_bar_def example_bar_def bar_time_def hour_def)
  have "case (provider_at (provider_window True) ?t,
      tbl_lookup curated_key (9, Aware ?t, ''native_ohlc'') (curated db')) of
      (None, None) \<Rightarrow> True | (Some b, Some r) \<Rightarrow> shows_bar b r | _ \<Rightarrow> False"
    using bounded_apply_equals_window_refresh [OF approved_db_wf bars cmp q(4) r [unfolded applied_revision_def] t]
    unfolding q .
  then obtain row where row: "tbl_lookup curated_key (9, Aware ?t, ''native_ohlc'') (curated db') = Some row"
      "shows_bar ((tip_bar ?t)\<lparr>px_close := 12\<rparr>) row"
    unfolding b by (cases "tbl_lookup curated_key (9, Aware ?t, ''native_ohlc'') (curated db')") simp_all
  show ?thesis
    by (intro exI conjI, rule r, rule b, simp, rule row(1), rule row(2))
qed

theorem version_only_apply_always_fails_witness:
  "rc_decision (last (br_comparisons (revision_request False))) = ''READY_TO_APPLY''
   \<and> (\<exists>e. applied_revision False = (Inl e, approved_db))"
proof -
  have "rc_affected_from (last (br_comparisons (revision_request False))) = None"
    by (simp add: revision_request_def tip_comparison_def)
  from version_only_apply_always_fails [OF approved_db_wf(1) this, of True "tip_open + day" 8]
  show ?thesis unfolding applied_revision_def by (simp add: revision_request_def tip_comparison_def)
qed

theorem applied_warnings_were_reviewed_witness:
  "\<exists>db' e. revision_history revision_db db' \<and> revisions db' = [e] \<and> re_status e = ''APPLIED''
     \<and> re_policy e = revision_warning_policy \<and> (\<exists>rv. re_reviewer e = Some rv \<and> btrim rv \<noteq> [])"
proof -
  have nil: "revisions revision_db = []" by (simp add: revision_db_def tip_market_def tip_db_def)
  obtain w where w: "record_revision_warning (\<lambda>_. []) (tip_open + day) 7 [tip_artifact] tip_detection canonical_contract revision_db
      = (Inr w, warned_db)"
    using revision_warned by (auto split: prod.splits sum.splits)
  obtain rv where rv: "record_revision_review 1 ''approve_apply'' ''ops'' ''checked'' warned_db = (Inr rv, approved_db)"
    using revision_reviewed by (auto split: prod.splits sum.splits)
  obtain m db' where m: "applied_revision True = (Inr m, db')"
      and e: "map re_status (revisions db') = [''APPLIED'']" "map re_policy (revisions db') = [revision_warning_policy]"
    by (rule applied_revision_result)
  have h: "revision_history revision_db db'"
    by (rule revision_history.Step [OF revision_history.Step [OF revision_history.Step [OF revision_history.Start
        revision_transition.Warned [OF w]] revision_transition.Reviewed [OF rv]]
        revision_transition.Applied [OF m [unfolded applied_revision_def]]])
  obtain x where x: "revisions db' = [x]" "re_status x = ''APPLIED''" "re_policy x = revision_warning_policy"
    using e by (cases "revisions db'") auto
  show ?thesis
    using applied_warnings_were_reviewed [OF h nil] x h by auto
qed

end
