(* ===== verification/Effects.thy ===== *)
theory Effects
  imports PyValues
begin

text \<open>
  Methods that raise and change a state: the result and the state reached, which survives the
  exception. Used by the acquisition of the runs and by the OAuth manager.
\<close>

type_synonym ('s, 'a) effect = "'s \<Rightarrow> (exn + 'a) \<times> 's"

definition abind :: "('s, 'a) effect \<Rightarrow> ('a \<Rightarrow> ('s, 'b) effect) \<Rightarrow> ('s, 'b) effect" where
  "abind m k s = (case m s of (Inl e, s') \<Rightarrow> (Inl e, s') | (Inr v, s') \<Rightarrow> k v s')"

definition areturn :: "'a \<Rightarrow> ('s, 'a) effect" where "areturn v s = (Inr v, s)"
definition alift :: "exn + 'a \<Rightarrow> ('s, 'a) effect" where "alift r s = (r, s)"
definition aset :: "('s \<Rightarrow> 's) \<Rightarrow> ('s, unit) effect" where "aset f s = (Inr (), f s)"
definition aget :: "('s \<Rightarrow> 'a) \<Rightarrow> ('s, 'a) effect" where "aget f s = (Inr (f s), s)"
definition araise :: "exn \<Rightarrow> ('s, 'a) effect" where "araise e s = (Inl e, s)"

lemma abind_Inr: "abind m k s = (Inr v, s') \<longleftrightarrow> (\<exists>u t. m s = (Inr u, t) \<and> k u t = (Inr v, s'))"
  by (auto simp: abind_def split: prod.splits sum.splits)

lemma alift_Inr [simp]: "alift r s = (Inr v, s') \<longleftrightarrow> r = Inr v \<and> s' = s"
  by (auto simp: alift_def)

lemma areturn_Inr [simp]: "areturn u s = (Inr v, s') \<longleftrightarrow> v = u \<and> s' = s"
  by (auto simp: areturn_def)

lemma aset_Inr [simp]: "aset f s = (Inr v, s') \<longleftrightarrow> s' = f s"
  by (auto simp: aset_def)

lemma aget_Inr [simp]: "aget f s = (Inr v, s') \<longleftrightarrow> v = f s \<and> s' = s"
  by (auto simp: aget_def)

lemma araise_Inr [simp]: "\<not> araise e s = (Inr v, s')"
  by (simp add: araise_def)

text \<open>A state predicate kept by every step is kept by the whole method, whether it raises or returns.\<close>

definition keeps :: "('s \<Rightarrow> bool) \<Rightarrow> ('s, 'a) effect \<Rightarrow> bool" where
  "keeps P m = (\<forall>s. P s \<longrightarrow> P (snd (m s)))"

lemma keepsD: "keeps P m \<Longrightarrow> P s \<Longrightarrow> P (snd (m s))"
  by (simp add: keeps_def)

lemma keeps_bind [intro]:
  assumes "keeps P m" and "\<And>v. keeps P (k v)"
  shows "keeps P (abind m k)"
  unfolding keeps_def
proof (intro allI impI)
  fix s assume "P s"
  obtain r t where r: "m s = (r, t)" by (cases "m s")
  then have "P t" using keepsD [OF assms(1) \<open>P s\<close>] by simp
  then show "P (snd (abind m k s))" using r keepsD [OF assms(2)] by (cases r) (auto simp: abind_def)
qed

lemma keeps_simps [simp, intro]:
  "keeps P (areturn v)" "keeps P (alift r)" "keeps P (aget f)" "keeps P (araise e)"
  by (simp_all add: keeps_def areturn_def alift_def aget_def araise_def)

lemma keeps_set [intro]: "(\<And>s. P s \<Longrightarrow> P (f s)) \<Longrightarrow> keeps P (aset f)"
  by (simp add: keeps_def aset_def)

end
