(* ===== verification/IncrementalRun.thy ===== *)
theory IncrementalRun
  imports RevisionReconcile ChartPages Effects
begin

text \<open>
  The runs of \<open>market_db/incremental_update.py\<close> from the selection of the instruments to the returned
  summary: \<open>run_incremental\<close> and \<open>run_full_refetch\<close>, with their acquisition (smoke test, instrument
  detail, trading schedule, chart pages), their checks, the three ways to end in the database, and
  the manifest. The acquisition works on the client and on the retained artifacts; it only reads the
  database, which the end of the run writes in one transaction.
\<close>

section \<open>The surroundings of a run\<close>

text \<open>The client argument of a run: given, made by a factory or the environment, or both (an error).\<close>

datatype client_source = GivenClient client | MadeClient "exn + client" | GivenAndFactory client

datatype run_outcome = NoResult | Committed CommitResult | Warned WarningResult | Applied Replacement | Unresolved int string

text \<open>What the manifest of a run records; its JSON encoding and digest are a parameter.\<close>

record RunManifest =
  mf_run_id :: string
  mf_db_run :: int
  mf_status :: string
  mf_error :: "string option"
  mf_failed_key :: "string option"
  mf_smoke :: bool
  mf_successful :: nat
  mf_client :: "client option"
  mf_artifacts :: "ArtifactRecord list"
  mf_result :: run_outcome

record Surroundings =
  en_net :: network
  en_client :: client_source
  en_encoding :: encoding
  en_digest :: evidence_digest
  en_manifest_digest :: "RunManifest \<Rightarrow> string \<times> nat"
  en_file_sha :: "string \<Rightarrow> string"
  en_stamp :: string
  en_suffix :: string
  en_now :: utc
  en_migrated :: bool
  en_canonical :: "CanonicalInstrument list"
  en_candidates :: "CanonicalInstrument list"

section \<open>The acquisition state\<close>

record Acquisition =
  aq_client :: "client option"
  aq_smoke :: bool
  aq_charts :: "ArtifactRecord list"
  aq_all :: "ArtifactRecord list"
  aq_pages :: "NormalizedBar list list"
  aq_rejected :: "RejectedBar list list"
  aq_failed :: "string list"
  aq_failed_key :: "string option"
  aq_detection :: "RevisionDetection option"

type_synonym 'a acquiring = "(Acquisition, 'a) effect"

definition start_acquisition :: "string list \<Rightarrow> string option \<Rightarrow> Acquisition" where
  "start_acquisition failed k = \<lparr> aq_client = None, aq_smoke = False, aq_charts = [], aq_all = [], aq_pages = [],
     aq_rejected = [], aq_failed = failed, aq_failed_key = k, aq_detection = None \<rparr>"

definition take_client :: "client_source \<Rightarrow> unit acquiring" where
  "take_client src s =
     (case src of
        GivenClient c \<Rightarrow> (Inr (), s\<lparr>aq_client := Some c\<rparr>)
      | MadeClient (Inl e) \<Rightarrow> (Inl e, s)
      | MadeClient (Inr c) \<Rightarrow> (Inr (), s\<lparr>aq_client := Some c\<rparr>)
      | GivenAndFactory c \<Rightarrow>
          (Inl (ValueError ''client and client_factory are mutually exclusive''), s\<lparr>aq_client := Some c\<rparr>))"

definition with_client :: "(client \<Rightarrow> (exn + 'a) \<times> client) \<Rightarrow> 'a acquiring" where
  "with_client f s =
     (case aq_client s of
        None \<Rightarrow> (Inl AttributeError, s)
      | Some c \<Rightarrow> (case f c of (r, c') \<Rightarrow> (r, s\<lparr>aq_client := Some c'\<rparr>)))"

definition keep_json :: "Surroundings \<Rightarrow> string \<Rightarrow> string \<Rightarrow> json \<Rightarrow> nat \<Rightarrow> ArtifactRecord acquiring" where
  "keep_json en dir name payload rows s =
     (case write_json (en_encoding en) dir name payload rows of
        Inl e \<Rightarrow> (Inl e, s)
      | Inr a \<Rightarrow> (Inr a, s\<lparr>aq_all := aq_all s @ [a]\<rparr>))"

definition smoke :: "Surroundings \<Rightarrow> unit acquiring" where
  "smoke en = abind (with_client (smoke_test (en_net en))) (\<lambda>_. aset (\<lambda>s. s\<lparr>aq_smoke := True\<rparr>))"

definition artifact_name :: "CanonicalInstrument \<Rightarrow> string \<Rightarrow> string" where
  "artifact_name ins name = ''instruments/'' @ i_key ins @ ''/'' @ name"

text \<open>The instrument detail and the trading schedule, checked and retained.\<close>

definition identity_checks :: "Surroundings \<Rightarrow> string \<Rightarrow> CanonicalInstrument \<Rightarrow> unit acquiring" where
  "identity_checks en dir ins =
     abind (with_client (instrument_detail (en_net en) (i_uic ins) (i_asset_type ins))) (\<lambda>detail.
     abind (alift (validate_detail ins detail)) (\<lambda>_.
     abind (keep_json en dir (artifact_name ins ''detail.json'') (JObj detail) 1) (\<lambda>_.
     abind (with_client (trading_schedule (en_net en) (i_uic ins) (i_asset_type ins))) (\<lambda>schedule.
     case jget schedule ''Sessions'' of
       JArr sessions \<Rightarrow>
         abind (keep_json en dir (artifact_name ins ''trading_schedule.json'') (JObj schedule) (length sessions))
           (\<lambda>_. areturn ())
     | _ \<Rightarrow> alift (Inl (BarQualityError ''INVALID_TRADING_SCHEDULE''))))))"

section \<open>Chart pages\<close>

text \<open>\<open>len(payload.get("Data") or [])\<close>.\<close>

definition data_count :: "(string \<times> json) list \<Rightarrow> exn + nat" where
  "data_count payload =
     (case jget payload ''Data'' of
        JArr xs \<Rightarrow> Inr (length xs) | JObj kvs \<Rightarrow> Inr (length kvs) | JStr s \<Rightarrow> Inr (length s)
      | v \<Rightarrow> if truthy v then Inl TypeError else Inr 0)"

definition page_file :: "nat \<Rightarrow> string" where
  "page_file n = ''chart_'' @ (if n < 10000 then pad_digits 4 n else show_nat n) @ ''.json''"

definition page_context :: "Surroundings \<Rightarrow> ArtifactRecord \<Rightarrow> PageContext" where
  "page_context en a = \<lparr> p_retrieved_at = en_now en, p_sha256 = ar_sha256 a, p_path = ar_path a \<rparr>"

definition retain_page :: "Surroundings \<Rightarrow> string \<Rightarrow> string \<Rightarrow> (string \<times> json) list \<Rightarrow> ArtifactRecord acquiring" where
  "retain_page en dir name payload =
     abind (alift (data_count payload)) (\<lambda>n.
     abind (keep_json en dir name (JObj payload) n) (\<lambda>a.
     abind (aset (\<lambda>s. s\<lparr>aq_charts := aq_charts s @ [a]\<rparr>)) (\<lambda>_. areturn a)))"

text \<open>The page observers: a normal run normalises strictly, a full refetch quarantines crossed FX extrema.\<close>

definition save_page :: "Surroundings \<Rightarrow> string \<Rightarrow> CanonicalInstrument \<Rightarrow> Acquisition observer" where
  "save_page en dir ins page =
     abind (retain_page en dir (artifact_name ins (page_file (page_number page))) (page_payload page)) (\<lambda>a.
     abind (alift (normalize_chart_page ins (page_payload page) (page_context en a))) (\<lambda>bars.
       aset (\<lambda>s. s\<lparr>aq_pages := aq_pages s @ [bars]\<rparr>)))"

definition save_quarantining_page :: "Surroundings \<Rightarrow> string \<Rightarrow> CanonicalInstrument \<Rightarrow> Acquisition observer" where
  "save_quarantining_page en dir ins page =
     (if i_asset_type ins = ''FxSpot''
      then abind (retain_page en dir (artifact_name ins (page_file (page_number page))) (page_payload page)) (\<lambda>a.
           abind (alift (normalize_chart_page_quarantining_fx_extrema ins (page_payload page) (page_context en a)))
             (\<lambda>(bars, rejected). aset (\<lambda>s. s\<lparr>aq_pages := aq_pages s @ [bars], aq_rejected := aq_rejected s @ [rejected]\<rparr>)))
      else save_page en dir ins page)"

definition fetch_pages ::
  "Surroundings \<Rightarrow> Acquisition observer \<Rightarrow> CanonicalInstrument \<Rightarrow> string \<Rightarrow> utc \<Rightarrow> unit acquiring" where
  "fetch_pages en on_page ins mode start s =
     (case aq_client s of
        None \<Rightarrow> (Inl AttributeError, s)
      | Some c \<Rightarrow>
          (case fetch_chart_pages (en_net en) on_page ins mode start max_chart_count (int max_pages_limit) c
                  (s\<lparr>aq_pages := [], aq_rejected := []\<rparr>) of
             (r, c', s') \<Rightarrow> (map_sum id (\<lambda>_. ()) r, s'\<lparr>aq_client := Some c'\<rparr>)))"

section \<open>Acquiring one instrument\<close>

datatype acquired_step = Fetched AcquiredInstrument | Revised RevisionDetection ArtifactRecord

definition optional_time :: "utc option \<Rightarrow> json" where
  "optional_time t = (case t of None \<Rightarrow> JNull | Some x \<Rightarrow> JStr (iso_utc x))"

definition detection_payload :: "CanonicalInstrument \<Rightarrow> int \<Rightarrow> int \<Rightarrow> RevisionSample \<Rightarrow> utc \<Rightarrow> json" where
  "detection_payload ins old_version new_version m found = JObj
     [(''policy_id'', JStr revision_warning_policy), (''instrument_key'', JStr (i_key ins)),
      (''horizon_minutes'', JInt 60), (''price_basis'', JStr (price_basis_of ins)),
      (''old_data_version'', JInt old_version), (''new_data_version'', JInt new_version),
      (''comparison_from_utc'', JStr (iso_utc (sm_from m))), (''comparison_to_utc'', JStr (iso_utc (sm_to m))),
      (''provider_rows'', JInt (int (sm_provider m))), (''matched_rows'', JInt (int (sm_matched m))),
      (''content_difference_rows'', JInt (int (sm_content m))), (''version_only_rows'', JInt (int (sm_version_only m))),
      (''new_rows'', JInt (int (sm_new m))), (''removed_rows'', JInt (int (sm_removed m))),
      (''latest_provider_complete_time_utc'', optional_time (sm_latest_complete m)),
      (''detected_at_utc'', JStr (iso_utc found)), (''status'', JStr ''REVIEW_PENDING''),
      (''reason_code'', JStr ''DATA_VERSION_CHANGED_REVIEW_PENDING''), (''review_status'', JStr ''PENDING_REVIEW''),
      (''availability_status'', JStr ''AVAILABLE_WITH_REVISION_WARNING''), (''data_advanced'', JBool False),
      (''curated_rows_changed'', JInt 0), (''watermark_changed'', JBool False),
      (''derived_rows_changed'', JInt 0), (''orders_or_prechecks_sent'', JInt 0)]"

definition check_bars :: "utc \<Rightarrow> NormalizedBar list \<Rightarrow> exn + int option" where
  "check_bars now bars =
     (let vs = bar_versions bars
      in if length bars < 2 \<or> \<not> list_ex is_complete bars then Inl (BarQualityError ''INSUFFICIENT_INCREMENTAL_CHART_DATA'')
         else if 1 < length vs then Inl (BarQualityError ''MULTIPLE_DATA_VERSIONS_IN_RUN'')
         else if list_ex (\<lambda>b. is_complete b \<and> now < bar_time b) bars then Inl (BarQualityError ''FUTURE_COMPLETED_BAR'')
         else Inr (case vs of [] \<Rightarrow> None | v # _ \<Rightarrow> Some v))"

definition record_detection ::
  "Surroundings \<Rightarrow> string \<Rightarrow> market_db \<Rightarrow> CanonicalInstrument \<Rightarrow> InstrumentState \<Rightarrow> NormalizedBar list \<Rightarrow> int \<Rightarrow> int \<Rightarrow>
   acquired_step acquiring" where
  "record_detection en dir db ins st bars old_version new_version =
     abind (alift (load_revision_sample st (price_basis_of ins) bars db)) (\<lambda>m.
     abind (keep_json en dir (artifact_name ins ''revision_detection.json'')
              (detection_payload ins old_version new_version m (en_now en)) (length bars)) (\<lambda>a.
     let d = \<lparr> rd_key = i_key ins, rd_old = old_version, rd_new = new_version, rd_sample = m,
               rd_time = en_now en, rd_path = ar_path a, rd_sha256 = ar_sha256 a \<rparr>
     in abind (aset (\<lambda>s. s\<lparr>aq_detection := Some d\<rparr>)) (\<lambda>_. areturn (Revised d a))))"

definition acquire_instrument ::
  "Surroundings \<Rightarrow> string \<Rightarrow> market_db \<Rightarrow> CanonicalInstrument \<Rightarrow> InstrumentState \<Rightarrow> acquired_step acquiring" where
  "acquire_instrument en dir db ins st =
     abind (aset (\<lambda>s. s\<lparr>aq_failed_key := Some (i_key ins), aq_failed := [i_key ins]\<rparr>)) (\<lambda>_.
     abind (identity_checks en dir ins) (\<lambda>_.
     abind (alift (overlap_start st ins db)) (\<lambda>start.
     abind (fetch_pages en (save_page en dir ins) ins ''From'' start) (\<lambda>_. \<lambda>s.
       let bars = finalize_etf_terminal_bar ins st db (merge_pages (aq_pages s))
       in abind (alift (check_bars (en_now en) bars)) (\<lambda>seen.
          case (st_version st, seen) of
            (Some old_version, Some new_version) \<Rightarrow>
              if new_version \<noteq> old_version then record_detection en dir db ins st bars old_version new_version
              else areturn (Fetched \<lparr> ac_registry = ins, ac_state = st, ac_bars = bars \<rparr>)
          | _ \<Rightarrow> areturn (Fetched \<lparr> ac_registry = ins, ac_state = st, ac_bars = bars \<rparr>)) s))))"

text \<open>The loop over the registry stops at the first revised series.\<close>

datatype acquisition_end = AllFetched "AcquiredInstrument list" | RevisionFound RevisionDetection

fun acquire_all ::
  "Surroundings \<Rightarrow> string \<Rightarrow> market_db \<Rightarrow> ((int \<times> string) \<times> InstrumentState) list \<Rightarrow> CanonicalInstrument list \<Rightarrow>
   AcquiredInstrument list \<Rightarrow> acquisition_end acquiring" where
  "acquire_all en dir db states [] got = areturn (AllFetched got)"
| "acquire_all en dir db states (ins # rest) got =
     (case map_of states (i_uic ins, i_asset_type ins) of
        None \<Rightarrow> alift (Inl KeyError)
      | Some st \<Rightarrow>
          abind (acquire_instrument en dir db ins st) (\<lambda>step.
            case step of
              Fetched a \<Rightarrow> acquire_all en dir db states rest (got @ [a])
            | Revised d a \<Rightarrow> areturn (RevisionFound d)))"

section \<open>The end of a run\<close>

record RunSummary =
  rr_run_id :: string
  rr_db_run :: int
  rr_status :: string
  rr_error :: "string option"
  rr_failed_key :: "string option"
  rr_instrument :: "string option"
  rr_manifest :: string
  rr_result :: run_outcome

definition set_manifest_sha :: "int \<Rightarrow> string \<Rightarrow> market_db \<Rightarrow> exn + market_db" where
  "set_manifest_sha run sha db =
     (if sha256_ok sha
      then Inr (db\<lparr>runs := map (\<lambda>r. if rn_id r = run then r\<lparr>rn_manifest_sha256 := Some sha\<rparr> else r) (runs db)\<rparr>)
      else Inl (DatabaseError ''CHECK_VIOLATION''))"

text \<open>\<open>_failed_instrument_context\<close>.\<close>

definition failed_context :: "string \<Rightarrow> string option \<Rightarrow> string option" where
  "failed_context status k = (if status = ''PASS'' then None else k)"

definition run_manifest_of ::
  "string \<Rightarrow> int \<Rightarrow> string \<Rightarrow> string option \<Rightarrow> string option \<Rightarrow> nat \<Rightarrow> run_outcome \<Rightarrow> Acquisition \<Rightarrow> RunManifest" where
  "run_manifest_of run_id db_run status err k successful result s = \<lparr> mf_run_id = run_id, mf_db_run = db_run,
     mf_status = status, mf_error = err, mf_failed_key = failed_context status k, mf_smoke = aq_smoke s,
     mf_successful = successful, mf_client = aq_client s, mf_artifacts = aq_all s, mf_result = result \<rparr>"

definition write_run_manifest :: "Surroundings \<Rightarrow> string \<Rightarrow> RunManifest \<Rightarrow> market_db \<Rightarrow> exn + string \<times> market_db" where
  "write_run_manifest en dir m db =
     ebind (set_manifest_sha (mf_db_run m) (fst (en_manifest_digest en m)) db) (\<lambda>db'.
       Inr (dir @ ''/run_manifest.json'', db'))"

text \<open>The common ending: the manifest is written on every path and the summary returned.\<close>

definition finish_with ::
  "Surroundings \<Rightarrow> string \<Rightarrow> string \<Rightarrow> int \<Rightarrow> string \<Rightarrow> string option \<Rightarrow> string option \<Rightarrow> string option \<Rightarrow> string option \<Rightarrow>
   nat \<Rightarrow> run_outcome \<Rightarrow> Acquisition \<Rightarrow> market_db \<Rightarrow> (exn + RunSummary) \<times> market_db" where
  "finish_with en dir run_id db_run status err manifest_key returned_key ins successful result s db =
     (case write_run_manifest en dir (run_manifest_of run_id db_run status err manifest_key successful result s) db of
        Inl e \<Rightarrow> (Inl e, db)
      | Inr (path, db') \<Rightarrow>
          (Inr \<lparr> rr_run_id = run_id, rr_db_run = db_run, rr_status = status, rr_error = err,
                 rr_failed_key = failed_context status returned_key, rr_instrument = ins, rr_manifest = path,
                 rr_result = result \<rparr>, db'))"

section \<open>An incremental run\<close>

definition acquire_registry ::
  "Surroundings \<Rightarrow> string \<Rightarrow> market_db \<Rightarrow> bool \<Rightarrow> CanonicalInstrument list \<Rightarrow> acquisition_end acquiring" where
  "acquire_registry en dir db perform_smoke registry =
     abind (take_client (en_client en)) (\<lambda>_.
     abind (if perform_smoke then smoke en else areturn ()) (\<lambda>_.
     let states = load_states db;
         missing = filter (\<lambda>i. map_of states (i_uic i, i_asset_type i) = None) registry
     in case missing of
          [] \<Rightarrow> acquire_all en dir db states registry []
        | m # ms \<Rightarrow>
            abind (aset (\<lambda>s. s\<lparr>aq_failed := map i_key missing, aq_failed_key := Some (i_key m)\<rparr>)) (\<lambda>_.
              alift (Inl (BarQualityError ''BLOCKED_CANONICAL_WATERMARK_SET'')))))"

definition commit_request :: "DatasetContract \<Rightarrow> AcquiredInstrument list \<Rightarrow> Acquisition \<Rightarrow> CommitRequest" where
  "commit_request k got s = \<lparr> cr_acquired = got, cr_artifacts = aq_charts s, cr_replace = None,
     cr_quarantined = [], cr_dataset = dc_id k, cr_bootstrap = False, cr_approved = None \<rparr>"

text \<open>The database end of the \<open>try\<close> block: the commit or the warning.\<close>

definition end_in_database ::
  "Surroundings \<Rightarrow> int \<Rightarrow> DatasetContract \<Rightarrow> acquisition_end \<Rightarrow> Acquisition \<Rightarrow> market_db \<Rightarrow> (exn + run_outcome) \<times> market_db" where
  "end_in_database en run k found s db =
     (case found of
        AllFetched got \<Rightarrow>
          (case commit_acquired (en_digest en) (en_migrated en) (en_now en) run (commit_request k got s) db of
             (r, db') \<Rightarrow> (map_sum id Committed r, db'))
      | RevisionFound d \<Rightarrow>
          (case record_revision_warning (en_file_sha en) (en_now en) run (aq_charts s) d k db of
             (r, db') \<Rightarrow> (map_sum id Warned r, db')))"

definition successful_series :: "acquisition_end \<Rightarrow> nat" where
  "successful_series found = (case found of AllFetched got \<Rightarrow> length got | RevisionFound d \<Rightarrow> 0)"

definition warned_instrument :: "run_outcome \<Rightarrow> string option" where
  "warned_instrument r = (case r of Warned w \<Rightarrow> Some (wr_key w) | _ \<Rightarrow> None)"

definition incremental_attempt ::
  "Surroundings \<Rightarrow> string \<Rightarrow> int \<Rightarrow> DatasetContract \<Rightarrow> bool \<Rightarrow> CanonicalInstrument list \<Rightarrow> market_db \<Rightarrow>
   (exn + run_outcome \<times> nat) \<times> Acquisition \<times> market_db" where
  "incremental_attempt en dir run k perform_smoke registry db =
     (case acquire_registry en dir db perform_smoke registry (start_acquisition [] None) of
        (Inl e, s) \<Rightarrow> (Inl e, s, db)
      | (Inr found, s) \<Rightarrow>
          (case end_in_database en run k found s db of
             (Inl e, db') \<Rightarrow> (Inl e, s, db')
           | (Inr result, db') \<Rightarrow> (Inr (result, successful_series found), s, db')))"

definition prepare_run ::
  "Surroundings \<Rightarrow> string list option \<Rightarrow> exn + CanonicalInstrument list \<times> DatasetContract \<times> string \<times> string" where
  "prepare_run en keys =
     ebind (select_instruments (en_canonical en) (en_candidates en) keys) (\<lambda>registry.
     ebind (dataset_contract registry) (\<lambda>k.
     ebind (utc_run_id (en_stamp en) (en_suffix en)) (\<lambda>run_id.
     ebind (run_artifacts run_id) (\<lambda>dir. Inr (registry, k, run_id, dir)))))"

definition end_attempt ::
  "Surroundings \<Rightarrow> string \<Rightarrow> string \<Rightarrow> int \<Rightarrow> DatasetContract \<Rightarrow>
   (exn + run_outcome \<times> nat) \<times> Acquisition \<times> market_db \<Rightarrow> (exn + RunSummary) \<times> market_db" where
  "end_attempt en dir run_id run k attempt =
     (case attempt of
        (Inr (result, successful), s, db) \<Rightarrow>
          finish_with en dir run_id run ''PASS'' None (aq_failed_key s) (aq_failed_key s)
            (warned_instrument result) successful result s db
      | (Inl e, s, db) \<Rightarrow>
          let code = error_code e
          in case record_failure (en_file_sha en) (en_now en) run code (aq_charts s) (aq_failed s)
                    (aq_detection s) k db of
               (Inl e', db') \<Rightarrow> (Inl e', db')
             | (Inr _, db') \<Rightarrow>
                 finish_with en dir run_id run (failure_status code) (Some code) (aq_failed_key s)
                   (aq_failed_key s) None 0 NoResult s db')"

definition run_incremental ::
  "Surroundings \<Rightarrow> string list option \<Rightarrow> string \<Rightarrow> bool \<Rightarrow> market_db \<Rightarrow> (exn + RunSummary) \<times> market_db" where
  "run_incremental en keys trigger perform_smoke db =
     (case prepare_run en keys of
        Inl e \<Rightarrow> (Inl e, db)
      | Inr (registry, k, run_id, dir) \<Rightarrow>
          (case create_run (en_file_sha en) run_id registry trigger db of
             (Inl e, db1) \<Rightarrow> (Inl e, db1)
           | (Inr run, db1) \<Rightarrow>
               end_attempt en dir run_id run k (incremental_attempt en dir run k perform_smoke registry db1)))"

section \<open>A full refetch\<close>

definition observed_times :: "NormalizedBar list \<Rightarrow> RejectedBar list \<Rightarrow> utc list" where
  "observed_times bars rejected = map bar_time bars @ map (\<lambda>r. instant (r_time_utc r)) rejected"

definition refetch_versions :: "NormalizedBar list \<Rightarrow> RejectedBar list \<Rightarrow> int list" where
  "refetch_versions bars rejected = remdups (List.map_filter data_version bars @ List.map_filter r_data_version rejected)"

definition check_refetch :: "utc \<Rightarrow> NormalizedBar list \<Rightarrow> RejectedBar list \<Rightarrow> exn + unit" where
  "check_refetch existing_min bars rejected =
     (if length bars < 2 \<or> existing_min < Min (set (observed_times bars rejected))
      then Inl (BarQualityError ''BLOCKED_FULL_REFETCH_HISTORY_TRUNCATED'')
      else if length (refetch_versions bars rejected) \<noteq> 1
      then Inl (BarQualityError ''MULTIPLE_DATA_VERSIONS_IN_RUN'')
      else Inr ())"

definition acquire_history ::
  "Surroundings \<Rightarrow> string \<Rightarrow> market_db \<Rightarrow> CanonicalInstrument \<Rightarrow> (AcquiredInstrument \<times> RejectedBar list) acquiring" where
  "acquire_history en dir db ins =
     abind (alift (load_full_refetch_state ins db)) (\<lambda>(st, existing_min).
     abind (take_client (en_client en)) (\<lambda>_.
     abind (smoke en) (\<lambda>_.
     abind (identity_checks en dir ins) (\<lambda>_.
     abind (fetch_pages en (save_quarantining_page en dir ins) ins ''UpTo'' (en_now en)) (\<lambda>_. \<lambda>s.
       let bars = finalize_etf_terminal_bar ins st db (merge_pages (aq_pages s))
       in abind (alift (validate_full_refetch_quarantine (en_digest en) (map time_utc bars) (concat (aq_rejected s)) None))
            (\<lambda>rejected. abind (alift (check_refetch existing_min bars rejected))
               (\<lambda>_. areturn (\<lparr> ac_registry = ins, ac_state = st, ac_bars = bars \<rparr>, rejected))) s)))))"

definition refetch_request :: "AcquiredInstrument \<Rightarrow> RejectedBar list \<Rightarrow> Acquisition \<Rightarrow> CommitRequest" where
  "refetch_request a rejected s = \<lparr> cr_acquired = [a], cr_artifacts = aq_charts s,
     cr_replace = Some (st_instrument (ac_state a)), cr_quarantined = rejected, cr_dataset = dataset_id,
     cr_bootstrap = False, cr_approved = None \<rparr>"

definition refetch_attempt ::
  "Surroundings \<Rightarrow> string \<Rightarrow> int \<Rightarrow> CanonicalInstrument \<Rightarrow> market_db \<Rightarrow> (exn + run_outcome) \<times> Acquisition \<times> market_db" where
  "refetch_attempt en dir run ins db =
     (case acquire_history en dir db ins (start_acquisition [i_key ins] None) of
        (Inl e, s) \<Rightarrow> (Inl e, s, db)
      | (Inr (a, rejected), s) \<Rightarrow>
          (case commit_acquired (en_digest en) (en_migrated en) (en_now en) run (refetch_request a rejected s) db of
             (r, db') \<Rightarrow> (map_sum id Committed r, s, db')))"

definition end_refetch ::
  "Surroundings \<Rightarrow> string \<Rightarrow> string \<Rightarrow> int \<Rightarrow> CanonicalInstrument \<Rightarrow>
   (exn + run_outcome) \<times> Acquisition \<times> market_db \<Rightarrow> (exn + RunSummary) \<times> market_db" where
  "end_refetch en dir run_id run ins attempt =
     (case attempt of
        (Inr result, s, db) \<Rightarrow>
          finish_with en dir run_id run ''PASS'' None None None (Some (i_key ins)) 1 result s db
      | (Inl e, s, db) \<Rightarrow>
          let code = error_code e
          in case record_failure (en_file_sha en) (en_now en) run code (aq_charts s) (aq_failed s)
                    None canonical_contract db of
               (Inl e', db') \<Rightarrow> (Inl e', db')
             | (Inr _, db') \<Rightarrow>
                 finish_with en dir run_id run (failure_status code) (Some code) None None
                   (Some (i_key ins)) 0 NoResult s db')"

definition run_full_refetch ::
  "Surroundings \<Rightarrow> string \<Rightarrow> string \<Rightarrow> market_db \<Rightarrow> (exn + RunSummary) \<times> market_db" where
  "run_full_refetch en k trigger db =
     (case ebind (instrument_of_key (en_canonical en) k) (\<lambda>ins.
           ebind (utc_run_id (en_stamp en) (en_suffix en)) (\<lambda>run_id.
           ebind (run_artifacts run_id) (\<lambda>dir. Inr (ins, run_id, dir)))) of
        Inl e \<Rightarrow> (Inl e, db)
      | Inr (ins, run_id, dir) \<Rightarrow>
          (case create_run (en_file_sha en) run_id [ins] trigger db of
             (Inl e, db1) \<Rightarrow> (Inl e, db1)
           | (Inr run, db1) \<Rightarrow> end_refetch en dir run_id run ins (refetch_attempt en dir run ins db1)))"

section \<open>What an acquisition delivers\<close>

text \<open>An acquired series fit for a commit: an active watermark, complete bars, one version and no other
  than the accepted one.\<close>

definition acquired_ok :: "utc \<Rightarrow> market_db \<Rightarrow> AcquiredInstrument \<Rightarrow> bool" where
  "acquired_ok now db a =
     (map_of (load_states db) (i_uic (ac_registry a), i_asset_type (ac_registry a)) = Some (ac_state a)
      \<and> st_status (ac_state a) = ''ACTIVE''
      \<and> 2 \<le> length (ac_bars a) \<and> list_ex is_complete (ac_bars a)
      \<and> list_all (\<lambda>b. is_complete b \<longrightarrow> bar_time b \<le> now) (ac_bars a)
      \<and> (\<forall>b v w. b \<in> set (ac_bars a) \<and> data_version b = Some v \<and> st_version (ac_state a) = Some w \<longrightarrow> v = w))"

lemma loaded_states_active:
  assumes "map_of (load_states db) k = Some st"
  shows "st_status st = ''ACTIVE''"
proof -
  have "(k, st) \<in> set (load_states db)" using assms by (rule map_of_SomeD)
  then show ?thesis by (auto simp: load_states_def state_of_def)
qed

lemma bar_versions_mem: "b \<in> set bars \<Longrightarrow> data_version b = Some v \<Longrightarrow> v \<in> set (bar_versions bars)"
  by (force simp: bar_versions_def List.map_filter_def)

lemma check_bars_parts:
  assumes "check_bars now bars = Inr seen"
  shows "2 \<le> length bars" "list_ex is_complete bars" "list_all (\<lambda>b. is_complete b \<longrightarrow> bar_time b \<le> now) bars"
    "b \<in> set bars \<Longrightarrow> data_version b = Some v \<Longrightarrow> seen = Some v"
proof -
  have c: "\<not> (length bars < 2 \<or> \<not> list_ex is_complete bars)" "\<not> 1 < length (bar_versions bars)"
      "\<not> list_ex (\<lambda>b. is_complete b \<and> now < bar_time b) bars"
      "seen = (case bar_versions bars of [] \<Rightarrow> None | v # _ \<Rightarrow> Some v)"
    using assms by (auto simp: check_bars_def Let_def split: if_splits)
  show "2 \<le> length bars" "list_ex is_complete bars" using c(1) by auto
  show "list_all (\<lambda>b. is_complete b \<longrightarrow> bar_time b \<le> now) bars"
    using c(3) by (auto simp: list_all_iff list_ex_iff not_less)
  show "seen = Some v" if "b \<in> set bars" "data_version b = Some v"
    using bar_versions_mem [OF that] c(2,4) by (cases "bar_versions bars") auto
qed

lemma acquired_instrument_ok:
  assumes "acquire_instrument en dir db ins st s = (Inr (Fetched a), s')"
    and "map_of (load_states db) (i_uic ins, i_asset_type ins) = Some st"
  shows "ac_registry a = ins \<and> acquired_ok (en_now en) db a"
proof -
  obtain bars seen t where k: "check_bars (en_now en) bars = Inr seen"
      "(case (st_version st, seen) of
            (Some old_version, Some new_version) \<Rightarrow>
              if new_version \<noteq> old_version then record_detection en dir db ins st bars old_version new_version
              else areturn (Fetched \<lparr> ac_registry = ins, ac_state = st, ac_bars = bars \<rparr>)
          | _ \<Rightarrow> areturn (Fetched \<lparr> ac_registry = ins, ac_state = st, ac_bars = bars \<rparr>)) t = (Inr (Fetched a), s')"
    using assms(1) unfolding acquire_instrument_def abind_Inr Let_def alift_Inr by blast
  have not: "record_detection en dir db ins st bars v w t \<noteq> (Inr (Fetched a), s')" for v w
    by (simp add: record_detection_def abind_Inr Let_def)
  have b: "check_bars (en_now en) bars = Inr seen" "a = \<lparr> ac_registry = ins, ac_state = st, ac_bars = bars \<rparr>"
      "\<And>v w. st_version st = Some w \<Longrightarrow> seen = Some v \<Longrightarrow> v = w"
    using k not by (cases "st_version st"; cases seen; simp split: if_splits)+
  note c = check_bars_parts [OF b(1)]
  have "v = w" if "x \<in> set bars" "data_version x = Some v" "st_version st = Some w" for x v w
    using c(4) [OF that(1,2)] b(3) that(3) by blast
  then show ?thesis using b(2) c(1-3) assms(2) loaded_states_active [OF assms(2)]
    by (auto simp: acquired_ok_def)
qed

lemma acquired_all_ok:
  assumes "acquire_all en dir db (load_states db) registry got s = (Inr (AllFetched res), s')"
    and "\<forall>a \<in> set got. acquired_ok (en_now en) db a"
  shows "map ac_registry res = map ac_registry got @ registry \<and> (\<forall>a \<in> set res. acquired_ok (en_now en) db a)"
  using assms
proof (induction registry arbitrary: got s)
  case (Cons ins rest)
  obtain st step t where p: "map_of (load_states db) (i_uic ins, i_asset_type ins) = Some st"
      "acquire_instrument en dir db ins st s = (Inr step, t)"
      "(case step of Fetched a \<Rightarrow> acquire_all en dir db (load_states db) rest (got @ [a])
          | Revised d a \<Rightarrow> areturn (RevisionFound d)) t = (Inr (AllFetched res), s')"
    using Cons.prems(1) by (auto simp: abind_Inr alift_def split: option.splits)
  obtain a where a: "step = Fetched a" using p(3) by (cases step) auto
  note ok = acquired_instrument_ok [OF p(2) [unfolded a] p(1)]
  show ?case using Cons.IH [OF p(3) [unfolded a acquired_step.case]] ok Cons.prems(2) by auto
qed simp

lemma acquired_registry_ok:
  assumes "acquire_registry en dir db perform_smoke registry s = (Inr (AllFetched res), s')"
  shows "map ac_registry res = registry \<and> (\<forall>a \<in> set res. acquired_ok (en_now en) db a)"
proof -
  obtain t where "acquire_all en dir db (load_states db) registry [] t = (Inr (AllFetched res), s')"
    using assms by (auto simp: acquire_registry_def abind_Inr Let_def split: list.splits)
  from acquired_all_ok [OF this] show ?thesis by simp
qed

section \<open>How a run ends\<close>

text \<open>The same market rows: everything an analysis reads, whatever the bookkeeping of runs and scopes.\<close>

definition same_rows :: "market_db \<Rightarrow> market_db \<Rightarrow> bool" where
  "same_rows a b = (catalog a = catalog b \<and> staging a = staging b \<and> raw_bars a = raw_bars b
     \<and> curated a = curated b \<and> derived a = derived b \<and> imputations a = imputations b
     \<and> imputation_scope a = imputation_scope b)"

lemma same_rows_trans: "same_rows a b \<Longrightarrow> same_rows b c \<Longrightarrow> same_rows a c"
  by (simp add: same_rows_def)

lemma same_market_rows: "same_market_data a b \<Longrightarrow> same_rows a b"
  by (simp add: same_rows_def same_market_data_def)

lemma set_manifest_frame: "set_manifest_sha run sha db = Inr db' \<Longrightarrow> db' = db\<lparr>runs := runs db'\<rparr>"
  by (auto simp: set_manifest_sha_def split: if_splits)

lemma created_run_frame:
  assumes "create_run file_sha run_id registry trigger db = (Inr run, db1)"
  shows "same_rows db db1 \<and> watermarks db1 = watermarks db \<and> revision_steps db1 = revision_steps db \<and> market_wf db1 = market_wf db
     \<and> run = fresh_id rn_id (runs db) \<and> runs db1 = runs db @ [new_run run trigger run_id]"
  using assms by (auto simp: create_run_def transaction_commit create_run_body_def Let_def ebind_eq_Inr
      same_rows_def market_wf_def)

lemma finished_run:
  assumes "finish_with en dir run_id run status err k1 k2 ins n result s db = (Inr r, db')"
  shows "rr_status r = status \<and> rr_error r = err \<and> rr_result r = result \<and> rr_db_run r = run
     \<and> rr_failed_key r = failed_context status k2 \<and> rr_instrument r = ins \<and> db' = db\<lparr>runs := runs db'\<rparr>"
  using assms set_manifest_frame
  by (fastforce simp: finish_with_def write_run_manifest_def ebind_eq_Inr split: sum.splits prod.splits)

lemma runs_only:
  assumes "db' = db\<lparr>runs := runs db'\<rparr>"
  shows "same_rows db db'" "watermarks db' = watermarks db" "revision_steps db' = revision_steps db"
  by (subst assms, simp add: same_rows_def)+

lemma runs_only_chain: "b = a\<lparr>runs := runs b\<rparr> \<Longrightarrow> c = b\<lparr>runs := runs c\<rparr> \<Longrightarrow> c = a\<lparr>runs := runs c\<rparr>"
  by (cases a; cases b; cases c) simp

lemma map_sum_eq:
  "map_sum id g r = Inl e \<longleftrightarrow> r = Inl e" "map_sum f g r = Inr v \<longleftrightarrow> (\<exists>x. r = Inr x \<and> v = g x)"
  "Inr v = map_sum f g r \<longleftrightarrow> (\<exists>x. r = Inr x \<and> v = g x)" "Inl e = map_sum id g r \<longleftrightarrow> r = Inl e"
  by (cases r; auto)+

text \<open>The two shapes of an early return.\<close>

lemma case_value: "(case x of Inl e \<Rightarrow> (Inl e, d) | Inr y \<Rightarrow> f y) = (Inr r, d') \<longleftrightarrow> (\<exists>y. x = Inr y \<and> f y = (Inr r, d'))"
  by (cases x) auto

lemma case_state: "(case p of (Inl e, d) \<Rightarrow> (Inl e, d) | (Inr v, d) \<Rightarrow> f v d) = (Inr r, d')
    \<longleftrightarrow> (\<exists>v d. p = (Inr v, d) \<and> f v d = (Inr r, d'))"
  by (auto split: prod.splits sum.splits)

lemma end_in_database_fetched:
  assumes "end_in_database en run k (AllFetched got) s db = (res, db')"
  obtains q where "commit_acquired (en_digest en) (en_migrated en) (en_now en) run (commit_request k got s) db = (q, db')"
    and "res = map_sum id Committed q"
  using assms by (cases "commit_acquired (en_digest en) (en_migrated en) (en_now en) run (commit_request k got s) db")
    (simp add: end_in_database_def)

lemma end_in_database_revised:
  assumes "end_in_database en run k (RevisionFound d) s db = (res, db')"
  obtains q where "record_revision_warning (en_file_sha en) (en_now en) run (aq_charts s) d k db = (q, db')"
    and "res = map_sum id Warned q"
  using assms by (cases "record_revision_warning (en_file_sha en) (en_now en) run (aq_charts s) d k db")
    (simp add: end_in_database_def)

text \<open>The four endings of the database part of a run.\<close>

definition committed_end ::
  "utc \<Rightarrow> CanonicalInstrument list \<Rightarrow> int \<Rightarrow> CommitResult \<Rightarrow> market_db \<Rightarrow> market_db \<Rightarrow> bool" where
  "committed_end now registry run m db db' =
     (\<exists>c ss dbc. map ac_registry (cr_acquired c) = registry \<and> list_all (acquired_ok now db) (cr_acquired c)
        \<and> cr_replace c = None \<and> commit_effect now run c ss m db dbc \<and> market_wf dbc \<and> db' = dbc\<lparr>runs := runs db'\<rparr>)"

lemma incremental_attempt_ends:
  assumes "incremental_attempt en dir run k sm registry db = (Inr (result, n), s, db')" and "market_wf db"
  shows "case result of
      Committed m \<Rightarrow> committed_end (en_now en) registry run m db db' \<and> n = length registry
    | Warned w \<Rightarrow> same_rows db db' \<and> watermarks db' = watermarks db \<and> n = 0
        \<and> (\<exists>stp. revision_steps db' = revision_steps db @ [stp] \<and> rs_event stp = wr_event w)
    | _ \<Rightarrow> False"
proof -
  obtain found where f: "acquire_registry en dir db sm registry (start_acquisition [] None) = (Inr found, s)"
      "end_in_database en run k found s db = (Inr result, db')" "n = successful_series found"
    using assms(1) by (auto simp: incremental_attempt_def split: prod.splits sum.splits)
  show ?thesis
  proof (cases found)
    case (AllFetched got)
    obtain m where m: "result = Committed m"
        "commit_acquired (en_digest en) (en_migrated en) (en_now en) run (commit_request k got s) db = (Inr m, db')"
      using f(2) unfolding AllFetched by (elim end_in_database_fetched) (auto simp: map_sum_eq)
    note g = acquired_registry_ok [OF f(1) [unfolded AllFetched]]
    obtain ss where "market_wf db'" "commit_effect (en_now en) run (commit_request k got s) ss m db db'"
      using commit_acquired_cases [OF assms(2) m(2)] by auto
    then have "committed_end (en_now en) registry run m db db'"
      unfolding committed_end_def using g
      by (intro exI [of _ "commit_request k got s"] exI [of _ ss] exI [of _ db'])
        (auto simp: commit_request_def list_all_iff)
    then show ?thesis using m(1) f(3) AllFetched g by (auto simp: successful_series_def)
  next
    case (RevisionFound d)
    obtain w where w: "result = Warned w"
        "record_revision_warning (en_file_sha en) (en_now en) run (aq_charts s) d k db = (Inr w, db')"
      using f(2) unfolding RevisionFound by (elim end_in_database_revised) (auto simp: map_sum_eq)
    note e = warning_effect [OF w(2)]
    show ?thesis using same_market_rows [OF e(1)] e(2,4) by (simp add: w(1) f(3) RevisionFound successful_series_def)
  qed
qed

lemma incremental_attempt_fails:
  assumes "incremental_attempt en dir run k sm registry db = (Inl e, s, db')" and "market_wf db"
  shows "same_rows db db' \<and> watermarks db' = watermarks db"
proof (cases "acquire_registry en dir db sm registry (start_acquisition [] None)")
  case (Pair q t)
  show ?thesis
  proof (cases q)
    case (Inl x)
    have "incremental_attempt en dir run k sm registry db = (Inl x, t, db)"
      by (simp add: incremental_attempt_def Pair Inl)
    then have "db' = db" using assms(1) by simp
    then show ?thesis by (simp add: same_rows_def)
  next
    case (Inr found)
    then have "end_in_database en run k found s db = (Inl e, db')"
      using assms(1) Pair by (auto simp: incremental_attempt_def split: prod.splits sum.splits)
    then have "db' = db"
    proof (cases found)
      case (AllFetched got)
      with \<open>end_in_database _ _ _ _ _ _ = _\<close> show ?thesis
        using commit_acquired_cases [OF assms(2)] by (fastforce simp: map_sum_eq elim: end_in_database_fetched)
    next
      case (RevisionFound d)
      with \<open>end_in_database _ _ _ _ _ _ = _\<close> show ?thesis
        using warning_effect(4) by (fastforce simp: map_sum_eq elim: end_in_database_revised)
    qed
    then show ?thesis by (simp add: same_rows_def)
  qed
qed

text \<open>C2: The summary of an incremental run tells the truth about the database. The run row is created
  for exactly the selected registry. If the summary holds a commit, the status is PASS and every
  registered instrument was acquired with an active watermark, at least two bars, one of them
  complete, none completed in the future and no version other than the accepted one, and the tables
  are those of one exact commit. If it holds a warning, the status is PASS, the warned instrument is
  named, its step is stored and no market row and no watermark moved. Else it carries an error code whose status is
  BLOCKED or FAILED, no market row moved, and watermarks were at most marked stale.\<close>

theorem run_incremental_outcome:
  assumes "market_wf db" and "run_incremental en keys trigger sm db = (Inr r, db')"
  shows "\<exists>registry run_id db1. select_instruments (en_canonical en) (en_candidates en) keys = Inr registry
    \<and> create_run (en_file_sha en) run_id registry trigger db = (Inr (rr_db_run r), db1)
    \<and> (case rr_result r of
         Committed m \<Rightarrow> rr_status r = ''PASS'' \<and> rr_error r = None
           \<and> committed_end (en_now en) registry (rr_db_run r) m db1 db'
       | Warned w \<Rightarrow> rr_status r = ''PASS'' \<and> rr_error r = None \<and> rr_instrument r = Some (wr_key w)
           \<and> same_rows db db' \<and> watermarks db' = watermarks db
           \<and> (\<exists>stp. revision_steps db' = revision_steps db @ [stp] \<and> rs_event stp = wr_event w)
       | NoResult \<Rightarrow> (\<exists>code. rr_error r = Some code \<and> rr_status r = failure_status code)
           \<and> same_rows db db' \<and> list_all2 only_status (watermarks db) (watermarks db')
       | _ \<Rightarrow> False)"
proof -
  obtain registry k run_id dir run db1 where p: "prepare_run en keys = Inr (registry, k, run_id, dir)"
    and c: "create_run (en_file_sha en) run_id registry trigger db = (Inr run, db1)"
    and att: "end_attempt en dir run_id run k (incremental_attempt en dir run k sm registry db1) = (Inr r, db')"
    using assms(2) by (auto simp: run_incremental_def case_value case_state)
  have sel: "select_instruments (en_canonical en) (en_candidates en) keys = Inr registry"
    using p by (auto simp: prepare_run_def ebind_eq_Inr)
  note cr = created_run_frame [OF c]
  obtain q s db2 where a: "incremental_attempt en dir run k sm registry db1 = (q, s, db2)"
    using prod_cases3 by blast
  have wf1: "market_wf db1" using cr assms(1) by simp
  show ?thesis
  proof (cases q)
    case (Inr x)
    obtain result n where x: "x = (result, n)" by (cases x)
    have fin: "finish_with en dir run_id run ''PASS'' None (aq_failed_key s) (aq_failed_key s)
        (warned_instrument result) n result s db2 = (Inr r, db')"
      using att a Inr x by (simp add: end_attempt_def)
    note f = finished_run [OF fin] and e = incremental_attempt_ends [OF a [unfolded Inr x] wf1]
    have run: "rr_db_run r = run" and res: "rr_result r = result" using f by simp_all
    have "case rr_result r of
         Committed m \<Rightarrow> rr_status r = ''PASS'' \<and> rr_error r = None \<and> committed_end (en_now en) registry run m db1 db'
       | Warned w \<Rightarrow> rr_status r = ''PASS'' \<and> rr_error r = None \<and> rr_instrument r = Some (wr_key w)
           \<and> same_rows db db' \<and> watermarks db' = watermarks db
           \<and> (\<exists>stp. revision_steps db' = revision_steps db @ [stp] \<and> rs_event stp = wr_event w)
       | NoResult \<Rightarrow> (\<exists>code. rr_error r = Some code \<and> rr_status r = failure_status code)
           \<and> same_rows db db' \<and> list_all2 only_status (watermarks db) (watermarks db')
       | _ \<Rightarrow> False"
    proof (cases result)
      case (Committed m)
      then have "committed_end (en_now en) registry run m db1 db2" using e by simp
      then have "committed_end (en_now en) registry run m db1 db'"
        using f unfolding committed_end_def by (metis runs_only_chain)
      then show ?thesis using Committed f by simp
    next
      case (Warned w)
      have "same_rows db2 db'" "watermarks db' = watermarks db2" "revision_steps db' = revision_steps db2"
        using f runs_only [of db' db2] by simp_all
      then show ?thesis using Warned e f cr by (auto simp: warned_instrument_def intro: same_rows_trans)
    qed (use e in simp_all)
    then show ?thesis using sel c run by blast
  next
    case (Inl e)
    obtain db3 where f: "record_failure (en_file_sha en) (en_now en) run (error_code e) (aq_charts s) (aq_failed s)
           (aq_detection s) k db2 = (Inr (), db3)"
        "finish_with en dir run_id run (failure_status (error_code e)) (Some (error_code e)) (aq_failed_key s)
           (aq_failed_key s) None 0 NoResult s db3 = (Inr r, db')"
      using att a Inl by (auto simp: end_attempt_def Let_def case_state)
    note g = finished_run [OF f(2)] and h = failure_effect [OF f(1)]
      and i = incremental_attempt_fails [OF a [unfolded Inl] wf1]
    have "same_rows db3 db'" "watermarks db' = watermarks db3" using g runs_only [of db' db3] by simp_all
    then have "same_rows db db' \<and> list_all2 only_status (watermarks db) (watermarks db')"
      using i cr h(2) same_market_rows [OF h(1)] by (metis same_rows_trans)
    then show ?thesis using sel c g by (intro exI [of _ registry] exI [of _ run_id] exI [of _ db1]) simp
  qed
qed

text \<open>The end of a successful full refetch.\<close>

definition refetched_end ::
  "utc \<Rightarrow> CanonicalInstrument \<Rightarrow> int \<Rightarrow> CommitResult \<Rightarrow> market_db \<Rightarrow> market_db \<Rightarrow> bool" where
  "refetched_end now ins run m db db' =
     (\<exists>c a rejected existing_min version ss dbc.
        load_full_refetch_state ins db = Inr (ac_state a, existing_min) \<and> ac_registry a = ins
        \<and> cr_acquired c = [a] \<and> cr_replace c = Some (st_instrument (ac_state a)) \<and> cr_quarantined c = rejected
        \<and> 2 \<le> length (ac_bars a) \<and> (\<exists>t \<in> set (observed_times (ac_bars a) rejected). t \<le> existing_min)
        \<and> refetch_versions (ac_bars a) rejected = [version]
        \<and> commit_effect now run c ss m db dbc \<and> market_wf dbc \<and> db' = dbc\<lparr>runs := runs db'\<rparr>)"

lemma check_refetch_parts:
  assumes "check_refetch existing_min bars rejected = Inr u"
  shows "2 \<le> length bars \<and> (\<exists>t \<in> set (observed_times bars rejected). t \<le> existing_min)
    \<and> (\<exists>v. refetch_versions bars rejected = [v])"
proof -
  have c: "2 \<le> length bars" "Min (set (observed_times bars rejected)) \<le> existing_min"
      "length (refetch_versions bars rejected) = 1"
    using assms by (auto simp: check_refetch_def not_less split: if_splits)
  have "set (observed_times bars rejected) \<noteq> {}" using c(1) by (cases bars) (auto simp: observed_times_def)
  then have "Min (set (observed_times bars rejected)) \<in> set (observed_times bars rejected)"
    by (intro Min_in) auto
  then show ?thesis using c by (auto simp: length_Suc_conv)
qed

lemma acquired_history:
  assumes "acquire_history en dir db ins s = (Inr (a, rejected), s')"
  shows "\<exists>existing_min. load_full_refetch_state ins db = Inr (ac_state a, existing_min) \<and> ac_registry a = ins
     \<and> check_refetch existing_min (ac_bars a) rejected = Inr ()"
proof -
  obtain st existing_min t where h: "load_full_refetch_state ins db = Inr (st, existing_min)"
    "\<exists>bars. check_refetch existing_min bars rejected = Inr ()
       \<and> a = \<lparr> ac_registry = ins, ac_state = st, ac_bars = bars \<rparr>"
    using assms unfolding acquire_history_def abind_Inr Let_def alift_Inr
    by (clarsimp simp: abind_Inr split: prod.splits)
  then show ?thesis by auto
qed

lemma refetch_attempt_ends:
  assumes "refetch_attempt en dir run ins db = (res, s, db')" and "market_wf db"
  shows "(res = Inl e \<longrightarrow> db' = db)
    \<and> (res = Inr result \<longrightarrow> (\<exists>m. result = Committed m \<and> refetched_end (en_now en) ins run m db db'))"
proof (cases "acquire_history en dir db ins (start_acquisition [i_key ins] None)")
  case (Pair q t)
  show ?thesis
  proof (cases q)
    case (Inl x)
    then show ?thesis using assms(1) Pair by (auto simp: refetch_attempt_def)
  next
    case (Inr y)
    obtain a rejected where y: "y = (a, rejected)" by (cases y)
    obtain p where p: "commit_acquired (en_digest en) (en_migrated en) (en_now en) run (refetch_request a rejected t) db = (p, db')"
        "res = map_sum id Committed p"
      using assms(1) Pair Inr y by (auto simp: refetch_attempt_def split: prod.splits)
    note c = commit_acquired_cases [OF assms(2) p(1)]
    obtain existing_min where h: "load_full_refetch_state ins db = Inr (ac_state a, existing_min)"
        "ac_registry a = ins" "check_refetch existing_min (ac_bars a) rejected = Inr ()"
      using acquired_history [OF Pair [unfolded Inr y]] by blast
    obtain v where v: "refetch_versions (ac_bars a) rejected = [v]" "2 \<le> length (ac_bars a)"
        "\<exists>t \<in> set (observed_times (ac_bars a) rejected). t \<le> existing_min"
      using check_refetch_parts [OF h(3)] by blast
    have "refetched_end (en_now en) ins run m db db'" if m: "p = Inr m" for m
    proof -
      obtain ss where ss: "commit_effect (en_now en) run (refetch_request a rejected t) ss m db db'" "market_wf db'"
        using c m by auto
      show ?thesis
        unfolding refetched_end_def
        by (rule exI [of _ "refetch_request a rejected t"], rule exI [of _ a], rule exI [of _ rejected],
            rule exI [of _ existing_min], rule exI [of _ v], rule exI [of _ ss], rule exI [of _ db'])
          (use ss h v in \<open>simp add: refetch_request_def\<close>)
    qed
    then show ?thesis using c p(2) by (cases p) auto
  qed
qed

text \<open>C20: The summary of a full refetch tells the truth as well. On PASS the provider history reaches back
  at least to the earliest stored bar, has one version, and the commit replaced the rows of this
  instrument only, which the guard of the replacement had to allow. Else no market row moved and the
  status of the error code is returned for the same instrument.\<close>

theorem run_full_refetch_outcome:
  assumes "market_wf db" and "run_full_refetch en k trigger db = (Inr r, db')"
  shows "\<exists>ins run_id db1. instrument_of_key (en_canonical en) k = Inr ins \<and> rr_instrument r = Some (i_key ins)
    \<and> create_run (en_file_sha en) run_id [ins] trigger db = (Inr (rr_db_run r), db1)
    \<and> (case rr_result r of
         Committed m \<Rightarrow> rr_status r = ''PASS'' \<and> refetched_end (en_now en) ins (rr_db_run r) m db1 db'
       | NoResult \<Rightarrow> (\<exists>code. rr_error r = Some code \<and> rr_status r = failure_status code)
           \<and> same_rows db db' \<and> list_all2 only_status (watermarks db) (watermarks db')
       | _ \<Rightarrow> False)"
proof -
  obtain ins run_id dir run db1 where i: "instrument_of_key (en_canonical en) k = Inr ins"
    and c: "create_run (en_file_sha en) run_id [ins] trigger db = (Inr run, db1)"
    and att: "end_refetch en dir run_id run ins (refetch_attempt en dir run ins db1) = (Inr r, db')"
    using assms(2) by (auto simp: run_full_refetch_def case_value case_state ebind_eq_Inr)
  note cr = created_run_frame [OF c]
  have wf1: "market_wf db1" using cr assms(1) by simp
  obtain q s db2 where a: "refetch_attempt en dir run ins db1 = (q, s, db2)"
    using prod_cases3 by blast
  note ends = refetch_attempt_ends [OF a wf1]
  show ?thesis
  proof (cases q)
    case (Inr result)
    then obtain m where m: "result = Committed m" "refetched_end (en_now en) ins run m db1 db2" using ends by blast
    have fin: "finish_with en dir run_id run ''PASS'' None None None (Some (i_key ins)) 1 result s db2 = (Inr r, db')"
      using att a Inr by (simp add: end_refetch_def)
    note f = finished_run [OF fin]
    have "refetched_end (en_now en) ins run m db1 db'"
      using m(2) f unfolding refetched_end_def by (metis runs_only_chain)
    then show ?thesis using i c f m(1)
      by (intro exI [of _ ins] exI [of _ run_id] exI [of _ db1]) simp
  next
    case (Inl e)
    then have same: "db2 = db1" using ends by blast
    obtain db3 where f: "record_failure (en_file_sha en) (en_now en) run (error_code e) (aq_charts s) (aq_failed s)
           None canonical_contract db2 = (Inr (), db3)"
        "finish_with en dir run_id run (failure_status (error_code e)) (Some (error_code e)) None None
           (Some (i_key ins)) 0 NoResult s db3 = (Inr r, db')"
      using att a Inl by (auto simp: end_refetch_def Let_def case_state)
    note g = finished_run [OF f(2)] and h = failure_effect [OF f(1)]
    have "same_rows db3 db'" "watermarks db' = watermarks db3" using g runs_only [of db' db3] by simp_all
    then have "same_rows db db' \<and> list_all2 only_status (watermarks db) (watermarks db')"
      using cr h(2) same_market_rows [OF h(1)] same by (metis same_rows_trans)
    then show ?thesis using i c g by (intro exI [of _ ins] exI [of _ run_id] exI [of _ db1]) simp
  qed
qed

end
