(* ===== verification/ReconcileLoop.thy ===== *)
theory ReconcileLoop
  imports IncrementalRun
begin

text \<open>
  \<open>reconcile_incremental\<close> of \<open>market_db/incremental_update.py\<close>: stale series are refetched in full and normal
  runs repeated until enough of them pass in a row. The two runners and the loader of the stale keys
  are arguments of the source function; here they are functions on the state \<open>'w\<close> of everything they
  may change. The last section instantiates them with the runs of \<open>IncrementalRun\<close>.
\<close>

section \<open>Steps and reports\<close>

datatype reconcile_operation = NormalRun | FullRefetch

type_synonym reconcile_step = "reconcile_operation \<times> RunSummary"
type_synonym 'w normal_runner = "'w \<Rightarrow> (exn + RunSummary) \<times> 'w"
type_synonym 'w refetch_runner = "string \<Rightarrow> 'w \<Rightarrow> (exn + RunSummary) \<times> 'w"

record ReconcileState =
  ro_passes :: nat
  ro_pass_ids :: "int list"
  ro_refetched :: "string list"
  ro_steps :: "reconcile_step list"

record ReconcileReport =
  rc_status :: string
  rc_error :: "string option"
  rc_failed_key :: "string option"
  rc_state :: ReconcileState

definition record_step :: "reconcile_operation \<Rightarrow> RunSummary \<Rightarrow> ReconcileState \<Rightarrow> ReconcileState" where
  "record_step op r s = s\<lparr>ro_steps := ro_steps s @ [(op, r)]\<rparr>"

text \<open>A step keeps the whole summary, of which the source prints a selection of fields.\<close>

text \<open>\<open>a or b\<close> on optional texts: an empty text counts as missing.\<close>

definition or_text :: "string option \<Rightarrow> string option \<Rightarrow> string option" where
  "or_text a b = (if a = None \<or> a = Some [] then b else a)"

definition terminal_report ::
  "string \<Rightarrow> string option \<Rightarrow> string option \<Rightarrow> string option \<Rightarrow> ReconcileState \<Rightarrow> ReconcileReport" where
  "terminal_report status err failed ins s = \<lparr> rc_status = status, rc_error = err,
     rc_failed_key = failed_context status (or_text failed ins), rc_state = s \<rparr>"

definition terminal_run :: "RunSummary \<Rightarrow> string option \<Rightarrow> ReconcileState \<Rightarrow> ReconcileReport" where
  "terminal_run r err s = terminal_report (rr_status r) (or_text err (rr_error r)) (rr_failed_key r) (rr_instrument r) s"

section \<open>Recovering a series\<close>

text \<open>A step of the recovery either goes on with a state or ends the reconciliation with a report.\<close>

type_synonym 'w recovery = "(exn + (ReconcileReport + ReconcileState)) \<times> 'w"

definition recover :: "'w refetch_runner \<Rightarrow> nat \<Rightarrow> string \<Rightarrow> ReconcileState \<Rightarrow> 'w \<Rightarrow> 'w recovery" where
  "recover refetch limit k s w =
     (if k \<in> set (ro_refetched s)
      then (Inr (Inl (terminal_report ''BLOCKED'' (Some ''BLOCKED_REPEATED_DATA_VERSION_CHANGE'') (Some k) None s)), w)
      else if limit \<le> length (ro_refetched s)
      then (Inr (Inl (terminal_report ''BLOCKED'' (Some ''BLOCKED_RECONCILIATION_LIMIT'') (Some k) None s)), w)
      else case refetch k w of
             (Inl e, w') \<Rightarrow> (Inl e, w')
           | (Inr r, w') \<Rightarrow>
               let s' = record_step FullRefetch r s
               in if rr_status r \<noteq> ''PASS'' then (Inr (Inl (terminal_run r None s')), w')
                  else if rr_instrument r \<noteq> None \<and> rr_instrument r \<noteq> Some k
                  then (Inr (Inl (terminal_run r (Some ''FAILED_REFETCH_INSTRUMENT_MISMATCH'') s')), w')
                  else (Inr (Inr (s'\<lparr>ro_refetched := ro_refetched s' @ [k]\<rparr>)), w'))"

fun recover_all :: "'w refetch_runner \<Rightarrow> nat \<Rightarrow> string list \<Rightarrow> ReconcileState \<Rightarrow> 'w \<Rightarrow> 'w recovery" where
  "recover_all refetch limit [] s w = (Inr (Inr s), w)"
| "recover_all refetch limit (k # ks) s w =
     (case recover refetch limit k s w of
        (Inr (Inr s'), w') \<Rightarrow> recover_all refetch limit ks s' w'
      | stop \<Rightarrow> stop)"

text \<open>What a normal run that did not pass leads to.\<close>

definition recover_failed_key :: "'w refetch_runner \<Rightarrow> nat \<Rightarrow> RunSummary \<Rightarrow> ReconcileState \<Rightarrow> 'w \<Rightarrow> 'w recovery" where
  "recover_failed_key refetch limit r s w =
     (if rr_error r \<noteq> Some ''BLOCKED_FULL_REFETCH_REQUIRED'' then (Inr (Inl (terminal_run r None s)), w)
      else case rr_failed_key r of
             None \<Rightarrow> (Inr (Inl (terminal_run r (Some ''BLOCKED_MISSING_FAILED_INSTRUMENT_KEY'') s)), w)
           | Some k \<Rightarrow>
               if k = [] then (Inr (Inl (terminal_run r (Some ''BLOCKED_MISSING_FAILED_INSTRUMENT_KEY'') s)), w)
               else recover refetch limit k s w)"

definition after_failure ::
  "'w refetch_runner \<Rightarrow> ('w \<Rightarrow> exn + string list) \<Rightarrow> nat \<Rightarrow> RunSummary \<Rightarrow> ReconcileState \<Rightarrow> 'w \<Rightarrow> 'w recovery" where
  "after_failure refetch stale limit r s w =
     (if rr_error r = Some ''BLOCKED_CANONICAL_WATERMARK_SET''
      then case stale w of
             Inl e \<Rightarrow> (Inl e, w)
           | Inr [] \<Rightarrow> recover_failed_key refetch limit r s w
           | Inr (k # ks) \<Rightarrow> recover_all refetch limit (k # ks) s w
      else recover_failed_key refetch limit r s w)"

section \<open>Progress of the recovery\<close>

definition refetch_steps :: "ReconcileState \<Rightarrow> nat" where
  "refetch_steps s = length (filter (\<lambda>p. fst p = FullRefetch) (ro_steps s))"

definition normal_runs :: "ReconcileState \<Rightarrow> nat" where
  "normal_runs s = length (filter (\<lambda>p. fst p = NormalRun) (ro_steps s))"

text \<open>A recovered state has the same passes and as many new refetches as new refetch steps.\<close>

definition recovered :: "nat \<Rightarrow> ReconcileState \<Rightarrow> ReconcileState \<Rightarrow> bool" where
  "recovered limit s t =
     (ro_passes t = ro_passes s \<and> ro_pass_ids t = ro_pass_ids s \<and> normal_runs t = normal_runs s
      \<and> (\<exists>ks. ro_refetched t = ro_refetched s @ ks \<and> refetch_steps t = refetch_steps s + length ks
           \<and> (distinct (ro_refetched s) \<longrightarrow> distinct (ro_refetched t))
           \<and> (length (ro_refetched s) \<le> limit \<longrightarrow> length (ro_refetched t) \<le> limit)))"

text \<open>A reconciliation stopped by a recovery: at most one more refetch step than refetched series.\<close>

definition stopped :: "nat \<Rightarrow> ReconcileState \<Rightarrow> ReconcileReport \<Rightarrow> bool" where
  "stopped limit s p =
     ((rc_status p = ''PASS'' \<longrightarrow> rc_error p = Some ''FAILED_REFETCH_INSTRUMENT_MISMATCH'')
      \<and> (\<exists>t. recovered limit s t \<and> ro_refetched (rc_state p) = ro_refetched t
           \<and> normal_runs (rc_state p) = normal_runs t
           \<and> (refetch_steps (rc_state p) = refetch_steps t
              \<or> (refetch_steps (rc_state p) = Suc (refetch_steps t) \<and> length (ro_refetched t) < limit))))"

lemma recovered_refl [simp]: "recovered limit s s"
  by (auto simp: recovered_def)

lemma recovered_trans: "recovered limit s t \<Longrightarrow> recovered limit t u \<Longrightarrow> recovered limit s u"
  by (auto simp: recovered_def)

lemma stopped_trans: "recovered limit s t \<Longrightarrow> stopped limit t p \<Longrightarrow> stopped limit s p"
  unfolding stopped_def by (meson recovered_trans)

lemma terminal_run_simps [simp]:
  "rc_status (terminal_run r err s) = rr_status r" "rc_state (terminal_run r err s) = s"
  "rc_error (terminal_run r (Some (x # xs)) s) = Some (x # xs)"
  "rc_status (terminal_report a b c d s) = a" "rc_state (terminal_report a b c d s) = s"
  by (simp_all add: terminal_run_def terminal_report_def or_text_def)

lemma recover_progress:
  assumes "recover refetch limit k s w = (Inr q, w')"
  shows "case q of Inl p \<Rightarrow> stopped limit s p
    | Inr t \<Rightarrow> recovered limit s t \<and> ro_refetched t = ro_refetched s @ [k] \<and> length (ro_refetched t) \<le> limit"
proof (cases "k \<in> set (ro_refetched s) \<or> limit \<le> length (ro_refetched s)")
  case True
  then show ?thesis using assms
    by (auto simp: recover_def stopped_def split: if_splits intro!: exI [of _ s])
next
  case False
  then obtain r where r: "refetch k w = (Inr r, w')"
    using assms by (auto simp: recover_def Let_def split: prod.splits sum.splits if_splits)
  let ?s = "record_step FullRefetch r s"
  have st: "refetch_steps ?s = Suc (refetch_steps s)" "normal_runs ?s = normal_runs s"
      "ro_refetched ?s = ro_refetched s" "ro_passes ?s = ro_passes s" "ro_pass_ids ?s = ro_pass_ids s"
    by (simp_all add: refetch_steps_def normal_runs_def record_step_def)
  have stop: "stopped limit s (terminal_run r err ?s)" if "rr_status r = ''PASS'' \<longrightarrow> err = Some ''FAILED_REFETCH_INSTRUMENT_MISMATCH''" for err
    using that st False unfolding stopped_def by (auto intro!: exI [of _ s])
  have go: "recovered limit s (?s\<lparr>ro_refetched := ro_refetched ?s @ [k]\<rparr>)"
    using False st by (auto simp: recovered_def refetch_steps_def normal_runs_def record_step_def)
  show ?thesis
    using assms False r stop go st by (auto simp: recover_def Let_def split: if_splits)
qed

lemma recover_all_progress:
  assumes "recover_all refetch limit ks s w = (Inr q, w')"
  shows "case q of Inl p \<Rightarrow> stopped limit s p
    | Inr t \<Rightarrow> recovered limit s t \<and> ro_refetched t = ro_refetched s @ ks \<and> (ks \<noteq> [] \<longrightarrow> length (ro_refetched t) \<le> limit)"
  using assms
proof (induction ks arbitrary: s w)
  case (Cons k ks)
  obtain q1 w1 where r: "recover refetch limit k s w = (q1, w1)"
    by (cases "recover refetch limit k s w")
  with Cons.prems obtain x where q1: "q1 = Inr x" by (cases q1) auto
  note p = recover_progress [OF r [unfolded q1]]
  show ?case
  proof (cases x)
    case (Inl y)
    then show ?thesis using Cons.prems r q1 p by auto
  next
    case (Inr t)
    then have "recover_all refetch limit ks t w1 = (Inr q, w')" using Cons.prems r q1 by simp
    from Cons.IH [OF this] show ?thesis using p Inr
      by (auto split: sum.splits intro: recovered_trans stopped_trans)
  qed
qed auto

lemma after_failure_progress:
  assumes "after_failure refetch stale limit r s w = (Inr q, w')" and "rr_status r \<noteq> ''PASS''"
  shows "case q of Inl p \<Rightarrow> stopped limit s p
    | Inr t \<Rightarrow> recovered limit s t \<and> length (ro_refetched s) < length (ro_refetched t)
        \<and> length (ro_refetched t) \<le> limit"
proof -
  have stop: "stopped limit s (terminal_run r err s)" for err
    using assms(2) by (auto simp: stopped_def intro!: exI [of _ s])
  have key: "case q of Inl p \<Rightarrow> stopped limit s p
      | Inr t \<Rightarrow> recovered limit s t \<and> length (ro_refetched s) < length (ro_refetched t)
          \<and> length (ro_refetched t) \<le> limit"
    if "recover_failed_key refetch limit r s w = (Inr q, w')"
    using that stop
    by (auto simp: recover_failed_key_def split: if_splits option.splits dest!: recover_progress split: sum.splits)
  show ?thesis
    using assms(1) key recover_all_progress [of refetch limit _ s w q w']
    by (fastforce simp: after_failure_def split: if_splits sum.splits list.splits simp del: recover_all.simps)
qed

section \<open>The loop\<close>

text \<open>Every turn either adds a pass or, after a failed run, a refetched series; the limit bounds the
  series and the required number the passes in between.\<close>

definition count_pass :: "RunSummary \<Rightarrow> ReconcileState \<Rightarrow> ReconcileState" where
  "count_pass r s = s\<lparr>ro_passes := Suc (ro_passes s), ro_pass_ids := ro_pass_ids s @ [rr_db_run r]\<rparr>"

definition passed_report :: "ReconcileState \<Rightarrow> ReconcileReport" where
  "passed_report s = \<lparr> rc_status = ''PASS'', rc_error = None, rc_failed_key = None, rc_state = s \<rparr>"

function reconcile_loop ::
  "'w normal_runner \<Rightarrow> 'w refetch_runner \<Rightarrow> ('w \<Rightarrow> exn + string list) \<Rightarrow> nat \<Rightarrow> nat \<Rightarrow> ReconcileState \<Rightarrow> 'w \<Rightarrow>
   (exn + ReconcileReport) \<times> 'w" where
  "reconcile_loop normal refetch stale required limit s w =
     (if required \<le> ro_passes s then (Inr (passed_report s), w)
      else case normal w of
             (Inl e, w1) \<Rightarrow> (Inl e, w1)
           | (Inr r, w1) \<Rightarrow>
               if rr_status r = ''PASS''
               then reconcile_loop normal refetch stale required limit (count_pass r (record_step NormalRun r s)) w1
               else case after_failure refetch stale limit r
                           ((record_step NormalRun r s)\<lparr>ro_passes := 0, ro_pass_ids := []\<rparr>) w1 of
                      (Inl e, w2) \<Rightarrow> (Inl e, w2)
                    | (Inr (Inl p), w2) \<Rightarrow> (Inr p, w2)
                    | (Inr (Inr t), w2) \<Rightarrow> reconcile_loop normal refetch stale required limit t w2)"
  by pat_completeness auto

termination
proof (relation "measures [\<lambda>(normal, refetch, stale, required, limit, s, w). Suc limit - length (ro_refetched s),
    \<lambda>(normal, refetch, stale, required, limit, s, w). required - ro_passes s]")
  show "wf (measures [\<lambda>(normal, refetch, stale, required, limit, s, w). Suc limit - length (ro_refetched s),
    \<lambda>(normal, refetch, stale, required, limit, s, w). required - ro_passes s])" by simp
qed (auto simp: count_pass_def record_step_def dest!: after_failure_progress [OF sym])

declare reconcile_loop.simps [simp del]

definition start_state :: ReconcileState where
  "start_state = \<lparr> ro_passes = 0, ro_pass_ids = [], ro_refetched = [], ro_steps = [] \<rparr>"

definition refetch_limit :: "CanonicalInstrument list \<Rightarrow> int option \<Rightarrow> exn + nat" where
  "refetch_limit canonical_rows given =
     ebind (case given of None \<Rightarrow> ebind (load_canonical_instruments canonical_rows) (\<lambda>r. Inr (int (length r)))
            | Some n \<Rightarrow> Inr n) (\<lambda>n.
       if n < 0 then Inl (ValueError ''max_full_refetches must not be negative'') else Inr (nat n))"

definition reconcile_incremental ::
  "'w normal_runner \<Rightarrow> 'w refetch_runner \<Rightarrow> ('w \<Rightarrow> exn + string list) \<Rightarrow> CanonicalInstrument list \<Rightarrow> int \<Rightarrow> int option \<Rightarrow>
   'w \<Rightarrow> (exn + ReconcileReport) \<times> 'w" where
  "reconcile_incremental normal refetch stale canonical_rows required max_refetches w =
     (if required < 1 then (Inl (ValueError ''required_consecutive_passes must be positive''), w)
      else case ebind (refetch_limit canonical_rows max_refetches) (\<lambda>limit. ebind (stale w) (\<lambda>ks. Inr (limit, ks))) of
             Inl e \<Rightarrow> (Inl e, w)
           | Inr (limit, ks) \<Rightarrow>
               (case recover_all refetch limit ks start_state w of
                  (Inl e, w1) \<Rightarrow> (Inl e, w1)
                | (Inr (Inl p), w1) \<Rightarrow> (Inr p, w1)
                | (Inr (Inr s), w1) \<Rightarrow> reconcile_loop normal refetch stale (nat required) limit s w1))"

section \<open>What a report means\<close>

text \<open>The last \<open>n\<close> steps are normal runs that passed, with the given run ids.\<close>

definition ends_with_passes :: "nat \<Rightarrow> ReconcileState \<Rightarrow> bool" where
  "ends_with_passes n s = (\<exists>earlier rs. ro_steps s = earlier @ map (Pair NormalRun) rs \<and> length rs = n
     \<and> list_all (\<lambda>r. rr_status r = ''PASS'') rs \<and> ro_pass_ids s = map rr_db_run rs)"

definition loop_ok :: "nat \<Rightarrow> nat \<Rightarrow> ReconcileState \<Rightarrow> bool" where
  "loop_ok required limit s = (distinct (ro_refetched s) \<and> length (ro_refetched s) \<le> limit
     \<and> refetch_steps s = length (ro_refetched s) \<and> ends_with_passes (ro_passes s) s \<and> ro_passes s \<le> required
     \<and> normal_runs s \<le> required * length (ro_refetched s) + ro_passes s)"

definition report_ok :: "nat \<Rightarrow> nat \<Rightarrow> ReconcileReport \<Rightarrow> bool" where
  "report_ok required limit p =
     (distinct (ro_refetched (rc_state p)) \<and> length (ro_refetched (rc_state p)) \<le> limit
      \<and> refetch_steps (rc_state p) \<le> limit \<and> normal_runs (rc_state p) \<le> required * Suc limit
      \<and> (rc_status p = ''PASS'' \<longrightarrow>
           (rc_error p = None \<and> ro_passes (rc_state p) = required \<and> ends_with_passes required (rc_state p))
           \<or> rc_error p = Some ''FAILED_REFETCH_INSTRUMENT_MISMATCH''))"

text \<open>Before the end of a turn a state may have lost its passes but not its accounts.\<close>

definition accounts_ok :: "nat \<Rightarrow> nat \<Rightarrow> ReconcileState \<Rightarrow> bool" where
  "accounts_ok required limit s = (distinct (ro_refetched s) \<and> length (ro_refetched s) \<le> limit
     \<and> refetch_steps s = length (ro_refetched s) \<and> normal_runs s \<le> required * Suc (length (ro_refetched s)))"

lemma stopped_report:
  assumes "accounts_ok required limit s" and "stopped limit s p"
  shows "report_ok required limit p"
proof -
  obtain t ks where t: "ro_refetched (rc_state p) = ro_refetched s @ ks" "length (ro_refetched s @ ks) \<le> limit"
      "distinct (ro_refetched s @ ks)" "normal_runs (rc_state p) = normal_runs s"
      "refetch_steps (rc_state p) = refetch_steps s + length ks
       \<or> refetch_steps (rc_state p) = Suc (refetch_steps s + length ks) \<and> length (ro_refetched s @ ks) < limit"
      "rc_status p = ''PASS'' \<longrightarrow> rc_error p = Some ''FAILED_REFETCH_INSTRUMENT_MISMATCH''"
    using assms by (auto simp: stopped_def recovered_def accounts_ok_def)
  have "normal_runs s \<le> required * Suc (length (ro_refetched s))" "refetch_steps s = length (ro_refetched s)"
    using assms(1) by (simp_all add: accounts_ok_def)
  moreover have "required * Suc (length (ro_refetched s)) \<le> required * Suc limit"
    using t(2) by (intro mult_le_mono2) simp
  ultimately have "normal_runs s \<le> required * Suc limit" "refetch_steps s = length (ro_refetched s)"
    by (blast intro: order_trans)+
  then show ?thesis using t unfolding report_ok_def by (auto simp del: mult_Suc_right)
qed

lemma recovered_loop_ok:
  assumes "accounts_ok required limit s" and "recovered limit s t" and "ro_passes s = 0" and "ro_pass_ids s = []"
    and "length (ro_refetched s) < length (ro_refetched t)"
  shows "loop_ok required limit t"
proof -
  have "normal_runs t \<le> required * Suc (length (ro_refetched s))" "ro_passes t = 0" "ro_pass_ids t = []"
      "distinct (ro_refetched t)" "length (ro_refetched t) \<le> limit" "refetch_steps t = length (ro_refetched t)"
    using assms by (auto simp: accounts_ok_def recovered_def)
  moreover have "required * Suc (length (ro_refetched s)) \<le> required * length (ro_refetched t)"
    using assms(5) by (intro mult_le_mono2) simp
  ultimately show ?thesis by (auto simp: loop_ok_def ends_with_passes_def)
qed

lemma counted_pass_ok:
  assumes "loop_ok required limit s" and "ro_passes s < required" and "rr_status r = ''PASS''"
  shows "loop_ok required limit (count_pass r (record_step NormalRun r s))"
proof -
  obtain earlier rs where "ro_steps s = earlier @ map (Pair NormalRun) rs" "length rs = ro_passes s"
      "list_all (\<lambda>r. rr_status r = ''PASS'') rs" "ro_pass_ids s = map rr_db_run rs"
    using assms(1) by (auto simp: loop_ok_def ends_with_passes_def)
  then have "ends_with_passes (Suc (ro_passes s)) (count_pass r (record_step NormalRun r s))"
    unfolding ends_with_passes_def using assms(3)
    by (intro exI [of _ earlier] exI [of _ "rs @ [r]"]) (auto simp: count_pass_def record_step_def)
  then show ?thesis using assms(1,2)
    by (auto simp: loop_ok_def count_pass_def record_step_def refetch_steps_def normal_runs_def)
qed

lemma failed_turn_accounts:
  assumes "loop_ok required limit s" and "ro_passes s < required"
  shows "accounts_ok required limit ((record_step NormalRun r s)\<lparr>ro_passes := 0, ro_pass_ids := []\<rparr>)"
  using assms by (auto simp: loop_ok_def accounts_ok_def record_step_def refetch_steps_def normal_runs_def)

lemma reconcile_loop_report:
  assumes "reconcile_loop normal refetch stale required limit s w = (Inr p, w')" and "loop_ok required limit s"
  shows "report_ok required limit p"
  using assms
proof (induction normal refetch stale required limit s w rule: reconcile_loop.induct)
  case (1 normal refetch stale required limit s w)
  show ?case
  proof (cases "required \<le> ro_passes s")
    case True
    then have e: "p = passed_report s" "ro_passes s = required" using 1(3,4)
      by (auto simp: reconcile_loop.simps [of normal] loop_ok_def)
    have "required * Suc (length (ro_refetched s)) \<le> required * Suc limit"
      using 1(4) by (intro mult_le_mono2) (simp add: loop_ok_def)
    moreover have "normal_runs s \<le> required * Suc (length (ro_refetched s))" using 1(4) e(2) by (simp add: loop_ok_def)
    ultimately have "normal_runs s \<le> required * Suc limit" by (rule order_trans [rotated])
    then show ?thesis using 1(4) e by (auto simp: report_ok_def loop_ok_def passed_report_def simp del: mult_Suc_right)
  next
    case False
    obtain r w1 where n: "normal w = (Inr r, w1)"
      using 1(3) False by (auto simp: reconcile_loop.simps [of normal] split: prod.splits sum.splits if_splits)
    let ?f = "(record_step NormalRun r s)\<lparr>ro_passes := 0, ro_pass_ids := []\<rparr>"
    show ?thesis
    proof (cases "rr_status r = ''PASS''")
      case True
      then show ?thesis
        using 1(1) [OF False n [symmetric] refl True] 1(3) n False counted_pass_ok [OF 1(4) _ True]
        by (simp add: reconcile_loop.simps [of normal _ _ _ _ s])
    next
      case fails: False
      obtain q w2 where a: "after_failure refetch stale limit r ?f w1 = (Inr q, w2)"
        using 1(3) False n fails
        by (cases "after_failure refetch stale limit r ?f w1")
          (auto simp: reconcile_loop.simps [of normal _ _ _ _ s] split: sum.splits)
      note g = after_failure_progress [OF a fails]
      have acc: "accounts_ok required limit ?f" using failed_turn_accounts [OF 1(4)] False by simp
      show ?thesis
      proof (cases q)
        case (Inl x)
        then have "p = x" using 1(3) False n fails a by (simp add: reconcile_loop.simps [of normal _ _ _ _ s])
        then show ?thesis using g Inl stopped_report [OF acc] by simp
      next
        case (Inr t)
        then have "loop_ok required limit t" using g recovered_loop_ok [OF acc, of t] by auto
        then show ?thesis
          using 1(2) [OF False n [symmetric] refl fails a [symmetric] refl Inr] a Inr 1(3) False n fails
          by (simp add: reconcile_loop.simps [of normal _ _ _ _ s])
      qed
    qed
  qed
qed

text \<open>C7: A reconciliation always ends (the loop is a total function: each turn adds a pass or, within the
  limit, a refetched series), and its report is bounded: no series is refetched twice, there are at
  most as many refetches as the limit, which is the number of instruments when none is given, and at
  most \<open>required * (limit + 1)\<close> normal runs. A report of PASS without an error ends in exactly the
  required number of passing normal runs, whose ids it lists; the only other report of PASS is a
  refetch that returned another instrument than the one asked for, which carries an error code.\<close>

theorem reconcile_report:
  assumes "reconcile_incremental normal refetch stale canonical_rows required max_refetches w = (Inr p, w')"
  shows "\<exists>limit. refetch_limit canonical_rows max_refetches = Inr limit \<and> 1 \<le> required
    \<and> report_ok (nat required) limit p"
proof -
  obtain limit ks where l: "refetch_limit canonical_rows max_refetches = Inr limit" "stale w = Inr ks" "1 \<le> required"
    and r: "(case recover_all refetch limit ks start_state w of
                  (Inl e, w1) \<Rightarrow> (Inl e, w1)
                | (Inr (Inl p), w1) \<Rightarrow> (Inr p, w1)
                | (Inr (Inr s), w1) \<Rightarrow> reconcile_loop normal refetch stale (nat required) limit s w1) = (Inr p, w')"
    using assms by (auto simp: reconcile_incremental_def case_value ebind_eq_Inr not_less split: if_splits)
  obtain q w1 where a: "recover_all refetch limit ks start_state w = (Inr q, w1)"
    using r by (cases "recover_all refetch limit ks start_state w") (auto split: sum.splits)
  note g = recover_all_progress [OF a]
  have acc: "accounts_ok (nat required) limit start_state"
    by (simp add: accounts_ok_def start_state_def refetch_steps_def normal_runs_def)
  have "report_ok (nat required) limit p"
  proof (cases q)
    case (Inl x)
    then show ?thesis using r a g stopped_report [OF acc] by simp
  next
    case (Inr t)
    then have t: "recovered limit start_state t" using g by simp
    have "loop_ok (nat required) limit t"
      using t by (auto simp: loop_ok_def recovered_def start_state_def ends_with_passes_def refetch_steps_def normal_runs_def)
    then show ?thesis using reconcile_loop_report [of normal refetch stale "nat required" limit t w1 p w'] r a Inr by simp
  qed
  then show ?thesis using l by blast
qed

section \<open>What the runners must keep\<close>

locale kept_by_runners =
  fixes keeps :: "'w \<Rightarrow> bool" and normal :: "'w normal_runner" and refetch :: "'w refetch_runner"
  assumes normal_keeps: "keeps w \<Longrightarrow> keeps (snd (normal w))"
    and refetch_keeps: "keeps w \<Longrightarrow> keeps (snd (refetch k w))"
begin

lemma recover_keeps: "keeps w \<Longrightarrow> keeps (snd (recover refetch limit k s w))"
  using refetch_keeps [of w k] by (auto simp: recover_def Let_def split: prod.splits sum.splits)

lemma recover_all_keeps: "keeps w \<Longrightarrow> keeps (snd (recover_all refetch limit ks s w))"
proof (induction ks arbitrary: s w)
  case (Cons k ks)
  obtain q w1 where r: "recover refetch limit k s w = (q, w1)" by (cases "recover refetch limit k s w")
  then have "keeps w1" using recover_keeps [OF Cons.prems, of limit k s] by simp
  then show ?case using Cons.IH r by (auto split: sum.splits)
qed simp

lemma after_failure_keeps: "keeps w \<Longrightarrow> keeps (snd (after_failure refetch stale limit r s w))"
  using recover_keeps [of w limit _ s] recover_all_keeps [of w limit _ s]
  by (auto simp: after_failure_def recover_failed_key_def simp del: recover_all.simps
      split: sum.splits list.splits option.splits)

lemma reconcile_loop_keeps:
  assumes "reconcile_loop n f stale required limit s w = (q, w')" and "n = normal" and "f = refetch" and "keeps w"
  shows "keeps w'"
  using assms
proof (induction n f stale required limit s w rule: reconcile_loop.induct)
  case (1 n f stale required limit s w)
  show ?case
  proof (cases "required \<le> ro_passes s")
    case True
    then show ?thesis using 1(3,6) by (simp add: reconcile_loop.simps [of n])
  next
    case False
    obtain x w1 where n: "n w = (x, w1)" by (cases "n w")
    then have k1: "keeps w1" using normal_keeps [OF 1(6)] 1(4) by simp
    show ?thesis
    proof (cases x)
      case (Inl e)
      then show ?thesis using 1(3) False n k1 by (simp add: reconcile_loop.simps [of n])
    next
      case (Inr r)
      let ?f = "(record_step NormalRun r s)\<lparr>ro_passes := 0, ro_pass_ids := []\<rparr>"
      show ?thesis
      proof (cases "rr_status r = ''PASS''")
        case True
        then show ?thesis
          using 1(1) [OF False n [symmetric] Inr True _ 1(4,5) k1] 1(3) n False Inr
          by (simp add: reconcile_loop.simps [of n _ _ _ _ s])
      next
        case fails: False
        obtain y w2 where a: "after_failure f stale limit r ?f w1 = (y, w2)"
          by (cases "after_failure f stale limit r ?f w1")
        then have k2: "keeps w2" using after_failure_keeps [OF k1, of stale limit r ?f] 1(5) by simp
        have eq: "(case (y, w2) of (Inl e, w2) \<Rightarrow> (Inl e, w2)
              | (Inr (Inl p), w2) \<Rightarrow> (Inr p, w2)
              | (Inr (Inr t), w2) \<Rightarrow> reconcile_loop n f stale required limit t w2) = (q, w')"
          using 1(3) False n Inr fails a by (simp add: reconcile_loop.simps [of n _ _ _ _ s])
        show ?thesis
          using eq k2 1(2) [OF False n [symmetric] Inr fails a [symmetric] _ _ _ 1(4,5) k2]
          by (auto split: sum.splits)
      qed
    qed
  qed
qed

theorem reconcile_keeps:
  assumes "keeps w"
  shows "keeps (snd (reconcile_incremental normal refetch stale canonical_rows required max_refetches w))"
proof -
  have loop: "keeps (snd (reconcile_loop normal refetch stale n limit s v))" if "keeps v" for n limit s v
    using reconcile_loop_keeps [of normal refetch stale n limit s v] that
    by (cases "reconcile_loop normal refetch stale n limit s v") simp
  show ?thesis
  proof (cases "required < 1")
    case False
    show ?thesis
    proof (cases "ebind (refetch_limit canonical_rows max_refetches) (\<lambda>limit. ebind (stale w) (\<lambda>ks. Inr (limit, ks)))")
      case (Inr y)
      obtain limit ks where y: "y = (limit, ks)" by (cases y)
      obtain q v where a: "recover_all refetch limit ks start_state w = (q, v)"
        by (cases "recover_all refetch limit ks start_state w")
      then have "keeps v" using recover_all_keeps [OF assms, of limit ks start_state] by simp
      then show ?thesis using False Inr y a loop by (simp add: reconcile_incremental_def split: sum.split)
    qed (use False assms in \<open>simp add: reconcile_incremental_def\<close>)
  qed (simp add: reconcile_incremental_def assms)
qed

end

section \<open>The runners of the program\<close>

text \<open>The world of the default runners: the database, and for each run the surroundings it meets.\<close>

record World =
  wd_surroundings :: "nat \<Rightarrow> Surroundings"
  wd_turn :: nat
  wd_db :: market_db

definition in_world :: "(Surroundings \<Rightarrow> market_db \<Rightarrow> (exn + RunSummary) \<times> market_db) \<Rightarrow> World \<Rightarrow> (exn + RunSummary) \<times> World" where
  "in_world f w = (case f (wd_surroundings w (wd_turn w)) (wd_db w) of
     (r, db) \<Rightarrow> (r, w\<lparr>wd_turn := Suc (wd_turn w), wd_db := db\<rparr>))"

definition default_normal :: "World normal_runner" where
  "default_normal = in_world (\<lambda>en. run_incremental en None ''manual_db3'' True)"

definition default_refetch :: "World refetch_runner" where
  "default_refetch k = in_world (\<lambda>en. run_full_refetch en k ''manual_db3_full_refetch'')"

definition load_stale_instrument_keys :: "CanonicalInstrument list \<Rightarrow> market_db \<Rightarrow> exn + string list" where
  "load_stale_instrument_keys canonical_rows db =
     ebind (load_canonical_instruments canonical_rows) (\<lambda>registry.
       let order = map_of (rev (zip (map i_key registry) [0..<length registry]));
           keys = map (\<lambda>(r, w). lower (in_key r))
                    (filter (\<lambda>(r, w). wm_status w = ''STALE_DATA_VERSION'') (joined_watermarks db))
       in Inr (sort_key (\<lambda>k. case order k of None \<Rightarrow> length registry | Some n \<Rightarrow> n) keys))"

definition default_reconcile ::
  "CanonicalInstrument list \<Rightarrow> int \<Rightarrow> int option \<Rightarrow> World \<Rightarrow> (exn + ReconcileReport) \<times> World" where
  "default_reconcile canonical_rows = reconcile_incremental default_normal default_refetch
     (\<lambda>w. load_stale_instrument_keys canonical_rows (wd_db w)) canonical_rows"

lemma same_rows_wf: "same_rows a b \<Longrightarrow> watermarks b = watermarks a \<Longrightarrow> market_wf b = market_wf a"
  by (simp add: same_rows_def market_wf_def)

lemma only_status_wf:
  assumes "same_market_data a b" and "list_all2 only_status (watermarks a) (watermarks b)" and "market_wf a"
  shows "market_wf b"
proof -
  have each: "watermark_key y = watermark_key x \<and> watermark_ok y = watermark_ok x" if "only_status x y" for x y
    using that by (cases x; cases y) (auto simp: only_status_def watermark_key_def watermark_ok_def split: option.splits)
  have "map watermark_key (watermarks b) = map watermark_key (watermarks a)"
    "list_all watermark_ok (watermarks b) = list_all watermark_ok (watermarks a)"
    using assms(2) by (induction rule: list_all2_induct) (simp_all add: each)
  then show ?thesis using assms(1,3) by (simp add: same_market_data_def market_wf_def tbl_wf_def)
qed

lemma finish_keeps_wf:
  assumes "market_wf db"
  shows "market_wf (snd (finish_with en dir run_id run status err k1 k2 ins n result s db))"
proof (cases "finish_with en dir run_id run status err k1 k2 ins n result s db")
  case (Pair q db')
  show ?thesis
  proof (cases q)
    case (Inl e)
    then show ?thesis using Pair assms by (auto simp: finish_with_def split: sum.splits prod.splits)
  next
    case (Inr r)
    note f = finished_run [OF Pair [unfolded Inr]]
    then show ?thesis using Pair assms same_rows_wf runs_only [of db' db] by simp
  qed
qed

lemma created_run_keeps_wf:
  assumes "create_run file_sha run_id registry trigger db = (q, db1)" and "market_wf db"
  shows "market_wf db1"
proof (cases q)
  case (Inl e)
  then show ?thesis using assms by (auto simp: create_run_def transaction_def split: sum.splits)
next
  case (Inr run)
  then show ?thesis using created_run_frame [OF assms(1) [unfolded Inr]] assms(2) by simp
qed

lemma run_incremental_keeps_wf:
  assumes "market_wf db"
  shows "market_wf (snd (run_incremental en keys trigger sm db))"
proof (cases "prepare_run en keys")
  case (Inr y)
  obtain registry k run_id dir where y: "y = (registry, k, run_id, dir)" by (cases y)
  obtain q db1 where c: "create_run (en_file_sha en) run_id registry trigger db = (q, db1)"
    by (cases "create_run (en_file_sha en) run_id registry trigger db")
  note w1 = created_run_keeps_wf [OF c assms]
  show ?thesis
  proof (cases q)
    case (Inl e)
    then show ?thesis using Inr y c w1 by (simp add: run_incremental_def)
  next
    case run: (Inr run)
    obtain x s db2 where a: "incremental_attempt en dir run k sm registry db1 = (x, s, db2)"
      using prod_cases3 by blast
    have e: "run_incremental en keys trigger sm db = end_attempt en dir run_id run k (x, s, db2)"
      using Inr y c run a by (simp add: run_incremental_def)
    show ?thesis
    proof (cases x)
      case (Inl err)
      obtain u db3 where f: "record_failure (en_file_sha en) (en_now en) run (error_code err) (aq_charts s)
          (aq_failed s) (aq_detection s) k db2 = (u, db3)" by (metis surj_pair)
      have "market_wf db2" using incremental_attempt_fails [OF a [unfolded Inl] w1] w1 same_rows_wf by blast
      then have "market_wf db3" using failure_effect [OF f] only_status_wf by blast
      then show ?thesis using e Inl f finish_keeps_wf by (auto simp: end_attempt_def Let_def split: sum.splits)
    next
      case ok: (Inr v)
      obtain result n where v: "v = (result, n)" by (cases v)
      have "market_wf db2"
        using incremental_attempt_ends [OF a [unfolded ok v] w1] w1 same_rows_wf
        by (auto simp: committed_end_def split: run_outcome.splits) (metis runs_only same_rows_wf)
      then show ?thesis using e ok v finish_keeps_wf by (simp add: end_attempt_def)
    qed
  qed
qed (simp add: run_incremental_def assms)

lemma run_full_refetch_keeps_wf:
  assumes "market_wf db"
  shows "market_wf (snd (run_full_refetch en k trigger db))"
proof (cases "ebind (instrument_of_key (en_canonical en) k) (\<lambda>ins.
           ebind (utc_run_id (en_stamp en) (en_suffix en)) (\<lambda>run_id.
           ebind (run_artifacts run_id) (\<lambda>dir. Inr (ins, run_id, dir))))")
  case (Inr y)
  obtain ins run_id dir where y: "y = (ins, run_id, dir)" by (cases y)
  obtain q db1 where c: "create_run (en_file_sha en) run_id [ins] trigger db = (q, db1)"
    by (cases "create_run (en_file_sha en) run_id [ins] trigger db")
  note w1 = created_run_keeps_wf [OF c assms]
  show ?thesis
  proof (cases q)
    case (Inl e)
    then show ?thesis using Inr y c w1 by (simp add: run_full_refetch_def)
  next
    case run: (Inr run)
    obtain x s db2 where a: "refetch_attempt en dir run ins db1 = (x, s, db2)"
      using prod_cases3 by blast
    note ends = refetch_attempt_ends [OF a w1]
    have e: "run_full_refetch en k trigger db = end_refetch en dir run_id run ins (x, s, db2)"
      using Inr y c run a by (simp add: run_full_refetch_def)
    show ?thesis
    proof (cases x)
      case (Inl err)
      obtain u db3 where f: "record_failure (en_file_sha en) (en_now en) run (error_code err) (aq_charts s)
          (aq_failed s) None canonical_contract db2 = (u, db3)" by (metis surj_pair)
      have "market_wf db2" using ends Inl w1 by blast
      then have "market_wf db3" using failure_effect [OF f] only_status_wf by blast
      then show ?thesis using e Inl f finish_keeps_wf by (auto simp: end_refetch_def Let_def split: sum.splits)
    next
      case ok: (Inr result)
      then obtain m where "refetched_end (en_now en) ins run m db1 db2" using ends by blast
      then have "market_wf db2" by (auto simp: refetched_end_def) (metis runs_only same_rows_wf)
      then show ?thesis using e ok finish_keeps_wf by (simp add: end_refetch_def)
    qed
  qed
qed (simp add: run_full_refetch_def assms)

interpretation well_formed_runs: kept_by_runners "\<lambda>w. market_wf (wd_db w)" default_normal default_refetch
proof unfold_locales
  show "market_wf (wd_db (snd (default_normal w)))" if "market_wf (wd_db w)" for w
    using run_incremental_keeps_wf [OF that] by (auto simp: default_normal_def in_world_def split: prod.splits) (metis snd_conv)
  show "market_wf (wd_db (snd (default_refetch k w)))" if "market_wf (wd_db w)" for k w
    using run_full_refetch_keeps_wf [OF that] by (auto simp: default_refetch_def in_world_def split: prod.splits) (metis snd_conv)
qed

text \<open>C38: However a reconciliation of the program ends, in a report or an exception, after any number of
  runs and full refetches, the tables are well formed: the keys of the curated, staged, raw and
  watermark tables are unique and every row satisfies its checks.\<close>

theorem reconciliation_keeps_market_wf:
  assumes "market_wf (wd_db w)"
  shows "market_wf (wd_db (snd (default_reconcile canonical_rows required max_refetches w)))"
  unfolding default_reconcile_def by (rule well_formed_runs.reconcile_keeps [OF assms])

section \<open>A concrete reconciliation\<close>

definition example_result :: "string \<Rightarrow> string option \<Rightarrow> string option \<Rightarrow> string option \<Rightarrow> int \<Rightarrow> RunSummary" where
  "example_result status err failed ins n = \<lparr> rr_run_id = ''r'', rr_db_run = n, rr_status = status, rr_error = err,
     rr_failed_key = failed, rr_instrument = ins, rr_manifest = [], rr_result = NoResult \<rparr>"

text \<open>The first run needs a refetch of \<open>tip\<close>, later runs pass; the state counts the calls.\<close>

definition example_normal :: "nat normal_runner" where
  "example_normal n = (Inr (if n = 0
     then example_result ''BLOCKED'' (Some ''BLOCKED_FULL_REFETCH_REQUIRED'') (Some ''tip'') None (int n)
     else example_result ''PASS'' None None None (int n)), n + 1)"

definition example_refetcher :: "string \<Rightarrow> nat refetch_runner" where
  "example_refetcher answered k n = (Inr (example_result ''PASS'' None None (Some answered) (int n)), n + 1)"

definition example_reconcile :: "string \<Rightarrow> (exn + ReconcileReport) \<times> nat" where
  "example_reconcile answered = reconcile_incremental example_normal (example_refetcher answered) (\<lambda>_. Inr []) [] 2 (Some 3) 0"

lemma example_reconcile_passes:
  "case example_reconcile ''tip'' of (Inr p, n) \<Rightarrow> rc_status p = ''PASS'' \<and> rc_error p = None \<and> n = 4
      \<and> ro_pass_ids (rc_state p) = [2, 3] | _ \<Rightarrow> False"
  by code_simp

text \<open>A refetch that answers for another instrument ends the reconciliation with the status PASS and an error.\<close>

lemma example_mismatch:
  "case example_reconcile ''gld'' of (Inr p, n) \<Rightarrow> rc_status p = ''PASS''
      \<and> rc_error p = Some ''FAILED_REFETCH_INSTRUMENT_MISMATCH'' \<and> ro_refetched (rc_state p) = [] | _ \<Rightarrow> False"
  by code_simp

theorem reconcile_report_witness:
  "\<exists>p n. example_reconcile ''tip'' = (Inr p, n) \<and> rc_error p = None \<and> ends_with_passes 2 (rc_state p)
     \<and> refetch_steps (rc_state p) \<le> 3"
proof -
  obtain p n where r: "example_reconcile ''tip'' = (Inr p, n)" "rc_status p = ''PASS''" "rc_error p = None"
    using example_reconcile_passes by (auto split: prod.splits sum.splits)
  have "refetch_limit [] (Some 3) = Inr 3" by (simp add: refetch_limit_def ebind_def)
  with reconcile_report [OF r(1) [unfolded example_reconcile_def]] have "report_ok 2 3 p" by auto
  then show ?thesis using r by (auto simp: report_ok_def)
qed

end
