(* ===== verification/RevisionRun.thy ===== *)
theory RevisionRun
  imports IncrementalRun
begin

text \<open>
  The run of \<open>market_db/data_version_reconcile.py\<close> that compares growing provider windows with the stored
  bars and applies or blocks the revision (\<open>run_bounded_revision_reconcile\<close>), and the read-only comparison
  of a retained chart (\<open>analyze_retained_chart\<close>). The acquisition state and the run summary are those of
  \<open>IncrementalRun\<close>.
\<close>

section \<open>The evidence of the comparisons\<close>

definition times_json :: "utc list \<Rightarrow> json" where
  "times_json ts = JArr (map (\<lambda>t. JStr (iso_utc t)) ts)"

text \<open>\<open>public_dict\<close>.\<close>

definition comparison_json :: "RevisionComparison \<Rightarrow> json" where
  "comparison_json c = JObj
     [(''decision'', JStr (rc_decision c)), (''reason_code'', JStr (rc_reason c)),
      (''old_data_version'', JInt (rc_old c)), (''new_data_version'', JInt (rc_new c)),
      (''compared_from_utc'', JStr (iso_utc (rc_from c))), (''compared_to_utc'', JStr (iso_utc (rc_to c))),
      (''provider_rows'', JInt (int (rc_provider c))), (''matched_rows'', JInt (int (rc_matched c))),
      (''content_difference_rows'', JInt (int (rc_content c))), (''version_only_rows'', JInt (int (rc_version_only c))),
      (''new_rows'', JInt (int (rc_new_rows c))), (''removed_rows'', JInt (int (rc_removed c))),
      (''stable_anchor_rows'', JInt (int (rc_anchor c))), (''affected_from_utc'', optional_time (rc_affected_from c)),
      (''affected_to_utc'', optional_time (rc_affected_to c)), (''content_difference_times'', times_json (rc_content_times c)),
      (''new_times'', times_json (rc_new_times c)), (''removed_times'', times_json (rc_removed_times c))]"

definition evidence_payload :: "CanonicalInstrument \<Rightarrow> RevisionComparison list \<Rightarrow> string \<Rightarrow> exn + json" where
  "evidence_payload ins comparisons src =
     (if comparisons = [] then Inl IndexError
      else let c = last comparisons
           in Inr (JObj
             [(''policy_id'', JStr revision_policy), (''source'', JStr src), (''instrument_key'', JStr (i_key ins)),
              (''uic'', JInt (i_uic ins)), (''asset_type'', JStr (i_asset_type ins)), (''horizon_minutes'', JInt 60),
              (''price_basis'', JStr (price_basis_of ins)), (''old_data_version'', JInt (rc_old c)),
              (''new_data_version'', JInt (rc_new c)), (''final_decision'', JStr (rc_decision c)),
              (''final_reason_code'', JStr (rc_reason c)), (''steps'', JArr (map comparison_json comparisons)),
              (''quality_controls'', JObj
                 [(''interpolation'', JBool False), (''bid_ask_swap'', JBool False), (''clamp'', JBool False),
                  (''manual_watermark_update'', JBool False), (''orders'', JInt 0), (''prechecks'', JInt 0),
                  (''write_requests_to_saxo'', JInt 0)])]))"

section \<open>Comparing one window\<close>

text \<open>\<open>_load_stored_window\<close> between the first and the last bar of the page, as the provider ordered them.\<close>

definition load_stored_window :: "InstrumentState \<Rightarrow> string \<Rightarrow> NormalizedBar list \<Rightarrow> market_db \<Rightarrow> exn + stored_bars" where
  "load_stored_window st basis bars db =
     (if bars = [] then Inl IndexError
      else Inr (stored_window db (st_instrument st) basis (bar_time (hd bars)) (bar_time (last bars))))"

definition compare_page ::
  "CanonicalInstrument \<Rightarrow> InstrumentState \<Rightarrow> nat \<Rightarrow> nat \<Rightarrow> NormalizedBar list \<Rightarrow> market_db \<Rightarrow> exn + RevisionComparison" where
  "compare_page ins st requested maximum bars db =
     ebind (load_stored_window st (price_basis_of ins) bars db) (\<lambda>stored.
     case st_version st of
       None \<Rightarrow> Inl TypeError
     | Some old \<Rightarrow> compare_revision_window bars stored old requested maximum stable_anchor_rows)"

definition window_file :: "nat \<Rightarrow> nat \<Rightarrow> string" where
  "window_file n count' = ''revision_window_'' @ pad_digits 2 n @ ''_'' @ show_nat count' @ ''.json''"

definition window_step ::
  "Surroundings \<Rightarrow> string \<Rightarrow> market_db \<Rightarrow> CanonicalInstrument \<Rightarrow> InstrumentState \<Rightarrow> nat \<Rightarrow> nat \<Rightarrow>
   (NormalizedBar list \<times> RevisionComparison) acquiring" where
  "window_step en dir db ins st n count' =
     abind (with_client (chart (en_net en) (i_uic ins) (i_asset_type ins) (int count') (Some ''UpTo'')
              (Some (iso_utc (en_now en))))) (\<lambda>payload.
     abind (retain_page en dir (artifact_name ins (window_file n count')) payload) (\<lambda>a.
     abind (alift (normalize_chart_page ins payload (page_context en a))) (\<lambda>bars.
     abind (alift (compare_page ins st count' (last window_counts) bars db)) (\<lambda>c. areturn (bars, c)))))"

text \<open>The windows grow until the comparison is decided.\<close>

fun window_steps ::
  "Surroundings \<Rightarrow> string \<Rightarrow> market_db \<Rightarrow> CanonicalInstrument \<Rightarrow> InstrumentState \<Rightarrow> nat \<Rightarrow> nat list \<Rightarrow>
   NormalizedBar list \<Rightarrow> RevisionComparison list \<Rightarrow> (NormalizedBar list \<times> RevisionComparison list) acquiring" where
  "window_steps en dir db ins st n [] bars cs = areturn (bars, cs)"
| "window_steps en dir db ins st n (k # ks) bars cs =
     abind (window_step en dir db ins st n k) (\<lambda>(bars', c).
       if rc_decision c \<noteq> ''EXPAND'' then areturn (bars', cs @ [c])
       else window_steps en dir db ins st (n + 1) ks bars' (cs @ [c]))"

section \<open>The run\<close>

definition acquire_revision ::
  "Surroundings \<Rightarrow> string \<Rightarrow> market_db \<Rightarrow> CanonicalInstrument \<Rightarrow> InstrumentState \<Rightarrow>
   (NormalizedBar list \<times> RevisionComparison list \<times> ArtifactRecord) acquiring" where
  "acquire_revision en dir db ins st =
     abind (take_client (en_client en)) (\<lambda>_.
     abind (smoke en) (\<lambda>_.
     abind (identity_checks en dir ins) (\<lambda>_.
     abind (window_steps en dir db ins st 1 window_counts [] []) (\<lambda>(bars, cs).
     abind (alift (evidence_payload ins cs ''live_saxo_get'')) (\<lambda>e.
     abind (keep_json en dir (artifact_name ins ''revision_evidence.json'') e (length cs)) (\<lambda>a.
       areturn (bars, cs, a)))))))"

definition bounded_request ::
  "CanonicalInstrument \<Rightarrow> InstrumentState \<Rightarrow> int option \<Rightarrow> NormalizedBar list \<Rightarrow> RevisionComparison list \<Rightarrow> ArtifactRecord \<Rightarrow>
   Acquisition \<Rightarrow> BoundedRequest" where
  "bounded_request ins st approved bars cs evidence s = \<lparr> br_instrument = ins, br_state = st, br_bars = bars,
     br_artifacts = aq_charts s, br_evidence = evidence, br_comparisons = cs, br_approved = approved \<rparr>"

text \<open>The end of the \<open>try\<close> block: apply, or preserve the evidence and block.\<close>

definition decide_revision ::
  "Surroundings \<Rightarrow> int \<Rightarrow> BoundedRequest \<Rightarrow> market_db \<Rightarrow> (exn + run_outcome) \<times> market_db" where
  "decide_revision en run q db =
     (if rc_decision (last (br_comparisons q)) = ''READY_TO_APPLY''
      then case commit_bounded_revision (en_migrated en) (en_now en) run q db of
             (r, db') \<Rightarrow> (map_sum id Applied r, db')
      else case record_unresolved_revision (en_now en) run q db of
             (r, db') \<Rightarrow> (map_sum id (\<lambda>(event, reason). Unresolved event reason) r, db'))"

definition revision_attempt ::
  "Surroundings \<Rightarrow> string \<Rightarrow> int \<Rightarrow> CanonicalInstrument \<Rightarrow> InstrumentState \<Rightarrow> int option \<Rightarrow> market_db \<Rightarrow>
   (exn + run_outcome) \<times> Acquisition \<times> market_db" where
  "revision_attempt en dir run ins st approved db =
     (case acquire_revision en dir db ins st (start_acquisition [] None) of
        (Inl e, s) \<Rightarrow> (Inl e, s, db)
      | (Inr (bars, cs, evidence), s) \<Rightarrow>
          (case decide_revision en run (bounded_request ins st approved bars cs evidence s) db of
             (r, db') \<Rightarrow> (r, s, db')))"

text \<open>The code of a failure: the message of a quality error, else the name of the exception.\<close>

fun revision_error_code :: "exn \<Rightarrow> string" where
  "revision_error_code (BarQualityError m) = m"
| "revision_error_code (FXBidAboveAskError _) = ''FX_BID_ABOVE_ASK''"
| "revision_error_code (SaxoAuthError _) = ''FAILED_SAXOAUTHERROR''"
| "revision_error_code (SaxoAPIError _ _) = ''FAILED_SAXOAPIERROR''"
| "revision_error_code (InstrumentDriftError _) = ''FAILED_INSTRUMENTDRIFTERROR''"
| "revision_error_code e = ''FAILED_'' @ exception_name e"

definition record_revision_failure ::
  "utc \<Rightarrow> int \<Rightarrow> string \<Rightarrow> ArtifactRecord list \<Rightarrow> market_db \<Rightarrow> (exn + unit) \<times> market_db" where
  "record_revision_failure now run code arts =
     transaction (\<lambda>db.
       ebind (if arts = [] then Inr (sources db)
              else ebind (register_sources run dataset_id arts (sources db)) (\<lambda>(ids, src). Inr src)) (\<lambda>src.
         Inr ((), update_run run (\<lambda>r. r\<lparr>rn_finished := Some now, rn_status := failure_status code,
                    rn_error := Some code, rn_step := ''revision_failure_no_curated_change''\<rparr>) (db\<lparr>sources := src\<rparr>))))"

definition end_revision ::
  "Surroundings \<Rightarrow> string \<Rightarrow> string \<Rightarrow> int \<Rightarrow> CanonicalInstrument \<Rightarrow> (exn + run_outcome) \<times> Acquisition \<times> market_db \<Rightarrow>
   (exn + RunSummary) \<times> market_db" where
  "end_revision en dir run_id run ins attempt =
     (case attempt of
        (Inr (Applied m), s, db) \<Rightarrow>
          finish_with en dir run_id run ''PASS'' None None None (Some (i_key ins)) 1 (Applied m) s db
      | (Inr result, s, db) \<Rightarrow>
          finish_with en dir run_id run ''BLOCKED'' (Some unresolved_code) (Some (i_key ins)) None (Some (i_key ins)) 0 result s db
      | (Inl e, s, db) \<Rightarrow>
          let code = revision_error_code e
          in case record_revision_failure (en_now en) run code (aq_charts s) db of
               (Inl e', db') \<Rightarrow> (Inl e', db')
             | (Inr _, db') \<Rightarrow>
                 finish_with en dir run_id run (failure_status code) (Some code) (Some (i_key ins)) None
                   (Some (i_key ins)) 0 NoResult s db')"

definition run_bounded_revision_reconcile ::
  "Surroundings \<Rightarrow> string \<Rightarrow> string \<Rightarrow> int option \<Rightarrow> market_db \<Rightarrow> (exn + RunSummary) \<times> market_db" where
  "run_bounded_revision_reconcile en k trigger approved db =
     (case ebind (instrument_of_key (en_canonical en) k) (\<lambda>ins.
           ebind (case approved of None \<Rightarrow> load_revision_state ins db
                  | Some event \<Rightarrow> load_approved_revision_state ins event db) (\<lambda>st.
           ebind (utc_run_id (en_stamp en) (en_suffix en)) (\<lambda>run_id.
           ebind (run_artifacts run_id) (\<lambda>dir. Inr (ins, st, run_id, dir))))) of
        Inl e \<Rightarrow> (Inl e, db)
      | Inr (ins, st, run_id, dir) \<Rightarrow>
          (case create_run (en_file_sha en) run_id [ins] trigger db of
             (Inl e, db1) \<Rightarrow> (Inl e, db1)
           | (Inr run, db1) \<Rightarrow> end_revision en dir run_id run ins (revision_attempt en dir run ins st approved db1)))"

section \<open>The comparison of a retained chart\<close>

definition analyze_retained_chart ::
  "CanonicalInstrument list \<Rightarrow> string \<Rightarrow> (string \<times> json) list \<Rightarrow> PageContext \<Rightarrow> market_db \<Rightarrow> exn + json" where
  "analyze_retained_chart canonical_rows k payload p db =
     ebind (instrument_of_key canonical_rows k) (\<lambda>ins.
     ebind (load_revision_state ins db) (\<lambda>st.
     ebind (normalize_chart_page ins payload p) (\<lambda>bars.
     ebind (compare_page ins st (length bars) (length bars) bars db) (\<lambda>c.
       evidence_payload ins [c] ''retained_blocked_run_read_only''))))"

section \<open>How the run ends\<close>

text \<open>The comparisons of a run: growing windows, undecided up to the last, which compares the returned bars.\<close>

definition windows_compared ::
  "market_db \<Rightarrow> CanonicalInstrument \<Rightarrow> InstrumentState \<Rightarrow> NormalizedBar list \<Rightarrow> RevisionComparison list \<Rightarrow> bool" where
  "windows_compared db ins st bars cs =
     (cs \<noteq> [] \<and> length cs \<le> length window_counts
      \<and> (\<forall>c \<in> set (butlast cs). rc_decision c = ''EXPAND'')
      \<and> compare_page ins st (window_counts ! (length cs - 1)) (last window_counts) bars db = Inr (last cs))"

lemma window_step_compares:
  assumes "window_step en dir db ins st n k s = (Inr (bars, c), s')"
  shows "compare_page ins st k (last window_counts) bars db = Inr c"
  using assms by (auto simp: window_step_def abind_Inr)

lemma window_steps_result:
  assumes "window_steps en dir db ins st n ks bars cs s = (Inr (bars', cs'), s')"
  shows "\<exists>more. cs' = cs @ more \<and> length more \<le> length ks \<and> (\<forall>c \<in> set (butlast more). rc_decision c = ''EXPAND'')
    \<and> (ks = [] \<or> more \<noteq> [] \<and> compare_page ins st (ks ! (length more - 1)) (last window_counts) bars' db = Inr (last more))"
  using assms
proof (induction ks arbitrary: n bars cs s)
  case (Cons k ks)
  obtain b c t where w: "window_step en dir db ins st n k s = (Inr (b, c), t)"
    "(if rc_decision c \<noteq> ''EXPAND'' then areturn (b, cs @ [c])
       else window_steps en dir db ins st (n + 1) ks b (cs @ [c])) t = (Inr (bars', cs'), s')"
    using Cons.prems by (auto simp: abind_Inr)
  note cmp = window_step_compares [OF w(1)]
  show ?case
  proof (cases "rc_decision c = ''EXPAND'' \<and> ks \<noteq> []")
    case True
    then obtain more where m: "cs' = (cs @ [c]) @ more" "length more \<le> length ks" "more \<noteq> []"
        "\<forall>x \<in> set (butlast more). rc_decision x = ''EXPAND''"
        "compare_page ins st (ks ! (length more - 1)) (last window_counts) bars' db = Inr (last more)"
      using w(2) Cons.IH [of "n + 1" b "cs @ [c]" t] by auto
    then show ?thesis using True by (intro exI [of _ "c # more"]) (auto simp: nth_Cons' Suc_le_eq)
  next
    case False
    then have "cs' = cs @ [c]" "bars' = b" using w(2) by (auto split: if_splits)
    then show ?thesis using cmp by (intro exI [of _ "[c]"]) simp
  qed
qed simp

lemma revision_acquired:
  assumes "acquire_revision en dir db ins st s = (Inr (bars, cs, a), s')"
  shows "windows_compared db ins st bars cs"
proof -
  obtain t t' where "window_steps en dir db ins st 1 window_counts [] [] t = (Inr (bars, cs), t')"
    using assms by (auto simp: acquire_revision_def abind_Inr)
  from window_steps_result [OF this] show ?thesis by (auto simp: windows_compared_def window_counts_def)
qed

lemma unresolved_frame:
  assumes "record_unresolved_revision now run q db = (res, db')"
  shows "same_rows db db' \<and> watermarks db' = watermarks db \<and> (\<forall>e. res = Inl e \<longrightarrow> db' = db)"
  using assms insert_revision_event_parts
  by (fastforce simp: record_unresolved_revision_def transaction_def ebind_eq_Inr update_run_def same_rows_def
      split: sum.splits prod.splits)

lemma revision_failure_frame:
  assumes "record_revision_failure now run code arts db = (res, db')"
  shows "same_rows db db' \<and> watermarks db' = watermarks db \<and> revisions db' = revisions db"
  using assms by (auto simp: record_revision_failure_def transaction_def ebind_eq_Inr update_run_def same_rows_def
      split: sum.splits prod.splits)

definition applied_end ::
  "CanonicalInstrument \<Rightarrow> InstrumentState \<Rightarrow> int option \<Rightarrow> int \<Rightarrow> Replacement \<Rightarrow> market_db \<Rightarrow> market_db \<Rightarrow> bool" where
  "applied_end ins st approved run m db db' =
     (\<exists>q dbc. br_instrument q = ins \<and> br_state q = st \<and> br_approved q = approved
        \<and> windows_compared db ins st (br_bars q) (br_comparisons q)
        \<and> rc_decision (last (br_comparisons q)) = ''READY_TO_APPLY'' \<and> authorised q (rp_event m) db
        \<and> bounded_effect run q m db dbc \<and> market_wf dbc \<and> db' = dbc\<lparr>runs := runs db'\<rparr>)"

lemma revision_attempt_ends:
  assumes "revision_attempt en dir run ins st approved db = (res, s, db')" and wf: "market_wf db"
  shows "case res of
      Inl e \<Rightarrow> db' = db
    | Inr (Applied m) \<Rightarrow> applied_end ins st approved run m db db'
    | Inr (Unresolved e reason) \<Rightarrow> same_rows db db' \<and> watermarks db' = watermarks db
    | Inr _ \<Rightarrow> False"
proof (cases "acquire_revision en dir db ins st (start_acquisition [] None)")
  case (Pair q t)
  show ?thesis
  proof (cases q)
    case (Inl e)
    then show ?thesis using assms(1) Pair by (auto simp: revision_attempt_def)
  next
    case (Inr y)
    obtain bars cs a where y: "y = (bars, cs, a)" by (cases y)
    let ?q = "bounded_request ins st approved bars cs a s"
    note win = revision_acquired [OF Pair [unfolded Inr y]]
    have d: "decide_revision en run ?q db = (res, db')"
      using assms(1) Pair Inr y by (auto simp: revision_attempt_def split: prod.splits)
    have c: "br_comparisons ?q = cs" by (simp add: bounded_request_def)
    show ?thesis
    proof (cases "rc_decision (last cs) = ''READY_TO_APPLY''")
      case True
      obtain p where p: "commit_bounded_revision (en_migrated en) (en_now en) run ?q db = (p, db')" "res = map_sum id Applied p"
        using d True c by (auto simp: decide_revision_def split: prod.splits)
      note e = commit_bounded_cases [OF wf p(1)]
      show ?thesis
      proof (cases p)
        case (Inl x)
        then show ?thesis using e p(2) by simp
      next
        case (Inr m)
        then have "applied_end ins st approved run m db db'" unfolding applied_end_def
          using e win True by (intro exI [of _ ?q] exI [of _ db']) (simp add: bounded_request_def)
        then show ?thesis using Inr p(2) by simp
      qed
    next
      case False
      obtain p where p: "record_unresolved_revision (en_now en) run ?q db = (p, db')"
          "res = map_sum id (\<lambda>(event, reason). Unresolved event reason) p"
        using d False c by (auto simp: decide_revision_def split: prod.splits)
      show ?thesis using unresolved_frame [OF p(1)] p(2) by (cases p) (auto split: prod.splits)
    qed
  qed
qed

text \<open>C21: The summary of a bounded reconciliation tells the truth. It started only from a stale series, or
  from an active one with an approved event, compared at most three growing windows that were all
  undecided but the last, and on PASS that last comparison was ready and the tables are those of one
  authorised, confined apply of exactly its bars. A BLOCKED end preserved the evidence and a failure
  only the sources: no market row and no watermark moved.\<close>

theorem revision_run_outcome:
  assumes "market_wf db" and "run_bounded_revision_reconcile en k trigger approved db = (Inr r, db')"
  shows "\<exists>ins st run_id db1. instrument_of_key (en_canonical en) k = Inr ins
    \<and> (case approved of None \<Rightarrow> load_revision_state ins db | Some event \<Rightarrow> load_approved_revision_state ins event db) = Inr st
    \<and> create_run (en_file_sha en) run_id [ins] trigger db = (Inr (rr_db_run r), db1)
    \<and> (case rr_result r of
         Applied m \<Rightarrow> rr_status r = ''PASS'' \<and> applied_end ins st approved (rr_db_run r) m db1 db'
       | Unresolved e reason \<Rightarrow> rr_status r = ''BLOCKED'' \<and> rr_error r = Some unresolved_code
           \<and> same_rows db db' \<and> watermarks db' = watermarks db
       | NoResult \<Rightarrow> (\<exists>code. rr_error r = Some code \<and> rr_status r = failure_status code)
           \<and> same_rows db db' \<and> watermarks db' = watermarks db
       | _ \<Rightarrow> False)"
proof -
  obtain ins st run_id dir run db1 where i: "instrument_of_key (en_canonical en) k = Inr ins"
      "(case approved of None \<Rightarrow> load_revision_state ins db | Some event \<Rightarrow> load_approved_revision_state ins event db) = Inr st"
    and c: "create_run (en_file_sha en) run_id [ins] trigger db = (Inr run, db1)"
    and att: "end_revision en dir run_id run ins (revision_attempt en dir run ins st approved db1) = (Inr r, db')"
    using assms(2) by (auto simp: run_bounded_revision_reconcile_def case_value case_state ebind_eq_Inr)
  note cr = created_run_frame [OF c]
  have wf1: "market_wf db1" using cr assms(1) by simp
  obtain res s db2 where a: "revision_attempt en dir run ins st approved db1 = (res, s, db2)" using prod_cases3 by blast
  note e = revision_attempt_ends [OF a wf1]
  show ?thesis
  proof (cases res)
    case (Inl x)
    then have same: "db2 = db1" using e by simp
    obtain db3 where f: "record_revision_failure (en_now en) run (revision_error_code x) (aq_charts s) db2 = (Inr (), db3)"
        "finish_with en dir run_id run (failure_status (revision_error_code x)) (Some (revision_error_code x))
           (Some (i_key ins)) None (Some (i_key ins)) 0 NoResult s db3 = (Inr r, db')"
      using att a Inl by (auto simp: end_revision_def Let_def case_state)
    note g = finished_run [OF f(2)] and h = revision_failure_frame [OF f(1)]
    have "same_rows db3 db'" "watermarks db' = watermarks db3" using g runs_only [of db' db3] by simp_all
    then have "same_rows db db' \<and> watermarks db' = watermarks db" using h cr same same_rows_trans by metis
    then show ?thesis using i c g by (intro exI [of _ ins] exI [of _ st] exI [of _ run_id] exI [of _ db1]) simp
  next
    case (Inr result)
    show ?thesis
    proof (cases "\<exists>m. result = Applied m")
      case True
      then obtain m where m: "result = Applied m" by blast
      have fin: "finish_with en dir run_id run ''PASS'' None None None (Some (i_key ins)) 1 (Applied m) s db2 = (Inr r, db')"
        using att a Inr m by (simp add: end_revision_def)
      note f = finished_run [OF fin]
      have "applied_end ins st approved run m db1 db'"
        using e Inr m f unfolding applied_end_def by simp (metis runs_only_chain)
      then show ?thesis using i c f m by (intro exI [of _ ins] exI [of _ st] exI [of _ run_id] exI [of _ db1]) simp
    next
      case False
      then obtain ev reason where u: "result = Unresolved ev reason" using e Inr by (cases result) auto
      have fin: "finish_with en dir run_id run ''BLOCKED'' (Some unresolved_code) (Some (i_key ins)) None (Some (i_key ins))
          0 (Unresolved ev reason) s db2 = (Inr r, db')"
        using att a Inr u by (simp add: end_revision_def)
      note f = finished_run [OF fin]
      have "same_rows db2 db'" "watermarks db' = watermarks db2" using f runs_only [of db' db2] by simp_all
      then have "same_rows db db' \<and> watermarks db' = watermarks db" using e Inr u cr same_rows_trans by simp metis
      then show ?thesis using i c f u by (intro exI [of _ ins] exI [of _ st] exI [of _ run_id] exI [of _ db1]) simp
    qed
  qed
qed

end
