(* ===== verification/RunExamples.thy ===== *)
theory RunExamples
  imports ReconcileLoop RevisionRun
begin

text \<open>
  A complete incremental run of one instrument evaluated inside the logic: the gateway answers with the
  instrument detail, an empty schedule and a short chart page, and the two bars are committed. It is the
  concrete input of the witnesses of the run properties.
\<close>

section \<open>A concrete run\<close>

definition run_registry :: "CanonicalInstrument list" where
  "run_registry = tip_instrument # map (\<lambda>n. tip_instrument\<lparr>i_key := ''x'' @ show_int n, i_uic := n\<rparr>)
     [101, 102, 103, 104, 105, 106, 107, 108, 109, 110, 111, 112]"

definition run_candidates :: "CanonicalInstrument list" where
  "run_candidates = map (\<lambda>(k, n). \<lparr> i_category = ''fx'', i_key = k, i_symbol = upper k, i_uic = n,
      i_asset_type = ''FxSpot'', i_currency = ''USD'' \<rparr>) [(''audusd'', 4), (''usdcad'', 38), (''usdchf'', 39)]"

definition run_times :: "utc list" where
  "run_times = map (\<lambda>n. tip_open + n * hour) [5, 6]"

definition run_sample :: "utc \<Rightarrow> json" where
  "run_sample t = JObj [(''Time'', JStr (iso_utc t)), (''Open'', JInt 11), (''High'', JInt 12), (''Low'', JInt 10),
     (''Close'', JInt 11), (''Volume'', JInt 5)]"

definition run_network :: "utc list \<Rightarrow> network" where
  "run_network ts rq n =
     (if starts_with detail_prefix (rq_path rq)
      then Response 200 [] (Some (JObj [(''Uic'', JInt 37), (''AssetType'', JStr ''Etf''), (''Symbol'', JStr ''TIP:arcx''),
        (''CurrencyCode'', JStr ''USD'')]))
      else if starts_with schedule_prefix (rq_path rq)
      then Response 200 [] (Some (JObj [(''Sessions'', JArr [])]))
      else Response 200 [] (Some (JObj [(''ChartInfo'', JObj [(''Horizon'', JInt 60)]), (''DataVersion'', JInt 29759067),
        (''Data'', JArr (map run_sample ts))])))"

definition run_surroundings :: Surroundings where
  "run_surroundings = \<lparr> en_net = run_network run_times, en_client = GivenClient example_client, en_encoding = (\<lambda>_. (example_sha, 1)),
     en_digest = (\<lambda>_. []), en_manifest_digest = (\<lambda>_. (example_sha, 1)), en_file_sha = (\<lambda>_. []),
     en_stamp = ''20260730T143000Z'', en_suffix = ''0123abcd'', en_now = tip_open + day, en_migrated = True,
     en_canonical = run_registry, en_candidates = run_candidates \<rparr>"

definition run_market :: market_db where
  "run_market = tip_db\<lparr>curated := map (\<lambda>n. curated_row (tip_raw 5 (tip_open + n * hour)))
       [-13, -12, -11, -10, -9, -8, -7, -6, -5, -4, -3, -2, -1, 0, 1, 2, 3, 4, 5, 6],
     watermarks := [tip_watermark ''ACTIVE'']\<rparr>"

definition example_run :: "(exn + RunSummary) \<times> market_db" where
  "example_run = run_incremental run_surroundings (Some [''TIP'']) ''manual_db3'' False run_market"

lemma example_run_commits:
  "case example_run of (Inl _, _) \<Rightarrow> False
   | (Inr r, db') \<Rightarrow> (case rr_result r of Committed m \<Rightarrow> cm_raw m = 2 | _ \<Rightarrow> False)"
  by code_simp

lemma run_market_wf: "market_wf run_market"
  by code_simp

theorem run_incremental_outcome_witness:
  "\<exists>r m db'. example_run = (Inr r, db') \<and> rr_result r = Committed m \<and> rr_status r = ''PASS''
     \<and> (\<exists>registry db1. committed_end (tip_open + day) registry (rr_db_run r) m db1 db')"
proof -
  obtain r m db' where r: "example_run = (Inr r, db')" "rr_result r = Committed m"
    using example_run_commits by (auto split: prod.splits sum.splits run_outcome.splits)
  have now: "en_now run_surroundings = tip_open + day" by (simp add: run_surroundings_def)
  from run_incremental_outcome [OF run_market_wf r(1) [unfolded example_run_def]] r show ?thesis
    unfolding now by (clarsimp, blast)
qed

text \<open>The same gateway answers a full refetch of a stale series whose two stored bars it still knows.\<close>

definition refetch_surroundings :: Surroundings where
  "refetch_surroundings = run_surroundings\<lparr>en_client := GivenClient (example_client\<lparr>endpoint_profile := LegacyRead\<rparr>)\<rparr>"

definition refetch_market :: market_db where
  "refetch_market = tip_db\<lparr>curated := map (\<lambda>n. curated_row (tip_raw 5 (tip_open + n * hour))) [5],
     watermarks := [tip_watermark ''STALE_DATA_VERSION'']\<rparr>"

definition example_refetch :: "(exn + RunSummary) \<times> market_db" where
  "example_refetch = run_full_refetch refetch_surroundings ''TIP'' ''manual_db3_full_refetch'' refetch_market"

lemma example_refetch_commits:
  "case example_refetch of (Inl _, _) \<Rightarrow> False
   | (Inr r, db') \<Rightarrow> (case rr_result r of Committed m \<Rightarrow> cm_raw m = 2 | _ \<Rightarrow> False)"
  by code_simp

lemma refetch_market_wf: "market_wf refetch_market"
  by code_simp

theorem run_full_refetch_outcome_witness:
  "\<exists>r m db'. example_refetch = (Inr r, db') \<and> rr_result r = Committed m \<and> rr_status r = ''PASS''
     \<and> (\<exists>ins db1. refetched_end (en_now refetch_surroundings) ins (rr_db_run r) m db1 db')"
proof -
  obtain r m db' where r: "example_refetch = (Inr r, db')" "rr_result r = Committed m"
    using example_refetch_commits by (auto split: prod.splits sum.splits run_outcome.splits)
  from run_full_refetch_outcome [OF refetch_market_wf r(1) [unfolded example_refetch_def]] r show ?thesis
    by (clarsimp, blast)
qed

definition example_world :: World where
  "example_world = \<lparr> wd_surroundings = (\<lambda>_. refetch_surroundings), wd_turn = 0, wd_db = refetch_market \<rparr>"

theorem reconciliation_keeps_market_wf_witness:
  "market_wf (wd_db (snd (default_reconcile run_registry 2 None example_world)))"
  by (rule reconciliation_keeps_market_wf) (simp add: example_world_def refetch_market_wf)

text \<open>An empty page ends a bounded reconciliation with an index error before the check for empty windows.\<close>

definition revised_surroundings :: Surroundings where
  "revised_surroundings = refetch_surroundings\<lparr>en_net := run_network []\<rparr>"

definition example_revision_run :: "(exn + RunSummary) \<times> market_db" where
  "example_revision_run = run_bounded_revision_reconcile revised_surroundings ''TIP'' ''manual_db3_bounded_revision'' None refetch_market"

lemma example_revision_fails:
  "case example_revision_run of (Inl _, _) \<Rightarrow> False
   | (Inr r, db') \<Rightarrow> rr_error r = Some ''FAILED_INDEXERROR'' \<and> rr_status r = ''FAILED'' \<and> rr_result r = NoResult"
  by code_simp

theorem revision_run_outcome_witness:
  "\<exists>r db'. example_revision_run = (Inr r, db') \<and> rr_status r = ''FAILED'' \<and> same_rows refetch_market db'"
proof -
  obtain r db' where r: "example_revision_run = (Inr r, db')" "rr_status r = ''FAILED''" "rr_result r = NoResult"
    using example_revision_fails by (auto split: prod.splits sum.splits)
  from revision_run_outcome [OF refetch_market_wf r(1) [unfolded example_revision_run_def]] r show ?thesis
    by (clarsimp, blast)
qed

end
