(* ===== verification/PyJson.thy ===== *)
theory PyJson
  imports PyText
begin

text \<open>
  What the readers of JSON documents do with values whose type they have not checked: conversions
  with \<open>str\<close> and \<open>float\<close>, Python's equality (\<open>1 == True == 1.0\<close>, dictionaries without regard to the
  order of their keys) and the membership test in a set, which raises for unhashable values.
  An object as \<open>json.loads\<close> returns it has distinct keys.
\<close>

section \<open>Conversions\<close>

text \<open>\<open>value == 1\<close>: also \<open>True\<close> and \<open>1.0\<close>.\<close>

fun equals_one :: "json \<Rightarrow> bool" where
  "equals_one (JInt n) = (n = 1)"
| "equals_one (JBool b) = b"
| "equals_one (JDec d) = (d = Fin 1)"
| "equals_one _ = False"

text \<open>\<open>str(value)\<close>; the texts of floats, lists and dictionaries are a parameter.\<close>

fun py_str :: "(json \<Rightarrow> string) \<Rightarrow> json \<Rightarrow> string" where
  "py_str shown (JStr s) = s"
| "py_str shown (JInt i) = show_int i"
| "py_str shown (JBool b) = (if b then ''True'' else ''False'')"
| "py_str shown JNull = ''None''"
| "py_str shown v = shown v"

text \<open>\<open>float(value)\<close>; the decimal texts are those of \<open>Decimal\<close> less its NaN payloads.\<close>

fun py_float :: "json \<Rightarrow> exn + decimal" where
  "py_float (JInt i) = Inr (Fin (of_int i))"
| "py_float (JBool b) = Inr (Fin (if b then 1 else 0))"
| "py_float (JDec d) = Inr d"
| "py_float (JStr s) =
     (case dec_of_text s of
        None \<Rightarrow> Inl (ValueError ''could not convert string to float'')
      | Some d \<Rightarrow> if d = NaN \<and> lower (snd (split_sign (strip s))) \<noteq> ''nan''
                  then Inl (ValueError ''could not convert string to float'') else Inr d)"
| "py_float _ = Inl TypeError"

definition required_field :: "(string \<times> json) list \<Rightarrow> string \<Rightarrow> exn + json" where
  "required_field kvs k = (case map_of kvs k of None \<Rightarrow> Inl KeyError | Some v \<Rightarrow> Inr v)"

section \<open>Equality\<close>

fun number_of :: "json \<Rightarrow> decimal option" where
  "number_of (JInt i) = Some (Fin (of_int i))"
| "number_of (JBool b) = Some (Fin (if b then 1 else 0))"
| "number_of (JDec d) = Some d"
| "number_of _ = None"

definition same_number :: "json \<Rightarrow> json \<Rightarrow> bool" where
  "same_number a b = (case number_of a of None \<Rightarrow> False | Some x \<Rightarrow> x \<noteq> NaN \<and> number_of b = Some x)"

text \<open>\<open>a == b\<close>.\<close>

fun py_eq :: "json \<Rightarrow> json \<Rightarrow> bool" and py_eq_list :: "json list \<Rightarrow> json list \<Rightarrow> bool"
  and py_eq_items :: "(string \<times> json) list \<Rightarrow> (string \<times> json) list \<Rightarrow> bool" where
  "py_eq JNull b = (b = JNull)"
| "py_eq (JStr s) b = (b = JStr s)"
| "py_eq (JArr xs) b = (case b of JArr ys \<Rightarrow> py_eq_list xs ys | _ \<Rightarrow> False)"
| "py_eq (JObj kvs) b = (case b of JObj lvs \<Rightarrow> length kvs = length lvs \<and> py_eq_items kvs lvs | _ \<Rightarrow> False)"
| "py_eq (JInt i) b = same_number (JInt i) b"
| "py_eq (JBool t) b = same_number (JBool t) b"
| "py_eq (JDec d) b = same_number (JDec d) b"
| "py_eq_list [] ys = (ys = [])"
| "py_eq_list (x # xs) ys = (case ys of [] \<Rightarrow> False | y # ys' \<Rightarrow> py_eq x y \<and> py_eq_list xs ys')"
| "py_eq_items [] lvs = True"
| "py_eq_items ((k, v) # kvs) lvs = (case map_of lvs k of None \<Rightarrow> False | Some w \<Rightarrow> py_eq v w \<and> py_eq_items kvs lvs)"

lemma py_eq_text [simp]: "py_eq v (JStr s) \<longleftrightarrow> v = JStr s"
  by (cases v) (auto simp: same_number_def)

lemma py_eq_null [simp]: "py_eq v JNull \<longleftrightarrow> v = JNull"
  by (cases v) (auto simp: same_number_def)

text \<open>\<open>value in {texts}\<close>.\<close>

definition in_texts :: "json \<Rightarrow> string list \<Rightarrow> exn + bool" where
  "in_texts v ts = (case v of JArr _ \<Rightarrow> Inl TypeError | JObj _ \<Rightarrow> Inl TypeError
     | JStr s \<Rightarrow> Inr (s \<in> set ts) | _ \<Rightarrow> Inr False)"

lemma in_texts_True [simp]: "in_texts v ts = Inr True \<longleftrightarrow> (\<exists>s \<in> set ts. v = JStr s)"
  by (cases v) (auto simp: in_texts_def)

text \<open>\<open>isinstance(value, int)\<close>, which \<open>True\<close> and \<open>False\<close> satisfy, with the number.\<close>

fun int_instance :: "json \<Rightarrow> int option" where
  "int_instance (JInt i) = Some i"
| "int_instance (JBool b) = Some (if b then 1 else 0)"
| "int_instance _ = None"

text \<open>\<open>str(value or "")\<close> and \<open>int(value or 0)\<close>.\<close>

definition str_or_empty :: "(json \<Rightarrow> string) \<Rightarrow> json \<Rightarrow> string" where
  "str_or_empty shown v = (if truthy v then py_str shown v else [])"

definition int_or_zero :: "json \<Rightarrow> exn + int" where
  "int_or_zero v = (if truthy v then py_int v else Inr 0)"

end
