(* ===== verification/OAuth.thy ===== *)
theory OAuth
  imports PyJson Effects "HOL-Library.AList"
begin

text \<open>
  \<open>market_db/saxo_auth.py\<close>: the OAuth PKCE manager of the SIM gateway. The refresh credential lives in
  the keychain, access tokens only in the manager. The digest, the texts of composite values and the
  token endpoint are parameters; the clock is read one tick at a time. Seconds are rationals, where the
  source has floats.
\<close>

section \<open>Configuration\<close>

definition sim_authorization_url :: string where
  "sim_authorization_url = ''https://sim.logonvalidation.net/authorize''"
definition sim_token_url :: string where
  "sim_token_url = ''https://sim.logonvalidation.net/token''"
definition default_callback_port :: int where "default_callback_port = 8764"
definition callback_path :: string where "callback_path = ''/saxo/oauth/callback''"
definition min_refresh_margin :: rat where "min_refresh_margin = 30"
definition access_refresh_margin :: rat where "access_refresh_margin = 300"

record OAuthConfig =
  oc_app_key :: string
  oc_port :: int
  oc_authorization_url :: string
  oc_token_url :: string

text \<open>\<open>__post_init__\<close>.\<close>

definition check_config :: "OAuthConfig \<Rightarrow> exn + OAuthConfig" where
  "check_config c =
     (if strip (oc_app_key c) = [] \<or> 256 < length (oc_app_key c) then Inl (SaxoAuthError ''AUTH_CONFIG_MISSING'')
      else if \<not> (1024 \<le> oc_port c \<and> oc_port c \<le> 65535) then Inl (SaxoAuthError ''AUTH_CALLBACK_PORT_INVALID'')
      else if oc_authorization_url c \<noteq> sim_authorization_url \<or> oc_token_url c \<noteq> sim_token_url
      then Inl (SaxoAuthError ''AUTH_NON_SIM_ENDPOINT_BLOCKED'')
      else Inr c)"

definition config_of :: "string \<Rightarrow> int \<Rightarrow> exn + OAuthConfig" where
  "config_of k port = check_config \<lparr> oc_app_key = k, oc_port = port,
     oc_authorization_url = sim_authorization_url, oc_token_url = sim_token_url \<rparr>"

text \<open>The environment variable, then the keychain entry of the operator (\<open>None\<close>: bytes that are no UTF-8).\<close>

definition config_from_environment :: "string option \<Rightarrow> int \<Rightarrow> exn + OAuthConfig" where
  "config_from_environment env port = config_of (strip (case env of None \<Rightarrow> [] | Some s \<Rightarrow> s)) port"

definition config_from_local :: "string option \<Rightarrow> exn + string option option \<Rightarrow> int \<Rightarrow> exn + OAuthConfig" where
  "config_from_local env stored port =
     (let selected = strip (case env of None \<Rightarrow> [] | Some s \<Rightarrow> s)
      in if selected \<noteq> [] then config_of selected port
         else ebind stored (\<lambda>raw.
           case raw of
             None \<Rightarrow> Inl (SaxoAuthError ''AUTH_CONFIG_MISSING'')
           | Some None \<Rightarrow> Inl (SaxoAuthError ''AUTH_APP_KEY_KEYCHAIN_VALUE_INVALID'')
           | Some (Some s) \<Rightarrow> config_of (strip s) port))"

definition redirect_uri :: "OAuthConfig \<Rightarrow> string" where
  "redirect_uri c = ''http://localhost:'' @ show_int (oc_port c) @ callback_path"

text \<open>The digests of the application key.\<close>

type_synonym digest_text = "string \<Rightarrow> string"

definition keychain_account :: "digest_text \<Rightarrow> OAuthConfig \<Rightarrow> string" where
  "keychain_account sha c = ''pkce-'' @ take 24 (sha (oc_app_key c))"

definition app_key_fingerprint :: "digest_text \<Rightarrow> OAuthConfig \<Rightarrow> string" where
  "app_key_fingerprint sha c = sha (oc_app_key c)"

section \<open>The stored credential\<close>

record RefreshCredential =
  rf_token :: string
  rf_verifier :: string
  rf_expires :: decimal
  rf_fingerprint :: string

definition credential_json :: "RefreshCredential \<Rightarrow> json" where
  "credential_json c = JObj
     [(''app_key_fingerprint'', JStr (rf_fingerprint c)), (''code_verifier'', JStr (rf_verifier c)),
      (''expires_at_epoch'', JDec (rf_expires c)), (''refresh_token'', JStr (rf_token c)), (''schema_version'', JInt 1)]"

text \<open>\<open>except (KeyError, TypeError, ValueError, ...)\<close> around the reading of a payload.\<close>

definition or_invalid :: "string \<Rightarrow> exn + 'a \<Rightarrow> exn + 'a" where
  "or_invalid code r =
     (case r of Inl (ValueError m) \<Rightarrow> Inl (SaxoAuthError code) | Inl KeyError \<Rightarrow> Inl (SaxoAuthError code)
      | Inl TypeError \<Rightarrow> Inl (SaxoAuthError code) | _ \<Rightarrow> r)"

text \<open>The stored bytes: \<open>None\<close> when they are no JSON text.\<close>

definition read_credential :: "(json \<Rightarrow> string) \<Rightarrow> json option \<Rightarrow> exn + RefreshCredential" where
  "read_credential shown value =
     (case value of
        Some (JObj kvs) \<Rightarrow>
          if \<not> equals_one (jget kvs ''schema_version'') then Inl (ValueError [])
          else ebind (required_field kvs ''refresh_token'') (\<lambda>token.
               ebind (required_field kvs ''code_verifier'') (\<lambda>verifier.
               ebind (ebind (required_field kvs ''expires_at_epoch'') py_float) (\<lambda>expires.
               ebind (required_field kvs ''app_key_fingerprint'') (\<lambda>fingerprint.
                 Inr \<lparr> rf_token = py_str shown token, rf_verifier = py_str shown verifier, rf_expires = expires,
                       rf_fingerprint = py_str shown fingerprint \<rparr>))))
      | _ \<Rightarrow> Inl (ValueError []))"

definition credential_ok :: "RefreshCredential \<Rightarrow> bool" where
  "credential_ok c = (rf_token c \<noteq> [] \<and> 43 \<le> length (rf_verifier c) \<and> length (rf_verifier c) \<le> 128)"

definition credential_from_bytes :: "(json \<Rightarrow> string) \<Rightarrow> json option \<Rightarrow> exn + RefreshCredential" where
  "credential_from_bytes shown value =
     ebind (or_invalid ''AUTH_KEYCHAIN_VALUE_INVALID'' (read_credential shown value)) (\<lambda>c.
       if credential_ok c then Inr c else Inl (SaxoAuthError ''AUTH_KEYCHAIN_VALUE_INVALID''))"

section \<open>Keychain, token endpoint and clock\<close>

text \<open>The operating system's answers that are no content: faults are status numbers, 0 for none.\<close>

record Keychain =
  kc_available :: bool
  kc_items :: "(string \<times> json option) list"
  kc_read_fault :: int
  kc_write_fault :: int
  kc_delete_fault :: int

definition keychain_get :: "string \<Rightarrow> Keychain \<Rightarrow> exn + json option option" where
  "keychain_get account kc =
     (if \<not> kc_available kc then Inl (SaxoAuthError ''AUTH_KEYCHAIN_UNAVAILABLE'')
      else let status = (if kc_read_fault kc \<noteq> 0 then kc_read_fault kc
                         else if map_of (kc_items kc) account = None then - 25300 else 0)
           in if status = - 25300 then Inr None
              else if status \<noteq> 0 then Inl (SaxoAuthError ''AUTH_KEYCHAIN_READ_FAILED'')
              else Inr (map_of (kc_items kc) account))"

definition keychain_put :: "string \<Rightarrow> json \<Rightarrow> Keychain \<Rightarrow> exn + Keychain" where
  "keychain_put account value kc =
     (if \<not> kc_available kc then Inl (SaxoAuthError ''AUTH_KEYCHAIN_UNAVAILABLE'')
      else if kc_write_fault kc \<noteq> 0 then Inl (SaxoAuthError ''AUTH_KEYCHAIN_WRITE_FAILED'')
      else Inr (kc\<lparr>kc_items := AList.update account (Some value) (kc_items kc)\<rparr>))"

definition keychain_delete :: "string \<Rightarrow> Keychain \<Rightarrow> exn + Keychain" where
  "keychain_delete account kc =
     (if \<not> kc_available kc then Inl (SaxoAuthError ''AUTH_KEYCHAIN_UNAVAILABLE'')
      else let status = (if kc_delete_fault kc \<noteq> 0 then kc_delete_fault kc
                         else if map_of (kc_items kc) account = None then 44 else 0)
           in if status = 0 then Inr (kc\<lparr>kc_items := AList.delete account (kc_items kc)\<rparr>)
              else if status = 44 then Inr kc
              else Inl (SaxoAuthError ''AUTH_KEYCHAIN_DELETE_FAILED''))"

text \<open>The answer to one POST; \<open>None\<close> is a body that is no JSON text.\<close>

datatype token_answer = Unreachable | Answer int "json option"

type_synonym 'n token_endpoint = "string \<Rightarrow> (string \<times> string) list \<Rightarrow> 'n \<Rightarrow> token_answer \<times> 'n"

record 'n OAuthWorld =
  ow_net :: 'n
  ow_posts :: "(string \<times> (string \<times> string) list) list"
  ow_keychain :: Keychain
  ow_clock :: "nat \<Rightarrow> rat"
  ow_tick :: nat

text \<open>\<open>post_form\<close> of the transport.\<close>

definition post_form ::
  "'n token_endpoint \<Rightarrow> string \<Rightarrow> (string \<times> string) list \<Rightarrow> ('n OAuthWorld, (string \<times> json) list) effect" where
  "post_form post url form w =
     (if url \<noteq> sim_token_url then (Inl (SaxoAuthError ''AUTH_NON_SIM_ENDPOINT_BLOCKED''), w)
      else case post url form (ow_net w) of
             (answer, n) \<Rightarrow>
               (case answer of
                  Unreachable \<Rightarrow> Inl (SaxoAuthError ''AUTH_TOKEN_ENDPOINT_UNAVAILABLE'')
                | Answer status body \<Rightarrow>
                    if \<not> (200 \<le> status \<and> status < 300)
                    then Inl (SaxoAuthError (if status \<in> {400, 401, 403} then ''AUTH_LOGIN_REQUIRED''
                                             else ''AUTH_TOKEN_HTTP_'' @ show_int status))
                    else (case body of
                            Some (JObj kvs) \<Rightarrow> Inr kvs
                          | _ \<Rightarrow> Inl (SaxoAuthError ''AUTH_TOKEN_RESPONSE_INVALID'')),
                w\<lparr>ow_net := n, ow_posts := ow_posts w @ [(url, form)]\<rparr>))"

section \<open>The manager\<close>

record AccessLease =
  ls_token :: string
  ls_expires :: rat

record OAuthManager =
  og_lease :: "AccessLease option"
  og_refresh_expiry :: "rat option"

definition new_manager :: OAuthManager where
  "new_manager = \<lparr> og_lease = None, og_refresh_expiry = None \<rparr>"

text \<open>The constants of one manager: its configuration and the parameters.\<close>

record 'n OAuthPlatform =
  op_config :: OAuthConfig
  op_sha :: digest_text
  op_shown :: "json \<Rightarrow> string"
  op_post :: "'n token_endpoint"
  op_challenge :: "string \<Rightarrow> string"
  op_urlencode :: "(string \<times> string) list \<Rightarrow> string"

type_synonym ('n, 'a) oauth = "(OAuthManager \<times> 'n OAuthWorld, 'a) effect"

definition read_clock :: "('n, rat) oauth" where
  "read_clock = (\<lambda>(m, w). (Inr (ow_clock w (ow_tick w)), (m, w\<lparr>ow_tick := Suc (ow_tick w)\<rparr>)))"

definition in_oauth_world :: "('n OAuthWorld, 'a) effect \<Rightarrow> ('n, 'a) oauth" where
  "in_oauth_world f = (\<lambda>(m, w). case f w of (r, w') \<Rightarrow> (r, (m, w')))"

definition account :: "'n OAuthPlatform \<Rightarrow> string" where
  "account p = keychain_account (op_sha p) (op_config p)"

definition fingerprint :: "'n OAuthPlatform \<Rightarrow> string" where
  "fingerprint p = app_key_fingerprint (op_sha p) (op_config p)"

definition store_get :: "'n OAuthPlatform \<Rightarrow> ('n, json option option) oauth" where
  "store_get p = (\<lambda>(m, w). (keychain_get (account p) (ow_keychain w), (m, w)))"

definition store_update :: "(Keychain \<Rightarrow> exn + Keychain) \<Rightarrow> ('n, unit) oauth" where
  "store_update f = (\<lambda>(m, w). case f (ow_keychain w) of
      Inl e \<Rightarrow> (Inl e, (m, w)) | Inr kc \<Rightarrow> (Inr (), (m, w\<lparr>ow_keychain := kc\<rparr>)))"

text \<open>The public status; it never holds a token value.\<close>

record AuthStatus =
  as_status :: string
  as_fingerprint :: string
  as_token_in_memory :: bool
  as_access_expires :: "string option"
  as_credential_present :: bool
  as_refresh_expires :: "string option"

text \<open>Comparisons of floats: NaN compares as false.\<close>

fun dec_gt :: "decimal \<Rightarrow> rat \<Rightarrow> bool" where
  "dec_gt (Fin q) r = (r < q)" | "dec_gt NaN r = False" | "dec_gt (Infinite neg) r = (\<not> neg)"

fun dec_le :: "decimal \<Rightarrow> rat \<Rightarrow> bool" where
  "dec_le (Fin q) r = (q \<le> r)" | "dec_le NaN r = False" | "dec_le (Infinite neg) r = neg"

text \<open>\<open>_utc_text(datetime.fromtimestamp(value, utc))\<close>, rounded to microseconds.\<close>

fun epoch_text :: "decimal \<Rightarrow> exn + string" where
  "epoch_text (Fin q) =
     (let t = round_half_even (q * 1000000)
      in if year_ok (date_of_utc t) then Inr (iso_utc t) else Inl (ValueError ''year is out of range''))"
| "epoch_text NaN = Inl (ValueError ''cannot convert float NaN to integer'')"
| "epoch_text (Infinite _) = Inl OverflowError"

definition optional_text :: "decimal option \<Rightarrow> exn + string option" where
  "optional_text d = (case d of None \<Rightarrow> Inr None | Some x \<Rightarrow> ebind (epoch_text x) (\<lambda>t. Inr (Some t)))"

text \<open>The status code and the expiry of the stored credential.\<close>

definition stored_status :: "'n OAuthPlatform \<Rightarrow> rat \<Rightarrow> exn + json option option \<Rightarrow> exn + string \<times> decimal option" where
  "stored_status p now got =
     (case ebind got (\<lambda>encoded.
         case encoded of
           None \<Rightarrow> Inr (''AUTH_LOGIN_REQUIRED'', None)
         | Some v \<Rightarrow> ebind (credential_from_bytes (op_shown p) v) (\<lambda>c.
             if rf_fingerprint c \<noteq> fingerprint p then Inl (SaxoAuthError ''AUTH_APP_KEY_MISMATCH'')
             else Inr (if dec_gt (rf_expires c) (now + min_refresh_margin) then ''AUTH_READY'' else ''AUTH_LOGIN_REQUIRED'',
                       Some (rf_expires c)))) of
        Inl (SaxoAuthError code) \<Rightarrow> Inr (code, None)
      | r \<Rightarrow> r)"

definition auth_status :: "'n OAuthPlatform \<Rightarrow> ('n, AuthStatus) oauth" where
  "auth_status p =
     abind read_clock (\<lambda>now.
     abind (aget (\<lambda>(m, w). (og_lease m, keychain_get (account p) (ow_keychain w)))) (\<lambda>(lease, got).
     alift (ebind (stored_status p now got) (\<lambda>(status, refresh).
            ebind (optional_text (map_option (\<lambda>l. Fin (ls_expires l)) lease)) (\<lambda>access_text.
            ebind (optional_text refresh) (\<lambda>refresh_text.
              Inr \<lparr> as_status = status, as_fingerprint = take 16 (fingerprint p),
                    as_token_in_memory = (case lease of None \<Rightarrow> False | Some l \<Rightarrow> now < ls_expires l),
                    as_access_expires = access_text, as_credential_present = (refresh \<noteq> None),
                    as_refresh_expires = refresh_text \<rparr>))))))"

section \<open>Authorization\<close>

record PendingAuthorization =
  pa_url :: string
  pa_state :: string
  pa_verifier :: string
  pa_redirect :: string

text \<open>The two random texts are arguments.\<close>

definition begin_authorization :: "'n OAuthPlatform \<Rightarrow> string \<Rightarrow> string \<Rightarrow> PendingAuthorization" where
  "begin_authorization p random1 random2 =
     (let verifier = take 96 random1; c = op_config p;
          query = [(''response_type'', ''code''), (''client_id'', oc_app_key c), (''state'', random2),
                   (''redirect_uri'', redirect_uri c), (''code_challenge'', op_challenge p verifier),
                   (''code_challenge_method'', ''S256'')]
      in \<lparr> pa_url = oc_authorization_url c @ ''?'' @ op_urlencode p query, pa_state = random2,
           pa_verifier = verifier, pa_redirect = redirect_uri c \<rparr>)"

record TokenResponse =
  tk_access :: string
  tk_refresh :: string
  tk_access_seconds :: int
  tk_refresh_seconds :: int

definition read_token_response :: "(json \<Rightarrow> string) \<Rightarrow> (string \<times> json) list \<Rightarrow> exn + TokenResponse" where
  "read_token_response shown kvs =
     ebind (or_invalid ''AUTH_TOKEN_RESPONSE_INVALID''
       (ebind (required_field kvs ''access_token'') (\<lambda>access.
        ebind (required_field kvs ''refresh_token'') (\<lambda>refresh.
        ebind (ebind (required_field kvs ''expires_in'') py_int) (\<lambda>access_seconds.
        ebind (ebind (required_field kvs ''refresh_token_expires_in'') py_int) (\<lambda>refresh_seconds.
        ebind (required_field kvs ''token_type'') (\<lambda>token_type.
          Inr (\<lparr> tk_access = py_str shown access, tk_refresh = py_str shown refresh, tk_access_seconds = access_seconds,
                 tk_refresh_seconds = refresh_seconds \<rparr>, py_str shown token_type)))))))) (\<lambda>(r, token_type).
     if tk_access r = [] \<or> tk_refresh r = [] \<or> tk_access_seconds r \<le> 0 \<or> tk_refresh_seconds r \<le> 0
        \<or> lower token_type \<noteq> ''bearer''
     then Inl (SaxoAuthError ''AUTH_TOKEN_RESPONSE_INVALID'') else Inr r)"

definition credential_of :: "'n OAuthPlatform \<Rightarrow> TokenResponse \<Rightarrow> string \<Rightarrow> rat \<Rightarrow> RefreshCredential" where
  "credential_of p r verifier now = \<lparr> rf_token = tk_refresh r, rf_verifier = verifier,
     rf_expires = Fin (now + of_int (tk_refresh_seconds r)), rf_fingerprint = fingerprint p \<rparr>"

text \<open>The keychain is written before the lease is taken.\<close>

definition accept_token_response ::
  "'n OAuthPlatform \<Rightarrow> (string \<times> json) list \<Rightarrow> string \<Rightarrow> ('n, AuthStatus) oauth" where
  "accept_token_response p kvs verifier =
     abind (alift (read_token_response (op_shown p) kvs)) (\<lambda>r.
     abind read_clock (\<lambda>now.
     abind (store_update (keychain_put (account p) (credential_json (credential_of p r verifier now)))) (\<lambda>_.
     abind (aset (\<lambda>(m, w). (\<lparr> og_lease = Some \<lparr> ls_token = tk_access r, ls_expires = now + of_int (tk_access_seconds r) \<rparr>,
                                og_refresh_expiry = Some (now + of_int (tk_refresh_seconds r)) \<rparr>, w))) (\<lambda>_.
       auth_status p))))"

definition complete_authorization :: "'n OAuthPlatform \<Rightarrow> PendingAuthorization \<Rightarrow> string \<Rightarrow> ('n, AuthStatus) oauth" where
  "complete_authorization p pending code =
     (let selected = strip code
      in if selected = [] \<or> 4096 < length selected then araise (SaxoAuthError ''AUTHORIZATION_CODE_INVALID'')
         else abind (in_oauth_world (post_form (op_post p) (oc_token_url (op_config p))
                [(''grant_type'', ''authorization_code''), (''client_id'', oc_app_key (op_config p)), (''code'', selected),
                 (''redirect_uri'', pa_redirect pending), (''code_verifier'', pa_verifier pending)])) (\<lambda>kvs.
              accept_token_response p kvs (pa_verifier pending)))"

section \<open>Access tokens\<close>

definition load_refresh_credential :: "'n OAuthPlatform \<Rightarrow> ('n, RefreshCredential) oauth" where
  "load_refresh_credential p =
     abind (store_get p) (\<lambda>encoded.
     case encoded of
       None \<Rightarrow> araise (SaxoAuthError ''AUTH_LOGIN_REQUIRED'')
     | Some v \<Rightarrow>
         abind (alift (credential_from_bytes (op_shown p) v)) (\<lambda>c.
         if rf_fingerprint c \<noteq> fingerprint p then araise (SaxoAuthError ''AUTH_APP_KEY_MISMATCH'')
         else abind read_clock (\<lambda>now.
           if dec_le (rf_expires c) (now + min_refresh_margin) then araise (SaxoAuthError ''AUTH_LOGIN_REQUIRED'')
           else areturn c)))"

definition refresh_form :: "RefreshCredential \<Rightarrow> (string \<times> string) list" where
  "refresh_form c = [(''grant_type'', ''refresh_token''), (''refresh_token'', rf_token c), (''code_verifier'', rf_verifier c)]"

text \<open>The section under the file lock: read, exchange, store.\<close>

definition refresh_under_lock :: "'n OAuthPlatform \<Rightarrow> ('n, AuthStatus) oauth" where
  "refresh_under_lock p =
     abind (load_refresh_credential p) (\<lambda>c.
     abind (in_oauth_world (post_form (op_post p) (oc_token_url (op_config p)) (refresh_form c))) (\<lambda>kvs.
       accept_token_response p kvs (rf_verifier c)))"

definition lease_fresh :: "rat \<Rightarrow> OAuthManager \<Rightarrow> bool" where
  "lease_fresh now m =
     (case (og_lease m, og_refresh_expiry m) of
        (Some l, Some r) \<Rightarrow> now + access_refresh_margin < ls_expires l \<and> now + access_refresh_margin < r
      | _ \<Rightarrow> False)"

definition access_token :: "'n OAuthPlatform \<Rightarrow> bool \<Rightarrow> ('n, string) oauth" where
  "access_token p force =
     abind read_clock (\<lambda>now.
     abind (aget fst) (\<lambda>m.
     abind (if \<not> force \<and> lease_fresh now m then areturn ()
            else abind (refresh_under_lock p) (\<lambda>_. areturn ())) (\<lambda>_.
     abind (aget fst) (\<lambda>m.
     case og_lease m of
       None \<Rightarrow> araise (SaxoAuthError ''AUTH_TOKEN_RESPONSE_INVALID'')
     | Some l \<Rightarrow> areturn (ls_token l)))))"

definition access_lease :: "'n OAuthPlatform \<Rightarrow> bool \<Rightarrow> ('n, AccessLease) oauth" where
  "access_lease p force =
     abind (access_token p force) (\<lambda>_.
     abind (aget fst) (\<lambda>m.
     case og_lease m of
       None \<Rightarrow> araise (SaxoAuthError ''AUTH_TOKEN_RESPONSE_INVALID'')
     | Some l \<Rightarrow> abind read_clock (\<lambda>now.
         if ls_expires l \<le> now then araise (SaxoAuthError ''AUTH_TOKEN_RESPONSE_INVALID'') else areturn l)))"

definition disconnect :: "'n OAuthPlatform \<Rightarrow> ('n, AuthStatus) oauth" where
  "disconnect p =
     abind (aset (\<lambda>(m, w). (new_manager, w))) (\<lambda>_.
     abind (store_update (keychain_delete (account p))) (\<lambda>_. auth_status p))"

section \<open>The interactive login\<close>

text \<open>One request to the callback server: its path and the first values of its query, empty when absent.\<close>

record CallbackRequest =
  cb_path :: string
  cb_state :: string
  cb_code :: string
  cb_error :: string

record CallbackState =
  cs_code :: "string option"
  cs_error :: "string option"

definition do_get :: "string \<Rightarrow> CallbackRequest \<Rightarrow> CallbackState \<Rightarrow> CallbackState" where
  "do_get expected rq s =
     (if cb_path rq \<noteq> callback_path \<or> cb_state rq \<noteq> expected
      then s\<lparr>cs_error := Some ''AUTH_CALLBACK_STATE_MISMATCH''\<rparr>
      else if cb_error rq \<noteq> [] \<or> cb_code rq = [] then s\<lparr>cs_error := Some ''AUTHORIZATION_DENIED''\<rparr>
      else s\<lparr>cs_code := Some (cb_code rq)\<rparr>)"

text \<open>What the server sees in the half-second slots before the deadline: a request or nothing.\<close>

fun await_callback :: "string \<Rightarrow> CallbackRequest option list \<Rightarrow> CallbackState \<Rightarrow> exn + CallbackState" where
  "await_callback expected slots s =
     (if cs_code s \<noteq> None \<or> cs_error s \<noteq> None then Inr s
      else case slots of
             [] \<Rightarrow> Inl (SaxoAuthError ''AUTH_CALLBACK_TIMEOUT'')
           | None # rest \<Rightarrow> await_callback expected rest s
           | Some rq # rest \<Rightarrow> await_callback expected rest (do_get expected rq s))"

definition interactive_login ::
  "'n OAuthPlatform \<Rightarrow> string \<Rightarrow> string \<Rightarrow> bool \<Rightarrow> CallbackRequest option list \<Rightarrow> ('n, AuthStatus) oauth" where
  "interactive_login p random1 random2 opened slots =
     (let pending = begin_authorization p random1 random2
      in if \<not> opened then araise (SaxoAuthError ''AUTH_BROWSER_OPEN_FAILED'')
         else abind (alift (await_callback (pa_state pending) slots \<lparr> cs_code = None, cs_error = None \<rparr>)) (\<lambda>s.
           case cs_error s of
             Some code \<Rightarrow> araise (SaxoAuthError code)
           | None \<Rightarrow> complete_authorization p pending (case cs_code s of None \<Rightarrow> [] | Some c \<Rightarrow> c)))"

section \<open>The stored credential reads back\<close>

text \<open>A credential read back from the bytes it was stored as is the credential, exactly when it has a
  token and a verifier of 43 to 128 characters; any other is refused as an invalid keychain value.\<close>

theorem credential_roundtrip:
  "credential_from_bytes shown (Some (credential_json c)) =
     (if credential_ok c then Inr c else Inl (SaxoAuthError ''AUTH_KEYCHAIN_VALUE_INVALID''))"
  by (cases c) (simp add: credential_from_bytes_def credential_json_def read_credential_def required_field_def jget_def or_invalid_def)

section \<open>One login\<close>

lemma post_form_posts:
  assumes "post_form post url form w = (r, w')"
  shows "ow_keychain w' = ow_keychain w \<and> ow_posts w' = (if url = sim_token_url then ow_posts w @ [(url, form)] else ow_posts w)"
  using assms by (auto simp: post_form_def split: prod.splits if_splits)

lemma auth_status_frame:
  assumes "auth_status p (m, w) = (r, (m', w'))"
  shows "m' = m \<and> w' = w\<lparr>ow_tick := Suc (ow_tick w)\<rparr>"
  using assms by (auto simp: auth_status_def read_clock_def abind_def aget_def alift_def)

lemma accept_frame:
  assumes "accept_token_response p kvs verifier (m, w) = (r, (m', w'))"
  shows "ow_posts w' = ow_posts w \<and> ow_net w' = ow_net w"
  using assms
  by (auto simp: accept_token_response_def abind_def read_clock_def store_update_def aset_def alift_def
      split: prod.splits sum.splits dest: auth_status_frame)

definition code_form :: "'n OAuthPlatform \<Rightarrow> PendingAuthorization \<Rightarrow> string \<Rightarrow> (string \<times> string) list" where
  "code_form p pending code = [(''grant_type'', ''authorization_code''), (''client_id'', oc_app_key (op_config p)),
     (''code'', strip code), (''redirect_uri'', pa_redirect pending), (''code_verifier'', pa_verifier pending)]"

lemma complete_authorization_posts:
  assumes "complete_authorization p pending code (m, w) = (r, (m', w'))"
  shows "(ow_posts w' = ow_posts w \<and> m' = m \<and> ow_keychain w' = ow_keychain w)
    \<or> (oc_token_url (op_config p) = sim_token_url \<and> ow_posts w' = ow_posts w @ [(sim_token_url, code_form p pending code)])"
proof (cases "strip code = [] \<or> 4096 < length (strip code)")
  case True
  then show ?thesis using assms by (simp add: complete_authorization_def Let_def araise_def)
next
  case False
  obtain q w1 where f: "post_form (op_post p) (oc_token_url (op_config p)) (code_form p pending code) w = (q, w1)"
    by (cases "post_form (op_post p) (oc_token_url (op_config p)) (code_form p pending code) w")
  note posts = post_form_posts [OF f]
  show ?thesis
  proof (cases q)
    case (Inl e)
    then have "(m', w') = (m, w1)" using assms False f
      by (simp add: complete_authorization_def Let_def abind_def in_oauth_world_def code_form_def)
    then show ?thesis using posts by (auto split: if_splits)
  next
    case (Inr kvs)
    then have u: "oc_token_url (op_config p) = sim_token_url" using f by (auto simp: post_form_def split: if_splits)
    have "accept_token_response p kvs (pa_verifier pending) (m, w1) = (r, (m', w'))"
      using assms False f Inr by (simp add: complete_authorization_def Let_def abind_def in_oauth_world_def code_form_def)
    from accept_frame [OF this] show ?thesis using posts u by simp
  qed
qed

lemma awaited_code:
  assumes "await_callback expected slots s = Inr t" and "cs_error t = None" and "cs_code t = Some code"
    and "cs_error s = None"
  shows "cs_code s = Some code \<or> (\<exists>rq. Some rq \<in> set slots \<and> cb_path rq = callback_path \<and> cb_state rq = expected
    \<and> cb_error rq = [] \<and> cb_code rq = code \<and> code \<noteq> [])"
  using assms
proof (induction slots arbitrary: s)
  case (Cons slot slots)
  show ?case
  proof (cases "cs_code s = None")
    case True
    then have next_slot: "await_callback expected slots (case slot of None \<Rightarrow> s | Some rq \<Rightarrow> do_get expected rq s) = Inr t"
      using Cons.prems by (auto split: option.splits)
    have "cs_error (case slot of None \<Rightarrow> s | Some rq \<Rightarrow> do_get expected rq s) = None"
    proof (rule ccontr)
      assume err: "cs_error (case slot of None \<Rightarrow> s | Some rq \<Rightarrow> do_get expected rq s) \<noteq> None"
      then have "t = (case slot of None \<Rightarrow> s | Some rq \<Rightarrow> do_get expected rq s)"
        using next_slot by (subst (asm) await_callback.simps) simp
      then show False using err Cons.prems(2) by simp
    qed
    from Cons.IH [OF next_slot Cons.prems(2,3) this] True Cons.prems(4) show ?thesis
      by (cases slot) (auto simp: do_get_def split: if_splits)
  next
    case False
    then show ?thesis using Cons.prems by (auto split: if_splits)
  qed
qed (auto split: if_splits)

text \<open>C37: A login sends to the SIM token endpoint at most one POST, and that one holds a code that a
  request to the callback path brought together with the state of this login, without an error, and
  the verifier of this login. A login that sends nothing leaves the lease and the keychain alone.\<close>

theorem login_posts_only_its_code:
  assumes "interactive_login p random1 random2 opened slots (m, w) = (r, (m', w'))"
  shows "(ow_posts w' = ow_posts w \<and> m' = m \<and> ow_keychain w' = ow_keychain w)
    \<or> (\<exists>rq. Some rq \<in> set slots \<and> cb_path rq = callback_path \<and> cb_state rq = random2 \<and> cb_error rq = [] \<and> cb_code rq \<noteq> []
         \<and> ow_posts w' = ow_posts w @ [(sim_token_url, code_form p (begin_authorization p random1 random2) (cb_code rq))])"
proof -
  let ?pending = "begin_authorization p random1 random2"
  have st: "pa_state ?pending = random2" by (simp add: begin_authorization_def Let_def)
  show ?thesis
  proof (cases "opened")
    case False
    then show ?thesis using assms by (simp add: interactive_login_def Let_def araise_def)
  next
    case True
    show ?thesis
    proof (cases "await_callback random2 slots \<lparr> cs_code = None, cs_error = None \<rparr>")
      case (Inl e)
      then show ?thesis using assms True by (simp add: interactive_login_def Let_def abind_def alift_def st del: await_callback.simps)
    next
      case (Inr t)
      show ?thesis
      proof (cases "cs_error t")
        case (Some e)
        then show ?thesis using assms True Inr by (simp add: interactive_login_def Let_def abind_def alift_def araise_def st del: await_callback.simps)
      next
        case None
        then have c: "complete_authorization p ?pending (case cs_code t of None \<Rightarrow> [] | Some x \<Rightarrow> x) (m, w) = (r, (m', w'))"
          using assms True Inr by (simp add: interactive_login_def Let_def abind_def alift_def st del: await_callback.simps)
        show ?thesis
        proof (cases "cs_code t")
          case no: None
          then show ?thesis using c by (simp add: complete_authorization_def strip_def Let_def araise_def)
        next
          case (Some code)
          note a = awaited_code [OF Inr None Some]
          show ?thesis using complete_authorization_posts [OF c] a Some by auto
        qed
      qed
    qed
  qed
qed

section \<open>One access token\<close>

lemma oauth_steps_Inr [simp]:
  "store_update f (m, w) = (Inr u, t) \<longleftrightarrow> (\<exists>kc. f (ow_keychain w) = Inr kc \<and> t = (m, w\<lparr>ow_keychain := kc\<rparr>))"
  "in_oauth_world g (m, w) = (Inr v, t) \<longleftrightarrow> (\<exists>w'. g w = (Inr v, w') \<and> t = (m, w'))"
  "read_clock (m, w) = (Inr q, t) \<longleftrightarrow> q = ow_clock w (ow_tick w) \<and> t = (m, w\<lparr>ow_tick := Suc (ow_tick w)\<rparr>)"
  by (auto simp: store_update_def in_oauth_world_def read_clock_def split: sum.splits prod.splits)

lemma loaded_credential:
  assumes "load_refresh_credential p (m, w) = (Inr c, (m', w'))"
  shows "m' = m \<and> w' = w\<lparr>ow_tick := Suc (ow_tick w)\<rparr>
    \<and> (\<exists>v. keychain_get (account p) (ow_keychain w) = Inr (Some v) \<and> credential_from_bytes (op_shown p) v = Inr c)
    \<and> rf_fingerprint c = fingerprint p \<and> \<not> dec_le (rf_expires c) (ow_clock w (ow_tick w) + min_refresh_margin)"
  using assms
  by (auto simp: load_refresh_credential_def abind_Inr store_get_def split: option.splits if_splits)

lemma accepted_response:
  assumes "accept_token_response p kvs verifier (m, w) = (Inr st, (m', w'))"
  shows "\<exists>r. read_token_response (op_shown p) kvs = Inr r
    \<and> keychain_put (account p) (credential_json (credential_of p r verifier (ow_clock w (ow_tick w)))) (ow_keychain w) = Inr (ow_keychain w')
    \<and> m' = \<lparr> og_lease = Some \<lparr> ls_token = tk_access r, ls_expires = ow_clock w (ow_tick w) + of_int (tk_access_seconds r) \<rparr>,
              og_refresh_expiry = Some (ow_clock w (ow_tick w) + of_int (tk_refresh_seconds r)) \<rparr>
    \<and> ow_posts w' = ow_posts w \<and> ow_net w' = ow_net w"
  using assms
  by (auto simp: accept_token_response_def abind_Inr dest!: auth_status_frame)

lemma token_response_parts:
  assumes "read_token_response shown kvs = Inr r"
  shows "tk_access r \<noteq> [] \<and> tk_refresh r \<noteq> [] \<and> 0 < tk_access_seconds r \<and> 0 < tk_refresh_seconds r"
  using assms by (auto simp: read_token_response_def ebind_eq_Inr split: if_splits)

lemma put_then_get:
  assumes "keychain_put a v kc = Inr kc'" and "kc_read_fault kc = 0"
  shows "keychain_get a kc' = Inr (Some (Some v)) \<and> kc_read_fault kc' = 0"
  using assms by (auto simp: keychain_put_def keychain_get_def update_conv' split: if_splits)

text \<open>The answer of the token endpoint to one form: a success whose fields are the response read off it.\<close>

definition endpoint_answers ::
  "'n OAuthPlatform \<Rightarrow> (string \<times> string) list \<Rightarrow> 'n \<Rightarrow> string \<Rightarrow> string \<Rightarrow> int \<Rightarrow> int \<Rightarrow> 'n \<Rightarrow> bool" where
  "endpoint_answers p form n access refresh access_seconds refresh_seconds n' =
     (\<exists>status kvs a r x y t. op_post p sim_token_url form n = (Answer status (Some (JObj kvs)), n')
        \<and> 200 \<le> status \<and> status < 300
        \<and> map_of kvs ''access_token'' = Some a \<and> access = py_str (op_shown p) a \<and> access \<noteq> []
        \<and> map_of kvs ''refresh_token'' = Some r \<and> refresh = py_str (op_shown p) r \<and> refresh \<noteq> []
        \<and> map_of kvs ''expires_in'' = Some x \<and> py_int x = Inr access_seconds \<and> 0 < access_seconds
        \<and> map_of kvs ''refresh_token_expires_in'' = Some y \<and> py_int y = Inr refresh_seconds \<and> 0 < refresh_seconds
        \<and> map_of kvs ''token_type'' = Some t \<and> lower (py_str (op_shown p) t) = ''bearer'')"

lemma or_invalid_Inr: "or_invalid code r = Inr v \<longleftrightarrow> r = Inr v"
  by (auto simp: or_invalid_def split: sum.splits exn.splits)

lemma field_present: "required_field kvs k = Inr v \<longleftrightarrow> map_of kvs k = Some v"
  by (auto simp: required_field_def split: option.splits)

lemma token_response_fields:
  assumes "read_token_response shown kvs = Inr r"
  shows "\<exists>a f x y t. map_of kvs ''access_token'' = Some a \<and> tk_access r = py_str shown a
    \<and> map_of kvs ''refresh_token'' = Some f \<and> tk_refresh r = py_str shown f
    \<and> map_of kvs ''expires_in'' = Some x \<and> py_int x = Inr (tk_access_seconds r)
    \<and> map_of kvs ''refresh_token_expires_in'' = Some y \<and> py_int y = Inr (tk_refresh_seconds r)
    \<and> map_of kvs ''token_type'' = Some t \<and> lower (py_str shown t) = ''bearer''"
  using assms
  by (auto simp: read_token_response_def ebind_eq_Inr or_invalid_Inr field_present split: if_splits)

lemma posted_form:
  assumes "post_form post url form w = (Inr kvs, w')"
  shows "url = sim_token_url \<and> (\<exists>status. post url form (ow_net w) = (Answer status (Some (JObj kvs)), ow_net w')
    \<and> 200 \<le> status \<and> status < 300) \<and> w' = w\<lparr>ow_net := ow_net w', ow_posts := ow_posts w @ [(url, form)]\<rparr>"
  using assms by (auto simp: post_form_def split: prod.splits if_splits token_answer.splits option.splits json.splits)

lemma posted_world:
  assumes "w' = w\<lparr>ow_net := n, ow_posts := ow_posts w @ [q]\<rparr>"
  shows "ow_clock w' = ow_clock w" "ow_tick w' = ow_tick w" "ow_keychain w' = ow_keychain w" "ow_posts w' = ow_posts w @ [q]"
  by (simp_all add: assms)

text \<open>C36: A returned access token is the one of the lease. Either the lease was fresh (five minutes left on
  both expiries and no refresh forced) and nothing at all was sent, stored or changed; or exactly one
  POST to the SIM token endpoint exchanged the refresh token that the keychain held under this
  application key and that was not about to expire. Then the token and its expiry are those of the answer, and
  the keychain now holds, in place of the old credential, the refresh token of the answer with its expiry, the
  same verifier and key, in a form that will be accepted when read back.\<close>

theorem access_token_fresh_or_exchanged:
  assumes "access_token p force (m, w) = (Inr token, (m', w'))"
  shows "\<exists>l. og_lease m' = Some l \<and> ls_token l = token
    \<and> ((\<not> force \<and> m' = m \<and> w' = w\<lparr>ow_tick := Suc (ow_tick w)\<rparr> \<and> ow_clock w (ow_tick w) + 300 < ls_expires l
          \<and> (\<exists>refresh_expiry. og_refresh_expiry m = Some refresh_expiry \<and> ow_clock w (ow_tick w) + 300 < refresh_expiry))
       \<or> (\<exists>c c' v access_seconds refresh_seconds now. now = ow_clock w (ow_tick w + 2)
            \<and> keychain_get (account p) (ow_keychain w) = Inr (Some v) \<and> credential_from_bytes (op_shown p) v = Inr c
            \<and> rf_fingerprint c = fingerprint p \<and> \<not> dec_le (rf_expires c) (ow_clock w (ow_tick w + 1) + min_refresh_margin)
            \<and> ow_posts w' = ow_posts w @ [(sim_token_url, refresh_form c)]
            \<and> endpoint_answers p (refresh_form c) (ow_net w) token (rf_token c') access_seconds refresh_seconds (ow_net w')
            \<and> ls_expires l = now + of_int access_seconds \<and> og_refresh_expiry m' = Some (now + of_int refresh_seconds)
            \<and> rf_expires c' = Fin (now + of_int refresh_seconds)
            \<and> keychain_get (account p) (ow_keychain w') = Inr (Some (Some (credential_json c')))
            \<and> credential_from_bytes (op_shown p) (Some (credential_json c')) = Inr c'
            \<and> rf_verifier c' = rf_verifier c \<and> rf_fingerprint c' = fingerprint p))"
proof -
  let ?w1 = "w\<lparr>ow_tick := Suc (ow_tick w)\<rparr>"
  obtain m1 w1 l where a:
    "(if \<not> force \<and> lease_fresh (ow_clock w (ow_tick w)) m then areturn () else abind (refresh_under_lock p) (\<lambda>_. areturn ())) (m, ?w1)
       = (Inr (), (m1, w1))" "og_lease m1 = Some l" "ls_token l = token" "m' = m1" "w' = w1"
    using assms by (auto simp: access_token_def abind_Inr split: option.splits)
  show ?thesis
  proof (cases "\<not> force \<and> lease_fresh (ow_clock w (ow_tick w)) m")
    case True
    then have "m1 = m" "w1 = ?w1" using a(1) by auto
    then show ?thesis using True a by (auto simp: lease_fresh_def access_refresh_margin_def split: option.splits)
  next
    case False
    then obtain c kvs st m2 w2 w3 where r: "load_refresh_credential p (m, ?w1) = (Inr c, (m2, w2))"
        "post_form (op_post p) (oc_token_url (op_config p)) (refresh_form c) w2 = (Inr kvs, w3)"
        "accept_token_response p kvs (rf_verifier c) (m2, w3) = (Inr st, (m1, w1))"
      using a(1) by (auto simp: refresh_under_lock_def abind_Inr)
    note ld = loaded_credential [OF r(1)] and ps = posted_form [OF r(2)]
    obtain v where v: "keychain_get (account p) (ow_keychain w) = Inr (Some v)" "credential_from_bytes (op_shown p) v = Inr c"
      using ld by auto
    have w3: "ow_clock w3 = ow_clock w" "ow_tick w3 = ow_tick w + 2" "ow_keychain w3 = ow_keychain w"
        "ow_posts w3 = ow_posts w @ [(sim_token_url, refresh_form c)]"
      using ld posted_world [OF ps [THEN conjunct2, THEN conjunct2]] ps by simp_all
    let ?now = "ow_clock w (ow_tick w + 2)"
    obtain t where t: "read_token_response (op_shown p) kvs = Inr t"
        "keychain_put (account p) (credential_json (credential_of p t (rf_verifier c) ?now)) (ow_keychain w) = Inr (ow_keychain w1)"
        "ow_posts w1 = ow_posts w3" "ow_net w1 = ow_net w3"
        "m1 = \<lparr> og_lease = Some \<lparr> ls_token = tk_access t, ls_expires = ?now + of_int (tk_access_seconds t) \<rparr>,
                og_refresh_expiry = Some (?now + of_int (tk_refresh_seconds t)) \<rparr>"
      using accepted_response [OF r(3)] unfolding w3 by blast
    let ?c = "credential_of p t (rf_verifier c) ?now"
    have "kc_read_fault (ow_keychain w) = 0" using v(1) by (auto simp: keychain_get_def Let_def split: if_splits)
    note got = put_then_get [OF t(2) this]
    have "credential_ok c" using v(2) by (auto simp: credential_from_bytes_def ebind_eq_Inr split: if_splits)
    then have ok: "credential_ok ?c" using token_response_parts [OF t(1)] by (simp add: credential_ok_def credential_of_def)
    have "ow_net w2 = ow_net w" using ld by simp
    then have ans: "endpoint_answers p (refresh_form c) (ow_net w) token (rf_token ?c) (tk_access_seconds t) (tk_refresh_seconds t) (ow_net w1)"
      unfolding endpoint_answers_def using ps token_response_fields [OF t(1)] token_response_parts [OF t(1)] a(2,3) t(4,5)
      by (auto simp: credential_of_def)
    have exchanged: "\<exists>c c' v access_seconds refresh_seconds now. now = ow_clock w (ow_tick w + 2)
            \<and> keychain_get (account p) (ow_keychain w) = Inr (Some v) \<and> credential_from_bytes (op_shown p) v = Inr c
            \<and> rf_fingerprint c = fingerprint p \<and> \<not> dec_le (rf_expires c) (ow_clock w (ow_tick w + 1) + min_refresh_margin)
            \<and> ow_posts w' = ow_posts w @ [(sim_token_url, refresh_form c)]
            \<and> endpoint_answers p (refresh_form c) (ow_net w) token (rf_token c') access_seconds refresh_seconds (ow_net w')
            \<and> ls_expires l = now + of_int access_seconds \<and> og_refresh_expiry m' = Some (now + of_int refresh_seconds)
            \<and> rf_expires c' = Fin (now + of_int refresh_seconds)
            \<and> keychain_get (account p) (ow_keychain w') = Inr (Some (Some (credential_json c')))
            \<and> credential_from_bytes (op_shown p) (Some (credential_json c')) = Inr c'
            \<and> rf_verifier c' = rf_verifier c \<and> rf_fingerprint c' = fingerprint p"
      by (rule exI [of _ c], rule exI [of _ ?c], rule exI [of _ v], rule exI [of _ "tk_access_seconds t"],
          rule exI [of _ "tk_refresh_seconds t"], rule exI [of _ ?now])
        (use a(2,4,5) v ld got ok ans t(3,5) w3(4) in \<open>auto simp: credential_roundtrip credential_of_def\<close>)
    have "og_lease m' = Some l" using a(2,4) by simp
    with a(3) exchanged show ?thesis by blast
  qed
qed

end
