(* ===== verification/OAuthCluster.thy ===== *)
theory OAuthCluster
  imports OAuth
begin

text \<open>
  Several processes with one keychain: the interleavings of the refresh section of \<open>access_token\<close>, which
  the file lock serialises, and of \<open>disconnect\<close>, which takes no lock. A refresh is split at its calls: the
  credential is loaded, exchanged at the token endpoint, and the answer is stored.
\<close>

section \<open>States and steps\<close>

datatype refresh_phase = Idle | Locked | Loaded RefreshCredential | Exchanged RefreshCredential "(string \<times> json) list"

record 'n Cluster =
  cl_world :: "'n OAuthWorld"
  cl_lock :: "nat option"
  cl_manager :: "nat \<Rightarrow> OAuthManager"
  cl_phase :: "nat \<Rightarrow> refresh_phase"

definition enter :: "nat \<Rightarrow> refresh_phase \<Rightarrow> OAuthManager \<times> 'n OAuthWorld \<Rightarrow> 'n Cluster \<Rightarrow> 'n Cluster" where
  "enter i ph s cl = cl\<lparr>cl_world := snd s, cl_manager := (cl_manager cl)(i := fst s), cl_phase := (cl_phase cl)(i := ph)\<rparr>"

definition release :: "nat \<Rightarrow> OAuthManager \<times> 'n OAuthWorld \<Rightarrow> 'n Cluster \<Rightarrow> 'n Cluster" where
  "release i s cl = (enter i Idle s cl)\<lparr>cl_lock := None\<rparr>"

abbreviation local_state :: "nat \<Rightarrow> 'n Cluster \<Rightarrow> OAuthManager \<times> 'n OAuthWorld" where
  "local_state i cl \<equiv> (cl_manager cl i, cl_world cl)"

text \<open>The steps of the locked section by one process; an exception releases the lock.\<close>

inductive refresh_step :: "'n OAuthPlatform \<Rightarrow> 'n Cluster \<Rightarrow> 'n Cluster \<Rightarrow> bool" for p :: "'n OAuthPlatform" where
  Acquire: "cl_lock cl = None \<Longrightarrow> cl_phase cl i = Idle \<Longrightarrow>
      refresh_step p cl ((enter i Locked (local_state i cl) cl)\<lparr>cl_lock := Some i\<rparr>)"
| Load: "cl_lock cl = Some i \<Longrightarrow> cl_phase cl i = Locked \<Longrightarrow>
      load_refresh_credential p (local_state i cl) = (Inr c, s) \<Longrightarrow> refresh_step p cl (enter i (Loaded c) s cl)"
| Load_fails: "cl_lock cl = Some i \<Longrightarrow> cl_phase cl i = Locked \<Longrightarrow>
      load_refresh_credential p (local_state i cl) = (Inl e, s) \<Longrightarrow> refresh_step p cl (release i s cl)"
| Exchange: "cl_lock cl = Some i \<Longrightarrow> cl_phase cl i = Loaded c \<Longrightarrow>
      in_oauth_world (post_form (op_post p) (oc_token_url (op_config p)) (refresh_form c)) (local_state i cl) = (Inr kvs, s) \<Longrightarrow>
      refresh_step p cl (enter i (Exchanged c kvs) s cl)"
| Exchange_fails: "cl_lock cl = Some i \<Longrightarrow> cl_phase cl i = Loaded c \<Longrightarrow>
      in_oauth_world (post_form (op_post p) (oc_token_url (op_config p)) (refresh_form c)) (local_state i cl) = (Inl e, s) \<Longrightarrow>
      refresh_step p cl (release i s cl)"
| Store: "cl_lock cl = Some i \<Longrightarrow> cl_phase cl i = Exchanged c kvs \<Longrightarrow>
      accept_token_response p kvs (rf_verifier c) (local_state i cl) = (r, s) \<Longrightarrow> refresh_step p cl (release i s cl)"

inductive refreshes :: "'n OAuthPlatform \<Rightarrow> 'n Cluster \<Rightarrow> 'n Cluster \<Rightarrow> bool" for p :: "'n OAuthPlatform" where
  Start: "refreshes p cl cl"
| Step: "refreshes p cl cl1 \<Longrightarrow> refresh_step p cl1 cl2 \<Longrightarrow> refreshes p cl cl2"

inductive_cases refresh_stepE: "refresh_step p cl cl'"

text \<open>With a logout by any process in between.\<close>

inductive refreshes_and_logouts :: "'n OAuthPlatform \<Rightarrow> 'n Cluster \<Rightarrow> 'n Cluster \<Rightarrow> bool" for p :: "'n OAuthPlatform" where
  Begin: "refreshes_and_logouts p cl cl"
| Refresh: "refreshes_and_logouts p cl cl1 \<Longrightarrow> refresh_step p cl1 cl2 \<Longrightarrow> refreshes_and_logouts p cl cl2"
| Logout: "refreshes_and_logouts p cl cl1 \<Longrightarrow> disconnect p (local_state i cl1) = (r, s) \<Longrightarrow>
      refreshes_and_logouts p cl (enter i (cl_phase cl1 i) s cl1)"

section \<open>A rotating endpoint\<close>

text \<open>Documented behaviour of the token endpoint: the current refresh token and its verifier are exchanged
  for a well-formed answer whose new refresh token is current from then on, with the same verifier.\<close>

definition rotating :: "'n OAuthPlatform \<Rightarrow> ('n \<Rightarrow> string \<Rightarrow> string \<Rightarrow> bool) \<Rightarrow> bool" where
  "rotating p current = (\<forall>n c. current n (rf_token c) (rf_verifier c) \<longrightarrow>
     (\<exists>kvs r n'. op_post p sim_token_url (refresh_form c) n = (Answer 200 (Some (JObj kvs)), n')
        \<and> read_token_response (op_shown p) kvs = Inr r \<and> current n' (tk_refresh r) (rf_verifier c)))"

definition healthy :: "Keychain \<Rightarrow> bool" where
  "healthy kc = (kc_available kc \<and> kc_read_fault kc = 0 \<and> kc_write_fault kc = 0)"

definition stored_is_current :: "'n OAuthPlatform \<Rightarrow> ('n \<Rightarrow> string \<Rightarrow> string \<Rightarrow> bool) \<Rightarrow> RefreshCredential \<Rightarrow> 'n OAuthWorld \<Rightarrow> bool" where
  "stored_is_current p current c w =
     (map_of (kc_items (ow_keychain w)) (account p) = Some (Some (credential_json c)) \<and> credential_ok c
      \<and> rf_fingerprint c = fingerprint p \<and> current (ow_net w) (rf_token c) (rf_verifier c))"

text \<open>The credential the next exchange will use is current, wherever the lock holder stands.\<close>

definition in_step :: "'n OAuthPlatform \<Rightarrow> ('n \<Rightarrow> string \<Rightarrow> string \<Rightarrow> bool) \<Rightarrow> 'n Cluster \<Rightarrow> bool" where
  "in_step p current cl =
     (healthy (ow_keychain (cl_world cl)) \<and> (\<forall>j. cl_lock cl \<noteq> Some j \<longrightarrow> cl_phase cl j = Idle)
      \<and> (case cl_lock cl of
           None \<Rightarrow> \<exists>c. stored_is_current p current c (cl_world cl)
         | Some i \<Rightarrow>
             (case cl_phase cl i of
                Idle \<Rightarrow> False
              | Locked \<Rightarrow> \<exists>c. stored_is_current p current c (cl_world cl)
              | Loaded c \<Rightarrow> stored_is_current p current c (cl_world cl)
              | Exchanged c kvs \<Rightarrow> credential_ok c
                  \<and> (\<exists>r. read_token_response (op_shown p) kvs = Inr r
                         \<and> current (ow_net (cl_world cl)) (tk_refresh r) (rf_verifier c)))))"

lemma healthy_get: "healthy kc \<Longrightarrow> keychain_get a kc = Inr (map_of (kc_items kc) a)"
  by (auto simp: healthy_def keychain_get_def)

lemma healthy_put:
  "healthy kc \<Longrightarrow> keychain_put a v kc = Inr (kc\<lparr>kc_items := AList.update a (Some v) (kc_items kc)\<rparr>)"
  by (auto simp: healthy_def keychain_put_def)

lemma load_current:
  assumes "stored_is_current p current c w" and "healthy (ow_keychain w)" and "load_refresh_credential p (m, w) = (r, (m', w'))"
  shows "m' = m \<and> (w' = w \<or> w' = w\<lparr>ow_tick := Suc (ow_tick w)\<rparr>) \<and> (\<forall>c'. r = Inr c' \<longrightarrow> c' = c)"
  using assms healthy_get [OF assms(2)]
  by (auto simp: stored_is_current_def load_refresh_credential_def store_get_def abind_def alift_def credential_roundtrip
      read_clock_def areturn_def araise_def split: if_splits)

lemma exchange_current:
  assumes "rotating p current" and "stored_is_current p current c w" and "oc_token_url (op_config p) = sim_token_url"
  shows "\<exists>kvs r w'. post_form (op_post p) (oc_token_url (op_config p)) (refresh_form c) w = (Inr kvs, w')
    \<and> read_token_response (op_shown p) kvs = Inr r \<and> current (ow_net w') (tk_refresh r) (rf_verifier c)
    \<and> ow_keychain w' = ow_keychain w"
proof -
  have cur: "current (ow_net w) (rf_token c) (rf_verifier c)" using assms(2) by (simp add: stored_is_current_def)
  obtain kvs r n' where e: "op_post p sim_token_url (refresh_form c) (ow_net w) = (Answer 200 (Some (JObj kvs)), n')"
      "read_token_response (op_shown p) kvs = Inr r" "current n' (tk_refresh r) (rf_verifier c)"
    using assms(1) cur unfolding rotating_def by meson
  then have "post_form (op_post p) (oc_token_url (op_config p)) (refresh_form c) w
      = (Inr kvs, w\<lparr>ow_net := n', ow_posts := ow_posts w @ [(sim_token_url, refresh_form c)]\<rparr>)"
    by (simp add: post_form_def assms(3))
  then show ?thesis using e(2,3) by (intro exI conjI) (assumption | simp)+
qed

lemma store_current:
  assumes "accept_token_response p kvs verifier (m, w) = (q, (m', w'))" and "healthy (ow_keychain w)"
    and "read_token_response (op_shown p) kvs = Inr r" and "current (ow_net w) (tk_refresh r) verifier"
    and "43 \<le> length verifier" and "length verifier \<le> 128"
  shows "healthy (ow_keychain w') \<and> (\<exists>c. stored_is_current p current c w')"
proof -
  let ?c = "credential_of p r verifier (ow_clock w (ow_tick w))"
  have "ow_keychain w' = (ow_keychain w)\<lparr>kc_items := AList.update (account p) (Some (credential_json ?c)) (kc_items (ow_keychain w))\<rparr>
      \<and> ow_net w' = ow_net w"
    using assms(1,3) healthy_put [OF assms(2)]
    by (auto simp: accept_token_response_def abind_def alift_def read_clock_def store_update_def aset_def
        split: prod.splits sum.splits dest!: auth_status_frame)
  moreover have "credential_ok ?c" using token_response_parts [OF assms(3)] assms(5,6)
    by (simp add: credential_ok_def credential_of_def)
  ultimately show ?thesis using assms(2,4)
    by (auto simp: healthy_def stored_is_current_def update_conv' credential_of_def intro!: exI [of _ ?c])
qed

section \<open>What the lock gives\<close>

lemma enter_simps [simp]:
  "cl_world (enter i ph s cl) = snd s" "cl_lock (enter i ph s cl) = cl_lock cl" "cl_phase (enter i ph s cl) j = (if j = i then ph else cl_phase cl j)"
  "cl_manager (enter i ph s cl) j = (if j = i then fst s else cl_manager cl j)"
  "cl_world (release i s cl) = snd s" "cl_lock (release i s cl) = None" "cl_phase (release i s cl) j = (if j = i then Idle else cl_phase cl j)"
  by (auto simp: enter_def release_def)

lemma stored_ticked: "stored_is_current p current c w \<Longrightarrow> stored_is_current p current c (w\<lparr>ow_tick := n\<rparr>)"
  by (simp add: stored_is_current_def)

lemma refresh_step_keeps:
  assumes "refresh_step p cl cl'" and rot: "rotating p current" and url: "oc_token_url (op_config p) = sim_token_url"
    and ok: "in_step p current cl"
  shows "in_step p current cl'"
  using assms(1)
proof cases
  case (Acquire i)
  then show ?thesis using ok by (auto simp: in_step_def)
next
  case (Load i c s)
  obtain m w where s: "s = (m, w)" by (cases s)
  obtain c0 where c0: "stored_is_current p current c0 (cl_world cl)" "healthy (ow_keychain (cl_world cl))"
    using ok Load by (auto simp: in_step_def)
  from load_current [OF c0 Load(4) [unfolded s]] show ?thesis
    using ok Load s c0 by (auto simp: in_step_def stored_is_current_def)
next
  case (Load_fails i e s)
  obtain m w where s: "s = (m, w)" by (cases s)
  obtain c0 where c0: "stored_is_current p current c0 (cl_world cl)" "healthy (ow_keychain (cl_world cl))"
    using ok Load_fails by (auto simp: in_step_def)
  from load_current [OF c0 Load_fails(4) [unfolded s]] show ?thesis
    using ok Load_fails s c0 by (auto simp: in_step_def intro: stored_ticked)
next
  case (Exchange i c kvs s)
  have c0: "stored_is_current p current c (cl_world cl)" using ok Exchange by (auto simp: in_step_def)
  from exchange_current [OF rot c0 url] show ?thesis
    using ok Exchange c0 by (auto simp: in_step_def in_oauth_world_def stored_is_current_def)
next
  case (Exchange_fails i c e s)
  have c0: "stored_is_current p current c (cl_world cl)" using ok Exchange_fails by (auto simp: in_step_def)
  from exchange_current [OF rot c0 url] show ?thesis
    using Exchange_fails(4) by (auto simp: in_oauth_world_def)
next
  case (Store i c kvs r s)
  obtain m w where s: "s = (m, w)" by (cases s)
  obtain t where t: "read_token_response (op_shown p) kvs = Inr t" "current (ow_net (cl_world cl)) (tk_refresh t) (rf_verifier c)"
      "credential_ok c" "healthy (ow_keychain (cl_world cl))"
    using ok Store by (auto simp: in_step_def)
  from store_current [OF Store(4) [unfolded s] t(4) t(1), of current] t(2,3) show ?thesis
    using ok Store s by (auto simp: in_step_def credential_ok_def)
qed

lemma refreshes_keep:
  assumes "refreshes p cl cl'" and "rotating p current" and "oc_token_url (op_config p) = sim_token_url" and "in_step p current cl"
  shows "in_step p current cl'"
  using assms by (induction rule: refreshes.induct) (auto intro: refresh_step_keeps)

text \<open>C8: However many processes refresh in whatever interleaving, with an endpoint that rotates the refresh
  token at every exchange, the lock keeps the stored credential in step with the endpoint: between
  refreshes it is the current one, it is current while the lock holder has loaded it, and after the
  exchange the answer in flight is. So no exchange is ever refused for an outdated token.\<close>

theorem refreshes_stay_in_step:
  assumes "rotating p current" and "oc_token_url (op_config p) = sim_token_url"
    and "in_step p current cl" and "refreshes p cl cl'"
  shows "in_step p current cl' \<and> (\<forall>i c. cl_lock cl' = Some i \<and> cl_phase cl' i = Loaded c \<longrightarrow>
    (\<exists>kvs w'. post_form (op_post p) (oc_token_url (op_config p)) (refresh_form c) (cl_world cl') = (Inr kvs, w')))"
proof -
  have k: "in_step p current cl'" by (rule refreshes_keep [OF assms(4,1,2,3)])
  show ?thesis
  proof (intro conjI allI impI k)
    fix i c assume a: "cl_lock cl' = Some i \<and> cl_phase cl' i = Loaded c"
    then have "stored_is_current p current c (cl_world cl')" using k by (auto simp: in_step_def)
    from exchange_current [OF assms(1) this assms(2)]
    show "\<exists>kvs w'. post_form (op_post p) (oc_token_url (op_config p)) (refresh_form c) (cl_world cl') = (Inr kvs, w')" by blast
  qed
qed

section \<open>What the missing lock of a logout allows\<close>

lemma disconnect_empties:
  assumes "disconnect p (m, w) = (r, (m', w'))" and "healthy (ow_keychain w)" and "kc_delete_fault (ow_keychain w) = 0"
  shows "map_of (kc_items (ow_keychain w')) (account p) = None \<and> healthy (ow_keychain w') \<and> ow_net w' = ow_net w
    \<and> og_lease m' = None"
  using assms
  by (auto simp: disconnect_def abind_def aset_def store_update_def keychain_delete_def healthy_def new_manager_def
      delete_conv' Let_def split: if_splits dest!: auth_status_frame)

text \<open>C40: A logout of another process while a refresh is between its exchange and its store empties the
  keychain, and the next step of the refresh puts a current credential back: after the logout the
  machine is logged in again without a login.\<close>

theorem logout_during_refresh_is_undone:
  assumes "in_step p current cl" and "cl_lock cl = Some i" and "cl_phase cl i = Exchanged c kvs" and "j \<noteq> i"
    and "disconnect p (local_state j cl) = (r, s)" and "kc_delete_fault (ow_keychain (cl_world cl)) = 0"
  shows "map_of (kc_items (ow_keychain (snd s))) (account p) = None
    \<and> (\<exists>cl'. refresh_step p (enter j (cl_phase cl j) s cl) cl' \<and> (\<exists>c'. stored_is_current p current c' (cl_world cl')))"
proof -
  obtain m w where s: "s = (m, w)" by (cases s)
  have h: "healthy (ow_keychain (cl_world cl))" "credential_ok c"
    "\<exists>t. read_token_response (op_shown p) kvs = Inr t \<and> current (ow_net (cl_world cl)) (tk_refresh t) (rf_verifier c)"
    using assms(1-3) by (auto simp: in_step_def)
  note e = disconnect_empties [OF assms(5) [unfolded s] h(1) assms(6)]
  let ?cl = "enter j (cl_phase cl j) s cl"
  obtain q t where a: "accept_token_response p kvs (rf_verifier c) (local_state i ?cl) = (q, t)"
    by (cases "accept_token_response p kvs (rf_verifier c) (local_state i ?cl)")
  obtain m2 w2 where t: "t = (m2, w2)" by (cases t)
  have step: "refresh_step p ?cl (release i t ?cl)"
    using assms(2-4) a by (intro refresh_step.Store) auto
  obtain tk where tk: "read_token_response (op_shown p) kvs = Inr tk" "current (ow_net (cl_world cl)) (tk_refresh tk) (rf_verifier c)"
    using h(3) by blast
  have "accept_token_response p kvs (rf_verifier c) (cl_manager ?cl i, w) = (q, (m2, w2))" using a t s by simp
  from store_current [OF this _ tk(1), of current] e tk(2) h(2)
  have "\<exists>c'. stored_is_current p current c' w2" by (auto simp: credential_ok_def)
  then show ?thesis using e s step t by (intro conjI exI [of _ "release i t ?cl"]) auto
qed

section \<open>A concrete endpoint\<close>

definition nth_token :: "nat \<Rightarrow> string" where "nth_token n = replicate (Suc n) (CHR ''t'')"

text \<open>The endpoint counts its exchanges: the current token is the one it gave out last.\<close>

definition counting_endpoint :: "nat token_endpoint" where
  "counting_endpoint url form n =
     (if map_of form ''refresh_token'' = Some (nth_token n)
      then (Answer 200 (Some (JObj [(''access_token'', JStr ''a''), (''refresh_token'', JStr (nth_token (Suc n))),
              (''expires_in'', JInt 1200), (''refresh_token_expires_in'', JInt 3600), (''token_type'', JStr ''Bearer'')])), Suc n)
      else (Answer 400 None, n))"

definition example_platform :: "nat OAuthPlatform" where
  "example_platform = \<lparr> op_config = \<lparr> oc_app_key = ''k'', oc_port = 8764, oc_authorization_url = sim_authorization_url,
       oc_token_url = sim_token_url \<rparr>, op_sha = (\<lambda>s. s), op_shown = (\<lambda>_. ''x''), op_post = counting_endpoint,
     op_challenge = (\<lambda>s. s), op_urlencode = (\<lambda>_. []) \<rparr>"

definition counting_current :: "nat \<Rightarrow> string \<Rightarrow> string \<Rightarrow> bool" where
  "counting_current n t v = (t = nth_token n)"

definition example_credential :: RefreshCredential where
  "example_credential = \<lparr> rf_token = nth_token 0, rf_verifier = replicate 43 (CHR ''v''), rf_expires = Fin 5000, rf_fingerprint = ''k'' \<rparr>"

definition example_oauth_world :: "nat OAuthWorld" where
  "example_oauth_world = \<lparr> ow_net = 0, ow_posts = [], ow_keychain = \<lparr> kc_available = True,
       kc_items = [(''pkce-k'', Some (credential_json example_credential))], kc_read_fault = 0, kc_write_fault = 0, kc_delete_fault = 0 \<rparr>,
     ow_clock = (\<lambda>n. of_nat n), ow_tick = 0 \<rparr>"

definition example_cluster :: "nat Cluster" where
  "example_cluster = \<lparr> cl_world = example_oauth_world, cl_lock = None, cl_manager = (\<lambda>_. new_manager), cl_phase = (\<lambda>_. Idle) \<rparr>"

lemma counting_rotates: "rotating example_platform counting_current"
proof -
  have "lower ''Bearer'' = ''bearer''" by code_simp
  then show ?thesis
    by (auto simp: rotating_def counting_current_def example_platform_def counting_endpoint_def refresh_form_def
        read_token_response_def required_field_def or_invalid_def nth_token_def)
qed

lemma example_account: "account example_platform = ''pkce-k''" "fingerprint example_platform = ''k''"
  by (simp_all add: account_def fingerprint_def keychain_account_def app_key_fingerprint_def example_platform_def)

lemma example_in_step: "in_step example_platform counting_current example_cluster"
proof -
  have "stored_is_current example_platform counting_current example_credential example_oauth_world"
    by (simp add: stored_is_current_def example_account example_oauth_world_def example_credential_def credential_ok_def
        counting_current_def nth_token_def)
  then show ?thesis by (auto simp: in_step_def example_cluster_def healthy_def example_oauth_world_def)
qed

text \<open>Process 0 refreshes and process 1 logs out between the exchange and the store.\<close>

definition exchanged_cluster :: "nat Cluster" where
  "exchanged_cluster =
     (let w1 = example_oauth_world\<lparr>ow_tick := 1\<rparr>;
          form = refresh_form example_credential;
          answer = counting_endpoint sim_token_url form 0;
          kvs = (case fst answer of Answer _ (Some (JObj kvs)) \<Rightarrow> kvs | _ \<Rightarrow> [])
      in example_cluster\<lparr>cl_lock := Some 0, cl_phase := (\<lambda>_. Idle)(0 := Exchanged example_credential kvs),
           cl_world := w1\<lparr>ow_net := 1, ow_posts := [(sim_token_url, form)]\<rparr>\<rparr>)"

lemma example_url: "oc_token_url (op_config example_platform) = sim_token_url"
  by (simp add: example_platform_def)

lemma example_load:
  "load_refresh_credential example_platform (local_state 0 example_cluster)
     = (Inr example_credential, (new_manager, example_oauth_world\<lparr>ow_tick := 1\<rparr>))"
  by (simp add: load_refresh_credential_def abind_def store_get_def alift_def read_clock_def areturn_def araise_def
      example_cluster_def healthy_get healthy_def example_oauth_world_def example_account credential_roundtrip
      example_credential_def credential_ok_def nth_token_def min_refresh_margin_def)

lemma example_reaches_exchange: "refreshes example_platform example_cluster exchanged_cluster"
proof -
  let ?c1 = "(enter 0 Locked (local_state 0 example_cluster) example_cluster)\<lparr>cl_lock := Some 0\<rparr>"
  let ?c2 = "enter 0 (Loaded example_credential) (new_manager, example_oauth_world\<lparr>ow_tick := 1\<rparr>) ?c1"
  have 1: "refresh_step example_platform example_cluster ?c1"
    by (rule refresh_step.Acquire) (simp_all add: example_cluster_def)
  have st1: "local_state 0 ?c1 = local_state 0 example_cluster" by (simp add: enter_def)
  have 2: "refresh_step example_platform ?c1 ?c2"
    by (rule refresh_step.Load [where i = 0]) (simp_all only: st1 example_load, simp_all add: enter_def)
  obtain kvs where x: "counting_endpoint sim_token_url (refresh_form example_credential) 0 = (Answer 200 (Some (JObj kvs)), 1)"
    by (simp add: counting_endpoint_def refresh_form_def example_credential_def)
  let ?w = "example_oauth_world\<lparr>ow_tick := 1, ow_net := 1, ow_posts := [(sim_token_url, refresh_form example_credential)]\<rparr>"
  have p: "in_oauth_world (post_form (op_post example_platform) (oc_token_url (op_config example_platform))
      (refresh_form example_credential)) (local_state 0 ?c2) = (Inr kvs, (new_manager, ?w))"
    using x by (simp add: in_oauth_world_def post_form_def example_platform_def enter_def example_oauth_world_def)
  have 3: "refresh_step example_platform ?c2 (enter 0 (Exchanged example_credential kvs) (new_manager, ?w) ?c2)"
    by (rule refresh_step.Exchange [where i = 0]) (use p in \<open>simp_all add: enter_def\<close>)
  have "enter 0 (Exchanged example_credential kvs) (new_manager, ?w) ?c2 = exchanged_cluster"
    using x by (auto simp: exchanged_cluster_def Let_def enter_def example_cluster_def fun_upd_def)
  then show ?thesis
    using refreshes.Step [OF refreshes.Step [OF refreshes.Step [OF refreshes.Start 1] 2] 3] by simp
qed

theorem refreshes_stay_in_step_witness:
  "in_step example_platform counting_current exchanged_cluster"
  using refreshes_stay_in_step [OF counting_rotates example_url example_in_step example_reaches_exchange] by blast

theorem logout_during_refresh_is_undone_witness:
  "\<exists>r s cl'. disconnect example_platform (local_state 1 exchanged_cluster) = (r, s)
     \<and> map_of (kc_items (ow_keychain (snd s))) ''pkce-k'' = None
     \<and> refresh_step example_platform (enter 1 (cl_phase exchanged_cluster 1) s exchanged_cluster) cl'
     \<and> (\<exists>c'. stored_is_current example_platform counting_current c' (cl_world cl'))"
proof -
  obtain r s where d: "disconnect example_platform (local_state 1 exchanged_cluster) = (r, s)"
    by (cases "disconnect example_platform (local_state 1 exchanged_cluster)")
  obtain c kvs where e: "cl_lock exchanged_cluster = Some 0" "cl_phase exchanged_cluster 0 = Exchanged c kvs"
      "kc_delete_fault (ow_keychain (cl_world exchanged_cluster)) = 0"
    by (simp add: exchanged_cluster_def Let_def example_oauth_world_def)
  have k: "in_step example_platform counting_current exchanged_cluster"
    by (rule refreshes_keep [OF example_reaches_exchange counting_rotates example_url example_in_step])
  from logout_during_refresh_is_undone [OF k e(1,2) _ d e(3)] d show ?thesis
    by (auto simp: example_account)
qed

section \<open>A concrete refresh and a concrete login\<close>

definition example_access :: "(exn + string) \<times> OAuthManager \<times> nat OAuthWorld" where
  "example_access = access_token example_platform True (new_manager, example_oauth_world)"

lemma example_access_granted: "case example_access of (Inr t, m, w) \<Rightarrow> t = ''a'' \<and> ow_net w = 1 | _ \<Rightarrow> False"
  by code_simp

theorem access_token_fresh_or_exchanged_witness:
  "\<exists>t m w l. example_access = (Inr t, m, w) \<and> og_lease m = Some l \<and> ls_token l = t \<and> length (ow_posts w) = 1"
proof -
  obtain x m w where e: "example_access = (x, (m, w))" using prod_cases3 by blast
  have "case (x, (m, w)) of (Inr t, m, w) \<Rightarrow> t = ''a'' \<and> ow_net w = 1 | _ \<Rightarrow> False"
    using example_access_granted by (simp only: e)
  then obtain t where r: "example_access = (Inr t, (m, w))" using e by (cases x) simp_all
  have "ow_posts example_oauth_world = []" by (simp add: example_oauth_world_def)
  with access_token_fresh_or_exchanged [OF r [unfolded example_access_def]]
  obtain l where "og_lease m = Some l" "ls_token l = t" "length (ow_posts w) = 1" by auto
  then show ?thesis using r by blast
qed

definition example_random :: string where "example_random = replicate 96 (CHR ''v'')"

definition example_callback :: CallbackRequest where
  "example_callback = \<lparr> cb_path = callback_path, cb_state = ''s'', cb_code = ''c'', cb_error = [] \<rparr>"

theorem login_posts_only_its_code_witness:
  "\<exists>r m w. interactive_login example_platform example_random ''s'' True [None, Some example_callback]
       (new_manager, example_oauth_world) = (r, (m, w))
     \<and> ow_posts w = [(sim_token_url, code_form example_platform
           (begin_authorization example_platform example_random ''s'') ''c'')]"
proof -
  obtain r m w where r: "interactive_login example_platform example_random ''s'' True [None, Some example_callback]
      (new_manager, example_oauth_world) = (r, (m, w))"
    using prod_cases3 by blast
  let ?pending = "begin_authorization example_platform example_random ''s''"
  have st: "pa_state ?pending = ''s''" by (simp add: begin_authorization_def Let_def)
  have c: "strip ''c'' = ''c''" by code_simp
  have "interactive_login example_platform example_random ''s'' True [None, Some example_callback] (new_manager, example_oauth_world)
      = complete_authorization example_platform ?pending ''c'' (new_manager, example_oauth_world)"
    by (simp add: interactive_login_def Let_def st abind_def alift_def do_get_def example_callback_def)
  also have "\<dots> = (Inl (SaxoAuthError ''AUTH_LOGIN_REQUIRED''), (new_manager, example_oauth_world\<lparr>ow_posts :=
      [(sim_token_url, code_form example_platform ?pending ''c'')]\<rparr>))"
    by (simp add: complete_authorization_def Let_def c abind_def in_oauth_world_def post_form_def example_platform_def
        counting_endpoint_def code_form_def example_oauth_world_def)
  finally have "ow_posts w \<noteq> []" using r by auto
  moreover have "ow_posts example_oauth_world = []" by (simp add: example_oauth_world_def)
  ultimately have "ow_posts w \<noteq> []" "ow_posts example_oauth_world = []" by simp_all
  with login_posts_only_its_code [OF r] have "\<exists>rq. Some rq \<in> set [None, Some example_callback]
      \<and> ow_posts w = [(sim_token_url, code_form example_platform (begin_authorization example_platform example_random ''s'') (cb_code rq))]"
    by auto
  then show ?thesis using r by (auto simp: example_callback_def)
qed

end
