(* ===== verification/TotalReturn.thy ===== *)
theory TotalReturn
  imports PyJson
begin

text \<open>
  \<open>market_db/total_return_contract.py\<close> and \<open>market_db/total_return_history.py\<close>: the research contracts that
  bind the total-return series to files of the repository, and the reading of one bound source file. Files,
  digests and the decoding of JSON and CSV texts are parameters; a contract is the dictionary of its file.
\<close>

section \<open>The repository\<close>

datatype 'b entry = Absent | Symlink 'b | Regular 'b

text \<open>
  \<open>rp_json\<close> is \<open>None\<close> for bytes that are no JSON text. \<open>rp_csv\<close> gives the rows a \<open>DictReader\<close> yields, the
  missing fields of a short row as \<open>None\<close>, and whether it got to the end of the file without an error.
\<close>

record 'b Repository =
  rp_entry :: "string \<Rightarrow> 'b entry"
  rp_sha256 :: "'b \<Rightarrow> string"
  rp_json :: "'b \<Rightarrow> json option"
  rp_csv :: "'b \<Rightarrow> (string \<times> string option) list list \<times> bool"
  rp_shown :: "json \<Rightarrow> string"
  rp_rows_sha256 :: "json list \<Rightarrow> string"

text \<open>\<open>path.is_file() and not path.is_symlink()\<close>, and \<open>path.open()\<close>, which follows links.\<close>

definition regular :: "'b Repository \<Rightarrow> string \<Rightarrow> 'b option" where
  "regular rp p = (case rp_entry rp p of Regular b \<Rightarrow> Some b | _ \<Rightarrow> None)"

definition opened :: "'b Repository \<Rightarrow> string \<Rightarrow> 'b option" where
  "opened rp p = (case rp_entry rp p of Regular b \<Rightarrow> Some b | Symlink b \<Rightarrow> Some b | Absent \<Rightarrow> None)"

fun path_parts :: "string \<Rightarrow> string list" where
  "path_parts [] = [[]]"
| "path_parts (c # s) =
     (if c = CHR ''/'' then [] # path_parts s
      else case path_parts s of [] \<Rightarrow> [[c]] | p # ps \<Rightarrow> (c # p) # ps)"

definition relative_path_ok :: "string \<Rightarrow> bool" where
  "relative_path_ok p = (\<not> starts_with ''/'' p \<and> ''..'' \<notin> set (path_parts p))"

definition contract_fail :: "string \<Rightarrow> exn + 'a" where
  "contract_fail code = Inl (TotalReturnContractError code)"

text \<open>\<open>except (KeyError, TypeError, ValueError)\<close>; a contract error is a \<open>ValueError\<close>.\<close>

definition as_contract_error :: "string \<Rightarrow> exn + 'a \<Rightarrow> exn + 'a" where
  "as_contract_error code r =
     (case r of Inl (ValueError m) \<Rightarrow> contract_fail code | Inl KeyError \<Rightarrow> contract_fail code
      | Inl TypeError \<Rightarrow> contract_fail code | Inl (TotalReturnContractError m) \<Rightarrow> contract_fail code | _ \<Rightarrow> r)"

lemma as_contract_error_Inr [simp]: "as_contract_error code r = Inr v \<longleftrightarrow> r = Inr v"
  by (cases r; cases "projl r") (auto simp: as_contract_error_def contract_fail_def split: exn.splits)

section \<open>Validation of a contract\<close>

type_synonym contract = "(string \<times> json) list"

definition allowed_availability :: "string list" where
  "allowed_availability = [''AVAILABLE'', ''AVAILABLE_WITH_WARNINGS'']"

definition full_history :: "contract \<Rightarrow> bool" where
  "full_history c = (jget c ''usage_mode'' = JStr ''full_history_research'')"

definition check_contract_header :: "contract \<Rightarrow> exn + unit" where
  "check_contract_header c =
     (if \<not> equals_one (jget c ''schema_version'') \<or> jget c ''status'' \<noteq> JStr ''ACTIVE''
      then contract_fail ''TOTAL_RETURN_RESEARCH_CONTRACT_NOT_ACTIVE''
      else ebind (in_texts (jget c ''usage_mode'') [''fixed_window_research'', ''full_history_research'']) (\<lambda>known.
        if \<not> known then contract_fail ''TOTAL_RETURN_RESEARCH_CONTRACT_USAGE_INVALID''
        else if jget c ''dataset_kind'' \<noteq> JStr ''total_return'' \<or> jget c ''price_basis'' \<noteq> JStr ''etf_total_return''
        then contract_fail ''TOTAL_RETURN_RESEARCH_CONTRACT_IDENTITY_INVALID''
        else if \<not> py_eq (jget c ''horizon_minutes'') (JInt 1440)
        then contract_fail ''TOTAL_RETURN_RESEARCH_CONTRACT_HORIZON_INVALID''
        else Inr ()))"

definition read_window :: "(json \<Rightarrow> string) \<Rightarrow> (string \<times> json) list \<Rightarrow> exn + date \<times> date \<times> int" where
  "read_window shown w =
     ebind (required_field w ''first_session_date'') (\<lambda>a.
     ebind (date_fromisoformat (py_str shown a)) (\<lambda>first.
     ebind (required_field w ''last_session_date'') (\<lambda>b.
     ebind (date_fromisoformat (py_str shown b)) (\<lambda>last.
     ebind (required_field w ''rows_per_instrument'') (\<lambda>n.
     ebind (py_int n) (\<lambda>rows. Inr (first, last, rows)))))))"

definition check_contract_window :: "(json \<Rightarrow> string) \<Rightarrow> contract \<Rightarrow> exn + unit" where
  "check_contract_window shown c =
     (case jget c ''window'' of
        JObj w \<Rightarrow>
          ebind (as_contract_error ''TOTAL_RETURN_RESEARCH_CONTRACT_WINDOW_INVALID'' (read_window shown w))
            (\<lambda>(first, last, rows).
               if last < first \<or> rows \<le> 0 \<or> jget w ''freshness_required'' \<noteq> JBool False
               then contract_fail ''TOTAL_RETURN_RESEARCH_CONTRACT_WINDOW_INVALID'' else Inr ())
      | _ \<Rightarrow> contract_fail ''TOTAL_RETURN_RESEARCH_CONTRACT_WINDOW_INVALID'')"

definition check_definition :: "(json \<Rightarrow> string) \<Rightarrow> contract \<Rightarrow> exn + unit" where
  "check_definition shown c =
     (case jget c ''total_return_definition'' of
        JObj d \<Rightarrow>
          if strip (str_or_empty shown (jget d ''definition_id'')) = []
             \<or> jget d ''unadjusted_price_masquerading_as_total_return'' \<noteq> JBool False
          then contract_fail ''TOTAL_RETURN_DEFINITION_UNKNOWN'' else Inr ()
      | _ \<Rightarrow> contract_fail ''TOTAL_RETURN_DEFINITION_UNKNOWN'')"

text \<open>\<open>ticker.isupper()\<close> on ASCII texts.\<close>

definition is_upper :: "string \<Rightarrow> bool" where
  "is_upper s = (list_ex (\<lambda>c. 65 \<le> ccode c \<and> ccode c \<le> 90) s \<and> \<not> list_ex (\<lambda>c. 97 \<le> ccode c \<and> ccode c \<le> 122) s)"

text \<open>The evidence of an instrument with warnings.\<close>

definition warning_evidence_ok :: "json \<Rightarrow> bool" where
  "warning_evidence_ok v =
     (case v of
        JObj e \<Rightarrow> (case int_instance (jget e ''quality_warn_rows'') of None \<Rightarrow> False | Some n \<Rightarrow> 0 < n)
                  \<and> py_eq (jget e ''automatic_corrections'') (JInt 0)
      | _ \<Rightarrow> False)"

text \<open>A path and the digest it must have: both texts, the path inside the repository, the file a regular one.\<close>

definition bound_file_ok :: "'b Repository \<Rightarrow> json \<Rightarrow> json \<Rightarrow> bool" where
  "bound_file_ok rp path expected =
     (case (path, expected) of
        (JStr p, JStr h) \<Rightarrow> relative_path_ok p \<and> length h = 64
          \<and> (case regular rp p of None \<Rightarrow> False | Some b \<Rightarrow> rp_sha256 rp b = h)
      | _ \<Rightarrow> False)"

definition check_source :: "'b Repository \<Rightarrow> (string \<times> json) list \<Rightarrow> exn + unit" where
  "check_source rp item =
     (case jget item ''source'' of
        JObj s \<Rightarrow>
          if (case jget s ''ordered_content_sha256'' of JStr h \<Rightarrow> length h = 64 | _ \<Rightarrow> False)
             \<and> bound_file_ok rp (jget s ''relative_path'') (jget s ''sha256'')
          then Inr () else contract_fail ''TOTAL_RETURN_RESEARCH_CONTRACT_LINEAGE_INVALID''
      | _ \<Rightarrow> contract_fail ''TOTAL_RETURN_RESEARCH_CONTRACT_LINEAGE_INVALID'')"

definition check_instrument :: "'b Repository \<Rightarrow> contract \<Rightarrow> string \<times> json \<Rightarrow> exn + unit" where
  "check_instrument rp c = (\<lambda>(ticker, v).
     case v of
       JObj item \<Rightarrow>
         if \<not> is_upper ticker then contract_fail ''TOTAL_RETURN_RESEARCH_CONTRACT_INSTRUMENTS_INVALID''
         else ebind (in_texts (jget item ''availability'') allowed_availability) (\<lambda>known.
           if \<not> known then contract_fail ''TOTAL_RETURN_RESEARCH_CONTRACT_INSTRUMENTS_INVALID''
           else case jget item ''approved_warning_codes'' of
             JArr warnings \<Rightarrow>
               let warned = (jget item ''availability'' = JStr ''AVAILABLE_WITH_WARNINGS'');
                   evidence = jget item ''warning_evidence''
               in if (\<not> warned \<and> (warnings \<noteq> [] \<or> evidence \<noteq> JNull))
                     \<or> (warned \<and> (warnings = [] \<or> \<not> warning_evidence_ok evidence))
                  then contract_fail ''TOTAL_RETURN_RESEARCH_CONTRACT_WARNING_INVALID''
                  else if full_history c then check_source rp item else Inr ()
           | _ \<Rightarrow> contract_fail ''TOTAL_RETURN_RESEARCH_CONTRACT_INSTRUMENTS_INVALID'')
     | _ \<Rightarrow> contract_fail ''TOTAL_RETURN_RESEARCH_CONTRACT_INSTRUMENTS_INVALID'')"

fun check_each :: "('a \<Rightarrow> 'e + unit) \<Rightarrow> 'a list \<Rightarrow> 'e + unit" where
  "check_each f [] = Inr ()"
| "check_each f (x # xs) = ebind (f x) (\<lambda>_. check_each f xs)"

lemma check_each_Inr: "check_each f xs = Inr u \<longleftrightarrow> (\<forall>x \<in> set xs. f x = Inr ())"
  by (induction xs) (auto simp: ebind_eq_Inr)

definition check_instruments :: "'b Repository \<Rightarrow> contract \<Rightarrow> exn + unit" where
  "check_instruments rp c =
     (case jget c ''instruments'' of
        JObj kvs \<Rightarrow> if length kvs \<noteq> 11 then contract_fail ''TOTAL_RETURN_RESEARCH_CONTRACT_INSTRUMENTS_INVALID''
                    else check_each (check_instrument rp c) kvs
      | _ \<Rightarrow> contract_fail ''TOTAL_RETURN_RESEARCH_CONTRACT_INSTRUMENTS_INVALID'')"

definition identity_pairs :: "contract \<Rightarrow> (string \<times> string) list" where
  "identity_pairs c =
     [(''source_manifest_relative_path'', ''source_manifest_sha256''),
      (''quality_evidence_relative_path'', ''quality_evidence_sha256''),
      (if full_history c then (''lineage_manifest_relative_path'', ''lineage_manifest_sha256'')
       else (''normalized_csv_relative_path'', ''normalized_csv_sha256''))]"

definition check_identity :: "'b Repository \<Rightarrow> contract \<Rightarrow> exn + unit" where
  "check_identity rp c =
     (case jget c ''identity'' of
        JObj kvs \<Rightarrow> check_each (\<lambda>(path_key, hash_key).
          if bound_file_ok rp (jget kvs path_key) (jget kvs hash_key) then Inr ()
          else contract_fail ''TOTAL_RETURN_RESEARCH_CONTRACT_LINEAGE_INVALID'') (identity_pairs c)
      | _ \<Rightarrow> contract_fail ''TOTAL_RETURN_RESEARCH_CONTRACT_LINEAGE_INVALID'')"

definition validate_contract :: "'b Repository \<Rightarrow> contract \<Rightarrow> exn + unit" where
  "validate_contract rp c =
     ebind (check_contract_header c) (\<lambda>_.
     ebind (check_contract_window (rp_shown rp) c) (\<lambda>_.
     ebind (check_definition (rp_shown rp) c) (\<lambda>_.
     ebind (check_instruments rp c) (\<lambda>_.
       check_identity rp c))))"

section \<open>Loading and requests\<close>

definition contract_relative_path :: string where
  "contract_relative_path = ''specs/total_return_research_contract_v1.json''"

definition full_history_contract_relative_path :: string where
  "full_history_contract_relative_path = ''specs/total_return_full_history_research_contract_v1.json''"

definition load_contract_file :: "'b Repository \<Rightarrow> string \<Rightarrow> exn + contract" where
  "load_contract_file rp path =
     (case Option.bind (regular rp path) (rp_json rp) of
        None \<Rightarrow> contract_fail ''TOTAL_RETURN_RESEARCH_CONTRACT_NOT_VERIFIED''
      | Some (JObj c) \<Rightarrow> ebind (validate_contract rp c) (\<lambda>_. Inr c)
      | Some _ \<Rightarrow> Inl AttributeError)"

definition load_research_contracts :: "'b Repository \<Rightarrow> exn + contract list" where
  "load_research_contracts rp =
     ebind (load_contract_file rp contract_relative_path) (\<lambda>a.
     ebind (load_contract_file rp full_history_contract_relative_path) (\<lambda>b. Inr [a, b]))"

text \<open>A text field that the code subscripts without a check.\<close>

definition instruments_of :: "contract \<Rightarrow> exn + (string \<times> json) list" where
  "instruments_of c = ebind (required_field c ''instruments'') (\<lambda>v. case v of JObj kvs \<Rightarrow> Inr kvs | _ \<Rightarrow> Inl TypeError)"

definition window_of :: "contract \<Rightarrow> exn + (string \<times> json) list" where
  "window_of c = ebind (required_field c ''window'') (\<lambda>v. case v of JObj kvs \<Rightarrow> Inr kvs | _ \<Rightarrow> Inl TypeError)"

definition date_field :: "(string \<times> json) list \<Rightarrow> string \<Rightarrow> exn + date" where
  "date_field kvs k = ebind (required_field kvs k) (\<lambda>v. case v of JStr s \<Rightarrow> date_fromisoformat s | _ \<Rightarrow> Inl TypeError)"

definition choose_contract :: "string option \<Rightarrow> contract list \<Rightarrow> exn + contract" where
  "choose_contract contract_id cs =
     (if contract_id \<in> {None, Some []} then Inr (hd cs)
      else ebind (emap (\<lambda>c. required_field c ''contract_id'') cs) (\<lambda>ids.
        case filter (\<lambda>(v, c). v = JStr (the contract_id)) (zip ids cs) of
          [(v, c)] \<Rightarrow> Inr c
        | _ \<Rightarrow> contract_fail ''TOTAL_RETURN_RESEARCH_CONTRACT_NOT_FOUND''))"

definition contract_for_request :: "'b Repository \<Rightarrow> string option \<Rightarrow> string \<Rightarrow> exn + contract" where
  "contract_for_request rp contract_id instrument_key =
     ebind (load_research_contracts rp) (\<lambda>cs.
     ebind (choose_contract contract_id cs) (\<lambda>c.
     ebind (instruments_of c) (\<lambda>kvs.
       if map_of kvs (upper instrument_key) = None
       then contract_fail ''TOTAL_RETURN_RESEARCH_CONTRACT_INSTRUMENT_NOT_FOUND'' else Inr c)))"

text \<open>\<open>last + timedelta(days=1)\<close> overflows on the last day of the calendar, 9999-12-31.\<close>

definition max_date :: date where "max_date = 3652059"

definition validate_requested_window :: "contract \<Rightarrow> date \<Rightarrow> date \<Rightarrow> exn + unit" where
  "validate_requested_window c start till =
     ebind (window_of c) (\<lambda>w.
     ebind (date_field w ''first_session_date'') (\<lambda>first.
     ebind (date_field w ''last_session_date'') (\<lambda>last.
       if last = max_date then Inl OverflowError
       else if start < first \<or> last + 1 < till \<or> till \<le> start
       then contract_fail ''TOTAL_RETURN_RESEARCH_WINDOW_OUTSIDE_CONTRACT'' else Inr ())))"

definition public_fields :: "(string \<times> string) list" where
  "public_fields =
     [(''contract_id'', ''contract_id''), (''status'', ''status''), (''usage_mode'', ''usage_mode''),
      (''source_dataset_id'', ''source_dataset_id''), (''provider'', ''series_provider''), (''price_basis'', ''price_basis''),
      (''horizon_minutes'', ''horizon_minutes''), (''window'', ''window''), (''identity'', ''identity''),
      (''total_return_definition'', ''total_return_definition''), (''non_blocking_metadata'', ''non_blocking_metadata''),
      (''blocking_gates'', ''blocking_gates''), (''instruments'', ''instruments'')]"

definition public_contract :: "contract \<Rightarrow> exn + contract" where
  "public_contract c =
     ebind (emap (\<lambda>(k, src). ebind (required_field c src) (\<lambda>v. Inr (k, v))) public_fields) (\<lambda>kvs.
       Inr (kvs @ (case map_of c ''range_query'' of None \<Rightarrow> [] | Some v \<Rightarrow> [(''range_query'', v)])))"

section \<open>One bound source file\<close>

record HistoryRow =
  hr_dataset :: json
  hr_ticker :: string
  hr_date :: string
  hr_value :: "string option"
  hr_volume :: "string option"
  hr_quality :: string
  hr_basis :: json

definition optional_json :: "string option \<Rightarrow> json" where
  "optional_json v = (case v of None \<Rightarrow> JNull | Some s \<Rightarrow> JStr s)"

definition history_json :: "HistoryRow \<Rightarrow> json" where
  "history_json r = JObj
     [(''source_dataset_id'', hr_dataset r), (''external_series_key'', JStr (hr_ticker r)), (''session_date'', JStr (hr_date r)),
      (''value'', optional_json (hr_value r)), (''volume'', optional_json (hr_volume r)),
      (''quality_status'', JStr (hr_quality r)), (''price_basis'', hr_basis r)]"

text \<open>\<open>row[column]\<close>, and the conversions of a field, which raise for the \<open>None\<close> of a short row.\<close>

definition csv_field :: "(string \<times> string option) list \<Rightarrow> string \<Rightarrow> exn + string option" where
  "csv_field row k = (case map_of row k of None \<Rightarrow> Inl KeyError | Some v \<Rightarrow> Inr v)"

definition csv_date :: "string option \<Rightarrow> exn + date" where
  "csv_date v = (case v of None \<Rightarrow> Inl TypeError | Some s \<Rightarrow> date_fromisoformat s)"

text \<open>\<open>Decimal(text)\<close>; \<open>InvalidOperation\<close> is told apart from the other exceptions by \<open>ValueError\<close>.\<close>

definition csv_decimal :: "string option \<Rightarrow> exn + decimal" where
  "csv_decimal v =
     (case v of None \<Rightarrow> Inl TypeError
      | Some s \<Rightarrow> (case dec_of_text s of None \<Rightarrow> Inl (ValueError ''InvalidOperation'') | Some d \<Rightarrow> Inr d))"

definition positive_decimal :: "decimal \<Rightarrow> bool" where
  "positive_decimal d = (case d of Fin q \<Rightarrow> 0 < q | _ \<Rightarrow> False)"

text \<open>One row of the file: \<open>None\<close> outside the window of the contract.\<close>

definition history_row ::
  "contract \<Rightarrow> string \<Rightarrow> date \<Rightarrow> date \<Rightarrow> string list \<Rightarrow> (string \<times> string option) list
    \<Rightarrow> exn + (date \<times> HistoryRow) option" where
  "history_row c ticker first final warned row =
     ebind (csv_field row ''date'') (\<lambda>raw.
     ebind (csv_date raw) (\<lambda>d.
       if d < first \<or> final < d then Inr None
       else if map_of row ''ticker'' \<noteq> Some (Some ticker)
       then contract_fail ''TOTAL_RETURN_RESEARCH_SOURCE_IDENTITY_MISMATCH''
       else ebind (ebind (csv_field row ''adjusted_close'') csv_decimal) (\<lambda>adjusted.
            ebind (csv_field row ''total_return_index'') (\<lambda>index.
            ebind (csv_decimal index) (\<lambda>total.
              if \<not> positive_decimal adjusted \<or> \<not> positive_decimal total
              then contract_fail ''TOTAL_RETURN_RESEARCH_SOURCE_QUALITY_FAILED''
              else ebind (required_field c ''source_dataset_id'') (\<lambda>dataset.
                   ebind (csv_field row ''volume'') (\<lambda>vol.
                   ebind (required_field c ''price_basis'') (\<lambda>basis.
                     Inr (Some (d, \<lparr> hr_dataset = dataset, hr_ticker = ticker, hr_date = the raw, hr_value = index,
                                     hr_volume = vol,
                                     hr_quality = (if the raw \<in> set warned then ''WARN'' else ''PASS''),
                                     hr_basis = basis \<rparr>))))))))))"

fun history_rows ::
  "((string \<times> string option) list \<Rightarrow> exn + (date \<times> HistoryRow) option) \<Rightarrow> (string \<times> string option) list list \<Rightarrow> bool
    \<Rightarrow> exn + (date \<times> HistoryRow) list" where
  "history_rows f [] ended = (if ended then Inr [] else Inl (ValueError ''unreadable file''))"
| "history_rows f (r # rs) ended =
     ebind (f r) (\<lambda>x. ebind (history_rows f rs ended) (\<lambda>xs.
       Inr (case x of None \<Rightarrow> xs | Some y \<Rightarrow> y # xs)))"

text \<open>
  The handler around the loop catches \<open>ValueError\<close>, of which a contract error is a kind: also the loop's own
  error codes become the quality error.
\<close>

definition history_loop :: "exn + 'a \<Rightarrow> exn + 'a" where
  "history_loop r =
     (case r of Inl (ValueError m) \<Rightarrow> contract_fail ''TOTAL_RETURN_RESEARCH_SOURCE_QUALITY_FAILED''
      | Inl KeyError \<Rightarrow> contract_fail ''TOTAL_RETURN_RESEARCH_SOURCE_QUALITY_FAILED''
      | Inl (TotalReturnContractError m) \<Rightarrow> contract_fail ''TOTAL_RETURN_RESEARCH_SOURCE_QUALITY_FAILED''
      | _ \<Rightarrow> r)"

lemma history_loop_Inr [simp]: "history_loop r = Inr v \<longleftrightarrow> r = Inr v"
  by (cases r; cases "projl r") (auto simp: history_loop_def contract_fail_def split: exn.splits)

text \<open>\<open>set(evidence.get("session_dates") or [])\<close> of \<open>instrument.get("warning_evidence") or {}\<close>: its texts.\<close>

definition evidence_of :: "(string \<times> json) list \<Rightarrow> exn + (string \<times> json) list" where
  "evidence_of item =
     (let v = jget item ''warning_evidence''
      in if \<not> truthy v then Inr [] else case v of JObj kvs \<Rightarrow> Inr kvs | _ \<Rightarrow> Inl AttributeError)"

fun text_of :: "json \<Rightarrow> string option" where
  "text_of (JStr s) = Some s" | "text_of _ = None"

definition hashable :: "json \<Rightarrow> bool" where
  "hashable v = (case v of JArr _ \<Rightarrow> False | JObj _ \<Rightarrow> False | _ \<Rightarrow> True)"

definition text_set :: "json \<Rightarrow> exn + string list" where
  "text_set v =
     (if \<not> truthy v then Inr []
      else case v of
             JArr xs \<Rightarrow> if list_all hashable xs then Inr (List.map_filter text_of xs) else Inl TypeError
           | JStr s \<Rightarrow> Inr (map (\<lambda>ch. [ch]) s)
           | JObj kvs \<Rightarrow> Inr (map fst kvs)
           | _ \<Rightarrow> Inl TypeError)"

record FullHistory =
  fh_ticker :: string
  fh_rows :: "HistoryRow list"
  fh_first :: string
  fh_last :: string
  fh_duplicates :: nat
  fh_nonpositive :: nat
  fh_warnings :: nat
  fh_source_sha256 :: json
  fh_content_sha256 :: string

record HistoryRequest =
  hq_item :: "(string \<times> json) list"
  hq_source :: json
  hq_first :: date
  hq_last :: date
  hq_rows :: int

definition object_of :: "json \<Rightarrow> exn + (string \<times> json) list" where
  "object_of v = (case v of JObj kvs \<Rightarrow> Inr kvs | _ \<Rightarrow> Inl TypeError)"

definition history_request :: "contract \<Rightarrow> string \<Rightarrow> exn + HistoryRequest" where
  "history_request c ticker =
     as_contract_error ''TOTAL_RETURN_RESEARCH_CONTRACT_INSTRUMENT_NOT_FOUND''
       (ebind (instruments_of c) (\<lambda>kvs.
        ebind (ebind (required_field kvs ticker) object_of) (\<lambda>item.
        ebind (required_field item ''source'') (\<lambda>src.
        ebind (window_of c) (\<lambda>w.
        ebind (date_field w ''first_session_date'') (\<lambda>first.
        ebind (date_field w ''last_session_date'') (\<lambda>last.
        ebind (ebind (required_field w ''rows_per_instrument'') py_int) (\<lambda>n.
          Inr \<lparr> hq_item = item, hq_source = src, hq_first = first, hq_last = last, hq_rows = n \<rparr>))))))))"

definition history_coverage_ok :: "HistoryRequest \<Rightarrow> date list \<Rightarrow> bool" where
  "history_coverage_ok q ds =
     (int (length ds) = hq_rows q \<and> ds \<noteq> [] \<and> hd ds = hq_first q \<and> last ds = hq_last q
      \<and> ds = sort ds \<and> length (remdups ds) = length ds)"

definition load_full_history_series :: "'b Repository \<Rightarrow> contract \<Rightarrow> string \<Rightarrow> exn + FullHistory" where
  "load_full_history_series rp c instrument_key =
     (if \<not> full_history c then contract_fail ''TOTAL_RETURN_RESEARCH_CONTRACT_USAGE_INVALID''
      else let ticker = upper instrument_key in
        ebind (history_request c ticker) (\<lambda>q.
        ebind (evidence_of (hq_item q)) (\<lambda>evidence.
        ebind (text_set (jget evidence ''session_dates'')) (\<lambda>warned.
        ebind (object_of (hq_source q)) (\<lambda>src.
        ebind (ebind (required_field src ''relative_path'') (\<lambda>v. case v of JStr p \<Rightarrow> Inr p | _ \<Rightarrow> Inl TypeError)) (\<lambda>path.
        ebind (case opened rp path of
                 None \<Rightarrow> contract_fail ''TOTAL_RETURN_RESEARCH_SOURCE_QUALITY_FAILED''
               | Some b \<Rightarrow> history_loop
                   (history_rows (history_row c ticker (hq_first q) (hq_last q) warned) (fst (rp_csv rp b)) (snd (rp_csv rp b))))
          (\<lambda>rows.
        if \<not> history_coverage_ok q (map fst rows)
        then contract_fail ''TOTAL_RETURN_RESEARCH_SOURCE_COVERAGE_FAILED''
        else ebind (int_or_zero (jget evidence ''quality_warn_rows'')) (\<lambda>expected.
          let warnings = length (filter (\<lambda>r. hr_quality (snd r) = ''WARN'') rows);
              content = rp_rows_sha256 rp (map (history_json \<circ> snd) rows)
          in if int warnings \<noteq> expected then contract_fail ''TOTAL_RETURN_RESEARCH_SOURCE_QUALITY_FAILED''
             else ebind (required_field src ''ordered_content_sha256'') (\<lambda>bound.
               if bound \<noteq> JStr content then contract_fail ''TOTAL_RETURN_RESEARCH_SOURCE_CONTENT_MISMATCH''
               else ebind (required_field src ''sha256'') (\<lambda>sha.
                 Inr \<lparr> fh_ticker = ticker, fh_rows = map snd rows,
                       fh_first = date_iso (fst (hd rows)), fh_last = date_iso (fst (last rows)),
                       fh_duplicates = length rows - length (remdups (map fst rows)), fh_nonpositive = 0,
                       fh_warnings = warnings, fh_source_sha256 = sha, fh_content_sha256 = content \<rparr>))))))))))"

text \<open>The rows from \<open>start\<close> up to \<open>till\<close>, after the last date already read.\<close>

definition select_full_history_rows :: "FullHistory \<Rightarrow> date \<Rightarrow> date \<Rightarrow> date option \<Rightarrow> exn + HistoryRow list" where
  "select_full_history_rows h start till after =
     ebind (emap (\<lambda>r. ebind (date_fromisoformat (hr_date r)) (\<lambda>d. Inr (d, r))) (fh_rows h)) (\<lambda>rows.
       Inr (map snd (filter (\<lambda>(d, r). start \<le> d \<and> d < till \<and> (case after of None \<Rightarrow> True | Some a \<Rightarrow> a < d)) rows)))"

section \<open>What a loaded series holds\<close>

text \<open>The rows of the file that the window of the contract takes in.\<close>

definition in_window :: "HistoryRequest \<Rightarrow> (string \<times> string option) list \<Rightarrow> bool" where
  "in_window q row =
     (case csv_field row ''date'' of
        Inr (Some s) \<Rightarrow> (case date_fromisoformat s of Inr d \<Rightarrow> hq_first q \<le> d \<and> d \<le> hq_last q | Inl _ \<Rightarrow> False)
      | _ \<Rightarrow> False)"

text \<open>A row of the answer against the row of the file it was read from.\<close>

definition taken_from :: "string \<Rightarrow> string list \<Rightarrow> (string \<times> string option) list \<Rightarrow> HistoryRow \<Rightarrow> bool" where
  "taken_from ticker warned row r =
     (map_of row ''date'' = Some (Some (hr_date r)) \<and> map_of row ''ticker'' = Some (Some ticker) \<and> hr_ticker r = ticker
      \<and> map_of row ''total_return_index'' = Some (hr_value r) \<and> map_of row ''volume'' = Some (hr_volume r)
      \<and> (\<exists>d. csv_decimal (hr_value r) = Inr d \<and> positive_decimal d)
      \<and> hr_quality r = (if hr_date r \<in> set warned then ''WARN'' else ''PASS''))"

lemma csv_field_Inr [simp]: "csv_field row k = Inr v \<longleftrightarrow> map_of row k = Some v"
  by (auto simp: csv_field_def split: option.splits)

lemma csv_date_Inr: "csv_date v = Inr d \<longleftrightarrow> (\<exists>s. v = Some s \<and> date_fromisoformat s = Inr d)"
  by (auto simp: csv_date_def split: option.splits)

lemma contract_fail_Inr [simp]: "contract_fail code \<noteq> Inr v" "Inr v \<noteq> contract_fail code"
  by (simp_all add: contract_fail_def)

lemma history_row_window:
  assumes "history_row c ticker (hq_first q) (hq_last q) warned row = Inr y"
  shows "in_window q row \<longleftrightarrow> y \<noteq> None"
proof -
  from assms obtain raw d where raw: "csv_field row ''date'' = Inr raw" and d: "csv_date raw = Inr d"
    by (auto simp: history_row_def ebind_eq_Inr simp del: csv_field_Inr)
  then obtain s where s: "raw = Some s" "date_fromisoformat s = Inr d" by (auto simp: csv_date_Inr)
  show ?thesis
    using assms unfolding history_row_def raw ebind_Inr d
    by (auto simp: in_window_def raw s ebind_eq_Inr simp del: csv_field_Inr split: if_splits)
qed

lemma history_row_taken:
  assumes "history_row c ticker first final warned row = Inr (Some (d, r))"
  shows "taken_from ticker warned row r \<and> date_fromisoformat (hr_date r) = Inr d"
  using assms by (auto simp: history_row_def taken_from_def ebind_eq_Inr csv_date_Inr split: if_splits)

lemma history_rows_spec:
  assumes "history_rows f rs ended = Inr xs" and "\<And>r y. f r = Inr y \<Longrightarrow> P r \<longleftrightarrow> y \<noteq> None"
  shows "ended \<and> list_all2 (\<lambda>r x. f r = Inr (Some x)) (filter P rs) xs"
  using assms(1)
proof (induction rs arbitrary: xs)
  case Nil
  then show ?case by (auto split: if_splits)
next
  case (Cons r rs)
  then obtain x ys where x: "f r = Inr x" and ys: "history_rows f rs ended = Inr ys"
    and xs: "xs = (case x of None \<Rightarrow> ys | Some y \<Rightarrow> y # ys)"
    by (auto simp: ebind_eq_Inr)
  with Cons.IH [OF ys] assms(2) [OF x] show ?case by (cases x) auto
qed

lemma strictly_increasing:
  assumes "ds = sort ds" "length (remdups ds) = length ds"
  shows "sorted_wrt (<) (ds :: int list)"
proof -
  have "distinct ds" using assms(2) by simp
  moreover have "sorted ds" using assms(1) by (metis sorted_sort)
  ultimately show ?thesis by (simp add: strict_sorted_iff)
qed

lemma case_text_Inr: "(case v of JStr p \<Rightarrow> Inr p | _ \<Rightarrow> Inl e) = Inr p \<longleftrightarrow> v = JStr p"
  by (cases v) auto

lemma load_full_history_cases:
  assumes "load_full_history_series rp c key = Inr h"
  obtains q evidence warned b rows src path where
    "history_request c (upper key) = Inr q" "evidence_of (hq_item q) = Inr evidence"
    "text_set (jget evidence ''session_dates'') = Inr warned"
    "history_rows (history_row c (upper key) (hq_first q) (hq_last q) warned) (fst (rp_csv rp b)) (snd (rp_csv rp b)) = Inr rows"
    "history_coverage_ok q (map fst rows)" "fh_rows h = map snd rows" "fh_ticker h = upper key"
    "fh_first h = date_iso (hq_first q)" "fh_last h = date_iso (hq_last q)" "fh_duplicates h = 0"
    "fh_content_sha256 h = rp_rows_sha256 rp (map history_json (fh_rows h))"
    "object_of (hq_source q) = Inr src" "required_field src ''ordered_content_sha256'' = Inr (JStr (fh_content_sha256 h))"
    "required_field src ''relative_path'' = Inr (JStr path)" "opened rp path = Some b"
    "int_or_zero (jget evidence ''quality_warn_rows'') = Inr (int (fh_warnings h))"
    "fh_warnings h = length (filter (\<lambda>r. hr_quality r = ''WARN'') (fh_rows h))"
proof -
  from assms obtain q evidence warned src path rows expected bound sha where
    q: "history_request c (upper key) = Inr q" and e: "evidence_of (hq_item q) = Inr evidence"
    and w: "text_set (jget evidence ''session_dates'') = Inr warned" and s: "object_of (hq_source q) = Inr src"
    and p: "required_field src ''relative_path'' = Inr (JStr path)"
    and r: "(case opened rp path of
                 None \<Rightarrow> contract_fail ''TOTAL_RETURN_RESEARCH_SOURCE_QUALITY_FAILED''
               | Some b \<Rightarrow> history_loop
                   (history_rows (history_row c (upper key) (hq_first q) (hq_last q) warned) (fst (rp_csv rp b)) (snd (rp_csv rp b))))
             = Inr rows"
    and cov: "history_coverage_ok q (map fst rows)"
    and n: "int_or_zero (jget evidence ''quality_warn_rows'') = Inr expected"
    and m: "int (length (filter (\<lambda>r. hr_quality (snd r) = ''WARN'') rows)) = expected"
    and bd: "required_field src ''ordered_content_sha256'' = Inr bound" "bound = JStr (rp_rows_sha256 rp (map (history_json \<circ> snd) rows))"
    and h: "h = \<lparr> fh_ticker = upper key, fh_rows = map snd rows,
                       fh_first = date_iso (fst (hd rows)), fh_last = date_iso (fst (last rows)),
                       fh_duplicates = length rows - length (remdups (map fst rows)), fh_nonpositive = 0,
                       fh_warnings = length (filter (\<lambda>r. hr_quality (snd r) = ''WARN'') rows), fh_source_sha256 = sha,
                       fh_content_sha256 = rp_rows_sha256 rp (map (history_json \<circ> snd) rows) \<rparr>"
    by (auto simp: load_full_history_series_def ebind_eq_Inr Let_def case_text_Inr simp del: filter.simps split: if_splits)
  from r obtain b where b: "opened rp path = Some b"
    and rows: "history_rows (history_row c (upper key) (hq_first q) (hq_last q) warned) (fst (rp_csv rp b)) (snd (rp_csv rp b)) = Inr rows"
    by (auto split: option.splits)
  have ne: "rows \<noteq> []" using cov by (auto simp: history_coverage_ok_def)
  have hd_last: "fst (hd rows) = hq_first q" "fst (last rows) = hq_last q"
    using cov ne by (auto simp: history_coverage_ok_def hd_map last_map)
  have len: "length (remdups (map fst rows)) = length rows"
    using cov by (auto simp: history_coverage_ok_def)
  show thesis
    by (rule that [OF q e w rows cov _ _ _ _ _ _ s _ p b]) (use h n m bd hd_last len in \<open>simp_all add: filter_map comp_def\<close>)
qed

text \<open>C13: A loaded full-history series is exactly what its bound file holds of the window of the contract: the
  file was read to its end, its rows inside the window are answered in their order, each with its own texts,
  finite positive prices and the ticker asked for; the dates increase strictly, from the first to the last day
  of the window, and there are as many as the contract says; the rows marked WARN are those the contract
  names, as many as it counts, and the digest of the answer is the one the contract binds.
\<close>

theorem full_history_series_exact:
  assumes "load_full_history_series rp c key = Inr h"
  shows "\<exists>q warned b path ds src. history_request c (upper key) = Inr q
    \<and> object_of (hq_source q) = Inr src \<and> jget src ''relative_path'' = JStr path \<and> opened rp path = Some b \<and> snd (rp_csv rp b)
    \<and> list_all2 (taken_from (upper key) warned) (filter (in_window q) (fst (rp_csv rp b))) (fh_rows h)
    \<and> list_all2 (\<lambda>d r. date_fromisoformat (hr_date r) = Inr d) ds (fh_rows h)
    \<and> sorted_wrt (<) ds \<and> ds \<noteq> [] \<and> hd ds = hq_first q \<and> last ds = hq_last q
    \<and> int (length (fh_rows h)) = hq_rows q \<and> fh_duplicates h = 0
    \<and> fh_warnings h = length (filter (\<lambda>r. hr_date r \<in> set warned) (fh_rows h))
    \<and> jget src ''ordered_content_sha256'' = JStr (rp_rows_sha256 rp (map history_json (fh_rows h)))"
proof -
  from load_full_history_cases [OF assms] obtain q evidence warned b rows src path where
    q: "history_request c (upper key) = Inr q"
    and rows: "history_rows (history_row c (upper key) (hq_first q) (hq_last q) warned) (fst (rp_csv rp b)) (snd (rp_csv rp b)) = Inr rows"
    and cov: "history_coverage_ok q (map fst rows)" and h: "fh_rows h = map snd rows" and dup: "fh_duplicates h = 0"
    and sha: "fh_content_sha256 h = rp_rows_sha256 rp (map history_json (fh_rows h))"
    and src: "object_of (hq_source q) = Inr src" and bd: "required_field src ''ordered_content_sha256'' = Inr (JStr (fh_content_sha256 h))"
    and path: "required_field src ''relative_path'' = Inr (JStr path)" and b: "opened rp path = Some b"
    and n: "fh_warnings h = length (filter (\<lambda>r. hr_quality r = ''WARN'') (fh_rows h))" .
  let ?f = "history_row c (upper key) (hq_first q) (hq_last q) warned"
  from history_rows_spec [OF rows, of "in_window q"] history_row_window
  have ended: "snd (rp_csv rp b)"
    and all: "list_all2 (\<lambda>r x. ?f r = Inr (Some x)) (filter (in_window q) (fst (rp_csv rp b))) rows" by blast+
  from all have taken: "list_all2 (taken_from (upper key) warned) (filter (in_window q) (fst (rp_csv rp b))) (fh_rows h)"
    unfolding h list.rel_map by (rule list_all2_mono) (metis history_row_taken prod.collapse)
  have dated: "\<forall>x \<in> set rows. date_fromisoformat (hr_date (snd x)) = Inr (fst x)
      \<and> hr_quality (snd x) = (if hr_date (snd x) \<in> set warned then ''WARN'' else ''PASS'')"
  proof
    fix x assume "x \<in> set rows"
    then obtain r where "?f r = Inr (Some (fst x, snd x))" using all by (auto simp: list_all2_conv_all_nth in_set_conv_nth)
    then show "date_fromisoformat (hr_date (snd x)) = Inr (fst x)
      \<and> hr_quality (snd x) = (if hr_date (snd x) \<in> set warned then ''WARN'' else ''PASS'')"
      using history_row_taken by (metis taken_from_def)
  qed
  have dates: "list_all2 (\<lambda>d r. date_fromisoformat (hr_date r) = Inr d) (map fst rows) (fh_rows h)"
    using dated by (simp add: h list_all2_map1 list_all2_map2 list_all2_same)
  have "sorted_wrt (<) (map fst rows)" using cov unfolding history_coverage_ok_def
    by (elim conjE) (rule strictly_increasing, assumption+)
  moreover have "fh_warnings h = length (filter (\<lambda>r. hr_date r \<in> set warned) (fh_rows h))"
    unfolding n h using dated by (intro arg_cong [of _ _ length] filter_cong) (auto split: if_splits)
  moreover have "jget src ''relative_path'' = JStr path" "jget src ''ordered_content_sha256'' = JStr (rp_rows_sha256 rp (map history_json (fh_rows h)))"
    using path bd sha by (auto simp: required_field_def jget_def split: option.splits)
  ultimately show ?thesis
    using q src b ended taken dates cov dup h by (auto simp: history_coverage_ok_def)
qed

text \<open>The code for a row of another instrument never reaches the caller.\<close>

lemma as_contract_error_Inl: "as_contract_error code r = Inl (TotalReturnContractError m) \<Longrightarrow> m = code"
  by (cases r; cases "projl r") (auto simp: as_contract_error_def contract_fail_def split: exn.splits)

lemma history_loop_Inl: "history_loop r = Inl (TotalReturnContractError m) \<Longrightarrow> m = ''TOTAL_RETURN_RESEARCH_SOURCE_QUALITY_FAILED''"
  by (cases r; cases "projl r") (auto simp: history_loop_def contract_fail_def split: exn.splits)

lemma py_int_no_contract_error: "int_or_zero v \<noteq> Inl (TotalReturnContractError m)"
  by (cases v rule: py_int.cases)
    (auto simp: int_or_zero_def int_of_text_def Let_def split: prod.splits option.splits)

lemma no_contract_errors [simp]:
  "evidence_of item \<noteq> Inl (TotalReturnContractError m)" "text_set v \<noteq> Inl (TotalReturnContractError m)"
  "object_of v \<noteq> Inl (TotalReturnContractError m)" "required_field kvs k \<noteq> Inl (TotalReturnContractError m)"
  by (auto simp: evidence_of_def text_set_def object_of_def required_field_def Let_def split: json.splits option.splits)

lemma identity_mismatch_never_reported:
  "load_full_history_series rp c key \<noteq> contract_fail ''TOTAL_RETURN_RESEARCH_SOURCE_IDENTITY_MISMATCH''"
proof
  assume "load_full_history_series rp c key = contract_fail ''TOTAL_RETURN_RESEARCH_SOURCE_IDENTITY_MISMATCH''"
  then show False
    by (auto simp: load_full_history_series_def ebind_eq_Inl contract_fail_def Let_def history_request_def
        py_int_no_contract_error
        dest!: as_contract_error_Inl history_loop_Inl split: if_splits option.splits json.splits)
qed

section \<open>What a loaded contract holds\<close>

lemma digits_no_date:
  assumes "list_all is_digit s"
  shows "parse_date_prefix s = None"
proof -
  have "skip_char (CHR ''-'') (drop 4 s) = None"
  proof (cases "drop 4 s")
    case (Cons x xs)
    then have "x \<in> set s" by (metis in_set_dropD list.set_intros(1))
    with assms Cons show ?thesis by (auto simp: skip_char_def list_all_iff is_digit_def ccode_def)
  qed (simp add: skip_char_def)
  then show ?thesis by (auto simp: parse_date_prefix_def digits_field_def bind_eq_None_conv)
qed

lemma sign_no_date: "parse_date_prefix (CHR ''-'' # s) = None"
  by (auto simp: parse_date_prefix_def digits_field_def is_digit_def ccode_def)

text \<open>No printed number, truth value or \<open>None\<close> is a date.\<close>

lemma date_of_py_str:
  assumes "date_fromisoformat (py_str shown v) = Inr d" and "\<And>v. date_fromisoformat (shown v) \<noteq> Inr d"
  shows "\<exists>s. v = JStr s"
proof (cases v)
  case (JInt i)
  then show ?thesis
    using assms(1) digits_no_date [OF show_nat_digits] sign_no_date
    by (auto simp: date_fromisoformat_def show_int_def split: if_splits)
next
  case (JBool b)
  then show ?thesis using assms(1)
    by (cases b) (simp_all add: date_fromisoformat_def parse_date_prefix_def digits_field_def is_digit_def ccode_def)
next
  case JNull
  then show ?thesis using assms(1)
    by (simp add: date_fromisoformat_def parse_date_prefix_def digits_field_def is_digit_def ccode_def)
qed (use assms in auto)

lemma required_field_Inr [simp]: "required_field kvs k = Inr v \<longleftrightarrow> map_of kvs k = Some v"
  by (auto simp: required_field_def split: option.splits)

lemma jget_object: "jget kvs k = JObj w \<Longrightarrow> map_of kvs k = Some (JObj w)"
  by (auto simp: jget_def split: option.splits)

text \<open>The two dates of a checked window are dates in text form.\<close>

lemma checked_window:
  assumes "check_contract_window shown c = Inr u" and shown: "\<And>v d. date_fromisoformat (shown v) \<noteq> Inr d"
  obtains w s t first final n where "window_of c = Inr w" "map_of w ''first_session_date'' = Some (JStr s)"
    "map_of w ''last_session_date'' = Some (JStr t)" "date_fromisoformat s = Inr first" "date_fromisoformat t = Inr final"
    "first \<le> final" "ebind (required_field w ''rows_per_instrument'') py_int = Inr n" "0 < n"
proof -
  from assms(1) obtain w where w: "jget c ''window'' = JObj w"
    by (auto simp: check_contract_window_def split: json.splits)
  with assms(1) obtain first final n where "read_window shown w = Inr (first, final, n)" and ok: "first \<le> final" "0 < n"
    by (auto simp: check_contract_window_def ebind_eq_Inr split: if_splits)
  then obtain a b r where a: "map_of w ''first_session_date'' = Some a" "date_fromisoformat (py_str shown a) = Inr first"
    and b: "map_of w ''last_session_date'' = Some b" "date_fromisoformat (py_str shown b) = Inr final"
    and r: "map_of w ''rows_per_instrument'' = Some r" "py_int r = Inr n"
    by (auto simp: read_window_def ebind_eq_Inr)
  from date_of_py_str [OF a(2)] shown obtain s where s: "a = JStr s" by blast
  from date_of_py_str [OF b(2)] shown obtain t where t: "b = JStr t" by blast
  show thesis
    by (rule that [of w s t first final n]) (use a b r ok s t w in \<open>simp_all add: window_of_def jget_object ebind_eq_Inr\<close>)
qed

text \<open>A bound file: a regular file of the repository with the digest the contract names.\<close>

definition is_bound :: "'b Repository \<Rightarrow> json \<Rightarrow> json \<Rightarrow> bool" where
  "is_bound rp path expected \<longleftrightarrow>
     (\<exists>p b. path = JStr p \<and> relative_path_ok p \<and> rp_entry rp p = Regular b \<and> expected = JStr (rp_sha256 rp b))"

lemma bound_file_bound: "bound_file_ok rp path expected \<Longrightarrow> is_bound rp path expected"
  by (auto simp: bound_file_ok_def is_bound_def regular_def split: json.splits option.splits entry.splits)

lemma loaded_contract_valid:
  assumes "load_research_contracts rp = Inr cs" "c \<in> set cs"
  shows "validate_contract rp c = Inr ()"
proof -
  have "load_contract_file rp path = Inr c' \<Longrightarrow> validate_contract rp c' = Inr ()" for path c'
    by (auto simp: load_contract_file_def ebind_eq_Inr split: option.splits json.splits)
  with assms show ?thesis by (auto simp: load_research_contracts_def ebind_eq_Inr)
qed

lemma checked_instruments:
  assumes "check_instruments rp c = Inr ()"
  obtains kvs where "instruments_of c = Inr kvs" "length kvs = 11"
    "\<And>t v. (t, v) \<in> set kvs \<Longrightarrow> is_upper t \<and> (\<exists>item. v = JObj item
       \<and> (full_history c \<longrightarrow> (\<exists>s. jget item ''source'' = JObj s \<and> is_bound rp (jget s ''relative_path'') (jget s ''sha256''))))"
proof -
  from assms obtain kvs where kvs: "jget c ''instruments'' = JObj kvs" "length kvs = 11"
    and each: "\<forall>x \<in> set kvs. check_instrument rp c x = Inr ()"
    by (auto simp: check_instruments_def check_each_Inr split: json.splits if_splits)
  show thesis
  proof (rule that [of kvs])
    fix t v assume "(t, v) \<in> set kvs"
    with each have "check_instrument rp c (t, v) = Inr ()" by blast
    then show "is_upper t \<and> (\<exists>item. v = JObj item
       \<and> (full_history c \<longrightarrow> (\<exists>s. jget item ''source'' = JObj s \<and> is_bound rp (jget s ''relative_path'') (jget s ''sha256''))))"
      by (auto simp: check_instrument_def ebind_eq_Inr Let_def check_source_def intro!: bound_file_bound
          split: json.splits if_splits)
  qed (use kvs in \<open>auto simp: instruments_of_def jget_object ebind_eq_Inr\<close>)
qed

text \<open>C24: A research contract that loads is well typed where the readers subscript it without a check: the check
  of a requested window never fails with a missing key or a wrong type, and accepts exactly the windows inside
  the contract; the contract has eleven instruments with upper-case tickers, and every manifest it binds, and in
  a full-history contract every source file, is a regular file inside the repository with the digest it names.
\<close>

theorem loaded_contracts_typed:
  assumes "load_research_contracts rp = Inr cs" and "c \<in> set cs"
    and "\<And>v d. date_fromisoformat (rp_shown rp v) \<noteq> Inr d"
  shows "\<exists>first final ids kvs. first \<le> final
    \<and> (\<forall>a b. validate_requested_window c a b =
          (if final = max_date then Inl OverflowError
           else if first \<le> a \<and> a < b \<and> b \<le> final + 1 then Inr ()
           else contract_fail ''TOTAL_RETURN_RESEARCH_WINDOW_OUTSIDE_CONTRACT''))
    \<and> jget c ''identity'' = JObj ids
    \<and> (\<forall>(p, h) \<in> set (identity_pairs c). is_bound rp (jget ids p) (jget ids h))
    \<and> instruments_of c = Inr kvs \<and> length kvs = 11
    \<and> (\<forall>(t, v) \<in> set kvs. is_upper t \<and> (\<exists>item. v = JObj item
         \<and> (full_history c \<longrightarrow> (\<exists>s. jget item ''source'' = JObj s \<and> is_bound rp (jget s ''relative_path'') (jget s ''sha256'')))))"
proof -
  from loaded_contract_valid [OF assms(1,2)]
  have window: "check_contract_window (rp_shown rp) c = Inr ()" and instruments: "check_instruments rp c = Inr ()"
    and identity: "check_identity rp c = Inr ()"
    by (auto simp: validate_contract_def ebind_eq_Inr)
  from checked_window [OF window assms(3)] obtain w s t first final n where
    w: "window_of c = Inr w" "map_of w ''first_session_date'' = Some (JStr s)" "map_of w ''last_session_date'' = Some (JStr t)"
      "date_fromisoformat s = Inr first" "date_fromisoformat t = Inr final" and le: "first \<le> final" .
  have requested: "validate_requested_window c a b =
          (if final = max_date then Inl OverflowError
           else if first \<le> a \<and> a < b \<and> b \<le> final + 1 then Inr ()
           else contract_fail ''TOTAL_RETURN_RESEARCH_WINDOW_OUTSIDE_CONTRACT'')" for a b
    using w by (auto simp: validate_requested_window_def date_field_def required_field_def)
  from identity obtain ids where ids: "jget c ''identity'' = JObj ids"
    and each: "\<forall>x \<in> set (identity_pairs c). (case x of (p, h) \<Rightarrow>
      if bound_file_ok rp (jget ids p) (jget ids h) then Inr ()
      else contract_fail ''TOTAL_RETURN_RESEARCH_CONTRACT_LINEAGE_INVALID'') = Inr ()"
    by (auto simp: check_identity_def check_each_Inr split: json.splits)
  have bound: "\<forall>(p, h) \<in> set (identity_pairs c). is_bound rp (jget ids p) (jget ids h)"
  proof (clarify)
    fix p h assume "(p, h) \<in> set (identity_pairs c)"
    with each have "bound_file_ok rp (jget ids p) (jget ids h)" by (auto split: if_splits)
    then show "is_bound rp (jget ids p) (jget ids h)" by (rule bound_file_bound)
  qed
  from checked_instruments [OF instruments] obtain kvs where kvs: "instruments_of c = Inr kvs" "length kvs = 11"
    "\<And>t v. (t, v) \<in> set kvs \<Longrightarrow> is_upper t \<and> (\<exists>item. v = JObj item
       \<and> (full_history c \<longrightarrow> (\<exists>s. jget item ''source'' = JObj s \<and> is_bound rp (jget s ''relative_path'') (jget s ''sha256''))))" by blast
  show ?thesis
    using le requested ids bound kvs by (intro exI [of _ first] exI [of _ final] exI [of _ ids] exI [of _ kvs]) fast
qed

end
