(* ===== verification/CursorCodec.thy ===== *)
theory CursorCodec
  imports PyJson "HOL-Library.Word"
begin

text \<open>
  The signed cursors of the read API (\<open>CursorCodec\<close> of \<open>market_db/read_api.py\<close>), with the URL-safe Base64
  of the standard library: the encoder, and the decoder in its default mode, which skips characters outside
  the alphabet. The texts of JSON values and the keyed digest are parameters; bytes are 8-bit words.
\<close>

section \<open>Base64\<close>

type_synonym byte = "8 word"

definition alphabet :: string where
  "alphabet = ''ABCDEFGHIJKLMNOPQRSTUVWXYZabcdefghijklmnopqrstuvwxyz0123456789+/''"

definition b64_char :: "nat \<Rightarrow> char" where "b64_char n = alphabet ! n"

definition b64_value :: "char \<Rightarrow> nat option" where
  "b64_value c =
     (let n = ccode c
      in if 65 \<le> n \<and> n \<le> 90 then Some (n - 65) else if 97 \<le> n \<and> n \<le> 122 then Some (n - 71)
         else if 48 \<le> n \<and> n \<le> 57 then Some (n + 4) else if c = CHR ''+'' then Some 62
         else if c = CHR ''/'' then Some 63 else None)"

text \<open>The digits of three, two or one bytes, without the padding.\<close>

fun b64_digits :: "nat list \<Rightarrow> nat list" where
  "b64_digits (a # b # c # r) =
     a div 4 # (a mod 4 * 16 + b div 16) # (b mod 16 * 4 + c div 64) # c mod 64 # b64_digits r"
| "b64_digits [a, b] = [a div 4, a mod 4 * 16 + b div 16, b mod 16 * 4]"
| "b64_digits [a] = [a div 4, a mod 4 * 16]"
| "b64_digits [] = []"

definition padding :: "string \<Rightarrow> string" where
  "padding s = replicate (nat (- int (length s) mod 4)) (CHR ''='')"

definition b64encode :: "byte list \<Rightarrow> string" where
  "b64encode bs = (let s = map b64_char (b64_digits (map unat bs)) in s @ padding s)"

text \<open>\<open>binascii.a2b_base64\<close>: the place in the quad, the bits left over and the padding seen so far.\<close>

fun a2b :: "nat \<Rightarrow> nat \<Rightarrow> nat \<Rightarrow> string \<Rightarrow> nat list option" where
  "a2b quad left pads [] = (if quad = 0 then Some [] else None)"
| "a2b quad left pads (c # s) =
     (if c = CHR ''='' then
        (if 2 \<le> quad then (if 4 \<le> quad + Suc pads then Some [] else a2b quad left (Suc pads) s)
         else a2b quad left pads s)
      else case b64_value c of
        None \<Rightarrow> a2b quad left pads s
      | Some v \<Rightarrow>
          (if quad = 0 then a2b 1 v 0 s
           else if quad = 1 then map_option ((#) (left * 4 + v div 16)) (a2b 2 (v mod 16) 0 s)
           else if quad = 2 then map_option ((#) (left * 16 + v div 4)) (a2b 3 (v mod 4) 0 s)
           else map_option ((#) (left * 64 + v)) (a2b 0 0 0 s)))"

definition b64decode :: "string \<Rightarrow> byte list option" where
  "b64decode s = map_option (map word_of_nat) (a2b 0 0 0 s)"

definition to_urlsafe :: "string \<Rightarrow> string" where
  "to_urlsafe = map (\<lambda>c. if c = CHR ''+'' then CHR ''-'' else if c = CHR ''/'' then CHR ''_'' else c)"

definition from_urlsafe :: "string \<Rightarrow> string" where
  "from_urlsafe = map (\<lambda>c. if c = CHR ''-'' then CHR ''+'' else if c = CHR ''_'' then CHR ''/'' else c)"

definition urlsafe_b64encode :: "byte list \<Rightarrow> string" where
  "urlsafe_b64encode bs = to_urlsafe (b64encode bs)"

text \<open>A text argument has to be ASCII.\<close>

definition urlsafe_b64decode :: "string \<Rightarrow> byte list option" where
  "urlsafe_b64decode s = (if list_all (\<lambda>c. ccode c < 128) s then b64decode (from_urlsafe s) else None)"

section \<open>Cursors\<close>

datatype read_error =
    CursorError string int
  | SnapshotReadError string int
  | TotalReturnReadError string int
  | StrategyExternalReadError string int
  | Raised exn

text \<open>\<open>cd_loads\<close> is \<open>None\<close> for bytes that are no UTF-8 or no JSON text.\<close>

record codec =
  cd_hmac :: "byte list \<Rightarrow> byte list"
  cd_dumps :: "json \<Rightarrow> byte list"
  cd_loads :: "byte list \<Rightarrow> json option"

definition rstrip_char :: "char \<Rightarrow> string \<Rightarrow> string" where
  "rstrip_char c s = rev (dropWhile (\<lambda>x. x = c) (rev s))"

definition cursor_encode :: "codec \<Rightarrow> json \<Rightarrow> string" where
  "cursor_encode cd payload =
     (let body = cd_dumps cd payload; signature = cd_hmac cd body
      in rstrip_char (CHR ''='') (urlsafe_b64encode body) @ ''.''
         @ rstrip_char (CHR ''='') (urlsafe_b64encode signature))"

definition cursor_invalid :: "read_error + 'a" where
  "cursor_invalid = Inl (CursorError ''CURSOR_INVALID'' 400)"

definition cursor_part :: "string \<Rightarrow> byte list option" where
  "cursor_part s = urlsafe_b64decode (s @ padding s)"

definition cursor_decode :: "codec \<Rightarrow> string \<Rightarrow> read_error + (string \<times> json) list" where
  "cursor_decode cd token =
     (if token = [] \<or> 4096 < length token \<or> length (filter (\<lambda>c. c = CHR ''.'') token) \<noteq> 1 then cursor_invalid
      else let encoded_body = takeWhile (\<lambda>c. c \<noteq> CHR ''.'') token;
               encoded_signature = drop 1 (dropWhile (\<lambda>c. c \<noteq> CHR ''.'') token)
           in case cursor_part encoded_body of
                None \<Rightarrow> cursor_invalid
              | Some body \<Rightarrow>
                  (case cursor_part encoded_signature of
                     None \<Rightarrow> cursor_invalid
                   | Some signature \<Rightarrow>
                       (case cd_loads cd body of
                          None \<Rightarrow> cursor_invalid
                        | Some payload \<Rightarrow>
                            if signature \<noteq> cd_hmac cd body then cursor_invalid
                            else (case payload of
                                    JObj kvs \<Rightarrow> if equals_one (jget kvs ''version'') then Inr kvs else cursor_invalid
                                  | _ \<Rightarrow> cursor_invalid))))"

section \<open>Round trip of the bytes\<close>

lemma byte_bound: "unat (b :: byte) < 256"
proof -
  have "unat b < 2 ^ LENGTH(8)" by (rule unsigned_less)
  then show ?thesis by simp
qed

lemma alphabet_values: "map b64_value alphabet = map Some [0..<64]"
  by (simp add: alphabet_def b64_value_def ccode_def upt_rec)

lemma alphabet_chars: "list_all (\<lambda>c. c \<noteq> CHR ''='' \<and> c \<noteq> CHR ''.'' \<and> c \<noteq> CHR ''-'' \<and> c \<noteq> CHR ''_'' \<and> ccode c < 128) alphabet"
  by (simp add: alphabet_def ccode_def)

lemma alphabet_length: "length alphabet = 64"
  by (simp add: alphabet_def)

lemma b64_char:
  assumes "n < 64"
  shows "b64_value (b64_char n) = Some n" "b64_char n \<noteq> CHR ''=''" "b64_char n \<noteq> CHR ''.''"
    "b64_char n \<noteq> CHR ''-''" "b64_char n \<noteq> CHR ''_''" "ccode (b64_char n) < 128"
proof -
  show "b64_value (b64_char n) = Some n"
    using arg_cong [OF alphabet_values, of "\<lambda>xs. xs ! n"] assms by (simp add: b64_char_def alphabet_length)
  have "b64_char n \<in> set alphabet" using assms by (simp add: b64_char_def alphabet_length)
  with alphabet_chars show "b64_char n \<noteq> CHR ''=''" "b64_char n \<noteq> CHR ''.''"
    "b64_char n \<noteq> CHR ''-''" "b64_char n \<noteq> CHR ''_''" "ccode (b64_char n) < 128"
    by (auto simp: list_all_iff)
qed

lemma b64_digits_range: "\<forall>x \<in> set xs. x < 256 \<Longrightarrow> \<forall>d \<in> set (b64_digits xs). d < 64"
  by (induction xs rule: b64_digits.induct) auto

fun pad_count :: "nat list \<Rightarrow> nat" where
  "pad_count (a # b # c # r) = pad_count r"
| "pad_count [a, b] = 1"
| "pad_count [a] = 2"
| "pad_count [] = 0"

lemma padding_count: "- int (length (b64_digits xs)) mod 4 = int (pad_count xs)"
proof (induction xs rule: b64_digits.induct)
  case (1 a b c r)
  have "- int (length (b64_digits (a # b # c # r))) mod 4 = (- int (length (b64_digits r)) + (- 1) * 4) mod 4"
    by (simp add: algebra_simps)
  also have "\<dots> = int (pad_count r)" using "1" by (simp only: mod_mult_self1)
  finally show ?case by simp
qed simp_all

lemma padding_digits: "length s = length (b64_digits xs) \<Longrightarrow> padding s = replicate (pad_count xs) (CHR ''='')"
  using padding_count [of xs] by (simp add: padding_def)

lemma a2b_char: "n < 64 \<Longrightarrow> a2b quad left pads (b64_char n # s) =
   (if quad = 0 then a2b 1 n 0 s
    else if quad = 1 then map_option ((#) (left * 4 + n div 16)) (a2b 2 (n mod 16) 0 s)
    else if quad = 2 then map_option ((#) (left * 16 + n div 4)) (a2b 3 (n mod 4) 0 s)
    else map_option ((#) (left * 64 + n)) (a2b 0 0 0 s))"
  by (simp add: b64_char)

lemma a2b_equals: "a2b quad left pads (CHR ''='' # s) =
   (if 2 \<le> quad then (if 4 \<le> quad + Suc pads then Some [] else a2b quad left (Suc pads) s) else a2b quad left pads s)"
  by simp

lemma digit_parts: "y < m \<Longrightarrow> (x * m + y) div m = x \<and> (x * m + y) mod m = (y :: nat)"
  by simp

lemma a2b_digits:
  assumes "\<forall>x \<in> set xs. x < 256"
  shows "a2b 0 0 0 (map b64_char (b64_digits xs) @ replicate (pad_count xs) (CHR ''='')) = Some xs"
  using assms
proof (induction xs rule: b64_digits.induct)
  case (1 a b c r)
  then have "a div 4 < 64" "b div 16 < 16" "c div 64 < 4" "c mod 64 < 64" by auto
  moreover have "a mod 4 * 16 + b div 16 < 64" "b mod 16 * 4 + c div 64 < 64" using calculation by auto
  ultimately show ?case
    using "1" digit_parts [of "b div 16" 16 "a mod 4"] digit_parts [of "c div 64" 4 "b mod 16"]
    by (simp add: a2b_char del: a2b.simps)
next
  case (2 a b)
  then have "a div 4 < 64" "b div 16 < 16" by auto
  moreover have "a mod 4 * 16 + b div 16 < 64" "b mod 16 * 4 < 64" using calculation by auto
  ultimately show ?case
    using digit_parts [of "b div 16" 16 "a mod 4"] by (simp add: a2b_char a2b_equals del: a2b.simps)
next
  case (3 a)
  then have "a div 4 < 64" "a mod 4 * 16 < 64" by auto
  then show ?case by (simp add: a2b_char a2b_equals numeral_2_eq_2 del: a2b.simps)
qed simp

lemma urlsafe_digit:
  assumes "\<forall>d \<in> set ds. d < 64" "c \<in> set (to_urlsafe (map b64_char ds))"
  shows "c \<noteq> CHR ''=''" "c \<noteq> CHR ''.''" "ccode c < 128"
proof -
  from assms obtain d where "d < 64" and c: "c = (if b64_char d = CHR ''+'' then CHR ''-'' else if b64_char d = CHR ''/'' then CHR ''_'' else b64_char d)"
    by (auto simp: to_urlsafe_def)
  with b64_char [of d] show "c \<noteq> CHR ''=''" "c \<noteq> CHR ''.''" "ccode c < 128" by (auto simp: ccode_def)
qed

lemma urlsafe_inverse:
  assumes "\<forall>d \<in> set ds. d < 64"
  shows "from_urlsafe (to_urlsafe (map b64_char ds)) = map b64_char ds"
proof -
  have "d \<in> set ds \<Longrightarrow> b64_char d \<noteq> CHR ''-'' \<and> b64_char d \<noteq> CHR ''_''" for d using assms b64_char by metis
  then show ?thesis by (auto simp: from_urlsafe_def to_urlsafe_def)
qed

text \<open>Both parts of a cursor: the padding is stripped and put back.\<close>

lemma urlsafe_part:
  "rstrip_char (CHR ''='') (urlsafe_b64encode bs) = to_urlsafe (map b64_char (b64_digits (map unat bs)))"
proof -
  let ?ds = "b64_digits (map unat bs)"
  have ds: "\<forall>d \<in> set ?ds. d < 64"
    by (intro b64_digits_range) (auto simp: byte_bound)
  have "to_urlsafe (replicate n (CHR ''='')) = replicate n (CHR ''='')" for n by (simp add: to_urlsafe_def)
  then have split: "urlsafe_b64encode bs = to_urlsafe (map b64_char ?ds) @ replicate (pad_count (map unat bs)) (CHR ''='')"
    by (simp add: urlsafe_b64encode_def b64encode_def padding_digits to_urlsafe_def Let_def)
  have "\<forall>c \<in> set (to_urlsafe (map b64_char ?ds)). c \<noteq> CHR ''=''"
    using urlsafe_digit(1) [OF ds] by blast
  then have keep: "dropWhile (\<lambda>x. x = CHR ''='') (rev (to_urlsafe (map b64_char ?ds))) = rev (to_urlsafe (map b64_char ?ds))"
    by (intro dropWhile_eq_self_iff [THEN iffD2]) (metis hd_in_set set_rev)
  have "dropWhile (\<lambda>x. x = CHR ''='') (replicate n (CHR ''='') @ ys) = dropWhile (\<lambda>x. x = CHR ''='') ys" for n ys
    by (induction n) auto
  with keep show ?thesis by (simp add: rstrip_char_def split)
qed

lemma part_round_trip: "cursor_part (rstrip_char (CHR ''='') (urlsafe_b64encode bs)) = Some bs"
proof -
  let ?ds = "b64_digits (map unat bs)"
  have ds: "\<forall>d \<in> set ?ds. d < 64"
    by (intro b64_digits_range) (auto simp: byte_bound)
  have rt: "from_urlsafe (to_urlsafe (map b64_char ?ds)) = map b64_char ?ds"
    using ds by (rule urlsafe_inverse)
  have ascii: "list_all (\<lambda>c. ccode c < 128) (to_urlsafe (map b64_char ?ds))"
    using urlsafe_digit(3) [OF ds] by (auto simp: list_all_iff)
  have pad: "padding (to_urlsafe (map b64_char ?ds)) = replicate (pad_count (map unat bs)) (CHR ''='')"
    by (intro padding_digits) (simp add: to_urlsafe_def)
  have "a2b 0 0 0 (map b64_char ?ds @ replicate (pad_count (map unat bs)) (CHR ''='')) = Some (map unat bs)"
    by (intro a2b_digits) (auto simp: byte_bound)
  moreover have "from_urlsafe (to_urlsafe (map b64_char ?ds) @ replicate n (CHR ''=''))
      = map b64_char ?ds @ replicate n (CHR ''='')" for n
    using rt by (simp add: from_urlsafe_def)
  ultimately show ?thesis
    using ascii by (auto simp: cursor_part_def urlsafe_part pad urlsafe_b64decode_def b64decode_def list_all_iff ccode_def comp_def)
qed

lemma part_no_dot: "CHR ''.'' \<notin> set (rstrip_char (CHR ''='') (urlsafe_b64encode bs))"
proof -
  have "\<forall>d \<in> set (b64_digits (map unat bs)). d < 64"
    by (intro b64_digits_range) (auto simp: byte_bound)
  from urlsafe_digit(2) [OF this] show ?thesis by (auto simp: urlsafe_part)
qed

text \<open>A cursor survives the stripping of blanks.\<close>

lemma cursor_part_visible:
  assumes "c \<in> set (rstrip_char (CHR ''='') (urlsafe_b64encode bs))"
  shows "\<not> is_space c"
proof -
  have "list_all (\<lambda>c. \<not> is_space c) alphabet" by (simp add: alphabet_def is_space_def ccode_def)
  moreover have "set (map b64_char (b64_digits (map unat bs))) \<subseteq> set alphabet"
    using b64_digits_range [of "map unat bs"] by (auto simp: byte_bound b64_char_def alphabet_length)
  ultimately show ?thesis
    using assms by (auto simp: urlsafe_part to_urlsafe_def list_all_iff is_space_def ccode_def split: if_splits)
qed

lemma strip_visible: "(\<And>c. c \<in> set s \<Longrightarrow> \<not> is_space c) \<Longrightarrow> strip s = s"
proof -
  have keep: "(\<And>c. c \<in> set t \<Longrightarrow> \<not> is_space c) \<Longrightarrow> dropWhile is_space t = t" for t
    by (cases t) auto
  assume "\<And>c. c \<in> set s \<Longrightarrow> \<not> is_space c"
  then show ?thesis using keep [of s] keep [of "rev s"] by (simp add: strip_def)
qed

lemma strip_cursor: "strip (cursor_encode cd v) = cursor_encode cd v" "cursor_encode cd v \<noteq> []"
proof -
  show "strip (cursor_encode cd v) = cursor_encode cd v"
    by (intro strip_visible) (auto simp: cursor_encode_def Let_def is_space_def ccode_def dest: cursor_part_visible)
  show "cursor_encode cd v \<noteq> []" by (simp add: cursor_encode_def Let_def)
qed

section \<open>Round trip and authenticity of cursors\<close>

lemma decode_encoded:
  assumes "cd_loads cd (cd_dumps cd payload) = Some payload"
  shows "cursor_decode cd (cursor_encode cd payload) =
    (case payload of
       JObj kvs \<Rightarrow> if equals_one (jget kvs ''version'') \<and> length (cursor_encode cd payload) \<le> 4096 then Inr kvs else cursor_invalid
     | _ \<Rightarrow> cursor_invalid)"
proof -
  let ?a = "rstrip_char (CHR ''='') (urlsafe_b64encode (cd_dumps cd payload))"
  let ?b = "rstrip_char (CHR ''='') (urlsafe_b64encode (cd_hmac cd (cd_dumps cd payload)))"
  have token: "cursor_encode cd payload = ?a @ CHR ''.'' # ?b" by (simp add: cursor_encode_def Let_def)
  have dot: "\<forall>x \<in> set ?a. x \<noteq> CHR ''.''" "\<forall>x \<in> set ?b. x \<noteq> CHR ''.''" using part_no_dot by metis+
  then have one: "length (filter (\<lambda>c. c = CHR ''.'') (?a @ CHR ''.'' # ?b)) = 1" by simp
  have parts: "takeWhile (\<lambda>c. c \<noteq> CHR ''.'') (?a @ CHR ''.'' # ?b) = ?a"
    "dropWhile (\<lambda>c. c \<noteq> CHR ''.'') (?a @ CHR ''.'' # ?b) = CHR ''.'' # ?b"
    using dot(1) by (simp_all add: takeWhile_append2 dropWhile_append2)
  show ?thesis
    unfolding cursor_decode_def token one parts Let_def drop_Suc_Cons drop_0 One_nat_def part_round_trip
    using assms by (auto simp: part_round_trip split: json.splits)
qed

text \<open>C25: A cursor reads back as the payload it was made of, whenever the text of the payload does, it is an object
  of version 1 and the cursor has at most 4096 characters; otherwise it is refused as invalid.
\<close>

theorem cursor_roundtrip:
  assumes "cd_loads cd (cd_dumps cd payload) = Some payload"
  shows "cursor_decode cd (cursor_encode cd payload) =
    (case payload of
       JObj kvs \<Rightarrow> if equals_one (jget kvs ''version'') \<and> length (cursor_encode cd payload) \<le> 4096 then Inr kvs else cursor_invalid
     | _ \<Rightarrow> cursor_invalid)"
  using assms by (rule decode_encoded)

text \<open>C26: A cursor is accepted only when it carries the keyed digest of its own body, so nobody without the secret
  makes one; what is accepted is an object of version 1.
\<close>

theorem accepted_cursor_is_signed:
  assumes "cursor_decode cd token = Inr kvs"
  shows "\<exists>a b body. token = a @ ''.'' @ b \<and> cursor_part a = Some body \<and> cursor_part b = Some (cd_hmac cd body)
    \<and> cd_loads cd body = Some (JObj kvs) \<and> equals_one (jget kvs ''version'') \<and> length token \<le> 4096"
proof -
  let ?a = "takeWhile (\<lambda>c. c \<noteq> CHR ''.'') token" and ?r = "dropWhile (\<lambda>c. c \<noteq> CHR ''.'') token"
  have one: "length (filter (\<lambda>c. c = CHR ''.'') token) = 1" and len: "length token \<le> 4096"
    using assms by (auto simp: cursor_decode_def cursor_invalid_def split: if_splits)
  have "?r \<noteq> []" 
  proof
    assume "?r = []"
    then have "filter (\<lambda>c. c = CHR ''.'') token = []" by (auto simp: filter_empty_conv dropWhile_eq_Nil_conv)
    with one show False by simp
  qed
  then have r: "?r = ''.'' @ drop 1 ?r" using hd_dropWhile [of "\<lambda>c. c \<noteq> CHR ''.''" token] by (cases ?r) auto
  have token: "token = ?a @ ''.'' @ drop 1 ?r" using r by (metis takeWhile_dropWhile_id)
  show ?thesis
    by (rule exI [of _ ?a], rule exI [of _ "drop 1 ?r"])
      (use assms token len in \<open>auto simp: cursor_decode_def cursor_invalid_def Let_def split: if_splits option.splits json.splits\<close>)
qed

end
