(* ===== verification/ReadRequests.thy ===== *)
theory ReadRequests
  imports CursorCodec
begin

text \<open>
  What the routes of \<open>market_db/read_api.py\<close> share: the reading of query arguments and the answers their
  error handlers give. An argument that is absent is \<open>None\<close>.
\<close>

section \<open>Arguments\<close>

definition arg_text :: "string option \<Rightarrow> string \<Rightarrow> string" where
  "arg_text a fallback = (case a of None \<Rightarrow> fallback | Some s \<Rightarrow> s)"

definition arg_lower :: "string option \<Rightarrow> string \<Rightarrow> string" where
  "arg_lower a fallback = lower (strip (arg_text a fallback))"

text \<open>\<open>request.args.get(...).strip() or None\<close>.\<close>

definition arg_optional :: "string option \<Rightarrow> string option" where
  "arg_optional a = (let s = strip (arg_text a []) in if s = [] then None else Some s)"

text \<open>An aware instant; \<open>astimezone\<close> overflows when the instant lies outside the years 1 to 9999.\<close>

definition parse_utc :: "string \<Rightarrow> exn + utc" where
  "parse_utc s =
     (case fromisoformat (replace_z s) of
        None \<Rightarrow> Inl (ValueError ''must be an ISO-8601 UTC timestamp'')
      | Some (Naive t) \<Rightarrow> Inl (ValueError ''must include a UTC offset'')
      | Some (Aware t) \<Rightarrow> if year_ok (date_of_utc t) then Inr t else Inl OverflowError)"

definition parse_limit :: "string option \<Rightarrow> nat \<Rightarrow> exn + nat" where
  "parse_limit value maximum =
     ebind (case value of None \<Rightarrow> Inr (int (min 200 maximum)) | Some s \<Rightarrow> if s = [] then Inr (int (min 200 maximum)) else int_of_text s)
       (\<lambda>n. if 1 \<le> n \<and> n \<le> int maximum then Inr (nat n) else Inl (ValueError ''limit''))"

definition parse_iso_date :: "string \<Rightarrow> exn + date" where
  "parse_iso_date s =
     ebind (date_fromisoformat s) (\<lambda>d. if date_iso d = s then Inr d else Inl (ValueError ''must be an ISO date''))"

definition max_bar_rows :: nat where "max_bar_rows = 10000"
definition max_total_return_rows :: nat where "max_total_return_rows = 10000"
definition max_strategy_calendar_rows :: nat where "max_strategy_calendar_rows = 5000"

definition key_ok :: "string \<Rightarrow> bool" where
  "key_ok key = (key \<noteq> [] \<and> length key \<le> 64)"

lemma parse_limit_bounds: "parse_limit v m = Inr n \<Longrightarrow> 0 < n \<and> n \<le> m"
  by (auto simp: parse_limit_def ebind_eq_Inr split: if_splits)

text \<open>The printed form of an instant reads back, so a client may send an instant as the answers print it.\<close>

lemma parse_printed_instant: "year_ok (date_of_utc t) \<Longrightarrow> parse_utc (iso_utc t) = Inr t"
  by (simp add: parse_utc_def iso_utc_roundtrip)

text \<open>The cursor of a request, decoded.\<close>

definition cursor_argument :: "codec \<Rightarrow> string option \<Rightarrow> read_error + (string \<times> json) list option" where
  "cursor_argument cd a =
     (case arg_optional a of None \<Rightarrow> Inr None | Some t \<Rightarrow> ebind (cursor_decode cd t) (\<lambda>kvs. Inr (Some kvs)))"

text \<open>The codec writes and reads a cursor payload within the length limit.\<close>

definition cursor_readable :: "codec \<Rightarrow> json \<Rightarrow> bool" where
  "cursor_readable cd v = (cd_loads cd (cd_dumps cd v) = Some v \<and> length (cursor_encode cd v) \<le> 4096)"

lemma readable_argument:
  assumes "cursor_readable cd (JObj kvs)" "jget kvs ''version'' = JInt 1"
  shows "cursor_argument cd (Some (cursor_encode cd (JObj kvs))) = Inr (Some kvs)"
  using assms decode_encoded [of cd "JObj kvs"]
  by (simp add: cursor_argument_def arg_optional_def arg_text_def strip_cursor Let_def cursor_readable_def)

section \<open>Answers\<close>

datatype 'a response = Answered 'a | Failed int string

definition raised :: "exn + 'a \<Rightarrow> read_error + 'a" where
  "raised r = map_sum Raised id r"

lemma raised_Inr [simp]: "raised r = Inr v \<longleftrightarrow> r = Inr v"
  by (cases r) (auto simp: raised_def)

lemma raised_simps [simp]: "raised (Inr v) = Inr v" "raised (Inl e) = Inl (Raised e)"
  by (simp_all add: raised_def)

text \<open>
  The handlers of a route and the application's handler for what they leave. A contract error is a
  \<open>ValueError\<close>.
\<close>

definition respond :: "read_error + 'a \<Rightarrow> 'a response" where
  "respond r =
     (case r of
        Inr v \<Rightarrow> Answered v
      | Inl (CursorError code status) \<Rightarrow> Failed status code
      | Inl (SnapshotReadError code status) \<Rightarrow> Failed status code
      | Inl (TotalReturnReadError code status) \<Rightarrow> Failed status code
      | Inl (StrategyExternalReadError code status) \<Rightarrow> Failed status code
      | Inl (Raised (ValueError m)) \<Rightarrow> Failed 400 ''INVALID_REQUEST''
      | Inl (Raised (TotalReturnContractError m)) \<Rightarrow> Failed 400 ''INVALID_REQUEST''
      | Inl (Raised e) \<Rightarrow> Failed 503 ''DATABASE_UNAVAILABLE'')"

lemma respond_Answered [simp]: "respond r = Answered v \<longleftrightarrow> r = Inr v"
  by (cases r) (auto simp: respond_def split: read_error.splits exn.splits)

end
