(* ===== verification/KeysetPages.thy ===== *)
theory KeysetPages
  imports SaxoPrelude
begin

text \<open>
  Keyset paging, the scheme of the read API: a query in the order of a key answers at most a limit of rows,
  and a cursor that names the last key answered asks for the rows behind it. A reader follows the cursors
  until there is none.
\<close>

text \<open>One answer out of the rows still to come, and the cursor to the next one.\<close>

definition page_of :: "('r \<Rightarrow> 's) \<Rightarrow> ('r \<Rightarrow> 't) \<Rightarrow> nat \<Rightarrow> 'r list \<Rightarrow> 's list \<times> 't option" where
  "page_of f token limit rs =
     (map f (take limit rs), if limit < length rs then Some (token (last (take limit rs))) else None)"

text \<open>The query needs only one row more than it answers.\<close>

lemma page_of_take: "page_of f token limit (take (Suc limit) rs) = page_of f token limit rs"
  by (simp add: page_of_def min_def)

text \<open>Following the cursors, at most \<open>n\<close> of them: \<open>None\<close> when there are more.\<close>

primrec follow :: "nat \<Rightarrow> ('t option \<Rightarrow> 'e + 's list \<times> 't option) \<Rightarrow> 't option \<Rightarrow> ('e + 's list) option" where
  "follow 0 req cur = (case req cur of Inl e \<Rightarrow> Some (Inl e) | Inr (rs, None) \<Rightarrow> Some (Inr rs) | Inr (rs, Some t) \<Rightarrow> None)"
| "follow (Suc n) req cur =
     (case req cur of Inl e \<Rightarrow> Some (Inl e) | Inr (rs, None) \<Rightarrow> Some (Inr rs)
      | Inr (rs, Some t) \<Rightarrow> map_option (map_sum id ((@) rs)) (follow n req (Some t)))"

lemma follow_step:
  "req cur = Inr (rs, None) \<Longrightarrow> follow n req cur = Some (Inr rs)"
  by (cases n) simp_all

locale keyset_query =
  fixes query :: "'q \<Rightarrow> 'k::linorder option \<Rightarrow> 'r list" and key :: "'r \<Rightarrow> 'k"
  assumes behind: "query q (Some k) = filter (\<lambda>r. k < key r) (query q None)"
begin

lemma rows_behind:
  assumes "sorted_wrt (<) (map key (query q None))" "query q None = ys @ zs" "ys \<noteq> []"
  shows "query q (Some (key (last ys))) = zs"
proof -
  have strict: "sorted_wrt (<) (map key (ys @ zs))"
    using assms(1) unfolding assms(2) .
  obtain us x where ys: "ys = us @ [x]" using assms(3) by (metis append_butlast_last_id)
  have "filter (\<lambda>r. key (last ys) < key r) ys = []"
    using strict by (fastforce simp: ys filter_empty_conv sorted_wrt_append)
  moreover have "filter (\<lambda>r. key (last ys) < key r) zs = zs"
    using strict by (auto simp: ys filter_id_conv sorted_wrt_append)
  ultimately show ?thesis by (simp add: behind assms(2))
qed

text \<open>A reader that follows every cursor gets each row of the query exactly once, in order.\<close>

theorem follow_gets_all:
  assumes keys: "sorted_wrt (<) (map key (query q None))" and limit: "0 < limit"
    and start: "req None = Inr (page_of f token limit (query q None))"
    and step: "\<And>r. r \<in> set (query q None) \<Longrightarrow> req (Some (token r)) = Inr (page_of f token limit (query q (Some (key r))))"
    and n: "length (query q None) \<le> n"
  shows "follow n req None = Some (Inr (map f (query q None)))"
proof -
  have walk: "follow m req cur = Some (Inr (map f zs))"
    if "req cur = Inr (page_of f token limit zs)" "query q None = ys @ zs" "length zs \<le> m" for m cur ys zs
    using that
  proof (induction m arbitrary: cur ys zs)
    case 0
    then show ?case by (simp add: page_of_def)
  next
    case (Suc m)
    let ?a = "take limit zs" and ?b = "drop limit zs"
    show ?case
    proof (cases "limit < length zs")
      case False
      then show ?thesis using Suc.prems(1) by (simp add: page_of_def)
    next
      case True
      have "?a \<noteq> []" using True limit by auto
      then have ne: "ys @ ?a \<noteq> []" and lst: "last (ys @ ?a) = last ?a" by simp_all
      have all: "query q None = (ys @ ?a) @ ?b" using Suc.prems(2) by simp
      have "last ?a \<in> set (query q None)" using all ne lst by (metis Un_iff last_in_set set_append)
      with step rows_behind [OF keys all ne] lst
      have next_page: "req (Some (token (last ?a))) = Inr (page_of f token limit ?b)" by simp
      have "length ?b \<le> m" using Suc.prems(3) limit True by simp
      with Suc.IH [OF next_page all] have "follow m req (Some (token (last ?a))) = Some (Inr (map f ?b))" .
      then show ?thesis using Suc.prems(1) True
        by (simp add: page_of_def flip: map_append)
    qed
  qed
  show ?thesis by (rule walk [of None "query q None" "[]" n]) (use start n in simp_all)
qed

end

end
