(* ===== verification/ReadSnapshot.thy ===== *)
theory ReadSnapshot
  imports TotalReturn ReadRequests KeysetPages "HOL-Library.Product_Lexorder" "HOL-Library.List_Lexorder"
    "HOL-Library.Char_ord"
begin

text \<open>
  The frozen research snapshots of \<open>market_db/read_api.py\<close>: the queries of one snapshot request, the comparison
  of the snapshot with its manifest, and the paged answers of \<open>/api/v1/snapshots/<id>/bars\<close>. The manifest is a
  file of the repository of \<open>TotalReturn\<close>; one request reads one snapshot of the database, an argument.
\<close>

section \<open>Tables\<close>

record SnapshotInstrument =
  xi_id :: int
  xi_key :: string
  xi_symbol :: string
  xi_category :: string
  xi_active :: bool

record SnapshotBar =
  xb_instrument :: int
  xb_horizon :: int
  xb_time :: utc
  xb_basis :: string
  xb_open :: rat
  xb_high :: rat
  xb_low :: rat
  xb_close :: rat
  xb_volume :: "rat option"
  xb_complete :: bool
  xb_quality :: string

record SnapshotRow =
  xs_id :: int
  xs_plan :: string
  xs_line :: string
  xs_cutoff :: utc
  xs_source_database :: string
  xs_source_manifest_sha256 :: string
  xs_row_counts :: json
  xs_sha256 :: string
  xs_status :: string
  xs_manifest_path :: "string option"

record snapshot_db =
  xd_instruments :: "SnapshotInstrument list"
  xd_bars :: "SnapshotBar list"
  xd_snapshots :: "SnapshotRow list"

record SnapshotContext =
  xc_database :: string
  xc_role :: string
  xc_read_only :: string
  xc_read_at :: utc
  xc_marker :: string

record 'b SnapshotPlatform =
  xp_repo :: "'b Repository"
  xp_context :: SnapshotContext
  xp_market_db :: string
  xp_db :: snapshot_db
  xp_text :: "rat \<Rightarrow> string"

definition research_db_name :: string where "research_db_name = ''saxo_research_v13''"

section \<open>Queries\<close>

record SnapshotRequest =
  xq_snapshot :: int
  xq_key :: string
  xq_layer :: string
  xq_basis :: string
  xq_start :: utc
  xq_end :: utc
  xq_limit :: nat

definition snapshot_metadata :: "snapshot_db \<Rightarrow> int \<Rightarrow> SnapshotRow list" where
  "snapshot_metadata db i = filter (\<lambda>s. xs_id s = i) (xd_snapshots db)"

definition snapshot_series :: "snapshot_db \<Rightarrow> string \<Rightarrow> string \<Rightarrow> SnapshotInstrument list" where
  "snapshot_series db key basis =
     filter (\<lambda>i. xi_key i = key \<and> xi_active i
       \<and> list_ex (\<lambda>b. xb_instrument b = xi_id i \<and> xb_horizon b = 60 \<and> xb_basis b = basis) (xd_bars db))
       (xd_instruments db)"

record SnapshotIntegrity =
  xg_rows :: int
  xg_last :: "utc option"
  xg_after_cutoff :: int

text \<open>A scalar subquery of several rows is an error of the database; the identity is the primary key.\<close>

definition snapshot_cutoff :: "snapshot_db \<Rightarrow> int \<Rightarrow> utc option" where
  "snapshot_cutoff db i = map_option xs_cutoff (find (\<lambda>s. xs_id s = i) (xd_snapshots db))"

definition snapshot_integrity :: "snapshot_db \<Rightarrow> int \<Rightarrow> SnapshotIntegrity" where
  "snapshot_integrity db i =
     \<lparr> xg_rows = int (length (xd_bars db)),
       xg_last = (if xd_bars db = [] then None else Some (Max (set (map xb_time (xd_bars db))))),
       xg_after_cutoff = (case snapshot_cutoff db i of None \<Rightarrow> 0
                          | Some c \<Rightarrow> int (length (filter (\<lambda>b. c < xb_time b) (xd_bars db)))) \<rparr>"

type_synonym position = "utc \<times> int \<times> string"

definition bar_position :: "SnapshotInstrument \<times> SnapshotBar \<Rightarrow> position" where
  "bar_position r = (xb_time (snd r), xb_instrument (snd r), xb_basis (snd r))"

definition bar_selected ::
  "snapshot_db \<Rightarrow> SnapshotRequest \<Rightarrow> position option \<Rightarrow> SnapshotInstrument \<times> SnapshotBar \<Rightarrow> bool" where
  "bar_selected db q after r =
     (case r of (i, b) \<Rightarrow> xi_id i = xb_instrument b \<and> xi_key i = xq_key q \<and> xb_horizon b = 60 \<and> xb_basis b = xq_basis q
        \<and> xq_start q \<le> xb_time b \<and> xb_time b < xq_end q
        \<and> (case snapshot_cutoff db (xq_snapshot q) of None \<Rightarrow> False | Some c \<Rightarrow> xb_time b \<le> c)
        \<and> (case after of None \<Rightarrow> True | Some p \<Rightarrow> p < bar_position r)
        \<and> xb_complete b \<and> xb_quality b = ''PASS'')"

text \<open>The bars of a request in the order of their positions, before the \<open>LIMIT\<close>.\<close>

definition snapshot_bars ::
  "snapshot_db \<times> SnapshotRequest \<Rightarrow> position option \<Rightarrow> (SnapshotInstrument \<times> SnapshotBar) list" where
  "snapshot_bars dq after =
     sort_key bar_position (filter (bar_selected (fst dq) (snd dq) after)
       [(i, b). i \<leftarrow> xd_instruments (fst dq), b \<leftarrow> xd_bars (fst dq)])"

section \<open>Manifest and integrity\<close>

definition snapshot_error :: "string \<Rightarrow> int \<Rightarrow> read_error + 'a" where
  "snapshot_error code status = Inl (SnapshotReadError code status)"

definition manifest_allowlist :: "string list" where
  "manifest_allowlist = [''manifests/db2_research_snapshot_content.json'']"

definition load_snapshot_manifest :: "'b Repository \<Rightarrow> string \<Rightarrow> read_error + json \<times> string" where
  "load_snapshot_manifest rp path =
     (if path \<notin> set manifest_allowlist then snapshot_error ''SNAPSHOT_NOT_VERIFIED'' 503
      else case regular rp path of
             None \<Rightarrow> snapshot_error ''SNAPSHOT_NOT_VERIFIED'' 503
           | Some b \<Rightarrow> (case rp_json rp b of
                          None \<Rightarrow> snapshot_error ''SNAPSHOT_NOT_VERIFIED'' 503
                        | Some v \<Rightarrow> Inr (v, rp_sha256 rp b)))"

text \<open>\<open>_same_utc(value of the manifest, instant)\<close>.\<close>

definition same_utc :: "(json \<Rightarrow> string) \<Rightarrow> json \<Rightarrow> utc option \<Rightarrow> exn + bool" where
  "same_utc shown v t =
     (case (v, t) of
        (JNull, None) \<Rightarrow> Inr True
      | (JNull, Some _) \<Rightarrow> Inr False
      | (_, None) \<Rightarrow> Inr False
      | (_, Some t) \<Rightarrow> ebind (parse_utc (py_str shown v)) (\<lambda>u. Inr (u = t)))"

definition manifest_object :: "json \<Rightarrow> (string \<times> json) list" where
  "manifest_object v = (case v of JObj kvs \<Rightarrow> kvs | _ \<Rightarrow> [])"

text \<open>The comparisons before the first instant of the manifest is read, and those after the last.\<close>

definition snapshot_bound ::
  "'b SnapshotPlatform \<Rightarrow> SnapshotRow \<Rightarrow> (string \<times> json) list \<Rightarrow> string \<Rightarrow> bool" where
  "snapshot_bound xp s m manifest_sha =
     (xc_database (xp_context xp) = research_db_name \<and> xc_role (xp_context xp) = ''v13_research_reader''
      \<and> xc_read_only (xp_context xp) = ''on'' \<and> xs_status s = ''FROZEN'' \<and> xs_source_database s = xp_market_db xp
      \<and> strip (xs_sha256 s) = manifest_sha \<and> length (strip (xs_sha256 s)) = 64
      \<and> jget m ''phase'' = JStr ''DB2'' \<and> jget m ''snapshot_database'' = JStr research_db_name
      \<and> jget m ''source_database'' = JStr (xs_source_database s) \<and> jget m ''plan_id'' = JStr (xs_plan s)
      \<and> jget m ''research_line_id'' = JStr (xs_line s)
      \<and> jget m ''source_inventory_sha256'' = JStr (strip (xs_source_manifest_sha256 s))
      \<and> jget m ''FDW_or_dblink_used'' = JBool False)"

definition counts_match :: "SnapshotRow \<Rightarrow> (string \<times> json) list \<Rightarrow> SnapshotIntegrity \<Rightarrow> bool" where
  "counts_match s m g =
     (let expected = jget m ''table_counts_before_snapshot_registry_row''
      in py_eq (xs_row_counts s) expected
         \<and> (case expected of
              JObj counts \<Rightarrow> int_instance (jget counts ''curated.market_bar'') = Some (xg_rows g)
            | _ \<Rightarrow> False))"

definition integrity_pass ::
  "'b SnapshotPlatform \<Rightarrow> SnapshotRow \<Rightarrow> (string \<times> json) list \<Rightarrow> string \<Rightarrow> SnapshotIntegrity \<Rightarrow> exn + bool" where
  "integrity_pass xp s m manifest_sha g =
     (if \<not> snapshot_bound xp s m manifest_sha then Inr False
      else ebind (same_utc (rp_shown (xp_repo xp)) (jget m ''cutoff_utc'') (Some (xs_cutoff s))) (\<lambda>same_cutoff.
        if \<not> same_cutoff \<or> \<not> counts_match s m g then Inr False
        else ebind (same_utc (rp_shown (xp_repo xp))
                      (jget (manifest_object (jget m ''boundaries'')) ''curated_max_time_utc'') (xg_last g)) (\<lambda>same_last.
          Inr (same_last \<and> (case xg_last g of None \<Rightarrow> False | Some t \<Rightarrow> t \<le> xs_cutoff s) \<and> xg_after_cutoff g = 0))))"

section \<open>Answers\<close>

definition snapshot_query_json :: "SnapshotRequest \<Rightarrow> json" where
  "snapshot_query_json q = JObj
     [(''end'', JStr (iso_utc (xq_end q))), (''instrument_key'', JStr (xq_key q)), (''layer'', JStr (xq_layer q)),
      (''limit'', JInt (int (xq_limit q))), (''price_basis'', JStr (xq_basis q)),
      (''snapshot_id'', JInt (xq_snapshot q)), (''start'', JStr (iso_utc (xq_start q)))]"

definition snapshot_cursor :: "SnapshotRequest \<Rightarrow> string \<Rightarrow> position \<Rightarrow> json" where
  "snapshot_cursor q sha p = JObj
     [(''kind'', JStr ''snapshot-bars''),
      (''last'', JObj [(''instrument_id'', JInt (fst (snd p))), (''price_basis'', JStr (snd (snd p))),
                       (''time_utc'', JStr (iso_utc (fst p)))]),
      (''query'', snapshot_query_json q), (''snapshot_sha256'', JStr sha), (''version'', JInt 1)]"

definition read_position :: "(json \<Rightarrow> string) \<Rightarrow> (string \<times> json) list \<Rightarrow> exn + position" where
  "read_position shown kvs =
     ebind (required_field kvs ''time_utc'') (\<lambda>t.
     ebind (parse_utc (py_str shown t)) (\<lambda>time.
     ebind (required_field kvs ''instrument_id'') (\<lambda>i.
     ebind (py_int i) (\<lambda>instrument.
     ebind (required_field kvs ''price_basis'') (\<lambda>b. Inr (time, instrument, py_str shown b))))))"

definition snapshot_position ::
  "(json \<Rightarrow> string) \<Rightarrow> SnapshotRequest \<Rightarrow> (string \<times> json) list option \<Rightarrow> read_error + position option" where
  "snapshot_position shown q cur =
     (case cur of
        None \<Rightarrow> Inr None
      | Some kvs \<Rightarrow>
          if jget kvs ''kind'' \<noteq> JStr ''snapshot-bars'' \<or> \<not> py_eq (jget kvs ''query'') (snapshot_query_json q)
          then Inl (CursorError ''CURSOR_QUERY_MISMATCH'' 409)
          else case jget kvs ''last'' of
                 JObj l \<Rightarrow> (case read_position shown l of
                             Inl KeyError \<Rightarrow> cursor_invalid
                           | Inl TypeError \<Rightarrow> cursor_invalid
                           | Inl (ValueError m) \<Rightarrow> cursor_invalid
                           | Inl e \<Rightarrow> Inl (Raised e)
                           | Inr p \<Rightarrow> Inr (Some p))
               | _ \<Rightarrow> cursor_invalid)"

definition snapshot_request_ok :: "SnapshotRequest \<Rightarrow> read_error + unit" where
  "snapshot_request_ok q =
     (if xq_snapshot q < 1 then Inl (Raised (ValueError ''snapshot_id must be positive''))
      else if \<not> key_ok (xq_key q) then Inl (Raised (ValueError ''instrument_key is required''))
      else if xq_layer q \<in> {''4h'', ''1d''} then snapshot_error ''SNAPSHOT_LAYER_NOT_AVAILABLE'' 409
      else if xq_layer q \<noteq> ''1h'' then Inl (Raised (ValueError ''layer must be 1h''))
      else if \<not> key_ok (xq_basis q) then Inl (Raised (ValueError ''price_basis is required''))
      else if xq_end q \<le> xq_start q then Inl (Raised (ValueError ''start must be earlier than end''))
      else Inr ())"

definition bar_json :: "(rat \<Rightarrow> string) \<Rightarrow> SnapshotInstrument \<times> SnapshotBar \<Rightarrow> json" where
  "bar_json text_of_number = (\<lambda>(i, b). JObj
     [(''instrument_key'', JStr (xi_key i)), (''instrument_id'', JInt (xi_id i)), (''symbol'', JStr (xi_symbol i)),
      (''category'', JStr (xi_category i)), (''layer'', JStr ''1h''), (''time_utc'', JStr (iso_utc (xb_time b))),
      (''price_basis'', JStr (xb_basis b)), (''open'', JStr (text_of_number (xb_open b))),
      (''high'', JStr (text_of_number (xb_high b))), (''low'', JStr (text_of_number (xb_low b))),
      (''close'', JStr (text_of_number (xb_close b))),
      (''volume'', (case xb_volume b of None \<Rightarrow> JNull | Some v \<Rightarrow> JStr (text_of_number v))),
      (''is_complete'', JBool (xb_complete b)), (''quality_status'', JStr (xb_quality b))])"

record SnapshotPage =
  xg_snapshot :: SnapshotRow
  xg_series :: SnapshotInstrument
  xg_integrity :: SnapshotIntegrity
  xg_manifest_sha256 :: string
  xg_truncated :: bool
  xg_answered :: "json list"
  xg_rows_sha256 :: string
  xg_next :: "json option"

definition snapshot_answer ::
  "'b SnapshotPlatform \<Rightarrow> SnapshotRequest \<Rightarrow> SnapshotRow \<Rightarrow> SnapshotInstrument \<Rightarrow> string
    \<Rightarrow> (SnapshotInstrument \<times> SnapshotBar) list \<Rightarrow> SnapshotPage" where
  "snapshot_answer xp q s i manifest_sha rows =
     (let page = page_of (bar_json (xp_text xp)) (\<lambda>r. snapshot_cursor q (strip (xs_sha256 s)) (bar_position r)) (xq_limit q) rows
      in \<lparr> xg_snapshot = s, xg_series = i, xg_integrity = snapshot_integrity (xp_db xp) (xq_snapshot q),
           xg_manifest_sha256 = manifest_sha, xg_truncated = (xq_limit q < length rows), xg_answered = fst page,
           xg_rows_sha256 = rp_rows_sha256 (xp_repo xp) (fst page), xg_next = snd page \<rparr>)"

text \<open>Exactly one row, or the error for none and for several.\<close>

definition only_row :: "'e \<Rightarrow> 'e \<Rightarrow> 'a list \<Rightarrow> 'e + 'a" where
  "only_row none several rs = (case rs of [] \<Rightarrow> Inl none | [r] \<Rightarrow> Inr r | _ \<Rightarrow> Inl several)"

lemma only_row_Inr [simp]: "only_row none several rs = Inr r \<longleftrightarrow> rs = [r]"
  by (auto simp: only_row_def split: list.splits)

definition manifest_fields :: "json \<Rightarrow> read_error + (string \<times> json) list" where
  "manifest_fields v = (case v of JObj m \<Rightarrow> Inr m | _ \<Rightarrow> Inl (Raised AttributeError))"

lemma manifest_fields_Inr [simp]: "manifest_fields v = Inr m \<longleftrightarrow> v = JObj m"
  by (cases v) (auto simp: manifest_fields_def)

text \<open>The snapshot, its series and its manifest, compared with what the database holds.\<close>

definition verified_snapshot ::
  "'b SnapshotPlatform \<Rightarrow> SnapshotRequest \<Rightarrow> read_error + SnapshotRow \<times> SnapshotInstrument \<times> string" where
  "verified_snapshot xp q =
     (let db = xp_db xp; failed = SnapshotReadError ''SNAPSHOT_INTEGRITY_FAILED'' 503 in
      ebind (only_row (SnapshotReadError ''SNAPSHOT_NOT_FOUND'' 404) failed (snapshot_metadata db (xq_snapshot q))) (\<lambda>s.
      ebind (only_row (SnapshotReadError ''SNAPSHOT_SERIES_NOT_FOUND'' 404) failed
               (snapshot_series db (xq_key q) (xq_basis q))) (\<lambda>i.
      ebind (load_snapshot_manifest (xp_repo xp) (case xs_manifest_path s of None \<Rightarrow> [] | Some p \<Rightarrow> p)) (\<lambda>(v, sha).
      ebind (manifest_fields v) (\<lambda>m.
      ebind (raised (integrity_pass xp s m sha (snapshot_integrity db (xq_snapshot q)))) (\<lambda>pass.
        if pass then Inr (s, i, sha) else Inl failed))))))"

definition snapshot_page ::
  "'b SnapshotPlatform \<Rightarrow> SnapshotRequest \<Rightarrow> (string \<times> json) list option \<Rightarrow> read_error + SnapshotPage" where
  "snapshot_page xp q cur =
     ebind (snapshot_request_ok q) (\<lambda>_.
     ebind (snapshot_position (rp_shown (xp_repo xp)) q cur) (\<lambda>after.
     ebind (verified_snapshot xp q) (\<lambda>(s, i, sha).
       if (case cur of None \<Rightarrow> False | Some kvs \<Rightarrow> jget kvs ''snapshot_sha256'' \<noteq> JStr (strip (xs_sha256 s)))
       then Inl (CursorError ''CURSOR_EXPIRED'' 409)
       else Inr (snapshot_answer xp q s i sha (take (Suc (xq_limit q)) (snapshot_bars (xp_db xp, q) after))))))"

definition snapshot_bars_payload ::
  "'b SnapshotPlatform \<Rightarrow> codec \<Rightarrow> SnapshotRequest \<Rightarrow> (string \<times> json) list option
    \<Rightarrow> read_error + SnapshotPage \<times> string option" where
  "snapshot_bars_payload xp cd q cur =
     ebind (snapshot_page xp q cur) (\<lambda>p. Inr (p, map_option (cursor_encode cd) (xg_next p)))"

record SnapshotArgs =
  xa_cursor :: "string option"
  xa_snapshot :: nat
  xa_key :: "string option"
  xa_layer :: "string option"
  xa_basis :: "string option"
  xa_start :: "string option"
  xa_end :: "string option"
  xa_limit :: "string option"

definition snapshot_request :: "SnapshotArgs \<Rightarrow> exn + SnapshotRequest" where
  "snapshot_request a =
     ebind (parse_utc (arg_text (xa_start a) [])) (\<lambda>start.
     ebind (parse_utc (arg_text (xa_end a) [])) (\<lambda>till.
     ebind (parse_limit (xa_limit a) max_bar_rows) (\<lambda>limit.
       Inr \<lparr> xq_snapshot = int (xa_snapshot a), xq_key = arg_lower (xa_key a) [], xq_layer = arg_lower (xa_layer a) [],
             xq_basis = arg_lower (xa_basis a) [], xq_start = start, xq_end = till, xq_limit = limit \<rparr>)))"

definition snapshot_bars_route ::
  "'b SnapshotPlatform \<Rightarrow> codec \<Rightarrow> SnapshotArgs \<Rightarrow> (SnapshotPage \<times> string option) response" where
  "snapshot_bars_route xp cd a =
     respond (ebind (cursor_argument cd (xa_cursor a)) (\<lambda>cur.
              ebind (raised (snapshot_request a)) (\<lambda>q. snapshot_bars_payload xp cd q cur)))"

section \<open>Reading all pages\<close>

interpretation frozen: keyset_query snapshot_bars bar_position
  by unfold_locales
    (auto simp: snapshot_bars_def filter_sort bar_selected_def intro!: arg_cong [of _ _ "sort_key bar_position"] filter_cong)

text \<open>The primary keys of the two tables.\<close>

definition bar_key :: "SnapshotBar \<Rightarrow> int \<times> int \<times> utc \<times> string" where
  "bar_key b = (xb_instrument b, xb_horizon b, xb_time b, xb_basis b)"

definition snapshot_wf :: "snapshot_db \<Rightarrow> bool" where
  "snapshot_wf db = (distinct (map xi_id (xd_instruments db)) \<and> distinct (map bar_key (xd_bars db)))"

lemma snapshot_bars_strict:
  assumes "snapshot_wf db"
  shows "sorted_wrt (<) (map bar_position (snapshot_bars (db, q) after))"
proof -
  let ?all = "[(i, b). i \<leftarrow> xd_instruments db, b \<leftarrow> xd_bars db]"
  let ?rs = "filter (bar_selected db q after) ?all"
  have keys: "inj_on xi_id (set (xd_instruments db))" "inj_on bar_key (set (xd_bars db))"
    "distinct (xd_instruments db)" "distinct (xd_bars db)"
    using assms by (auto simp: snapshot_wf_def distinct_map)
  have "?all = List.product (xd_instruments db) (xd_bars db)" by (simp add: product_concat_map)
  then have "distinct ?rs" using keys(3,4) by (simp add: distinct_product)
  moreover have "inj_on bar_position (set ?rs)"
  proof (rule inj_onI)
    fix r s assume "r \<in> set ?rs" "s \<in> set ?rs" "bar_position r = bar_position s"
    then have "xi_id (fst r) = xi_id (fst s)" "fst r \<in> set (xd_instruments db)" "fst s \<in> set (xd_instruments db)"
      "bar_key (snd r) = bar_key (snd s)" "snd r \<in> set (xd_bars db)" "snd s \<in> set (xd_bars db)"
      by (auto simp: bar_selected_def bar_position_def bar_key_def)
    then show "r = s" using keys(1,2) by (metis inj_onD prod.expand)
  qed
  ultimately have "distinct (map bar_position (snapshot_bars (db, q) after))" by (simp add: snapshot_bars_def distinct_map)
  moreover have "sorted (map bar_position (snapshot_bars (db, q) after))" by (simp add: snapshot_bars_def)
  ultimately show ?thesis by (simp add: strict_sorted_iff)
qed

section \<open>What an answer rests on\<close>

lemma verified_snapshot_Inr:
  "verified_snapshot xp q = Inr (s, i, sha) \<longleftrightarrow>
     snapshot_metadata (xp_db xp) (xq_snapshot q) = [s] \<and> snapshot_series (xp_db xp) (xq_key q) (xq_basis q) = [i]
     \<and> (\<exists>m. load_snapshot_manifest (xp_repo xp) (case xs_manifest_path s of None \<Rightarrow> [] | Some p \<Rightarrow> p) = Inr (JObj m, sha)
          \<and> integrity_pass xp s m sha (snapshot_integrity (xp_db xp) (xq_snapshot q)) = Inr True)"
  by (auto simp: verified_snapshot_def Let_def ebind_eq_Inr)

lemma find_filter: "find P xs = (case filter P xs of [] \<Rightarrow> None | x # _ \<Rightarrow> Some x)"
  by (induction xs) auto

lemma snapshot_selected:
  "r \<in> set (snapshot_bars (db, q) after) \<Longrightarrow> bar_selected db q after r \<and> snd r \<in> set (xd_bars db)"
  by (auto simp: snapshot_bars_def)

lemma integrity_facts:
  assumes "integrity_pass xp s m sha (snapshot_integrity db k) = Inr True" and "snapshot_metadata db k = [s]"
  shows "snapshot_bound xp s m sha" "counts_match s m (snapshot_integrity db k)" "\<forall>b \<in> set (xd_bars db). xb_time b \<le> xs_cutoff s"
proof -
  have cut: "snapshot_cutoff db k = Some (xs_cutoff s)"
    using assms(2) by (simp add: snapshot_cutoff_def find_filter snapshot_metadata_def)
  show "snapshot_bound xp s m sha" using assms(1) by (auto simp: integrity_pass_def split: if_splits)
  show "counts_match s m (snapshot_integrity db k)"
    using assms(1) by (auto simp: integrity_pass_def ebind_eq_Inr split: if_splits)
  have "xg_after_cutoff (snapshot_integrity db k) = 0"
    using assms(1) by (auto simp: integrity_pass_def ebind_eq_Inr split: if_splits)
  then show "\<forall>b \<in> set (xd_bars db). xb_time b \<le> xs_cutoff s"
    by (auto simp: snapshot_integrity_def cut filter_empty_conv not_less)
qed

text \<open>C12: A snapshot request is answered only from a frozen, verified snapshot: its manifest is the allow-listed
  regular file whose digest the snapshot row carries, the manifest counts exactly the bars the database holds, and
  no bar lies after the cut-off. The answer has at most as many rows as asked for, all of them complete PASS bars
  of the series and basis asked for, inside the window and not after the cut-off.
\<close>

theorem snapshot_answers_are_verified:
  assumes "snapshot_page xp q cur = Inr p"
  shows "\<exists>s m path b. snapshot_metadata (xp_db xp) (xq_snapshot q) = [s] \<and> xs_status s = ''FROZEN''
    \<and> xs_manifest_path s = Some path \<and> path \<in> set manifest_allowlist \<and> rp_entry (xp_repo xp) path = Regular b
    \<and> rp_json (xp_repo xp) b = Some (JObj m) \<and> strip (xs_sha256 s) = rp_sha256 (xp_repo xp) b
    \<and> int_instance (jget (manifest_object (jget m ''table_counts_before_snapshot_registry_row'')) ''curated.market_bar'')
        = Some (int (length (xd_bars (xp_db xp))))
    \<and> (\<forall>bar \<in> set (xd_bars (xp_db xp)). xb_time bar \<le> xs_cutoff s)
    \<and> (\<exists>rows. xg_answered p = map (bar_json (xp_text xp)) rows \<and> length rows \<le> xq_limit q
        \<and> (\<forall>(i, bar) \<in> set rows. bar \<in> set (xd_bars (xp_db xp)) \<and> xi_key i = xq_key q \<and> xi_id i = xb_instrument bar
             \<and> xb_basis bar = xq_basis q \<and> xq_start q \<le> xb_time bar \<and> xb_time bar < xq_end q \<and> xb_time bar \<le> xs_cutoff s
             \<and> xb_complete bar \<and> xb_quality bar = ''PASS''))"
proof -
  from assms obtain after s i sha where v: "verified_snapshot xp q = Inr (s, i, sha)"
    and p: "p = snapshot_answer xp q s i sha (take (Suc (xq_limit q)) (snapshot_bars (xp_db xp, q) after))"
    by (auto simp: snapshot_page_def ebind_eq_Inr split: if_splits)
  from v obtain m where meta: "snapshot_metadata (xp_db xp) (xq_snapshot q) = [s]"
    and load: "load_snapshot_manifest (xp_repo xp) (case xs_manifest_path s of None \<Rightarrow> [] | Some p \<Rightarrow> p) = Inr (JObj m, sha)"
    and pass: "integrity_pass xp s m sha (snapshot_integrity (xp_db xp) (xq_snapshot q)) = Inr True"
    by (auto simp: verified_snapshot_Inr)
  note facts = integrity_facts [OF pass meta]
  from load obtain path b where path: "xs_manifest_path s = Some path" "path \<in> set manifest_allowlist"
      "rp_entry (xp_repo xp) path = Regular b" "rp_json (xp_repo xp) b = Some (JObj m)" "sha = rp_sha256 (xp_repo xp) b"
    by (auto simp: load_snapshot_manifest_def snapshot_error_def regular_def manifest_allowlist_def
        split: if_splits option.splits entry.splits)
  have count: "int_instance (jget (manifest_object (jget m ''table_counts_before_snapshot_registry_row'')) ''curated.market_bar'')
        = Some (int (length (xd_bars (xp_db xp))))"
    using facts(2) by (auto simp: counts_match_def Let_def manifest_object_def snapshot_integrity_def split: json.splits)
  let ?rows = "take (xq_limit q) (snapshot_bars (xp_db xp, q) after)"
  have answered: "xg_answered p = map (bar_json (xp_text xp)) ?rows"
    by (simp add: p snapshot_answer_def Let_def page_of_def min_def)
  have inside: "bar \<in> set (xd_bars (xp_db xp)) \<and> xi_key i = xq_key q \<and> xi_id i = xb_instrument bar
             \<and> xb_basis bar = xq_basis q \<and> xq_start q \<le> xb_time bar \<and> xb_time bar < xq_end q \<and> xb_time bar \<le> xs_cutoff s
             \<and> xb_complete bar \<and> xb_quality bar = ''PASS''" if "(i, bar) \<in> set ?rows" for i bar
  proof -
    have "(i, bar) \<in> set (snapshot_bars (xp_db xp, q) after)" using that by (rule in_set_takeD)
    from snapshot_selected [OF this] facts(3) show ?thesis by (auto simp: bar_selected_def)
  qed
  show ?thesis
    by (rule exI [of _ s], rule exI [of _ m], rule exI [of _ path], rule exI [of _ b])
      (use meta facts(1) facts(3) path count answered inside in \<open>auto simp: snapshot_bound_def intro!: exI [of _ ?rows]\<close>)
qed

section \<open>Following the cursors\<close>

definition ask_snapshot ::
  "'b SnapshotPlatform \<Rightarrow> codec \<Rightarrow> SnapshotArgs \<Rightarrow> string option \<Rightarrow> (int \<times> string) + json list \<times> string option" where
  "ask_snapshot xp cd a token =
     (case snapshot_bars_route xp cd (a\<lparr>xa_cursor := token\<rparr>) of
        Answered (p, t) \<Rightarrow> Inr (xg_answered p, t)
      | Failed status code \<Rightarrow> Inl (status, code))"

lemma snapshot_request_ignores_cursor [simp]: "snapshot_request (a\<lparr>xa_cursor := t\<rparr>) = snapshot_request a"
  by (simp add: snapshot_request_def)

abbreviation bar_cursor :: "SnapshotRequest \<Rightarrow> SnapshotRow \<Rightarrow> SnapshotInstrument \<times> SnapshotBar \<Rightarrow> json" where
  "bar_cursor q s r \<equiv> snapshot_cursor q (strip (xs_sha256 s)) (bar_position r)"

lemma snapshot_answer_to:
  assumes "snapshot_request a = Inr q" "snapshot_request_ok q = Inr ()" "verified_snapshot xp q = Inr (s, i, sha)"
    and "cursor_argument cd token = Inr cur" "snapshot_position (rp_shown (xp_repo xp)) q cur = Inr after"
    and "\<And>kvs. cur = Some kvs \<Longrightarrow> jget kvs ''snapshot_sha256'' = JStr (strip (xs_sha256 s))"
  shows "ask_snapshot xp cd a token = Inr (page_of (bar_json (xp_text xp)) (\<lambda>r. cursor_encode cd (bar_cursor q s r)) (xq_limit q)
    (snapshot_bars (xp_db xp, q) after))"
proof -
  have "\<not> (case cur of None \<Rightarrow> False | Some kvs \<Rightarrow> jget kvs ''snapshot_sha256'' \<noteq> JStr (strip (xs_sha256 s)))"
    using assms(6) by (cases cur) auto
  then have "snapshot_page xp q cur
      = Inr (snapshot_answer xp q s i sha (take (Suc (xq_limit q)) (snapshot_bars (xp_db xp, q) after)))"
    using assms by (simp add: snapshot_page_def)
  then show ?thesis
    using assms(1,4)
    by (simp add: ask_snapshot_def snapshot_bars_route_def snapshot_bars_payload_def respond_def snapshot_answer_def Let_def
        page_of_take page_of_def del: take_Suc)
qed

lemma py_eq_snapshot_query: "py_eq (snapshot_query_json q) (snapshot_query_json q)"
  by (simp add: snapshot_query_json_def same_number_def)

lemma bar_cursor_argument:
  assumes "cursor_readable cd (bar_cursor q s r)" "year_ok (date_of_utc (xb_time (snd r)))"
  obtains kvs where "cursor_argument cd (Some (cursor_encode cd (bar_cursor q s r))) = Inr (Some kvs)"
    "snapshot_position shown q (Some kvs) = Inr (Some (bar_position r))"
    "jget kvs ''snapshot_sha256'' = JStr (strip (xs_sha256 s))"
proof -
  obtain kvs where kvs: "bar_cursor q s r = JObj kvs" by (simp add: snapshot_cursor_def)
  have keys: "jget kvs ''version'' = JInt 1" "jget kvs ''kind'' = JStr ''snapshot-bars''" "jget kvs ''query'' = snapshot_query_json q"
    "jget kvs ''snapshot_sha256'' = JStr (strip (xs_sha256 s))"
    "jget kvs ''last'' = JObj [(''instrument_id'', JInt (xb_instrument (snd r))), (''price_basis'', JStr (xb_basis (snd r))),
                       (''time_utc'', JStr (iso_utc (xb_time (snd r))))]"
    using kvs by (auto simp: snapshot_cursor_def jget_def bar_position_def)
  have "cursor_argument cd (Some (cursor_encode cd (bar_cursor q s r))) = Inr (Some kvs)"
    using assms(1) keys(1) unfolding kvs by (rule readable_argument)
  moreover have "snapshot_position shown q (Some kvs) = Inr (Some (bar_position r))"
    using parse_printed_instant [OF assms(2)]
    by (simp add: snapshot_position_def keys py_eq_snapshot_query read_position_def required_field_def bar_position_def)
  ultimately show thesis using keys(4) by (rule that)
qed

text \<open>C23: The paged answers over a verified snapshot implement one query: a client that repeats its request with every
  cursor it is given gets exactly the bars the request selects, in the order of their positions and each once.
\<close>

theorem snapshot_pages_implement_query:
  assumes request: "snapshot_request a = Inr q" "snapshot_request_ok q = Inr ()" "verified_snapshot xp q = Inr (s, i, sha)"
    and keys: "snapshot_wf (xp_db xp)"
    and times: "\<And>r. r \<in> set (snapshot_bars (xp_db xp, q) None) \<Longrightarrow> year_ok (date_of_utc (xb_time (snd r)))"
    and codec: "\<And>r. r \<in> set (snapshot_bars (xp_db xp, q) None) \<Longrightarrow> cursor_readable cd (bar_cursor q s r)"
    and enough: "length (snapshot_bars (xp_db xp, q) None) \<le> n"
  shows "follow n (ask_snapshot xp cd a) None = Some (Inr (map (bar_json (xp_text xp)) (snapshot_bars (xp_db xp, q) None)))"
proof (rule frozen.follow_gets_all [where token = "\<lambda>r. cursor_encode cd (bar_cursor q s r)" and limit = "xq_limit q"])
  note answer = snapshot_answer_to [OF request]
  show "sorted_wrt (<) (map bar_position (snapshot_bars (xp_db xp, q) None))" using keys by (rule snapshot_bars_strict)
  show "0 < xq_limit q" using request(1) parse_limit_bounds by (auto simp: snapshot_request_def ebind_eq_Inr)
  show "ask_snapshot xp cd a None = Inr (page_of (bar_json (xp_text xp)) (\<lambda>r. cursor_encode cd (bar_cursor q s r)) (xq_limit q)
      (snapshot_bars (xp_db xp, q) None))"
    by (rule answer [where cur = None]) (auto simp: cursor_argument_def arg_optional_def arg_text_def strip_def snapshot_position_def)
next
  note answer = snapshot_answer_to [OF request]
  fix r assume r: "r \<in> set (snapshot_bars (xp_db xp, q) None)"
  obtain kvs where "cursor_argument cd (Some (cursor_encode cd (bar_cursor q s r))) = Inr (Some kvs)"
    and "snapshot_position (rp_shown (xp_repo xp)) q (Some kvs) = Inr (Some (bar_position r))"
    and "jget kvs ''snapshot_sha256'' = JStr (strip (xs_sha256 s))"
    by (rule bar_cursor_argument [OF codec [OF r] times [OF r]])
  then show "ask_snapshot xp cd a (Some (cursor_encode cd (bar_cursor q s r)))
      = Inr (page_of (bar_json (xp_text xp)) (\<lambda>r. cursor_encode cd (bar_cursor q s r)) (xq_limit q)
          (snapshot_bars (xp_db xp, q) (Some (bar_position r))))"
    by (intro answer) auto
qed (rule enough)

end
