(* ===== verification/ExampleRepository.thy ===== *)
theory ExampleRepository
  imports ReadSnapshot
begin

text \<open>
  A concrete repository, whose files are their own content under one constant digest, and a concrete codec of
  cursors, for the evaluated examples.
\<close>

section \<open>A repository with one contract\<close>

definition sha64 :: string where
  "sha64 = ''aaaaaaaaaaaaaaaaaaaaaaaaaaaaaaaaaaaaaaaaaaaaaaaaaaaaaaaaaaaaaaaa''"

definition example_tickers :: "string list" where
  "example_tickers = [''SPY'', ''IWM'', ''EFA'', ''EEM'', ''VNQ'', ''SHY'', ''IEF'', ''TLT'', ''TIP'', ''LQD'', ''GLD'']"

definition example_item :: json where
  "example_item = JObj [(''availability'', JStr ''AVAILABLE''), (''approved_warning_codes'', JArr []),
     (''source'', JObj [(''relative_path'', JStr ''data/spy.csv''), (''sha256'', JStr sha64),
                       (''ordered_content_sha256'', JStr sha64)])]"

definition example_contract :: "string \<Rightarrow> contract" where
  "example_contract usage =
     [(''schema_version'', JInt 1), (''contract_id'', JStr usage), (''status'', JStr ''ACTIVE''), (''usage_mode'', JStr usage),
      (''source_dataset_id'', JStr ''D1''), (''catalog_provider'', JStr ''P''), (''series_provider'', JStr ''Q''),
      (''dataset_kind'', JStr ''total_return''), (''price_basis'', JStr ''etf_total_return''), (''horizon_minutes'', JInt 1440),
      (''window'', JObj [(''first_session_date'', JStr ''2024-01-02''), (''last_session_date'', JStr ''2024-01-04''),
                        (''rows_per_instrument'', JInt 3), (''freshness_required'', JBool False)]),
      (''identity'', JObj [(''source_manifest_relative_path'', JStr ''manifests/m.json''), (''source_manifest_sha256'', JStr sha64),
                          (''quality_evidence_relative_path'', JStr ''manifests/q.json''), (''quality_evidence_sha256'', JStr sha64),
                          (''normalized_csv_relative_path'', JStr ''data/n.csv''), (''normalized_csv_sha256'', JStr sha64),
                          (''lineage_manifest_relative_path'', JStr ''manifests/l.json''), (''lineage_manifest_sha256'', JStr sha64)]),
      (''total_return_definition'', JObj [(''definition_id'', JStr ''d''),
                                         (''unadjusted_price_masquerading_as_total_return'', JBool False)]),
      (''non_blocking_metadata'', JArr []), (''blocking_gates'', JArr []),
      (''instruments'', JObj (map (\<lambda>t. (t, example_item)) example_tickers))]"

definition csv_row :: "string \<Rightarrow> string \<Rightarrow> string \<Rightarrow> (string \<times> string option) list" where
  "csv_row d ticker v = [(''date'', Some d), (''ticker'', Some ticker), (''adjusted_close'', Some v),
     (''total_return_index'', Some v), (''volume'', None)]"

definition example_files :: "string list" where
  "example_files = [contract_relative_path, full_history_contract_relative_path, ''manifests/m.json'', ''manifests/q.json'',
     ''data/n.csv'', ''manifests/l.json'', ''data/spy.csv'', ''manifests/db2_research_snapshot_content.json'']"

definition snapshot_manifest :: json where
  "snapshot_manifest = JObj
     [(''phase'', JStr ''DB2''), (''snapshot_database'', JStr research_db_name), (''source_database'', JStr ''saxo_market''),
      (''plan_id'', JStr ''plan''), (''research_line_id'', JStr ''line''), (''source_inventory_sha256'', JStr sha64),
      (''FDW_or_dblink_used'', JBool False), (''cutoff_utc'', JStr ''2024-01-05T00:00:00Z''),
      (''table_counts_before_snapshot_registry_row'', JObj [(''curated.market_bar'', JInt 3)]),
      (''boundaries'', JObj [(''curated_max_time_utc'', JStr ''2024-01-02T02:00:00Z'')])]"

definition example_repo :: "string Repository" where
  "example_repo = \<lparr> rp_entry = (\<lambda>p. if p \<in> set example_files then Regular p else Absent), rp_sha256 = (\<lambda>b. sha64),
     rp_json = (\<lambda>b. if b = contract_relative_path then Some (JObj (example_contract ''fixed_window_research''))
                   else if b = full_history_contract_relative_path then Some (JObj (example_contract ''full_history_research''))
                   else Some snapshot_manifest),
     rp_csv = (\<lambda>b. ([csv_row ''2023-12-29'' ''OLD'' ''x'', csv_row ''2024-01-02'' ''SPY'' ''100'',
                    csv_row ''2024-01-03'' ''SPY'' ''101.5'', csv_row ''2024-01-04'' ''SPY'' ''102''], True)),
     rp_shown = (\<lambda>v. []), rp_rows_sha256 = (\<lambda>rs. sha64) \<rparr>"

lemma example_contracts_load:
  "load_research_contracts example_repo
     = Inr [example_contract ''fixed_window_research'', example_contract ''full_history_research'']"
  by code_simp

text \<open>Both contracts have the example instrument.\<close>

lemma example_contract_chosen:
  "contract_for_request example_repo None ''spy'' = Inr (example_contract ''fixed_window_research'')"
proof -
  have "choose_contract None [c, d] = Inr c" for c d by (simp add: choose_contract_def)
  moreover have "case instruments_of (example_contract ''fixed_window_research'') of Inl _ \<Rightarrow> False | Inr kvs \<Rightarrow> map_of kvs (upper ''spy'') \<noteq> None"
    by code_simp
  ultimately show ?thesis
    by (auto simp: contract_for_request_def example_contracts_load split: sum.splits)
qed

section \<open>Cursors\<close>

text \<open>A codec for a given list of payloads: the text of the payload at place \<open>n\<close> is one byte, \<open>n\<close>.\<close>

fun place :: "json \<Rightarrow> json list \<Rightarrow> nat" where
  "place v [] = 0"
| "place v (x # xs) = (if x = v then 0 else Suc (place v xs))"

definition codec_of :: "json list \<Rightarrow> codec" where
  "codec_of vs = \<lparr> cd_hmac = (\<lambda>bs. map (\<lambda>b. b + 7) bs), cd_dumps = (\<lambda>v. [word_of_nat (place v vs)]),
     cd_loads = (\<lambda>bs. case bs of [b] \<Rightarrow> if unat b < length vs then Some (vs ! unat b) else None | _ \<Rightarrow> None) \<rparr>"

lemma place_in: "v \<in> set vs \<Longrightarrow> place v vs < length vs \<and> vs ! place v vs = v"
  by (induction vs) auto

lemma codec_of_loads:
  assumes "v \<in> set vs" "length vs \<le> 256"
  shows "cd_loads (codec_of vs) (cd_dumps (codec_of vs) v) = Some v"
proof -
  have "place v vs < 2 ^ LENGTH(8)" using place_in [OF assms(1)] assms(2) by simp
  then have "unat (word_of_nat (place v vs) :: byte) = place v vs" by (simp add: unsigned_of_nat take_bit_nat_eq_self)
  then show ?thesis using place_in [OF assms(1)] by (simp add: codec_of_def)
qed

lemma codec_of_length: "length (cursor_encode (codec_of vs) v) \<le> 4096"
proof -
  have "length (rstrip_char (CHR ''='') (urlsafe_b64encode [b])) = 2" for b
    by (simp add: urlsafe_part to_urlsafe_def)
  then show ?thesis by (simp add: cursor_encode_def codec_of_def Let_def)
qed

lemma codec_of_readable: "v \<in> set vs \<Longrightarrow> length vs \<le> 256 \<Longrightarrow> cursor_readable (codec_of vs) v"
  by (simp add: cursor_readable_def codec_of_loads codec_of_length)

end
