(* ===== verification/ReadExamples.thy ===== *)
theory ReadExamples
  imports ExampleRepository
begin

text \<open>
  Contracts, a full-history series and cursors, evaluated on the example repository, and the witnesses of their
  properties.
\<close>

section \<open>Contracts\<close>

lemma nothing_shown: "date_fromisoformat (rp_shown example_repo v) \<noteq> Inr d"
proof -
  have "date_fromisoformat [] = Inl (ValueError ''Invalid isoformat string'')" by code_simp
  then show ?thesis by (simp add: example_repo_def)
qed

theorem loaded_contracts_typed_witness:
  "\<exists>first final kvs. load_research_contracts example_repo
      = Inr [example_contract ''fixed_window_research'', example_contract ''full_history_research'']
    \<and> first \<le> final \<and> validate_requested_window (example_contract ''full_history_research'') first (first - 1)
        = (if final = max_date then Inl OverflowError else contract_fail ''TOTAL_RETURN_RESEARCH_WINDOW_OUTSIDE_CONTRACT'')
    \<and> instruments_of (example_contract ''full_history_research'') = Inr kvs \<and> length kvs = 11"
proof -
  let ?c = "example_contract ''full_history_research''"
  have "?c \<in> set [example_contract ''fixed_window_research'', ?c]" by simp
  from loaded_contracts_typed [OF example_contracts_load this nothing_shown]
  obtain first final kvs where "first \<le> final"
    and w: "\<And>a b. validate_requested_window ?c a b =
          (if final = max_date then Inl OverflowError
           else if first \<le> a \<and> a < b \<and> b \<le> final + 1 then Inr ()
           else contract_fail ''TOTAL_RETURN_RESEARCH_WINDOW_OUTSIDE_CONTRACT'')"
    and "instruments_of ?c = Inr kvs" "length kvs = 11" by blast
  then show ?thesis using example_contracts_load w [of first "first - 1"] by (intro exI conjI) (assumption | simp)+
qed

section \<open>A full-history series\<close>

definition history_loads :: "exn + FullHistory \<Rightarrow> bool" where
  "history_loads r = (case r of Inl _ \<Rightarrow> False
     | Inr h \<Rightarrow> map hr_date (fh_rows h) = [''2024-01-02'', ''2024-01-03'', ''2024-01-04''] \<and> fh_duplicates h = 0)"

lemma example_history: "history_loads (load_full_history_series example_repo (example_contract ''full_history_research'') ''spy'')"
  by code_simp

theorem full_history_series_exact_witness:
  "\<exists>h q ds. load_full_history_series example_repo (example_contract ''full_history_research'') ''spy'' = Inr h
     \<and> map hr_date (fh_rows h) = [''2024-01-02'', ''2024-01-03'', ''2024-01-04'']
     \<and> history_request (example_contract ''full_history_research'') (upper ''spy'') = Inr q
     \<and> sorted_wrt (<) ds \<and> hd ds = hq_first q \<and> last ds = hq_last q"
proof -
  obtain h where h: "load_full_history_series example_repo (example_contract ''full_history_research'') ''spy'' = Inr h"
    and dates: "map hr_date (fh_rows h) = [''2024-01-02'', ''2024-01-03'', ''2024-01-04'']"
    using example_history by (auto simp: history_loads_def split: sum.splits)
  from full_history_series_exact [OF h] obtain q ds where
    "history_request (example_contract ''full_history_research'') (upper ''spy'') = Inr q"
    "sorted_wrt (<) ds" "hd ds = hq_first q" "last ds = hq_last q" by (elim exE conjE) rule
  with h dates show ?thesis by (intro exI conjI)
qed

section \<open>Cursors\<close>

definition small_cursor :: json where
  "small_cursor = JObj [(''last'', JStr ''2024-01-02''), (''version'', JInt 1)]"

definition small_codec :: codec where "small_codec = codec_of [small_cursor]"

lemma small_loads: "cd_loads small_codec (cd_dumps small_codec small_cursor) = Some small_cursor"
  unfolding small_codec_def by (rule codec_of_loads) simp_all

theorem cursor_roundtrip_witness:
  "cursor_decode small_codec (cursor_encode small_codec small_cursor) = Inr [(''last'', JStr ''2024-01-02''), (''version'', JInt 1)]"
  using cursor_roundtrip [OF small_loads] codec_of_length [of "[small_cursor]" small_cursor]
  by (simp add: small_cursor_def small_codec_def jget_def)

lemma small_accepted:
  "cursor_decode small_codec ''AA.Bw'' = Inr [(''last'', JStr ''2024-01-02''), (''version'', JInt 1)]"
  "cursor_decode small_codec ''AA.Bg'' = cursor_invalid" "cursor_decode small_codec ''AA'' = cursor_invalid"
  by code_simp+

theorem accepted_cursor_is_signed_witness:
  "\<exists>a b body. ''AA.Bw'' = a @ ''.'' @ b \<and> cursor_part a = Some body \<and> cursor_part b = Some (cd_hmac small_codec body)"
proof -
  from accepted_cursor_is_signed [OF small_accepted(1)] obtain a b body where
    "''AA.Bw'' = a @ ''.'' @ b" "cursor_part a = Some body" "cursor_part b = Some (cd_hmac small_codec body)"
    by (elim exE conjE) rule
  then show ?thesis by (intro exI conjI)
qed

end
