(* ===== verification/ReadTotalReturn.thy ===== *)
theory ReadTotalReturn
  imports TotalReturn ReadRequests KeysetPages "HOL-Library.List_Lexorder" "HOL-Library.Char_ord"
begin

text \<open>
  The total-return part of \<open>market_db/read_api.py\<close>: the two queries over the research tables (with the view
  \<open>analytics.v_total_return_research_series\<close>), the status of a series against its research contract, and the
  paged answers of \<open>/api/v1/total-return\<close>. One request reads one snapshot of the database, an argument. The
  rows of an answer are given as its JSON text prints them; its constant fields are left out.
\<close>

section \<open>Tables\<close>

record ResearchInstrument =
  ri_id :: int
  ri_key :: string
  ri_symbol :: string
  ri_category :: string
  ri_active :: bool

record ResearchDataset =
  rd_id :: string
  rd_name :: string
  rd_provider :: string
  rd_kind :: string
  rd_basis :: string
  rd_horizon :: "int option"
  rd_eligibility :: string
  rd_manifest_path :: "string option"
  rd_manifest_sha256 :: "string option"
  rd_current :: bool

record SeriesMapping =
  sm_dataset :: string
  sm_series :: string
  sm_instrument :: int
  sm_kind :: string
  sm_reason :: string
  sm_approved_at :: utc
  sm_approved_by :: string
  sm_active :: bool

record DailyRow =
  dr_dataset :: string
  dr_ticker :: string
  dr_date :: date
  dr_adjusted :: rat
  dr_index :: rat
  dr_volume :: "rat option"
  dr_quality :: string
  dr_file :: int

record ResearchFile =
  rf_id :: int
  rf_dataset :: string
  rf_sha256 :: string

record research_db =
  db_instruments :: "ResearchInstrument list"
  db_datasets :: "ResearchDataset list"
  db_mappings :: "SeriesMapping list"
  db_daily :: "DailyRow list"
  db_files :: "ResearchFile list"

text \<open>The primary key of the daily table.\<close>

definition daily_key :: "DailyRow \<Rightarrow> string \<times> string \<times> date" where
  "daily_key r = (dr_dataset r, dr_ticker r, dr_date r)"

definition daily_wf :: "research_db \<Rightarrow> bool" where
  "daily_wf db = distinct (map daily_key (db_daily db))"

section \<open>Queries\<close>

text \<open>The joined rows of the mapping, its instrument and its data set.\<close>

type_synonym mapped = "SeriesMapping \<times> ResearchInstrument \<times> ResearchDataset"

definition eligible_mappings :: "research_db \<Rightarrow> string \<Rightarrow> string option \<Rightarrow> mapped list" where
  "eligible_mappings db key dataset =
     [(m, i, d). m \<leftarrow> db_mappings db, i \<leftarrow> db_instruments db, d \<leftarrow> db_datasets db,
        ri_id i = sm_instrument m \<and> rd_id d = sm_dataset m \<and> ri_key i = key \<and> ri_active i \<and> sm_active m
        \<and> rd_kind d = ''total_return'' \<and> rd_basis d = ''etf_total_return''
        \<and> (dataset = None \<or> dataset = Some (sm_dataset m))]"

definition is_current :: "mapped \<Rightarrow> bool" where "is_current c = rd_current (snd (snd c))"

definition candidates :: "research_db \<Rightarrow> string \<Rightarrow> string option \<Rightarrow> mapped list" where
  "candidates db key dataset =
     (let es = eligible_mappings db key dataset
      in filter (\<lambda>c. dataset \<noteq> None \<or> is_current c \<or> \<not> list_ex is_current es) es)"

record DailyQuery =
  dq_db :: research_db
  dq_dataset :: string
  dq_ticker :: string
  dq_start :: date
  dq_end :: date
  dq_eligibility :: string

definition daily_selected :: "DailyQuery \<Rightarrow> date option \<Rightarrow> DailyRow \<Rightarrow> bool" where
  "daily_selected q after r =
     (dr_dataset r = dq_dataset q \<and> dr_ticker r = dq_ticker q \<and> dq_start q \<le> dr_date r \<and> dr_date r < dq_end q
      \<and> (dq_eligibility q = ''eligible'' \<and> dr_quality r = ''PASS''
         \<or> dq_eligibility q = ''stored_complete'' \<and> dr_quality r \<in> {''PASS'', ''WARN'', ''NOT_EVALUATED''})
      \<and> (case after of None \<Rightarrow> True | Some a \<Rightarrow> a < dr_date r))"

text \<open>The lateral query of one candidate, before its \<open>LIMIT\<close>.\<close>

definition daily_rows :: "DailyQuery \<Rightarrow> date option \<Rightarrow> DailyRow list" where
  "daily_rows q after = sort_key dr_date (filter (daily_selected q after) (db_daily (dq_db q)))"

definition daily_query :: "research_db \<Rightarrow> mapped \<Rightarrow> date \<Rightarrow> date \<Rightarrow> string \<Rightarrow> DailyQuery" where
  "daily_query db c start till eligibility =
     \<lparr> dq_db = db, dq_dataset = sm_dataset (fst c), dq_ticker = sm_series (fst c), dq_start = start, dq_end = till,
       dq_eligibility = eligibility \<rparr>"

text \<open>
  The rows of the whole query: a candidate without daily rows keeps one row. Several candidates are refused by the
  caller, so their order is left as it is.
\<close>

definition total_return_rows ::
  "research_db \<Rightarrow> string \<Rightarrow> string option \<Rightarrow> date \<Rightarrow> date \<Rightarrow> string \<Rightarrow> date option \<Rightarrow> nat
    \<Rightarrow> (mapped \<times> DailyRow option) list" where
  "total_return_rows db key dataset start till eligibility after n =
     concat (map (\<lambda>c. case take n (daily_rows (daily_query db c start till eligibility) after) of
                        [] \<Rightarrow> [(c, None)] | rs \<Rightarrow> map (\<lambda>r. (c, Some r)) rs)
                 (candidates db key dataset))"

text \<open>The statistics that the view keeps of a mapped series, over all its daily rows.\<close>

record AuditRow =
  au_mapped :: mapped
  au_rows :: int
  au_first :: "date option"
  au_last :: "date option"
  au_duplicates :: int
  au_nonpositive :: int
  au_failed :: int
  au_not_evaluated :: int
  au_warned :: int
  au_file_count :: int
  au_missing_files :: int
  au_foreign_files :: int
  au_hashes :: "string list"

definition file_of :: "research_db \<Rightarrow> DailyRow \<Rightarrow> ResearchFile option" where
  "file_of db r = find (\<lambda>f. rf_id f = dr_file r) (db_files db)"

definition count_if :: "('a \<Rightarrow> bool) \<Rightarrow> 'a list \<Rightarrow> int" where
  "count_if P xs = int (length (filter P xs))"

definition audit_row :: "research_db \<Rightarrow> mapped \<Rightarrow> AuditRow" where
  "audit_row db c =
     (let rs = filter (\<lambda>r. dr_dataset r = sm_dataset (fst c) \<and> dr_ticker r = sm_series (fst c)) (db_daily db);
          ds = map dr_date rs
      in \<lparr> au_mapped = c, au_rows = int (length rs),
           au_first = (if ds = [] then None else Some (Min (set ds))),
           au_last = (if ds = [] then None else Some (Max (set ds))),
           au_duplicates = int (length ds) - int (length (remdups ds)),
           au_nonpositive = count_if (\<lambda>r. dr_adjusted r \<le> 0 \<or> dr_index r \<le> 0) rs,
           au_failed = count_if (\<lambda>r. dr_quality r = ''FAIL'') rs,
           au_not_evaluated = count_if (\<lambda>r. dr_quality r = ''NOT_EVALUATED'') rs,
           au_warned = count_if (\<lambda>r. dr_quality r = ''WARN'') rs,
           au_file_count = int (length (remdups (map dr_file rs))),
           au_missing_files = count_if (\<lambda>r. file_of db r = None) rs,
           au_foreign_files = count_if (\<lambda>r. case file_of db r of None \<Rightarrow> False | Some f \<Rightarrow> rf_dataset f \<noteq> dr_dataset r) rs,
           au_hashes = sort (remdups (List.map_filter (\<lambda>r. map_option rf_sha256 (file_of db r)) rs)) \<rparr>)"

definition audit_rows :: "research_db \<Rightarrow> string \<Rightarrow> json \<Rightarrow> string \<Rightarrow> AuditRow list" where
  "audit_rows db key dataset ticker =
     map (audit_row db)
       (filter (\<lambda>(m, i, d). JStr (sm_dataset m) = dataset \<and> sm_series m = ticker) (eligible_mappings db key None))"

section \<open>Platform, errors and answers\<close>

text \<open>What one connection says about itself; \<open>rx_text\<close> prints a numeric column.\<close>

record ReadContext =
  rc_database :: string
  rc_role :: string
  rc_read_only :: string
  rc_read_at :: utc
  rc_marker :: string

record 'b ReadPlatform =
  rx_repo :: "'b Repository"
  rx_market_db :: string
  rx_context :: ReadContext
  rx_db :: research_db
  rx_text :: "rat \<Rightarrow> string"

definition total_return_error :: "string \<Rightarrow> int \<Rightarrow> read_error + 'a" where
  "total_return_error code status = Inl (TotalReturnReadError code status)"

text \<open>\<open>except TotalReturnContractError as exc: raise TotalReturnReadError(str(exc), 503)\<close>.\<close>

definition contract_unavailable :: "exn + 'a \<Rightarrow> read_error + 'a" where
  "contract_unavailable r =
     (case r of Inl (TotalReturnContractError m) \<Rightarrow> total_return_error m 503 | Inl e \<Rightarrow> Inl (Raised e) | Inr v \<Rightarrow> Inr v)"

lemma contract_unavailable_Inr [simp]: "contract_unavailable r = Inr v \<longleftrightarrow> r = Inr v"
  by (cases r) (auto simp: contract_unavailable_def total_return_error_def split: exn.splits)

text \<open>The guards on the connection to the market database.\<close>

definition market_context_ok :: "'b ReadPlatform \<Rightarrow> bool" where
  "market_context_ok rx = (rc_database (rx_context rx) = rx_market_db rx \<and> rc_role (rx_context rx) = ''saxo_app_reader''
     \<and> rc_read_only (rx_context rx) = ''on'')"

definition text_json :: "string option \<Rightarrow> json" where
  "text_json v = (case v of None \<Rightarrow> JNull | Some s \<Rightarrow> JStr s)"

definition date_json :: "date option \<Rightarrow> json" where
  "date_json v = (case v of None \<Rightarrow> JNull | Some d \<Rightarrow> JStr (date_iso d))"

definition blocker :: "bool \<Rightarrow> string \<Rightarrow> string list" where
  "blocker b code = (if b then [code] else [])"

section \<open>Status against the contract\<close>

record SeriesIdentity =
  si_mapping :: SeriesMapping
  si_instrument :: int
  si_key :: string
  si_symbol :: string
  si_category :: string
  si_series :: string
  si_dataset :: json
  si_provider :: json
  si_name :: string

record TotalReturnStatus =
  ts_series :: SeriesIdentity
  ts_availability :: json
  ts_quality :: string
  ts_coverage :: string
  ts_freshness :: string
  ts_blockers :: "string list"
  ts_warnings :: "json list"
  ts_revision :: "string option"
  ts_rows :: int
  ts_first :: json
  ts_last :: json
  ts_duplicates :: int
  ts_nonpositive :: int
  ts_failed :: int
  ts_not_evaluated :: int
  ts_warned :: int
  ts_files :: int
  ts_hashes :: "json list"

definition series_identity :: "AuditRow \<Rightarrow> string \<Rightarrow> string \<Rightarrow> json \<Rightarrow> json \<Rightarrow> SeriesIdentity" where
  "series_identity a key ticker dataset provider =
     (case au_mapped a of (m, i, d) \<Rightarrow>
        \<lparr> si_mapping = m, si_instrument = ri_id i, si_key = key, si_symbol = ri_symbol i, si_category = ri_category i,
          si_series = ticker, si_dataset = dataset, si_provider = provider, si_name = rd_name d \<rparr>)"

text \<open>The audit row of a request: exactly one, over a connection with the right identity.\<close>

definition audited :: "'b ReadPlatform \<Rightarrow> string \<Rightarrow> contract \<Rightarrow> read_error + AuditRow" where
  "audited rx key c =
     ebind (raised (required_field c ''source_dataset_id'')) (\<lambda>dataset.
       if \<not> market_context_ok rx then total_return_error ''TOTAL_RETURN_INTEGRITY_FAILED'' 503
       else case audit_rows (rx_db rx) key dataset (upper key) of
              [a] \<Rightarrow> Inr a
            | _ \<Rightarrow> total_return_error ''TOTAL_RETURN_MAPPING_NOT_FOUND'' 404)"

text \<open>The checks that both kinds of contract share. The view counts one mapping in every row.\<close>

definition identity_blockers :: "AuditRow \<Rightarrow> string \<Rightarrow> contract \<Rightarrow> exn + string list" where
  "identity_blockers a key c =
     (case au_mapped a of (m, i, d) \<Rightarrow>
        ebind (required_field c ''catalog_provider'') (\<lambda>provider.
        ebind (ebind (required_field c ''identity'') object_of) (\<lambda>ids.
        ebind (required_field ids ''source_manifest_relative_path'') (\<lambda>path.
        ebind (required_field ids ''source_manifest_sha256'') (\<lambda>sha.
          Inr (blocker (sm_series m \<noteq> upper key \<or> ri_key i \<noteq> key) ''INSTRUMENT_IDENTITY_MISMATCH''
               @ blocker (rd_kind d \<noteq> ''total_return'' \<or> rd_basis d \<noteq> ''etf_total_return'') ''DATASET_OR_PRICE_BASIS_MISMATCH''
               @ blocker (rd_horizon d \<noteq> Some 1440) ''HORIZON_MISMATCH''
               @ blocker (JStr (rd_provider d) \<noteq> provider) ''PROVIDER_IDENTITY_MISMATCH''
               @ blocker (text_json (rd_manifest_path d) \<noteq> path) ''SOURCE_MANIFEST_PATH_MISMATCH''
               @ blocker (JStr (case rd_manifest_sha256 d of None \<Rightarrow> [] | Some h \<Rightarrow> strip h) \<noteq> sha)
                   ''SOURCE_MANIFEST_SHA256_MISMATCH''))))))"

definition file_hashes :: "AuditRow \<Rightarrow> string list" where
  "file_hashes a = sort (map strip (au_hashes a))"

text \<open>The checks of the locked window.\<close>

definition window_blockers :: "AuditRow \<Rightarrow> contract \<Rightarrow> exn + string list" where
  "window_blockers a c =
     ebind (window_of c) (\<lambda>w.
     ebind (ebind (required_field c ''identity'') object_of) (\<lambda>ids.
     ebind (ebind (required_field w ''rows_per_instrument'') py_int) (\<lambda>n.
     ebind (required_field w ''first_session_date'') (\<lambda>first.
     ebind (required_field w ''last_session_date'') (\<lambda>final.
     ebind (required_field ids ''normalized_csv_sha256'') (\<lambda>sha.
       Inr (blocker (au_rows a \<noteq> n) ''LOCKED_WINDOW_ROW_COUNT_MISMATCH''
            @ blocker (date_json (au_first a) \<noteq> first) ''LOCKED_WINDOW_START_MISMATCH''
            @ blocker (date_json (au_last a) \<noteq> final) ''LOCKED_WINDOW_END_MISMATCH''
            @ blocker (au_duplicates a \<noteq> 0) ''DUPLICATE_SESSION_DATE''
            @ blocker (au_nonpositive a \<noteq> 0) ''NULL_OR_NONPOSITIVE_TOTAL_RETURN''
            @ blocker (au_failed a \<noteq> 0) ''QUALITY_FAIL_ROWS_PRESENT''
            @ blocker (au_not_evaluated a \<noteq> 0) ''QUALITY_NOT_EVALUATED_ROWS_PRESENT''
            @ blocker (au_missing_files a \<noteq> 0) ''RAW_LINEAGE_MISSING''
            @ blocker (au_foreign_files a \<noteq> 0) ''RAW_LINEAGE_DATASET_MISMATCH''
            @ blocker (map JStr (file_hashes a) \<noteq> [sha]) ''NORMALIZED_CONTENT_SHA256_MISMATCH'')))))))"

text \<open>The entry of one instrument in a contract, and its approved warnings as a list.\<close>

definition contract_item :: "contract \<Rightarrow> string \<Rightarrow> exn + (string \<times> json) list" where
  "contract_item c ticker = ebind (instruments_of c) (\<lambda>kvs. ebind (required_field kvs ticker) object_of)"

definition approved_warnings :: "(string \<times> json) list \<Rightarrow> exn + json list" where
  "approved_warnings item =
     ebind (required_field item ''approved_warning_codes'') (\<lambda>v. case v of JArr ws \<Rightarrow> Inr ws | _ \<Rightarrow> Inl TypeError)"

text \<open>The status of a locked window, out of the audit and its blockers.\<close>

definition locked_status :: "AuditRow \<Rightarrow> SeriesIdentity \<Rightarrow> string list \<Rightarrow> json list \<Rightarrow> json \<Rightarrow> TotalReturnStatus" where
  "locked_status a series blockers approved availability =
     \<lparr> ts_series = series,
       ts_availability = (if blockers \<noteq> [] then JStr ''BLOCKED'' else availability),
       ts_quality = (if blockers \<noteq> [] then ''BLOCKED''
                     else if availability = JStr ''AVAILABLE_WITH_WARNINGS'' then ''PASS_WITH_WARNINGS'' else ''PASS''),
       ts_coverage = (if blockers \<noteq> [] then ''BLOCKED'' else ''PASS_LOCKED_WINDOW''),
       ts_freshness = ''NOT_APPLICABLE_FIXED_WINDOW'', ts_blockers = blockers,
       ts_warnings = (if blockers = [] then approved else [])
         @ [JStr ''CATALOG_RESEARCH_ELIGIBILITY_LABEL_NOT_A_FIXED_WINDOW_GATE'',
            JStr ''FRESHNESS_BEYOND_LOCKED_WINDOW_NOT_REQUIRED''],
       ts_revision = None, ts_rows = au_rows a, ts_first = date_json (au_first a), ts_last = date_json (au_last a),
       ts_duplicates = au_duplicates a, ts_nonpositive = au_nonpositive a, ts_failed = au_failed a,
       ts_not_evaluated = au_not_evaluated a, ts_warned = au_warned a, ts_files = au_file_count a,
       ts_hashes = map JStr (file_hashes a) \<rparr>"

lemma locked_status_simps [simp]:
  "ts_blockers (locked_status a series blockers approved availability) = blockers"
  "ts_availability (locked_status a series blockers approved availability) = (if blockers \<noteq> [] then JStr ''BLOCKED'' else availability)"
  by (simp_all add: locked_status_def)

definition fixed_window_status :: "'b ReadPlatform \<Rightarrow> string \<Rightarrow> contract \<Rightarrow> read_error + TotalReturnStatus" where
  "fixed_window_status rx key c =
     ebind (audited rx key c) (\<lambda>a. raised (
     ebind (identity_blockers a key c) (\<lambda>b1.
     ebind (window_blockers a c) (\<lambda>b2.
     ebind (contract_item c (upper key)) (\<lambda>item.
     ebind (approved_warnings item) (\<lambda>approved.
     ebind (evidence_of item) (\<lambda>evidence.
     ebind (int_or_zero (jget evidence ''quality_warn_rows'')) (\<lambda>expected.
     ebind (required_field item ''availability'') (\<lambda>availability.
     ebind (required_field c ''source_dataset_id'') (\<lambda>dataset.
     ebind (required_field c ''series_provider'') (\<lambda>provider.
     ebind (public_contract c) (\<lambda>_.
       let blockers = b1 @ b2
             @ blocker (au_warned a \<noteq> expected) ''PROVIDER_WARNING_COUNT_MISMATCH''
             @ blocker (au_warned a \<noteq> 0 \<and> approved = []) ''UNREVIEWED_PROVIDER_CONTENT_ANOMALY''
       in Inr (locked_status a (series_identity a key (upper key) dataset provider) blockers approved availability)))))))))))))"

definition full_history_status :: "'b ReadPlatform \<Rightarrow> string \<Rightarrow> contract \<Rightarrow> read_error + TotalReturnStatus" where
  "full_history_status rx key c =
     ebind (audited rx key c) (\<lambda>a.
     ebind (raised (identity_blockers a key c)) (\<lambda>blockers.
     ebind (contract_unavailable (load_full_history_series (rx_repo rx) c (upper key))) (\<lambda>h. raised (
     ebind (contract_item c (upper key)) (\<lambda>item.
     ebind (if blockers = [] then approved_warnings item else Inr []) (\<lambda>approved.
     ebind (required_field item ''availability'') (\<lambda>availability.
     ebind (required_field c ''source_dataset_id'') (\<lambda>dataset.
     ebind (required_field c ''series_provider'') (\<lambda>provider.
     ebind (public_contract c) (\<lambda>_.
       Inr \<lparr> ts_series = series_identity a key (upper key) dataset provider,
             ts_availability = (if blockers \<noteq> [] then JStr ''BLOCKED'' else availability),
             ts_quality = (if blockers \<noteq> [] then ''BLOCKED''
                           else if availability = JStr ''AVAILABLE_WITH_WARNINGS'' then ''PASS_WITH_WARNINGS'' else ''PASS''),
             ts_coverage = (if blockers \<noteq> [] then ''BLOCKED'' else ''PASS_FULL_AVAILABLE_HISTORY''),
             ts_freshness = ''NOT_APPLICABLE_FROZEN_RESEARCH_SOURCE'', ts_blockers = blockers,
             ts_warnings = approved @ [JStr ''FROZEN_RESEARCH_SOURCE_FRESHNESS_NOT_REQUIRED'',
                                       JStr ''STRATEGY_MANIFEST_OWNS_DATE_BOUNDARIES''],
             ts_revision = Some (fh_content_sha256 h), ts_rows = int (length (fh_rows h)),
             ts_first = JStr (fh_first h), ts_last = JStr (fh_last h), ts_duplicates = int (fh_duplicates h),
             ts_nonpositive = int (fh_nonpositive h), ts_failed = 0, ts_not_evaluated = 0,
             ts_warned = int (fh_warnings h), ts_files = 1, ts_hashes = [fh_source_sha256 h] \<rparr>)))))))))) "

definition total_return_status ::
  "'b ReadPlatform \<Rightarrow> string \<Rightarrow> string option \<Rightarrow> read_error + TotalReturnStatus" where
  "total_return_status rx key contract_id =
     (if \<not> key_ok key then Inl (Raised (ValueError ''instrument_key is required''))
      else ebind (raised (contract_for_request (rx_repo rx) contract_id key)) (\<lambda>c.
        if full_history c then full_history_status rx key c else fixed_window_status rx key c))"

section \<open>Paged answers\<close>

record TotalReturnRequest =
  tq_key :: string
  tq_start :: utc
  tq_end :: utc
  tq_dataset :: "string option"
  tq_limit :: nat
  tq_eligibility :: string
  tq_usage :: string
  tq_contract :: "string option"

record TotalReturnPage =
  tp_series :: SeriesIdentity
  tp_dataset :: json
  tp_mapping_count :: nat
  tp_revision :: string
  tp_freshness_required :: bool
  tp_warnings :: "json list"
  tp_truncated :: bool
  tp_rows :: "json list"
  tp_rows_sha256 :: string
  tp_next :: "json option"

text \<open>The query a cursor is bound to, and the cursor behind the last row answered. Keys are written in order.\<close>

definition request_json :: "TotalReturnRequest \<Rightarrow> json \<Rightarrow> json" where
  "request_json q dataset = JObj
     [(''eligibility'', JStr (tq_eligibility q)), (''end'', JStr (iso_utc (tq_end q))), (''instrument_key'', JStr (tq_key q)),
      (''limit'', JInt (int (tq_limit q))), (''research_contract_id'', text_json (tq_contract q)),
      (''source_dataset_id'', dataset), (''start'', JStr (iso_utc (tq_start q))), (''usage_mode'', JStr (tq_usage q))]"

definition total_return_cursor :: "TotalReturnRequest \<Rightarrow> json \<Rightarrow> string \<Rightarrow> json \<Rightarrow> json" where
  "total_return_cursor q dataset revision final = JObj
     [(''kind'', JStr ''total-return''), (''last_session_date'', final), (''query'', request_json q dataset),
      (''source_dataset_id'', dataset), (''state_revision'', JStr revision), (''version'', JInt 1)]"

definition cursor_fail :: "string \<Rightarrow> int \<Rightarrow> read_error + 'a" where
  "cursor_fail code status = Inl (CursorError code status)"

text \<open>\<open>date.fromisoformat(str(cursor["last_session_date"]))\<close>.\<close>

definition cursor_date :: "(json \<Rightarrow> string) \<Rightarrow> (string \<times> json) list \<Rightarrow> read_error + date" where
  "cursor_date shown cur =
     (case ebind (required_field cur ''last_session_date'') (\<lambda>v. date_fromisoformat (py_str shown v)) of
        Inl KeyError \<Rightarrow> cursor_invalid
      | Inl TypeError \<Rightarrow> cursor_invalid
      | Inl (ValueError m) \<Rightarrow> cursor_invalid
      | r \<Rightarrow> raised r)"

definition cursor_matches :: "(string \<times> json) list \<Rightarrow> TotalReturnRequest \<Rightarrow> json \<Rightarrow> bool" where
  "cursor_matches cur q dataset =
     (jget cur ''kind'' = JStr ''total-return'' \<and> py_eq (jget cur ''query'') (request_json q dataset))"

subsection \<open>Full history\<close>

definition full_history_after ::
  "'b ReadPlatform \<Rightarrow> TotalReturnRequest \<Rightarrow> json \<Rightarrow> (string \<times> json) list option \<Rightarrow> read_error + date option" where
  "full_history_after rx q dataset cur =
     (case cur of
        None \<Rightarrow> Inr None
      | Some kvs \<Rightarrow>
          if \<not> cursor_matches kvs q dataset \<or> \<not> py_eq (jget kvs ''source_dataset_id'') dataset
          then cursor_fail ''CURSOR_QUERY_MISMATCH'' 409
          else ebind (cursor_date (rp_shown (rx_repo rx)) kvs) (\<lambda>d. Inr (Some d)))"

text \<open>The cursor and the answer out of the matching rows.\<close>

definition full_history_answer ::
  "'b ReadPlatform \<Rightarrow> TotalReturnRequest \<Rightarrow> json \<Rightarrow> TotalReturnStatus \<Rightarrow> FullHistory \<Rightarrow> HistoryRow list \<Rightarrow> TotalReturnPage" where
  "full_history_answer rx q dataset st h matching =
     (let page = page_of history_json (\<lambda>r. total_return_cursor q dataset (fh_content_sha256 h) (JStr (hr_date r)))
                   (tq_limit q) matching
      in \<lparr> tp_series = ts_series st, tp_dataset = dataset, tp_mapping_count = 1,
           tp_revision = fh_content_sha256 h, tp_freshness_required = False, tp_warnings = ts_warnings st,
           tp_truncated = (tq_limit q < length matching), tp_rows = fst page,
           tp_rows_sha256 = rp_rows_sha256 (rx_repo rx) (fst page), tp_next = snd page \<rparr>)"

definition full_history_page ::
  "'b ReadPlatform \<Rightarrow> TotalReturnRequest \<Rightarrow> contract \<Rightarrow> (string \<times> json) list option \<Rightarrow> read_error + TotalReturnPage" where
  "full_history_page rx q c cur =
     ebind (raised (validate_requested_window c (date_of_utc (tq_start q)) (date_of_utc (tq_end q)))) (\<lambda>_.
     ebind (raised (required_field c ''source_dataset_id'')) (\<lambda>dataset.
     if tq_dataset q \<noteq> None \<and> text_json (tq_dataset q) \<noteq> dataset
     then Inl (Raised (ValueError ''source_dataset_id does not match research contract''))
     else ebind (full_history_after rx q dataset cur) (\<lambda>after.
          ebind (full_history_status rx (tq_key q) c) (\<lambda>st.
          if ts_blockers st \<noteq> [] then total_return_error ''TOTAL_RETURN_CONTRACT_QUALITY_FAILED'' 503
          else if (case cur of None \<Rightarrow> False | Some kvs \<Rightarrow> jget kvs ''state_revision'' \<noteq> text_json (ts_revision st))
          then cursor_fail ''CURSOR_EXPIRED'' 409
          else ebind (contract_unavailable (load_full_history_series (rx_repo rx) c (tq_key q))) (\<lambda>h.
               ebind (raised (select_full_history_rows h (date_of_utc (tq_start q)) (date_of_utc (tq_end q)) after))
                 (\<lambda>matching.
               if matching = [] then total_return_error ''TOTAL_RETURN_MAPPING_NOT_FOUND'' 404
               else Inr (full_history_answer rx q dataset st h matching)))))))"

subsection \<open>Rows of the database\<close>

definition daily_json :: "(rat \<Rightarrow> string) \<Rightarrow> DailyRow \<Rightarrow> json" where
  "daily_json text_of_number r = JObj
     [(''source_dataset_id'', JStr (dr_dataset r)), (''external_series_key'', JStr (dr_ticker r)),
      (''session_date'', JStr (date_iso (dr_date r))), (''value'', JStr (text_of_number (dr_index r))),
      (''volume'', (case dr_volume r of None \<Rightarrow> JNull | Some v \<Rightarrow> JStr (text_of_number v))),
      (''quality_status'', JStr (dr_quality r)), (''price_basis'', JStr ''etf_total_return'')]"

text \<open>The data set and the last date of a cursor; the data set asked for must be the cursor's.\<close>

definition daily_after ::
  "'b ReadPlatform \<Rightarrow> TotalReturnRequest \<Rightarrow> json \<Rightarrow> (string \<times> json) list option
    \<Rightarrow> read_error + json \<times> date option" where
  "daily_after rx q dataset cur =
     (case cur of
        None \<Rightarrow> Inr (dataset, None)
      | Some kvs \<Rightarrow>
          let chosen = jget kvs ''source_dataset_id''
          in if dataset \<noteq> JNull \<and> \<not> py_eq dataset chosen \<or> \<not> cursor_matches kvs q chosen
             then cursor_fail ''CURSOR_QUERY_MISMATCH'' 409
             else ebind (cursor_date (rp_shown (rx_repo rx)) kvs) (\<lambda>d. Inr (chosen, Some d)))"

text \<open>A query parameter that is no text: the database refuses to compare it with the column.\<close>

definition text_parameter :: "json \<Rightarrow> exn + string option" where
  "text_parameter v =
     (case v of JNull \<Rightarrow> Inr None | JStr s \<Rightarrow> Inr (Some s) | _ \<Rightarrow> Inl (DatabaseError ''operator does not exist''))"

definition state_revision :: "mapped \<Rightarrow> string" where
  "state_revision c = (case rd_manifest_sha256 (snd (snd c)) of None \<Rightarrow> [] | Some h \<Rightarrow> strip h)"

text \<open>The warnings of an answer; under a contract the qualities of its rows are checked first.\<close>

definition page_warnings :: "TotalReturnRequest \<Rightarrow> contract option \<Rightarrow> DailyRow list \<Rightarrow> read_error + json list" where
  "page_warnings q c answered =
     (case c of
        None \<Rightarrow> Inr (if tq_eligibility q = ''stored_complete'' then [JStr ''NON_ELIGIBLE_STORED_COMPLETE_DATA_MAY_BE_INCLUDED''] else [])
      | Some k \<Rightarrow>
          ebind (raised (ebind (contract_item k (upper (tq_key q))) approved_warnings)) (\<lambda>approved.
            if list_ex (\<lambda>r. dr_quality r \<notin> {''PASS'', ''WARN''}) answered
               \<or> list_ex (\<lambda>r. dr_quality r = ''WARN'') answered \<and> approved = []
            then total_return_error ''TOTAL_RETURN_CONTRACT_QUALITY_FAILED'' 503
            else Inr (approved @ [JStr ''FIXED_WINDOW_FRESHNESS_NOT_REQUIRED'', JStr ''CATALOG_ELIGIBILITY_LABEL_RETAINED_AS_METADATA''])))"

definition daily_answer ::
  "'b ReadPlatform \<Rightarrow> TotalReturnRequest \<Rightarrow> contract option \<Rightarrow> json \<Rightarrow> mapped \<Rightarrow> nat \<Rightarrow> DailyRow list \<Rightarrow> json list \<Rightarrow> TotalReturnPage" where
  "daily_answer rx q c dataset cn n rs warnings =
     (case cn of (m, i, d) \<Rightarrow>
        let revision = state_revision cn;
            page = page_of (daily_json (rx_text rx))
                     (\<lambda>r. total_return_cursor q (JStr (sm_dataset m)) revision (JStr (date_iso (dr_date r)))) (tq_limit q) rs
        in \<lparr> tp_series = \<lparr> si_mapping = m, si_instrument = ri_id i, si_key = ri_key i, si_symbol = ri_symbol i, si_category = ri_category i,
                          si_series = sm_series m, si_dataset = JStr (sm_dataset m), si_provider = JStr (rd_provider d),
                          si_name = rd_name d \<rparr>,
             tp_dataset = dataset, tp_mapping_count = n, tp_revision = revision,
             tp_freshness_required = (c = None), tp_warnings = warnings,
             tp_truncated = (tq_limit q < length rs), tp_rows = fst page,
             tp_rows_sha256 = rp_rows_sha256 (rx_repo rx) (fst page),
             tp_next = (if length revision = 64 then snd page else None) \<rparr>)"

definition daily_page ::
  "'b ReadPlatform \<Rightarrow> TotalReturnRequest \<Rightarrow> contract option \<Rightarrow> json \<Rightarrow> string \<Rightarrow> (string \<times> json) list option
    \<Rightarrow> read_error + TotalReturnPage" where
  "daily_page rx q c dataset eligibility cur =
     ebind (daily_after rx q dataset cur) (\<lambda>(chosen, after).
     ebind (raised (text_parameter chosen)) (\<lambda>parameter.
       if \<not> market_context_ok rx then total_return_error ''TOTAL_RETURN_INTEGRITY_FAILED'' 503
       else let rows = total_return_rows (rx_db rx) (tq_key q) parameter (date_of_utc (tq_start q)) (date_of_utc (tq_end q))
                         eligibility after (Suc (tq_limit q));
                n = length (candidates (rx_db rx) (tq_key q) parameter)
            in case rows of
                 [] \<Rightarrow> total_return_error ''TOTAL_RETURN_MAPPING_NOT_FOUND'' 404
               | (cn, _) # _ \<Rightarrow>
                   if 1 < n then total_return_error ''SOURCE_DATASET_REQUIRED'' 409
                   else if state_revision cn \<noteq> [] \<and> length (state_revision cn) \<noteq> 64
                   then total_return_error ''TOTAL_RETURN_INTEGRITY_FAILED'' 503
                   else if (case cur of None \<Rightarrow> False
                            | Some kvs \<Rightarrow> length (state_revision cn) \<noteq> 64 \<or> jget kvs ''state_revision'' \<noteq> JStr (state_revision cn))
                   then cursor_fail ''CURSOR_EXPIRED'' 409
                   else let rs = List.map_filter snd rows
                        in ebind (page_warnings q c (take (tq_limit q) rs)) (\<lambda>warnings.
                             Inr (daily_answer rx q c chosen cn n rs warnings))))"

subsection \<open>The payload and its route\<close>

definition usage_modes :: "string list" where
  "usage_modes = [''current_operations'', ''fixed_window_research'', ''full_history_research'']"

definition total_return_page ::
  "'b ReadPlatform \<Rightarrow> TotalReturnRequest \<Rightarrow> (string \<times> json) list option \<Rightarrow> read_error + TotalReturnPage" where
  "total_return_page rx q cur =
     (if \<not> key_ok (tq_key q) then Inl (Raised (ValueError ''instrument_key is required''))
      else if tq_end q \<le> tq_start q then Inl (Raised (ValueError ''start must be earlier than end''))
      else if (case tq_dataset q of None \<Rightarrow> False | Some s \<Rightarrow> 128 < length s) then Inl (Raised (ValueError ''source_dataset_id is too long''))
      else if tq_usage q \<notin> set usage_modes then Inl (Raised (ValueError ''usage_mode''))
      else if tq_eligibility q \<notin> {''eligible'', ''stored_complete''} then Inl (Raised (ValueError ''eligibility''))
      else if tq_usage q = ''current_operations'' then daily_page rx q None (text_json (tq_dataset q)) (tq_eligibility q) cur
      else ebind (raised (contract_for_request (rx_repo rx) (tq_contract q) (tq_key q))) (\<lambda>c.
        if jget c ''usage_mode'' \<noteq> JStr (tq_usage q) then Inl (Raised (ValueError ''usage_mode does not match research contract''))
        else if tq_usage q = ''full_history_research'' then full_history_page rx q c cur
        else ebind (raised (validate_requested_window c (date_of_utc (tq_start q)) (date_of_utc (tq_end q)))) (\<lambda>_.
             ebind (raised (required_field c ''source_dataset_id'')) (\<lambda>bound.
               if tq_dataset q \<noteq> None \<and> text_json (tq_dataset q) \<noteq> bound
               then Inl (Raised (ValueError ''source_dataset_id does not match research contract''))
               else daily_page rx q (Some c) bound ''stored_complete'' cur))))"

text \<open>The payload with its cursor encoded, and the route, which decodes the cursor of the request.\<close>

definition total_return_payload ::
  "'b ReadPlatform \<Rightarrow> codec \<Rightarrow> TotalReturnRequest \<Rightarrow> (string \<times> json) list option
    \<Rightarrow> read_error + TotalReturnPage \<times> string option" where
  "total_return_payload rx cd q cur =
     ebind (total_return_page rx q cur) (\<lambda>p. Inr (p, map_option (cursor_encode cd) (tp_next p)))"

record TotalReturnArgs =
  ta_cursor :: "string option"
  ta_key :: "string option"
  ta_start :: "string option"
  ta_end :: "string option"
  ta_dataset :: "string option"
  ta_limit :: "string option"
  ta_eligibility :: "string option"
  ta_usage :: "string option"
  ta_contract :: "string option"

definition total_return_request :: "TotalReturnArgs \<Rightarrow> exn + TotalReturnRequest" where
  "total_return_request a =
     ebind (parse_utc (arg_text (ta_start a) [])) (\<lambda>start.
     ebind (parse_utc (arg_text (ta_end a) [])) (\<lambda>till.
     ebind (parse_limit (ta_limit a) max_total_return_rows) (\<lambda>limit.
       Inr \<lparr> tq_key = arg_lower (ta_key a) [], tq_start = start, tq_end = till, tq_dataset = arg_optional (ta_dataset a),
             tq_limit = limit, tq_eligibility = arg_lower (ta_eligibility a) ''eligible'',
             tq_usage = arg_lower (ta_usage a) ''current_operations'', tq_contract = arg_optional (ta_contract a) \<rparr>)))"

definition total_return_route ::
  "'b ReadPlatform \<Rightarrow> codec \<Rightarrow> TotalReturnArgs \<Rightarrow> (TotalReturnPage \<times> string option) response" where
  "total_return_route rx cd a =
     respond (ebind (cursor_argument cd (ta_cursor a)) (\<lambda>cur.
              ebind (raised (total_return_request a)) (\<lambda>q. total_return_payload rx cd q cur)))"

definition total_return_status_route ::
  "'b ReadPlatform \<Rightarrow> string option \<Rightarrow> string option \<Rightarrow> TotalReturnStatus response" where
  "total_return_status_route rx key contract_id =
     respond (total_return_status rx (arg_lower key []) (arg_optional contract_id))"

section \<open>Reading all pages\<close>

interpretation daily: keyset_query daily_rows dr_date
  by unfold_locales (auto simp: daily_rows_def filter_sort daily_selected_def intro!: arg_cong [of _ _ "sort_key dr_date"] filter_cong)

lemma daily_rows_strict:
  assumes "daily_wf (dq_db q)"
  shows "sorted_wrt (<) (map dr_date (daily_rows q after))"
proof -
  let ?rs = "filter (daily_selected q after) (db_daily (dq_db q))"
  have "inj_on dr_date (set ?rs)"
  proof (rule inj_onI)
    fix r s assume "r \<in> set ?rs" "s \<in> set ?rs" "dr_date r = dr_date s"
    then have "daily_key r = daily_key s" "r \<in> set (db_daily (dq_db q))" "s \<in> set (db_daily (dq_db q))"
      by (auto simp: daily_selected_def daily_key_def)
    then show "r = s" using assms by (metis daily_wf_def distinct_map inj_onD)
  qed
  moreover have "distinct ?rs" using assms by (metis daily_wf_def distinct_filter distinct_map)
  ultimately have "distinct (map dr_date (daily_rows q after))" by (simp add: daily_rows_def distinct_map)
  moreover have "sorted (map dr_date (daily_rows q after))" by (simp add: daily_rows_def)
  ultimately show ?thesis by (simp add: strict_sorted_iff)
qed

lemma py_eq_request: "py_eq (request_json q (JStr d)) (request_json q (JStr d))"
  by (simp add: request_json_def same_number_def text_json_def split: option.splits)

lemma cursor_date_iso:
  assumes "year_ok d" "map_of kvs ''last_session_date'' = Some (JStr (date_iso d))"
  shows "cursor_date shown kvs = Inr d"
  using assms by (simp add: cursor_date_def required_field_def date_iso_roundtrip)

text \<open>Asking for the data set of the only candidate does not change the candidates.\<close>

lemma candidates_of_its_dataset:
  assumes "distinct (map rd_id (db_datasets db))" "candidates db key dataset = [c]"
  shows "candidates db key (Some (sm_dataset (fst c))) = [c]"
proof -
  let ?E = "eligible_mappings db key None" and ?d = "sm_dataset (fst c)"
  have sub: "eligible_mappings db key (Some x) = filter (\<lambda>e. sm_dataset (fst e) = x) ?E" for x
    by (simp add: eligible_mappings_def filter_concat comp_def if_distrib cong: if_cong)
      (intro arg_cong [of _ _ concat] map_cong refl, auto)
  have explicit: "candidates db key (Some x) = filter (\<lambda>e. sm_dataset (fst e) = x) ?E" for x
    by (simp add: candidates_def Let_def sub)
  have d: "snd (snd e) \<in> set (db_datasets db)" "rd_id (snd (snd e)) = sm_dataset (fst e)" if "e \<in> set ?E" for e
    using that by (auto simp: eligible_mappings_def)
  show ?thesis
  proof (cases dataset)
    case (Some x)
    then have "c \<in> set (filter (\<lambda>e. sm_dataset (fst e) = x) ?E)" using assms(2) explicit [of x] by simp
    then show ?thesis using assms(2) Some by auto
  next
    case None
    show ?thesis
    proof (cases "list_ex is_current ?E")
      case False
      then have "?E = [c]" using assms(2) None by (simp add: candidates_def Let_def)
      then show ?thesis by (simp add: explicit)
    next
      case True
      then have cur: "filter is_current ?E = [c]" using assms(2) None by (simp add: candidates_def Let_def)
      then have "c \<in> set (filter is_current ?E)" by simp
      then have c: "c \<in> set ?E" "is_current c" by auto
      have "is_current e" if "e \<in> set ?E" "sm_dataset (fst e) = ?d" for e
      proof -
        have "snd (snd e) = snd (snd c)"
          using d [OF that(1)] d [OF c(1)] that(2) assms(1) by (metis distinct_map inj_onD)
        then show ?thesis using c(2) by (simp add: is_current_def)
      qed
      then have "filter (\<lambda>e. sm_dataset (fst e) = ?d) ?E = filter (\<lambda>e. sm_dataset (fst e) = ?d) (filter is_current ?E)"
        by (auto intro: filter_cong)
      then show ?thesis by (simp add: explicit cur)
    qed
  qed
qed

lemma rows_of_one_candidate:
  assumes "candidates db key dataset = [c]"
  shows "total_return_rows db key dataset start till eligibility after n =
    (case take n (daily_rows (daily_query db c start till eligibility) after) of [] \<Rightarrow> [(c, None)] | rs \<Rightarrow> map (\<lambda>r. (c, Some r)) rs)"
  by (simp add: total_return_rows_def assms)

lemma map_filter_joined:
  "List.map_filter snd (case xs of [] \<Rightarrow> [(c, None)] | rs \<Rightarrow> map (\<lambda>r. (c, Some r)) rs) = xs"
proof -
  have "List.map_filter snd (map (\<lambda>r. (c, Some r)) rs) = rs" for rs :: "'a list"
    by (induction rs) (simp_all add: List.map_filter_simps)
  then show ?thesis by (cases xs) (simp_all add: List.map_filter_simps)
qed

text \<open>One page of the only candidate.\<close>

lemma daily_page_of_candidate:
  assumes "daily_after rx q dataset cur = Inr (chosen, after)" "text_parameter chosen = Inr parameter"
    and "market_context_ok rx" "candidates (rx_db rx) (tq_key q) parameter = [c]" "length (state_revision c) = 64"
    and "\<And>kvs. cur = Some kvs \<Longrightarrow> jget kvs ''state_revision'' = JStr (state_revision c)"
  shows "daily_page rx q k dataset eligibility cur =
    (let rs = daily_rows (daily_query (rx_db rx) c (date_of_utc (tq_start q)) (date_of_utc (tq_end q)) eligibility) after
     in ebind (page_warnings q k (take (tq_limit q) rs)) (\<lambda>warnings.
          Inr (daily_answer rx q k chosen c 1 (take (Suc (tq_limit q)) rs) warnings)))"
proof -
  let ?rs = "daily_rows (daily_query (rx_db rx) c (date_of_utc (tq_start q)) (date_of_utc (tq_end q)) eligibility) after"
  let ?rows = "case take (Suc (tq_limit q)) ?rs of [] \<Rightarrow> [(c, None)] | rs \<Rightarrow> map (\<lambda>r. (c, Some r)) rs"
  obtain x ys where rows: "?rows = (c, x) # ys" by (cases "take (Suc (tq_limit q)) ?rs") auto
  have filtered: "List.map_filter snd ((c, x) # ys) = take (Suc (tq_limit q)) ?rs"
    unfolding rows [symmetric] by (rule map_filter_joined)
  have "\<not> (case cur of None \<Rightarrow> False
       | Some kvs \<Rightarrow> length (state_revision c) \<noteq> 64 \<or> jget kvs ''state_revision'' \<noteq> JStr (state_revision c))"
    using assms(5,6) by (cases cur) auto
  then show ?thesis
    using assms(1-5) filtered
    by (simp add: daily_page_def rows_of_one_candidate rows Let_def min_def del: take_Suc)
qed

lemma answer_rows:
  assumes "length (state_revision c) = 64"
  shows "(tp_rows (daily_answer rx q k chosen c n (take (Suc (tq_limit q)) rs) ws),
          tp_next (daily_answer rx q k chosen c n (take (Suc (tq_limit q)) rs) ws))
    = page_of (daily_json (rx_text rx)) (\<lambda>r. total_return_cursor q (JStr (sm_dataset (fst c))) (state_revision c)
        (JStr (date_iso (dr_date r)))) (tq_limit q) rs"
  using assms by (cases c) (simp add: daily_answer_def Let_def page_of_take)

text \<open>A client of the route that repeats its request with the cursor it was given.\<close>

definition ask_again ::
  "'b ReadPlatform \<Rightarrow> codec \<Rightarrow> TotalReturnArgs \<Rightarrow> string option \<Rightarrow> (int \<times> string) + json list \<times> string option" where
  "ask_again rx cd a token =
     (case total_return_route rx cd (a\<lparr>ta_cursor := token\<rparr>) of
        Answered (p, t) \<Rightarrow> Inr (tp_rows p, t)
      | Failed status code \<Rightarrow> Inl (status, code))"

lemma request_ignores_cursor [simp]: "total_return_request (a\<lparr>ta_cursor := t\<rparr>) = total_return_request a"
  by (simp add: total_return_request_def)

lemma route_answer:
  assumes "total_return_request a = Inr q" "cursor_argument cd token = Inr cur" "total_return_page rx q cur = Inr p"
  shows "ask_again rx cd a token = Inr (tp_rows p, map_option (cursor_encode cd) (tp_next p))"
  using assms by (simp add: ask_again_def total_return_route_def total_return_payload_def respond_def)

lemma page_of_encoded:
  "(rows, nxt) = page_of f token limit rs \<Longrightarrow> (rows, map_option enc nxt) = page_of f (\<lambda>r. enc (token r)) limit rs"
  by (auto simp: page_of_def)

definition current_request_ok :: "TotalReturnRequest \<Rightarrow> bool" where
  "current_request_ok q = (key_ok (tq_key q) \<and> tq_start q < tq_end q \<and> tq_usage q = ''current_operations''
     \<and> tq_eligibility q \<in> {''eligible'', ''stored_complete''}
     \<and> (case tq_dataset q of None \<Rightarrow> True | Some s \<Rightarrow> length s \<le> 128))"

lemma current_page:
  "current_request_ok q \<Longrightarrow>
     total_return_page rx q cur = daily_page rx q None (text_json (tq_dataset q)) (tq_eligibility q) cur"
  by (auto simp: total_return_page_def current_request_ok_def usage_modes_def not_le split: option.splits)

text \<open>The query that the pages answer piece by piece.\<close>

definition wanted_rows :: "'b ReadPlatform \<Rightarrow> TotalReturnRequest \<Rightarrow> mapped \<Rightarrow> DailyRow list" where
  "wanted_rows rx q c =
     daily_rows (daily_query (rx_db rx) c (date_of_utc (tq_start q)) (date_of_utc (tq_end q)) (tq_eligibility q)) None"

text \<open>The cursor behind a row, and the answer to a request whose cursor names the last date \<open>after\<close>.\<close>

abbreviation row_cursor :: "TotalReturnRequest \<Rightarrow> mapped \<Rightarrow> DailyRow \<Rightarrow> json" where
  "row_cursor q c r \<equiv> total_return_cursor q (JStr (sm_dataset (fst c))) (state_revision c) (JStr (date_iso (dr_date r)))"

lemma current_answer:
  assumes request: "total_return_request a = Inr q" "current_request_ok q" and db: "market_context_ok rx"
    and revision: "length (state_revision c) = 64"
    and cur: "cursor_argument cd token = Inr cur" and aft: "daily_after rx q (text_json (tq_dataset q)) cur = Inr (chosen, after)"
    and par: "text_parameter chosen = Inr parameter" and cand: "candidates (rx_db rx) (tq_key q) parameter = [c]"
    and bound: "\<And>kvs. cur = Some kvs \<Longrightarrow> jget kvs ''state_revision'' = JStr (state_revision c)"
  shows "ask_again rx cd a token = Inr (page_of (daily_json (rx_text rx)) (\<lambda>r. cursor_encode cd (row_cursor q c r)) (tq_limit q)
    (daily_rows (daily_query (rx_db rx) c (date_of_utc (tq_start q)) (date_of_utc (tq_end q)) (tq_eligibility q)) after))"
proof -
  let ?rs = "daily_rows (daily_query (rx_db rx) c (date_of_utc (tq_start q)) (date_of_utc (tq_end q)) (tq_eligibility q)) after"
  let ?ws = "if tq_eligibility q = ''stored_complete'' then [JStr ''NON_ELIGIBLE_STORED_COMPLETE_DATA_MAY_BE_INCLUDED''] else []"
  have page: "total_return_page rx q cur = Inr (daily_answer rx q None chosen c 1 (take (Suc (tq_limit q)) ?rs) ?ws)"
    using daily_page_of_candidate [OF aft par db cand revision bound, where k = None and eligibility = "tq_eligibility q"]
    by (simp add: current_page [OF request(2)] page_warnings_def Let_def)
  show ?thesis
    by (simp only: route_answer [OF request(1) cur page] page_of_encoded [OF answer_rows [OF revision], where enc = "cursor_encode cd"])
qed

lemma row_cursor_argument:
  assumes "cursor_readable cd (row_cursor q c r)" "year_ok (dr_date r)"
    and "tq_dataset q = None \<or> tq_dataset q = Some (sm_dataset (fst c))"
  obtains kvs where "cursor_argument cd (Some (cursor_encode cd (row_cursor q c r))) = Inr (Some kvs)"
    "daily_after rx q (text_json (tq_dataset q)) (Some kvs) = Inr (JStr (sm_dataset (fst c)), Some (dr_date r))"
    "jget kvs ''state_revision'' = JStr (state_revision c)"
proof -
  obtain kvs where kvs: "row_cursor q c r = JObj kvs" by (simp add: total_return_cursor_def)
  have keys: "jget kvs ''version'' = JInt 1" "jget kvs ''source_dataset_id'' = JStr (sm_dataset (fst c))"
    "jget kvs ''state_revision'' = JStr (state_revision c)" "jget kvs ''kind'' = JStr ''total-return''"
    "jget kvs ''query'' = request_json q (JStr (sm_dataset (fst c)))"
    "map_of kvs ''last_session_date'' = Some (JStr (date_iso (dr_date r)))"
    using kvs by (auto simp: total_return_cursor_def jget_def)
  have "cursor_argument cd (Some (cursor_encode cd (row_cursor q c r))) = Inr (Some kvs)"
    using assms(1) keys(1) unfolding kvs by (rule readable_argument)
  moreover have "daily_after rx q (text_json (tq_dataset q)) (Some kvs) = Inr (JStr (sm_dataset (fst c)), Some (dr_date r))"
    using cursor_date_iso [OF assms(2) keys(6)] assms(3)
    by (auto simp: daily_after_def keys cursor_matches_def py_eq_request text_json_def)
  ultimately show thesis using keys(3) by (rule that)
qed

text \<open>C11: The paged total-return answers implement one query: a client that repeats its request with every cursor it
  is given gets, without an error, exactly the rows of its data set that the window and the eligibility select,
  in the order of their dates and each once, provided the data set is the only candidate and carries a state
  revision, the table keeps its keys, and the codec reads the cursors it writes.
\<close>

theorem total_return_pages_implement_query:
  assumes request: "total_return_request a = Inr q" "current_request_ok q"
    and db: "market_context_ok rx" "daily_wf (rx_db rx)" "distinct (map rd_id (db_datasets (rx_db rx)))"
    and one: "candidates (rx_db rx) (tq_key q) (tq_dataset q) = [c]" "length (state_revision c) = 64"
    and dates: "\<And>r. r \<in> set (wanted_rows rx q c) \<Longrightarrow> year_ok (dr_date r)"
    and codec: "\<And>r. r \<in> set (wanted_rows rx q c) \<Longrightarrow> cursor_readable cd
      (total_return_cursor q (JStr (sm_dataset (fst c))) (state_revision c) (JStr (date_iso (dr_date r))))"
    and enough: "length (wanted_rows rx q c) \<le> n"
  shows "follow n (ask_again rx cd a) None = Some (Inr (map (daily_json (rx_text rx)) (wanted_rows rx q c)))"
proof -
  let ?dq = "daily_query (rx_db rx) c (date_of_utc (tq_start q)) (date_of_utc (tq_end q)) (tq_eligibility q)"
  note answer = current_answer [OF request db(1) one(2)]
  have "c \<in> set (candidates (rx_db rx) (tq_key q) (tq_dataset q))" using one(1) by simp
  then have chosen: "tq_dataset q = None \<or> tq_dataset q = Some (sm_dataset (fst c))"
    by (auto simp: candidates_def eligible_mappings_def Let_def)
  have limit: "0 < tq_limit q" using request(1) parse_limit_bounds
    by (auto simp: total_return_request_def ebind_eq_Inr)
  have "follow n (ask_again rx cd a) None = Some (Inr (map (daily_json (rx_text rx)) (daily_rows ?dq None)))"
  proof (rule daily.follow_gets_all [where token = "\<lambda>r. cursor_encode cd (row_cursor q c r)" and limit = "tq_limit q"])
    show "sorted_wrt (<) (map dr_date (daily_rows ?dq None))"
      using db(2) by (intro daily_rows_strict) (simp add: daily_query_def)
    show "ask_again rx cd a None = Inr (page_of (daily_json (rx_text rx)) (\<lambda>r. cursor_encode cd (row_cursor q c r)) (tq_limit q)
        (daily_rows ?dq None))"
      by (rule answer [where cur = None and after = None and parameter = "tq_dataset q"]) (use one(1) in \<open>auto simp: cursor_argument_def arg_optional_def arg_text_def strip_def
          daily_after_def text_parameter_def text_json_def split: option.splits\<close>)
  next
    fix r assume "r \<in> set (daily_rows ?dq None)"
    then have r: "r \<in> set (wanted_rows rx q c)" by (simp add: wanted_rows_def)
    obtain kvs where arg: "cursor_argument cd (Some (cursor_encode cd (row_cursor q c r))) = Inr (Some kvs)"
      and aft: "daily_after rx q (text_json (tq_dataset q)) (Some kvs) = Inr (JStr (sm_dataset (fst c)), Some (dr_date r))"
      and rev: "jget kvs ''state_revision'' = JStr (state_revision c)"
      by (rule row_cursor_argument [OF codec [OF r] dates [OF r] chosen])
    show "ask_again rx cd a (Some (cursor_encode cd (row_cursor q c r)))
        = Inr (page_of (daily_json (rx_text rx)) (\<lambda>r. cursor_encode cd (row_cursor q c r)) (tq_limit q)
            (daily_rows ?dq (Some (dr_date r))))"
      by (rule answer [OF arg aft]) (use candidates_of_its_dataset [OF db(3) one(1)] rev in \<open>auto simp: text_parameter_def\<close>)
  qed (use limit enough in \<open>auto simp: wanted_rows_def\<close>)
  then show ?thesis by (simp add: wanted_rows_def)
qed

section \<open>What an unblocked status says\<close>

lemma blocker_Nil [simp]: "blocker b code = [] \<longleftrightarrow> \<not> b"
  by (simp add: blocker_def)

lemma count_if_0: "count_if P xs = 0 \<longleftrightarrow> (\<forall>x \<in> set xs. \<not> P x)"
  by (auto simp: count_if_def filter_empty_conv)

text \<open>The stored rows of the series of an audit row.\<close>

definition series_rows :: "research_db \<Rightarrow> AuditRow \<Rightarrow> DailyRow list" where
  "series_rows db a = filter (\<lambda>r. dr_dataset r = sm_dataset (fst (au_mapped a)) \<and> dr_ticker r = sm_series (fst (au_mapped a))) (db_daily db)"

lemma audited_row:
  assumes "audited rx key c = Inr a"
  obtains cn where "audit_rows (rx_db rx) key (jget c ''source_dataset_id'') (upper key) = [a]" "a = audit_row (rx_db rx) cn"
    "JStr (sm_dataset (fst cn)) = jget c ''source_dataset_id''" "sm_series (fst cn) = upper key" "market_context_ok rx"
proof -
  from assms have ok: "market_context_ok rx"
    and one: "audit_rows (rx_db rx) key (jget c ''source_dataset_id'') (upper key) = [a]"
    by (auto simp: audited_def ebind_eq_Inr total_return_error_def jget_def split: if_splits list.splits)
  have "a \<in> set (audit_rows (rx_db rx) key (jget c ''source_dataset_id'') (upper key))" using one by simp
  then obtain cn where cn: "a = audit_row (rx_db rx) cn"
    and "(\<lambda>(m, i, d). JStr (sm_dataset m) = jget c ''source_dataset_id'' \<and> sm_series m = upper key) cn"
    by (auto simp: audit_rows_def simp del: split_paired_Ex)
  then have "JStr (sm_dataset (fst cn)) = jget c ''source_dataset_id''" "sm_series (fst cn) = upper key" by auto
  with ok one cn show thesis by (intro that [of cn])
qed

lemma object_of_Inr: "object_of v = Inr kvs \<longleftrightarrow> v = JObj kvs"
  by (cases v) (auto simp: object_of_def)

lemma fixed_window_cases:
  assumes "fixed_window_status rx key c = Inr st"
  obtains a b1 b2 item and approved :: "json list" and evidence expected availability where
    "audited rx key c = Inr a" "identity_blockers a key c = Inr b1" "window_blockers a c = Inr b2"
    "contract_item c (upper key) = Inr item" "approved_warnings item = Inr approved" "evidence_of item = Inr evidence"
    "int_or_zero (jget evidence ''quality_warn_rows'') = Inr expected" "map_of item ''availability'' = Some availability"
    "ts_blockers st = b1 @ b2 @ blocker (au_warned a \<noteq> expected) ''PROVIDER_WARNING_COUNT_MISMATCH''
       @ blocker (au_warned a \<noteq> 0 \<and> approved = []) ''UNREVIEWED_PROVIDER_CONTENT_ANOMALY''"
    "ts_availability st = (if ts_blockers st \<noteq> [] then JStr ''BLOCKED'' else availability)"
proof -
  from assms obtain a b1 b2 item approved evidence expected availability series where
    parts: "audited rx key c = Inr a" "identity_blockers a key c = Inr b1" "window_blockers a c = Inr b2"
    "contract_item c (upper key) = Inr item" "approved_warnings item = Inr approved" "evidence_of item = Inr evidence"
    "int_or_zero (jget evidence ''quality_warn_rows'') = Inr expected" "map_of item ''availability'' = Some availability"
    and st: "st = locked_status a series (b1 @ b2 @ blocker (au_warned a \<noteq> expected) ''PROVIDER_WARNING_COUNT_MISMATCH''
       @ blocker (au_warned a \<noteq> 0 \<and> approved = []) ''UNREVIEWED_PROVIDER_CONTENT_ANOMALY'') approved availability"
    unfolding fixed_window_status_def ebind_eq_Inr raised_Inr Let_def sum.inject required_field_Inr by metis
  show thesis by (rule that [OF parts]) (simp_all add: st)
qed

lemma window_unblocked:
  assumes "window_blockers a c = Inr []"
  obtains w ids n sha where "window_of c = Inr w" "jget w ''rows_per_instrument'' = n" "py_int n = Inr (au_rows a)"
    "jget w ''first_session_date'' = date_json (au_first a)" "jget w ''last_session_date'' = date_json (au_last a)"
    "au_duplicates a = 0" "au_nonpositive a = 0" "au_failed a = 0" "au_not_evaluated a = 0" "au_missing_files a = 0" "au_foreign_files a = 0"
    "jget c ''identity'' = JObj ids" "jget ids ''normalized_csv_sha256'' = JStr sha" "file_hashes a = [sha]"
proof -
  from assms obtain w i ids n m first final sha where
    w: "window_of c = Inr w" and i: "map_of c ''identity'' = Some i" "object_of i = Inr ids"
    and n: "map_of w ''rows_per_instrument'' = Some n" "py_int n = Inr m"
    and d: "map_of w ''first_session_date'' = Some first" "map_of w ''last_session_date'' = Some final"
    and sha: "map_of ids ''normalized_csv_sha256'' = Some sha"
    and none: "au_rows a = m" "date_json (au_first a) = first" "date_json (au_last a) = final"
      "au_duplicates a = 0" "au_nonpositive a = 0" "au_failed a = 0" "au_not_evaluated a = 0" "au_missing_files a = 0" "au_foreign_files a = 0"
      "map JStr (file_hashes a) = [sha]"
    unfolding window_blockers_def ebind_eq_Inr required_field_Inr sum.inject append_is_Nil_conv blocker_Nil not_not by metis
  from none(10) obtain h where h: "file_hashes a = [h]" "sha = JStr h" by (auto simp: map_eq_Cons_conv)
  show thesis
    by (rule that [of w n ids h]) (use w i n d sha none h in \<open>simp_all add: jget_def object_of_Inr\<close>)
qed

text \<open>The mapped series, instrument and dataset are those the contract names.\<close>

definition identity_agrees :: "mapped \<Rightarrow> string \<Rightarrow> contract \<Rightarrow> (string \<times> json) list \<Rightarrow> bool" where
  "identity_agrees cn key c ids = (case cn of (m, i, d) \<Rightarrow>
     JStr (sm_dataset m) = jget c ''source_dataset_id'' \<and> sm_series m = upper key \<and> ri_key i = key
     \<and> rd_kind d = ''total_return'' \<and> rd_basis d = ''etf_total_return'' \<and> rd_horizon d = Some 1440
     \<and> jget c ''catalog_provider'' = JStr (rd_provider d)
     \<and> jget ids ''source_manifest_relative_path'' = text_json (rd_manifest_path d)
     \<and> jget ids ''source_manifest_sha256'' = JStr (case rd_manifest_sha256 d of None \<Rightarrow> [] | Some h \<Rightarrow> strip h))"

lemma identity_unblocked:
  assumes "identity_blockers a key c = Inr []" and "jget c ''identity'' = JObj ids"
    and "JStr (sm_dataset (fst (au_mapped a))) = jget c ''source_dataset_id''"
  shows "identity_agrees (au_mapped a) key c ids"
proof -
  obtain m i d where cn: "au_mapped a = (m, i, d)" by (cases "au_mapped a") auto
  have "map_of c ''identity'' = Some (JObj ids)" using assms(2) by (auto simp: jget_def split: option.splits)
  then show ?thesis using assms(1,3)
    by (auto simp: identity_blockers_def identity_agrees_def cn ebind_eq_Inr required_field_Inr object_of_Inr jget_def)
qed

lemma no_duplicates:
  assumes "au_duplicates (audit_row db cn) = 0"
  shows "distinct (map dr_date (series_rows db (audit_row db cn)))"
proof (rule card_distinct)
  have "length (remdups (map dr_date (series_rows db (audit_row db cn)))) = length (map dr_date (series_rows db (audit_row db cn)))"
    using assms by (simp add: audit_row_def Let_def series_rows_def)
  then show "card (set (map dr_date (series_rows db (audit_row db cn)))) = length (map dr_date (series_rows db (audit_row db cn)))"
    by (simp only: length_remdups_card_conv)
qed

lemma approved_codes: "approved_warnings item = Inr ws \<Longrightarrow> map_of item ''approved_warning_codes'' = Some (JArr ws)"
proof -
  assume "approved_warnings item = Inr ws"
  then obtain v where v: "map_of item ''approved_warning_codes'' = Some v" "(case v of JArr ws \<Rightarrow> Inr ws | _ \<Rightarrow> Inl TypeError) = Inr ws"
    by (simp only: approved_warnings_def ebind_eq_Inr required_field_Inr) blast
  then show ?thesis by (cases v) simp_all
qed

lemma audit_hashes:
  assumes "file_hashes (audit_row db cn) = [sha]" "r \<in> set (series_rows db (audit_row db cn))" "file_of db r = Some f"
  shows "strip (rf_sha256 f) = sha"
proof -
  have "rf_sha256 f \<in> set (au_hashes (audit_row db cn))"
    using assms(2,3) by (auto simp: audit_row_def Let_def series_rows_def List.map_filter_def intro!: image_eqI)
  then have "strip (rf_sha256 f) \<in> set (file_hashes (audit_row db cn))" by (simp add: file_hashes_def)
  then show ?thesis by (simp add: assms(1))
qed

text \<open>C14: A fixed-window series is reported unblocked only when the database holds exactly what its contract names: the
  mapped series, instrument and daily total-return dataset of the provider, with the manifest path and digest the
  contract names; as many rows as the contract counts, from its first to its last day and none twice, each with
  positive prices and quality PASS or WARN, as many warnings as the contract expects, and any of them reviewed; and
  each row taken from a registered file of the same data set whose digest is the one the contract binds.
\<close>

theorem unblocked_series_matches_contract:
  assumes "contract_for_request (rx_repo rx) contract_id key = Inr c" and "\<not> full_history c"
    and "total_return_status rx key contract_id = Inr st" and "ts_blockers st = []"
  shows "\<exists>a w ids sha item evidence. audit_rows (rx_db rx) key (jget c ''source_dataset_id'') (upper key) = [a]
    \<and> window_of c = Inr w \<and> py_int (jget w ''rows_per_instrument'') = Inr (int (length (series_rows (rx_db rx) a)))
    \<and> jget w ''first_session_date'' = date_json (au_first a) \<and> jget w ''last_session_date'' = date_json (au_last a)
    \<and> jget c ''identity'' = JObj ids \<and> identity_agrees (au_mapped a) key c ids
    \<and> jget ids ''normalized_csv_sha256'' = JStr sha
    \<and> distinct (map dr_date (series_rows (rx_db rx) a))
    \<and> (\<forall>r \<in> set (series_rows (rx_db rx) a). 0 < dr_index r \<and> 0 < dr_adjusted r \<and> dr_quality r \<notin> {''FAIL'', ''NOT_EVALUATED''}
         \<and> (\<exists>f. file_of (rx_db rx) r = Some f \<and> rf_dataset f = dr_dataset r \<and> strip (rf_sha256 f) = sha))
    \<and> contract_item c (upper key) = Inr item \<and> evidence_of item = Inr evidence
    \<and> int_or_zero (jget evidence ''quality_warn_rows'') = Inr (count_if (\<lambda>r. dr_quality r = ''WARN'') (series_rows (rx_db rx) a))
    \<and> (list_ex (\<lambda>r. dr_quality r = ''WARN'') (series_rows (rx_db rx) a) \<longrightarrow>
         (\<exists>code codes. jget item ''approved_warning_codes'' = JArr (code # codes)))
    \<and> ts_availability st = jget item ''availability''"
proof -
  have "fixed_window_status rx key c = Inr st"
    using assms by (auto simp: total_return_status_def split: if_splits)
  from fixed_window_cases [OF this] obtain a b1 b2 item and approved :: "json list" and evidence expected availability where
    a: "audited rx key c = Inr a" and b: "identity_blockers a key c = Inr b1" "window_blockers a c = Inr b2"
    and item: "contract_item c (upper key) = Inr item" and ap: "approved_warnings item = Inr approved"
    and ev: "evidence_of item = Inr evidence"
    and ex: "int_or_zero (jget evidence ''quality_warn_rows'') = Inr expected"
    and av: "map_of item ''availability'' = Some availability"
    and bl: "ts_blockers st = b1 @ b2 @ blocker (au_warned a \<noteq> expected) ''PROVIDER_WARNING_COUNT_MISMATCH''
             @ blocker (au_warned a \<noteq> 0 \<and> approved = []) ''UNREVIEWED_PROVIDER_CONTENT_ANOMALY''"
    and st: "ts_availability st = (if ts_blockers st \<noteq> [] then JStr ''BLOCKED'' else availability)" .
  from bl assms(4) have none: "b1 = []" "b2 = []" "au_warned a = expected"
    and reviewed: "au_warned a = 0 \<or> approved \<noteq> []" by auto
  from audited_row [OF a] obtain cn where one: "audit_rows (rx_db rx) key (jget c ''source_dataset_id'') (upper key) = [a]"
    and cn: "a = audit_row (rx_db rx) cn" and ds: "JStr (sm_dataset (fst cn)) = jget c ''source_dataset_id''" .
  from window_unblocked [OF b(2) [unfolded none]] obtain w ids n sha where w: "window_of c = Inr w"
      "jget w ''rows_per_instrument'' = n" "py_int n = Inr (au_rows a)"
      "jget w ''first_session_date'' = date_json (au_first a)" "jget w ''last_session_date'' = date_json (au_last a)"
    and twice: "au_duplicates a = 0"
    and zero: "au_nonpositive a = 0" "au_failed a = 0" "au_not_evaluated a = 0" "au_missing_files a = 0" "au_foreign_files a = 0"
    and ids: "jget c ''identity'' = JObj ids" "jget ids ''normalized_csv_sha256'' = JStr sha" "file_hashes a = [sha]" .
  have counts: "au_rows a = int (length (series_rows (rx_db rx) a))"
    "au_warned a = count_if (\<lambda>r. dr_quality r = ''WARN'') (series_rows (rx_db rx) a)"
    by (simp_all add: cn audit_row_def Let_def series_rows_def)
  have rows: "0 < dr_index r \<and> 0 < dr_adjusted r \<and> dr_quality r \<notin> {''FAIL'', ''NOT_EVALUATED''}
      \<and> (\<exists>f. file_of (rx_db rx) r = Some f \<and> rf_dataset f = dr_dataset r \<and> strip (rf_sha256 f) = sha)"
    if r: "r \<in> set (series_rows (rx_db rx) a)" for r
  proof -
    have "r \<in> set (filter (\<lambda>r. dr_dataset r = sm_dataset (fst cn) \<and> dr_ticker r = sm_series (fst cn)) (db_daily (rx_db rx)))"
      using r by (simp add: series_rows_def cn audit_row_def Let_def)
    with zero have "0 < dr_index r" "0 < dr_adjusted r" "dr_quality r \<notin> {''FAIL'', ''NOT_EVALUATED''}" "file_of (rx_db rx) r \<noteq> None"
      and f: "\<And>f. file_of (rx_db rx) r = Some f \<Longrightarrow> rf_dataset f = dr_dataset r"
      by (auto simp: cn audit_row_def Let_def count_if_0 not_le)
    then show ?thesis using audit_hashes [of "rx_db rx" cn sha r] ids(3) r cn by auto
  qed
  have idn: "identity_agrees (au_mapped a) key c ids"
    by (rule identity_unblocked [OF b(1) [unfolded none] ids(1)]) (use ds in \<open>simp add: cn audit_row_def Let_def\<close>)
  have dist: "distinct (map dr_date (series_rows (rx_db rx) a))" unfolding cn by (rule no_duplicates [OF twice [unfolded cn]])
  have codes: "\<exists>code codes. jget item ''approved_warning_codes'' = JArr (code # codes)"
    if "list_ex (\<lambda>r. dr_quality r = ''WARN'') (series_rows (rx_db rx) a)"
  proof -
    have "au_warned a \<noteq> 0" using that by (auto simp: counts(2) count_if_0 list_ex_iff)
    then show ?thesis using reviewed approved_codes [OF ap] by (auto simp: jget_def neq_Nil_conv)
  qed
  show ?thesis
    by (rule exI [of _ a], rule exI [of _ w], rule exI [of _ ids], rule exI [of _ sha], rule exI [of _ item], rule exI [of _ evidence])
      (intro conjI impI, use one w ids idn dist rows item ev ex none counts codes st assms(4) av in \<open>simp_all add: jget_def\<close>)
qed

end
