(* ===== verification/ReadStatus.thy ===== *)
theory ReadStatus
  imports ReadRequests
begin

text \<open>
  The status answers of \<open>market_db/read_api.py\<close>: the eligibility of one series, the revision state of the service,
  the daily closes of the low-frequency strategy and its hourly overlay, and the publication gate of the research
  candidates. The rows of the database views are arguments, each with the columns the code reads; a column that
  may be null is an option.
\<close>

section \<open>Eligibility of a series\<close>

record SeriesRow =
  se_instrument :: int
  se_key :: string
  se_symbol :: string
  se_category :: string
  se_asset_type :: string

record CoverageRow =
  cv_status :: "string option"

record FreshnessRow =
  fs_data_status :: "string option"
  fs_status :: "string option"
  fs_version :: "int option"
  fs_complete :: "utc option"
  fs_run :: "int option"

record EventRow =
  ev_id :: int
  ev_applicability :: "string option"
  ev_blocker :: "bool option"

record RunStatusRow =
  ru_status :: "string option"

record PublicationRow =
  pu_status :: "string option"
  pu_quality :: "string option"
  pu_blocker :: "string option"
  pu_manifest :: "string option"
  pu_manifest_sha256 :: "string option"
  pu_availability :: "string option"
  pu_policy :: "string option"
  pu_advertised :: "utc option"
  pu_effective :: "utc option"
  pu_limitation :: "string option"
  pu_metadata :: json

record RevisionStateRow =
  rv_status :: "string option"
  rv_availability :: "string option"
  rv_review :: "string option"
  rv_old_version :: "int option"
  rv_new_version :: "int option"
  rv_reason :: "string option"

text \<open>The nine result sets of one repeatable-read transaction, the context left out.\<close>

record SeriesResults =
  sr_identity :: "SeriesRow list"
  sr_coverage :: "CoverageRow list"
  sr_freshness :: "FreshnessRow list"
  sr_events :: "EventRow list"
  sr_runs :: "RunStatusRow list"
  sr_high :: "int option list"
  sr_publication :: "PublicationRow list"
  sr_revision :: "RevisionStateRow list"

definition first_row :: "'a list \<Rightarrow> 'a option" where
  "first_row rs = (case rs of [] \<Rightarrow> None | r # _ \<Rightarrow> Some r)"

text \<open>\<open>value or "UNKNOWN"\<close> of a text column, where the empty text counts as missing.\<close>

definition or_text :: "string option \<Rightarrow> string \<Rightarrow> string" where
  "or_text v fallback = (case v of None \<Rightarrow> fallback | Some s \<Rightarrow> if s = [] then fallback else s)"

text \<open>A stale version without a revision event stands for one from before the audit schema.\<close>

definition effective_revision :: "FreshnessRow option \<Rightarrow> RevisionStateRow option \<Rightarrow> RevisionStateRow option" where
  "effective_revision freshness revision =
     (case (revision, freshness) of
        (None, Some f) \<Rightarrow>
          if fs_data_status f = Some ''STALE_DATA_VERSION''
          then Some \<lparr> rv_status = Some ''DETECTED_LEGACY'', rv_availability = Some ''BLOCKED'', rv_review = None,
                      rv_old_version = fs_version f, rv_new_version = None,
                      rv_reason = Some ''REVISION_EVENT_PREDATES_BOUNDED_AUDIT_SCHEMA'' \<rparr>
          else None
      | _ \<Rightarrow> revision)"

definition applicability :: "EventRow \<Rightarrow> string" where
  "applicability e = upper (or_text (ev_applicability e) ''UNKNOWN'')"

definition current_blockers :: "EventRow list \<Rightarrow> EventRow list" where
  "current_blockers es = filter (\<lambda>e. applicability e \<in> {''CURRENT'', ''UNKNOWN''} \<and> ev_blocker e = Some True) es"

definition quality_status_of :: "EventRow list \<Rightarrow> PublicationRow option \<Rightarrow> string" where
  "quality_status_of blockers publication =
     (if blockers \<noteq> [] \<or> (case publication of None \<Rightarrow> False | Some p \<Rightarrow> pu_quality p = Some ''FAIL'') then ''FAIL''
      else if (case publication of None \<Rightarrow> False | Some p \<Rightarrow> pu_quality p = Some ''WARN'') then ''WARN'' else ''PASS'')"

text \<open>Reasons that block a series, component by component, and warnings that do not.\<close>

definition coverage_reasons :: "CoverageRow option \<Rightarrow> string list" where
  "coverage_reasons coverage =
     (case coverage of
        None \<Rightarrow> [''COVERAGE_COMPONENT_MISSING'']
      | Some c \<Rightarrow> let s = or_text (cv_status c) ''UNKNOWN'' in if s \<in> {''WARN'', ''PASS''} then [] else [''COVERAGE_'' @ s])"

definition coverage_warnings :: "CoverageRow option \<Rightarrow> string list" where
  "coverage_warnings coverage =
     (case coverage of None \<Rightarrow> [] | Some c \<Rightarrow> if or_text (cv_status c) ''UNKNOWN'' = ''WARN'' then [''COVERAGE_WARN''] else [])"

definition freshness_reasons :: "FreshnessRow option \<Rightarrow> string list" where
  "freshness_reasons freshness =
     (case freshness of
        None \<Rightarrow> [''FRESHNESS_COMPONENT_MISSING'']
      | Some f \<Rightarrow> (if fs_data_status f \<noteq> Some ''ACTIVE'' then [''DATA_'' @ or_text (fs_data_status f) ''UNKNOWN''] else [])
                @ (if fs_status f \<noteq> Some ''PASS'' then [''FRESHNESS_'' @ or_text (fs_status f) ''UNKNOWN''] else []))"

definition run_reasons :: "RunStatusRow option \<Rightarrow> string list" where
  "run_reasons run =
     (case run of None \<Rightarrow> [''LATEST_INGESTION_RUN_NOT_PASS'']
      | Some r \<Rightarrow> if ru_status r \<noteq> Some ''PASS'' then [''LATEST_INGESTION_RUN_NOT_PASS''] else [])"

definition publication_reasons :: "PublicationRow option \<Rightarrow> string list" where
  "publication_reasons publication =
     (case publication of
        None \<Rightarrow> []
      | Some p \<Rightarrow>
          if pu_status p \<in> {Some ''CANDIDATE'', Some ''BLOCKED''}
          then (''PUBLICATION_'' @ or_text (pu_status p) ''UNKNOWN'')
                 # (case pu_blocker p of None \<Rightarrow> [] | Some b \<Rightarrow> if b = [] then [] else [b])
          else [])"

definition policy_warnings :: "PublicationRow \<Rightarrow> exn + string list" where
  "policy_warnings p =
     (if pu_availability p \<noteq> Some ''AVAILABLE_WITH_WARNINGS'' then Inr []
      else ebind (if \<not> truthy (pu_metadata p) then Inr [] else case pu_metadata p of JObj kvs \<Rightarrow> Inr kvs | _ \<Rightarrow> Inl AttributeError)
        (\<lambda>metadata. Inr (''USER_APPROVED_RESEARCH_WARNING_POLICY''
           # (if truthy (jget metadata ''known_provider_anomaly'') then [''KNOWN_PROVIDER_ANOMALY_VALUES_UNMODIFIED'']
              else if truthy (jget metadata ''observed_quarantined_extrema'') then [''PROVIDER_EXTREMA_ANOMALIES_EXCLUDED_UNMODIFIED'']
              else [])
           @ (if pu_effective p \<noteq> pu_advertised p then [''EFFECTIVE_COVERAGE_START_LIMITATION''] else []))))"

definition publication_warnings :: "PublicationRow option \<Rightarrow> exn + string list" where
  "publication_warnings publication =
     (case publication of
        None \<Rightarrow> Inr []
      | Some p \<Rightarrow> ebind (policy_warnings p) (\<lambda>ws.
          Inr ((if pu_status p = Some ''STAGING'' then [''PUBLICATION_STAGING''] else []) @ ws)))"

definition revision_reasons :: "RevisionStateRow option \<Rightarrow> string list" where
  "revision_reasons revision =
     (case revision of
        None \<Rightarrow> []
      | Some r \<Rightarrow>
          let availability = or_text (rv_availability r) ''BLOCKED''
          in if availability \<in> {''AVAILABLE_WITH_REVISION_WARNING'', ''AVAILABLE''} then []
             else [''REVISION_'' @ or_text (rv_status r) ''UNKNOWN''])"

definition revision_warnings :: "RevisionStateRow option \<Rightarrow> string list" where
  "revision_warnings revision =
     (case revision of
        None \<Rightarrow> []
      | Some r \<Rightarrow> if or_text (rv_availability r) ''BLOCKED'' = ''AVAILABLE_WITH_REVISION_WARNING'' then [''REVISION_REVIEW_PENDING''] else [])"

text \<open>What a revision warning carries of the data that stay in use.\<close>

record AcceptedData =
  ac_version :: "int option"
  ac_complete :: "utc option"
  ac_run :: "int option"
  ac_review_pending :: bool

definition accepted_data :: "FreshnessRow option \<Rightarrow> RevisionStateRow option \<Rightarrow> AcceptedData option" where
  "accepted_data freshness revision =
     (case revision of
        None \<Rightarrow> None
      | Some r \<Rightarrow>
          if or_text (rv_availability r) ''BLOCKED'' = ''AVAILABLE_WITH_REVISION_WARNING''
          then Some \<lparr> ac_version = Option.bind freshness fs_version, ac_complete = Option.bind freshness fs_complete,
                      ac_run = Option.bind freshness fs_run, ac_review_pending = (rv_review r = Some ''PENDING_REVIEW'') \<rparr>
          else None)"

datatype coverage_assessment = CandidateGaps PublicationRow | ClassifiedGaps

definition assess_coverage :: "string \<Rightarrow> SeriesRow \<Rightarrow> CoverageRow option \<Rightarrow> PublicationRow option \<Rightarrow> coverage_assessment option" where
  "assess_coverage key s coverage publication =
     (if se_asset_type s = ''FxSpot'' \<and> (case coverage of None \<Rightarrow> False | Some c \<Rightarrow> cv_status c = Some ''WARN'')
      then (case publication of
              Some p \<Rightarrow> if or_text (pu_manifest p) [] \<noteq> [] then Some (CandidateGaps p)
                        else if lower key \<in> {''eurusd'', ''usdjpy''} then Some ClassifiedGaps else None
            | None \<Rightarrow> if lower key \<in> {''eurusd'', ''usdjpy''} then Some ClassifiedGaps else None)
      else None)"

record SeriesStatus =
  ss_series :: SeriesRow
  ss_watermark_version :: "int option"
  ss_latest_run :: "int option"
  ss_high_watermark :: int
  ss_availability :: "string option"
  ss_review :: "string option"
  ss_coverage :: "string option"
  ss_freshness :: "string option"
  ss_quality :: string
  ss_eligibility :: string
  ss_reasons :: "string list"
  ss_warnings :: "string list"
  ss_blockers :: "EventRow list"
  ss_unknown_blockers :: nat
  ss_historical :: nat
  ss_assessment :: "coverage_assessment option"
  ss_revision :: "RevisionStateRow option"
  ss_accepted :: "AcceptedData option"

definition build_status :: "string \<Rightarrow> SeriesRow \<Rightarrow> SeriesResults \<Rightarrow> string list \<Rightarrow> SeriesStatus" where
  "build_status key s rs policy =
     (let coverage = first_row (sr_coverage rs); freshness = first_row (sr_freshness rs);
          publication = first_row (sr_publication rs);
          revision = effective_revision freshness (first_row (sr_revision rs));
          blockers = current_blockers (sr_events rs);
          reasons = coverage_reasons coverage @ freshness_reasons freshness
            @ (if blockers \<noteq> [] then [''QUALITY_CURRENT_OR_UNKNOWN_BLOCKER''] else [])
            @ run_reasons (first_row (sr_runs rs)) @ publication_reasons publication @ revision_reasons revision;
          warnings = coverage_warnings coverage @ policy @ revision_warnings revision
      in \<lparr> ss_series = s, ss_watermark_version = Option.bind freshness fs_version, ss_latest_run = Option.bind freshness fs_run,
           ss_high_watermark = (case first_row (sr_high rs) of Some (Some n) \<Rightarrow> n | _ \<Rightarrow> 0),
           ss_availability = (case revision of Some r \<Rightarrow> rv_availability r
                              | None \<Rightarrow> (case publication of Some p \<Rightarrow> pu_availability p | None \<Rightarrow> Some ''AVAILABLE'')),
           ss_review = Option.bind revision rv_review,
           ss_coverage = (case coverage of None \<Rightarrow> Some ''NOT_EVALUATED'' | Some c \<Rightarrow> cv_status c),
           ss_freshness = (case freshness of None \<Rightarrow> Some ''NOT_EVALUATED'' | Some f \<Rightarrow> fs_status f),
           ss_quality = quality_status_of blockers publication,
           ss_eligibility = (if reasons \<noteq> [] then ''BLOCKED'' else if warnings \<noteq> [] then ''ELIGIBLE_WITH_WARNINGS'' else ''ELIGIBLE''),
           ss_reasons = reasons, ss_warnings = warnings, ss_blockers = blockers,
           ss_unknown_blockers = length (filter (\<lambda>e. applicability e = ''UNKNOWN'') blockers),
           ss_historical = length (filter (\<lambda>e. applicability e = ''HISTORICAL'') (sr_events rs)),
           ss_assessment = assess_coverage key s coverage publication, ss_revision = revision,
           ss_accepted = accepted_data freshness revision \<rparr>)"

definition series_status_payload :: "string \<Rightarrow> string \<Rightarrow> string \<Rightarrow> SeriesResults \<Rightarrow> exn + SeriesStatus option" where
  "series_status_payload key layer basis rs =
     (if \<not> key_ok key then Inl (ValueError ''instrument_key is required'')
      else if layer \<noteq> ''1h'' then Inl (ValueError ''layer must be 1h'')
      else if \<not> key_ok basis then Inl (ValueError ''price_basis is required'')
      else case sr_identity rs of
             [] \<Rightarrow> Inr None
           | [s] \<Rightarrow> ebind (publication_warnings (first_row (sr_publication rs))) (\<lambda>policy.
               Inr (Some (build_status key s rs policy)))
           | _ \<Rightarrow> Inl (RuntimeError ''series identity is ambiguous''))"

section \<open>Revision state of the service\<close>

record AvailabilityRow =
  av_key :: string
  av_data_status :: "string option"
  av_availability :: "string option"

definition warning_availability :: "string option list" where
  "warning_availability = [Some ''AVAILABLE_WITH_REVISION_WARNING'', Some ''AVAILABLE_WITH_WARNINGS'']"

definition degraded :: "AvailabilityRow \<Rightarrow> bool" where
  "degraded r =
     (av_availability r \<noteq> Some ''AVAILABLE'' \<and> av_availability r \<notin> set warning_availability
      \<or> av_data_status r \<noteq> Some ''ACTIVE'' \<and> av_availability r \<notin> set warning_availability)"

record ServiceStatus =
  sv_status :: string
  sv_managed :: nat
  sv_available :: nat
  sv_warning :: "AvailabilityRow list"
  sv_degraded :: "AvailabilityRow list"
  sv_all_stopped :: bool

definition revision_service_status :: "AvailabilityRow list \<Rightarrow> ServiceStatus" where
  "revision_service_status rows =
     (let bad = filter degraded rows
      in \<lparr> sv_status = (if bad = [] then ''PASS'' else if rows \<noteq> [] \<and> length bad = length rows then ''BLOCKED'' else ''PARTIALLY_DEGRADED''),
           sv_managed = length rows, sv_available = length rows - length bad,
           sv_warning = filter (\<lambda>r. av_availability r \<in> set warning_availability) rows, sv_degraded = bad,
           sv_all_stopped = (rows \<noteq> [] \<and> length bad = length rows) \<rparr>)"

section \<open>Bars and their publication\<close>

definition research_candidates :: "string list" where
  "research_candidates = [''audusd'', ''usdcad'', ''usdchf'']"

definition missing_publication :: PublicationRow where
  "missing_publication = \<lparr> pu_status = Some ''BLOCKED'', pu_quality = None, pu_blocker = Some ''BLOCKED_PUBLICATION_STATE_MISSING'',
     pu_manifest = None, pu_manifest_sha256 = None, pu_availability = None, pu_policy = None, pu_advertised = None,
     pu_effective = None, pu_limitation = None, pu_metadata = JNull \<rparr>"

text \<open>The rows the query finds for the instrument; \<open>None\<close> for an instrument that is no candidate.\<close>

definition candidate_publication_state :: "string \<Rightarrow> PublicationRow list \<Rightarrow> PublicationRow option" where
  "candidate_publication_state key rows =
     (if key \<notin> set research_candidates then None
      else case rows of [p] \<Rightarrow> Some p | _ \<Rightarrow> Some missing_publication)"

datatype layer_kind = Layer1h | Layer4h | Layer1d

definition bar_layer :: "string \<Rightarrow> layer_kind option" where
  "bar_layer s = map_of [(''1h'', Layer1h), (''4h'', Layer4h), (''1d'', Layer1d)] s"

text \<open>The bounds of the query: instants, or dates for the daily layer.\<close>

definition bar_bounds :: "layer_kind \<Rightarrow> utc \<Rightarrow> utc \<Rightarrow> int \<times> int" where
  "bar_bounds l start till = (if l = Layer1d then (date_of_utc start, date_of_utc till) else (start, till))"

definition bar_rows ::
  "(layer_kind \<Rightarrow> string \<Rightarrow> int \<times> int \<Rightarrow> nat \<Rightarrow> 'r list) \<Rightarrow> string \<Rightarrow> string \<Rightarrow> utc \<Rightarrow> utc \<Rightarrow> nat \<Rightarrow> exn + 'r list" where
  "bar_rows query key layer start till limit =
     (if \<not> key_ok key then Inl (ValueError ''instrument_key is required'')
      else case bar_layer layer of
             None \<Rightarrow> Inl (ValueError ''layer must be one of: 1h, 4h, 1d'')
           | Some l \<Rightarrow> if till \<le> start then Inl (ValueError ''start must be earlier than end'')
                       else Inr (query l key (bar_bounds l start till) (Suc limit)))"

datatype 'r bars_reply = NotPublished PublicationRow | Bars "'r list" bool

definition bars_answer ::
  "(layer_kind \<Rightarrow> string \<Rightarrow> int \<times> int \<Rightarrow> nat \<Rightarrow> 'r list) \<Rightarrow> (string \<Rightarrow> PublicationRow list)
    \<Rightarrow> string option \<Rightarrow> string option \<Rightarrow> string option \<Rightarrow> string option \<Rightarrow> string option \<Rightarrow> read_error + 'r bars_reply" where
  "bars_answer query publications key layer start till limit =
     (let k = arg_lower key []; publication = candidate_publication_state k (publications k)
      in case publication of
           Some p \<Rightarrow>
             if pu_status p \<notin> {Some ''STAGING'', Some ''PUBLISHED''} then Inr (NotPublished p)
             else raised (ebind (parse_utc (arg_text start [])) (\<lambda>s. ebind (parse_utc (arg_text till [])) (\<lambda>e.
                          ebind (parse_limit limit max_bar_rows) (\<lambda>n.
                          ebind (bar_rows query k (arg_lower layer []) s e n) (\<lambda>rs. Inr (Bars (take n rs) (n < length rs)))))))
         | None \<Rightarrow>
             raised (ebind (parse_utc (arg_text start [])) (\<lambda>s. ebind (parse_utc (arg_text till [])) (\<lambda>e.
                     ebind (parse_limit limit max_bar_rows) (\<lambda>n.
                     ebind (bar_rows query k (arg_lower layer []) s e n) (\<lambda>rs. Inr (Bars (take n rs) (n < length rs))))))))"

section \<open>Daily closes and hourly overlay of the low-frequency strategy\<close>

definition c2_daily_close_keys :: "string list" where
  "c2_daily_close_keys = [''spy'', ''iwm'', ''efa'', ''eem'', ''vnq'', ''shy'', ''ief'', ''tlt'', ''tip'', ''lqd'', ''gld'']"

record DailyCloseRow =
  dc_key :: string
  dc_latest :: "date option"
  dc_expected :: "date option"
  dc_imputed :: int
  dc_revision :: "string option"
  dc_next_expected :: "utc option"

definition close_freshness :: "DailyCloseRow \<Rightarrow> string" where
  "close_freshness r =
     (case (dc_latest r, dc_expected r) of
        (Some latest, Some expected) \<Rightarrow> if expected \<le> latest then ''PASS'' else ''STALE''
      | _ \<Rightarrow> ''NOT_EVALUATED'')"

definition close_update_status :: "DailyCloseRow \<Rightarrow> string" where
  "close_update_status r =
     (if dc_revision r = Some ''AVAILABLE_WITH_REVISION_WARNING'' then ''REVIEW_PENDING_DATA_NOT_ADVANCED''
      else if close_freshness r = ''PASS'' then ''CURRENT''
      else if close_freshness r = ''STALE'' then ''UPDATE_REQUIRED'' else ''NOT_EVALUATED'')"

definition close_availability :: "DailyCloseRow \<Rightarrow> string option" where
  "close_availability r =
     (if dc_revision r \<in> set warning_availability then dc_revision r
      else if dc_latest r \<noteq> None then Some ''AVAILABLE'' else Some ''BLOCKED_DATA_NOT_AVAILABLE'')"

record DailyCloseStatus =
  dl_status :: string
  dl_series :: nat
  dl_current :: nat
  dl_stale :: nat
  dl_missing :: nat
  dl_revision_warnings :: nat
  dl_imputation_warnings :: nat
  dl_scheduler :: string
  dl_lifecycle :: string
  dl_blockers :: "string list"
  dl_operational_warnings :: "string list"
  dl_wait :: string
  dl_next_expected :: "utc option"

text \<open>\<open>str(value or fallback)\<close> of the scheduler status, a dictionary the service reports.\<close>

definition str_or :: "(json \<Rightarrow> string) \<Rightarrow> json \<Rightarrow> string \<Rightarrow> string" where
  "str_or shown v fallback = (if truthy v then py_str shown v else fallback)"

definition scheduler_part :: "(string \<times> json) list \<Rightarrow> exn + (string \<times> json) list" where
  "scheduler_part status =
     (let v = jget status ''scheduler'' in if \<not> truthy v then Inr [] else case v of JObj kvs \<Rightarrow> Inr kvs | _ \<Rightarrow> Inl AttributeError)"

definition count_rows :: "(DailyCloseRow \<Rightarrow> bool) \<Rightarrow> DailyCloseRow list \<Rightarrow> nat" where
  "count_rows P rs = length (filter P rs)"

definition daily_close_state :: "DailyCloseRow list \<Rightarrow> string" where
  "daily_close_state rows =
     (let missing = count_rows (\<lambda>r. dc_latest r = None) rows;
          full = (length rows = length c2_daily_close_keys \<and> count_rows (\<lambda>r. close_freshness r = ''STALE'') rows = 0 \<and> missing = 0)
      in if full \<and> count_rows (\<lambda>r. 0 < dc_imputed r) rows \<noteq> 0 then ''AVAILABLE_WITH_IMPUTATION_WARNING''
         else if full then ''PASS''
         else if rows \<noteq> [] \<and> missing = 0 then ''AVAILABLE_WITH_FRESHNESS_WARNING''
         else ''BLOCKED_DATA_NOT_AVAILABLE'')"

definition c2_daily_close_status :: "(json \<Rightarrow> string) \<Rightarrow> DailyCloseRow list \<Rightarrow> (string \<times> json) list \<Rightarrow> exn + DailyCloseStatus" where
  "c2_daily_close_status shown rows scheduler =
     ebind (scheduler_part scheduler) (\<lambda>part.
       let lifecycle = str_or shown (jget scheduler ''status'') ''NOT_EVALUATED'';
           runtime = str_or shown (jget part ''service_status'') (if lifecycle = ''PASS'' then ''RUNNING'' else lifecycle);
           stale = count_rows (\<lambda>r. close_freshness r = ''STALE'') rows;
           missing = count_rows (\<lambda>r. dc_latest r = None) rows;
           revision = count_rows (\<lambda>r. dc_revision r = Some ''AVAILABLE_WITH_REVISION_WARNING'') rows;
           imputed = count_rows (\<lambda>r. 0 < dc_imputed r) rows
       in Inr \<lparr> dl_status = daily_close_state rows,
                dl_series = length rows, dl_current = count_rows (\<lambda>r. close_freshness r = ''PASS'') rows, dl_stale = stale,
                dl_missing = missing, dl_revision_warnings = revision, dl_imputation_warnings = imputed,
                dl_scheduler = runtime, dl_lifecycle = lifecycle,
                dl_blockers = (if lifecycle \<in> {''PASS'', ''NOT_EVALUATED'', ''STOPPED''} then [] else [lifecycle]),
                dl_operational_warnings = (if runtime = ''RUNNING_DEGRADED'' then [runtime] else []),
                dl_wait = (if stale = 0 \<and> missing = 0 then ''NEXT_SESSION_WAIT_NON_BLOCKING''
                           else if revision \<noteq> 0 then ''REVISION_REVIEW_PENDING'' else ''UPDATE_REQUIRED''),
                dl_next_expected = first_row (List.map_filter dc_next_expected rows) \<rparr>)"

text \<open>The rows of the overlay view are of any type; \<open>imputed\<close> reads their source kind.\<close>

record 'r OverlayAnswer =
  ov_key :: string
  ov_availability :: string
  ov_warnings :: "string list"
  ov_imputed :: nat
  ov_rows :: "'r list"
  ov_truncated :: bool

definition c2_hourly_overlay ::
  "(string \<Rightarrow> utc \<Rightarrow> utc \<Rightarrow> nat \<Rightarrow> 'r list) \<Rightarrow> ('r \<Rightarrow> bool) \<Rightarrow> string \<Rightarrow> utc \<Rightarrow> utc \<Rightarrow> nat \<Rightarrow> exn + 'r OverlayAnswer" where
  "c2_hourly_overlay query imputed key start till limit =
     (let k = lower (strip key)
      in if k \<notin> set c2_daily_close_keys \<or> till \<le> start then Inl (ValueError ''invalid C2 overlay request'')
         else let rows = query k start till (Suc limit); answered = take limit rows; n = length (filter imputed answered)
              in Inr \<lparr> ov_key = k, ov_availability = (if n \<noteq> 0 then ''AVAILABLE_WITH_IMPUTATION_WARNING'' else ''AVAILABLE''),
                       ov_warnings = (if n \<noteq> 0 then [''C2_BOUNDED_IMPUTED_PREVIOUS_VALID''] else []), ov_imputed = n,
                       ov_rows = answered, ov_truncated = (limit < length rows) \<rparr>)"

section \<open>What the answers say\<close>

lemma or_text_eq: "v \<noteq> [] \<Longrightarrow> or_text x f = v \<longleftrightarrow> x = Some v \<or> (x = None \<or> x = Some []) \<and> f = v"
  by (auto simp: or_text_def split: option.splits)

lemma coverage_reasons_Nil:
  "coverage_reasons c = [] \<longleftrightarrow> (\<exists>r. c = Some r \<and> cv_status r \<in> {Some ''PASS'', Some ''WARN''})"
  by (auto simp: coverage_reasons_def Let_def or_text_def split: option.splits if_splits)

lemma freshness_reasons_Nil:
  "freshness_reasons f = [] \<longleftrightarrow> (\<exists>r. f = Some r \<and> fs_data_status r = Some ''ACTIVE'' \<and> fs_status r = Some ''PASS'')"
  by (auto simp: freshness_reasons_def split: option.splits)

lemma run_reasons_Nil: "run_reasons x = [] \<longleftrightarrow> (\<exists>r. x = Some r \<and> ru_status r = Some ''PASS'')"
  by (auto simp: run_reasons_def split: option.splits)

lemma publication_reasons_Nil:
  "publication_reasons x = [] \<longleftrightarrow> (\<forall>p. x = Some p \<longrightarrow> pu_status p \<notin> {Some ''CANDIDATE'', Some ''BLOCKED''})"
  by (auto simp: publication_reasons_def split: option.splits)

lemma revision_reasons_Nil:
  "revision_reasons x = [] \<longleftrightarrow>
     (\<forall>r. x = Some r \<longrightarrow> rv_availability r \<in> {Some ''AVAILABLE'', Some ''AVAILABLE_WITH_REVISION_WARNING''})"
  by (auto simp: revision_reasons_def Let_def or_text_def split: option.splits if_splits)

lemma status_of_series:
  assumes "series_status_payload key layer basis rs = Inr (Some st)"
  obtains s policy where "sr_identity rs = [s]" "publication_warnings (first_row (sr_publication rs)) = Inr policy"
    "st = build_status key s rs policy"
  using assms by (auto simp: series_status_payload_def ebind_eq_Inr split: if_splits list.splits)

text \<open>C27: A series is reported eligible, with or without warnings, exactly when every component allows it: coverage
  passes or warns, the data are active and fresh, the last run passed, no open event blocks it or is of unknown
  applicability, its publication is neither a candidate nor blocked, and its revision state, where there is one,
  says the data are available.
\<close>

theorem eligible_series_have_no_blocker:
  assumes "series_status_payload key layer basis rs = Inr (Some st)"
  shows "ss_eligibility st \<noteq> ''BLOCKED'' \<longleftrightarrow>
    (\<exists>c f r. first_row (sr_coverage rs) = Some c \<and> cv_status c \<in> {Some ''PASS'', Some ''WARN''}
       \<and> first_row (sr_freshness rs) = Some f \<and> fs_data_status f = Some ''ACTIVE'' \<and> fs_status f = Some ''PASS''
       \<and> first_row (sr_runs rs) = Some r \<and> ru_status r = Some ''PASS'')
    \<and> (\<forall>e \<in> set (sr_events rs). applicability e \<in> {''CURRENT'', ''UNKNOWN''} \<longrightarrow> ev_blocker e \<noteq> Some True)
    \<and> (\<forall>p. first_row (sr_publication rs) = Some p \<longrightarrow> pu_status p \<notin> {Some ''CANDIDATE'', Some ''BLOCKED''})
    \<and> (\<forall>v. first_row (sr_revision rs) = Some v \<longrightarrow> rv_availability v \<in> {Some ''AVAILABLE'', Some ''AVAILABLE_WITH_REVISION_WARNING''})"
proof -
  from status_of_series [OF assms] obtain s policy where st: "st = build_status key s rs policy" .
  let ?f = "first_row (sr_freshness rs)" and ?v = "first_row (sr_revision rs)"
  have active: "effective_revision ?f ?v = ?v" if "freshness_reasons ?f = []"
    using that by (auto simp: effective_revision_def freshness_reasons_Nil split: option.splits)
  have blockers: "current_blockers (sr_events rs) = [] \<longleftrightarrow>
      (\<forall>e \<in> set (sr_events rs). applicability e \<in> {''CURRENT'', ''UNKNOWN''} \<longrightarrow> ev_blocker e \<noteq> Some True)"
    by (auto simp: current_blockers_def filter_empty_conv)
  have "ss_eligibility st \<noteq> ''BLOCKED'' \<longleftrightarrow>
      coverage_reasons (first_row (sr_coverage rs)) = [] \<and> freshness_reasons ?f = [] \<and> current_blockers (sr_events rs) = []
      \<and> run_reasons (first_row (sr_runs rs)) = [] \<and> publication_reasons (first_row (sr_publication rs)) = []
      \<and> revision_reasons (effective_revision ?f ?v) = []"
    by (simp add: st build_status_def Let_def)
  also have "\<dots> \<longleftrightarrow> coverage_reasons (first_row (sr_coverage rs)) = [] \<and> freshness_reasons ?f = [] \<and> current_blockers (sr_events rs) = []
      \<and> run_reasons (first_row (sr_runs rs)) = [] \<and> publication_reasons (first_row (sr_publication rs)) = []
      \<and> revision_reasons ?v = []"
    using active by auto
  finally show ?thesis
    unfolding blockers coverage_reasons_Nil freshness_reasons_Nil run_reasons_Nil publication_reasons_Nil revision_reasons_Nil
    by blast
qed

text \<open>Under the check constraint of the publication table a failed quality is always blocking.\<close>

lemma failed_quality_blocks:
  assumes "series_status_payload key layer basis rs = Inr (Some st)" and "ss_quality st = ''FAIL''"
    and "\<And>p. first_row (sr_publication rs) = Some p \<Longrightarrow> pu_quality p = Some ''FAIL'' \<Longrightarrow> pu_status p \<in> {Some ''CANDIDATE'', Some ''BLOCKED''}"
  shows "ss_eligibility st = ''BLOCKED''"
proof -
  from status_of_series [OF assms(1)] obtain s policy where st: "st = build_status key s rs policy" .
  from assms(2) have "current_blockers (sr_events rs) \<noteq> [] \<or> publication_reasons (first_row (sr_publication rs)) \<noteq> []"
    using assms(3) by (auto simp: st build_status_def Let_def quality_status_of_def publication_reasons_Nil split: if_splits option.splits)
  then show ?thesis by (auto simp: st build_status_def Let_def)
qed

lemma service_counts:
  "sv_available (revision_service_status rows) + length (sv_degraded (revision_service_status rows)) = length rows"
  by (simp add: revision_service_status_def Let_def)

lemma degraded_iff:
  "degraded r \<longleftrightarrow> \<not> (av_availability r = Some ''AVAILABLE'' \<and> av_data_status r = Some ''ACTIVE'' \<or> av_availability r \<in> set warning_availability)"
  by (auto simp: degraded_def warning_availability_def)

text \<open>An unpublished candidate gets no bars, and every answer keeps to the limit asked for.\<close>

lemma bars_are_published_and_bounded:
  assumes "bars_answer query publications key layer start till limit = Inr (Bars rs truncated)"
  shows "(arg_lower key [] \<in> set research_candidates \<longrightarrow>
           (\<exists>p. publications (arg_lower key []) = [p] \<and> pu_status p \<in> {Some ''STAGING'', Some ''PUBLISHED''}))
    \<and> (\<exists>n. parse_limit limit max_bar_rows = Inr n \<and> length rs \<le> n \<and> n \<le> max_bar_rows)"
  using assms parse_limit_bounds
  by (auto simp: bars_answer_def Let_def ebind_eq_Inr candidate_publication_state_def missing_publication_def
      split: option.splits if_splits list.splits)

lemma count_rows_0: "count_rows P rs = 0 \<longleftrightarrow> (\<forall>r \<in> set rs. \<not> P r)"
  by (auto simp: count_rows_def filter_empty_conv)

lemma daily_close_status_text:
  assumes "c2_daily_close_status shown rows scheduler = Inr st"
  shows "dl_status st = daily_close_state rows"
  using assms unfolding c2_daily_close_status_def ebind_eq_Inr Let_def sum.inject by (elim exE conjE) (drule sym, simp)

text \<open>The daily closes of the strategy pass, with or without an imputation warning, exactly when all eleven series
  have an accepted close and none is older than its expected session; the plain pass also means that no hour was
  imputed, and a freshness warning that every series has some close.
\<close>

theorem daily_closes_pass_only_when_current:
  assumes "c2_daily_close_status shown rows scheduler = Inr st"
  shows "(dl_status st \<in> {''PASS'', ''AVAILABLE_WITH_IMPUTATION_WARNING''} \<longleftrightarrow>
      length rows = 11 \<and> (\<forall>r \<in> set rows. close_freshness r \<noteq> ''STALE'' \<and> dc_latest r \<noteq> None))
    \<and> (dl_status st = ''AVAILABLE_WITH_FRESHNESS_WARNING'' \<longrightarrow> rows \<noteq> [] \<and> (\<forall>r \<in> set rows. dc_latest r \<noteq> None))
    \<and> (dl_status st = ''PASS'' \<longrightarrow> (\<forall>r \<in> set rows. dc_imputed r \<le> 0))"
proof -
  have n: "length c2_daily_close_keys = 11" by (simp add: c2_daily_close_keys_def)
  show ?thesis
    unfolding daily_close_status_text [OF assms] daily_close_state_def Let_def count_rows_0 n by (auto simp: not_less split: if_splits)
qed

end
