(* ===== verification/PageExamples.thy ===== *)
theory PageExamples
  imports ExampleRepository ReadTotalReturn ReadSnapshot ReadStatus
begin

text \<open>
  Small tables and requests of the read API, evaluated, and the witnesses of the properties of its answers.
\<close>

section \<open>Paged total-return answers\<close>

definition example_day :: "date \<Rightarrow> DailyRow" where
  "example_day d = \<lparr> dr_dataset = ''D1'', dr_ticker = ''SPY'', dr_date = d, dr_adjusted = 100, dr_index = 101, dr_volume = None,
     dr_quality = ''PASS'', dr_file = 7 \<rparr>"

definition first_day :: date where "first_day = date_of 2024 1 2"

definition example_db :: research_db where
  "example_db =
     \<lparr> db_instruments = [\<lparr> ri_id = 1, ri_key = ''spy'', ri_symbol = ''SPY:arcx'', ri_category = ''etf'', ri_active = True \<rparr>],
       db_datasets = [\<lparr> rd_id = ''D1'', rd_name = ''N'', rd_provider = ''P'', rd_kind = ''total_return'', rd_basis = ''etf_total_return'',
                        rd_horizon = Some 1440, rd_eligibility = ''x'', rd_manifest_path = Some ''manifests/m.json'',
                        rd_manifest_sha256 = Some sha64, rd_current = True \<rparr>],
       db_mappings = [\<lparr> sm_dataset = ''D1'', sm_series = ''SPY'', sm_instrument = 1, sm_kind = ''k'', sm_reason = ''r'',
                        sm_approved_at = 0, sm_approved_by = ''a'', sm_active = True \<rparr>],
       db_daily = map example_day [first_day + 2, first_day, first_day + 1],
       db_files = [\<lparr> rf_id = 7, rf_dataset = ''D1'', rf_sha256 = sha64 \<rparr>] \<rparr>"

definition example_read :: "string ReadPlatform" where
  "example_read = \<lparr> rx_repo = example_repo, rx_market_db = ''saxo_market'',
     rx_context = \<lparr> rc_database = ''saxo_market'', rc_role = ''saxo_app_reader'', rc_read_only = ''on'', rc_read_at = 0, rc_marker = [] \<rparr>,
     rx_db = example_db, rx_text = (\<lambda>v. ''101'') \<rparr>"

definition example_args :: TotalReturnArgs where
  "example_args = \<lparr> ta_cursor = None, ta_key = Some '' SPY '', ta_start = Some ''2024-01-01T00:00:00Z'',
     ta_end = Some ''2024-02-01T00:00:00Z'', ta_dataset = None, ta_limit = Some ''2'', ta_eligibility = None, ta_usage = None,
     ta_contract = None \<rparr>"

definition example_request :: TotalReturnRequest where
  "example_request = \<lparr> tq_key = ''spy'', tq_start = utc_of_date (first_day - 1), tq_end = utc_of_date (first_day + 30),
     tq_dataset = None, tq_limit = 2, tq_eligibility = ''eligible'', tq_usage = ''current_operations'', tq_contract = None \<rparr>"

definition example_mapped :: mapped where
  "example_mapped = (hd (db_mappings example_db), hd (db_instruments example_db), hd (db_datasets example_db))"

definition example_days :: "DailyRow list" where
  "example_days = map example_day [first_day, first_day + 1, first_day + 2]"

definition example_codec :: codec where
  "example_codec = codec_of (map (row_cursor example_request example_mapped) example_days)"

lemma example_request_read: "total_return_request example_args = Inr example_request"
  by code_simp

lemma example_candidate: "candidates example_db ''spy'' None = [example_mapped]"
  by code_simp

lemma example_days_wanted: "wanted_rows example_read example_request example_mapped = example_days"
  by code_simp

lemma example_db_keys: "daily_wf example_db"
  by code_simp

lemma example_facts:
  "current_request_ok example_request" "market_context_ok example_read" "distinct (map rd_id (db_datasets example_db))"
  "length (state_revision example_mapped) = 64" "list_all (\<lambda>r. year_ok (dr_date r)) example_days"
  by code_simp+

theorem total_return_pages_implement_query_witness:
  "follow 3 (ask_again example_read example_codec example_args) None
     = Some (Inr (map (daily_json (\<lambda>v. ''101'')) example_days))"
proof -
  have rx: "rx_db example_read = example_db" "rx_text example_read = (\<lambda>v. ''101'')" by (simp_all add: example_read_def)
  have q: "tq_key example_request = ''spy''" "tq_dataset example_request = None" by (simp_all add: example_request_def)
  have "length example_days = 3" by (simp add: example_days_def)
  then show ?thesis
    using total_return_pages_implement_query [OF example_request_read example_facts(1,2), where c = example_mapped and cd = example_codec and n = 3]
      example_facts(3-5) example_db_keys example_candidate codec_of_readable [of _ "map (row_cursor example_request example_mapped) example_days"]
    by (simp add: rx q example_days_wanted example_codec_def list_all_iff)
qed

section \<open>A fixed-window series\<close>

text \<open>The status of the example series: the contract of the repository is the one the tables fulfil.\<close>

definition unblocked :: "read_error + TotalReturnStatus \<Rightarrow> bool" where
  "unblocked r = (case r of Inl _ \<Rightarrow> False | Inr st \<Rightarrow> ts_blockers st = [])"

lemma example_not_full: "\<not> full_history (example_contract ''fixed_window_research'')"
  by code_simp

definition example_audit :: AuditRow where
  "example_audit = \<lparr> au_mapped = example_mapped, au_rows = 3, au_first = Some first_day, au_last = Some (first_day + 2),
     au_duplicates = 0, au_nonpositive = 0, au_failed = 0, au_not_evaluated = 0, au_warned = 0, au_file_count = 1,
     au_missing_files = 0, au_foreign_files = 0, au_hashes = [sha64] \<rparr>"

lemma example_audited: "audited example_read ''spy'' (example_contract ''fixed_window_research'') = Inr example_audit"
  by code_simp

lemma example_checks:
  "identity_blockers example_audit ''spy'' (example_contract ''fixed_window_research'') = Inr []"
  "window_blockers example_audit (example_contract ''fixed_window_research'') = Inr []"
  by code_simp+

lemma example_unblocked: "unblocked (total_return_status example_read ''spy'' None)"
proof -
  let ?c = "example_contract ''fixed_window_research''"
  have "key_ok ''spy''" "rx_repo example_read = example_repo" by (simp_all add: key_ok_def example_read_def)
  then have "total_return_status example_read ''spy'' None = fixed_window_status example_read ''spy'' ?c"
    using example_not_full by (simp add: total_return_status_def example_contract_chosen)
  moreover have "isl (public_contract ?c) = False" by code_simp
  moreover have "contract_item ?c (upper ''spy'') = Inr (manifest_object example_item)" by code_simp
  moreover have "approved_warnings (manifest_object example_item) = Inr []" "evidence_of (manifest_object example_item) = Inr []"
    "int_or_zero (jget [] ''quality_warn_rows'') = Inr 0" "required_field (manifest_object example_item) ''availability'' = Inr (JStr ''AVAILABLE'')"
    "required_field ?c ''source_dataset_id'' = Inr (JStr ''D1'')" "required_field ?c ''series_provider'' = Inr (JStr ''Q'')"
    by code_simp+
  ultimately show ?thesis
    by (cases "public_contract ?c")
      (simp_all add: fixed_window_status_def example_audited example_checks unblocked_def, simp add: example_audit_def blocker_def)
qed

theorem unblocked_series_matches_contract_witness:
  "\<exists>st a. total_return_status example_read ''spy'' None = Inr st \<and> ts_blockers st = []
     \<and> audit_rows example_db ''spy'' (jget (example_contract ''fixed_window_research'') ''source_dataset_id'') (upper ''spy'') = [a]
     \<and> ts_availability st = JStr ''AVAILABLE''"
proof -
  let ?c = "example_contract ''fixed_window_research''"
  obtain st where st: "total_return_status example_read ''spy'' None = Inr st" "ts_blockers st = []"
    using example_unblocked by (auto simp: unblocked_def split: sum.splits)
  have rx: "rx_repo example_read = example_repo" "rx_db example_read = example_db" by (simp_all add: example_read_def)
  from unblocked_series_matches_contract [of example_read None "''spy''" ?c st, unfolded rx, OF example_contract_chosen example_not_full st]
  obtain a item where a: "audit_rows example_db ''spy'' (jget ?c ''source_dataset_id'') (upper ''spy'') = [a]"
    and item: "contract_item ?c (upper ''spy'') = Inr item" and av: "ts_availability st = jget item ''availability''"
    by (elim exE conjE) rule
  have "contract_item ?c (upper ''spy'') = Inr [(''availability'', JStr ''AVAILABLE''), (''approved_warning_codes'', JArr []),
     (''source'', JObj [(''relative_path'', JStr ''data/spy.csv''), (''sha256'', JStr sha64), (''ordered_content_sha256'', JStr sha64)])]"
    by code_simp
  with item av have "ts_availability st = JStr ''AVAILABLE''" by (auto simp: jget_def)
  with st a show ?thesis by (intro exI conjI)
qed

section \<open>A frozen snapshot\<close>

definition example_hour :: "int \<Rightarrow> SnapshotBar" where
  "example_hour n = \<lparr> xb_instrument = 1, xb_horizon = 60, xb_time = utc_of_date first_day + n * hour, xb_basis = ''mid'',
     xb_open = 1, xb_high = 1, xb_low = 1, xb_close = 1, xb_volume = None, xb_complete = True, xb_quality = ''PASS'' \<rparr>"

definition example_snapshot_row :: SnapshotRow where
  "example_snapshot_row = \<lparr> xs_id = 4, xs_plan = ''plan'', xs_line = ''line'', xs_cutoff = utc_of_date (first_day + 3),
     xs_source_database = ''saxo_market'', xs_source_manifest_sha256 = sha64,
     xs_row_counts = JObj [(''curated.market_bar'', JInt 3)], xs_sha256 = sha64, xs_status = ''FROZEN'',
     xs_manifest_path = Some ''manifests/db2_research_snapshot_content.json'' \<rparr>"

definition example_frozen_instrument :: SnapshotInstrument where
  "example_frozen_instrument = \<lparr> xi_id = 1, xi_key = ''eurusd'', xi_symbol = ''EURUSD'', xi_category = ''fx'', xi_active = True \<rparr>"

definition example_frozen :: "string SnapshotPlatform" where
  "example_frozen = \<lparr> xp_repo = example_repo,
     xp_context = \<lparr> xc_database = ''saxo_research_v13'', xc_role = ''v13_research_reader'', xc_read_only = ''on'', xc_read_at = 0, xc_marker = [] \<rparr>,
     xp_market_db = ''saxo_market'',
     xp_db = \<lparr> xd_instruments = [example_frozen_instrument],
               xd_bars = [example_hour 2, example_hour 0, example_hour 1], xd_snapshots = [example_snapshot_row] \<rparr>,
     xp_text = (\<lambda>v. ''1'') \<rparr>"

definition example_bar_args :: SnapshotArgs where
  "example_bar_args = \<lparr> xa_cursor = None, xa_snapshot = 4, xa_key = Some ''EURUSD'', xa_layer = Some ''1h'', xa_basis = Some ''mid'',
     xa_start = Some ''2024-01-01T00:00:00Z'', xa_end = Some ''2024-01-03T00:00:00Z'', xa_limit = Some ''2'' \<rparr>"

definition example_bar_request :: SnapshotRequest where
  "example_bar_request = \<lparr> xq_snapshot = 4, xq_key = ''eurusd'', xq_layer = ''1h'', xq_basis = ''mid'',
     xq_start = utc_of_date (first_day - 1), xq_end = utc_of_date (first_day + 1), xq_limit = 2 \<rparr>"

definition example_bars :: "(SnapshotInstrument \<times> SnapshotBar) list" where
  "example_bars = map (\<lambda>n. (example_frozen_instrument, example_hour n)) [0, 1, 2]"

definition example_bar_codec :: codec where
  "example_bar_codec = codec_of (map (bar_cursor example_bar_request example_snapshot_row) example_bars)"

lemma example_bar_facts:
  "snapshot_request example_bar_args = Inr example_bar_request" "snapshot_request_ok example_bar_request = Inr ()"
  "snapshot_bars (xp_db example_frozen, example_bar_request) None = example_bars"
  "snapshot_wf (xp_db example_frozen)" "list_all (\<lambda>r. year_ok (date_of_utc (xb_time (snd r)))) example_bars"
  by code_simp+

lemma example_verified:
  "verified_snapshot example_frozen example_bar_request = Inr (example_snapshot_row, example_frozen_instrument, sha64)"
  by code_simp

theorem snapshot_pages_implement_query_witness:
  "follow 3 (ask_snapshot example_frozen example_bar_codec example_bar_args) None
     = Some (Inr (map (bar_json (\<lambda>v. ''1'')) example_bars))"
proof -
  have "length example_bars = 3" "xp_text example_frozen = (\<lambda>v. ''1'')" by (simp_all add: example_bars_def example_frozen_def)
  then show ?thesis
    using snapshot_pages_implement_query [OF example_bar_facts(1,2) example_verified example_bar_facts(4), where cd = example_bar_codec and n = 3]
      example_bar_facts(5) codec_of_readable [of _ "map (bar_cursor example_bar_request example_snapshot_row) example_bars"]
    by (simp add: example_bar_facts(3) example_bar_codec_def list_all_iff)
qed

definition answered_first :: "read_error + SnapshotPage \<Rightarrow> bool" where
  "answered_first r = (case r of Inl _ \<Rightarrow> False | Inr p \<Rightarrow> length (xg_answered p) = 2)"

lemma example_first_answer: "answered_first (snapshot_page example_frozen example_bar_request None)"
proof -
  have "snapshot_page example_frozen example_bar_request None
      = Inr (snapshot_answer example_frozen example_bar_request example_snapshot_row example_frozen_instrument sha64 (take 3 example_bars))"
    by (simp add: snapshot_page_def example_bar_facts example_verified snapshot_position_def) (simp add: example_bar_request_def)
  then show ?thesis
    by (simp add: answered_first_def snapshot_answer_def Let_def page_of_def example_bars_def example_bar_request_def)
qed

theorem snapshot_answers_are_verified_witness:
  "\<exists>p s path b. snapshot_page example_frozen example_bar_request None = Inr p \<and> length (xg_answered p) = 2
     \<and> snapshot_metadata (xp_db example_frozen) (xq_snapshot example_bar_request) = [s] \<and> xs_status s = ''FROZEN''
     \<and> xs_manifest_path s = Some path \<and> rp_entry example_repo path = Regular b"
proof -
  obtain p where p: "snapshot_page example_frozen example_bar_request None = Inr p" "length (xg_answered p) = 2"
    using example_first_answer by (auto simp: answered_first_def split: sum.splits)
  have rp: "xp_repo example_frozen = example_repo" by (simp add: example_frozen_def)
  from snapshot_answers_are_verified [OF p(1), unfolded rp] obtain s path b where
    "snapshot_metadata (xp_db example_frozen) (xq_snapshot example_bar_request) = [s]" "xs_status s = ''FROZEN''"
    "xs_manifest_path s = Some path" "rp_entry example_repo path = Regular b"
    by (elim exE conjE) rule
  with p show ?thesis by (intro exI conjI)
qed

section \<open>Statuses\<close>

definition example_series :: SeriesResults where
  "example_series = \<lparr>
     sr_identity = [\<lparr> se_instrument = 1, se_key = ''spy'', se_symbol = ''SPY:arcx'', se_category = ''etf'', se_asset_type = ''Etf'' \<rparr>],
     sr_coverage = [\<lparr> cv_status = Some ''PASS'' \<rparr>],
     sr_freshness = [\<lparr> fs_data_status = Some ''ACTIVE'', fs_status = Some ''PASS'', fs_version = Some 3, fs_complete = Some 0, fs_run = Some 1 \<rparr>],
     sr_events = [\<lparr> ev_id = 1, ev_applicability = Some ''historical'', ev_blocker = Some True \<rparr>],
     sr_runs = [\<lparr> ru_status = Some ''PASS'' \<rparr>], sr_high = [None], sr_publication = [], sr_revision = [] \<rparr>"

definition eligible_answer :: "exn + SeriesStatus option \<Rightarrow> bool" where
  "eligible_answer r = (case r of Inr (Some st) \<Rightarrow> ss_eligibility st = ''ELIGIBLE'' | _ \<Rightarrow> False)"

lemma example_eligible: "eligible_answer (series_status_payload ''spy'' ''1h'' ''mid'' example_series)"
  by code_simp

theorem eligible_series_have_no_blocker_witness:
  "\<exists>st c f r. series_status_payload ''spy'' ''1h'' ''mid'' example_series = Inr (Some st) \<and> ss_eligibility st = ''ELIGIBLE''
     \<and> first_row (sr_coverage example_series) = Some c \<and> cv_status c \<in> {Some ''PASS'', Some ''WARN''}
     \<and> first_row (sr_freshness example_series) = Some f \<and> fs_data_status f = Some ''ACTIVE''
     \<and> first_row (sr_runs example_series) = Some r \<and> ru_status r = Some ''PASS''"
proof -
  obtain st where st: "series_status_payload ''spy'' ''1h'' ''mid'' example_series = Inr (Some st)" "ss_eligibility st = ''ELIGIBLE''"
    using example_eligible by (auto simp: eligible_answer_def split: sum.splits option.splits)
  then have "ss_eligibility st \<noteq> ''BLOCKED''" by simp
  with eligible_series_have_no_blocker [OF st(1)] obtain c f r where
    "first_row (sr_coverage example_series) = Some c" "cv_status c \<in> {Some ''PASS'', Some ''WARN''}"
    "first_row (sr_freshness example_series) = Some f" "fs_data_status f = Some ''ACTIVE''"
    "first_row (sr_runs example_series) = Some r" "ru_status r = Some ''PASS''"
    by blast
  with st show ?thesis by (intro exI conjI)
qed

definition example_closes :: "DailyCloseRow list" where
  "example_closes = map (\<lambda>k. \<lparr> dc_key = k, dc_latest = Some first_day, dc_expected = Some first_day, dc_imputed = 0,
     dc_revision = None, dc_next_expected = None \<rparr>) c2_daily_close_keys"

definition passing_closes :: "exn + DailyCloseStatus \<Rightarrow> bool" where
  "passing_closes r = (case r of Inl _ \<Rightarrow> False | Inr st \<Rightarrow> dl_status st = ''PASS'')"

lemma example_passing: "passing_closes (c2_daily_close_status (\<lambda>v. []) example_closes [])"
  by code_simp

theorem daily_closes_pass_only_when_current_witness:
  "\<exists>st. c2_daily_close_status (\<lambda>v. []) example_closes [] = Inr st \<and> dl_status st = ''PASS'' \<and> length example_closes = 11"
proof -
  obtain st where st: "c2_daily_close_status (\<lambda>v. []) example_closes [] = Inr st" "dl_status st = ''PASS''"
    using example_passing by (auto simp: passing_closes_def split: sum.splits)
  then have "length example_closes = 11" using daily_closes_pass_only_when_current [OF st(1)] by simp
  with st show ?thesis by (intro exI conjI)
qed

end
