(* ===== verification/TotalReturnQuality.thy ===== *)
theory TotalReturnQuality
  imports PyJson "HOL-Library.List_Lexorder" "HOL-Library.Char_ord" "HOL-Library.Product_Lexorder"
begin

text \<open>
  The checks of \<open>market_db/total_return_update.py\<close>: the provider gate, the structural checks of a batch of
  total-return rows, the gate before a data set is published, and the comparison of two deliveries. A row is a
  Python dictionary whose values are dates or JSON values (decimals among them).
\<close>

section \<open>Rows\<close>

datatype cell = CDay date | CVal json

type_synonym prow = "(string \<times> cell) list"

definition required_tickers :: "string list" where
  "required_tickers = [''SPY'', ''IWM'', ''EFA'', ''EEM'', ''VNQ'']"

definition value_fields :: "string list" where
  "value_fields = [''close_unadjusted'', ''adjusted_close'', ''dividend_cash'', ''split_factor'']"

definition quality_value_fields :: "string list" where
  "quality_value_fields = [''open_unadjusted'', ''high_unadjusted'', ''low_unadjusted'', ''close_unadjusted'',
     ''adjusted_close'', ''total_return_index'']"

text \<open>\<open>str(value)\<close> and \<open>str(row.get(field, ""))\<close>.\<close>

definition cell_text :: "(json \<Rightarrow> string) \<Rightarrow> cell \<Rightarrow> string" where
  "cell_text shown c = (case c of CDay d \<Rightarrow> date_iso d | CVal v \<Rightarrow> py_str shown v)"

definition row_text :: "(json \<Rightarrow> string) \<Rightarrow> prow \<Rightarrow> string \<Rightarrow> string" where
  "row_text shown row f = (case map_of row f of None \<Rightarrow> [] | Some c \<Rightarrow> cell_text shown c)"

definition row_ticker :: "(json \<Rightarrow> string) \<Rightarrow> prow \<Rightarrow> string" where
  "row_ticker shown row = upper (row_text shown row ''ticker'')"

definition row_decimal :: "prow \<Rightarrow> string \<Rightarrow> rat option" where
  "row_decimal row f =
     (case map_of row f of
        Some (CVal v) \<Rightarrow> (case dec_of_json v of Some (Fin q) \<Rightarrow> Some q | _ \<Rightarrow> None)
      | _ \<Rightarrow> None)"

text \<open>A missing date prints as \<open>None\<close>, which is no ISO date.\<close>

definition row_date :: "(json \<Rightarrow> string) \<Rightarrow> prow \<Rightarrow> date option" where
  "row_date shown row =
     (case map_of row ''date'' of
        None \<Rightarrow> None
      | Some (CDay d) \<Rightarrow> Some d
      | Some (CVal v) \<Rightarrow> (case date_fromisoformat (py_str shown v) of Inl _ \<Rightarrow> None | Inr d \<Rightarrow> Some d))"

definition required_cell :: "(json \<Rightarrow> string) \<Rightarrow> prow \<Rightarrow> string \<Rightarrow> exn + string" where
  "required_cell shown row f = (case map_of row f of None \<Rightarrow> Inl KeyError | Some c \<Rightarrow> Inr (cell_text shown c))"

definition canonical_row :: "(json \<Rightarrow> string) \<Rightarrow> prow \<Rightarrow> exn + (string \<times> string) list" where
  "canonical_row shown row =
     ebind (required_cell shown row ''ticker'') (\<lambda>ticker.
     ebind (required_cell shown row ''date'') (\<lambda>d.
     ebind (emap (\<lambda>f. ebind (required_cell shown row f) (\<lambda>t. Inr (f, t))) value_fields) (\<lambda>vs.
     ebind (required_cell shown row ''provider_revision'') (\<lambda>r.
       Inr ([(''ticker'', upper ticker), (''date'', d)] @ vs @ [(''provider_revision'', r)])))))"

section \<open>The batch\<close>

definition flag :: "bool \<Rightarrow> string \<Rightarrow> string list" where
  "flag b code = (if b then [code] else [])"

definition above :: "rat option \<Rightarrow> bool" where
  "above v = (case v of None \<Rightarrow> False | Some q \<Rightarrow> 0 < q)"

text \<open>What is wrong with the values of the row at place \<open>i\<close>.\<close>

definition value_errors :: "(json \<Rightarrow> string) \<Rightarrow> nat \<Rightarrow> prow \<Rightarrow> string list" where
  "value_errors shown i row =
     flag (\<not> above (row_decimal row ''close_unadjusted'')) (''NONPOSITIVE_CLOSE:'' @ show_nat i)
     @ flag (\<not> above (row_decimal row ''adjusted_close'')) (''NONPOSITIVE_ADJUSTED_CLOSE:'' @ show_nat i)
     @ flag (case row_decimal row ''dividend_cash'' of None \<Rightarrow> True | Some q \<Rightarrow> q < 0) (''INVALID_DIVIDEND:'' @ show_nat i)
     @ flag (\<not> above (row_decimal row ''split_factor'')) (''INVALID_SPLIT_FACTOR:'' @ show_nat i)
     @ flag (strip (row_text shown row ''provider_revision'') = []) (''PROVIDER_REVISION_MISSING:'' @ show_nat i)
     @ flag (isl (canonical_row shown row)) (''REQUIRED_FIELD_MISSING:'' @ show_nat i)"

text \<open>The dates seen of every ticker, and the last new one.\<close>

record DateState =
  ds_seen :: "(string \<times> date) list"
  ds_previous :: "string \<rightharpoonup> date"

definition date_step :: "nat \<Rightarrow> string \<Rightarrow> date option \<Rightarrow> DateState \<Rightarrow> string list \<times> DateState" where
  "date_step i ticker d s =
     (case d of
        None \<Rightarrow> ([''INVALID_DATE:'' @ show_nat i], s)
      | Some x \<Rightarrow>
          if (ticker, x) \<in> set (ds_seen s) then ([''DUPLICATE_DATE:'' @ ticker @ '':'' @ date_iso x], s)
          else (flag (case ds_previous s ticker of None \<Rightarrow> False | Some p \<Rightarrow> x < p)
                  (''DATE_REVERSAL:'' @ ticker @ '':'' @ date_iso x),
                s\<lparr>ds_seen := (ticker, x) # ds_seen s, ds_previous := (ds_previous s)(ticker \<mapsto> x)\<rparr>))"

fun batch_errors :: "(json \<Rightarrow> string) \<Rightarrow> nat \<Rightarrow> DateState \<Rightarrow> prow list \<Rightarrow> string list" where
  "batch_errors shown i s [] = []"
| "batch_errors shown i s (row # rows) =
     (let ticker = row_ticker shown row; (es, s') = date_step i ticker (row_date shown row) s
      in flag (ticker \<notin> set required_tickers) (''UNSUPPORTED_TICKER:'' @ show_nat i) @ es
         @ value_errors shown i row @ batch_errors shown (Suc i) s' rows)"

definition start_dates :: DateState where
  "start_dates = \<lparr> ds_seen = [], ds_previous = Map.empty \<rparr>"

record BatchQuality =
  bq_pass :: bool
  bq_rows :: nat
  bq_errors :: "string list"
  bq_duplicates :: nat
  bq_sha256 :: string

text \<open>\<open>sha\<close> is the digest of the canonical JSON text of the rows that have all fields.\<close>

definition evaluate_total_return_batch ::
  "(json \<Rightarrow> string) \<Rightarrow> ((string \<times> string) list list \<Rightarrow> string) \<Rightarrow> prow list \<Rightarrow> BatchQuality" where
  "evaluate_total_return_batch shown sha rows =
     (let errors = batch_errors shown 0 start_dates rows
      in \<lparr> bq_pass = (errors = []), bq_rows = length rows, bq_errors = sort (remdups errors),
           bq_duplicates = length (filter (starts_with ''DUPLICATE_DATE:'') errors),
           bq_sha256 = sha (List.map_filter (\<lambda>row. case canonical_row shown row of Inl _ \<Rightarrow> None | Inr c \<Rightarrow> Some c) rows) \<rparr>)"

section \<open>The gate before publication\<close>

definition ohlc_errors :: "string \<Rightarrow> nat \<Rightarrow> prow \<Rightarrow> string list" where
  "ohlc_errors ticker i row =
     (case (row_decimal row ''open_unadjusted'', row_decimal row ''high_unadjusted'',
            row_decimal row ''low_unadjusted'', row_decimal row ''close_unadjusted'') of
        (Some o', Some h, Some l, Some c) \<Rightarrow>
          flag (h < max o' (max l c)) (''OHLC_HIGH_INCONSISTENT:'' @ ticker @ '':'' @ show_nat i)
          @ flag (min o' (min h c) < l) (''OHLC_LOW_INCONSISTENT:'' @ ticker @ '':'' @ show_nat i)
      | _ \<Rightarrow> [])"

definition field_error :: "string \<Rightarrow> nat \<Rightarrow> prow \<Rightarrow> string \<Rightarrow> string list" where
  "field_error ticker i row f =
     (case row_decimal row f of
        None \<Rightarrow> [''NULL_REQUIRED_VALUE:'' @ ticker @ '':'' @ f @ '':'' @ show_nat i]
      | Some q \<Rightarrow> flag (q \<le> 0) (''NONPOSITIVE_VALUE:'' @ ticker @ '':'' @ f @ '':'' @ show_nat i))"

definition research_row_errors :: "(json \<Rightarrow> string) \<Rightarrow> nat \<Rightarrow> prow \<Rightarrow> string list" where
  "research_row_errors shown i row =
     (let ticker = row_ticker shown row
      in concat (map (field_error ticker i row) quality_value_fields)
         @ flag (case row_decimal row ''volume'' of None \<Rightarrow> False | Some q \<Rightarrow> q < 0) (''NEGATIVE_VOLUME:'' @ ticker @ '':'' @ show_nat i)
         @ ohlc_errors ticker i row)"

fun join :: "string \<Rightarrow> string list \<Rightarrow> string" where
  "join sep [] = []"
| "join sep [s] = s"
| "join sep (s # ss) = s @ sep @ join sep ss"

definition dates_of :: "(json \<Rightarrow> string) \<Rightarrow> prow list \<Rightarrow> string \<Rightarrow> date list" where
  "dates_of shown rows ticker =
     List.map_filter (\<lambda>row. if row_ticker shown row = ticker then row_date shown row else None) rows"

definition missing_dates :: "date list \<Rightarrow> date list \<Rightarrow> string list" where
  "missing_dates expected found = sort (map date_iso (filter (\<lambda>d. d \<notin> set found) (remdups expected)))"

definition ticker_errors :: "date list \<Rightarrow> string \<Rightarrow> date list \<Rightarrow> string list" where
  "ticker_errors expected ticker found =
     (let missing = missing_dates expected found
      in flag (missing \<noteq> []) (''MISSING_EXPECTED_SESSION:'' @ ticker @ '':'' @ join '','' missing)
         @ flag (found = []) (''TICKER_MISSING:'' @ ticker))"

record SimQuality = BatchQuality +
  sq_missing :: nat
  sq_missing_by :: "(string \<times> string list) list"
  sq_nonpositive :: nat
  sq_latest :: "(string \<times> string option) list"

definition research_errors :: "(json \<Rightarrow> string) \<Rightarrow> prow list \<Rightarrow> date list \<Rightarrow> string list" where
  "research_errors shown rows expected =
     concat (map (\<lambda>(i, row). research_row_errors shown i row) (enumerate 0 rows))
     @ concat (map (\<lambda>t. ticker_errors expected t (dates_of shown rows t)) required_tickers)"

definition evaluate_sim_research_quality ::
  "(json \<Rightarrow> string) \<Rightarrow> ((string \<times> string) list list \<Rightarrow> string) \<Rightarrow> prow list \<Rightarrow> date list \<Rightarrow> SimQuality" where
  "evaluate_sim_research_quality shown sha rows expected =
     (let base = evaluate_total_return_batch shown sha rows;
          errors = sort (remdups (bq_errors base @ research_errors shown rows expected));
          missing = map (\<lambda>t. (t, missing_dates expected (dates_of shown rows t))) required_tickers
      in \<lparr> bq_pass = (errors = []), bq_rows = bq_rows base, bq_errors = errors, bq_duplicates = bq_duplicates base,
           bq_sha256 = bq_sha256 base,
           sq_missing = sum_list (map (length \<circ> snd) missing), sq_missing_by = missing,
           sq_nonpositive = length (filter (\<lambda>e. starts_with ''NULL_REQUIRED_VALUE:'' e \<or> starts_with ''NONPOSITIVE_VALUE:'' e) errors),
           sq_latest = map (\<lambda>t. let ds = dates_of shown rows t
                                in (t, if ds = [] then None else Some (date_iso (Max (set ds))))) required_tickers \<rparr>)"

section \<open>Revisions and the provider\<close>

definition indexed :: "(json \<Rightarrow> string) \<Rightarrow> prow list \<Rightarrow> exn + ((string \<times> string) \<times> (string \<times> string) list) list" where
  "indexed shown rows =
     emap (\<lambda>row. ebind (required_cell shown row ''ticker'') (\<lambda>t. ebind (required_cell shown row ''date'') (\<lambda>d.
             ebind (canonical_row shown row) (\<lambda>c. Inr ((upper t, d), c))))) rows"

text \<open>A later row of the same key replaces an earlier one.\<close>

definition revision_keys :: "(json \<Rightarrow> string) \<Rightarrow> prow list \<Rightarrow> prow list \<Rightarrow> exn + string list" where
  "revision_keys shown before after =
     ebind (indexed shown before) (\<lambda>b. ebind (indexed shown after) (\<lambda>a.
       Inr (map (\<lambda>(t, d). t @ '':'' @ d)
         (filter (\<lambda>k. map_of (rev b) k \<noteq> map_of (rev a) k)
           (sort (filter (\<lambda>k. k \<in> set (map fst a)) (remdups (map fst b))))))))"

datatype gate = ReadySim string | Ready string | NotConfigured "json list"

definition research_eligibility :: string where "research_eligibility = ''SIM_RESEARCH_ONLY''"

text \<open>\<open>list(value)\<close> of a JSON value.\<close>

definition list_of :: "json \<Rightarrow> exn + json list" where
  "list_of v = (case v of JArr xs \<Rightarrow> Inr xs | JStr s \<Rightarrow> Inr (map (\<lambda>c. JStr [c]) s) | JObj kvs \<Rightarrow> Inr (map (JStr \<circ> fst) kvs)
     | _ \<Rightarrow> Inl TypeError)"

definition get_or :: "(string \<times> json) list \<Rightarrow> string \<Rightarrow> json \<Rightarrow> json" where
  "get_or kvs k fallback = (case map_of kvs k of None \<Rightarrow> fallback | Some v \<Rightarrow> v)"

definition mapping_of :: "json \<Rightarrow> exn + (string \<times> json) list" where
  "mapping_of v = (case v of JObj kvs \<Rightarrow> Inr kvs | _ \<Rightarrow> Inl AttributeError)"

definition provider_gate :: "json \<Rightarrow> exn + gate" where
  "provider_gate profile =
     ebind (mapping_of profile) (\<lambda>p.
     ebind (mapping_of (get_or p ''total_return'' (JObj []))) (\<lambda>c.
       case jget c ''provider'' of
         JStr name \<Rightarrow>
           if jget c ''status'' = JStr ''READY_SIM_RESEARCH_ONLY'' \<and> jget c ''scheduled'' = JBool False \<and> strip name \<noteq> []
              \<and> jget c ''research_eligibility'' = JStr research_eligibility then Inr (ReadySim name)
           else if jget c ''status'' = JStr ''READY'' \<and> jget c ''scheduled'' = JBool True \<and> strip name \<noteq> [] then Inr (Ready name)
           else ebind (list_of (get_or c ''required_provider_contract'' (JArr []))) (\<lambda>xs. Inr (NotConfigured xs))
       | _ \<Rightarrow> ebind (list_of (get_or c ''required_provider_contract'' (JArr []))) (\<lambda>xs. Inr (NotConfigured xs))))"

text \<open>The error domain of a provider failure.\<close>

definition classify_provider_error :: "int option \<Rightarrow> string" where
  "classify_provider_error http_status =
     (if http_status \<in> {Some 401, Some 403} then ''interface_auth'' else ''interface_operational'')"

section \<open>What the gate lets through\<close>

lemma flag_Nil [simp]: "flag b code = [] \<longleftrightarrow> \<not> b"
  by (simp add: flag_def)

definition values_fit :: "(json \<Rightarrow> string) \<Rightarrow> prow \<Rightarrow> bool" where
  "values_fit shown row =
     (above (row_decimal row ''close_unadjusted'') \<and> above (row_decimal row ''adjusted_close'')
      \<and> (\<exists>q. row_decimal row ''dividend_cash'' = Some q \<and> 0 \<le> q) \<and> above (row_decimal row ''split_factor'')
      \<and> strip (row_text shown row ''provider_revision'') \<noteq> [] \<and> \<not> isl (canonical_row shown row))"

lemma value_errors_Nil: "value_errors shown i row = [] \<longleftrightarrow> values_fit shown row"
  by (auto simp: value_errors_def values_fit_def not_less split: option.splits)

text \<open>The last new date of a ticker is the latest one seen, as long as there was no reversal.\<close>

definition dates_inv :: "DateState \<Rightarrow> bool" where
  "dates_inv s \<longleftrightarrow> (\<forall>t x. (t, x) \<in> set (ds_seen s) \<longrightarrow> (\<exists>p. ds_previous s t = Some p \<and> x \<le> p))
     \<and> (\<forall>t p. ds_previous s t = Some p \<longrightarrow> (t, p) \<in> set (ds_seen s))"

definition later_than :: "date option \<Rightarrow> date \<Rightarrow> bool" where
  "later_than p x = (case p of None \<Rightarrow> True | Some q \<Rightarrow> q < x)"

lemma date_step_Nil:
  assumes "dates_inv s"
  shows "fst (date_step i t d s) = [] \<longleftrightarrow> (\<exists>x. d = Some x \<and> later_than (ds_previous s t) x)"
proof -
  have "(t, x) \<in> set (ds_seen s) \<or> (\<exists>p. ds_previous s t = Some p \<and> x < p) \<longleftrightarrow> \<not> later_than (ds_previous s t) x" for x
    using assms by (fastforce simp: dates_inv_def later_than_def split: option.splits)
  then have "fst (date_step i t (Some x) s) = [] \<longleftrightarrow> later_than (ds_previous s t) x" for x
    by (cases "ds_previous s t") (auto simp: date_step_def)
  then show ?thesis by (cases d) (simp_all add: date_step_def)
qed

lemma date_step_inv:
  assumes "dates_inv s" "later_than (ds_previous s t) x"
  shows "dates_inv (snd (date_step i t (Some x) s))" "ds_previous (snd (date_step i t (Some x) s)) = (ds_previous s)(t \<mapsto> x)"
proof -
  have new: "(t, x) \<notin> set (ds_seen s)" and above: "\<And>y. (t, y) \<in> set (ds_seen s) \<Longrightarrow> y \<le> x"
    using assms by (fastforce simp: dates_inv_def later_than_def split: option.splits)+
  then have s': "snd (date_step i t (Some x) s) = s\<lparr>ds_seen := (t, x) # ds_seen s, ds_previous := (ds_previous s)(t \<mapsto> x)\<rparr>"
    by (simp add: date_step_def)
  then show "ds_previous (snd (date_step i t (Some x) s)) = (ds_previous s)(t \<mapsto> x)" by simp
  show "dates_inv (snd (date_step i t (Some x) s))"
    unfolding s' using assms(1) above by (auto simp: dates_inv_def)
qed

definition ascending :: "date option \<Rightarrow> date list \<Rightarrow> bool" where
  "ascending p ds = (list_all (later_than p) ds \<and> sorted_wrt (<) ds)"

lemma ascending_Cons: "ascending p (x # ds) \<longleftrightarrow> later_than p x \<and> ascending (Some x) ds"
  by (auto simp: ascending_def later_than_def list_all_iff split: option.splits)

definition base_fit :: "(json \<Rightarrow> string) \<Rightarrow> prow \<Rightarrow> bool" where
  "base_fit shown row = (row_ticker shown row \<in> set required_tickers \<and> row_date shown row \<noteq> None \<and> values_fit shown row)"

lemma batch_errors_Nil:
  "dates_inv s \<Longrightarrow> batch_errors shown i s rows = [] \<longleftrightarrow>
     list_all (base_fit shown) rows \<and> (\<forall>t. ascending (ds_previous s t) (dates_of shown rows t))"
proof (induction rows arbitrary: i s)
  case Nil
  then show ?case by (simp add: dates_of_def ascending_def List.map_filter_simps)
next
  case (Cons row rows)
  let ?t = "row_ticker shown row"
  show ?case
  proof (cases "\<exists>x. row_date shown row = Some x \<and> later_than (ds_previous s ?t) x")
    case False
    then have "fst (date_step i ?t (row_date shown row) s) \<noteq> []" by (simp add: date_step_Nil [OF Cons.prems])
    then have bad: "batch_errors shown i s (row # rows) \<noteq> []" by (simp add: Let_def case_prod_unfold)
    have "\<not> (base_fit shown row \<and> ascending (ds_previous s ?t) (dates_of shown (row # rows) ?t))"
      using False by (auto simp: base_fit_def dates_of_def List.map_filter_simps ascending_Cons split: option.splits)
    then show ?thesis using bad by auto
  next
    case True
    then obtain x where x: "row_date shown row = Some x" "later_than (ds_previous s ?t) x" by blast
    let ?s = "snd (date_step i ?t (Some x) s)"
    have none: "fst (date_step i ?t (Some x) s) = []" using x(2) by (simp add: date_step_Nil [OF Cons.prems])
    note s' = date_step_inv [OF Cons.prems x(2), of i]
    have ds: "dates_of shown (row # rows) t = (if t = ?t then x # dates_of shown rows t else dates_of shown rows t)" for t
      using x(1) by (simp add: dates_of_def List.map_filter_simps)
    have "(\<forall>t. ascending (ds_previous s t) (dates_of shown (row # rows) t)) \<longleftrightarrow> (\<forall>t. ascending (ds_previous ?s t) (dates_of shown rows t))"
      using x(2) by (simp add: ds s'(2) ascending_Cons)
    moreover have "batch_errors shown i s (row # rows) = [] \<longleftrightarrow>
        ?t \<in> set required_tickers \<and> values_fit shown row \<and> batch_errors shown (Suc i) ?s rows = []"
      using none x(1) by (simp add: Let_def case_prod_unfold value_errors_Nil)
    ultimately show ?thesis using Cons.IH [OF s'(1)] x(1) by (auto simp: base_fit_def)
  qed
qed

definition research_fit :: "prow \<Rightarrow> bool" where
  "research_fit row =
     (list_all (\<lambda>f. above (row_decimal row f)) quality_value_fields
      \<and> (case row_decimal row ''volume'' of None \<Rightarrow> True | Some q \<Rightarrow> 0 \<le> q)
      \<and> (case (row_decimal row ''open_unadjusted'', row_decimal row ''high_unadjusted'',
               row_decimal row ''low_unadjusted'', row_decimal row ''close_unadjusted'') of
           (Some o', Some h, Some l, Some c) \<Rightarrow> max o' c \<le> h \<and> l \<le> min o' c \<and> l \<le> h
         | _ \<Rightarrow> True))"

lemma field_error_Nil: "field_error ticker i row f = [] \<longleftrightarrow> above (row_decimal row f)"
  by (auto simp: field_error_def above_def split: option.splits)

lemma research_row_Nil: "research_row_errors shown i row = [] \<longleftrightarrow> research_fit row"
proof -
  have "concat (map (field_error t i row) quality_value_fields) = [] \<longleftrightarrow> list_all (\<lambda>f. above (row_decimal row f)) quality_value_fields" for t
    by (simp add: field_error_Nil list_all_iff)
  moreover have "ohlc_errors t i row = [] \<longleftrightarrow>
      (case (row_decimal row ''open_unadjusted'', row_decimal row ''high_unadjusted'',
               row_decimal row ''low_unadjusted'', row_decimal row ''close_unadjusted'') of
           (Some o', Some h, Some l, Some c) \<Rightarrow> max o' c \<le> h \<and> l \<le> min o' c \<and> l \<le> h
         | _ \<Rightarrow> True)" for t
    by (auto simp: ohlc_errors_def not_less split: option.splits)
  ultimately show ?thesis
    by (simp add: research_row_errors_def Let_def research_fit_def not_less split: option.splits)
qed

lemma missing_dates_Nil: "missing_dates expected found = [] \<longleftrightarrow> set expected \<subseteq> set found"
  by (auto simp: missing_dates_def filter_empty_conv simp flip: set_empty)

lemma ticker_errors_Nil: "ticker_errors expected t found = [] \<longleftrightarrow> set expected \<subseteq> set found \<and> found \<noteq> []"
  by (auto simp: ticker_errors_def Let_def missing_dates_Nil)

lemma sorted_errors_Nil: "sort (remdups es) = [] \<longleftrightarrow> es = []"
  by (metis remdups_eq_nil_iff set_empty set_sort)

text \<open>C28: The gate before publication passes exactly when every row is of a required ticker, with a date, all fields
  present, positive prices in the order of a bar, no negative volume or dividend and a positive split, and every
  required ticker has dates that strictly ascend and take in all expected sessions.
\<close>

theorem sim_quality_gate:
  "bq_pass (evaluate_sim_research_quality shown sha rows expected) \<longleftrightarrow>
     list_all (\<lambda>row. base_fit shown row \<and> research_fit row) rows
     \<and> list_all (\<lambda>t. sorted_wrt (<) (dates_of shown rows t) \<and> dates_of shown rows t \<noteq> []
         \<and> set expected \<subseteq> set (dates_of shown rows t)) required_tickers"
proof -
  have "dates_inv start_dates" by (simp add: dates_inv_def start_dates_def)
  then have base: "bq_errors (evaluate_total_return_batch shown sha rows) = [] \<longleftrightarrow>
      list_all (base_fit shown) rows \<and> (\<forall>t. sorted_wrt (<) (dates_of shown rows t))"
    by (simp add: evaluate_total_return_batch_def Let_def sorted_errors_Nil batch_errors_Nil)
      (simp add: start_dates_def ascending_def later_than_def list_all_iff)
  have others: "dates_of shown rows t = []" if "list_all (base_fit shown) rows" "t \<notin> set required_tickers" for t
    using that by (induction rows) (auto simp: dates_of_def List.map_filter_simps base_fit_def)
  have research: "research_errors shown rows expected = [] \<longleftrightarrow>
      list_all research_fit rows \<and> list_all (\<lambda>t. set expected \<subseteq> set (dates_of shown rows t) \<and> dates_of shown rows t \<noteq> []) required_tickers"
  proof -
    have "concat (map (\<lambda>(i, row). research_row_errors shown i row) (enumerate n rows)) = [] \<longleftrightarrow> list_all research_fit rows" for n
      by (induction rows arbitrary: n) (simp_all add: research_row_Nil)
    moreover have "concat (map (\<lambda>t. ticker_errors expected t (dates_of shown rows t)) ts) = [] \<longleftrightarrow>
        list_all (\<lambda>t. set expected \<subseteq> set (dates_of shown rows t) \<and> dates_of shown rows t \<noteq> []) ts" for ts
      by (induction ts) (simp_all add: ticker_errors_Nil)
    ultimately show ?thesis unfolding research_errors_def append_is_Nil_conv by simp
  qed
  have pass: "bq_pass (evaluate_sim_research_quality shown sha rows expected) \<longleftrightarrow>
      bq_errors (evaluate_total_return_batch shown sha rows) = [] \<and> research_errors shown rows expected = []"
    unfolding evaluate_sim_research_quality_def Let_def by (simp add: sorted_errors_Nil)
  show ?thesis
    unfolding pass base research using others by (fastforce simp: list_all_iff)
qed

end
