(* ===== verification/TotalReturnUpdate.thy ===== *)
theory TotalReturnUpdate
  imports TotalReturnQuality PyValues
begin

text \<open>
  The acquisition of \<open>market_db/total_return_update.py\<close>: one answer of the chart endpoint as rows, and the fetch
  with its retries. The bytes, their JSON text (decimals as \<open>Decimal\<close>), their digest and the exchange date of a
  timestamp are parameters.
\<close>

section \<open>Errors\<close>

text \<open>The errors of the module, exceptions that escape it, and the signals of decimal arithmetic by their names.\<close>

datatype update_error = UpdateError string "int option" | Escaped exn | Signalled string

definition update_fail :: "string \<Rightarrow> update_error + 'a" where
  "update_fail code = Inl (UpdateError code None)"

definition escaping :: "exn + 'a \<Rightarrow> update_error + 'a" where
  "escaping r = map_sum Escaped id r"

lemma escaping_Inr [simp]: "escaping r = Inr v \<longleftrightarrow> r = Inr v"
  by (cases r) (auto simp: escaping_def)

lemma escaping_simps [simp]: "escaping (Inr v) = Inr v" "escaping (Inl e) = Inl (Escaped e)"
  by (simp_all add: escaping_def)

lemma update_fail_Inr [simp]: "update_fail code \<noteq> Inr v"
  by (simp add: update_fail_def)

section \<open>Subscripts of a JSON value\<close>

definition subscript :: "json \<Rightarrow> string \<Rightarrow> exn + json" where
  "subscript v k = (case v of JObj kvs \<Rightarrow> required_field kvs k | _ \<Rightarrow> Inl TypeError)"

text \<open>\<open>value[n]\<close>; a dictionary of a JSON text has no numbers as keys.\<close>

definition at_index :: "json \<Rightarrow> nat \<Rightarrow> exn + json" where
  "at_index v n =
     (case v of JArr xs \<Rightarrow> if n < length xs then Inr (xs ! n) else Inl IndexError
      | JStr s \<Rightarrow> if n < length s then Inr (JStr [s ! n]) else Inl IndexError
      | JObj kvs \<Rightarrow> Inl KeyError | _ \<Rightarrow> Inl TypeError)"

definition py_len :: "json \<Rightarrow> exn + nat" where
  "py_len v = (case v of JArr xs \<Rightarrow> Inr (length xs) | JStr s \<Rightarrow> Inr (length s) | JObj kvs \<Rightarrow> Inr (length kvs) | _ \<Rightarrow> Inl TypeError)"

section \<open>One answer\<close>

text \<open>The exchange date of a Unix timestamp, and the decimals of event amounts.\<close>

type_synonym exchange = "int \<Rightarrow> exn + date"

definition as_decimal :: "json \<Rightarrow> update_error + decimal" where
  "as_decimal v = (case dec_of_json v of None \<Rightarrow> Inl (Signalled ''INVALIDOPERATION'') | Some d \<Rightarrow> Inr d)"

fun decimal_add :: "decimal \<Rightarrow> decimal \<Rightarrow> update_error + decimal" where
  "decimal_add (Fin a) (Fin b) = Inr (Fin (dec_add a b))"
| "decimal_add NaN _ = Inr NaN"
| "decimal_add _ NaN = Inr NaN"
| "decimal_add (Infinite s) (Infinite t) = (if s = t then Inr (Infinite s) else Inl (Signalled ''INVALIDOPERATION''))"
| "decimal_add (Infinite s) (Fin _) = Inr (Infinite s)"
| "decimal_add (Fin _) (Infinite s) = Inr (Infinite s)"

text \<open>\<open>a / first * 100\<close> for a positive \<open>first\<close>.\<close>

fun index_value :: "decimal \<Rightarrow> decimal \<Rightarrow> update_error + decimal" where
  "index_value (Fin a) (Fin f) = Inr (Fin (ctx_round (dec_div a f * 100)))"
| "index_value NaN _ = Inr NaN"
| "index_value _ NaN = Inr NaN"
| "index_value (Infinite s) (Fin f) = Inr (Infinite s)"
| "index_value (Fin a) (Infinite _) = Inr (Fin 0)"
| "index_value (Infinite _) (Infinite _) = Inl (Signalled ''INVALIDOPERATION'')"

text \<open>\<open>d <= 0\<close>; comparing a NaN signals.\<close>

fun decimal_nonpositive :: "decimal \<Rightarrow> update_error + bool" where
  "decimal_nonpositive (Fin q) = Inr (q \<le> 0)"
| "decimal_nonpositive (Infinite negative) = Inr negative"
| "decimal_nonpositive NaN = Inl (Signalled ''INVALIDOPERATION'')"

fun split_once :: "char \<Rightarrow> string \<Rightarrow> (string \<times> string) option" where
  "split_once c [] = None"
| "split_once c (x # s) = (if x = c then Some ([], s) else map_option (\<lambda>(a, b). (x # a, b)) (split_once c s))"

text \<open>A quotient that the split factor can be: \<open>None\<close> for a signal, which the code catches.\<close>

fun positive_quotient :: "decimal option \<Rightarrow> decimal option \<Rightarrow> decimal option" where
  "positive_quotient (Some (Fin a)) (Some (Fin b)) = (if b = 0 then None else Some (Fin (dec_div a b)))"
| "positive_quotient (Some (Infinite s)) (Some (Fin b)) = Some (Infinite (s \<noteq> (b < 0)))"
| "positive_quotient (Some (Fin a)) (Some (Infinite s)) = Some (Fin 0)"
| "positive_quotient _ _ = None"

definition is_positive :: "decimal \<Rightarrow> bool" where
  "is_positive d = (case d of Fin q \<Rightarrow> 0 < q | Infinite negative \<Rightarrow> \<not> negative | NaN \<Rightarrow> False)"

definition ratio_factor :: "string \<Rightarrow> decimal" where
  "ratio_factor ratio =
     (case split_once (CHR '':'') ratio of
        None \<Rightarrow> Fin 0
      | Some (a, b) \<Rightarrow>
          (case positive_quotient (dec_of_text a) (dec_of_text b) of
             Some d \<Rightarrow> if is_positive d then d else Fin 0 | None \<Rightarrow> Fin 0))"

definition split_factor :: "(json \<Rightarrow> string) \<Rightarrow> (string \<times> json) list \<Rightarrow> decimal" where
  "split_factor shown event =
     (if event = [] then Fin 1
      else let n = jget event ''numerator''; d = jget event ''denominator''; ratio = py_str shown (get_or event ''splitRatio'' (JStr []))
           in if n \<noteq> JNull \<and> d \<noteq> JNull
              then (case positive_quotient (dec_of_json n) (dec_of_json d) of
                      None \<Rightarrow> Fin 0
                    | Some q \<Rightarrow> if is_positive q then q else ratio_factor ratio)
              else ratio_factor ratio)"

record YahooParts =
  yp_result :: "(string \<times> json) list"
  yp_meta :: json
  yp_times :: json
  yp_quote :: json
  yp_adjusted :: json

text \<open>\<open>except (IndexError, KeyError, TypeError, JSONDecodeError)\<close>.\<close>

definition invalid_response :: "update_error + 'a \<Rightarrow> update_error + 'a" where
  "invalid_response r =
     (case r of Inl (Escaped IndexError) \<Rightarrow> update_fail ''YAHOO_RESPONSE_INVALID''
      | Inl (Escaped KeyError) \<Rightarrow> update_fail ''YAHOO_RESPONSE_INVALID''
      | Inl (Escaped TypeError) \<Rightarrow> update_fail ''YAHOO_RESPONSE_INVALID'' | _ \<Rightarrow> r)"

definition yahoo_parts :: "json option \<Rightarrow> update_error + YahooParts" where
  "yahoo_parts document =
     (case document of
        None \<Rightarrow> update_fail ''YAHOO_RESPONSE_INVALID''
      | Some v \<Rightarrow> invalid_response (
          ebind (escaping (ebind (subscript v ''chart'') mapping_of)) (\<lambda>chart.
          if jget chart ''error'' \<noteq> JNull then update_fail ''YAHOO_RESPONSE_ERROR''
          else escaping (
            ebind (ebind (required_field chart ''result'') (\<lambda>r. at_index r 0)) (\<lambda>result.
            ebind (subscript result ''meta'') (\<lambda>meta.
            ebind (subscript result ''timestamp'') (\<lambda>times.
            ebind (subscript result ''indicators'') (\<lambda>indicators.
            ebind (ebind (subscript indicators ''quote'') (\<lambda>q. at_index q 0)) (\<lambda>quote.
            ebind (ebind (subscript indicators ''adjclose'') (\<lambda>q. at_index q 0)) (\<lambda>adjclose.
            ebind (subscript adjclose ''adjclose'') (\<lambda>adjusted.
              Inr \<lparr> yp_result = (case result of JObj kvs \<Rightarrow> kvs | _ \<Rightarrow> []), yp_meta = meta, yp_times = times,
                    yp_quote = quote, yp_adjusted = adjusted \<rparr>)))))))))))"

definition quote_columns :: "string list" where
  "quote_columns = [''open'', ''high'', ''low'', ''close'', ''volume'']"

text \<open>Seven arrays of one length, at least one element.\<close>

definition check_lengths :: "YahooParts \<Rightarrow> update_error + unit" where
  "check_lengths y =
     ebind (escaping (
       ebind (py_len (yp_times y)) (\<lambda>n.
       ebind (mapping_of (yp_quote y)) (\<lambda>quote.
       ebind (emap (\<lambda>k. py_len (get_or quote k (JArr []))) quote_columns) (\<lambda>ns.
       ebind (py_len (yp_adjusted y)) (\<lambda>m. Inr (n, ns @ [m]))))))) (\<lambda>(n, ns).
     if n = 0 \<or> list_ex (\<lambda>m. m \<noteq> n) ns then update_fail ''YAHOO_ARRAY_LENGTH_MISMATCH'' else Inr ())"

definition check_meta :: "(json \<Rightarrow> string) \<Rightarrow> string \<Rightarrow> json \<Rightarrow> update_error + unit" where
  "check_meta shown ticker meta =
     ebind (escaping (mapping_of meta)) (\<lambda>m.
       if upper (py_str shown (get_or m ''symbol'' (JStr []))) \<noteq> ticker then update_fail ''YAHOO_SYMBOL_MISMATCH''
       else if py_str shown (get_or m ''exchangeTimezoneName'' (JStr [])) \<noteq> ''America/New_York'' then update_fail ''YAHOO_TIMEZONE_MISMATCH''
       else if py_str shown (get_or m ''currency'' (JStr [])) \<noteq> ''USD'' then update_fail ''YAHOO_CURRENCY_MISMATCH''
       else Inr ())"

text \<open>\<open>(events.get(kind) or {}).values()\<close>, where \<open>events\<close> is \<open>result.get("events") or {}\<close>.\<close>

definition or_empty :: "json \<Rightarrow> exn + (string \<times> json) list" where
  "or_empty v = (if truthy v then mapping_of v else Inr [])"

definition events_of :: "YahooParts \<Rightarrow> string \<Rightarrow> exn + json list" where
  "events_of y kind =
     ebind (or_empty (jget (yp_result y) ''events'')) (\<lambda>events.
     ebind (or_empty (jget events kind)) (\<lambda>kvs. Inr (map snd kvs)))"

definition event_date :: "exchange \<Rightarrow> json \<Rightarrow> exn + date" where
  "event_date ny event = ebind (ebind (subscript event ''date'') py_int) ny"

fun add_dividends :: "exchange \<Rightarrow> (date \<rightharpoonup> decimal) \<Rightarrow> json list \<Rightarrow> update_error + (date \<rightharpoonup> decimal)" where
  "add_dividends ny m [] = Inr m"
| "add_dividends ny m (e # es) =
     ebind (escaping (event_date ny e)) (\<lambda>d.
     ebind (escaping (subscript e ''amount'')) (\<lambda>v.
     ebind (as_decimal v) (\<lambda>amount.
     ebind (decimal_add (case m d of None \<Rightarrow> Fin 0 | Some x \<Rightarrow> x) amount) (\<lambda>total.
       add_dividends ny (m(d \<mapsto> total)) es))))"

fun add_splits :: "exchange \<Rightarrow> (json \<Rightarrow> string) \<Rightarrow> (date \<rightharpoonup> decimal) \<Rightarrow> json list \<Rightarrow> update_error + (date \<rightharpoonup> decimal)" where
  "add_splits ny shown m [] = Inr m"
| "add_splits ny shown m (e # es) =
     ebind (escaping (event_date ny e)) (\<lambda>d.
       add_splits ny shown (m(d \<mapsto> split_factor shown (case e of JObj kvs \<Rightarrow> kvs | _ \<Rightarrow> []))) es)"

definition provider_name :: string where "provider_name = ''Yahoo Finance chart endpoint''"

definition dec_cell :: "decimal option \<Rightarrow> cell" where
  "dec_cell d = CVal (case d of None \<Rightarrow> JNull | Some x \<Rightarrow> JDec x)"

text \<open>The first adjusted close there is, and the index of a row against it.\<close>

definition first_price :: "decimal option \<Rightarrow> json \<Rightarrow> update_error + decimal option" where
  "first_price first adjusted =
     (if first = None \<and> adjusted \<noteq> JNull then ebind (as_decimal adjusted) (\<lambda>d. Inr (Some d)) else Inr first)"

definition total_return_index :: "decimal option \<Rightarrow> json \<Rightarrow> update_error + decimal option" where
  "total_return_index first adjusted =
     (case first of
        None \<Rightarrow> Inr None
      | Some f \<Rightarrow> ebind (decimal_nonpositive f) (\<lambda>nonpositive.
          if nonpositive \<or> adjusted = JNull then Inr None
          else ebind (as_decimal adjusted) (\<lambda>a. ebind (index_value a f) (\<lambda>x. Inr (Some x)))))"

definition price_row ::
  "string \<Rightarrow> string \<Rightarrow> date \<Rightarrow> (string \<times> json) list \<Rightarrow> json \<Rightarrow> decimal option \<Rightarrow> decimal \<Rightarrow> decimal \<Rightarrow> prow" where
  "price_row ticker revision d quote adjusted index dividend split =
     [(''ticker'', CVal (JStr ticker)), (''date'', CDay d), (''currency'', CVal (JStr ''USD'')),
      (''open_unadjusted'', CVal (jget quote ''open'')), (''high_unadjusted'', CVal (jget quote ''high'')),
      (''low_unadjusted'', CVal (jget quote ''low'')), (''close_unadjusted'', CVal (jget quote ''close'')),
      (''adjusted_close'', CVal adjusted), (''total_return_index'', dec_cell index), (''volume'', CVal (jget quote ''volume'')),
      (''dividend_cash'', dec_cell (Some dividend)), (''split_factor'', dec_cell (Some split)),
      (''source'', CVal (JStr provider_name)), (''provider_revision'', CVal (JStr revision))]"

text \<open>The values of the quote arrays at one place; a missing array fails its subscript.\<close>

definition quote_at :: "(string \<times> json) list \<Rightarrow> nat \<Rightarrow> exn + (string \<times> json) list" where
  "quote_at quote i =
     emap (\<lambda>k. ebind (ebind (required_field quote k) (\<lambda>v. at_index v i)) (\<lambda>x. Inr (k, x))) quote_columns"

fun price_rows ::
  "exchange \<Rightarrow> string \<Rightarrow> string \<Rightarrow> YahooParts \<Rightarrow> (date \<rightharpoonup> decimal) \<Rightarrow> (date \<rightharpoonup> decimal) \<Rightarrow> decimal option \<Rightarrow> nat \<Rightarrow> json list
    \<Rightarrow> update_error + prow list" where
  "price_rows ny ticker revision y dividends splits first i [] = Inr []"
| "price_rows ny ticker revision y dividends splits first i (t # ts) =
     ebind (escaping (ebind (py_int t) ny)) (\<lambda>d.
     ebind (escaping (at_index (yp_adjusted y) i)) (\<lambda>adjusted.
     ebind (first_price first adjusted) (\<lambda>first'.
     ebind (total_return_index first' adjusted) (\<lambda>index.
     ebind (escaping (ebind (mapping_of (yp_quote y)) (\<lambda>quote. quote_at quote i))) (\<lambda>quote.
     ebind (price_rows ny ticker revision y dividends splits first' (Suc i) ts) (\<lambda>rows.
       Inr (price_row ticker revision d quote adjusted index
              (case dividends d of None \<Rightarrow> Fin 0 | Some x \<Rightarrow> x) (case splits d of None \<Rightarrow> Fin 1 | Some x \<Rightarrow> x) # rows)))))))"

record 'b FetchedTicker =
  ft_ticker :: string
  ft_bytes :: 'b
  ft_sha256 :: string
  ft_rows :: "prow list"

record 'b UpdatePlatform =
  up_loads :: "'b \<Rightarrow> json option"
  up_sha256 :: "'b \<Rightarrow> string"
  up_size :: "'b \<Rightarrow> nat"
  up_exchange :: exchange
  up_shown :: "json \<Rightarrow> string"
  up_rows_sha256 :: "(string \<times> string) list list \<Rightarrow> string"
  up_manifest_sha256 :: "json \<Rightarrow> string"

definition parse_yahoo_chart :: "'b UpdatePlatform \<Rightarrow> string \<Rightarrow> 'b \<Rightarrow> update_error + 'b FetchedTicker" where
  "parse_yahoo_chart up ticker raw =
     ebind (yahoo_parts (up_loads up raw)) (\<lambda>y.
     ebind (check_meta (up_shown up) ticker (yp_meta y)) (\<lambda>_.
     ebind (check_lengths y) (\<lambda>_.
     ebind (escaping (events_of y ''dividends'')) (\<lambda>ds.
     ebind (add_dividends (up_exchange up) Map.empty ds) (\<lambda>dividends.
     ebind (escaping (events_of y ''splits'')) (\<lambda>ss.
     ebind (add_splits (up_exchange up) (up_shown up) Map.empty ss) (\<lambda>splits.
     ebind (escaping (list_of (yp_times y))) (\<lambda>ts.
     ebind (price_rows (up_exchange up) ticker (up_sha256 up raw) y dividends splits None 0 ts) (\<lambda>rows.
       Inr \<lparr> ft_ticker = ticker, ft_bytes = raw, ft_sha256 = up_sha256 up raw, ft_rows = rows \<rparr>)))))))))"

end
