(* ===== verification/TotalReturnPublish.thy ===== *)
theory TotalReturnPublish
  imports TotalReturnUpdate ReadTotalReturn IncrementalCommit
begin

text \<open>
  The run of \<open>market_db/total_return_update.py\<close>: the fetch with its retries, the sessions expected, the gate, the
  retained files and the transaction that publishes a data set into the tables that \<open>ReadTotalReturn\<close> reads.
  The network answers each attempt as an argument; of the daily table the columns that are read are kept, after
  the check of all numeric ones.
\<close>

section \<open>Fetching\<close>

datatype 'b http_answer = HttpFailed int | TransportFailed | HttpBody int 'b

definition fetch_bytes :: "('b \<Rightarrow> nat) \<Rightarrow> 'b http_answer \<Rightarrow> update_error + 'b" where
  "fetch_bytes bytes answer =
     (case answer of
        HttpFailed code \<Rightarrow> Inl (UpdateError (''YAHOO_HTTP_'' @ show_int code) (Some code))
      | TransportFailed \<Rightarrow> update_fail ''YAHOO_TRANSPORT_FAILED''
      | HttpBody status body \<Rightarrow>
          if status < 200 \<or> 300 \<le> status then Inl (UpdateError (''YAHOO_HTTP_'' @ show_int status) (Some status))
          else if bytes body = 0 then Inl (UpdateError ''YAHOO_EMPTY_RESPONSE'' (Some status))
          else Inr body)"

definition yahoo_url :: "string \<Rightarrow> int \<Rightarrow> string" where
  "yahoo_url ticker period2 =
     ''https://query1.finance.yahoo.com/v8/finance/chart/'' @ ticker @ ''?period1=0&period2='' @ show_int period2
       @ ''&interval=1d&events=div%2Csplits&includeAdjustedClose=true''"

definition final_status :: "int option \<Rightarrow> bool" where
  "final_status s = (s \<in> {Some 401, Some 403, Some 404})"

text \<open>Attempt \<open>n\<close> of at most \<open>n + left\<close>; the waits between attempts are the second component.\<close>

fun fetch_attempts :: "(nat \<Rightarrow> update_error + 'a) \<Rightarrow> nat \<Rightarrow> nat \<Rightarrow> (update_error + 'a) \<times> nat list" where
  "fetch_attempts try n left =
     (case try n of
        Inl (UpdateError code status) \<Rightarrow>
          if final_status status \<or> left = 0 then (Inl (UpdateError code status), [])
          else (case left of 0 \<Rightarrow> (Inl (UpdateError code status), [])
                | Suc m \<Rightarrow> let (r, waits) = fetch_attempts try (Suc n) m in (r, n # waits))
      | r \<Rightarrow> (r, []))"

type_synonym 'b endpoint = "string \<Rightarrow> nat \<Rightarrow> 'b http_answer"

definition fetch_yahoo_ticker ::
  "'b UpdatePlatform \<Rightarrow> 'b endpoint \<Rightarrow> int \<Rightarrow> string \<Rightarrow> (update_error + 'b FetchedTicker) \<times> nat list" where
  "fetch_yahoo_ticker up net period2 ticker =
     fetch_attempts (\<lambda>n. ebind (fetch_bytes (up_size up) (net (yahoo_url ticker period2) n)) (parse_yahoo_chart up ticker)) 1 2"

section \<open>Expected sessions\<close>

definition closed_sessions :: "IntervalRow list \<Rightarrow> IntervalRow list" where
  "closed_sessions rows =
     filter (\<lambda>r. iv_calendar r = ''XNYS_US_EQUITY'' \<and> iv_sequence r = 0 \<and> session_status (iv_session r) \<in> {OPEN, SHORT_SESSION}) rows"

definition last_legacy_date :: "json \<Rightarrow> string \<Rightarrow> exn + date" where
  "last_legacy_date legacy ticker =
     ebind (subscript legacy ''etfs'') (\<lambda>etfs. ebind (subscript etfs ticker) (\<lambda>e. ebind (subscript e ''last_date'') (\<lambda>v.
       case v of JStr s \<Rightarrow> date_fromisoformat s | _ \<Rightarrow> Inl TypeError)))"

definition latest_completed_session ::
  "json \<Rightarrow> IntervalRow list \<Rightarrow> utc \<Rightarrow> update_error + date \<times> date list" where
  "latest_completed_session legacy rows clock =
     ebind (escaping (emap (last_legacy_date legacy) required_tickers)) (\<lambda>starts.
       let start = Max (set starts); sessions = closed_sessions rows;
           done = filter (\<lambda>r. case close_time_utc (iv_session r) of None \<Rightarrow> False | Some t \<Rightarrow> t \<le> clock) sessions
       in if done = [] then update_fail ''XNYS_LATEST_SESSION_UNAVAILABLE''
          else let latest = Max (set (map iv_date done))
               in Inr (latest, sort (filter (\<lambda>d. start < d \<and> d \<le> latest) (map iv_date sessions))))"

section \<open>The transaction\<close>

record PublicationRun =
  pr_id :: int
  pr_status :: string
  pr_manifest_path :: string
  pr_manifest_sha256 :: "string option"
  pr_series :: "nat option"
  pr_rows :: "nat option"
  pr_step :: string
  pr_dataset :: "string option"

record publication =
  pb_db :: research_db
  pb_runs :: "PublicationRun list"
  pb_paths :: "(string \<times> string) list"
  pb_next_run :: int
  pb_next_file :: int

definition database_error :: "string \<Rightarrow> update_error + 'a" where
  "database_error m = Inl (Escaped (DatabaseError m))"

definition insert_run :: "string \<Rightarrow> publication \<Rightarrow> int \<times> publication" where
  "insert_run path pb =
     (pb_next_run pb, pb\<lparr>pb_next_run := pb_next_run pb + 1,
        pb_runs := pb_runs pb @ [\<lparr> pr_id = pb_next_run pb, pr_status = ''RUNNING'', pr_manifest_path = path, pr_manifest_sha256 = None,
                                   pr_series = None, pr_rows = None, pr_step = ''RAW_AND_QUALITY_VALIDATED'', pr_dataset = None \<rparr>]\<rparr>)"

definition retire_current :: "research_db \<Rightarrow> research_db" where
  "retire_current db =
     db\<lparr>db_datasets := map (\<lambda>d. if rd_kind d = ''total_return'' \<and> rd_eligibility d = research_eligibility \<and> rd_current d
                              then d\<lparr>rd_current := False\<rparr> else d) (db_datasets db)\<rparr>"

definition hex_digest :: "string \<Rightarrow> bool" where
  "hex_digest s = (length s = 64 \<and> list_all (\<lambda>c. is_digit c \<or> 97 \<le> ccode c \<and> ccode c \<le> 102) s)"

definition new_dataset :: "string \<Rightarrow> string \<Rightarrow> string \<Rightarrow> ResearchDataset" where
  "new_dataset dataset path sha =
     \<lparr> rd_id = dataset, rd_name = ''SIM research ETF total-return daily current'', rd_provider = provider_name,
       rd_kind = ''total_return'', rd_basis = ''etf_total_return'', rd_horizon = Some 1440, rd_eligibility = research_eligibility,
       rd_manifest_path = Some path, rd_manifest_sha256 = Some sha, rd_current = True \<rparr>"

definition insert_dataset :: "ResearchDataset \<Rightarrow> research_db \<Rightarrow> update_error + research_db" where
  "insert_dataset d db =
     (if rd_id d \<in> set (map rd_id (db_datasets db)) then database_error ''source_dataset_pkey''
      else if (case rd_manifest_sha256 d of None \<Rightarrow> False | Some h \<Rightarrow> \<not> hex_digest h) then database_error ''source_dataset_check''
      else Inr (db\<lparr>db_datasets := db_datasets db @ [d]\<rparr>))"

text \<open>The file of one ticker: its row of \<open>ops.source_file\<close>.\<close>

definition insert_file :: "string \<Rightarrow> string \<Rightarrow> string \<Rightarrow> publication \<Rightarrow> update_error + int \<times> publication" where
  "insert_file dataset path sha pb =
     (if (path, sha) \<in> set (pb_paths pb) then database_error ''source_file_key''
      else Inr (pb_next_file pb, pb\<lparr>pb_next_file := pb_next_file pb + 1, pb_paths := (path, sha) # pb_paths pb,
             pb_db := (pb_db pb)\<lparr>db_files := db_files (pb_db pb) @ [\<lparr> rf_id = pb_next_file pb, rf_dataset = dataset, rf_sha256 = sha \<rparr>]\<rparr>\<rparr>))"

fun insert_files :: "string \<Rightarrow> (string \<times> string \<times> string) list \<Rightarrow> publication \<Rightarrow> update_error + (string \<times> int) list \<times> publication" where
  "insert_files dataset [] pb = Inr ([], pb)"
| "insert_files dataset ((ticker, path, sha) # fs) pb =
     ebind (insert_file dataset path sha pb) (\<lambda>(i, pb').
     ebind (insert_files dataset fs pb') (\<lambda>(ids, pb''). Inr ((ticker, i) # ids, pb'')))"

text \<open>A value for a \<open>NUMERIC(p, s)\<close> column. The column could hold a NaN, the model's refuses it.\<close>

definition numeric_cell :: "nat \<Rightarrow> nat \<Rightarrow> cell \<Rightarrow> update_error + rat option" where
  "numeric_cell p s c =
     (case c of
        CDay d \<Rightarrow> database_error ''invalid input syntax for type numeric''
      | CVal v \<Rightarrow>
          if v = JNull then Inr None
          else case dec_of_json v of
                 Some (Fin q) \<Rightarrow> if numeric_fits p s q then Inr (Some (numeric s q)) else database_error ''numeric field overflow''
               | _ \<Rightarrow> database_error ''invalid input syntax for type numeric'')"

definition row_cell :: "prow \<Rightarrow> string \<Rightarrow> update_error + cell" where
  "row_cell row f = (case map_of row f of None \<Rightarrow> Inl (Escaped KeyError) | Some c \<Rightarrow> Inr c)"

definition not_null :: "rat option \<Rightarrow> update_error + rat" where
  "not_null v = (case v of None \<Rightarrow> database_error ''null value in column'' | Some q \<Rightarrow> Inr q)"

definition numeric_field :: "prow \<Rightarrow> string \<Rightarrow> update_error + rat option" where
  "numeric_field row f = ebind (row_cell row f) (numeric_cell 24 12)"

definition plain_columns :: "string list" where
  "plain_columns = [''open_unadjusted'', ''high_unadjusted'', ''low_unadjusted'', ''close_unadjusted'', ''dividend_cash'', ''split_factor'']"

definition stored_row :: "string \<Rightarrow> string \<Rightarrow> int \<Rightarrow> prow \<Rightarrow> update_error + DailyRow" where
  "stored_row dataset ticker file row =
     ebind (row_cell row ''date'') (\<lambda>c.
     ebind (case c of CDay d \<Rightarrow> Inr d | CVal v \<Rightarrow> database_error ''invalid input syntax for type date'') (\<lambda>d.
     ebind (emap (numeric_field row) plain_columns) (\<lambda>_.
     ebind (ebind (numeric_field row ''adjusted_close'') not_null) (\<lambda>adjusted.
     ebind (ebind (numeric_field row ''total_return_index'') not_null) (\<lambda>index.
     ebind (ebind (row_cell row ''volume'') (numeric_cell 30 8)) (\<lambda>vol.
       Inr \<lparr> dr_dataset = dataset, dr_ticker = ticker, dr_date = d, dr_adjusted = adjusted, dr_index = index, dr_volume = vol,
             dr_quality = ''PASS'', dr_file = file \<rparr>))))))"

fun copy_rows :: "DailyRow list \<Rightarrow> research_db \<Rightarrow> update_error + research_db" where
  "copy_rows [] db = Inr db"
| "copy_rows (r # rs) db =
     (if daily_key r \<in> set (map daily_key (db_daily db)) then database_error ''etf_total_return_daily_pkey''
      else copy_rows rs (db\<lparr>db_daily := db_daily db @ [r]\<rparr>))"

text \<open>The rows of the copy, ticker by ticker; of two deliveries of a ticker the later one counts.\<close>

definition ticker_rows :: "string \<Rightarrow> (string \<times> int) list \<Rightarrow> (string \<times> prow list) list \<Rightarrow> string \<Rightarrow> update_error + DailyRow list" where
  "ticker_rows dataset files delivered ticker =
     (case (map_of (rev delivered) ticker, map_of (rev files) ticker) of
        (Some rows, Some file) \<Rightarrow> emap (stored_row dataset ticker file) rows
      | _ \<Rightarrow> Inl (Escaped KeyError))"

definition market_keys :: "(string \<times> string) list" where
  "market_keys = [(''SPY'', ''spy''), (''IWM'', ''iwm''), (''EFA'', ''efa''), (''EEM'', ''eem''), (''VNQ'', ''vnq'')]"

definition new_mappings :: "string \<Rightarrow> utc \<Rightarrow> ResearchInstrument list \<Rightarrow> SeriesMapping list" where
  "new_mappings dataset clock listed =
     [\<lparr> sm_dataset = dataset, sm_series = fst k, sm_instrument = ri_id i, sm_kind = ''TICKER_EXACT'',
        sm_reason = ''User-authorized one-month SIM research ticker mapping'', sm_approved_at = clock,
        sm_approved_by = ''saxo-db-sim-research-total-return-v1'', sm_active = True \<rparr>.
      k \<leftarrow> market_keys, i \<leftarrow> listed, ri_key i = snd k \<and> ri_active i]"

definition mapping_keys_ok :: "SeriesMapping list \<Rightarrow> bool" where
  "mapping_keys_ok ms = (distinct (map (\<lambda>m. (sm_dataset m, sm_series m)) ms) \<and> distinct (map (\<lambda>m. (sm_dataset m, sm_instrument m)) ms))"

definition insert_mappings :: "string \<Rightarrow> utc \<Rightarrow> research_db \<Rightarrow> update_error + research_db" where
  "insert_mappings dataset clock db =
     (let ms = db_mappings db @ new_mappings dataset clock (db_instruments db)
      in if \<not> mapping_keys_ok ms then database_error ''series_instrument_mapping_pkey''
         else if length (filter (\<lambda>m. sm_dataset m = dataset \<and> sm_active m) ms) \<noteq> length required_tickers
         then update_fail ''TOTAL_RETURN_MAPPING_INCOMPLETE''
         else Inr (db\<lparr>db_mappings := ms\<rparr>))"

definition finish_run :: "int \<Rightarrow> string \<Rightarrow> nat \<Rightarrow> string \<Rightarrow> publication \<Rightarrow> publication" where
  "finish_run run sha inserted dataset pb =
     pb\<lparr>pb_runs := map (\<lambda>r. if pr_id r = run
        then r\<lparr>pr_status := ''PASS'', pr_series := Some (length required_tickers), pr_rows := Some inserted, pr_manifest_sha256 := Some sha,
               pr_step := ''READ_API_PUBLISHED'', pr_dataset := Some dataset\<rparr> else r) (pb_runs pb)\<rparr>"

definition publish_body ::
  "string \<Rightarrow> string \<Rightarrow> string \<Rightarrow> utc \<Rightarrow> (string \<times> string \<times> string) list \<Rightarrow> (string \<times> prow list) list
    \<Rightarrow> publication \<Rightarrow> update_error + int \<times> publication" where
  "publish_body dataset path sha clock files delivered pb =
     (let (run, pb1) = insert_run path pb in
      ebind (insert_dataset (new_dataset dataset path sha) (retire_current (pb_db pb1))) (\<lambda>db2.
      ebind (insert_files dataset files (pb1\<lparr>pb_db := db2\<rparr>)) (\<lambda>(ids, pb3).
      ebind (emap (ticker_rows dataset ids delivered) required_tickers) (\<lambda>rows.
      ebind (copy_rows (concat rows) (pb_db pb3)) (\<lambda>db4.
      ebind (insert_mappings dataset clock db4) (\<lambda>db5.
        Inr (run, finish_run run sha (sum_list (map (length \<circ> snd) delivered)) dataset (pb3\<lparr>pb_db := db5\<rparr>))))))))"

definition publish_dataset ::
  "string \<Rightarrow> string \<Rightarrow> string \<Rightarrow> utc \<Rightarrow> (string \<times> string \<times> string) list \<Rightarrow> (string \<times> prow list) list
    \<Rightarrow> publication \<Rightarrow> (update_error + int) \<times> publication" where
  "publish_dataset dataset path sha clock files delivered pb = transaction (publish_body dataset path sha clock files delivered) pb"

section \<open>The run\<close>

record UpdateState =
  us_files :: "string list"
  us_publication :: publication

record UpdateSummary =
  um_dataset :: string
  um_run :: int
  um_latest :: "(string \<times> string option) list"
  um_manifest_path :: string
  um_manifest_sha256 :: string
  um_rows :: nat

datatype update_result = QualityRejected string SimQuality | PublishedDataset UpdateSummary

text \<open>The time of day in an identifier: \<open>%Y%m%dT%H%M%SZ\<close>.\<close>

definition compact_utc :: "utc \<Rightarrow> string" where
  "compact_utc t = filter (\<lambda>c. c \<noteq> CHR ''-'') (date_iso (date_of_utc t)) @ ''T''
     @ filter (\<lambda>c. c \<noteq> CHR '':'') (take 8 (clock_text (t mod day))) @ ''Z''"

definition dataset_id :: "utc \<Rightarrow> string \<Rightarrow> string" where
  "dataset_id now random_hex = ''SIMTR_'' @ compact_utc now @ ''_'' @ take 8 random_hex"

text \<open>Midnight UTC after the day, in seconds.\<close>

definition next_midnight :: "date \<Rightarrow> exn + int" where
  "next_midnight d = (if d = max_date then Inl OverflowError else Inr ((d + 1 - epoch_ordinal) * 86400))"

definition raw_path :: "string \<Rightarrow> string \<Rightarrow> string" where
  "raw_path base ticker = base @ ''/raw/'' @ lower ticker @ ''.json''"

text \<open>\<open>open("xb")\<close>: a file that is there is not overwritten.\<close>

definition write_exclusive :: "string \<Rightarrow> string list \<Rightarrow> update_error + string list" where
  "write_exclusive path fs = (if path \<in> set fs then Inl (Signalled ''FILEEXISTSERROR'') else Inr (path # fs))"

text \<open>The files are written one after the other; the ones written before a failure stay.\<close>

fun write_all :: "string list \<Rightarrow> string list \<Rightarrow> (update_error + unit) \<times> string list" where
  "write_all [] fs = (Inr (), fs)"
| "write_all (p # ps) fs = (case write_exclusive p fs of Inl e \<Rightarrow> (Inl e, fs) | Inr fs' \<Rightarrow> write_all ps fs')"

definition latest_json :: "(string \<times> string option) list \<Rightarrow> json" where
  "latest_json latest = JObj (map (\<lambda>(t, d). (t, text_json d)) latest)"

definition manifest_json ::
  "string \<Rightarrow> utc \<Rightarrow> date \<Rightarrow> SimQuality \<Rightarrow> (string \<times> json) list \<Rightarrow> json" where
  "manifest_json dataset now latest q raw_files = JObj
     [(''schema_version'', JInt 1), (''source_dataset_id'', JStr dataset), (''dataset_kind'', JStr ''total_return''),
      (''price_basis'', JStr ''etf_total_return''), (''provider'', JStr provider_name), (''environment'', JStr ''SIM''),
      (''research_eligibility'', JStr research_eligibility), (''current'', JBool True), (''retrieved_at_utc'', JStr (iso_utc now)),
      (''latest_expected_session_date'', JStr (date_iso latest)), (''latest_session_date'', latest_json (sq_latest q)),
      (''quality_status'', JStr ''PASS''),
      (''quality'', JObj [(''missing_count'', JInt (int (sq_missing q))), (''duplicate_count'', JInt (int (bq_duplicates q))),
                        (''null_or_nonpositive_count'', JInt (int (sq_nonpositive q))), (''ordered_content_sha256'', JStr (bq_sha256 q))]),
      (''lineage'', JObj
        [(''raw'', JStr ''Yahoo Finance chart JSON response retained byte-for-byte''),
         (''normalized'', JStr ''daily quote arrays joined with dividends and splits by exchange session date''),
         (''curated'', JStr ''adjusted close normalized to 100 at each ticker inception''),
         (''publication'', JStr ''atomic catalog, source-file, curated-row, and approved-mapping transaction'')]),
      (''parity_status'', JStr ''PASS''), (''raw_files'', JObj raw_files)]"

definition raw_file_json :: "'b UpdatePlatform \<Rightarrow> string \<Rightarrow> 'b FetchedTicker \<Rightarrow> string \<times> json" where
  "raw_file_json up base f =
     (ft_ticker f, JObj [(''relative_path'', JStr (raw_path base (ft_ticker f))), (''sha256'', JStr (ft_sha256 f)),
        (''size_bytes'', JInt (int (up_size up (ft_bytes f)))), (''row_count'', JInt (int (length (ft_rows f))))])"

text \<open>What is done with rows that passed the gate.\<close>

definition retain_and_publish ::
  "'b UpdatePlatform \<Rightarrow> utc \<Rightarrow> utc \<Rightarrow> string \<Rightarrow> date \<Rightarrow> SimQuality \<Rightarrow> 'b FetchedTicker list \<Rightarrow> UpdateState
    \<Rightarrow> (update_error + update_result) \<times> UpdateState" where
  "retain_and_publish up now clock dataset latest q fetched st =
     (let base = ''data/acquisition/runs/'' @ dataset @ ''/total_return'';
          manifest = manifest_json dataset now latest q (map (raw_file_json up base) fetched);
          path = base @ ''/dataset_manifest.json''; sha = up_manifest_sha256 up manifest
      in case write_all (map (raw_path base \<circ> ft_ticker) fetched @ [path]) (us_files st) of
           (Inl e, fs) \<Rightarrow> (Inl e, st\<lparr>us_files := fs\<rparr>)
         | (Inr _, fs) \<Rightarrow>
             (case publish_dataset dataset path sha clock (map (\<lambda>f. (ft_ticker f, raw_path base (ft_ticker f), ft_sha256 f)) fetched)
                     (map (\<lambda>f. (ft_ticker f, ft_rows f)) fetched) (us_publication st) of
                (Inl e, pb) \<Rightarrow> (Inl e, st\<lparr>us_files := fs, us_publication := pb\<rparr>)
              | (Inr run, pb) \<Rightarrow>
                  (Inr (PublishedDataset \<lparr> um_dataset = dataset, um_run = run, um_latest = sq_latest q, um_manifest_path = path,
                                        um_manifest_sha256 = sha, um_rows = sum_list (map (length \<circ> ft_rows) fetched) \<rparr>),
                   st\<lparr>us_files := fs, us_publication := pb\<rparr>)))"

definition run_once ::
  "'b UpdatePlatform \<Rightarrow> 'b endpoint \<Rightarrow> json \<Rightarrow> IntervalRow list \<Rightarrow> utc \<Rightarrow> utc \<Rightarrow> string \<Rightarrow> UpdateState
    \<Rightarrow> (update_error + update_result) \<times> UpdateState" where
  "run_once up net legacy sessions now clock random_hex st =
     (case ebind (latest_completed_session legacy sessions clock) (\<lambda>(latest, expected).
           ebind (escaping (next_midnight latest)) (\<lambda>period2.
           ebind (emap (\<lambda>t. fst (fetch_yahoo_ticker up net period2 t)) required_tickers) (\<lambda>fetched. Inr (latest, expected, fetched)))) of
        Inl e \<Rightarrow> (Inl e, st)
      | Inr (latest, expected, fetched) \<Rightarrow>
          let q = evaluate_sim_research_quality (up_shown up) (up_rows_sha256 up) (concat (map ft_rows fetched)) expected
          in if \<not> bq_pass q then (Inr (QualityRejected ''TOTAL_RETURN_QUALITY_FAILED'' q), st)
             else if list_ex (\<lambda>(t, d). d \<noteq> Some (date_iso latest)) (sq_latest q)
             then (Inr (QualityRejected ''TOTAL_RETURN_LATEST_SESSION_MISMATCH'' q), st)
             else retain_and_publish up now clock (dataset_id now random_hex) latest q fetched st)"

text \<open>The command: what it prints, and its exit code.\<close>

datatype update_report = Gated gate | Reported update_result | ProviderFailed string string

definition update_error_report :: "update_error \<Rightarrow> update_report" where
  "update_error_report e =
     (case e of
        UpdateError code status \<Rightarrow> ProviderFailed (classify_provider_error status) code
      | Escaped x \<Rightarrow> ProviderFailed (classify_provider_error None) (''TOTAL_RETURN_'' @ exception_name x)
      | Signalled name \<Rightarrow> ProviderFailed (classify_provider_error None) (''TOTAL_RETURN_'' @ name))"

definition exit_code :: "update_report \<Rightarrow> int" where
  "exit_code r = (case r of Reported (PublishedDataset s) \<Rightarrow> 0 | _ \<Rightarrow> 3)"

text \<open>Reading the gate itself is not inside the handler; its exception ends the command.\<close>

definition update_main ::
  "'b UpdatePlatform \<Rightarrow> 'b endpoint \<Rightarrow> json \<Rightarrow> json \<Rightarrow> IntervalRow list \<Rightarrow> utc \<Rightarrow> utc \<Rightarrow> string \<Rightarrow> UpdateState
    \<Rightarrow> (exn + update_report) \<times> UpdateState" where
  "update_main up net profile legacy sessions now clock random_hex st =
     (case provider_gate profile of
        Inl e \<Rightarrow> (Inl e, st)
      | Inr (ReadySim name) \<Rightarrow>
          (case run_once up net legacy sessions now clock random_hex st of
             (Inl e, st') \<Rightarrow> (Inr (update_error_report e), st')
           | (Inr r, st') \<Rightarrow> (Inr (Reported r), st'))
      | Inr g \<Rightarrow> (Inr (Gated g), st))"

section \<open>What the reader finds after a publication\<close>

text \<open>The foreign keys and primary keys of the tables, and the one kind of data set that is ever current.\<close>

definition registered :: "research_db \<Rightarrow> bool" where
  "registered db =
     (distinct (map rd_id (db_datasets db)) \<and> distinct (map ri_id (db_instruments db))
      \<and> list_all (\<lambda>m. sm_dataset m \<in> set (map rd_id (db_datasets db))) (db_mappings db)
      \<and> list_all (\<lambda>r. dr_dataset r \<in> set (map rd_id (db_datasets db))) (db_daily db)
      \<and> list_all (\<lambda>d. rd_eligibility d = research_eligibility \<or> rd_kind d \<noteq> ''total_return'' \<or> \<not> rd_current d) (db_datasets db))"

lemma retire_current_ids [simp]:
  "map rd_id (db_datasets (retire_current db)) = map rd_id (db_datasets db)"
  "db_instruments (retire_current db) = db_instruments db" "db_mappings (retire_current db) = db_mappings db"
  "db_daily (retire_current db) = db_daily db" "db_files (retire_current db) = db_files db"
  by (simp_all add: retire_current_def comp_def if_distrib cong: if_cong)

lemma retired_not_current:
  assumes "registered db" "d \<in> set (db_datasets (retire_current db))" "rd_kind d = ''total_return''"
  shows "\<not> rd_current d"
  using assms by (auto simp: retire_current_def registered_def list_all_iff split: if_splits)

lemma insert_files_keeps:
  assumes "insert_files dataset fs pb = Inr (ids, pb')"
  shows "db_instruments (pb_db pb') = db_instruments (pb_db pb)" "db_datasets (pb_db pb') = db_datasets (pb_db pb)"
    "db_mappings (pb_db pb') = db_mappings (pb_db pb)" "db_daily (pb_db pb') = db_daily (pb_db pb)"
proof -
  have "db_instruments (pb_db pb') = db_instruments (pb_db pb) \<and> db_datasets (pb_db pb') = db_datasets (pb_db pb)
      \<and> db_mappings (pb_db pb') = db_mappings (pb_db pb) \<and> db_daily (pb_db pb') = db_daily (pb_db pb)"
    using assms
  proof (induction fs arbitrary: pb ids pb')
    case Nil
    then show ?case by simp
  next
    case (Cons f fs)
    obtain ticker path sha where f: "f = (ticker, path, sha)" by (cases f)
    from Cons.prems obtain i pb1 ids1 where one: "insert_file dataset path sha pb = Inr (i, pb1)"
      and rest: "insert_files dataset fs pb1 = Inr (ids1, pb')" by (auto simp: f ebind_eq_Inr)
    from one have "db_instruments (pb_db pb1) = db_instruments (pb_db pb)" "db_datasets (pb_db pb1) = db_datasets (pb_db pb)"
      "db_mappings (pb_db pb1) = db_mappings (pb_db pb)" "db_daily (pb_db pb1) = db_daily (pb_db pb)"
      by (auto simp: insert_file_def database_error_def split: if_splits)
    with Cons.IH [OF rest] show ?case by simp
  qed
  then show "db_instruments (pb_db pb') = db_instruments (pb_db pb)" "db_datasets (pb_db pb') = db_datasets (pb_db pb)"
    "db_mappings (pb_db pb') = db_mappings (pb_db pb)" "db_daily (pb_db pb') = db_daily (pb_db pb)" by blast+
qed

lemma copy_rows_appends: "copy_rows rs db = Inr db' \<Longrightarrow> db' = db\<lparr>db_daily := db_daily db @ rs\<rparr>"
proof (induction rs arbitrary: db)
  case (Cons r rs)
  then have "copy_rows rs (db\<lparr>db_daily := db_daily db @ [r]\<rparr>) = Inr db'" by (simp add: database_error_def split: if_splits)
  from Cons.IH [OF this] show ?case by simp
qed simp

lemma finish_run_db [simp]: "pb_db (finish_run run sha n dataset pb) = pb_db pb"
  by (simp add: finish_run_def)

text \<open>The tables after a publication that committed.\<close>

lemma published_tables:
  assumes "publish_dataset dataset path sha clock files delivered pb = (Inr run, pb')"
  obtains ids rows where "rd_id (new_dataset dataset path sha) \<notin> set (map rd_id (db_datasets (pb_db pb)))" "hex_digest sha"
    "db_instruments (pb_db pb') = db_instruments (pb_db pb)"
    "db_datasets (pb_db pb') = db_datasets (retire_current (pb_db pb)) @ [new_dataset dataset path sha]"
    "db_mappings (pb_db pb') = db_mappings (pb_db pb) @ new_mappings dataset clock (db_instruments (pb_db pb))"
    "mapping_keys_ok (db_mappings (pb_db pb'))"
    "length (filter (\<lambda>m. sm_dataset m = dataset \<and> sm_active m) (db_mappings (pb_db pb'))) = length required_tickers"
    "emap (ticker_rows dataset ids delivered) required_tickers = Inr rows"
    "db_daily (pb_db pb') = db_daily (pb_db pb) @ concat rows"
proof -
  from assms have "publish_body dataset path sha clock files delivered pb = Inr (run, pb')"
    by (simp add: publish_dataset_def transaction_commit)
  then obtain pb1 db2 ids pb3 rows db4 db5 where pb1: "pb1 = snd (insert_run path pb)"
    and db2: "insert_dataset (new_dataset dataset path sha) (retire_current (pb_db pb1)) = Inr db2"
    and pb3: "insert_files dataset files (pb1\<lparr>pb_db := db2\<rparr>) = Inr (ids, pb3)"
    and rows: "emap (ticker_rows dataset ids delivered) required_tickers = Inr rows"
    and db4: "copy_rows (concat rows) (pb_db pb3) = Inr db4" and db5: "insert_mappings dataset clock db4 = Inr db5"
    and out: "pb_db pb' = db5"
    by (auto simp: publish_body_def Let_def case_prod_unfold ebind_eq_Inr)
  have start: "pb_db pb1 = pb_db pb" by (simp add: pb1 insert_run_def)
  from db2 have fresh: "rd_id (new_dataset dataset path sha) \<notin> set (map rd_id (db_datasets (pb_db pb)))" and hex: "hex_digest sha"
    and db2': "db2 = (retire_current (pb_db pb))\<lparr>db_datasets := db_datasets (retire_current (pb_db pb)) @ [new_dataset dataset path sha]\<rparr>"
    by (auto simp: insert_dataset_def start database_error_def new_dataset_def simp flip: set_map split: if_splits)
  note pb3' = insert_files_keeps [OF pb3]
  note db4' = copy_rows_appends [OF db4]
  from db5 have ms: "db5 = db4\<lparr>db_mappings := db_mappings db4 @ new_mappings dataset clock (db_instruments db4)\<rparr>"
    "mapping_keys_ok (db_mappings db4 @ new_mappings dataset clock (db_instruments db4))"
    "length (filter (\<lambda>m. sm_dataset m = dataset \<and> sm_active m) (db_mappings db4 @ new_mappings dataset clock (db_instruments db4)))
      = length required_tickers"
    by (auto simp: insert_mappings_def Let_def database_error_def split: if_splits)
  show thesis
    by (rule that [OF fresh hex]) (use out ms db4' pb3' db2' rows in simp_all)
qed

lemma eligible_product:
  "eligible_mappings db key dataset =
     filter (\<lambda>(m, i, d). ri_id i = sm_instrument m \<and> rd_id d = sm_dataset m \<and> ri_key i = key \<and> ri_active i \<and> sm_active m
        \<and> rd_kind d = ''total_return'' \<and> rd_basis d = ''etf_total_return'' \<and> (dataset = None \<or> dataset = Some (sm_dataset m)))
       (List.product (db_mappings db) (List.product (db_instruments db) (db_datasets db)))"
proof -
  have pick: "concat (map (\<lambda>d. if P d then [f d] else []) ds) = map f (filter P ds)" for P and f :: "ResearchDataset \<Rightarrow> mapped" and ds
    by (induction ds) auto
  show ?thesis
    by (simp add: eligible_mappings_def pick product_concat_map filter_concat map_concat comp_def filter_map)
qed

lemma only_element: "distinct xs \<Longrightarrow> set xs = {c} \<Longrightarrow> xs = [c]"
  by (metis distinct.simps(2) empty_iff empty_set insert_iff list.exhaust list.set_intros(1) list.simps(15) singletonD subset_singletonD
      subset_insertI neq_Nil_conv)

lemma eligible_distinct:
  assumes "distinct (db_mappings db)" "distinct (map ri_id (db_instruments db))" "distinct (map rd_id (db_datasets db))"
  shows "distinct (eligible_mappings db key dataset)"
  using assms unfolding eligible_product by (auto intro!: distinct_filter distinct_product simp: distinct_map)

text \<open>The approved mapping of a ticker: one instrument, and no other data set has it current.\<close>

definition approved :: "string \<Rightarrow> utc \<Rightarrow> string \<Rightarrow> ResearchInstrument \<Rightarrow> SeriesMapping" where
  "approved dataset clock ticker i =
     \<lparr> sm_dataset = dataset, sm_series = ticker, sm_instrument = ri_id i, sm_kind = ''TICKER_EXACT'',
       sm_reason = ''User-authorized one-month SIM research ticker mapping'', sm_approved_at = clock,
       sm_approved_by = ''saxo-db-sim-research-total-return-v1'', sm_active = True \<rparr>"

lemma new_mappings_set:
  "set (new_mappings dataset clock listed) =
     {approved dataset clock ticker i | ticker key i. (ticker, key) \<in> set market_keys \<and> i \<in> set listed \<and> ri_key i = key \<and> ri_active i}"
  by (auto simp: new_mappings_def approved_def split: if_splits) force+

lemma market_keys_distinct: "distinct (map snd market_keys)" "distinct (map fst market_keys)" "map fst market_keys = required_tickers"
  by (simp_all add: market_keys_def required_tickers_def)

lemma every_ticker_mapped:
  assumes keys: "mapping_keys_ok (olds @ news)" and news: "news = new_mappings dataset clock listed"
    and old: "list_all (\<lambda>m. sm_dataset m \<noteq> dataset) olds"
    and count: "length (filter (\<lambda>m. sm_dataset m = dataset \<and> sm_active m) (olds @ news)) = length required_tickers"
    and ticker: "(ticker, key) \<in> set market_keys"
  shows "\<exists>i \<in> set listed. approved dataset clock ticker i \<in> set news \<and> ri_key i = key \<and> ri_active i"
proof -
  have all: "sm_dataset m = dataset \<and> sm_active m" if "m \<in> set news" for m
    using that by (auto simp: news new_mappings_set approved_def)
  have "filter (\<lambda>m. sm_dataset m = dataset \<and> sm_active m) olds = []"
    using old by (auto simp: filter_empty_conv list_all_iff)
  moreover have "filter (\<lambda>m. sm_dataset m = dataset \<and> sm_active m) news = news" using all by (simp add: filter_id_conv)
  ultimately have n: "length news = 5" using count by (simp add: required_tickers_def)
  have "distinct (map (\<lambda>m. (sm_dataset m, sm_series m)) news)" using keys by (simp add: mapping_keys_ok_def)
  then have "inj_on (\<lambda>m. (sm_dataset m, sm_series m)) (set news)" "distinct news" by (simp_all add: distinct_map)
  have "inj_on sm_series (set news)"
  proof (rule inj_onI)
    fix x y assume "x \<in> set news" "y \<in> set news" "sm_series x = sm_series y"
    with all show "x = y" using inj_onD [OF \<open>inj_on (\<lambda>m. (sm_dataset m, sm_series m)) (set news)\<close>, of x y] by simp
  qed
  then have "card (sm_series ` set news) = 5" using n \<open>distinct news\<close> by (simp add: card_image distinct_card)
  moreover have "sm_series ` set news \<subseteq> set (map fst market_keys)"
    by (auto simp: news new_mappings_set approved_def intro!: image_eqI)
  moreover have "card (set (map fst market_keys)) = 5" by (simp add: market_keys_def)
  ultimately have "sm_series ` set news = set (map fst market_keys)" by (intro card_subset_eq) auto
  then have "ticker \<in> sm_series ` set news" using ticker by force
  then obtain m where m: "m \<in> set news" "sm_series m = ticker" by blast
  then obtain t k i where "m = approved dataset clock t i" "(t, k) \<in> set market_keys" "i \<in> set listed" "ri_key i = k" "ri_active i"
    unfolding news new_mappings_set by blast
  moreover from this m have "t = ticker" by (simp add: approved_def)
  moreover from calculation have "k = key" using ticker market_keys_distinct(2) by (metis eq_key_imp_eq_value)
  ultimately show ?thesis using m(1) by blast
qed

lemma rows_of_ticker:
  assumes "emap (ticker_rows dataset ids delivered) ts = Inr rss" "distinct ts" "ticker \<in> set ts"
  shows "\<exists>stored. ticker_rows dataset ids delivered ticker = Inr stored \<and> filter (\<lambda>r. dr_ticker r = ticker) (concat rss) = stored"
proof -
  have own: "dr_ticker r = t \<and> dr_dataset r = dataset \<and> DailyRow.dr_quality r = ''PASS''" if "ticker_rows dataset ids delivered t = Inr rs" "r \<in> set rs" for t rs r
  proof -
    from that(1) obtain rows fid where "emap (stored_row dataset t fid) rows = Inr rs"
      by (auto simp: ticker_rows_def split: option.splits)
    from emap_set [OF this that(2)] show ?thesis by (auto simp: stored_row_def ebind_eq_Inr)
  qed
  show ?thesis
    using assms
  proof (induction ts arbitrary: rss)
    case (Cons t ts)
    then obtain rs rss' where rs: "ticker_rows dataset ids delivered t = Inr rs"
      and rest: "emap (ticker_rows dataset ids delivered) ts = Inr rss'" "rss = rs # rss'" by (auto simp: ebind_eq_Inr)
    have others: "filter (\<lambda>r. dr_ticker r = u) (concat rss') = []" if "u \<notin> set ts" for u
    proof -
      have "dr_ticker r \<noteq> u" if r: "r \<in> set (concat rss')" for r
      proof -
        from r obtain xs where "xs \<in> set rss'" "r \<in> set xs" by auto
        with emap_set [OF rest(1)] own show ?thesis using \<open>u \<notin> set ts\<close> by metis
      qed
      then show ?thesis by (simp add: filter_empty_conv)
    qed
    show ?case
    proof (cases "t = ticker")
      case True
      then have "filter (\<lambda>r. dr_ticker r = ticker) rs = rs" using own [OF rs] by (simp add: filter_id_conv)
      with others [of ticker] Cons.prems(2) True show ?thesis using rs rest(2) by simp
    next
      case False
      then have "filter (\<lambda>r. dr_ticker r = ticker) rs = []" using own [OF rs] by (auto simp: filter_empty_conv)
      moreover have "ticker \<in> set ts" using Cons.prems(3) False by simp
      ultimately show ?thesis using Cons.IH [OF rest(1)] Cons.prems(2) rest(2) by simp
    qed
  qed simp
qed

text \<open>C15: A publication that commits is what the total-return reader then serves: for each of the five tickers the
  new data set is the only candidate, its state revision is the digest of the manifest, and the query answers
  exactly the rows delivered for the ticker inside the window, in the order of their dates, whatever data set was
  current before.
\<close>

theorem published_dataset_is_served:
  assumes "publish_dataset dataset path sha clock files delivered pb = (Inr run, pb')"
    and "registered (pb_db pb)" and "(ticker, key) \<in> set market_keys"
  shows "\<exists>c rows fid stored. candidates (pb_db pb') key None = [c] \<and> sm_dataset (fst c) = dataset \<and> sm_series (fst c) = ticker
    \<and> rd_manifest_sha256 (snd (snd c)) = Some sha \<and> length sha = 64
    \<and> map_of (rev delivered) ticker = Some rows \<and> emap (stored_row dataset ticker fid) rows = Inr stored
    \<and> daily_rows (daily_query (pb_db pb') c start till ''eligible'') None
        = sort_key dr_date (filter (\<lambda>r. start \<le> dr_date r \<and> dr_date r < till) stored)"
proof -
  let ?old = "pb_db pb" and ?db = "pb_db pb'" and ?d = "new_dataset dataset path sha"
  from published_tables [OF assms(1)] obtain ids rows where
    fresh: "rd_id ?d \<notin> set (map rd_id (db_datasets ?old))" and hex: "hex_digest sha"
    and db: "db_instruments ?db = db_instruments ?old" "db_datasets ?db = db_datasets (retire_current ?old) @ [?d]"
      "db_mappings ?db = db_mappings ?old @ new_mappings dataset clock (db_instruments ?old)"
    and keys: "mapping_keys_ok (db_mappings ?db)"
    and count: "length (filter (\<lambda>m. sm_dataset m = dataset \<and> sm_active m) (db_mappings ?db)) = length required_tickers"
    and copied: "emap (ticker_rows dataset ids delivered) required_tickers = Inr rows" "db_daily ?db = db_daily ?old @ concat rows" .
  have id: "rd_id ?d = dataset" by (simp add: new_dataset_def)
  have old_m: "list_all (\<lambda>m. sm_dataset m \<noteq> dataset) (db_mappings ?old)"
    and old_r: "list_all (\<lambda>r. dr_dataset r \<noteq> dataset) (db_daily ?old)"
    using assms(2) fresh id by (auto simp: registered_def list_all_iff)
  from every_ticker_mapped [OF keys [unfolded db(3)] refl old_m count [unfolded db(3)] assms(3)]
  obtain i where i: "i \<in> set (db_instruments ?old)" "ri_key i = key" "ri_active i"
    and m: "approved dataset clock ticker i \<in> set (new_mappings dataset clock (db_instruments ?old))" by blast
  let ?m = "approved dataset clock ticker i"
  let ?c = "(?m, i, ?d)"
  have elig: "?c \<in> set (eligible_mappings ?db key None)"
    using i m by (auto simp: eligible_product db approved_def new_dataset_def)
  have only: "e = ?c" if e: "e \<in> set (eligible_mappings ?db key None)" "is_current e" for e
  proof -
    obtain m' i' d' where e': "e = (m', i', d')" by (cases e)
    from e(1) have in': "m' \<in> set (db_mappings ?db)" "i' \<in> set (db_instruments ?old)" "d' \<in> set (db_datasets ?db)"
      "ri_id i' = sm_instrument m'" "rd_id d' = sm_dataset m'" "ri_key i' = key" "ri_active i'" "rd_kind d' = ''total_return''"
      unfolding e' eligible_product db(1) by auto
    have "d' = ?d" using retired_not_current [OF assms(2) _ in'(8)] in'(3) e(2) by (auto simp: db(2) e' is_current_def)
    then have "sm_dataset m' = dataset" using in'(5) id by simp
    then have "m' \<in> set (new_mappings dataset clock (db_instruments ?old))" using in'(1) old_m by (auto simp: db(3) list_all_iff)
    then obtain t k j where m': "m' = approved dataset clock t j" "(t, k) \<in> set market_keys" "j \<in> set (db_instruments ?old)" "ri_key j = k"
      by (auto simp: new_mappings_set)
    have "ri_id j = ri_id i'" using in'(4) m'(1) by (simp add: approved_def)
    then have "j = i'" using m'(3) in'(2) assms(2) by (auto simp: registered_def distinct_map dest: inj_onD)
    then have "k = key" using m'(4) in'(6) by simp
    then have "t = ticker" using m'(2) assms(3) by (auto simp: market_keys_def)
    have "distinct (map (\<lambda>m. (sm_dataset m, sm_series m)) (db_mappings ?db))" using keys by (simp add: mapping_keys_ok_def)
    then have "inj_on (\<lambda>m. (sm_dataset m, sm_series m)) (set (db_mappings ?db))" by (simp add: distinct_map)
    moreover have "?m \<in> set (db_mappings ?db)" using m by (simp add: db(3))
    moreover have "(sm_dataset m', sm_series m') = (sm_dataset ?m, sm_series ?m)"
      using m'(1) \<open>t = ticker\<close> by (simp add: approved_def)
    ultimately have "m' = ?m" using in'(1) by (meson inj_onD)
    moreover from this have "ri_id i' = ri_id i" using in'(4) by (simp add: approved_def)
    then have "i' = i" using i(1) in'(2) assms(2) by (auto simp: registered_def distinct_map dest: inj_onD)
    ultimately show ?thesis using e' \<open>d' = ?d\<close> by simp
  qed
  have current: "is_current ?c" by (simp add: is_current_def new_dataset_def)
  have "distinct (map rd_id (db_datasets ?db))"
    using assms(2) fresh by (simp add: db(2) registered_def)
  moreover have "distinct (db_mappings ?db)" using keys by (simp add: mapping_keys_ok_def distinct_map)
  ultimately have "distinct (filter is_current (eligible_mappings ?db key None))"
    using assms(2) by (intro distinct_filter eligible_distinct) (simp_all add: db(1) registered_def)
  moreover have "set (filter is_current (eligible_mappings ?db key None)) = {?c}"
  proof (rule set_eqI)
    fix e
    show "e \<in> set (filter is_current (eligible_mappings ?db key None)) \<longleftrightarrow> e \<in> {?c}"
      using elig current only [of e] unfolding set_filter by blast
  qed
  ultimately have "filter is_current (eligible_mappings ?db key None) = [?c]" by (rule only_element)
  moreover have "list_ex is_current (eligible_mappings ?db key None)" using elig current unfolding list_ex_iff by blast
  ultimately have cand: "candidates ?db key None = [?c]" by (simp add: candidates_def Let_def)
  have "ticker \<in> set required_tickers" using assms(3) by (auto simp: market_keys_def required_tickers_def)
  from rows_of_ticker [OF copied(1) _ this] obtain stored where
    stored: "ticker_rows dataset ids delivered ticker = Inr stored" "filter (\<lambda>r. dr_ticker r = ticker) (concat rows) = stored"
    by (auto simp: required_tickers_def)
  from stored(1) obtain given fid where given: "map_of (rev delivered) ticker = Some given"
    "emap (stored_row dataset ticker fid) given = Inr stored"
    by (auto simp: ticker_rows_def split: option.splits)
  have own: "dr_dataset r = dataset \<and> DailyRow.dr_quality r = ''PASS''" if "r \<in> set (concat rows)" for r
  proof -
    from that obtain xs where "xs \<in> set rows" "r \<in> set xs" by auto
    with emap_set [OF copied(1)] obtain t where t: "ticker_rows dataset ids delivered t = Inr xs" by blast
    then obtain ys f where "emap (stored_row dataset t f) ys = Inr xs" by (auto simp: ticker_rows_def split: option.splits)
    from emap_set [OF this \<open>r \<in> set xs\<close>] show ?thesis by (auto simp: stored_row_def ebind_eq_Inr)
  qed
  let ?q = "daily_query ?db ?c start till ''eligible''"
  have "filter (daily_selected ?q None) (db_daily ?old) = []"
    using old_r by (auto simp: filter_empty_conv list_all_iff daily_selected_def daily_query_def approved_def)
  moreover have "filter (daily_selected ?q None) (concat rows)
      = filter (\<lambda>r. start \<le> dr_date r \<and> dr_date r < till) (filter (\<lambda>r. dr_ticker r = ticker) (concat rows))"
    using own unfolding filter_filter
    by (intro filter_cong refl) (auto simp: daily_selected_def daily_query_def approved_def)
  ultimately have "daily_rows ?q None = sort_key dr_date (filter (\<lambda>r. start \<le> dr_date r \<and> dr_date r < till) stored)"
    using stored(2) by (simp add: daily_rows_def daily_query_def copied(2))
  moreover have "sm_dataset (fst ?c) = dataset" "sm_series (fst ?c) = ticker" "rd_manifest_sha256 (snd (snd ?c)) = Some sha" "length sha = 64"
    using hex by (simp_all add: approved_def new_dataset_def hex_digest_def)
  ultimately show ?thesis using cand given by blast
qed

section \<open>What a run can change\<close>

lemma publish_rollback: "publish_dataset dataset path sha clock files delivered pb = (Inl e, pb') \<Longrightarrow> pb' = pb"
  using transaction_rollback [of "publish_body dataset path sha clock files delivered" pb e] by (simp add: publish_dataset_def)

lemma retained_publication:
  assumes "retain_and_publish up now clock dataset latest q fetched st = (r, st')"
  shows "us_publication st' = us_publication st
    \<or> (\<exists>summary path. r = Inr (PublishedDataset summary) \<and> um_dataset summary = dataset
        \<and> publish_dataset dataset path (um_manifest_sha256 summary) clock
            (map (\<lambda>f. (ft_ticker f, raw_path (''data/acquisition/runs/'' @ dataset @ ''/total_return'') (ft_ticker f), ft_sha256 f)) fetched)
            (map (\<lambda>f. (ft_ticker f, ft_rows f)) fetched) (us_publication st) = (Inr (um_run summary), us_publication st'))"
  using assms publish_rollback by (auto simp: retain_and_publish_def Let_def split: prod.splits sum.splits)

text \<open>C16: A run of the update changes the published tables only by the one transaction that publishes, and only with
  rows of all five tickers that passed the gate up to the latest completed session; in every other case (no
  session, a failed fetch, a rejected delivery, a file that exists, an error of the database) the tables are as
  they were.
\<close>

theorem update_publishes_only_gated:
  "case run_once up net legacy sessions now clock random_hex st of (r, st') \<Rightarrow>
     us_publication st' = us_publication st
     \<or> (\<exists>summary path latest expected period2 fetched q. r = Inr (PublishedDataset summary)
         \<and> latest_completed_session legacy sessions clock = Inr (latest, expected)
         \<and> list_all2 (\<lambda>t f. fst (fetch_yahoo_ticker up net period2 t) = Inr f) required_tickers fetched
         \<and> q = evaluate_sim_research_quality (up_shown up) (up_rows_sha256 up) (concat (map ft_rows fetched)) expected
         \<and> bq_pass q \<and> list_all (\<lambda>(t, d). d = Some (date_iso latest)) (sq_latest q)
         \<and> publish_dataset (dataset_id now random_hex) path (um_manifest_sha256 summary) clock
             (map (\<lambda>f. (ft_ticker f, raw_path (''data/acquisition/runs/'' @ dataset_id now random_hex @ ''/total_return'') (ft_ticker f), ft_sha256 f)) fetched)
             (map (\<lambda>f. (ft_ticker f, ft_rows f)) fetched) (us_publication st) = (Inr (um_run summary), us_publication st'))"
proof -
  let ?fetch = "ebind (latest_completed_session legacy sessions clock) (\<lambda>(latest, expected).
           ebind (escaping (next_midnight latest)) (\<lambda>period2.
           ebind (emap (\<lambda>t. fst (fetch_yahoo_ticker up net period2 t)) required_tickers) (\<lambda>fetched. Inr (latest, expected, fetched))))"
  obtain r st' where run: "run_once up net legacy sessions now clock random_hex st = (r, st')" by fastforce
  show ?thesis
  proof (cases ?fetch)
    case (Inl e)
    then show ?thesis by (simp add: run_once_def)
  next
    case (Inr v)
    obtain latest expected fetched where v: "v = (latest, expected, fetched)" by (cases v)
    let ?q = "evaluate_sim_research_quality (up_shown up) (up_rows_sha256 up) (concat (map ft_rows fetched)) expected"
    from Inr v obtain period2 where got: "latest_completed_session legacy sessions clock = Inr (latest, expected)"
      "list_all2 (\<lambda>t f. fst (fetch_yahoo_ticker up net period2 t) = Inr f) required_tickers fetched"
      by (auto simp: ebind_eq_Inr emap_Inr_iff)
    show ?thesis
    proof (cases "bq_pass ?q \<and> list_all (\<lambda>(t, d). d = Some (date_iso latest)) (sq_latest ?q)")
      case False
      then have "us_publication st' = us_publication st"
        using run Inr v by (auto simp: run_once_def Let_def list_all_iff list_ex_iff split: if_splits)
      then show ?thesis using run by simp
    next
      case True
      then have "\<not> list_ex (\<lambda>(t, d). d \<noteq> Some (date_iso latest)) (sq_latest ?q)" by (auto simp: list_all_iff list_ex_iff)
      then have "retain_and_publish up now clock (dataset_id now random_hex) latest ?q fetched st = (r, st')"
        using run Inr v True by (simp add: run_once_def Let_def)
      from retained_publication [OF this] show ?thesis using got True run by auto
    qed
  qed
qed

text \<open>A fetch tries at most three times, only after errors that may pass, and waits longer each time.\<close>

lemma fetch_attempts_spec:
  "\<exists>k \<le> left. fetch_attempts try n left = (try (n + k), [n..<n + k])
     \<and> (\<forall>j < k. \<exists>code status. try (n + j) = Inl (UpdateError code status) \<and> \<not> final_status status)
     \<and> (\<forall>code status. try (n + k) = Inl (UpdateError code status) \<longrightarrow> final_status status \<or> k = left)"
proof (induction left arbitrary: n)
  case 0
  then show ?case by (auto split: sum.splits update_error.splits)
next
  case (Suc left)
  show ?case
  proof (cases "\<exists>code status. try n = Inl (UpdateError code status) \<and> \<not> final_status status")
    case False
    then show ?thesis by (intro exI [of _ 0]) (auto split: sum.splits update_error.splits)
  next
    case True
    then obtain code status where t: "try n = Inl (UpdateError code status)" "\<not> final_status status" by blast
    from Suc.IH [of "Suc n"] obtain k where k: "k \<le> left" "fetch_attempts try (Suc n) left = (try (Suc n + k), [Suc n..<Suc n + k])"
      "\<forall>j < k. \<exists>code status. try (Suc n + j) = Inl (UpdateError code status) \<and> \<not> final_status status"
      "\<forall>code status. try (Suc n + k) = Inl (UpdateError code status) \<longrightarrow> final_status status \<or> k = left" by blast
    have "\<exists>code status. try (n + j) = Inl (UpdateError code status) \<and> \<not> final_status status" if "j < Suc k" for j
      using k(3) t that by (cases j) auto
    moreover have "fetch_attempts try n (Suc left) = (try (n + Suc k), [n..<n + Suc k])"
      using t k(2) by (simp add: upt_conv_Cons)
    ultimately show ?thesis using k(1,4) by (intro exI [of _ "Suc k"]) auto
  qed
qed

end
