(* ===== verification/PublishExamples.thy ===== *)
theory PublishExamples
  imports TotalReturnPublish
begin

text \<open>
  A publication of one day for the five tickers, evaluated: the data set that was current before is retired. The
  witness of the property that the reader serves what was published.
\<close>

definition example_cell :: "int \<Rightarrow> cell" where
  "example_cell n = CVal (JInt n)"

definition example_price_row :: "date \<Rightarrow> prow" where
  "example_price_row d = [(''date'', CDay d), (''open_unadjusted'', example_cell 99), (''high_unadjusted'', example_cell 102),
     (''low_unadjusted'', example_cell 98), (''close_unadjusted'', example_cell 101), (''adjusted_close'', example_cell 100),
     (''total_return_index'', example_cell 100), (''volume'', CVal JNull), (''dividend_cash'', example_cell 0),
     (''split_factor'', example_cell 1)]"

definition example_delivery :: "(string \<times> prow list) list" where
  "example_delivery = map (\<lambda>t. (t, [example_price_row 738887, example_price_row 738888])) required_tickers"

definition example_sources :: "(string \<times> string \<times> string) list" where
  "example_sources = map (\<lambda>t. (t, t, ''aa'')) required_tickers"

definition example_digest :: string where
  "example_digest = ''aaaaaaaaaaaaaaaaaaaaaaaaaaaaaaaaaaaaaaaaaaaaaaaaaaaaaaaaaaaaaaaa''"

definition example_tables :: research_db where
  "example_tables =
     \<lparr> db_instruments = map (\<lambda>(n, t, k). \<lparr> ri_id = n, ri_key = k, ri_symbol = t, ri_category = ''etf'', ri_active = True \<rparr>)
         (zip [1, 2, 3, 4, 5] market_keys),
       db_datasets = [(new_dataset ''OLD'' ''manifests/old.json'' example_digest)],
       db_mappings = [], db_daily = [], db_files = [] \<rparr>"

definition example_publication :: publication where
  "example_publication = \<lparr> pb_db = example_tables, pb_runs = [], pb_paths = [], pb_next_run = 1, pb_next_file = 1 \<rparr>"

definition commits :: "(update_error + int) \<times> publication \<Rightarrow> bool" where
  "commits r = (case fst r of Inl _ \<Rightarrow> False | Inr _ \<Rightarrow> True)"

lemma example_commits:
  "commits (publish_dataset ''NEW'' ''manifests/new.json'' example_digest 0 example_sources example_delivery example_publication)"
  by code_simp

lemma example_registered: "registered example_tables"
  by code_simp

theorem published_dataset_is_served_witness:
  "\<exists>run pb' c. publish_dataset ''NEW'' ''manifests/new.json'' example_digest 0 example_sources example_delivery example_publication = (Inr run, pb')
     \<and> candidates (pb_db pb') ''spy'' None = [c] \<and> sm_dataset (fst c) = ''NEW'' \<and> sm_series (fst c) = ''SPY''"
proof -
  obtain run pb' where run:
    "publish_dataset ''NEW'' ''manifests/new.json'' example_digest 0 example_sources example_delivery example_publication = (Inr run, pb')"
    using example_commits
    by (cases "publish_dataset ''NEW'' ''manifests/new.json'' example_digest 0 example_sources example_delivery example_publication")
      (auto simp: commits_def split: sum.splits)
  have "registered (pb_db example_publication)" "(''SPY'', ''spy'') \<in> set market_keys"
    using example_registered by (simp_all add: example_publication_def market_keys_def)
  from published_dataset_is_served [OF run this, where start = 738000 and till = 739000] obtain c where
    "candidates (pb_db pb') ''spy'' None = [c]" "sm_dataset (fst c) = ''NEW''" "sm_series (fst c) = ''SPY''"
    by (elim exE conjE) rule
  with run show ?thesis by (intro exI conjI)
qed

end
