(* ===== verification/StrategyContract.thy ===== *)
theory StrategyContract
  imports TotalReturn
begin

text \<open>
  \<open>market_db/strategy_external_contract.py\<close>: the contract of the external data of the strategy analysis, the
  receipts of such data, and the public status. A contract and a receipt are dictionaries as \<open>json.loads\<close>
  returns them; files and their digests come from the record \<open>Repository\<close>, the digest of a canonical JSON
  text (\<open>canonical_json_sha256\<close>) is the parameter \<open>digest\<close>.
\<close>

section \<open>Errors\<close>

datatype strategy_error = StrategyError string | StrategyRaised exn

definition strategy_fail :: "string \<Rightarrow> strategy_error + 'a" where
  "strategy_fail code = Inl (StrategyError code)"

definition raising :: "exn + 'a \<Rightarrow> strategy_error + 'a" where
  "raising r = (case r of Inl e \<Rightarrow> Inl (StrategyRaised e) | Inr v \<Rightarrow> Inr v)"

definition require :: "bool \<Rightarrow> string \<Rightarrow> strategy_error + unit" where
  "require b code = (if b then Inr () else strategy_fail code)"

definition require_in :: "json \<Rightarrow> string list \<Rightarrow> string \<Rightarrow> strategy_error + unit" where
  "require_in v texts code = ebind (raising (in_texts v texts)) (\<lambda>known. require known code)"

lemma strategy_fail_Inr [simp]: "strategy_fail code \<noteq> Inr v"
  by (simp add: strategy_fail_def)

lemma raising_Inr [simp]: "raising r = Inr v \<longleftrightarrow> r = Inr v"
  by (cases r) (simp_all add: raising_def)

lemma require_Inr [simp]: "require b code = Inr u \<longleftrightarrow> b"
  by (simp add: require_def)

lemma require_in_Inr [simp]: "require_in v texts code = Inr u \<longleftrightarrow> (\<exists>t \<in> set texts. v = JStr t)"
  by (auto simp: require_in_def ebind_eq_Inr in_texts_def split: json.splits)

section \<open>Constants\<close>

definition strategy_contract_path :: string where
  "strategy_contract_path = ''specs/strategy_external_data_contract_v1.json''"

definition receipt_schema_path :: string where
  "receipt_schema_path = ''specs/strategy_external_data_receipt_v1.schema.json''"

definition strategy_manifest_path :: string where
  "strategy_manifest_path = ''manifests/strategy_external_data_contract_manifest_v1.json''"

definition expected_roles :: "string list" where
  "expected_roles = [''CURRENT_NATIVE_MARKET_BAR'', ''SIGNAL_TOTAL_RETURN_DAILY'', ''VALUATION_PRICE_DAILY'',
     ''COMMON_REGULAR_SESSION_CALENDAR'', ''DISTRIBUTION_DECLARATION'', ''DISTRIBUTION_CASH_TRANSACTION'',
     ''INSTRUMENT_REFERENCE'', ''PROPOSAL_PRICE_SNAPSHOT'', ''FEE_ESTIMATE_AND_ACTUAL'', ''CURRENCY_AND_AMOUNT_UNIT'',
     ''REVISION_AND_LATENCY_STATE'']"

definition contract_states :: "string list" where
  "contract_states = [''ACTIVE'', ''READY_FOR_READ_ONLY_VALIDATION'', ''CLOSED_SPEC'', ''BLOCKED_EXTERNAL_CONTRACT'']"

definition availability_states :: "string list" where
  "availability_states = [''AVAILABLE'', ''NOT_EVALUATED'', ''BLOCKED_EXTERNAL_CONTRACT'']"

definition public_available_states :: "string list" where
  "public_available_states = [''AVAILABLE'', ''AVAILABLE_WITH_WARNINGS'']"

definition receipt_allowed_keys :: "string list" where
  "receipt_allowed_keys =
     [''schema_version'', ''receipt_id'', ''contract_id'', ''dataset_role'', ''availability_state'', ''dataset_id'',
      ''provider_id'', ''provider_data_version'', ''lineage_id'', ''manifest_sha256'', ''ordered_content_sha256'',
      ''calendar_id'', ''source_as_of'', ''source_observed_at_utc'', ''available_at_utc'', ''accepted_at_utc'',
      ''expected_by_utc'', ''published_at_utc'', ''freshness_state'', ''quality_state'', ''revision_state'',
      ''cost_confidence'', ''warning_ids'', ''blocker_ids'', ''values_modified'', ''interpolation_performed'',
      ''account_fingerprint'', ''payload'', ''receipt_sha256'', ''supersedes_receipt_id'']"

definition receipt_required_keys :: "string list" where
  "receipt_required_keys =
     [''schema_version'', ''receipt_id'', ''contract_id'', ''dataset_role'', ''availability_state'',
      ''source_observed_at_utc'', ''available_at_utc'', ''freshness_state'', ''quality_state'', ''revision_state'',
      ''cost_confidence'', ''warning_ids'', ''blocker_ids'', ''values_modified'', ''interpolation_performed'',
      ''payload'', ''receipt_sha256'']"

definition secret_keys :: "string list" where
  "secret_keys = [''access_token'', ''refresh_token'', ''authorization'', ''accountkey'', ''clientkey'',
     ''account_key'', ''client_key'', ''tradableon'', ''tradable_on'', ''password'', ''secret'']"

definition quality_states :: "string list" where
  "quality_states = [''PASS'', ''PASS_WITH_WARNINGS'', ''NOT_EVALUATED'', ''FAIL_DATA_QUALITY'']"

definition freshness_states :: "string list" where
  "freshness_states = [''CURRENT'', ''DELAYED'', ''DATA_NOT_READY'', ''STALE'', ''NOT_EVALUATED_SLA'',
     ''BLOCKED_INTERFACE_OPERATIONAL'']"

definition receipt_availability_states :: "string list" where
  "receipt_availability_states = [''AVAILABLE'', ''AVAILABLE_WITH_WARNINGS'', ''DATA_NOT_READY'',
     ''BLOCKED_EXTERNAL_CONTRACT'', ''BLOCKED_INTERFACE_OPERATIONAL'', ''FAIL_DATA_QUALITY'']"

definition revision_states :: "string list" where
  "revision_states = [''CURRENT_ACCEPTED'', ''REVISION_DETECTED'', ''REVISION_REVIEW_PENDING'',
     ''REVISION_ACCEPTED_NEXT_DECISION'', ''SUPERSEDED'', ''NOT_EVALUATED'']"

definition cost_confidences :: "string list" where
  "cost_confidences = [''ACTUAL_BOOKED'', ''PUBLISHED_SCHEDULE_ESTIMATE'', ''RESEARCH_MODEL_ONLY'', ''UNKNOWN'',
     ''NOT_APPLICABLE'']"

section \<open>Values of a receipt\<close>

fun contains_secret_key :: "json \<Rightarrow> bool" and list_has_secret :: "json list \<Rightarrow> bool"
  and items_have_secret :: "(string \<times> json) list \<Rightarrow> bool" where
  "contains_secret_key (JObj kvs) = items_have_secret kvs"
| "contains_secret_key (JArr xs) = list_has_secret xs"
| "contains_secret_key _ = False"
| "list_has_secret [] = False"
| "list_has_secret (x # xs) = (contains_secret_key x \<or> list_has_secret xs)"
| "items_have_secret [] = False"
| "items_have_secret ((k, v) # kvs) =
     (lower k \<in> set secret_keys \<or> contains_secret_key v \<or> items_have_secret kvs)"

definition hex64 :: "string \<Rightarrow> bool" where
  "hex64 s = (length s = 64 \<and> list_all (\<lambda>c. is_digit c \<or> 97 \<le> ccode c \<and> ccode c \<le> 102) s)"

definition valid_sha256 :: "bool \<Rightarrow> json \<Rightarrow> bool" where
  "valid_sha256 nullable v = (nullable \<and> v = JNull \<or> (case v of JStr s \<Rightarrow> hex64 s | _ \<Rightarrow> False))"

text \<open>A time text whose offset is zero.\<close>

definition utc_time :: "string \<Rightarrow> utc option" where
  "utc_time s =
     Option.bind (parse_date_prefix s) (\<lambda>(d, r).
       case r of
         [] \<Rightarrow> None
       | sep # r1 \<Rightarrow>
           Option.bind (parse_clock r1) (\<lambda>(us, r2).
             if parse_offset r2 = Some (Some 0) then Some (utc_of_date d + us) else None))"

definition schema_invalid :: string where
  "schema_invalid = ''STRATEGY_EXTERNAL_RECEIPT_SCHEMA_INVALID''"

definition receipt_time :: "bool \<Rightarrow> json \<Rightarrow> strategy_error + utc option" where
  "receipt_time nullable v =
     (if nullable \<and> v = JNull then Inr None
      else case v of
        JStr s \<Rightarrow> (case utc_time (replace_z s) of None \<Rightarrow> strategy_fail schema_invalid | Some t \<Rightarrow> Inr (Some t))
      | _ \<Rightarrow> strategy_fail schema_invalid)"

text \<open>\<open>len(set(values))\<close> raises for values that cannot be hashed; otherwise the values must be distinct texts.\<close>

definition check_texts :: "(string \<Rightarrow> bool) \<Rightarrow> json list \<Rightarrow> string \<Rightarrow> strategy_error + unit" where
  "check_texts ok vs code =
     (if \<not> list_all hashable vs then Inl (StrategyRaised TypeError)
      else require (distinct vs \<and> list_all (\<lambda>v. case text_of v of None \<Rightarrow> False | Some t \<Rightarrow> ok t) vs) code)"

section \<open>The contract\<close>

definition not_verified :: string where
  "not_verified = ''STRATEGY_EXTERNAL_CONTRACT_NOT_VERIFIED''"

definition read_document :: "'b Repository \<Rightarrow> string \<Rightarrow> strategy_error + (string \<times> json) list \<times> string" where
  "read_document rp path =
     (case regular rp path of
        None \<Rightarrow> strategy_fail not_verified
      | Some b \<Rightarrow> (case rp_json rp b of Some (JObj kvs) \<Rightarrow> Inr (kvs, rp_sha256 rp b) | _ \<Rightarrow> strategy_fail not_verified))"

definition safe_relative_path :: "json \<Rightarrow> strategy_error + string" where
  "safe_relative_path v =
     (case v of
        JStr p \<Rightarrow> if p \<noteq> [] \<and> relative_path_ok p then Inr p else strategy_fail ''STRATEGY_EXTERNAL_CONTRACT_PATH_INVALID''
      | _ \<Rightarrow> strategy_fail ''STRATEGY_EXTERNAL_CONTRACT_PATH_INVALID'')"

text \<open>The dictionaries among the contracts, and their roles.\<close>

definition contract_roles :: "json list \<Rightarrow> json list" where
  "contract_roles cs = concat (map (\<lambda>c. case c of JObj item \<Rightarrow> [jget item ''dataset_role''] | _ \<Rightarrow> []) cs)"

definition check_blocked :: "(string \<times> json) list \<Rightarrow> json list \<Rightarrow> json \<Rightarrow> json \<Rightarrow> bool" where
  "check_blocked item blockers quality freshness =
     (jget item ''availability_state'' \<noteq> JStr ''BLOCKED_EXTERNAL_CONTRACT''
      \<or> blockers \<noteq> [] \<and> quality \<noteq> JStr ''PASS'' \<and> freshness \<noteq> JStr ''CURRENT''
        \<and> jget item ''dataset_id'' = JNull \<and> jget item ''last_good_receipt_id'' = JNull)"

definition check_contract_item :: "json \<Rightarrow> strategy_error + unit" where
  "check_contract_item c =
     (case c of
        JObj item \<Rightarrow>
          let bad_state = ''STRATEGY_EXTERNAL_CONTRACT_STATE_INVALID'' in
          ebind (require_in (jget item ''contract_state'') contract_states bad_state) (\<lambda>_.
          ebind (require_in (jget item ''availability_state'') availability_states bad_state) (\<lambda>_.
          case jget item ''quality'' of
            JObj quality \<Rightarrow>
              ebind (require_in (jget quality ''state'') quality_states bad_state) (\<lambda>_.
              case jget item ''freshness'' of
                JObj freshness \<Rightarrow>
                  ebind (require_in (jget freshness ''state'') freshness_states bad_state) (\<lambda>_.
                  case (jget item ''blocker_ids'', jget item ''decision_required_ids'') of
                    (JArr blockers, JArr decisions) \<Rightarrow>
                      ebind (require (check_blocked item blockers (jget quality ''state'') (jget freshness ''state''))
                               ''STRATEGY_EXTERNAL_CONTRACT_FAIL_CLOSED_INVALID'') (\<lambda>_.
                      require (case jget item ''required_receipt_fields'' of JArr fs \<Rightarrow> fs \<noteq> [] | _ \<Rightarrow> False)
                        ''STRATEGY_EXTERNAL_CONTRACT_RECEIPT_INVALID'')
                  | _ \<Rightarrow> strategy_fail bad_state)
              | _ \<Rightarrow> strategy_fail bad_state)
          | _ \<Rightarrow> strategy_fail bad_state))
      | _ \<Rightarrow> Inl (StrategyRaised AttributeError))"

definition security_flags :: "(string \<times> bool) list" where
  "security_flags = [(''read_only_api'', True), (''account_identifiers_in_public_receipts'', False),
     (''tokens_in_public_receipts'', False), (''orders_allowed'', False), (''prechecks_allowed'', False)]"

definition check_security :: "json \<Rightarrow> bool" where
  "check_security v = (case v of JObj s \<Rightarrow> list_all (\<lambda>(k, b). jget s k = JBool b) security_flags | _ \<Rightarrow> False)"

definition validate_strategy_contract :: "(string \<times> json) list \<Rightarrow> strategy_error + unit" where
  "validate_strategy_contract p =
     ebind (require (equals_one (jget p ''schema_version'')) ''STRATEGY_EXTERNAL_CONTRACT_SCHEMA_INVALID'') (\<lambda>_.
     ebind (require (jget p ''bundle_status'' = JStr ''BLOCKED_EXTERNAL_CONTRACT'') ''STRATEGY_EXTERNAL_CONTRACT_STATE_INVALID'') (\<lambda>_.
     let bad_instruments = ''STRATEGY_EXTERNAL_CONTRACT_INSTRUMENTS_INVALID'' in
     case jget p ''instruments'' of
       JArr ts \<Rightarrow>
         if length ts \<noteq> 11 then strategy_fail bad_instruments
         else ebind (check_texts (\<lambda>t. t = upper t) ts bad_instruments) (\<lambda>_.
           case jget p ''contracts'' of
             JArr cs \<Rightarrow>
               if contract_roles cs \<noteq> map JStr expected_roles then strategy_fail ''STRATEGY_EXTERNAL_CONTRACT_ROLES_INVALID''
               else ebind (check_each check_contract_item cs) (\<lambda>_.
                 require (check_security (jget p ''security'')) ''STRATEGY_EXTERNAL_CONTRACT_SECURITY_INVALID'')
           | _ \<Rightarrow> strategy_fail ''STRATEGY_EXTERNAL_CONTRACT_ROLES_INVALID'')
     | _ \<Rightarrow> strategy_fail bad_instruments))"

text \<open>The files of the manifest as a dictionary: of two entries of a path the later one counts.\<close>

definition manifest_invalid :: string where
  "manifest_invalid = ''STRATEGY_EXTERNAL_CONTRACT_MANIFEST_INVALID''"

definition manifest_entry :: "json \<Rightarrow> strategy_error + string \<times> string" where
  "manifest_entry v =
     (case v of
        JObj item \<Rightarrow>
          ebind (safe_relative_path (jget item ''relative_path'')) (\<lambda>p.
            case jget item ''sha256'' of
              JStr h \<Rightarrow> if length h = 64 then Inr (p, h) else strategy_fail manifest_invalid
            | _ \<Rightarrow> strategy_fail manifest_invalid)
      | _ \<Rightarrow> strategy_fail manifest_invalid)"

definition same_dict :: "(string \<times> string) list \<Rightarrow> (string \<times> string) list \<Rightarrow> bool" where
  "same_dict a b = list_all (\<lambda>k. map_of a k = map_of b k) (map fst a @ map fst b)"

definition load_strategy_contract :: "'b Repository \<Rightarrow> strategy_error + (string \<times> json) list \<times> string" where
  "load_strategy_contract rp =
     ebind (read_document rp strategy_contract_path) (\<lambda>(payload, contract_sha).
     ebind (validate_strategy_contract payload) (\<lambda>_.
     ebind (safe_relative_path (jget payload ''manifest_relative_path'')) (\<lambda>path.
     ebind (require (path = strategy_manifest_path) manifest_invalid) (\<lambda>_.
     ebind (read_document rp path) (\<lambda>(manifest, manifest_sha).
     ebind (require (equals_one (jget manifest ''schema_version'')
                     \<and> py_eq (jget manifest ''bundle_id'') (jget payload ''bundle_id'')) manifest_invalid) (\<lambda>_.
     case jget manifest ''files'' of
       JArr entries \<Rightarrow>
         ebind (read_document rp receipt_schema_path) (\<lambda>(schema, schema_sha).
         ebind (emap manifest_entry entries) (\<lambda>bound.
         ebind (require (same_dict (rev bound) [(strategy_contract_path, contract_sha), (receipt_schema_path, schema_sha)])
                  manifest_invalid) (\<lambda>_.
           Inr (payload, manifest_sha))))
     | _ \<Rightarrow> strategy_fail manifest_invalid))))))"

section \<open>Validation of a receipt\<close>

fun find_contract :: "json \<Rightarrow> json \<Rightarrow> json list \<Rightarrow> strategy_error + (string \<times> json) list option" where
  "find_contract cid role [] = Inr None"
| "find_contract cid role (JObj item # cs) =
     ebind (raising (required_field item ''contract_id'')) (\<lambda>c.
       if py_eq c cid
       then ebind (raising (required_field item ''dataset_role'')) (\<lambda>r.
         if py_eq r role then Inr (Some item) else find_contract cid role cs)
       else find_contract cid role cs)"
| "find_contract cid role (_ # cs) = Inl (StrategyRaised TypeError)"

definition receipt_keys_ok :: "(string \<times> json) list \<Rightarrow> bool" where
  "receipt_keys_ok r = (set (map fst r) \<subseteq> set receipt_allowed_keys \<and> set receipt_required_keys \<subseteq> set (map fst r))"

definition nonempty_text :: "json \<Rightarrow> bool" where
  "nonempty_text v = (case v of JStr s \<Rightarrow> s \<noteq> [] | _ \<Rightarrow> False)"

definition json_items :: "json \<Rightarrow> json list" where
  "json_items v = (case v of JArr xs \<Rightarrow> xs | _ \<Rightarrow> [])"

definition object_keys :: "json \<Rightarrow> string list" where
  "object_keys v = (case v of JObj kvs \<Rightarrow> map fst kvs | _ \<Rightarrow> [])"

definition check_times :: "(string \<times> json) list \<Rightarrow> strategy_error + unit" where
  "check_times r =
     ebind (receipt_time False (jget r ''source_observed_at_utc'')) (\<lambda>observed.
     ebind (receipt_time False (jget r ''available_at_utc'')) (\<lambda>available.
     ebind (receipt_time True (jget r ''accepted_at_utc'')) (\<lambda>accepted.
     ebind (receipt_time True (jget r ''expected_by_utc'')) (\<lambda>_.
     ebind (receipt_time True (jget r ''published_at_utc'')) (\<lambda>_.
     ebind (require (case (observed, available) of (Some o1, Some a1) \<Rightarrow> o1 \<le> a1 | _ \<Rightarrow> False) schema_invalid) (\<lambda>_.
       require (case (observed, accepted) of (Some o1, Some a1) \<Rightarrow> o1 \<le> a1 | _ \<Rightarrow> True) schema_invalid))))))"

definition check_states :: "(string \<times> json) list \<Rightarrow> strategy_error + unit" where
  "check_states r =
     ebind (require_in (jget r ''availability_state'') receipt_availability_states schema_invalid) (\<lambda>_.
     ebind (require_in (jget r ''freshness_state'') freshness_states schema_invalid) (\<lambda>_.
     ebind (require_in (jget r ''quality_state'') quality_states schema_invalid) (\<lambda>_.
     ebind (require_in (jget r ''revision_state'') revision_states schema_invalid) (\<lambda>_.
       require_in (jget r ''cost_confidence'') cost_confidences schema_invalid))))"

definition check_id_list :: "json \<Rightarrow> strategy_error + unit" where
  "check_id_list v = (case v of JArr xs \<Rightarrow> check_texts (\<lambda>t. t \<noteq> []) xs schema_invalid | _ \<Rightarrow> strategy_fail schema_invalid)"

definition without_digest :: "(string \<times> json) list \<Rightarrow> (string \<times> json) list" where
  "without_digest r = filter (\<lambda>kv. fst kv \<noteq> ''receipt_sha256'') r"

definition is_available :: "(string \<times> json) list \<Rightarrow> bool" where
  "is_available r = (\<exists>t \<in> set public_available_states. jget r ''availability_state'' = JStr t)"

definition delayed_quote :: "(string \<times> json) list \<Rightarrow> bool" where
  "delayed_quote r =
     (jget r ''dataset_role'' = JStr ''PROPOSAL_PRICE_SNAPSHOT'' \<and> jget r ''freshness_state'' = JStr ''DELAYED''
      \<and> JStr ''SIM_DELAYED_QUOTE_ACCEPTED_BY_POLICY'' \<in> set (json_items (jget r ''warning_ids'')))"

definition evidence_complete :: "(string \<times> json) list \<Rightarrow> bool" where
  "evidence_complete r =
     (jget r ''accepted_at_utc'' \<noteq> JNull
      \<and> (jget r ''freshness_state'' = JStr ''CURRENT'' \<or> delayed_quote r)
      \<and> (jget r ''quality_state'' = JStr ''PASS'' \<or> jget r ''quality_state'' = JStr ''PASS_WITH_WARNINGS'')
      \<and> truthy (jget r ''provider_id'') \<and> truthy (jget r ''lineage_id'')
      \<and> valid_sha256 False (jget r ''ordered_content_sha256''))"

text \<open>\<open>set(required) <= fields\<close>.\<close>

definition fields_present :: "json list \<Rightarrow> string list \<Rightarrow> strategy_error + unit" where
  "fields_present wanted present =
     (if \<not> list_all hashable wanted then Inl (StrategyRaised TypeError)
      else require (list_all (\<lambda>v. case text_of v of None \<Rightarrow> False | Some t \<Rightarrow> t \<in> set present) wanted)
             ''STRATEGY_EXTERNAL_RECEIPT_FIELDS_MISSING'')"

definition check_evidence :: "(string \<times> json) list \<Rightarrow> (string \<times> json) list \<Rightarrow> strategy_error + unit" where
  "check_evidence r item =
     ebind (if \<not> is_available r then Inr ()
            else ebind (require (evidence_complete r) ''STRATEGY_EXTERNAL_RECEIPT_FAIL_CLOSED_INVALID'') (\<lambda>_.
              fields_present (json_items (jget item ''required_receipt_fields''))
                (map fst r @ object_keys (jget r ''payload'')))) (\<lambda>_.
       require (jget r ''availability_state'' \<noteq> JStr ''AVAILABLE_WITH_WARNINGS''
                \<or> jget r ''quality_state'' = JStr ''PASS_WITH_WARNINGS'' \<and> json_items (jget r ''warning_ids'') \<noteq> [])
         ''STRATEGY_EXTERNAL_RECEIPT_FAIL_CLOSED_INVALID'')"

definition validate_receipt ::
  "'b Repository \<Rightarrow> (json \<Rightarrow> string) \<Rightarrow> (string \<times> json) list \<Rightarrow> strategy_error + unit" where
  "validate_receipt rp digest r =
     ebind (require (receipt_keys_ok r) schema_invalid) (\<lambda>_.
     ebind (require (equals_one (jget r ''schema_version'') \<and> \<not> items_have_secret r) schema_invalid) (\<lambda>_.
     ebind (load_strategy_contract rp) (\<lambda>(contract, sha).
     ebind (find_contract (jget r ''contract_id'') (jget r ''dataset_role'') (json_items (jget contract ''contracts''))) (\<lambda>found.
     case found of
       None \<Rightarrow> strategy_fail ''STRATEGY_EXTERNAL_RECEIPT_CONTRACT_INVALID''
     | Some item \<Rightarrow>
         ebind (require (list_all (\<lambda>k. nonempty_text (jget r k)) [''receipt_id'', ''contract_id'', ''dataset_role'']) schema_invalid) (\<lambda>_.
         ebind (check_times r) (\<lambda>_.
         ebind (check_states r) (\<lambda>_.
         ebind (check_id_list (jget r ''warning_ids'')) (\<lambda>_.
         ebind (check_id_list (jget r ''blocker_ids'')) (\<lambda>_.
         ebind (require (jget r ''values_modified'' = JBool False \<and> jget r ''interpolation_performed'' = JBool False) schema_invalid) (\<lambda>_.
         ebind (require (case jget r ''payload'' of JObj _ \<Rightarrow> True | _ \<Rightarrow> False) schema_invalid) (\<lambda>_.
         ebind (require (valid_sha256 True (jget r ''manifest_sha256'') \<and> valid_sha256 True (jget r ''ordered_content_sha256'')) schema_invalid) (\<lambda>_.
         ebind (require (valid_sha256 False (jget r ''receipt_sha256'')
                         \<and> jget r ''receipt_sha256'' = JStr (digest (JObj (without_digest r)))) ''STRATEGY_EXTERNAL_RECEIPT_HASH_INVALID'') (\<lambda>_.
           check_evidence r item)))))))))))))"

definition finalize_receipt ::
  "'b Repository \<Rightarrow> (json \<Rightarrow> string) \<Rightarrow> (string \<times> json) list \<Rightarrow> strategy_error + (string \<times> json) list" where
  "finalize_receipt rp digest r =
     (let chosen = without_digest r;
          signed = chosen @ [(''receipt_sha256'', JStr (digest (JObj chosen)))]
      in ebind (validate_receipt rp digest signed) (\<lambda>_. Inr signed))"

section \<open>The public contract and status\<close>

definition public_keys :: "string list" where
  "public_keys = [''bundle_id'', ''bundle_status'', ''contract_revision'', ''instruments'', ''contracts'', ''decision_registry'',
     ''manifest_relative_path'', ''security'']"

definition public_strategy_contract :: "'b Repository \<Rightarrow> strategy_error + (string \<times> json) list" where
  "public_strategy_contract rp =
     ebind (load_strategy_contract rp) (\<lambda>(payload, sha).
     ebind (emap (\<lambda>k. ebind (raising (required_field payload k)) (\<lambda>v. Inr (k, v))) public_keys) (\<lambda>kvs.
       Inr (kvs @ [(''manifest_sha256'', JStr sha), (''receipt_schema_relative_path'', JStr receipt_schema_path)])))"

text \<open>The row of a role: of two rows the later one counts.\<close>

definition row_for :: "(json \<Rightarrow> string) \<Rightarrow> (string \<times> json) list list \<Rightarrow> string \<Rightarrow> (string \<times> json) list option" where
  "row_for shown rows role = map_of (rev (map (\<lambda>r. (py_str shown (jget r ''dataset_role''), r)) rows)) role"

definition status_source :: "(json \<Rightarrow> string) \<Rightarrow> (string \<times> json) list list \<Rightarrow> json \<Rightarrow> strategy_error + (string \<times> json) list" where
  "status_source shown rows c =
     (case c of
        JObj item \<Rightarrow>
          ebind (raising (required_field item ''dataset_role'')) (\<lambda>role.
            if \<not> hashable role then Inl (StrategyRaised TypeError)
            else Inr (case role of JStr t \<Rightarrow> (case row_for shown rows t of None \<Rightarrow> item | Some r \<Rightarrow> r) | _ \<Rightarrow> item))
      | _ \<Rightarrow> Inl (StrategyRaised TypeError))"

definition blocked_role :: "(string \<times> json) list \<Rightarrow> strategy_error + json option" where
  "blocked_role source =
     ebind (raising (in_texts (jget source ''availability_state'') public_available_states)) (\<lambda>available.
       if available then Inr None else ebind (raising (required_field source ''dataset_role'')) (\<lambda>role. Inr (Some role)))"

definition warned_role :: "(string \<times> json) list \<Rightarrow> strategy_error + json option" where
  "warned_role source =
     (if jget source ''availability_state'' = JStr ''AVAILABLE_WITH_WARNINGS''
      then ebind (raising (required_field source ''dataset_role'')) (\<lambda>role. Inr (Some role)) else Inr None)"

definition the_somes :: "'a option list \<Rightarrow> 'a list" where
  "the_somes os = List.map_filter (\<lambda>x. x) os"

record StrategyStatus =
  ss_bundle :: json
  ss_overall :: string
  ss_migrated :: bool
  ss_manifest_sha256 :: json
  ss_blocked :: "json list"
  ss_warned :: "json list"
  ss_sources :: "(string \<times> json) list list"

definition public_strategy_status ::
  "'b Repository \<Rightarrow> (string \<times> json) list list \<Rightarrow> bool \<Rightarrow> strategy_error + StrategyStatus" where
  "public_strategy_status rp rows migrated =
     ebind (public_strategy_contract rp) (\<lambda>c.
     ebind (emap (status_source (rp_shown rp) rows) (json_items (jget c ''contracts''))) (\<lambda>sources.
     ebind (emap blocked_role sources) (\<lambda>blocked.
     ebind (emap warned_role sources) (\<lambda>warned.
       Inr \<lparr> ss_bundle = jget c ''bundle_id'',
             ss_overall = (if the_somes blocked \<noteq> [] then ''BLOCKED_EXTERNAL_CONTRACT''
                           else if the_somes warned \<noteq> [] then ''AVAILABLE_WITH_WARNINGS'' else ''AVAILABLE''),
             ss_migrated = migrated, ss_manifest_sha256 = jget c ''manifest_sha256'',
             ss_blocked = the_somes blocked, ss_warned = the_somes warned, ss_sources = sources \<rparr>))))"

section \<open>What holds of a valid receipt\<close>

text \<open>A key that occurs at any depth of a value.\<close>

inductive key_in :: "string \<Rightarrow> json \<Rightarrow> bool" where
  here: "(k, v) \<in> set kvs \<Longrightarrow> key_in k (JObj kvs)"
| below: "(k', v) \<in> set kvs \<Longrightarrow> key_in k v \<Longrightarrow> key_in k (JObj kvs)"
| element: "v \<in> set xs \<Longrightarrow> key_in k v \<Longrightarrow> key_in k (JArr xs)"

inductive_simps key_in_simps: "key_in k (JObj kvs)" "key_in k (JArr xs)" "key_in k (JStr s)" "key_in k JNull"
  "key_in k (JBool b)" "key_in k (JInt i)" "key_in k (JDec d)"

lemma secret_key_found:
  "contains_secret_key v \<longleftrightarrow> (\<exists>k. lower k \<in> set secret_keys \<and> key_in k v)"
  "list_has_secret xs \<longleftrightarrow> (\<exists>k. lower k \<in> set secret_keys \<and> (\<exists>x \<in> set xs. key_in k x))"
  "items_have_secret kvs \<longleftrightarrow> (\<exists>k. lower k \<in> set secret_keys \<and> ((\<exists>v. (k, v) \<in> set kvs) \<or> (\<exists>k' v. (k', v) \<in> set kvs \<and> key_in k v)))"
  by (induction v and xs and kvs rule: contains_secret_key_list_has_secret_items_have_secret.induct)
    (simp_all only: contains_secret_key.simps list_has_secret.simps items_have_secret.simps key_in_simps
      list.set insert_iff empty_iff prod.inject simp_thms bex_simps, blast+)

lemma text_of_pred [simp]: "(case text_of v of None \<Rightarrow> False | Some t \<Rightarrow> P t) \<longleftrightarrow> (\<exists>t. v = JStr t \<and> P t)"
  by (cases v) auto

lemma texts_hashable: "\<forall>v \<in> set vs. \<exists>t. v = JStr t \<and> P t \<Longrightarrow> list_all hashable vs"
  by (auto simp: list_all_iff hashable_def split: json.splits)

lemma check_texts_Inr: "check_texts ok vs code = Inr u \<longleftrightarrow> distinct vs \<and> (\<forall>v \<in> set vs. \<exists>t. v = JStr t \<and> ok t)"
  using texts_hashable [of vs ok] by (simp add: check_texts_def Ball_set [symmetric]) blast

lemma receipt_time_Some: "receipt_time False v = Inr w \<longleftrightarrow> (\<exists>s t. v = JStr s \<and> utc_time (replace_z s) = Some t \<and> w = Some t)"
  by (auto simp: receipt_time_def split: json.splits option.splits)

lemma receipt_time_optional:
  "receipt_time True v = Inr w \<longleftrightarrow> v = JNull \<and> w = None \<or> (\<exists>s t. v = JStr s \<and> utc_time (replace_z s) = Some t \<and> w = Some t)"
  by (auto simp: receipt_time_def split: json.splits option.splits)

text \<open>A time of a receipt is what \<open>datetime.fromisoformat\<close> reads, with its zone.\<close>

lemma utc_time_is_aware: "utc_time s = Some t \<Longrightarrow> fromisoformat s = Some (Aware t)"
  unfolding utc_time_def fromisoformat_def bind_eq_Some_conv
  by (elim exE conjE, rule exI, rule conjI, assumption)
    (force simp: bind_eq_Some_conv split: list.split_asm if_split_asm)

text \<open>The loaded contract: one item for every role, with the fields that are used unchecked.\<close>

lemma load_validates: "load_strategy_contract rp = Inr (p, sha) \<Longrightarrow> validate_strategy_contract p = Inr ()"
  unfolding load_strategy_contract_def ebind_eq_Inr split_paired_Ex prod.case
  by (elim exE conjE) (simp add: ebind_eq_Inr split: json.split_asm; elim exE conjE; simp add: ebind_eq_Inr)

lemma loaded_strategy_contract:
  assumes "load_strategy_contract rp = Inr (p, sha)"
  obtains cs where "jget p ''contracts'' = JArr cs" "contract_roles cs = map JStr expected_roles"
    "\<And>c. c \<in> set cs \<Longrightarrow> check_contract_item c = Inr ()"
proof -
  from load_validates [OF assms] obtain cs where "jget p ''contracts'' = JArr cs" "contract_roles cs = map JStr expected_roles"
    "check_each check_contract_item cs = Inr ()"
    by (auto simp: validate_strategy_contract_def Let_def ebind_eq_Inr split: json.splits if_splits)
  then show ?thesis using that by (auto simp: check_each_Inr)
qed

lemma checked_item_fields:
  "check_contract_item c = Inr () \<Longrightarrow>
     \<exists>item fs. c = JObj item \<and> jget item ''required_receipt_fields'' = JArr fs \<and> fs \<noteq> []
       \<and> (\<exists>t \<in> set availability_states. jget item ''availability_state'' = JStr t)"
  by (auto simp: check_contract_item_def Let_def ebind_eq_Inr split: json.splits)

lemma found_contract:
  "find_contract cid role cs = Inr (Some item) \<Longrightarrow>
     JObj item \<in> set cs \<and> py_eq (jget item ''contract_id'') cid \<and> py_eq (jget item ''dataset_role'') role"
proof (induction cid role cs rule: find_contract.induct)
  case (2 cid role it cs)
  from "2.prems" obtain c where c: "map_of it ''contract_id'' = Some c"
    by (auto simp: ebind_eq_Inr required_field_def split: option.splits)
  show ?case
  proof (cases "py_eq c cid")
    case True
    with c "2.prems" obtain r where r: "map_of it ''dataset_role'' = Some r"
      by (auto simp: ebind_eq_Inr required_field_def split: option.splits)
    with c True 2 show ?thesis
      by (cases "py_eq r role") (auto simp: required_field_def raising_def jget_def)
  next
    case False
    with c 2 show ?thesis by (auto simp: required_field_def raising_def)
  qed
qed simp_all

lemma role_of_item: "JObj item \<in> set cs \<Longrightarrow> jget item ''dataset_role'' \<in> set (contract_roles cs)"
  by (auto simp: contract_roles_def intro!: bexI [of _ "JObj item"])

lemma fields_present_Inr:
  "fields_present wanted present = Inr u \<longleftrightarrow> (\<forall>v \<in> set wanted. \<exists>t. v = JStr t \<and> t \<in> set present)"
  using texts_hashable [of wanted "\<lambda>t. t \<in> set present"] by (simp add: fields_present_def Ball_set [symmetric]) blast

lemma check_times_Inr:
  assumes "check_times r = Inr ()"
  shows "\<exists>s observed s' available. jget r ''source_observed_at_utc'' = JStr s \<and> utc_time (replace_z s) = Some observed
     \<and> jget r ''available_at_utc'' = JStr s' \<and> utc_time (replace_z s') = Some available \<and> observed \<le> available
     \<and> (jget r ''accepted_at_utc'' = JNull
        \<or> (\<exists>s'' accepted. jget r ''accepted_at_utc'' = JStr s'' \<and> utc_time (replace_z s'') = Some accepted \<and> observed \<le> accepted))"
  using assms by (auto simp: check_times_def ebind_eq_Inr receipt_time_Some receipt_time_optional)

text \<open>The steps of the validation.\<close>

lemma validate_receipt_Inr:
  "validate_receipt rp digest r = Inr () \<Longrightarrow>
     receipt_keys_ok r \<and> equals_one (jget r ''schema_version'') \<and> \<not> items_have_secret r
     \<and> (\<exists>p sha item. load_strategy_contract rp = Inr (p, sha)
          \<and> find_contract (jget r ''contract_id'') (jget r ''dataset_role'') (json_items (jget p ''contracts'')) = Inr (Some item)
          \<and> check_evidence r item = Inr ())
     \<and> list_all (\<lambda>k. nonempty_text (jget r k)) [''receipt_id'', ''contract_id'', ''dataset_role'']
     \<and> check_times r = Inr () \<and> check_states r = Inr ()
     \<and> check_id_list (jget r ''warning_ids'') = Inr () \<and> check_id_list (jget r ''blocker_ids'') = Inr ()
     \<and> jget r ''values_modified'' = JBool False \<and> jget r ''interpolation_performed'' = JBool False
     \<and> (\<exists>kvs. jget r ''payload'' = JObj kvs)
     \<and> valid_sha256 True (jget r ''manifest_sha256'') \<and> valid_sha256 True (jget r ''ordered_content_sha256'')
     \<and> valid_sha256 False (jget r ''receipt_sha256'') \<and> jget r ''receipt_sha256'' = JStr (digest (JObj (without_digest r)))"
  unfolding validate_receipt_def ebind_eq_Inr require_Inr split_paired_Ex prod.case
  apply (elim exE conjE)
  subgoal for a b c d found
    apply (cases found)
     apply simp
    apply (simp only: option.case ebind_eq_Inr require_Inr)
    apply (elim exE conjE)
    apply (simp split: json.split_asm)
    done
  done

text \<open>C29: A receipt that validates has only the allowed keys and no secret key at any depth, carries the digest of the
  rest of it, was neither modified nor interpolated, and has ordered UTC times. When it says that its data are
  available, it is accepted, current (or a quote whose delay the policy accepts), of passing quality, with a provider,
  a lineage and a content digest, and has every field that the verified contract of its role asks for.\<close>

theorem validated_receipt_fails_closed:
  assumes "validate_receipt rp digest r = Inr ()"
  shows "set (map fst r) \<subseteq> set receipt_allowed_keys
    \<and> (\<forall>k. key_in k (JObj r) \<longrightarrow> lower k \<notin> set secret_keys)
    \<and> jget r ''receipt_sha256'' = JStr (digest (JObj (without_digest r)))
    \<and> jget r ''values_modified'' = JBool False \<and> jget r ''interpolation_performed'' = JBool False
    \<and> (\<exists>s observed s' available. jget r ''source_observed_at_utc'' = JStr s \<and> utc_time (replace_z s) = Some observed
         \<and> jget r ''available_at_utc'' = JStr s' \<and> utc_time (replace_z s') = Some available \<and> observed \<le> available)
    \<and> (is_available r \<longrightarrow>
         jget r ''accepted_at_utc'' \<noteq> JNull
         \<and> (jget r ''freshness_state'' = JStr ''CURRENT'' \<or> delayed_quote r)
         \<and> jget r ''quality_state'' \<in> {JStr ''PASS'', JStr ''PASS_WITH_WARNINGS''}
         \<and> truthy (jget r ''provider_id'') \<and> truthy (jget r ''lineage_id'')
         \<and> valid_sha256 False (jget r ''ordered_content_sha256'')
         \<and> (\<exists>p sha item role. load_strategy_contract rp = Inr (p, sha) \<and> JObj item \<in> set (json_items (jget p ''contracts''))
              \<and> role \<in> set expected_roles \<and> jget r ''dataset_role'' = JStr role \<and> jget item ''dataset_role'' = JStr role
              \<and> jget item ''contract_id'' = jget r ''contract_id''
              \<and> (\<forall>f \<in> set (json_items (jget item ''required_receipt_fields'')).
                   \<exists>t. f = JStr t \<and> t \<in> set (map fst r) \<union> set (object_keys (jget r ''payload'')))))"
proof -
  note steps = validate_receipt_Inr [OF assms]
  from steps have nosecret: "\<forall>k. key_in k (JObj r) \<longrightarrow> lower k \<notin> set secret_keys"
    using secret_key_found(1) [of "JObj r"] by (simp only: contains_secret_key.simps) blast
  from steps obtain p sha item where loaded: "load_strategy_contract rp = Inr (p, sha)"
    and found: "find_contract (jget r ''contract_id'') (jget r ''dataset_role'') (json_items (jget p ''contracts'')) = Inr (Some item)"
    and evidence: "check_evidence r item = Inr ()"
    by blast
  from steps obtain cid role where texts: "jget r ''contract_id'' = JStr cid" "jget r ''dataset_role'' = JStr role"
    by (auto simp: nonempty_text_def split: json.splits)
  from found_contract [OF found] texts
  have member: "JObj item \<in> set (json_items (jget p ''contracts''))"
    and item: "jget item ''contract_id'' = JStr cid" "jget item ''dataset_role'' = JStr role" by auto
  obtain cs where cs: "jget p ''contracts'' = JArr cs" "contract_roles cs = map JStr expected_roles"
    using loaded by (rule loaded_strategy_contract)
  with member role_of_item [of item cs] item(2) have role: "role \<in> set expected_roles"
    by (auto simp: json_items_def)
  have available: "evidence_complete r \<and> (\<forall>f \<in> set (json_items (jget item ''required_receipt_fields'')).
      \<exists>t. f = JStr t \<and> t \<in> set (map fst r) \<union> set (object_keys (jget r ''payload'')))" if "is_available r"
    using evidence that by (auto simp: check_evidence_def ebind_eq_Inr fields_present_Inr)
  have times: "\<exists>s observed s' available. jget r ''source_observed_at_utc'' = JStr s \<and> utc_time (replace_z s) = Some observed
      \<and> jget r ''available_at_utc'' = JStr s' \<and> utc_time (replace_z s') = Some available \<and> observed \<le> available"
    using check_times_Inr steps by blast
  have keys: "set (map fst r) \<subseteq> set receipt_allowed_keys" using steps by (simp add: receipt_keys_ok_def)
  have required: "\<exists>p sha item role. load_strategy_contract rp = Inr (p, sha) \<and> JObj item \<in> set (json_items (jget p ''contracts''))
      \<and> role \<in> set expected_roles \<and> jget r ''dataset_role'' = JStr role \<and> jget item ''dataset_role'' = JStr role
      \<and> jget item ''contract_id'' = jget r ''contract_id''
      \<and> (\<forall>f \<in> set (json_items (jget item ''required_receipt_fields'')).
           \<exists>t. f = JStr t \<and> t \<in> set (map fst r) \<union> set (object_keys (jget r ''payload'')))" if "is_available r"
    by (intro exI [where x = p] exI [where x = sha] exI [where x = item] exI [where x = role] conjI loaded member role texts(2)
          item(2) conjunct2 [OF available [OF that]])
      (simp only: item(1) texts(1))
  have quality: "jget r ''quality_state'' \<in> {JStr ''PASS'', JStr ''PASS_WITH_WARNINGS''}" if "is_available r"
    using available [OF that] by (simp only: evidence_complete_def insert_iff) blast
  have others: "jget r ''accepted_at_utc'' \<noteq> JNull \<and> (jget r ''freshness_state'' = JStr ''CURRENT'' \<or> delayed_quote r)
      \<and> truthy (jget r ''provider_id'') \<and> truthy (jget r ''lineage_id'')
      \<and> valid_sha256 False (jget r ''ordered_content_sha256'')" if "is_available r"
    using available [OF that] by (simp only: evidence_complete_def not_False_eq_True simp_thms)
  have fixed: "jget r ''receipt_sha256'' = JStr (digest (JObj (without_digest r)))"
    "jget r ''values_modified'' = JBool False" "jget r ''interpolation_performed'' = JBool False"
    using steps by simp_all
  show ?thesis
    by (intro conjI impI keys nosecret fixed times quality required others [THEN conjunct1]
          others [THEN conjunct2, THEN conjunct1] others [THEN conjunct2, THEN conjunct2, THEN conjunct1]
          others [THEN conjunct2, THEN conjunct2, THEN conjunct2, THEN conjunct1]
          others [THEN conjunct2, THEN conjunct2, THEN conjunct2, THEN conjunct2])
qed

end
