(* ===== verification/StrategyReceipts.thy ===== *)
theory StrategyReceipts
  imports StrategyContract ReadTotalReturn "HOL-Library.List_Lexorder" "HOL-Library.Char_ord" "HOL-Library.Product_Lexorder"
begin

text \<open>
  The registered receipts: \<open>register_receipts\<close> of \<open>market_db/strategy_external_receipt_ops.py\<close>, the tables and views
  of the migrations \<open>0034\<close> and \<open>0035\<close> it writes and the routes read, and the routes \<open>/api/v1/strategy-data\<close> of
  \<open>market_db/read_api.py\<close>. Receipts and catalog rows are lists; texts are ordered by their bytes. A table is only
  appended to: the trigger of \<open>0034\<close> refuses updates and deletions.
\<close>

section \<open>Tables\<close>

record ContractRow =
  cr_id :: string
  cr_edc :: string
  cr_role :: string
  cr_state :: string
  cr_availability :: string
  cr_provider :: "string option"
  cr_dataset :: "string option"
  cr_price_basis :: "string option"
  cr_horizon :: "int option"
  cr_endpoint :: "string option"
  cr_blockers :: "string list"
  cr_decisions :: "string list"
  cr_manifest_sha256 :: string

record ReceiptRow =
  rr_id :: string
  rr_contract :: string
  rr_availability :: string
  rr_dataset :: "string option"
  rr_provider :: "string option"
  rr_version :: "string option"
  rr_lineage :: "string option"
  rr_manifest_sha256 :: "string option"
  rr_content_sha256 :: "string option"
  rr_calendar :: "string option"
  rr_as_of :: "string option"
  rr_observed :: utc
  rr_available :: utc
  rr_accepted :: "utc option"
  rr_expected :: "utc option"
  rr_published :: "utc option"
  rr_freshness :: string
  rr_quality :: string
  rr_revision :: string
  rr_cost :: string
  rr_warnings :: "string list"
  rr_blockers :: "string list"
  rr_account :: "string option"
  rr_payload :: json
  rr_sha256 :: string
  rr_supersedes :: "string option"
  rr_created :: utc

text \<open>\<open>sd_counts\<close>: the numbers of rows of the market tables the registration must not touch.\<close>

record strategy_db =
  sd_contracts :: "ContractRow list"
  sd_receipts :: "ReceiptRow list"
  sd_counts :: "(string \<times> int) list"

section \<open>The checks of the table\<close>

definition db_secret_keys :: "string list" where
  "db_secret_keys = [''access_token'', ''refresh_token'', ''authorization'', ''accountkey'', ''clientkey'',
     ''account_key'', ''client_key'']"

text \<open>
  The pattern \<open>"(access_token|...)"\s*:\<close> on the text of the document: in the text of a key a quote is escaped, so
  the pattern also matches a key that ends with a quote and a name.
\<close>

definition db_secret_key :: "string \<Rightarrow> bool" where
  "db_secret_key k = list_ex (\<lambda>t. lower k = t \<or> drop (length k - length t - 1) (lower k) = CHR 0x22 # t) db_secret_keys"

fun db_secret_in :: "json \<Rightarrow> bool" and db_secret_list :: "json list \<Rightarrow> bool"
  and db_secret_items :: "(string \<times> json) list \<Rightarrow> bool" where
  "db_secret_in (JObj kvs) = db_secret_items kvs"
| "db_secret_in (JArr xs) = db_secret_list xs"
| "db_secret_in _ = False"
| "db_secret_list [] = False"
| "db_secret_list (x # xs) = (db_secret_in x \<or> db_secret_list xs)"
| "db_secret_items [] = False"
| "db_secret_items ((k, v) # kvs) = (db_secret_key k \<or> db_secret_in v \<or> db_secret_items kvs)"

definition hex64_or_null :: "string option \<Rightarrow> bool" where
  "hex64_or_null v = (case v of None \<Rightarrow> True | Some h \<Rightarrow> hex64 h)"

text \<open>The check of the rows that say their data are available.\<close>

definition available_row_ok :: "ReceiptRow \<Rightarrow> bool" where
  "available_row_ok r =
     (rr_accepted r \<noteq> None \<and> (rr_quality r = ''PASS'' \<or> rr_quality r = ''PASS_WITH_WARNINGS'') \<and> rr_freshness r = ''CURRENT''
      \<and> rr_provider r \<noteq> None \<and> rr_lineage r \<noteq> None \<and> rr_content_sha256 r \<noteq> None)"

definition receipt_row_ok :: "ReceiptRow \<Rightarrow> bool" where
  "receipt_row_ok r =
     (rr_availability r \<in> set receipt_availability_states \<and> hex64_or_null (rr_manifest_sha256 r)
      \<and> hex64_or_null (rr_content_sha256 r) \<and> rr_freshness r \<in> set freshness_states
      \<and> rr_quality r \<in> set quality_states \<and> rr_revision r \<in> set revision_states
      \<and> rr_cost r \<in> set cost_confidences \<and> \<not> db_secret_in (rr_payload r) \<and> hex64 (rr_sha256 r)
      \<and> rr_observed r \<le> rr_available r \<and> (case rr_accepted r of None \<Rightarrow> True | Some a \<Rightarrow> rr_observed r \<le> a)
      \<and> (rr_availability r \<in> set public_available_states \<longrightarrow> available_row_ok r)
      \<and> (rr_availability r = ''AVAILABLE_WITH_WARNINGS'' \<longrightarrow> rr_quality r = ''PASS_WITH_WARNINGS'' \<and> rr_warnings r \<noteq> []))"

section \<open>Insertion\<close>

definition refused :: "string \<Rightarrow> strategy_error + 'a" where
  "refused why = Inl (StrategyRaised (DatabaseError why))"

definition statement_parameters :: "string list" where
  "statement_parameters =
     [''receipt_id'', ''contract_id'', ''availability_state'', ''dataset_id'', ''provider_id'', ''provider_data_version'',
      ''lineage_id'', ''manifest_sha256'', ''ordered_content_sha256'', ''calendar_id'', ''source_as_of'',
      ''source_observed_at_utc'', ''available_at_utc'', ''accepted_at_utc'', ''expected_by_utc'', ''published_at_utc'',
      ''freshness_state'', ''quality_state'', ''revision_state'', ''cost_confidence'', ''warning_ids'', ''blocker_ids'',
      ''account_fingerprint'', ''values_modified'', ''interpolation_performed'', ''payload'', ''receipt_sha256'',
      ''supersedes_receipt_id'']"

definition text_column :: "json \<Rightarrow> strategy_error + string option" where
  "text_column v = (case v of JNull \<Rightarrow> Inr None | JStr s \<Rightarrow> Inr (Some s) | _ \<Rightarrow> refused ''datatype mismatch'')"

definition time_column :: "json \<Rightarrow> strategy_error + utc option" where
  "time_column v =
     (case v of JNull \<Rightarrow> Inr None
      | JStr s \<Rightarrow> (case utc_time (replace_z s) of None \<Rightarrow> refused ''invalid input syntax'' | Some t \<Rightarrow> Inr (Some t))
      | _ \<Rightarrow> refused ''datatype mismatch'')"

definition required_column :: "strategy_error + 'a option \<Rightarrow> strategy_error + 'a" where
  "required_column r = ebind r (\<lambda>v. case v of None \<Rightarrow> refused ''null value'' | Some x \<Rightarrow> Inr x)"

definition array_column :: "json \<Rightarrow> strategy_error + string list" where
  "array_column v =
     (case v of JArr xs \<Rightarrow> emap (\<lambda>x. case x of JStr s \<Rightarrow> Inr s | _ \<Rightarrow> refused ''datatype mismatch'') xs
      | _ \<Rightarrow> refused ''datatype mismatch'')"

definition receipt_row :: "(string \<times> json) list \<Rightarrow> utc \<Rightarrow> strategy_error + ReceiptRow" where
  "receipt_row r created =
     ebind (required_column (text_column (jget r ''receipt_id''))) (\<lambda>c1.
     ebind (required_column (text_column (jget r ''contract_id''))) (\<lambda>c2.
     ebind (required_column (text_column (jget r ''availability_state''))) (\<lambda>c3.
     ebind (emap (\<lambda>k. text_column (jget r k)) [''dataset_id'', ''provider_id'', ''provider_data_version'', ''lineage_id'',
        ''manifest_sha256'', ''ordered_content_sha256'', ''calendar_id'', ''source_as_of'', ''account_fingerprint'',
        ''supersedes_receipt_id'']) (\<lambda>ts.
     ebind (required_column (time_column (jget r ''source_observed_at_utc''))) (\<lambda>t1.
     ebind (required_column (time_column (jget r ''available_at_utc''))) (\<lambda>t2.
     ebind (emap (\<lambda>k. time_column (jget r k)) [''accepted_at_utc'', ''expected_by_utc'', ''published_at_utc'']) (\<lambda>us.
     ebind (emap (\<lambda>k. required_column (text_column (jget r k)))
        [''freshness_state'', ''quality_state'', ''revision_state'', ''cost_confidence'', ''receipt_sha256'']) (\<lambda>ss.
     ebind (array_column (jget r ''warning_ids'')) (\<lambda>ws.
     ebind (array_column (jget r ''blocker_ids'')) (\<lambda>bs.
       Inr \<lparr> rr_id = c1, rr_contract = c2, rr_availability = c3, rr_dataset = ts ! 0, rr_provider = ts ! 1, rr_version = ts ! 2,
             rr_lineage = ts ! 3, rr_manifest_sha256 = ts ! 4, rr_content_sha256 = ts ! 5, rr_calendar = ts ! 6, rr_as_of = ts ! 7,
             rr_observed = t1, rr_available = t2, rr_accepted = us ! 0, rr_expected = us ! 1, rr_published = us ! 2,
             rr_freshness = ss ! 0, rr_quality = ss ! 1, rr_revision = ss ! 2, rr_cost = ss ! 3, rr_warnings = ws, rr_blockers = bs,
             rr_account = ts ! 8, rr_payload = jget r ''payload'', rr_sha256 = ss ! 4, rr_supersedes = ts ! 9,
             rr_created = created \<rparr>))))))))))"

definition supersedes_ok :: "ReceiptRow \<Rightarrow> strategy_db \<Rightarrow> bool" where
  "supersedes_ok row db =
     (case rr_supersedes row of None \<Rightarrow> True | Some s \<Rightarrow> s = rr_id row \<or> s \<in> set (map rr_id (sd_receipts db)))"

definition insert_receipt :: "(string \<times> json) list \<Rightarrow> utc \<Rightarrow> strategy_db \<Rightarrow> strategy_error + strategy_db" where
  "insert_receipt r created db =
     (if \<not> set statement_parameters \<subseteq> set (map fst r) then refused ''query parameter missing''
      else ebind (receipt_row r created) (\<lambda>row.
        if jget r ''values_modified'' \<noteq> JBool False \<or> jget r ''interpolation_performed'' \<noteq> JBool False \<or> \<not> receipt_row_ok row
        then refused ''check constraint''
        else if rr_id row \<in> set (map rr_id (sd_receipts db)) then refused ''strategy_external_data_receipt_pkey''
        else if rr_contract row \<notin> set (map cr_id (sd_contracts db)) \<or> \<not> supersedes_ok row db
        then refused ''foreign key''
        else Inr (db\<lparr>sd_receipts := sd_receipts db @ [row]\<rparr>)))"

section \<open>Registration\<close>

fun insert_receipts :: "(nat \<Rightarrow> utc) \<Rightarrow> nat \<Rightarrow> (string \<times> json) list list \<Rightarrow> strategy_db \<Rightarrow> strategy_error + nat \<times> strategy_db" where
  "insert_receipts clock n [] db = Inr (n, db)"
| "insert_receipts clock n (r # rs) db = ebind (insert_receipt r (clock n) db) (insert_receipts clock (Suc n) rs)"

text \<open>The audit: the rows of the receipt view, and the row counts of the market tables.\<close>

definition audit_counts :: "strategy_db \<Rightarrow> int \<times> (string \<times> int) list" where
  "audit_counts db =
     (int (length (filter (\<lambda>r. rr_contract r \<in> set (map cr_id (sd_contracts db))) (sd_receipts db))), sd_counts db)"

record Registration =
  rg_inserted :: nat
  rg_before :: "int \<times> (string \<times> int) list"
  rg_after :: "int \<times> (string \<times> int) list"

text \<open>\<open>meanwhile\<close> is what other sessions do between the commit and the second audit.\<close>

definition register_receipts ::
  "'b Repository \<Rightarrow> (json \<Rightarrow> string) \<Rightarrow> (nat \<Rightarrow> utc) \<Rightarrow> (strategy_db \<Rightarrow> strategy_db) \<Rightarrow> (string \<times> json) list list \<Rightarrow> strategy_db
    \<Rightarrow> (strategy_error + Registration) \<times> strategy_db" where
  "register_receipts rp digest clock meanwhile receipts db =
     (case check_each (validate_receipt rp digest) receipts of
        Inl e \<Rightarrow> (Inl e, db)
      | Inr _ \<Rightarrow>
          (case transaction (insert_receipts clock 0 receipts) db of
             (Inl e, db1) \<Rightarrow> (Inl e, db1)
           | (Inr inserted, db1) \<Rightarrow>
               let before = audit_counts db; db2 = meanwhile db1; after = audit_counts db2
               in (if fst after - fst before \<noteq> int inserted
                   then Inl (StrategyRaised (RuntimeError ''STRATEGY_EXTERNAL_RECEIPT_COUNT_MISMATCH''))
                   else if snd before \<noteq> snd after then Inl (StrategyRaised (RuntimeError ''MARKET_DATA_INVARIANCE_FAILED''))
                   else Inr \<lparr> rg_inserted = inserted, rg_before = before, rg_after = after \<rparr>, db2)))"

section \<open>The views and the routes\<close>

text \<open>\<open>ORDER BY created_at_utc DESC, receipt_id DESC\<close>.\<close>

definition newest_first :: "ReceiptRow list \<Rightarrow> ReceiptRow list" where
  "newest_first rs = rev (sort_key (\<lambda>r. (rr_created r, rr_id r)) rs)"

definition latest_receipt :: "strategy_db \<Rightarrow> string \<Rightarrow> ReceiptRow option" where
  "latest_receipt db c = (case newest_first (filter (\<lambda>r. rr_contract r = c) (sd_receipts db)) of [] \<Rightarrow> None | r # _ \<Rightarrow> Some r)"

definition last_good_receipt :: "strategy_db \<Rightarrow> string \<Rightarrow> ReceiptRow option" where
  "last_good_receipt db c =
     (case newest_first (filter (\<lambda>r. rr_contract r = c \<and> rr_availability r \<in> set public_available_states \<and> rr_accepted r \<noteq> None)
             (sd_receipts db)) of [] \<Rightarrow> None | r # _ \<Rightarrow> Some r)"

definition time_json :: "utc option \<Rightarrow> json" where
  "time_json v = (case v of None \<Rightarrow> JNull | Some t \<Rightarrow> JStr (iso_utc t))"

definition texts_json :: "string list \<Rightarrow> json" where
  "texts_json ts = JArr (map JStr ts)"

text \<open>\<open>COALESCE(r.column, c.column)\<close> after the left join.\<close>

definition coalesce :: "'r option \<Rightarrow> ('r \<Rightarrow> 'a option) \<Rightarrow> 'a option \<Rightarrow> 'a option" where
  "coalesce r f other = (case Option.bind r f of None \<Rightarrow> other | Some v \<Rightarrow> Some v)"

definition status_item :: "strategy_db \<Rightarrow> ContractRow \<Rightarrow> (string \<times> json) list" where
  "status_item db c =
     (let r = latest_receipt db (cr_id c);
          col = (\<lambda>f other. text_json (coalesce r f other)); here = (\<lambda>f. text_json (Option.bind r f));
          when = (\<lambda>f. time_json (Option.bind r f));
          good = text_json (map_option rr_id (last_good_receipt db (cr_id c)));
          blockers = texts_json (case r of None \<Rightarrow> cr_blockers c | Some x \<Rightarrow> rr_blockers x)
      in [(''edc_id'', JStr (cr_edc c)), (''dataset_role'', JStr (cr_role c)), (''contract_id'', JStr (cr_id c)),
          (''contract_state'', JStr (cr_state c)),
          (''availability_state'', JStr (case r of None \<Rightarrow> cr_availability c | Some x \<Rightarrow> rr_availability x)),
          (''provider_id'', col rr_provider (cr_provider c)), (''dataset_id'', col rr_dataset (cr_dataset c)),
          (''price_basis'', text_json (cr_price_basis c)),
          (''horizon_minutes'', case cr_horizon c of None \<Rightarrow> JNull | Some h \<Rightarrow> JInt h),
          (''target_read_endpoint'', text_json (cr_endpoint c)), (''latest_receipt_id'', text_json (map_option rr_id r)),
          (''source_as_of'', here rr_as_of), (''source_observed_at_utc'', when (Some \<circ> rr_observed)),
          (''available_at_utc'', when (Some \<circ> rr_available)), (''accepted_at_utc'', when rr_accepted),
          (''published_at_utc'', when rr_published),
          (''freshness'', JObj [(''state'', JStr (case r of None \<Rightarrow> ''NOT_EVALUATED_SLA'' | Some x \<Rightarrow> rr_freshness x)),
                              (''expected_by_utc'', when rr_expected)]),
          (''quality'', JObj [(''state'', JStr (case r of None \<Rightarrow> ''NOT_EVALUATED'' | Some x \<Rightarrow> rr_quality x)),
                            (''warning_ids'', texts_json (case r of None \<Rightarrow> [] | Some x \<Rightarrow> rr_warnings x)),
                            (''blocker_ids'', blockers), (''last_good_receipt_id'', good)]),
          (''revision'', JObj [(''state'', JStr (case r of None \<Rightarrow> ''NOT_EVALUATED'' | Some x \<Rightarrow> rr_revision x)),
                             (''provider_data_version'', here rr_version),
                             (''manifest_sha256'', text_json (coalesce r rr_manifest_sha256 (Some (cr_manifest_sha256 c)))),
                             (''ordered_content_sha256'', here rr_content_sha256)]),
          (''calendar_id'', here rr_calendar),
          (''cost_confidence'', JStr (case r of None \<Rightarrow> ''NOT_APPLICABLE'' | Some x \<Rightarrow> rr_cost x)),
          (''blocker_ids'', blockers), (''decision_required_ids'', texts_json (cr_decisions c)), (''last_good_receipt_id'', good)])"

definition status_rows :: "strategy_db \<Rightarrow> (string \<times> json) list list" where
  "status_rows db = map (status_item db) (sort_key cr_edc (sd_contracts db))"

text \<open>
  The routes answer a contract error with its code, and leave other exceptions to the handler of the
  application; the status reads the view only when it is there.
\<close>

definition respond_contract :: "strategy_error + 'a \<Rightarrow> 'a response" where
  "respond_contract r =
     (case r of Inr v \<Rightarrow> Answered v | Inl (StrategyError code) \<Rightarrow> Failed 503 code
      | Inl (StrategyRaised e) \<Rightarrow> Failed 503 ''DATABASE_UNAVAILABLE'')"

definition strategy_contracts_route :: "'b Repository \<Rightarrow> (string \<times> json) list response" where
  "strategy_contracts_route rp = respond_contract (public_strategy_contract rp)"

definition strategy_status_route :: "'b Repository \<Rightarrow> strategy_db option \<Rightarrow> StrategyStatus response" where
  "strategy_status_route rp db =
     respond_contract (public_strategy_status rp (case db of None \<Rightarrow> [] | Some d \<Rightarrow> status_rows d) (db \<noteq> None))"

definition max_strategy_receipt_rows :: nat where "max_strategy_receipt_rows = 1000"

definition receipt_role :: "strategy_db \<Rightarrow> ReceiptRow \<Rightarrow> string option" where
  "receipt_role db r = map_option cr_role (find (\<lambda>c. cr_id c = rr_contract r) (sd_contracts db))"

definition strategy_receipts :: "strategy_db \<Rightarrow> string option \<Rightarrow> nat \<Rightarrow> exn + ReceiptRow list" where
  "strategy_receipts db role limit =
     (case role of
        Some t \<Rightarrow> if t \<notin> set expected_roles then Inl (ValueError ''unknown dataset role'')
                  else Inr (take limit (newest_first (filter (\<lambda>r. receipt_role db r = Some t) (sd_receipts db))))
      | None \<Rightarrow> Inr (take limit (newest_first (filter (\<lambda>r. receipt_role db r \<noteq> None) (sd_receipts db)))))"

definition strategy_receipts_route :: "strategy_db option \<Rightarrow> string option \<Rightarrow> string option \<Rightarrow> ReceiptRow list response" where
  "strategy_receipts_route db role_arg limit_arg =
     (let t = upper (strip (arg_text role_arg '''')); role = (if t = [] then None else Some t)
      in respond (if role \<noteq> None \<and> the role \<notin> set expected_roles then raised (Inl (ValueError ''unknown dataset role''))
                  else ebind (raised (parse_limit limit_arg max_strategy_receipt_rows)) (\<lambda>n.
                    case db of None \<Rightarrow> Inr [] | Some d \<Rightarrow> raised (strategy_receipts d role n))))"

section \<open>Calendars\<close>

record CalendarPage =
  kp_contract :: json
  kp_state :: json
  kp_decisions :: json
  kp_availability :: string
  kp_blockers :: "string list"
  kp_warnings :: "string list"
  kp_calendar :: "(string \<times> json) list"
  kp_truncated :: bool
  kp_sessions :: "json list"

definition accepted_calendars :: "strategy_db \<Rightarrow> string \<Rightarrow> ReceiptRow list" where
  "accepted_calendars db calendar =
     newest_first (filter (\<lambda>r. receipt_role db r = Some ''COMMON_REGULAR_SESSION_CALENDAR'' \<and> rr_calendar r = Some calendar
        \<and> rr_availability r \<in> set public_available_states \<and> rr_accepted r \<noteq> None) (sd_receipts db))"

text \<open>\<open>payload.get("sessions") or []\<close>, as a loop over it sees it; the keys of a dictionary are no dictionaries.\<close>

definition raw_sessions :: "json \<Rightarrow> exn + json list" where
  "raw_sessions payload =
     (case (if truthy payload then payload else JObj []) of
        JObj kvs \<Rightarrow>
          (let v = jget kvs ''sessions'' in
           if \<not> truthy v then Inr []
           else case v of JArr xs \<Rightarrow> Inr xs | JObj lvs \<Rightarrow> Inr (map (JStr \<circ> fst) lvs) | JStr t \<Rightarrow> Inr (map (\<lambda>c. JStr [c]) t)
                | _ \<Rightarrow> Inl TypeError)
      | _ \<Rightarrow> Inl AttributeError)"

definition session_within :: "date \<Rightarrow> date \<Rightarrow> json \<Rightarrow> exn + bool" where
  "session_within start till v =
     (case v of
        JObj row \<Rightarrow> (case jget row ''session_date'' of
            JStr t \<Rightarrow> ebind (date_fromisoformat t) (\<lambda>d. Inr (start \<le> d \<and> d < till)) | _ \<Rightarrow> Inr False)
      | _ \<Rightarrow> Inr False)"

definition calendar_metadata :: "(string \<times> json) list \<Rightarrow> ReceiptRow \<Rightarrow> (string \<times> json) list" where
  "calendar_metadata payload r =
     map (\<lambda>k. (k, jget payload k))
       [''calendar_id'', ''calendar_version'', ''tzdb_version'', ''published_at_utc'', ''valid_from'', ''valid_to'', ''source_urls'',
        ''normalized_sha256'', ''normalization'', ''source_sha256'']
     @ [(''provider'', text_json (rr_provider r)), (''provider_data_version'', text_json (rr_version r)),
        (''lineage_id'', text_json (rr_lineage r)), (''receipt_id'', JStr (rr_id r)), (''accepted_at_utc'', time_json (rr_accepted r)),
        (''source_observed_at_utc'', JStr (iso_utc (rr_observed r)))]"

definition calendar_item :: "(string \<times> json) list \<Rightarrow> (string \<times> json) list" where
  "calendar_item contract =
     (case find (\<lambda>c. case c of JObj item \<Rightarrow> jget item ''dataset_role'' = JStr ''COMMON_REGULAR_SESSION_CALENDAR'' | _ \<Rightarrow> False)
             (json_items (jget contract ''contracts'')) of
        Some (JObj item) \<Rightarrow> item | _ \<Rightarrow> [])"

type_synonym calendar_error = "strategy_error + read_error"

definition of_contract :: "strategy_error + 'a \<Rightarrow> calendar_error + 'a" where
  "of_contract r = map_sum Inl id r"

definition of_reader :: "read_error + 'a \<Rightarrow> calendar_error + 'a" where
  "of_reader r = map_sum Inr id r"

definition strategy_calendar ::
  "'b Repository \<Rightarrow> strategy_db \<Rightarrow> string \<Rightarrow> date \<Rightarrow> date \<Rightarrow> nat \<Rightarrow> calendar_error + CalendarPage" where
  "strategy_calendar rp db calendar start till limit =
     (if calendar = [] \<or> 128 < length calendar \<or> till \<le> start then of_reader (raised (Inl (ValueError ''invalid calendar query'')))
      else case accepted_calendars db calendar of
        [] \<Rightarrow> of_reader (Inl (StrategyExternalReadError ''CALENDAR_NOT_FOUND'' 404))
      | r # _ \<Rightarrow>
          ebind (of_contract (public_strategy_contract rp)) (\<lambda>contract.
          ebind (of_reader (raised (raw_sessions (rr_payload r)))) (\<lambda>sessions.
          ebind (case emap (\<lambda>v. ebind (session_within start till v) (\<lambda>b. Inr (v, b))) sessions of
                   Inr vs \<Rightarrow> Inr (map fst (filter snd vs))
                 | Inl e \<Rightarrow> of_reader (Inl (StrategyExternalReadError ''CALENDAR_RECEIPT_INVALID'' 503))) (\<lambda>chosen.
          let item = calendar_item contract in
          ebind (of_reader (raised (emap (required_field item) [''contract_id'', ''contract_state'', ''decision_required_ids'']))) (\<lambda>vs.
            Inr \<lparr> kp_contract = vs ! 0, kp_state = vs ! 1, kp_decisions = vs ! 2, kp_availability = rr_availability r,
                  kp_blockers = rr_blockers r, kp_warnings = rr_warnings r,
                  kp_calendar = calendar_metadata (case rr_payload r of JObj kvs \<Rightarrow> kvs | _ \<Rightarrow> []) r,
                  kp_truncated = (limit < length chosen), kp_sessions = take limit chosen \<rparr>)))))"

definition respond_calendar :: "calendar_error + 'a \<Rightarrow> 'a response" where
  "respond_calendar r =
     (case r of
        Inr v \<Rightarrow> Answered v
      | Inl (Inr e) \<Rightarrow> respond (Inl e)
      | Inl (Inl (StrategyError code)) \<Rightarrow> Failed 503 code
      | Inl (Inl (StrategyRaised e)) \<Rightarrow> respond (Inl (Raised e)))"

definition strategy_calendar_route ::
  "'b Repository \<Rightarrow> strategy_db \<Rightarrow> string \<Rightarrow> string option \<Rightarrow> string option \<Rightarrow> string option \<Rightarrow> CalendarPage response" where
  "strategy_calendar_route rp db calendar start_arg end_arg limit_arg =
     respond_calendar
       (ebind (of_reader (raised (parse_iso_date (arg_text start_arg [])))) (\<lambda>start.
        ebind (of_reader (raised (parse_iso_date (arg_text end_arg [])))) (\<lambda>till.
        ebind (of_reader (raised (parse_limit limit_arg max_strategy_calendar_rows))) (\<lambda>n.
          strategy_calendar rp db (strip calendar) start till n))))"

section \<open>The table keeps its checks\<close>

lemma refused_Inr [simp]: "refused why \<noteq> Inr v"
  by (simp add: refused_def)

lemma text_column_Inr [simp]: "text_column v = Inr w \<longleftrightarrow> v = JNull \<and> w = None \<or> (\<exists>s. v = JStr s \<and> w = Some s)"
  by (auto simp: text_column_def split: json.splits)

lemma required_text [simp]: "required_column (text_column v) = Inr s \<longleftrightarrow> v = JStr s"
  by (auto simp: required_column_def ebind_eq_Inr)

text \<open>The columns a receipt is judged by.\<close>

lemma receipt_row_columns:
  assumes "receipt_row r t = Inr row"
  shows "jget r ''availability_state'' = JStr (rr_availability row) \<and> jget r ''freshness_state'' = JStr (rr_freshness row)
    \<and> jget r ''quality_state'' = JStr (rr_quality row) \<and> jget r ''receipt_id'' = JStr (rr_id row)"
  using assms unfolding receipt_row_def ebind_eq_Inr by (elim exE conjE) (clarsimp simp: ebind_eq_Inr)

lemma insert_receipt_Inr:
  "insert_receipt r t db = Inr db' \<longleftrightarrow>
     set statement_parameters \<subseteq> set (map fst r) \<and>
     (\<exists>row. receipt_row r t = Inr row \<and> jget r ''values_modified'' = JBool False \<and> jget r ''interpolation_performed'' = JBool False
        \<and> receipt_row_ok row \<and> rr_id row \<notin> set (map rr_id (sd_receipts db)) \<and> rr_contract row \<in> set (map cr_id (sd_contracts db))
        \<and> supersedes_ok row db
        \<and> db' = db\<lparr>sd_receipts := sd_receipts db @ [row]\<rparr>)"
  unfolding insert_receipt_def by (auto simp: ebind_eq_Inr split: if_splits)

definition receipts_ok :: "strategy_db \<Rightarrow> bool" where
  "receipts_ok db = (distinct (map rr_id (sd_receipts db))
     \<and> (\<forall>r \<in> set (sd_receipts db). receipt_row_ok r \<and> rr_contract r \<in> set (map cr_id (sd_contracts db))))"

lemma insert_receipt_ok: "insert_receipt r t db = Inr db' \<Longrightarrow> receipts_ok db \<Longrightarrow> receipts_ok db' \<and> sd_contracts db' = sd_contracts db"
  by (auto simp: insert_receipt_Inr receipts_ok_def)

lemma insert_receipts_ok:
  "insert_receipts clock n rs db = Inr (m, db') \<Longrightarrow> receipts_ok db \<Longrightarrow>
     receipts_ok db' \<and> m = n + length rs \<and> sd_contracts db' = sd_contracts db \<and> sd_counts db' = sd_counts db
     \<and> (\<exists>rows. sd_receipts db' = sd_receipts db @ rows \<and> list_all2 (\<lambda>r row. \<exists>t. receipt_row r t = Inr row) rs rows)"
proof (induction clock n rs db rule: insert_receipts.induct)
  case (2 clock n r rs db)
  then obtain db1 where first: "insert_receipt r (clock n) db = Inr db1" and rest: "insert_receipts clock (Suc n) rs db1 = Inr (m, db')"
    by (auto simp: ebind_eq_Inr)
  from first obtain row where row: "receipt_row r (clock n) = Inr row" "db1 = db\<lparr>sd_receipts := sd_receipts db @ [row]\<rparr>"
    by (auto simp: insert_receipt_Inr)
  from "2.IH" [OF rest] insert_receipt_ok [OF first "2.prems"(2)]
  obtain rows where "sd_receipts db' = sd_receipts db1 @ rows" "list_all2 (\<lambda>r row. \<exists>t. receipt_row r t = Inr row) rs rows"
    "receipts_ok db'" "m = Suc n + length rs" "sd_contracts db' = sd_contracts db1" "sd_counts db' = sd_counts db1"
    by blast
  with row show ?case by (auto intro!: exI [of _ "row # rows"])
qed simp

text \<open>Whatever the registration does, the table keeps its checks, if the other sessions keep them.\<close>

lemma register_keeps_ok:
  assumes "receipts_ok db" "\<And>d. receipts_ok d \<Longrightarrow> receipts_ok (meanwhile d)"
  shows "receipts_ok (snd (register_receipts rp digest clock meanwhile receipts db))"
proof (cases "insert_receipts clock 0 receipts db")
  case (Inl e)
  with assms show ?thesis by (auto simp: register_receipts_def transaction_def split: sum.splits)
next
  case (Inr v)
  then obtain m db1 where "insert_receipts clock 0 receipts db = Inr (m, db1)" by (cases v) auto
  with insert_receipts_ok [OF this assms(1)] assms show ?thesis
    by (auto simp: register_receipts_def transaction_def Let_def split: sum.splits)
qed

lemma inserted_rows_ok:
  "insert_receipts clock n rs db = Inr (m, db') \<Longrightarrow> r \<in> set rs \<Longrightarrow> \<exists>t row. receipt_row r t = Inr row \<and> receipt_row_ok row"
proof (induction clock n rs db rule: insert_receipts.induct)
  case (2 clock n r' rs db)
  then show ?case by (auto simp: ebind_eq_Inr insert_receipt_Inr)
qed simp

text \<open>C30: A receipt that says its data are available but whose data are not current is never registered: the table asks for
  \<open>CURRENT\<close> also of the delayed quotes that the validation accepts by policy, so their registration raises and leaves
  the tables as they were.\<close>

theorem delayed_quotes_never_registered:
  assumes "r \<in> set receipts" and "is_available r" and "delayed_quote r"
  shows "\<exists>e. register_receipts rp digest clock meanwhile receipts db = (Inl e, db)"
proof (cases "insert_receipts clock 0 receipts db")
  case (Inl e)
  then show ?thesis by (auto simp: register_receipts_def transaction_def split: sum.splits)
next
  case (Inr v)
  then obtain m db1 where "insert_receipts clock 0 receipts db = Inr (m, db1)" by (cases v) auto
  from inserted_rows_ok [OF this assms(1)] obtain t row where row: "receipt_row r t = Inr row" "receipt_row_ok row" by blast
  from receipt_row_columns [OF row(1)] assms(2,3)
  have "rr_availability row \<in> set public_available_states" "rr_freshness row = ''DELAYED''"
    by (auto simp: is_available_def delayed_quote_def)
  with row(2) have False by (simp add: receipt_row_ok_def available_row_ok_def)
  then show ?thesis ..
qed

section \<open>The status of registered receipts\<close>

lemma emap_image: "emap f xs = Inr ys \<Longrightarrow> x \<in> set xs \<Longrightarrow> \<exists>y \<in> set ys. f x = Inr y"
  by (induction xs arbitrary: ys) (auto simp: ebind_eq_Inr)

lemma latest_receipt_Some: "latest_receipt db c = Some r \<Longrightarrow> r \<in> set (sd_receipts db) \<and> rr_contract r = c"
proof -
  have "set (newest_first rs) = set rs" for rs by (simp add: newest_first_def)
  moreover assume "latest_receipt db c = Some r"
  then have "r \<in> set (newest_first (filter (\<lambda>r. rr_contract r = c) (sd_receipts db)))"
    by (auto simp: latest_receipt_def split: list.splits)
  ultimately show ?thesis by auto
qed

lemma status_item_columns:
  "jget (status_item db c) ''dataset_role'' = JStr (cr_role c)"
  "jget (status_item db c) ''availability_state''
     = JStr (case latest_receipt db (cr_id c) of None \<Rightarrow> cr_availability c | Some x \<Rightarrow> rr_availability x)"
  by (simp_all add: status_item_def jget_def Let_def)

lemma status_row_of_role:
  assumes "distinct (map cr_role (sd_contracts db))" and "c \<in> set (sd_contracts db)"
  shows "row_for shown (status_rows db) (cr_role c) = Some (status_item db c)"
proof -
  have keys: "map fst (map (\<lambda>r. (py_str shown (jget r ''dataset_role''), r)) (status_rows db)) = map cr_role (sort_key cr_edc (sd_contracts db))"
    by (simp add: status_rows_def status_item_columns)
  have "distinct (map cr_role (sort_key cr_edc (sd_contracts db)))"
    using assms(1) by (simp add: distinct_map)
  then have distinct: "distinct (map fst (rev (map (\<lambda>r. (py_str shown (jget r ''dataset_role''), r)) (status_rows db))))"
    by (simp only: rev_map [symmetric] keys distinct_rev)
  have "(cr_role c, status_item db c) \<in> set (rev (map (\<lambda>r. (py_str shown (jget r ''dataset_role''), r)) (status_rows db)))"
    using assms(2) by (auto simp: status_rows_def status_item_columns intro!: image_eqI)
  with distinct show ?thesis unfolding row_for_def by (rule map_of_is_SomeI)
qed

lemma public_contract_contracts:
  "public_strategy_contract rp = Inr c \<Longrightarrow> \<exists>p sha. load_strategy_contract rp = Inr (p, sha) \<and> jget c ''contracts'' = jget p ''contracts''"
  unfolding public_strategy_contract_def ebind_eq_Inr split_paired_Ex prod.case
  by (elim exE conjE, intro exI, rule conjI, assumption)
    (auto simp: public_keys_def ebind_eq_Inr required_field_def jget_def split: option.splits)

lemma status_row_absent:
  assumes "find (\<lambda>c. cr_role c = role) (sd_contracts db) = None"
  shows "row_for shown (status_rows db) role = None"
  using assms
  by (auto simp: row_for_def map_of_eq_None_iff find_None_iff status_rows_def status_item_columns)

lemma source_of_role:
  assumes "public_strategy_status rp rows migrated = Inr s" and "role \<in> set expected_roles"
    and "load_strategy_contract rp = Inr (p, sha)"
  shows "\<exists>cs item. jget p ''contracts'' = JArr cs \<and> JObj item \<in> set cs \<and> jget item ''dataset_role'' = JStr role
    \<and> (case row_for (rp_shown rp) rows role of None \<Rightarrow> item | Some r \<Rightarrow> r) \<in> set (ss_sources s)"
proof -
  from assms(1) obtain c where c: "public_strategy_contract rp = Inr c"
    and sources: "emap (status_source (rp_shown rp) rows) (json_items (jget c ''contracts'')) = Inr (ss_sources s)"
    by (auto simp: public_strategy_status_def ebind_eq_Inr)
  from public_contract_contracts [OF c] assms(3) have p: "jget c ''contracts'' = jget p ''contracts''" by auto
  from assms(3) obtain cs where cs: "jget p ''contracts'' = JArr cs" "contract_roles cs = map JStr expected_roles" by (rule loaded_strategy_contract)
  from assms(2) have "JStr role \<in> set (contract_roles cs)" by (simp add: cs(2))
  then obtain item where item: "JObj item \<in> set cs" "jget item ''dataset_role'' = JStr role"
    by (auto simp: contract_roles_def split: json.splits)
  then have "required_field item ''dataset_role'' = Inr (JStr role)"
    by (auto simp: required_field_def jget_def split: option.splits)
  then have "status_source (rp_shown rp) rows (JObj item) = Inr (case row_for (rp_shown rp) rows role of None \<Rightarrow> item | Some r \<Rightarrow> r)"
    by (simp only: status_source_def json.case) (simp add: raising_def hashable_def)
  moreover from emap_image [OF sources] item(1) obtain y where "y \<in> set (ss_sources s)" "status_source (rp_shown rp) rows (JObj item) = Inr y"
    by (auto simp: p cs(1) json_items_def)
  ultimately show ?thesis using cs(1) item by auto
qed

lemma unblocked_sources_available:
  assumes "public_strategy_status rp rows migrated = Inr s" and "ss_overall s \<noteq> ''BLOCKED_EXTERNAL_CONTRACT''" and "r \<in> set (ss_sources s)"
  shows "\<exists>t \<in> set public_available_states. jget r ''availability_state'' = JStr t"
proof -
  from assms(1,2) obtain blocked where blocked: "emap blocked_role (ss_sources s) = Inr blocked" "the_somes blocked = []"
    by (auto simp: public_strategy_status_def ebind_eq_Inr split: if_splits)
  then have "\<forall>b \<in> set blocked. b = None"
    by (auto simp: the_somes_def List.map_filter_def filter_empty_conv)
  moreover from emap_image [OF blocked(1) assms(3)] obtain b where "b \<in> set blocked" "blocked_role r = Inr b" by blast
  ultimately have "blocked_role r = Inr None" by auto
  then show ?thesis by (auto simp: blocked_role_def ebind_eq_Inr split: if_splits)
qed

text \<open>The catalog row of a role; there is none before the migration.\<close>

definition role_row :: "strategy_db option \<Rightarrow> string \<Rightarrow> ContractRow option" where
  "role_row db role = (case db of None \<Rightarrow> None | Some d \<Rightarrow> find (\<lambda>c. cr_role c = role) (sd_contracts d))"

text \<open>C17: The public status is blocked unless each of the eleven roles is available on the best evidence there is. When the
  database has a receipt for the role, the latest one is accepted, current and of passing quality, with a provider, a
  lineage and a content digest. Without a receipt the catalog row of the role has to say that it is available; and before
  the migration, or where the catalog has no such row, the item of the verified contract has to say so.\<close>

theorem served_status_is_fail_closed:
  assumes tables: "\<And>d. db = Some d \<Longrightarrow> receipts_ok d \<and> distinct (map cr_role (sd_contracts d))"
    and answered: "strategy_status_route rp db = Answered s" and unblocked: "ss_overall s \<noteq> ''BLOCKED_EXTERNAL_CONTRACT''"
    and role: "role \<in> set expected_roles"
  shows "\<exists>p sha cs item. load_strategy_contract rp = Inr (p, sha) \<and> jget p ''contracts'' = JArr cs
    \<and> JObj item \<in> set cs \<and> jget item ''dataset_role'' = JStr role
    \<and> (case role_row db role of
         None \<Rightarrow> (\<exists>t \<in> set public_available_states. jget item ''availability_state'' = JStr t)
       | Some c \<Rightarrow>
           (case latest_receipt (the db) (cr_id c) of
              None \<Rightarrow> cr_availability c \<in> set public_available_states
            | Some r \<Rightarrow> r \<in> set (sd_receipts (the db)) \<and> rr_contract r = cr_id c \<and> rr_accepted r \<noteq> None
                \<and> rr_freshness r = ''CURRENT'' \<and> rr_quality r \<in> {''PASS'', ''PASS_WITH_WARNINGS''}
                \<and> rr_provider r \<noteq> None \<and> rr_lineage r \<noteq> None \<and> rr_content_sha256 r \<noteq> None))"
proof -
  let ?rows = "case db of None \<Rightarrow> [] | Some d \<Rightarrow> status_rows d"
  from answered have status: "public_strategy_status rp ?rows (db \<noteq> None) = Inr s"
    by (auto simp: strategy_status_route_def respond_contract_def split: sum.splits strategy_error.splits)
  then obtain k where "public_strategy_contract rp = Inr k" by (auto simp: public_strategy_status_def ebind_eq_Inr)
  from public_contract_contracts [OF this] obtain p sha where p: "load_strategy_contract rp = Inr (p, sha)" by blast
  from source_of_role [OF status role p] obtain cs item where item: "jget p ''contracts'' = JArr cs" "JObj item \<in> set cs"
      "jget item ''dataset_role'' = JStr role"
    and source: "(case row_for (rp_shown rp) ?rows role of None \<Rightarrow> item | Some r \<Rightarrow> r) \<in> set (ss_sources s)" by blast
  note available = unblocked_sources_available [OF status unblocked source]
  have "case role_row db role of
         None \<Rightarrow> (\<exists>t \<in> set public_available_states. jget item ''availability_state'' = JStr t)
       | Some c \<Rightarrow>
           (case latest_receipt (the db) (cr_id c) of
              None \<Rightarrow> cr_availability c \<in> set public_available_states
            | Some r \<Rightarrow> r \<in> set (sd_receipts (the db)) \<and> rr_contract r = cr_id c \<and> rr_accepted r \<noteq> None
                \<and> rr_freshness r = ''CURRENT'' \<and> rr_quality r \<in> {''PASS'', ''PASS_WITH_WARNINGS''}
                \<and> rr_provider r \<noteq> None \<and> rr_lineage r \<noteq> None \<and> rr_content_sha256 r \<noteq> None)"
  proof (cases "role_row db role")
    case None
    then have "row_for (rp_shown rp) ?rows role = None"
      by (cases db) (auto simp: role_row_def row_for_def [of _ "[]"] status_row_absent)
    then show ?thesis using None available by simp
  next
    case (Some c)
    then obtain d where d: "db = Some d" "find (\<lambda>c. cr_role c = role) (sd_contracts d) = Some c"
      by (auto simp: role_row_def split: option.splits)
    then have c: "c \<in> set (sd_contracts d)" "cr_role c = role" by (auto simp: find_Some_iff)
    have ok: "receipts_ok d" "distinct (map cr_role (sd_contracts d))" using tables d(1) by blast+
    have "row_for (rp_shown rp) ?rows role = Some (status_item d c)"
      using status_row_of_role [OF ok(2) c(1)] by (simp add: c(2) d(1))
    with available have there: "(case latest_receipt d (cr_id c) of None \<Rightarrow> cr_availability c | Some x \<Rightarrow> rr_availability x)
        \<in> set public_available_states"
      by (auto simp: status_item_columns)
    show ?thesis
    proof (cases "latest_receipt d (cr_id c)")
      case None
      with there Some d(1) show ?thesis by simp
    next
      case latest: (Some r)
      from latest_receipt_Some [OF latest] have r: "r \<in> set (sd_receipts d)" "rr_contract r = cr_id c" by auto
      with ok(1) have "receipt_row_ok r" by (simp add: receipts_ok_def)
      with there latest have "available_row_ok r" by (simp add: receipt_row_ok_def)
      then have "rr_accepted r \<noteq> None \<and> rr_freshness r = ''CURRENT'' \<and> rr_quality r \<in> {''PASS'', ''PASS_WITH_WARNINGS''}
          \<and> rr_provider r \<noteq> None \<and> rr_lineage r \<noteq> None \<and> rr_content_sha256 r \<noteq> None"
        by (auto simp: available_row_ok_def)
      with r show ?thesis by (simp only: d(1) Some [unfolded d(1)] latest option.case option.sel simp_thms)
    qed
  qed
  with p item show ?thesis by (intro exI conjI)
qed

end
