(* ===== verification/StrategyExamples.thy ===== *)
theory StrategyExamples
  imports StrategyReceipts
begin

text \<open>A concrete contract of the eleven roles, two receipts, and the tables they are registered in.\<close>

definition ex_sha :: string where
  "ex_sha = ''bbbbbbbbbbbbbbbbbbbbbbbbbbbbbbbbbbbbbbbbbbbbbbbbbbbbbbbbbbbbbbbb''"

definition ex_item :: "string \<Rightarrow> json" where
  "ex_item role = JObj
     [(''dataset_role'', JStr role), (''contract_id'', JStr role), (''contract_state'', JStr ''CLOSED_SPEC''),
      (''availability_state'', JStr ''BLOCKED_EXTERNAL_CONTRACT''), (''quality'', JObj [(''state'', JStr ''NOT_EVALUATED'')]),
      (''freshness'', JObj [(''state'', JStr ''NOT_EVALUATED_SLA'')]), (''blocker_ids'', JArr [JStr ''B'']),
      (''decision_required_ids'', JArr []), (''required_receipt_fields'', JArr [JStr ''provider_id'', JStr ''content''])]"

definition ex_document :: json where
  "ex_document = JObj
     [(''schema_version'', JInt 1), (''bundle_id'', JStr ''bundle''), (''contract_revision'', JStr ''1.0''),
      (''bundle_status'', JStr ''BLOCKED_EXTERNAL_CONTRACT''), (''manifest_relative_path'', JStr strategy_manifest_path),
      (''instruments'', JArr (map JStr [''A'', ''B'', ''C'', ''D'', ''E'', ''F'', ''G'', ''H'', ''I'', ''J'', ''K''])),
      (''contracts'', JArr (map ex_item expected_roles)), (''decision_registry'', JObj []),
      (''security'', JObj (map (\<lambda>(k, b). (k, JBool b)) security_flags))]"

definition ex_manifest :: json where
  "ex_manifest = JObj
     [(''schema_version'', JInt 1), (''bundle_id'', JStr ''bundle''),
      (''files'', JArr (map (\<lambda>p. JObj [(''relative_path'', JStr p), (''sha256'', JStr ex_sha)])
                       [strategy_contract_path, receipt_schema_path]))]"

definition ex_repo :: "string Repository" where
  "ex_repo = \<lparr> rp_entry = (\<lambda>p. Regular p), rp_sha256 = (\<lambda>b. ex_sha),
     rp_json = (\<lambda>b. Some (if b = strategy_contract_path then ex_document else if b = strategy_manifest_path then ex_manifest
                         else JObj [])),
     rp_csv = (\<lambda>b. ([], True)), rp_shown = (\<lambda>v. []), rp_rows_sha256 = (\<lambda>rs. ex_sha) \<rparr>"

definition ex_receipt :: "string \<Rightarrow> string \<Rightarrow> string \<Rightarrow> (string \<times> json) list" where
  "ex_receipt role freshness warning =
     [(''schema_version'', JInt 1), (''receipt_id'', JStr (''r-'' @ role)), (''contract_id'', JStr role),
      (''dataset_role'', JStr role), (''availability_state'', JStr ''AVAILABLE_WITH_WARNINGS''), (''dataset_id'', JNull),
      (''provider_id'', JStr ''P''), (''provider_data_version'', JNull), (''lineage_id'', JStr ''L''), (''manifest_sha256'', JStr ex_sha),
      (''ordered_content_sha256'', JStr ex_sha), (''calendar_id'', JNull), (''source_as_of'', JNull),
      (''source_observed_at_utc'', JStr ''2026-07-31T00:09Z''), (''available_at_utc'', JStr ''2026-07-31T00:10+00:00''),
      (''accepted_at_utc'', JStr ''2026-07-31T00:10Z''), (''expected_by_utc'', JNull), (''published_at_utc'', JNull),
      (''freshness_state'', JStr freshness), (''quality_state'', JStr ''PASS_WITH_WARNINGS''),
      (''revision_state'', JStr ''CURRENT_ACCEPTED''), (''cost_confidence'', JStr ''NOT_APPLICABLE''),
      (''warning_ids'', JArr [JStr warning]), (''blocker_ids'', JArr []), (''values_modified'', JBool False),
      (''interpolation_performed'', JBool False), (''account_fingerprint'', JNull), (''payload'', JObj [(''content'', JInt 1)]),
      (''supersedes_receipt_id'', JNull), (''receipt_sha256'', JStr ex_sha)]"

definition ex_quote :: "(string \<times> json) list" where
  "ex_quote = ex_receipt ''PROPOSAL_PRICE_SNAPSHOT'' ''DELAYED'' ''SIM_DELAYED_QUOTE_ACCEPTED_BY_POLICY''"

definition ex_calendar :: "(string \<times> json) list" where
  "ex_calendar = ex_receipt ''COMMON_REGULAR_SESSION_CALENDAR'' ''CURRENT'' ''SOURCE_PUBLISHED_AT_NOT_EXPOSED''"

definition ex_tables :: strategy_db where
  "ex_tables = \<lparr> sd_contracts = map (\<lambda>(role, c). \<lparr> cr_id = role, cr_edc = ''EDC-'' @ [c], cr_role = role, cr_state = ''CLOSED_SPEC'',
       cr_availability = (if role = ''COMMON_REGULAR_SESSION_CALENDAR'' then ''BLOCKED_EXTERNAL_CONTRACT'' else ''AVAILABLE''),
       cr_provider = None, cr_dataset = None, cr_price_basis = None, cr_horizon = None, cr_endpoint = None, cr_blockers = [],
       cr_decisions = [], cr_manifest_sha256 = ex_sha \<rparr>) (zip expected_roles ''0123456789A''),
     sd_receipts = [], sd_counts = [] \<rparr>"

lemma ex_quote_valid: "validate_receipt ex_repo (\<lambda>v. ex_sha) ex_quote = Inr ()"
  by code_simp

lemma ex_quote_claims: "is_available ex_quote" "delayed_quote ex_quote"
  by code_simp+

theorem validated_receipt_fails_closed_witness:
  "\<not> key_in ''password'' (JObj ex_quote) \<and> jget ex_quote ''accepted_at_utc'' \<noteq> JNull
    \<and> jget ex_quote ''quality_state'' \<in> {JStr ''PASS'', JStr ''PASS_WITH_WARNINGS''}"
proof -
  note claim = validated_receipt_fails_closed [OF ex_quote_valid]
  have "lower ''password'' \<in> set secret_keys" by code_simp
  with claim have "\<not> key_in ''password'' (JObj ex_quote)" by (elim conjE) blast
  moreover from claim ex_quote_claims(1)
  have "jget ex_quote ''accepted_at_utc'' \<noteq> JNull \<and> jget ex_quote ''quality_state'' \<in> {JStr ''PASS'', JStr ''PASS_WITH_WARNINGS''}"
    by (elim conjE impE) (assumption, intro conjI)
  ultimately show ?thesis by (intro conjI) simp_all
qed

theorem delayed_quotes_never_registered_witness:
  "validate_receipt ex_repo (\<lambda>v. ex_sha) ex_quote = Inr ()
    \<and> (\<exists>e. register_receipts ex_repo (\<lambda>v. ex_sha) int (\<lambda>d. d) [ex_quote] ex_tables = (Inl e, ex_tables))"
proof
  show "\<exists>e. register_receipts ex_repo (\<lambda>v. ex_sha) int (\<lambda>d. d) [ex_quote] ex_tables = (Inl e, ex_tables)"
    by (rule delayed_quotes_never_registered [OF _ ex_quote_claims]) simp
qed (rule ex_quote_valid)

text \<open>A registered calendar: the status is then available with warnings.\<close>

definition registered_tables :: "strategy_db option" where
  "registered_tables = (case insert_receipts int 0 [ex_calendar] ex_tables of Inl _ \<Rightarrow> None | Inr (_, db) \<Rightarrow> Some db)"

lemma registered_example:
  "case registered_tables of None \<Rightarrow> False
   | Some db \<Rightarrow> distinct (map cr_role (sd_contracts db)) \<and> set expected_roles \<subseteq> set (map cr_role (sd_contracts db))
       \<and> length (sd_receipts db) = 1
       \<and> (case strategy_status_route ex_repo (Some db) of Answered s \<Rightarrow> ss_overall s = ''AVAILABLE_WITH_WARNINGS'' | _ \<Rightarrow> False)"
  by code_simp

theorem served_status_is_fail_closed_witness:
  "\<exists>db s. registered_tables = Some db \<and> strategy_status_route ex_repo (Some db) = Answered s
    \<and> ss_overall s = ''AVAILABLE_WITH_WARNINGS''
    \<and> (\<exists>c \<in> set (sd_contracts db). cr_role c = ''COMMON_REGULAR_SESSION_CALENDAR''
         \<and> (case latest_receipt db (cr_id c) of None \<Rightarrow> cr_availability c \<in> set public_available_states
            | Some r \<Rightarrow> rr_accepted r \<noteq> None \<and> rr_freshness r = ''CURRENT''))"
proof -
  let ?role = "''COMMON_REGULAR_SESSION_CALENDAR''"
  from registered_example obtain db s where db: "registered_tables = Some db"
    and tables: "distinct (map cr_role (sd_contracts db))" "set expected_roles \<subseteq> set (map cr_role (sd_contracts db))"
    and s: "strategy_status_route ex_repo (Some db) = Answered s" "ss_overall s = ''AVAILABLE_WITH_WARNINGS''"
    by (auto split: option.splits response.splits)
  have "receipts_ok ex_tables" by (simp add: receipts_ok_def ex_tables_def)
  with db insert_receipts_ok [of int 0 "[ex_calendar]" ex_tables] have ok: "receipts_ok db"
    by (auto simp: registered_tables_def split: sum.splits)
  have role: "?role \<in> set expected_roles" by code_simp
  with tables(2) have "?role \<in> cr_role ` set (sd_contracts db)" by auto
  then obtain c where c: "find (\<lambda>c. cr_role c = ?role) (sd_contracts db) = Some c"
    by (cases "find (\<lambda>c. cr_role c = ?role) (sd_contracts db)") (auto simp: find_None_iff)
  have "ss_overall s \<noteq> ''BLOCKED_EXTERNAL_CONTRACT''" by (simp add: s(2))
  from served_status_is_fail_closed [OF _ s(1) this role] ok tables(1) c
  have "case latest_receipt db (cr_id c) of None \<Rightarrow> cr_availability c \<in> set public_available_states
      | Some r \<Rightarrow> rr_accepted r \<noteq> None \<and> rr_freshness r = ''CURRENT''"
    by (auto simp: role_row_def split: option.splits)
  moreover have "c \<in> set (sd_contracts db)" "cr_role c = ?role" using c by (auto simp: find_Some_iff)
  ultimately show ?thesis using db s by blast
qed

end
