(* ===== verification/Spec2Isabelle.thy ===== *)
theory Spec2Isabelle
  imports NormalizeBars SaxoClient ChartPages PeriodicDaemon DeriveBars RunExamples OAuthCluster
    ReadExamples PageExamples PublishExamples StrategyExamples
begin

text \<open>
  A model of the ingest of \<open>saxo_db\<close> (package \<open>src/market_db\<close>): market bars are fetched from the
  Saxo OpenAPI SIM gateway, normalised, and committed to a PostgreSQL database by a scheduled daemon,
  with review of revised provider data and derived tables on top, and served, with research data and
  receipts of external data, by a read-only API.

  The parts and their theories, from the bottom up:

  \<^item> Vocabulary. \<open>SaxoPrelude\<close>: results that raise, transactions, keyed tables and the locale
    \<open>keyed_store\<close>, which \<open>MarketTables\<close> and \<open>SessionCalendar\<close> interpret on their tables.
    \<open>PyValues\<close>: the exceptions, instants and decimals (values with the 28-digit context of Python).
    \<open>PyText\<close>: JSON values, \<open>int\<close>, \<open>Decimal\<close>, dates and ISO times as texts, with their round trips.
    \<open>Effects\<close>: methods that raise and change a state.
  \<^item> Reading the provider. \<open>InstrumentRegistry\<close> (\<open>instrument_registry.py\<close>), \<open>SaxoClient\<close>
    (\<open>saxo_client.py\<close>: the GET-only client and its retries), \<open>ChartPages\<close> (\<open>acquire_pages.py\<close>),
    \<open>NormalizeBars\<close> (\<open>normalize_bars.py\<close>), \<open>RawArtifacts\<close> (\<open>raw_artifacts.py\<close>), \<open>OAuth\<close> and
    \<open>OAuthCluster\<close> (\<open>saxo_auth.py\<close>: tokens, and the interleavings of several processes).
  \<^item> The calendar. \<open>SessionCalendar\<close> (\<open>session_calendar.py\<close>): generated sessions, holidays, assignment.
  \<^item> The database. \<open>MarketTables\<close>: the tables of \<open>src/db/migrations\<close> the ingest writes, with their keys and
    checks. \<open>IncrementalStore\<close> and \<open>IncrementalCommit\<close> (\<open>incremental_update.py\<close>): watermarks, staging,
    quarantine, the commit, failures and warnings. \<open>DeriveBars\<close> (\<open>derive_bars.py\<close>) and \<open>C2Imputation\<close>
    (\<open>c2_imputation.py\<close>), which a commit calls.
  \<^item> The runs. \<open>IncrementalRun\<close>: \<open>run_incremental\<close> and \<open>run_full_refetch\<close> from the selection of the
    instruments to the summary. \<open>ReconcileLoop\<close>: \<open>reconcile_incremental\<close> over any runners (the locale
    \<open>kept_by_runners\<close> states what the runners must keep) and over those of the program.
    \<open>RevisionWindow\<close>, \<open>RevisionReconcile\<close> and \<open>RevisionRun\<close> (\<open>data_version_reconcile.py\<close>): the
    comparison of windows, the review, the bounded apply and the run around them. \<open>RunExamples\<close>: complete
    runs evaluated in the logic.
  \<^item> The scheduler. \<open>ScheduleSlots\<close> and \<open>PeriodicDaemon\<close> (\<open>periodic_update.py\<close> and
    \<open>periodic_update_service.py\<close>): slots, execution with its evidence, retries, blockers and the daemon.

  \<^item> Research data. \<open>PyJson\<close>: operators of Python on parsed JSON. \<open>TotalReturn\<close>
    (\<open>total_return_contract.py\<close>, \<open>total_return_history.py\<close>): contracts bound to files by digests, and the
    series read from them. \<open>TotalReturnQuality\<close>, \<open>TotalReturnUpdate\<close> and \<open>TotalReturnPublish\<close>
    (\<open>total_return_update.py\<close>): the quality gate, the answer of the provider, and the transaction that
    publishes a dataset; \<open>PublishExamples\<close> publishes one.
  \<^item> The read API (\<open>read_api.py\<close>). \<open>CursorCodec\<close>: signed cursors. \<open>KeysetPages\<close>: the locale
    \<open>keyset_query\<close>, in which following the cursors is proved to implement one unpaged query.
    \<open>ReadRequests\<close>: arguments and errors of a route. \<open>ReadTotalReturn\<close> and \<open>ReadSnapshot\<close>, which
    interpret that locale on their queries, and \<open>ReadStatus\<close>. \<open>ExampleRepository\<close>, \<open>ReadExamples\<close> and
    \<open>PageExamples\<close>: concrete repositories and requests.
  \<^item> Strategy data. \<open>StrategyContract\<close> (\<open>strategy_external_contract.py\<close>): the contract of the eleven
    roles, the validation of receipts, the public status. \<open>StrategyReceipts\<close>
    (\<open>strategy_external_receipt_ops.py\<close>, the migrations \<open>0034\<close> and \<open>0035\<close>, the routes
    \<open>/api/v1/strategy-data\<close>): the registered receipts and what is served of them.
    \<open>StrategyExamples\<close>: a contract and two receipts.

  How state corresponds. The database is the record \<open>market_db\<close>, one list of rows per table; a
  connection block is a \<open>transaction\<close> that commits all or nothing, and advisory locks serialise whole
  transactions. A method that changes objects returns them updated, also when it raises. An exception is
  a value of \<open>exn\<close> on the left of a sum; the text of a database error is not modelled beyond its kind.
  The network, the clock, random texts, digests, JSON encoding and native calls are parameters
  (\<open>network\<close>, \<open>Surroundings\<close>, \<open>OAuthPlatform\<close>); what a theorem needs of them is a named hypothesis
  (\<open>serves_history\<close>: a chart source that answers, when it answers, as the documents under \<open>docs\<close> describe \<open>Mode\<close>,
  \<open>Time\<close> and \<open>Count\<close>; \<open>rotating\<close>: a token endpoint that takes only the newest refresh token and does not fail), and
  each such theorem has a witness with a concrete function. Time is an integer number of microseconds, float seconds are rationals.

  Loops. The retries of a GET, the pages of a chart and the two runs of a scheduled job run on the
  bounds of the source (4 attempts, the page limit, 2 runs), so no fuel is added; the reconciliation is
  a total function because a turn adds a pass or, within the limit, a refetched series.

  What the lemmas show. The properties marked C1 to C40 are the claims; in the order of their importance
  they say that a commit and a bounded apply are exact and atomic, that the summaries of the runs tell the
  truth about the database, that pages are partitioned without repair, that instruments whose blocker applies
  do not run, that the client only reads, that the reconciliation ends within its bounds, that the refresh
  lock keeps the credential in step with the endpoint, that full replacements and applies were
  authorised, that cursors page through exactly one query, that snapshots and research series are served
  only when they match their manifest or contract, that a published dataset is what the reader serves,
  that the status of the strategy data is blocked unless every role has an accepted and current receipt
  or, without a receipt, a catalog or contract entry that calls it available,
  that a forward fetch misses no bar, and that the daemon keeps its invariant; the others
  follow. The remaining lemmas are the steps to these and laws of the vocabulary.

  Not modelled: the user interfaces (\<open>operator_ui.py\<close>, \<open>data_ui.py\<close>, \<open>mcp_server.py\<close>) and the
  process lifecycle of the services, the command lines, schema migration, backup and export, the import
  of legacy data, the onboarding of candidates, the C2 read session and the building of its receipts;
  of \<open>read_api.py\<close> the connection pool, the user-interface routes and the SQL of the
  status views; in the modelled files the native keychain calls, the HTTP exchange and SQL grants.

  Small differences. The callback server of a login answers one request at a time, the source has threads.
  \<open>verification_status\<close> of a calendar is never NULL in \<open>eligible_bars\<close>, as \<open>apply_calendars\<close> always writes it.
  A C2 plan over slots of which some have no time zone is blocked, where sorting them raises a type error in the
  source. The rows of the status query are typed, so a wrong number of columns is not considered.
\<close>

end
